(* ===== verification/Txn.thy ===== *)
theory Txn
  imports Prelude
begin

text \<open>
  Transactions. The body of a database transaction takes the state the transaction sees and
  either fails, and then leaves nothing behind, or returns a value and the state it would
  commit; \<open>run_tx\<close> is the commit or the rollback around it (internal/db/tx.go). A
  savepoint inside the body is \<open>tryT\<close>. The second half is the vocabulary for reading a
  transaction as a relation between states, which carries the invariant and isolation proofs
  of the components, and the tables of rows with the laws of select and update.
\<close>

type_synonym ('e, 's, 'a) tx = "'s \<Rightarrow> 'e + 'a \<times> 's"

definition retT :: "'a \<Rightarrow> ('e, 's, 'a) tx" where
  "retT x s = Inr (x, s)"

definition failT :: "'e \<Rightarrow> ('e, 's, 'a) tx" where
  "failT e s = Inl e"

definition bindT :: "('e, 's, 'a) tx \<Rightarrow> ('a \<Rightarrow> ('e, 's, 'b) tx) \<Rightarrow> ('e, 's, 'b) tx" where
  "bindT m f s = (case m s of Inl e \<Rightarrow> Inl e | Inr (x, s') \<Rightarrow> f x s')"

definition thenT :: "('e, 's, 'a) tx \<Rightarrow> ('e, 's, 'b) tx \<Rightarrow> ('e, 's, 'b) tx" where
  "thenT m n = bindT m (\<lambda>_. n)"

text \<open>A statement that only reads, and one that only writes.\<close>

definition readT :: "('s \<Rightarrow> 'a) \<Rightarrow> ('e, 's, 'a) tx" where
  "readT g s = Inr (g s, s)"

definition writeT :: "('s \<Rightarrow> 's) \<Rightarrow> ('e, 's, unit) tx" where
  "writeT g s = Inr ((), g s)"

text \<open>
  \<open>mapErrT\<close> replaces an error on its way out. \<open>tryT\<close> runs its argument under a
  savepoint: an error rolls back to the state before it and becomes a value.
\<close>

definition mapErrT :: "('e \<Rightarrow> 'f) \<Rightarrow> ('e, 's, 'a) tx \<Rightarrow> ('f, 's, 'a) tx" where
  "mapErrT h m s = (case m s of Inl e \<Rightarrow> Inl (h e) | Inr r \<Rightarrow> Inr r)"

definition tryT :: "('e, 's, 'a) tx \<Rightarrow> ('f, 's, 'e + 'a) tx" where
  "tryT m s = (case m s of Inl e \<Rightarrow> Inr (Inl e, s) | Inr (x, s') \<Rightarrow> Inr (Inr x, s'))"

definition liftT :: "'e + 'a \<Rightarrow> ('e, 's, 'a) tx" where
  "liftT r s = (case r of Inl e \<Rightarrow> Inl e | Inr x \<Rightarrow> Inr (x, s))"

definition whenT :: "bool \<Rightarrow> ('e, 's, unit) tx \<Rightarrow> ('e, 's, unit) tx" where
  "whenT b m = (if b then m else retT ())"

text \<open>A loop over a list whose body returns one result per element, first error first.\<close>

fun eachT :: "('a \<Rightarrow> ('e, 's, 'b) tx) \<Rightarrow> 'a list \<Rightarrow> ('e, 's, 'b list) tx" where
  "eachT f [] = retT []"
| "eachT f (x # xs) = bindT (f x) (\<lambda>y. bindT (eachT f xs) (\<lambda>ys. retT (y # ys)))"

text \<open>A loop that carries an accumulator.\<close>

fun foldT :: "('a \<Rightarrow> 'b \<Rightarrow> ('e, 's, 'b) tx) \<Rightarrow> 'a list \<Rightarrow> 'b \<Rightarrow> ('e, 's, 'b) tx" where
  "foldT f [] b = retT b"
| "foldT f (x # xs) b = bindT (f x b) (foldT f xs)"

text \<open>Commit on success, rollback on failure.\<close>

definition run_tx :: "('e, 's, 'a) tx \<Rightarrow> 's \<Rightarrow> ('e + 'a) \<times> 's" where
  "run_tx m s = (case m s of Inl e \<Rightarrow> (Inl e, s) | Inr (x, s') \<Rightarrow> (Inr x, s'))"

named_theorems tx_eval \<open>evaluation of transaction combinators on a state\<close>

lemmas [tx_eval] = retT_def failT_def bindT_def thenT_def readT_def writeT_def mapErrT_def
  tryT_def liftT_def whenT_def run_tx_def

lemma bindT_Inr: "bindT m f s = Inr r \<longleftrightarrow> (\<exists>x s'. m s = Inr (x, s') \<and> f x s' = Inr r)"
  by (auto simp: bindT_def split: sum.splits)

lemma bindT_Inl: "bindT m f s = Inl e \<longleftrightarrow>
    m s = Inl e \<or> (\<exists>x s'. m s = Inr (x, s') \<and> f x s' = Inl e)"
  by (auto simp: bindT_def split: sum.splits)

lemma thenT_Inr: "thenT m n s = Inr r \<longleftrightarrow> (\<exists>x s'. m s = Inr (x, s') \<and> n s' = Inr r)"
  by (simp add: thenT_def bindT_Inr)

lemma retT_Inr [simp]: "retT x s = Inr r \<longleftrightarrow> r = (x, s)"
  by (auto simp: retT_def)

lemma failT_Inr [simp]: "\<not> failT e s = Inr r"
  by (simp add: failT_def)

lemma readT_Inr [simp]: "readT g s = Inr r \<longleftrightarrow> r = (g s, s)"
  by (auto simp: readT_def)

lemma writeT_Inr [simp]: "writeT g s = Inr r \<longleftrightarrow> r = ((), g s)"
  by (auto simp: writeT_def)

lemma mapErrT_Inr [simp]: "mapErrT h m s = Inr r \<longleftrightarrow> m s = Inr r"
  by (auto simp: mapErrT_def split: sum.splits)

lemma liftT_Inr [simp]: "liftT r s = Inr q \<longleftrightarrow> (\<exists>x. r = Inr x \<and> q = (x, s))"
  by (auto simp: liftT_def split: sum.splits)

lemma run_tx_failed: "fst (run_tx m s) = Inl e \<Longrightarrow> snd (run_tx m s) = s"
  by (auto simp: run_tx_def split: sum.splits)

lemma run_tx_ok: "fst (run_tx m s) = Inr x \<longleftrightarrow> (\<exists>s'. m s = Inr (x, s'))"
  by (auto simp: run_tx_def split: sum.splits)

lemma run_tx_Inr: "run_tx m s = (Inr x, s') \<longleftrightarrow> m s = Inr (x, s')"
  by (auto simp: run_tx_def split: sum.splits)

lemmas tx_inr = bindT_Inr thenT_Inr retT_Inr failT_Inr readT_Inr writeT_Inr mapErrT_Inr liftT_Inr

text \<open>A loop whose body only reads leaves the state, and pairs every element with its result.\<close>

lemma eachT_reads:
  assumes "\<And>x y s'. x \<in> set xs \<Longrightarrow> f x s = Inr (y, s') \<Longrightarrow> s' = s \<and> P x y"
    and "eachT f xs s = Inr (ys, s')"
  shows "s' = s \<and> list_all2 P xs ys"
  using assms
proof (induction xs arbitrary: ys s')
  case Nil
  then show ?case by simp
next
  case (Cons x xs)
  from Cons.prems(2) obtain y s1 zs where x: "f x s = Inr (y, s1)" and r: "eachT f xs s1 = Inr (zs, s')"
    and ys: "ys = y # zs"
    by (auto simp: bindT_Inr)
  have "s1 = s \<and> P x y"
    by (rule Cons.prems(1)) (simp_all add: x)
  then show ?case
    using Cons.IH [of zs s'] Cons.prems(1) r ys by auto
qed

text \<open>A loop whose body returns its result when it does not fail.\<close>

lemma eachT_same_length: "eachT f xs s = Inr (ys, s') \<Longrightarrow> length ys = length xs"
  by (induction xs arbitrary: ys s) (auto simp: bindT_Inr)

section \<open>A transaction as a relation between states\<close>

text \<open>
  \<open>within R m\<close>: whenever \<open>m\<close> returns, the state it was given and the state it leaves
  are related by \<open>R\<close>. Instances are invariants (\<open>R s s' = (I s \<longrightarrow> I s')\<close>) and frame
  conditions (\<open>R s s'\<close>: the part of the state the code must not touch is the same).
\<close>

definition within :: "('s \<Rightarrow> 's \<Rightarrow> bool) \<Rightarrow> ('e, 's, 'a) tx \<Rightarrow> bool" where
  "within R m \<longleftrightarrow> (\<forall>s x s'. m s = Inr (x, s') \<longrightarrow> R s s')"

lemma withinI: "(\<And>s x s'. m s = Inr (x, s') \<Longrightarrow> R s s') \<Longrightarrow> within R m"
  by (auto simp: within_def)

lemma withinD: "within R m \<Longrightarrow> m s = Inr (x, s') \<Longrightarrow> R s s'"
  by (auto simp: within_def)

text \<open>
  The transaction combinators need two laws of the relation, that doing nothing is allowed and
  that two allowed steps make one; then every composite statement is within \<open>R\<close> when its
  parts are.
\<close>

locale tx_relation =
  fixes R :: "'s \<Rightarrow> 's \<Rightarrow> bool"
  assumes R_refl: "R s s"
    and R_trans: "R s t \<Longrightarrow> R t u \<Longrightarrow> R s u"
begin

lemma ret: "within R (retT x)"
  by (auto simp: within_def R_refl)

lemma fail: "within R (failT e)"
  by (simp add: within_def)

lemma read: "within R (readT g)"
  by (auto simp: within_def R_refl)

lemma lift: "within R (liftT r)"
  by (auto simp: within_def R_refl)

lemma bind: "within R m \<Longrightarrow> (\<And>x. within R (f x)) \<Longrightarrow> within R (bindT m f)"
  by (force simp: within_def bindT_Inr intro: R_trans)

lemma seq: "within R m \<Longrightarrow> within R n \<Longrightarrow> within R (thenT m n)"
  by (simp add: thenT_def bind)

lemma map_err: "within R m \<Longrightarrow> within R (mapErrT h m)"
  by (simp add: within_def)

lemma savepoint: "within R m \<Longrightarrow> within R (tryT m)"
  by (fastforce simp: within_def tryT_def R_refl split: sum.splits)

lemma guarded: "within R m \<Longrightarrow> within R (whenT b m)"
  by (simp add: whenT_def ret)

lemma branch: "within R m \<Longrightarrow> within R n \<Longrightarrow> within R (if b then m else n)"
  by simp

lemma option: "within R m \<Longrightarrow> (\<And>x. within R (f x)) \<Longrightarrow>
    within R (case v of None \<Rightarrow> m | Some x \<Rightarrow> f x)"
  by (cases v) simp_all

lemma sum: "(\<And>x. within R (f x)) \<Longrightarrow> (\<And>y. within R (g y)) \<Longrightarrow>
    within R (case v of Inl x \<Rightarrow> f x | Inr y \<Rightarrow> g y)"
  by (cases v) simp_all

lemma prod: "(\<And>x y. within R (f x y)) \<Longrightarrow> within R (case v of (x, y) \<Rightarrow> f x y)"
  by (cases v) simp

lemma each: "(\<And>x. within R (f x)) \<Longrightarrow> within R (eachT f xs)"
  by (induction xs) (simp_all add: ret bind)

lemma fold: "(\<And>x b. within R (f x b)) \<Longrightarrow> within R (foldT f xs b)"
  by (induction xs arbitrary: b) (simp_all add: ret bind)

lemmas rules = bind seq ret fail read lift map_err savepoint guarded branch option sum prod each fold

lemma run: "within R m \<Longrightarrow> R s (snd (run_tx m s))"
  by (auto simp: run_tx_def within_def R_refl split: sum.splits)

end

text \<open>Invariants: the two laws hold for any predicate on states.\<close>

definition holds_on :: "('s \<Rightarrow> bool) \<Rightarrow> 's \<Rightarrow> 's \<Rightarrow> bool" where
  "holds_on I s s' \<longleftrightarrow> (I s \<longrightarrow> I s')"

interpretation inv: tx_relation "holds_on I" for I
  by unfold_locales (auto simp: holds_on_def)

text \<open>Frames: the two laws hold for any view of the state that must not change.\<close>

definition same :: "('s \<Rightarrow> 'v) \<Rightarrow> 's \<Rightarrow> 's \<Rightarrow> bool" where
  "same v s s' \<longleftrightarrow> v s' = v s"

interpretation frame: tx_relation "same v" for v
  by unfold_locales (auto simp: same_def)

section \<open>Tables\<close>

text \<open>
  A table is the list of its rows in insertion order. Row-level security (BR-001, BR-002)
  makes every statement of a tenant transaction see and change that tenant's rows only, so
  the tenant is part of every selection. The functions take the row type's tenant and key
  columns first.
\<close>

definition row_get :: "('r \<Rightarrow> uuid) \<Rightarrow> ('r \<Rightarrow> 'k) \<Rightarrow> uuid \<Rightarrow> 'k \<Rightarrow> 'r list \<Rightarrow> 'r option" where
  "row_get ten key t k rows = find (\<lambda>r. ten r = t \<and> key r = k) rows"

definition row_upd :: "('r \<Rightarrow> uuid) \<Rightarrow> ('r \<Rightarrow> 'k) \<Rightarrow> uuid \<Rightarrow> 'k \<Rightarrow> ('r \<Rightarrow> 'r) \<Rightarrow> 'r list \<Rightarrow> 'r list" where
  "row_upd ten key t k f rows = map (\<lambda>r. if ten r = t \<and> key r = k then f r else r) rows"

definition row_del :: "('r \<Rightarrow> uuid) \<Rightarrow> ('r \<Rightarrow> bool) \<Rightarrow> uuid \<Rightarrow> 'r list \<Rightarrow> 'r list" where
  "row_del ten p t rows = filter (\<lambda>r. \<not> (ten r = t \<and> p r)) rows"

definition rows_of :: "('r \<Rightarrow> uuid) \<Rightarrow> uuid \<Rightarrow> 'r list \<Rightarrow> 'r list" where
  "rows_of ten t rows = filter (\<lambda>r. ten r = t) rows"

definition others :: "('r \<Rightarrow> uuid) \<Rightarrow> uuid \<Rightarrow> 'r list \<Rightarrow> 'r list" where
  "others ten t rows = filter (\<lambda>r. ten r \<noteq> t) rows"

text \<open>An update never moves a row: its tenant and key stay.\<close>

definition keeps_key :: "('r \<Rightarrow> uuid) \<Rightarrow> ('r \<Rightarrow> 'k) \<Rightarrow> ('r \<Rightarrow> 'r) \<Rightarrow> bool" where
  "keeps_key ten key f \<longleftrightarrow> (\<forall>r. ten (f r) = ten r \<and> key (f r) = key r)"

lemma row_get_Some: "row_get ten key t k rows = Some r \<Longrightarrow> ten r = t \<and> key r = k \<and> r \<in> set rows"
  by (auto simp: row_get_def find_Some_iff)

lemma row_get_append: "row_get ten key t k (xs @ ys) =
    (case row_get ten key t k xs of None \<Rightarrow> row_get ten key t k ys | Some r \<Rightarrow> Some r)"
  by (induction xs) (simp_all add: row_get_def)

lemma row_get_upd_same: "keeps_key ten key f \<Longrightarrow>
    row_get ten key t k (row_upd ten key t k f rows) = map_option f (row_get ten key t k rows)"
  by (induction rows) (auto simp: row_get_def row_upd_def keeps_key_def)

lemma row_get_upd_other: "keeps_key ten key f \<Longrightarrow> (t', k') \<noteq> (t, k) \<Longrightarrow>
    row_get ten key t' k' (row_upd ten key t k f rows) = row_get ten key t' k' rows"
  by (induction rows) (auto simp: row_get_def row_upd_def keeps_key_def)

lemma others_upd: "keeps_key ten key f \<Longrightarrow> others ten t (row_upd ten key t k f rows) = others ten t rows"
  by (induction rows) (auto simp: others_def row_upd_def keeps_key_def)

lemma others_del: "others ten t (row_del ten p t rows) = others ten t rows"
  by (induction rows) (auto simp: others_def row_del_def)

lemma others_append: "others ten t (xs @ ys) = others ten t xs @ others ten t ys"
  by (simp add: others_def)

lemma others_own: "ten r = t \<Longrightarrow> others ten t [r] = []"
  by (simp add: others_def)

lemma row_upd_set: "r \<in> set (row_upd ten key t k f rows) \<Longrightarrow>
    r \<in> set rows \<or> (\<exists>q \<in> set rows. ten q = t \<and> key q = k \<and> r = f q)"
  by (auto simp: row_upd_def)

lemma row_upd_keys: "keeps_key ten key f \<Longrightarrow>
    map (\<lambda>r. (ten r, key r)) (row_upd ten key t k f rows) = map (\<lambda>r. (ten r, key r)) rows"
  by (auto simp: row_upd_def keeps_key_def)

lemma row_upd_map: "(\<And>r. g (f r) = g r) \<Longrightarrow> map g (row_upd ten key t k f rows) = map g rows"
  by (auto simp: row_upd_def)

text \<open>
  The contract of a table as its clients use it. A client that locks a row, computes and
  writes it back needs three laws; from them every client gets the read-modify-write lemma.
\<close>

locale row_store =
  fixes get :: "uuid \<Rightarrow> 'k \<Rightarrow> 's \<Rightarrow> 'r option"
    and upd :: "uuid \<Rightarrow> 'k \<Rightarrow> ('r \<Rightarrow> 'r) \<Rightarrow> 's \<Rightarrow> 's"
    and ok :: "('r \<Rightarrow> 'r) \<Rightarrow> bool"
    and hidden :: "uuid \<Rightarrow> 's \<Rightarrow> 'h"
  assumes get_same: "ok f \<Longrightarrow> get t k (upd t k f s) = map_option f (get t k s)"
    and get_other: "ok f \<Longrightarrow> (t', k') \<noteq> (t, k) \<Longrightarrow> get t' k' (upd t k f s) = get t' k' s"
    and upd_hidden: "ok f \<Longrightarrow> hidden t (upd t k f s) = hidden t s"
begin

text \<open>A foreign tenant's row is neither read nor written.\<close>

lemma get_foreign: "ok f \<Longrightarrow> t' \<noteq> t \<Longrightarrow> get t' k' (upd t k f s) = get t' k' s"
  by (rule get_other) simp_all

text \<open>After a read-modify-write, every row is either the old one or the modified one.\<close>

lemma get_upd_cases:
  assumes "ok f" and "get t' k' (upd t k f s) = Some r"
  shows "(t' = t \<and> k' = k \<and> (\<exists>q. get t k s = Some q \<and> r = f q)) \<or> get t' k' s = Some r"
proof (cases "(t', k') = (t, k)")
  case True
  then show ?thesis using assms by (auto simp: get_same)
next
  case False
  then show ?thesis using assms by (auto simp: get_other)
qed

lemma upd_missing: "ok f \<Longrightarrow> get t k s = None \<Longrightarrow> get t k (upd t k f s) = None"
  by (simp add: get_same)

lemma all_rows:
  assumes "ok f" and "\<And>t k r. get t k s = Some r \<Longrightarrow> P r"
    and "\<And>q. get t k s = Some q \<Longrightarrow> P (f q)" and "get t' k' (upd t k f s) = Some r"
  shows "P r"
  using get_upd_cases [OF assms(1,4)] assms(2,3) by blast

end

text \<open>Tables of rows keyed by a column meet the contract.\<close>

interpretation rows: row_store "row_get ten key" "row_upd ten key" "keeps_key ten key" "others ten"
  for ten :: "'r \<Rightarrow> uuid" and key :: "'r \<Rightarrow> 'k"
  by unfold_locales (rule row_get_upd_same row_get_upd_other others_upd; assumption)+

end
