(* ===== verification/Errors.thy ===== *)
theory Errors
  imports Txn
begin

text \<open>
  The error taxonomy every handler answers with (internal/platform/errors/errors.go), the
  errors a service can be handed by the database layer (pgx.ErrNoRows, PgError, db.ErrNotFound,
  the packages' sentinel errors) and \<open>From\<close>, which turns any of them into one a client
  may see. Also the two helpers the service packages repeat: \<open>notFound\<close> and
  \<open>fieldError\<close>.
\<close>

text \<open>
  A value of Go type \<open>any\<close> as it ends up in a problem's \<open>Extra\<close> map, in an audit
  row's before/after and in a job's result: what \<open>json.Marshal\<close> would be given.
\<close>

datatype dyn = DNull | DBool bool | DInt int | DStr string | DId uuid | DTime instant
  | DRaw string | DList "dyn list" | DObj "(string \<times> dyn) list"

record field =
  f_name :: string
  f_detail :: string
  f_extra :: "(string \<times> dyn) list"

text \<open>
  A Go \<open>error\<close>. \<open>App\<close> is \<open>*errors.Error\<close>, the client's kind; \<open>Wrapped\<close> is
  \<open>fmt.Errorf("...: %w", err)\<close>; \<open>PgError\<close> is a constraint or raised error the
  database reports with its SQLSTATE, the constraint's name and its message.
\<close>

datatype err =
    App (e_code: string) (e_status: nat) (e_title: string) (e_detail: string)
      (e_fields: "field list") (e_cause: "err option")
  | NoRows
  | PgError string string string
  | LookupNotFound
  | NoTenantContext
  | Sentinel string
  | Wrapped string err
  | Opaque string

section \<open>Codes and statuses\<close>

definition code_validation_failed :: string where "code_validation_failed = ''validation_failed''"
definition code_unknown_field :: string where "code_unknown_field = ''unknown_field''"
definition code_publish_check :: string where "code_publish_check = ''publish_check_failed''"
definition code_version_conflict :: string where "code_version_conflict = ''version_conflict''"
definition code_illegal_transition :: string where "code_illegal_transition = ''illegal_transition''"
definition code_duplicate_sku :: string where "code_duplicate_sku = ''duplicate_sku''"
definition code_category_in_use :: string where "code_category_in_use = ''category_in_use''"
definition code_permission_denied :: string where "code_permission_denied = ''permission_denied''"
definition code_not_found :: string where "code_not_found = ''not_found''"
definition code_rate_limited :: string where "code_rate_limited = ''rate_limited''"
definition code_unauthenticated :: string where "code_unauthenticated = ''unauthenticated''"
definition code_invalid_api_key :: string where "code_invalid_api_key = ''invalid_api_key''"
definition code_origin_not_allowed :: string where "code_origin_not_allowed = ''origin_not_allowed''"
definition code_customer_auth :: string where "code_customer_auth = ''customer_auth_required''"
definition code_empty_cart :: string where "code_empty_cart = ''empty_cart''"
definition code_item_unavailable :: string where "code_item_unavailable = ''item_unavailable''"
definition code_shipping_gone :: string where "code_shipping_gone = ''shipping_unavailable''"
definition code_rates_unavailable :: string where "code_rates_unavailable = ''shipping_rates_unavailable''"
definition code_internal :: string where "code_internal = ''internal''"

lemmas error_codes = code_validation_failed_def code_unknown_field_def code_publish_check_def
  code_version_conflict_def code_illegal_transition_def code_duplicate_sku_def
  code_category_in_use_def code_permission_denied_def code_not_found_def code_rate_limited_def
  code_unauthenticated_def code_invalid_api_key_def code_origin_not_allowed_def
  code_customer_auth_def code_empty_cart_def code_item_unavailable_def code_shipping_gone_def
  code_rates_unavailable_def code_internal_def

section \<open>Constructors\<close>

definition plain_field :: "string \<Rightarrow> string \<Rightarrow> field" where
  "plain_field n d = \<lparr>f_name = n, f_detail = d, f_extra = []\<rparr>"

definition with_cause :: "err \<Rightarrow> err \<Rightarrow> err" where
  "with_cause e c = (case e of App code st ti d fs _ \<Rightarrow> App code st ti d fs (Some c) | _ \<Rightarrow> e)"

definition with_fields :: "err \<Rightarrow> field list \<Rightarrow> err" where
  "with_fields e gs = (case e of App code st ti d fs c \<Rightarrow> App code st ti d (fs @ gs) c | _ \<Rightarrow> e)"

definition unauthenticated :: "string \<Rightarrow> err" where
  "unauthenticated d = App code_unauthenticated 401 ''Unauthenticated'' d [] None"

definition invalid_api_key :: err where
  "invalid_api_key = App code_invalid_api_key 401 ''Invalid API key''
     ''Send a live storefront API key in X-Api-Key.'' [] None"

definition origin_not_allowed :: err where
  "origin_not_allowed = App code_origin_not_allowed 403 ''Origin not allowed''
     ''This API key does not accept requests from this website.'' [] None"

definition customer_auth_required :: "string \<Rightarrow> err" where
  "customer_auth_required d = App code_customer_auth 401 ''Customer sign-in required'' d [] None"

definition empty_cart :: err where
  "empty_cart = App code_empty_cart 422 ''Empty cart'' ''The cart is empty.'' [] None"

definition item_unavailable :: "field list \<Rightarrow> err" where
  "item_unavailable items = with_fields (App code_item_unavailable 409 ''Item unavailable''
     ''Some items in the cart can no longer be bought. Remove them and check out again.'' [] None) items"

definition shipping_unavailable :: err where
  "shipping_unavailable = with_fields (App code_shipping_gone 409 ''Shipping unavailable''
     ''That courier service is no longer offered to this address. Get the rates again and choose one.'' [] None)
     [plain_field ''shipping_option'' ''no longer offered'']"

definition shipping_rates_unavailable :: "err \<Rightarrow> err" where
  "shipping_rates_unavailable c = with_cause (App code_rates_unavailable 502 ''Shipping rates unavailable''
     ''Shipping rates could not be fetched. Try again in a moment.'' [] None) c"

definition payment_unavailable :: "err \<Rightarrow> err" where
  "payment_unavailable c = with_cause (App ''payment_unavailable'' 502 ''Payment unavailable''
     ''The payment page could not be opened. Try again in a moment.'' [] None) c"

definition permission_denied :: "string \<Rightarrow> err" where
  "permission_denied p = App code_permission_denied 403 ''Permission denied''
     (''This action requires the '' @ p @ '' permission.'') [] None"

definition forbidden :: "string \<Rightarrow> err" where
  "forbidden d = App code_permission_denied 403 ''Permission denied'' d [] None"

definition not_found :: "string \<Rightarrow> err" where
  "not_found d = App code_not_found 404 ''Not found'' d [] None"

definition rate_limited :: err where
  "rate_limited = App code_rate_limited 429 ''Rate limited'' ''Too many requests. Wait and try again.'' [] None"

definition unknown_field :: "string \<Rightarrow> err" where
  "unknown_field n = with_fields (App code_unknown_field 422 ''Unknown field''
     (''The request has a field this endpoint does not accept: '' @ n @ ''.'') [] None)
     [plain_field n ''not a field of this request'']"

definition category_in_use :: "int \<Rightarrow> err" where
  "category_in_use children = with_fields (App code_category_in_use 409 ''Category in use''
     ''Move or delete its subcategories first.'' [] None)
     [\<lparr>f_name = ''children'', f_detail = [], f_extra = [(''count'', DInt children)]\<rparr>]"

definition duplicate_sku :: "string \<Rightarrow> string \<Rightarrow> err" where
  "duplicate_sku sku holder =
    (let detail = (if holder \<noteq> [] then ''SKU '' @ sku @ '' is used by '' @ holder @ ''.''
                   else ''This SKU is already used by another product.'')
     in with_fields (App code_duplicate_sku 409 ''Duplicate SKU'' detail [] None)
          [plain_field ''sku'' detail])"

definition publish_check_failed :: "field list \<Rightarrow> err" where
  "publish_check_failed fs = with_fields (App code_publish_check 422 ''Publish check failed''
     ''The product cannot be published yet.'' [] None) fs"

definition validation_failed :: "string \<Rightarrow> err" where
  "validation_failed d = App code_validation_failed 422 ''Validation failed'' d [] None"

definition version_conflict :: "int \<Rightarrow> int \<Rightarrow> err" where
  "version_conflict expected supplied = with_fields (App code_version_conflict 409 ''Version conflict''
     ''This was changed by someone else. Reload and try again.'' [] None)
     [\<lparr>f_name = ''version'', f_detail = [],
       f_extra = [(''expected'', DInt expected), (''supplied'', DInt supplied)]\<rparr>]"

definition illegal_transition :: "string \<Rightarrow> string \<Rightarrow> err" where
  "illegal_transition old to = with_fields (App code_illegal_transition 409 ''Illegal transition''
     (''An order cannot move from '' @ old @ '' to '' @ to @ ''.'') [] None)
     [\<lparr>f_name = ''status'', f_detail = [],
       f_extra = [(''from'', DStr old), (''to'', DStr to)]\<rparr>]"

definition internal :: "err \<Rightarrow> err" where
  "internal c = App code_internal 500 ''Internal error'' ''Something went wrong on our side.'' [] (Some c)"

section \<open>Reading an error\<close>

text \<open>
  \<open>errors.As(err, *Error)\<close> and \<open>errors.Is(err, target)\<close>: the chain of an error is itself
  and, through \<open>%w\<close> and \<open>Unwrap\<close>, its causes.
\<close>

fun as_app :: "err \<Rightarrow> err option" where
  "as_app (App c st ti d fs ca) = Some (App c st ti d fs ca)"
| "as_app (Wrapped _ e) = as_app e"
| "as_app _ = None"

fun err_is :: "err \<Rightarrow> err \<Rightarrow> bool" where
  "err_is (Wrapped m e) target = (Wrapped m e = target \<or> err_is e target)"
| "err_is (App c st ti d fs ca) target = (App c st ti d fs ca = target \<or>
     (case ca of None \<Rightarrow> False | Some e \<Rightarrow> err_is e target))"
| "err_is e target = (e = target)"

text \<open>\<open>(*Error).Error()\<close>, \<open>(*Error).Unwrap()\<close> and \<open>From\<close>.\<close>

fun error_text :: "err \<Rightarrow> string" where
  "error_text (App code st ti d fs ca) =
     (case ca of None \<Rightarrow> code @ '': '' @ d
      | Some c \<Rightarrow> code @ '': '' @ d @ '': '' @ error_text c)"
| "error_text (Wrapped m e) = m @ '': '' @ error_text e"
| "error_text NoRows = ''no rows in result set''"
| "error_text (PgError code con msg) = msg"
| "error_text LookupNotFound = ''not found''"
| "error_text NoTenantContext = ''no tenant in context''"
| "error_text (Sentinel m) = m"
| "error_text (Opaque m) = m"

definition from_err :: "err \<Rightarrow> err" where
  "from_err e = (case as_app e of Some known \<Rightarrow> known | None \<Rightarrow> internal e)"

text \<open>What \<open>internal/httpkit\<close> writes of a problem: everything but the cause.\<close>

definition client_view :: "err \<Rightarrow> (string \<times> nat \<times> string \<times> string \<times> field list) option" where
  "client_view e = (case e of App code st ti d fs _ \<Rightarrow> Some (code, st, ti, d, fs) | _ \<Rightarrow> None)"

text \<open>\<open>db.Violation\<close> (internal/db/errors.go).\<close>

fun violation :: "err \<Rightarrow> (string \<times> string) option" where
  "violation (PgError code con _) = Some (code, con)"
| "violation (Wrapped _ e) = violation e"
| "violation (App _ _ _ _ _ (Some e)) = violation e"
| "violation _ = None"

text \<open>\<open>notFound\<close> and \<open>fieldError\<close>, repeated in orders, catalog and the other services.\<close>

definition no_such :: "string \<Rightarrow> err \<Rightarrow> err" where
  "no_such what e = (if err_is e NoRows then not_found (''No such '' @ what @ ''.'') else e)"

definition field_error :: "string \<Rightarrow> string \<Rightarrow> err" where
  "field_error f d = with_fields (validation_failed d) [plain_field f d]"

section \<open>Lemmas\<close>

lemmas error_defs = unauthenticated_def invalid_api_key_def origin_not_allowed_def
  customer_auth_required_def empty_cart_def item_unavailable_def shipping_unavailable_def
  shipping_rates_unavailable_def payment_unavailable_def permission_denied_def forbidden_def
  not_found_def rate_limited_def unknown_field_def category_in_use_def duplicate_sku_def
  publish_check_failed_def validation_failed_def version_conflict_def illegal_transition_def
  internal_def field_error_def with_fields_def with_cause_def

text \<open>The status of each constructor, without its text.\<close>

named_theorems status_of

lemma status_field_error [status_of]: "e_status (field_error f d) = 422"
  by (simp add: field_error_def validation_failed_def with_fields_def)

lemma status_not_found [status_of]: "e_status (not_found d) = 404"
  by (simp add: not_found_def)

lemma status_illegal_transition [status_of]: "e_status (illegal_transition a b) = 409"
  by (simp add: illegal_transition_def with_fields_def)

lemma status_version_conflict [status_of]: "e_status (version_conflict a b) = 409"
  by (simp add: version_conflict_def with_fields_def)

lemma status_validation_failed [status_of]: "e_status (validation_failed d) = 422"
  by (simp add: validation_failed_def)

lemma code_illegal [status_of]: "e_code (illegal_transition a b) = code_illegal_transition"
  by (simp add: illegal_transition_def with_fields_def)

lemma as_app_is_App: "as_app e = Some k \<Longrightarrow> \<exists>c st ti d fs ca. k = App c st ti d fs ca"
  by (induction e rule: as_app.induct) auto

lemma from_err_is_App: "\<exists>c st ti d fs ca. from_err e = App c st ti d fs ca"
  by (auto simp: from_err_def internal_def split: option.splits dest: as_app_is_App)

lemma from_err_idem: "from_err (from_err e) = from_err e"
  using from_err_is_App [of e] by (auto simp: from_err_def [of "App _ _ _ _ _ _"])



end
