(* ===== verification/Schema.thy ===== *)
theory Schema
  imports Errors
begin

text \<open>
  The database as the code sees it: one record per table row with the fields of the structs
  in internal/db/sqlcgen/models.go, the state holding every table the model uses, the
  caller's context (internal/tenant/context.go), the tenant transaction (internal/db/tx.go)
  and the audit row every admin write makes (internal/db/audit.go).
\<close>

section \<open>Values of the text columns\<close>

text \<open>
  The strings the CHECK constraints of the tables list and the code compares with. They are
  named so that the proofs compare names and not characters.
\<close>

definition S_pending :: string where "S_pending = ''pending''"
definition S_paid :: string where "S_paid = ''paid''"
definition S_processing :: string where "S_processing = ''processing''"
definition S_shipped :: string where "S_shipped = ''shipped''"
definition S_completed :: string where "S_completed = ''completed''"
definition S_cancelled :: string where "S_cancelled = ''cancelled''"
definition S_failed :: string where "S_failed = ''failed''"
definition S_amount_mismatch :: string where "S_amount_mismatch = ''amount_mismatch''"
definition S_bank_transfer :: string where "S_bank_transfer = ''bank_transfer''"
definition S_midtrans :: string where "S_midtrans = ''midtrans''"
definition S_manual :: string where "S_manual = ''manual''"
definition S_storefront :: string where "S_storefront = ''storefront''"
definition S_open :: string where "S_open = ''open''"
definition S_checked_out :: string where "S_checked_out = ''checked_out''"
definition S_active :: string where "S_active = ''active''"
definition S_invited :: string where "S_invited = ''invited''"
definition S_disabled :: string where "S_disabled = ''disabled''"
definition S_draft :: string where "S_draft = ''draft''"
definition S_archived :: string where "S_archived = ''archived''"
definition S_queued :: string where "S_queued = ''queued''"
definition S_running :: string where "S_running = ''running''"
definition S_done :: string where "S_done = ''done''"

lemmas S_defs = S_pending_def S_paid_def S_processing_def S_shipped_def S_completed_def S_cancelled_def S_failed_def S_amount_mismatch_def S_bank_transfer_def S_midtrans_def S_manual_def S_storefront_def S_open_def S_checked_out_def S_active_def S_invited_def S_disabled_def S_draft_def S_archived_def S_queued_def S_running_def S_done_def

lemma S_status_neq [simp]:
  "S_pending \<noteq> S_paid" "S_pending \<noteq> S_processing" "S_pending \<noteq> S_shipped"
  "S_pending \<noteq> S_completed" "S_pending \<noteq> S_cancelled" "S_pending \<noteq> S_failed"
  "S_pending \<noteq> S_amount_mismatch" "S_paid \<noteq> S_pending" "S_paid \<noteq> S_processing"
  "S_paid \<noteq> S_shipped" "S_paid \<noteq> S_completed" "S_paid \<noteq> S_cancelled"
  "S_paid \<noteq> S_failed" "S_paid \<noteq> S_amount_mismatch" "S_processing \<noteq> S_pending"
  "S_processing \<noteq> S_paid" "S_processing \<noteq> S_shipped" "S_processing \<noteq> S_completed"
  "S_processing \<noteq> S_cancelled" "S_processing \<noteq> S_failed"
  "S_processing \<noteq> S_amount_mismatch" "S_shipped \<noteq> S_pending" "S_shipped \<noteq> S_paid"
  "S_shipped \<noteq> S_processing" "S_shipped \<noteq> S_completed" "S_shipped \<noteq> S_cancelled"
  "S_shipped \<noteq> S_failed" "S_shipped \<noteq> S_amount_mismatch" "S_completed \<noteq> S_pending"
  "S_completed \<noteq> S_paid" "S_completed \<noteq> S_processing" "S_completed \<noteq> S_shipped"
  "S_completed \<noteq> S_cancelled" "S_completed \<noteq> S_failed"
  "S_completed \<noteq> S_amount_mismatch" "S_cancelled \<noteq> S_pending" "S_cancelled \<noteq> S_paid"
  "S_cancelled \<noteq> S_processing" "S_cancelled \<noteq> S_shipped" "S_cancelled \<noteq> S_completed"
  "S_cancelled \<noteq> S_failed" "S_cancelled \<noteq> S_amount_mismatch" "S_failed \<noteq> S_pending"
  "S_failed \<noteq> S_paid" "S_failed \<noteq> S_processing" "S_failed \<noteq> S_shipped"
  "S_failed \<noteq> S_completed" "S_failed \<noteq> S_cancelled" "S_failed \<noteq> S_amount_mismatch"
  "S_amount_mismatch \<noteq> S_pending" "S_amount_mismatch \<noteq> S_paid"
  "S_amount_mismatch \<noteq> S_processing" "S_amount_mismatch \<noteq> S_shipped"
  "S_amount_mismatch \<noteq> S_completed" "S_amount_mismatch \<noteq> S_cancelled"
  "S_amount_mismatch \<noteq> S_failed"
  by (simp_all add: S_defs)

lemma S_method_neq [simp]:
  "S_bank_transfer \<noteq> S_midtrans" "S_midtrans \<noteq> S_bank_transfer"
  by (simp_all add: S_defs)

lemma S_source_neq [simp]:
  "S_manual \<noteq> S_storefront" "S_storefront \<noteq> S_manual"
  by (simp_all add: S_defs)

lemma S_cart_neq [simp]:
  "S_open \<noteq> S_checked_out" "S_checked_out \<noteq> S_open"
  by (simp_all add: S_defs)

lemma S_user_neq [simp]:
  "S_active \<noteq> S_invited" "S_active \<noteq> S_disabled" "S_invited \<noteq> S_active"
  "S_invited \<noteq> S_disabled" "S_disabled \<noteq> S_active" "S_disabled \<noteq> S_invited"
  by (simp_all add: S_defs)

lemma S_product_neq [simp]:
  "S_draft \<noteq> S_active" "S_draft \<noteq> S_archived" "S_active \<noteq> S_draft"
  "S_active \<noteq> S_archived" "S_archived \<noteq> S_draft" "S_archived \<noteq> S_active"
  by (simp_all add: S_defs)

lemma S_job_neq [simp]:
  "S_queued \<noteq> S_running" "S_queued \<noteq> S_done" "S_queued \<noteq> S_failed"
  "S_running \<noteq> S_queued" "S_running \<noteq> S_done" "S_running \<noteq> S_failed"
  "S_done \<noteq> S_queued" "S_done \<noteq> S_running" "S_done \<noteq> S_failed"
  "S_failed \<noteq> S_queued" "S_failed \<noteq> S_running" "S_failed \<noteq> S_done"
  by (simp_all add: S_defs)

section \<open>Rows\<close>

record tenant =
  tn_id :: uuid
  tn_name :: string
  tn_slug :: string
  tn_timezone :: string
  tn_status :: string
  tn_created_at :: instant
  tn_order_prefix :: string

record user =
  us_id :: uuid
  us_tenant :: uuid
  us_email :: string
  us_password_hash :: "string option"
  us_name :: string
  us_role :: string
  us_status :: string
  us_last_login_at :: "instant option"
  us_created_at :: instant
  us_bio :: "string option"

record refresh_token =
  rt_id :: uuid
  rt_tenant :: uuid
  rt_user :: uuid
  rt_token_hash :: string
  rt_rotated_from :: "uuid option"
  rt_expires_at :: instant
  rt_revoked_at :: "instant option"
  rt_created_at :: instant

record customer =
  cu_id :: uuid
  cu_tenant :: uuid
  cu_email :: string
  cu_password_hash :: "string option"
  cu_name :: string
  cu_phone :: "string option"
  cu_email_verified_at :: "instant option"
  cu_created_at :: instant
  cu_updated_at :: instant
  cu_purged_at :: "instant option"

record customer_session =
  cs_id :: uuid
  cs_tenant :: uuid
  cs_customer :: uuid
  cs_refresh_hash :: string
  cs_previous_hash :: "string option"
  cs_expires_at :: instant
  cs_revoked_at :: "instant option"
  cs_created_at :: instant

record customer_identity =
  cd_tenant :: uuid
  cd_customer :: uuid
  cd_provider :: string
  cd_subject :: string
  cd_email :: "string option"
  cd_created_at :: instant

record api_key =
  ak_id :: uuid
  ak_tenant :: uuid
  ak_name :: string
  ak_key_hash :: string
  ak_allowed_origin :: string
  ak_last_used_at :: "instant option"
  ak_revoked_at :: "instant option"
  ak_created_by :: "uuid option"
  ak_created_at :: instant
  ak_key_last4 :: "string option"

record brand =
  br_id :: uuid
  br_tenant :: uuid
  br_name :: string
  br_slug :: string
  br_archived_at :: "instant option"
  br_created_at :: instant
  br_updated_at :: instant

record category =
  cg_id :: uuid
  cg_tenant :: uuid
  cg_parent :: "uuid option"
  cg_kind :: string
  cg_name :: string
  cg_path :: string
  cg_archived_at :: "instant option"
  cg_created_at :: instant
  cg_updated_at :: instant
  cg_label :: "string option"

record product =
  pr_id :: uuid
  pr_tenant :: uuid
  pr_title :: string
  pr_slug :: string
  pr_description :: "string option"
  pr_brand :: "uuid option"
  pr_status :: string
  pr_attributes :: string
  pr_option_names :: "string list"
  pr_version :: int
  pr_archived_at :: "instant option"
  pr_created_at :: instant
  pr_updated_at :: instant

record variant =
  va_id :: uuid
  va_tenant :: uuid
  va_product :: uuid
  va_sku :: "string option"
  va_barcode :: "string option"
  va_option_values :: "string list"
  va_regular_price :: int
  va_sale_price :: "int option"
  va_sale_starts_at :: "instant option"
  va_sale_ends_at :: "instant option"
  va_currency :: string
  va_weight_grams :: int
  va_archived_at :: "instant option"
  va_version :: int
  va_created_at :: instant
  va_updated_at :: instant

record cart =
  ca_id :: uuid
  ca_tenant :: uuid
  ca_customer :: "uuid option"
  ca_status :: string
  ca_expires_at :: instant
  ca_created_at :: instant
  ca_updated_at :: instant

record cart_item =
  ci_tenant :: uuid
  ci_cart :: uuid
  ci_variant :: uuid
  ci_qty :: int
  ci_added_at :: instant

record order =
  or_id :: uuid
  or_tenant :: uuid
  or_source :: string
  or_customer_id :: "uuid option"
  or_number :: string
  or_status :: string
  or_customer :: string
  or_shipping_address :: string
  or_note :: "string option"
  or_subtotal :: int
  or_shipping :: int
  or_discount :: int
  or_total :: int
  or_currency :: string
  or_payment_method :: string
  or_shipping_courier :: "string option"
  or_shipping_service :: "string option"
  or_courier :: "string option"
  or_tracking_number :: "string option"
  or_placed_at :: instant
  or_paid_at :: "instant option"
  or_shipped_at :: "instant option"
  or_completed_at :: "instant option"
  or_cancelled_at :: "instant option"
  or_refunded_at :: "instant option"
  or_version :: int
  or_created_at :: instant
  or_updated_at :: instant
  or_cart :: "uuid option"

record order_line =
  ol_id :: uuid
  ol_tenant :: uuid
  ol_order :: uuid
  ol_variant :: uuid
  ol_sku :: string
  ol_title :: string
  ol_qty :: int
  ol_unit_price :: int
  ol_discount :: int

record payment =
  pa_id :: uuid
  pa_tenant :: uuid
  pa_order :: uuid
  pa_provider :: string
  pa_provider_order_id :: string
  pa_attempt :: int
  pa_status :: string
  pa_gross_amount :: int
  pa_snap_token :: "string option"
  pa_redirect_url :: "string option"
  pa_expires_at :: instant
  pa_transaction_status :: "string option"
  pa_last_notification :: "string option"
  pa_paid_at :: "instant option"
  pa_created_at :: instant
  pa_updated_at :: instant

record storefront_setting =
  st_tenant :: uuid
  st_contact_email :: "string option"
  st_google_client_id :: "string option"
  st_origin_postal_code :: "string option"
  st_shipping_couriers :: "string list"
  st_bank_transfer_enabled :: bool
  st_bank_transfer_instructions :: "string option"
  st_midtrans_enabled :: bool
  st_midtrans_environment :: "string option"
  st_midtrans_client_key :: "string option"
  st_midtrans_server_key :: "string option"
  st_midtrans_webhook_id :: uuid
  st_updated_at :: instant
  st_logo_key :: "string option"
  st_whatsapp :: "string option"
  st_tagline :: "string option"
  st_brand_color :: "string option"
  st_instagram :: "string option"
  st_theme :: string
  st_hero_key :: "string option"
  st_address :: "string option"
  st_opening_hours :: "string option"
  st_shopee_url :: "string option"
  st_tokopedia_url :: "string option"

record job =
  jb_id :: uuid
  jb_tenant :: uuid
  jb_kind :: string
  jb_state :: string
  jb_processed :: int
  jb_total :: "int option"
  jb_failed :: int
  jb_params :: dyn
  jb_result :: "dyn option"
  jb_error :: "dyn option"
  jb_created_by :: "uuid option"
  jb_created_at :: instant
  jb_finished_at :: "instant option"

record product_category =
  pc_tenant :: uuid
  pc_product :: uuid
  pc_category :: uuid

record product_medium =
  md_id :: uuid
  md_tenant :: uuid
  md_product :: uuid
  md_variant :: "uuid option"
  md_key :: string
  md_mime :: string
  md_bytes :: int
  md_width :: "int option"
  md_height :: "int option"
  md_position :: int
  md_derivatives :: string
  md_source_url :: "string option"
  md_created_at :: instant

record blog_category =
  bc_id :: uuid
  bc_tenant :: uuid
  bc_name :: string
  bc_slug :: string
  bc_position :: int
  bc_archived_at :: "instant option"
  bc_created_at :: instant
  bc_updated_at :: instant

record blog_post =
  bp_id :: uuid
  bp_tenant :: uuid
  bp_category :: "uuid option"
  bp_author :: "uuid option"
  bp_title :: string
  bp_slug :: string
  bp_excerpt :: "string option"
  bp_body :: string
  bp_cover_key :: "string option"
  bp_tags :: "string list"
  bp_status :: string
  bp_featured :: bool
  bp_published_at :: "instant option"
  bp_archived_at :: "instant option"
  bp_created_at :: instant
  bp_updated_at :: instant

record blog_post_product =
  bq_tenant :: uuid
  bq_post :: uuid
  bq_product :: uuid
  bq_position :: int

record audit_row =
  au_tenant :: uuid
  au_actor :: "uuid option"
  au_action :: string
  au_subject_type :: string
  au_subject_id :: dyn
  au_before :: "dyn option"
  au_after :: "dyn option"
  au_ip :: "string option"
  au_created_at :: instant

section \<open>The database\<close>

text \<open>
  \<open>order_sequences\<close> is the counter of order numbers per tenant; a tenant without a row has
  none yet.
\<close>

record db =
  tenants :: "tenant list"
  users :: "user list"
  refresh_tokens :: "refresh_token list"
  customers :: "customer list"
  sessions :: "customer_session list"
  identities :: "customer_identity list"
  api_keys :: "api_key list"
  brands :: "brand list"
  categories :: "category list"
  products :: "product list"
  variants :: "variant list"
  carts :: "cart list"
  cart_items :: "cart_item list"
  orders :: "order list"
  order_lines :: "order_line list"
  payments :: "payment list"
  sequences :: "(uuid \<times> int) list"
  settings :: "storefront_setting list"
  jobs :: "job list"
  audit_log :: "audit_row list"
  product_categories :: "product_category list"
  media :: "product_medium list"
  blog_categories :: "blog_category list"
  blog_posts :: "blog_post list"
  blog_post_products :: "blog_post_product list"

type_synonym 'a stmt = "(err, db, 'a) tx"

definition empty_db :: db where
  "empty_db = \<lparr>tenants = [], users = [], refresh_tokens = [], customers = [], sessions = [],
     identities = [], api_keys = [], brands = [], categories = [], products = [], variants = [], carts = [], cart_items = [], orders = [], order_lines = [],
     payments = [], sequences = [], settings = [], jobs = [], audit_log = [],
     product_categories = [], media = [], blog_categories = [], blog_posts = [], blog_post_products = []\<rparr>"

section \<open>The caller's context\<close>

text \<open>
  What the middleware put on the context: the tenant, the acting user with their address, the
  role. \<open>c_now\<close> is the transaction's \<open>now()\<close>, \<open>c_clock\<close> what \<open>time.Now()\<close>
  answers during the call.
\<close>

record ctx =
  c_tenant :: "uuid option"
  c_actor :: "uuid option"
  c_ip :: "string option"
  c_role :: "string option"
  c_now :: instant
  c_clock :: instant

definition tenant_of :: "ctx \<Rightarrow> uuid" where
  "tenant_of c = (case c_tenant c of None \<Rightarrow> nil_uuid | Some t \<Rightarrow> t)"

definition actor_of :: "ctx \<Rightarrow> uuid option" where
  "actor_of c = c_actor c"

text \<open>\<open>tenant.NewContext\<close> and \<open>tenant.NewActorContext\<close>.\<close>

definition with_tenant :: "uuid \<Rightarrow> ctx \<Rightarrow> ctx" where
  "with_tenant t c = c\<lparr>c_tenant := Some t\<rparr>"

definition with_actor :: "uuid \<Rightarrow> ctx \<Rightarrow> ctx" where
  "with_actor u c = c\<lparr>c_actor := Some u, c_ip := None\<rparr>"

text \<open>
  \<open>InTenantTx\<close>: no tenant, no transaction; otherwise the body runs with the tenant set and
  is committed or rolled back.
\<close>

definition in_tenant_tx :: "ctx \<Rightarrow> (err, 's, 'a) tx \<Rightarrow> 's \<Rightarrow> (err + 'a) \<times> 's" where
  "in_tenant_tx c body s =
    (case c_tenant c of
      None \<Rightarrow> (Inl NoTenantContext, s)
    | Some _ \<Rightarrow> run_tx body s)"

section \<open>Audit\<close>

text \<open>\<open>db.AuditEntry\<close>: \<open>nil\<close> before and after stay NULL.\<close>

record audit_entry =
  ae_action :: string
  ae_subject_type :: string
  ae_subject_id :: dyn
  ae_before :: "dyn option"
  ae_after :: "dyn option"

definition audit_row_of :: "ctx \<Rightarrow> audit_entry \<Rightarrow> audit_row" where
  "audit_row_of c e = \<lparr>au_tenant = tenant_of c, au_actor = c_actor c, au_action = ae_action e,
     au_subject_type = ae_subject_type e, au_subject_id = ae_subject_id e,
     au_before = ae_before e, au_after = ae_after e,
     au_ip = (case c_actor c of None \<Rightarrow> None | Some _ \<Rightarrow> c_ip c),
     au_created_at = c_now c\<rparr>"

definition add_audit :: "ctx \<Rightarrow> audit_entry \<Rightarrow> db \<Rightarrow> db" where
  "add_audit c e s = s\<lparr>audit_log := audit_log s @ [audit_row_of c e]\<rparr>"

definition audit :: "ctx \<Rightarrow> audit_entry \<Rightarrow> unit stmt" where
  "audit c e = writeT (add_audit c e)"

lemma audit_Inr [simp]: "audit c e s = Inr r \<longleftrightarrow> r = ((), add_audit c e s)"
  by (simp add: audit_def)

lemma add_audit_frame [simp]:
  "tenants (add_audit c e s) = tenants s" "users (add_audit c e s) = users s"
  "refresh_tokens (add_audit c e s) = refresh_tokens s" "customers (add_audit c e s) = customers s"
  "sessions (add_audit c e s) = sessions s" "identities (add_audit c e s) = identities s"
  "api_keys (add_audit c e s) = api_keys s" "brands (add_audit c e s) = brands s"
  "categories (add_audit c e s) = categories s" "products (add_audit c e s) = products s"
  "variants (add_audit c e s) = variants s" "carts (add_audit c e s) = carts s"
  "cart_items (add_audit c e s) = cart_items s" "orders (add_audit c e s) = orders s"
  "order_lines (add_audit c e s) = order_lines s" "payments (add_audit c e s) = payments s"
  "sequences (add_audit c e s) = sequences s" "settings (add_audit c e s) = settings s"
  "product_categories (add_audit c e s) = product_categories s" "media (add_audit c e s) = media s"
  "blog_categories (add_audit c e s) = blog_categories s" "blog_posts (add_audit c e s) = blog_posts s"
  "blog_post_products (add_audit c e s) = blog_post_products s"
  "jobs (add_audit c e s) = jobs s" "audit_log (add_audit c e s) = audit_log s @ [audit_row_of c e]"
  by (simp_all add: add_audit_def)

definition audits_of :: "string \<Rightarrow> dyn \<Rightarrow> db \<Rightarrow> audit_row list" where
  "audits_of action subject s =
     filter (\<lambda>a. au_action a = action \<and> au_subject_id a = subject) (audit_log s)"

section \<open>Selecting one row\<close>

text \<open>A query for exactly one row answers \<open>pgx.ErrNoRows\<close> when there is none.\<close>

definition oneT :: "(db \<Rightarrow> 'a option) \<Rightarrow> 'a stmt" where
  "oneT g s = (case g s of None \<Rightarrow> Inl NoRows | Some x \<Rightarrow> Inr (x, s))"

lemma oneT_Inr [simp]: "oneT g s = Inr (x, s') \<longleftrightarrow> g s = Some x \<and> s' = s"
  by (auto simp: oneT_def split: option.splits)

lemma oneT_Inl [simp]: "oneT g s = Inl e \<longleftrightarrow> g s = None \<and> e = NoRows"
  by (auto simp: oneT_def split: option.splits)

declare oneT_def [tx_eval]

context tx_relation
begin

lemma failed_or_same: "(\<And>s x s'. m s = Inr (x, s') \<Longrightarrow> s' = s) \<Longrightarrow> within R m"
  by (metis R_refl withinI)

end

text \<open>
  The isolation frame (BR-001..BR-004): everything in the database that belongs to a tenant
  other than \<open>t\<close>, and the rows no tenant transaction writes.
\<close>

definition foreign :: "uuid \<Rightarrow> db \<Rightarrow> db" where
  "foreign t s = \<lparr>tenants = tenants s, users = others us_tenant t (users s),
     refresh_tokens = others rt_tenant t (refresh_tokens s),
     customers = others cu_tenant t (customers s), sessions = others cs_tenant t (sessions s),
     identities = others cd_tenant t (identities s), api_keys = others ak_tenant t (api_keys s),
     brands = others br_tenant t (brands s), categories = others cg_tenant t (categories s),
     products = others pr_tenant t (products s), variants = others va_tenant t (variants s),
     carts = others ca_tenant t (carts s), cart_items = others ci_tenant t (cart_items s),
     orders = others or_tenant t (orders s), order_lines = others ol_tenant t (order_lines s),
     payments = others pa_tenant t (payments s), sequences = filter (\<lambda>p. fst p \<noteq> t) (sequences s),
     settings = others st_tenant t (settings s), jobs = others jb_tenant t (jobs s),
     audit_log = others au_tenant t (audit_log s),
     product_categories = others pc_tenant t (product_categories s), media = others md_tenant t (media s),
     blog_categories = others bc_tenant t (blog_categories s), blog_posts = others bp_tenant t (blog_posts s),
     blog_post_products = others bq_tenant t (blog_post_products s)\<rparr>"

definition isolated :: "uuid \<Rightarrow> db \<Rightarrow> db \<Rightarrow> bool" where
  "isolated t = same (foreign t)"

interpretation iso: tx_relation "isolated t" for t
  by unfold_locales (auto simp: isolated_def same_def)

named_theorems isolation \<open>statements that leave every other tenant's rows as they are\<close>

lemma oneT_isolated [isolation]: "within (isolated t) (oneT g)"
  by (rule iso.failed_or_same) simp

lemma audit_isolated [isolation]: "tenant_of c = t \<Longrightarrow> within (isolated t) (audit c e)"
  by (auto simp: within_def audit_row_of_def isolated_def same_def foreign_def others_append others_own)

lemma in_tenant_tx_within:
  assumes "tx_relation R" and "within R m"
  shows "R s (snd (in_tenant_tx c m s))"
  using assms tx_relation.run [OF assms] tx_relation.R_refl [OF assms(1)]
  by (auto simp: in_tenant_tx_def split: option.splits)

lemma in_tenant_tx_failed: "fst (in_tenant_tx c m s) = Inl e \<Longrightarrow> snd (in_tenant_tx c m s) = s"
  by (auto simp: in_tenant_tx_def run_tx_failed split: option.splits)

lemma in_tenant_tx_Inr: "in_tenant_tx c m s = (Inr x, s') \<longleftrightarrow>
    c_tenant c \<noteq> None \<and> m s = Inr (x, s')"
  by (auto simp: in_tenant_tx_def run_tx_Inr split: option.splits)

end
