(* ===== verification/GoStrings.thy ===== *)
theory GoStrings
  imports Schema "HOL-Library.Sublist"
begin

text \<open>
  The functions of Go's \<open>strings\<close> package the services use. A Go string is its UTF-8
  bytes, which is what \<^typ>\<open>string\<close> holds.
\<close>

section \<open>TrimSpace\<close>

text \<open>The UTF-8 encodings of the code points \<open>unicode.IsSpace\<close> accepts.\<close>

definition space_runes :: "string list" where
  "space_runes = map (map char_of)
     [[9::nat], [10], [11], [12], [13], [32], [194, 133], [194, 160], [225, 154, 128],
      [226, 128, 128], [226, 128, 129], [226, 128, 130], [226, 128, 131], [226, 128, 132],
      [226, 128, 133], [226, 128, 134], [226, 128, 135], [226, 128, 136], [226, 128, 137],
      [226, 128, 138], [226, 128, 168], [226, 128, 169], [226, 128, 175], [226, 129, 159],
      [227, 128, 128]]"

definition strip_one :: "string list \<Rightarrow> string \<Rightarrow> string option" where
  "strip_one runes s = map_option (\<lambda>p. drop (length p) s) (find (\<lambda>p. p \<noteq> [] \<and> prefix p s) runes)"

lemma strip_one_shorter: "strip_one runes s = Some s' \<Longrightarrow> length s' < length s"
  by (auto simp: strip_one_def find_Some_iff prefix_def)

function strip_all :: "string list \<Rightarrow> string \<Rightarrow> string" where
  "strip_all runes s = (case strip_one runes s of None \<Rightarrow> s | Some s' \<Rightarrow> strip_all runes s')"
  by pat_completeness auto
termination
  by (relation "measure (\<lambda>(_, s). length s)") (auto dest: strip_one_shorter)

declare strip_all.simps [simp del]

definition trim_space :: "string \<Rightarrow> string" where
  "trim_space s = rev (strip_all (map rev space_runes) (rev (strip_all space_runes s)))"

text \<open>\<open>strings.TrimSpace(s) == ""\<close>.\<close>

definition blank :: "string \<Rightarrow> bool" where
  "blank s \<longleftrightarrow> trim_space s = []"

lemma strip_all_Nil [simp]: "strip_all runes [] = []"
  by (subst strip_all.simps) (auto simp: strip_one_def split: option.splits dest!: find_Some_iff [THEN iffD1])

lemma strip_all_done: "strip_one runes (strip_all runes s) = None"
proof (induction runes s rule: strip_all.induct)
  case (1 runes s)
  then show ?case
    by (subst strip_all.simps) (auto split: option.splits)
qed

lemma strip_all_fixed: "strip_one runes s = None \<Longrightarrow> strip_all runes s = s"
  by (subst strip_all.simps) simp

lemma strip_all_idem: "strip_all runes (strip_all runes s) = strip_all runes s"
  by (rule strip_all_fixed) (rule strip_all_done)

lemma strip_all_suffix: "suffix (strip_all runes s) s"
proof (induction runes s rule: strip_all.induct)
  case (1 runes s)
  show ?case
  proof (cases "strip_one runes s")
    case None
    then show ?thesis by (simp add: strip_all_fixed)
  next
    case (Some s')
    then have "suffix s' s"
      by (auto simp: strip_one_def suffix_def) (metis append_take_drop_id)
    with Some 1 show ?thesis
      by (subst strip_all.simps) (auto intro: suffix_order.trans)
  qed
qed

lemma trim_space_Nil [simp]: "trim_space [] = []"
  by (simp add: trim_space_def)

lemma blank_Nil [simp]: "blank []"
  by (simp add: blank_def)

section \<open>Join, Cut, CutPrefix, Contains\<close>

definition join :: "string \<Rightarrow> string list \<Rightarrow> string" where
  "join sep xs = (case xs of [] \<Rightarrow> [] | y # ys \<Rightarrow> y @ concat (map (\<lambda>z. sep @ z) ys))"

definition cut_prefix :: "string \<Rightarrow> string \<Rightarrow> string \<times> bool" where
  "cut_prefix p s = (if prefix p s then (drop (length p) s, True) else (s, False))"

text \<open>\<open>strings.Cut\<close> with a one-byte separator.\<close>

definition cut_at :: "char \<Rightarrow> string \<Rightarrow> string \<times> string \<times> bool" where
  "cut_at c s = (if c \<in> set s
     then (takeWhile (\<lambda>x. x \<noteq> c) s, tl (dropWhile (\<lambda>x. x \<noteq> c) s), True) else (s, [], False))"

definition contains :: "string \<Rightarrow> string \<Rightarrow> bool" where
  "contains s sub = list_ex (\<lambda>k. prefix sub (drop k s)) [0..<Suc (length s)]"

lemma contains_iff: "contains s sub \<longleftrightarrow> sublist sub s"
proof
  assume "contains s sub"
  then obtain k where "prefix sub (drop k s)" by (auto simp: contains_def list_ex_iff)
  then obtain zs where "drop k s = sub @ zs" by (auto simp: prefix_def)
  then have "s = take k s @ sub @ zs" by (metis append_take_drop_id)
  then show "sublist sub s" by (metis sublist_appendI)
next
  assume "sublist sub s"
  then obtain ps ss where s: "s = ps @ sub @ ss" by (auto simp: sublist_def)
  then have "prefix sub (drop (length ps) s)" by simp
  moreover have "length ps < Suc (length s)" using s by simp
  ultimately show "contains s sub" unfolding contains_def list_ex_iff by (metis atLeastLessThan_iff le0 set_upt)
qed

lemma while_at_sep: "c \<notin> set p \<Longrightarrow>
    takeWhile (\<lambda>x. x \<noteq> c) (p @ c # q) = p \<and> dropWhile (\<lambda>x. x \<noteq> c) (p @ c # q) = c # q"
  by (induction p) auto

lemma cut_at_append: "c \<notin> set p \<Longrightarrow> cut_at c (p @ c # q) = (p, q, True)"
  by (simp add: cut_at_def while_at_sep)

lemma cut_prefix_append: "cut_prefix p (p @ s) = (s, True)"
  by (simp add: cut_prefix_def)

text \<open>ASCII lower case, which is what the code compares emails and option names in.\<close>

definition ascii_lower :: "char \<Rightarrow> char" where
  "ascii_lower ch = (let n = (of_char ch :: nat) in if 65 \<le> n \<and> n \<le> 90 then char_of (n + 32) else ch)"

definition deref :: "string option \<Rightarrow> string" where
  "deref s = (case s of None \<Rightarrow> [] | Some x \<Rightarrow> x)"

end
