(* ===== verification/OrderQueries.thy ===== *)
theory OrderQueries
  imports GoStrings "HOL-Library.Product_Lexorder"
begin

text \<open>
  The SQL statements of the order, payment and cart queries (internal/db/sqlcgen/orders.sql.go,
  payments.sql.go, carts.sql.go), one definition per statement, with the constraints of their
  tables (db/migrations 000012, 000018, 000019, 000020, 000023) that decide whether the
  statement succeeds. A statement sees and changes the rows of the transaction's tenant only;
  unique indexes span tenants where the schema says so.
\<close>

definition check_violation :: "string \<Rightarrow> err" where
  "check_violation con = PgError ''23514'' con ''check constraint''"

definition unique_violation :: "string \<Rightarrow> err" where
  "unique_violation con = PgError ''23505'' con ''duplicate key''"

definition fk_violation :: "string \<Rightarrow> err" where
  "fk_violation con = PgError ''23503'' con ''foreign key''"

definition out_of_range :: err where
  "out_of_range = PgError ''22003'' [] ''out of range''"

definition guardT :: "(db \<Rightarrow> bool) \<Rightarrow> err \<Rightarrow> unit stmt" where
  "guardT p e s = (if p s then Inr ((), s) else Inl e)"

lemma guardT_Inr [simp]: "guardT p e s = Inr r \<longleftrightarrow> p s \<and> r = ((), s)"
  by (auto simp: guardT_def)

lemma guardT_isolated [isolation]: "within (isolated t) (guardT p e)"
  by (rule iso.failed_or_same) simp

lemmas [tx_eval] = guardT_def

section \<open>Prices and the storefront views\<close>

text \<open>\<open>variant_price\<close> (migration 000012): the sale price while its window runs.\<close>

definition variant_price :: "instant \<Rightarrow> variant \<Rightarrow> int" where
  "variant_price now v =
    (case va_sale_price v of
      Some sale \<Rightarrow>
        if (case va_sale_starts_at v of None \<Rightarrow> True | Some a \<Rightarrow> a \<le> now) \<and>
           (case va_sale_ends_at v of None \<Rightarrow> True | Some b \<Rightarrow> now < b)
        then sale else va_regular_price v
    | None \<Rightarrow> va_regular_price v)"

definition get_variant_row :: "uuid \<Rightarrow> uuid \<Rightarrow> db \<Rightarrow> variant option" where
  "get_variant_row t vid s = row_get va_tenant va_id t vid (variants s)"

definition get_product_row :: "uuid \<Rightarrow> uuid \<Rightarrow> db \<Rightarrow> product option" where
  "get_product_row t pid s = row_get pr_tenant pr_id t pid (products s)"

text \<open>\<open>storefront_products\<close>, \<open>storefront_variants\<close> (000019), \<open>storefront_variant_labels\<close> (000020).\<close>

definition product_visible :: "product \<Rightarrow> bool" where
  "product_visible p \<longleftrightarrow> pr_status p = S_active \<and> pr_archived_at p = None"

record label_row =
  lb_sku :: "string option"
  lb_option_values :: "string list"
  lb_product_title :: string
  lb_product_slug :: string
  lb_available :: "bool option"

definition variant_label :: "uuid \<Rightarrow> uuid \<Rightarrow> db \<Rightarrow> label_row option" where
  "variant_label t vid s =
    (case get_variant_row t vid s of
      None \<Rightarrow> None
    | Some v \<Rightarrow>
        (case get_product_row t (va_product v) s of
          None \<Rightarrow> None
        | Some p \<Rightarrow> Some \<lparr>lb_sku = va_sku v, lb_option_values = va_option_values v,
            lb_product_title = pr_title p, lb_product_slug = pr_slug p,
            lb_available = Some (va_archived_at v = None \<and> product_visible p)\<rparr>))"

definition storefront_variant :: "uuid \<Rightarrow> uuid \<Rightarrow> db \<Rightarrow> variant option" where
  "storefront_variant t vid s =
    (case get_variant_row t vid s of
      None \<Rightarrow> None
    | Some v \<Rightarrow>
        (case get_product_row t (va_product v) s of
          None \<Rightarrow> None
        | Some p \<Rightarrow> if va_archived_at v = None \<and> product_visible p then Some v else None))"

section \<open>Orders\<close>

text \<open>\<open>^[a-z0-9_]+$\<close>, the CHECK on orders.courier.\<close>

definition courier_char :: "char \<Rightarrow> bool" where
  "courier_char ch \<longleftrightarrow> (let n = (of_char ch :: nat) in
     (97 \<le> n \<and> n \<le> 122) \<or> (48 \<le> n \<and> n \<le> 57) \<or> n = 95)"

definition courier_ok :: "string \<Rightarrow> bool" where
  "courier_ok s \<longleftrightarrow> s \<noteq> [] \<and> list_all courier_char s"

text \<open>The CHECK constraints of a row of orders, and its integer columns' ranges.\<close>

definition order_check :: "order \<Rightarrow> bool" where
  "order_check r \<longleftrightarrow>
     or_source r \<in> {S_storefront, S_manual} \<and>
     or_status r \<in> {S_pending, S_paid, S_processing, S_shipped, S_completed, S_cancelled} \<and>
     or_currency r = ''IDR'' \<and>
     or_payment_method r \<in> {S_bank_transfer, S_midtrans} \<and>
     (case or_courier r of None \<Rightarrow> True | Some x \<Rightarrow> courier_ok x) \<and>
     (or_status r \<in> {S_shipped, S_completed} \<longrightarrow> or_courier r \<noteq> None \<and> or_tracking_number r \<noteq> None) \<and>
     (or_refunded_at r \<noteq> None \<longrightarrow> or_status r = S_cancelled \<and> or_paid_at r \<noteq> None) \<and>
     or_total r = or_subtotal r + or_shipping r - or_discount r \<and>
     is_i64 (or_total r) \<and> is_i64 (or_subtotal r + or_shipping r) \<and> is_i32 (or_version r)"

definition get_order :: "uuid \<Rightarrow> uuid \<Rightarrow> db \<Rightarrow> order option" where
  "get_order t oid s = row_get or_tenant or_id t oid (orders s)"

definition upd_order :: "uuid \<Rightarrow> uuid \<Rightarrow> (order \<Rightarrow> order) \<Rightarrow> db \<Rightarrow> db" where
  "upd_order t oid f s = s\<lparr>orders := row_upd or_tenant or_id t oid f (orders s)\<rparr>"

text \<open>\<open>SELECT ... FOR UPDATE\<close>: the lock orders the transactions, the row is what is read.\<close>

definition lock_order :: "ctx \<Rightarrow> uuid \<Rightarrow> order stmt" where
  "lock_order c oid = oneT (get_order (tenant_of c) oid)"

definition order_by_cart :: "ctx \<Rightarrow> uuid \<Rightarrow> order stmt" where
  "order_by_cart c cid = oneT (\<lambda>s. find (\<lambda>r. or_tenant r = tenant_of c \<and> or_cart r = Some cid) (orders s))"

definition order_by_number :: "ctx \<Rightarrow> string \<Rightarrow> order stmt" where
  "order_by_number c n = oneT (\<lambda>s. find (\<lambda>r. or_tenant r = tenant_of c \<and> or_number r = n) (orders s))"

definition get_order_lines :: "ctx \<Rightarrow> uuid \<Rightarrow> order_line list stmt" where
  "get_order_lines c oid = readT (\<lambda>s. sort_key ol_id
     (filter (\<lambda>l. ol_tenant l = tenant_of c \<and> ol_order l = oid) (order_lines s)))"

text \<open>An UPDATE of one row by id with RETURNING: no row is \<open>ErrNoRows\<close>, a row that would
  break a CHECK is refused.\<close>

definition update_order :: "ctx \<Rightarrow> uuid \<Rightarrow> (order \<Rightarrow> order) \<Rightarrow> order stmt" where
  "update_order c oid f =
    bindT (lock_order c oid) (\<lambda>r.
    thenT (guardT (\<lambda>_. order_check (f r)) (check_violation ''orders_check''))
    (thenT (writeT (upd_order (tenant_of c) oid f)) (retT (f r))))"

definition transition_order :: "ctx \<Rightarrow> uuid \<Rightarrow> string \<Rightarrow> string option \<Rightarrow> string option \<Rightarrow> order stmt" where
  "transition_order c oid to courier tracking = update_order c oid (\<lambda>r. r\<lparr>
     or_status := to,
     or_paid_at := (if to = S_paid then Some (c_now c) else or_paid_at r),
     or_shipped_at := (if to = S_shipped then Some (c_now c) else or_shipped_at r),
     or_completed_at := (if to = S_completed then Some (c_now c) else or_completed_at r),
     or_cancelled_at := (if to = S_cancelled then Some (c_now c) else or_cancelled_at r),
     or_courier := (case courier of Some x \<Rightarrow> Some x | None \<Rightarrow> or_courier r),
     or_tracking_number := (case tracking of Some x \<Rightarrow> Some x | None \<Rightarrow> or_tracking_number r),
     or_version := or_version r + 1,
     or_updated_at := c_now c\<rparr>)"

definition update_pending_order ::
  "ctx \<Rightarrow> uuid \<Rightarrow> string option \<Rightarrow> bool \<Rightarrow> string option \<Rightarrow> int option \<Rightarrow> order stmt" where
  "update_pending_order c oid address set_note note shipping = update_order c oid (\<lambda>r.
    let ship = (case shipping of Some x \<Rightarrow> x | None \<Rightarrow> or_shipping r) in r\<lparr>
     or_shipping_address := (case address of Some x \<Rightarrow> x | None \<Rightarrow> or_shipping_address r),
     or_note := (if set_note then note else or_note r),
     or_shipping := ship,
     or_total := or_subtotal r + ship - or_discount r,
     or_version := or_version r + 1,
     or_updated_at := c_now c\<rparr>)"

definition record_refund :: "ctx \<Rightarrow> uuid \<Rightarrow> order stmt" where
  "record_refund c oid = update_order c oid (\<lambda>r. r\<lparr>
     or_refunded_at := Some (c_now c),
     or_version := or_version r + 1,
     or_updated_at := c_now c\<rparr>)"

text \<open>The counter row of the tenant, made on first use.\<close>

definition next_order_number :: "ctx \<Rightarrow> int stmt" where
  "next_order_number c s =
    (case map_of (sequences s) (tenant_of c) of
      None \<Rightarrow> Inr (1, s\<lparr>sequences := (tenant_of c, 1) # sequences s\<rparr>)
    | Some n \<Rightarrow>
        if is_i64 (n + 1)
        then Inr (n + 1, s\<lparr>sequences := map (\<lambda>p. if fst p = tenant_of c then (fst p, n + 1) else p) (sequences s)\<rparr>)
        else Inl out_of_range)"

definition tenant_order_prefix :: "ctx \<Rightarrow> string stmt" where
  "tenant_order_prefix c = oneT (\<lambda>s. map_option tn_order_prefix
     (find (\<lambda>r. tn_id r = tenant_of c) (tenants s)))"

record create_order_params =
  co_id :: uuid
  co_source :: string
  co_customer_id :: "uuid option"
  co_cart :: "uuid option"
  co_number :: string
  co_customer :: string
  co_shipping_address :: string
  co_note :: "string option"
  co_payment_method :: string
  co_shipping_courier :: "string option"
  co_shipping_service :: "string option"
  co_subtotal :: int
  co_shipping :: int
  co_discount :: int
  co_total :: int

definition new_order_row :: "ctx \<Rightarrow> create_order_params \<Rightarrow> order" where
  "new_order_row c p = \<lparr>or_id = co_id p, or_tenant = tenant_of c, or_source = co_source p,
     or_customer_id = co_customer_id p, or_number = co_number p, or_status = S_pending,
     or_customer = co_customer p, or_shipping_address = co_shipping_address p, or_note = co_note p,
     or_subtotal = co_subtotal p, or_shipping = co_shipping p, or_discount = co_discount p,
     or_total = co_total p, or_currency = ''IDR'', or_payment_method = co_payment_method p,
     or_shipping_courier = co_shipping_courier p, or_shipping_service = co_shipping_service p,
     or_courier = None, or_tracking_number = None, or_placed_at = c_now c, or_paid_at = None,
     or_shipped_at = None, or_completed_at = None, or_cancelled_at = None, or_refunded_at = None,
     or_version = 1, or_created_at = c_now c, or_updated_at = c_now c, or_cart = co_cart p\<rparr>"

definition order_unique :: "order \<Rightarrow> db \<Rightarrow> bool" where
  "order_unique r s \<longleftrightarrow> list_all (\<lambda>q. or_id q \<noteq> or_id r \<and>
     (or_tenant q, or_number q) \<noteq> (or_tenant r, or_number r) \<and>
     (or_cart r = None \<or> or_cart q \<noteq> or_cart r)) (orders s)"

definition order_refs :: "order \<Rightarrow> db \<Rightarrow> bool" where
  "order_refs r s \<longleftrightarrow>
     (case or_customer_id r of None \<Rightarrow> True
      | Some cu \<Rightarrow> row_get cu_tenant cu_id (or_tenant r) cu (customers s) \<noteq> None) \<and>
     (case or_cart r of None \<Rightarrow> True
      | Some ca \<Rightarrow> row_get ca_tenant ca_id (or_tenant r) ca (carts s) \<noteq> None)"

definition create_order :: "ctx \<Rightarrow> create_order_params \<Rightarrow> order stmt" where
  "create_order c p =
    (let r = new_order_row c p in
     thenT (guardT (\<lambda>_. order_check r) (check_violation ''orders_check''))
     (thenT (guardT (order_unique r) (unique_violation ''orders_unique''))
     (thenT (guardT (order_refs r) (fk_violation ''orders_same_tenant''))
     (thenT (writeT (\<lambda>s. s\<lparr>orders := orders s @ [r]\<rparr>)) (retT r)))))"

record create_line_params =
  cl_id :: uuid
  cl_order :: uuid
  cl_variant :: uuid
  cl_sku :: string
  cl_title :: string
  cl_qty :: int
  cl_unit_price :: int
  cl_discount :: int

definition create_order_line :: "ctx \<Rightarrow> create_line_params \<Rightarrow> unit stmt" where
  "create_order_line c p =
     thenT (guardT (\<lambda>_. 0 < cl_qty p) (check_violation ''order_lines_qty_check''))
     (thenT (guardT (\<lambda>s. list_all (\<lambda>q. ol_id q \<noteq> cl_id p) (order_lines s)) (unique_violation ''order_lines_pkey''))
     (thenT (guardT (\<lambda>s. get_order (tenant_of c) (cl_order p) s \<noteq> None \<and>
                get_variant_row (tenant_of c) (cl_variant p) s \<noteq> None) (fk_violation ''order_lines_same_tenant''))
     (writeT (\<lambda>s. s\<lparr>order_lines := order_lines s @
       [\<lparr>ol_id = cl_id p, ol_tenant = tenant_of c, ol_order = cl_order p, ol_variant = cl_variant p,
         ol_sku = cl_sku p, ol_title = cl_title p, ol_qty = cl_qty p, ol_unit_price = cl_unit_price p,
         ol_discount = cl_discount p\<rparr>]\<rparr>))))"

record variant_for_order_row =
  vo_sku :: "string option"
  vo_option_values :: "string list"
  vo_archived_at :: "instant option"
  vo_price :: int
  vo_weight_grams :: int
  vo_title :: string

definition variant_for_order :: "ctx \<Rightarrow> uuid \<Rightarrow> variant_for_order_row stmt" where
  "variant_for_order c vid = oneT (\<lambda>s.
    (case get_variant_row (tenant_of c) vid s of
      None \<Rightarrow> None
    | Some v \<Rightarrow>
        (case get_product_row (tenant_of c) (va_product v) s of
          None \<Rightarrow> None
        | Some p \<Rightarrow> Some \<lparr>vo_sku = va_sku v, vo_option_values = va_option_values v,
            vo_archived_at = va_archived_at v, vo_price = variant_price (c_now c) v,
            vo_weight_grams = va_weight_grams v, vo_title = pr_title p\<rparr>)))"

text \<open>\<open>CustomerOrders\<close>: a customer's orders before a position, newest first.\<close>

record customer_order_row =
  cr_id :: uuid
  cr_number :: string
  cr_status :: string
  cr_total :: int
  cr_placed_at :: instant
  cr_item_count :: int

definition item_count :: "uuid \<Rightarrow> uuid \<Rightarrow> db \<Rightarrow> int" where
  "item_count t oid s = sum_list (map ol_qty
     (filter (\<lambda>l. ol_tenant l = t \<and> ol_order l = oid) (order_lines s)))"

definition newest_first :: "order list \<Rightarrow> order list" where
  "newest_first rs = rev (sort_key (\<lambda>r. (or_placed_at r, or_id r)) rs)"

definition customer_orders_query ::
  "ctx \<Rightarrow> uuid \<Rightarrow> (instant \<times> uuid) option \<Rightarrow> int \<Rightarrow> customer_order_row list stmt" where
  "customer_orders_query c cu before lim = readT (\<lambda>s.
    map (\<lambda>r. \<lparr>cr_id = or_id r, cr_number = or_number r, cr_status = or_status r, cr_total = or_total r,
          cr_placed_at = or_placed_at r, cr_item_count = item_count (tenant_of c) (or_id r) s\<rparr>)
      (take (nat lim) (newest_first (filter (\<lambda>r. or_tenant r = tenant_of c \<and>
         or_customer_id r = Some cu \<and>
         (case before of None \<Rightarrow> True | Some b \<Rightarrow> (or_placed_at r, or_id r) < b)) (orders s)))))"

end
