(* ===== verification/CheckoutQueries.thy ===== *)
theory CheckoutQueries
  imports OrderQueries
begin

text \<open>
  The SQL statements over payments, carts and the shop's settings
  (internal/db/sqlcgen/payments.sql.go, carts.sql.go, storefront_settings.sql.go), with the
  constraints of migrations 000020 and 000023.
\<close>

section \<open>Payments\<close>

definition get_payment :: "uuid \<Rightarrow> uuid \<Rightarrow> db \<Rightarrow> payment option" where
  "get_payment t pid s = row_get pa_tenant pa_id t pid (payments s)"

definition upd_payment :: "uuid \<Rightarrow> uuid \<Rightarrow> (payment \<Rightarrow> payment) \<Rightarrow> db \<Rightarrow> db" where
  "upd_payment t pid f s = s\<lparr>payments := row_upd pa_tenant pa_id t pid f (payments s)\<rparr>"

definition order_payments_of :: "uuid \<Rightarrow> uuid \<Rightarrow> db \<Rightarrow> payment list" where
  "order_payments_of t oid s = sort_key (\<lambda>p. - pa_attempt p)
     (filter (\<lambda>p. pa_tenant p = t \<and> pa_order p = oid) (payments s))"

definition order_payments :: "ctx \<Rightarrow> uuid \<Rightarrow> payment list stmt" where
  "order_payments c oid = readT (order_payments_of (tenant_of c) oid)"

definition latest_payment :: "ctx \<Rightarrow> uuid \<Rightarrow> payment stmt" where
  "latest_payment c oid = oneT (\<lambda>s. case order_payments_of (tenant_of c) oid s of
     [] \<Rightarrow> None | p # _ \<Rightarrow> Some p)"

definition lock_payment :: "ctx \<Rightarrow> uuid \<Rightarrow> payment stmt" where
  "lock_payment c pid = oneT (get_payment (tenant_of c) pid)"

definition payment_by_provider_order_id :: "ctx \<Rightarrow> string \<Rightarrow> payment stmt" where
  "payment_by_provider_order_id c n = oneT (\<lambda>s. find (\<lambda>p. pa_tenant p = tenant_of c \<and>
     pa_provider_order_id p = n) (payments s))"

definition payment_check :: "payment \<Rightarrow> bool" where
  "payment_check p \<longleftrightarrow> pa_provider p = S_midtrans \<and> 1 \<le> pa_attempt p \<and> is_i32 (pa_attempt p) \<and>
     pa_status p \<in> {S_pending, S_paid, S_failed, S_amount_mismatch}"

text \<open>
  The unique constraints: the provider's order id per tenant, the attempt per order, and at
  most one pending attempt per order (payments_one_pending_per_order).
\<close>

definition payment_unique :: "payment \<Rightarrow> db \<Rightarrow> bool" where
  "payment_unique p s \<longleftrightarrow> list_all (\<lambda>q. pa_id q \<noteq> pa_id p \<and>
     (pa_tenant q, pa_provider_order_id q) \<noteq> (pa_tenant p, pa_provider_order_id p) \<and>
     (pa_order q, pa_attempt q) \<noteq> (pa_order p, pa_attempt p) \<and>
     \<not> (pa_order q = pa_order p \<and> pa_status q = S_pending \<and> pa_status p = S_pending)) (payments s)"

record create_payment_params =
  cp_id :: uuid
  cp_order :: uuid
  cp_provider_order_id :: string
  cp_attempt :: int
  cp_gross_amount :: int
  cp_expires_at :: instant

definition create_payment :: "ctx \<Rightarrow> create_payment_params \<Rightarrow> payment stmt" where
  "create_payment c p =
    (let r = \<lparr>pa_id = cp_id p, pa_tenant = tenant_of c, pa_order = cp_order p, pa_provider = S_midtrans,
       pa_provider_order_id = cp_provider_order_id p, pa_attempt = cp_attempt p, pa_status = S_pending,
       pa_gross_amount = cp_gross_amount p, pa_snap_token = None, pa_redirect_url = None,
       pa_expires_at = cp_expires_at p, pa_transaction_status = None, pa_last_notification = None,
       pa_paid_at = None, pa_created_at = c_now c, pa_updated_at = c_now c\<rparr>
     in
     thenT (guardT (\<lambda>_. payment_check r) (check_violation ''payments_check''))
     (thenT (guardT (payment_unique r) (unique_violation ''payments_unique''))
     (thenT (guardT (\<lambda>s. get_order (tenant_of c) (cp_order p) s \<noteq> None) (fk_violation ''payments_same_tenant_as_order''))
     (thenT (writeT (\<lambda>s. s\<lparr>payments := payments s @ [r]\<rparr>)) (retT r)))))"

text \<open>\<open>:exec\<close> updates: a row that does not match is not an error.\<close>

definition fail_stale_payment :: "ctx \<Rightarrow> uuid \<Rightarrow> unit stmt" where
  "fail_stale_payment c pid = writeT (upd_payment (tenant_of c) pid (\<lambda>p.
     if pa_status p = S_pending then p\<lparr>pa_status := S_failed, pa_updated_at := c_now c\<rparr> else p))"

definition set_payment_link :: "ctx \<Rightarrow> uuid \<Rightarrow> string option \<Rightarrow> string option \<Rightarrow> unit stmt" where
  "set_payment_link c pid token url = writeT (upd_payment (tenant_of c) pid (\<lambda>p.
     p\<lparr>pa_snap_token := token, pa_redirect_url := url, pa_updated_at := c_now c\<rparr>))"

record notification_params =
  np_status :: string
  np_transaction_status :: "string option"
  np_last_notification :: string
  np_paid_at :: "instant option"
  np_id :: uuid

text \<open>
  The attempt's status may not return to pending while another attempt of the order is
  pending; the statuses the code writes never do, and the CHECK refuses unknown ones.
\<close>

definition record_notification :: "ctx \<Rightarrow> notification_params \<Rightarrow> unit stmt" where
  "record_notification c n =
     thenT (guardT (\<lambda>_. np_status n \<in> {S_pending, S_paid, S_failed, S_amount_mismatch})
              (check_violation ''payments_status_check''))
     (thenT (guardT (\<lambda>s. np_status n = S_pending \<longrightarrow>
               list_all (\<lambda>q. pa_id q = np_id n \<or> pa_status q \<noteq> S_pending \<or>
                 (case get_payment (tenant_of c) (np_id n) s of None \<Rightarrow> True
                  | Some p \<Rightarrow> pa_order q \<noteq> pa_order p)) (payments s))
              (unique_violation ''payments_one_pending_per_order''))
     (writeT (upd_payment (tenant_of c) (np_id n) (\<lambda>p.
        p\<lparr>pa_status := np_status n, pa_transaction_status := np_transaction_status n,
          pa_last_notification := Some (np_last_notification n), pa_paid_at := np_paid_at n,
          pa_updated_at := c_now c\<rparr>))))"

section \<open>Carts\<close>

definition get_cart :: "uuid \<Rightarrow> uuid \<Rightarrow> db \<Rightarrow> cart option" where
  "get_cart t cid s = row_get ca_tenant ca_id t cid (carts s)"

definition upd_cart :: "uuid \<Rightarrow> uuid \<Rightarrow> (cart \<Rightarrow> cart) \<Rightarrow> db \<Rightarrow> db" where
  "upd_cart t cid f s = s\<lparr>carts := row_upd ca_tenant ca_id t cid f (carts s)\<rparr>"

definition lock_cart :: "ctx \<Rightarrow> uuid \<Rightarrow> cart stmt" where
  "lock_cart c cid = oneT (get_cart (tenant_of c) cid)"

definition check_out_cart :: "ctx \<Rightarrow> uuid \<Rightarrow> unit stmt" where
  "check_out_cart c cid = writeT (upd_cart (tenant_of c) cid (\<lambda>r.
     r\<lparr>ca_status := S_checked_out, ca_updated_at := c_now c\<rparr>))"

definition create_cart :: "ctx \<Rightarrow> uuid \<Rightarrow> uuid option \<Rightarrow> cart stmt" where
  "create_cart c cid customer =
    (let r = \<lparr>ca_id = cid, ca_tenant = tenant_of c, ca_customer = customer, ca_status = S_open,
       ca_expires_at = c_now c + hours (30 * 24), ca_created_at = c_now c, ca_updated_at = c_now c\<rparr>
     in
     thenT (guardT (\<lambda>s. list_all (\<lambda>q. ca_id q \<noteq> cid) (carts s)) (unique_violation ''carts_pkey''))
     (thenT (guardT (\<lambda>s. case customer of None \<Rightarrow> True
               | Some cu \<Rightarrow> row_get cu_tenant cu_id (tenant_of c) cu (customers s) \<noteq> None)
              (fk_violation ''carts_same_tenant_as_customer''))
     (thenT (writeT (\<lambda>s. s\<lparr>carts := carts s @ [r]\<rparr>)) (retT r))))"

definition claim_cart :: "ctx \<Rightarrow> uuid \<Rightarrow> uuid \<Rightarrow> unit stmt" where
  "claim_cart c cid customer =
     thenT (guardT (\<lambda>s. (case get_cart (tenant_of c) cid s of None \<Rightarrow> True
               | Some r \<Rightarrow> ca_customer r \<noteq> None \<or> ca_status r \<noteq> S_open \<or>
                   row_get cu_tenant cu_id (tenant_of c) customer (customers s) \<noteq> None))
              (fk_violation ''carts_same_tenant_as_customer''))
     (writeT (upd_cart (tenant_of c) cid (\<lambda>r.
        if ca_customer r = None \<and> ca_status r = S_open then r\<lparr>ca_customer := Some customer\<rparr> else r)))"

definition touch_cart :: "ctx \<Rightarrow> uuid \<Rightarrow> unit stmt" where
  "touch_cart c cid = writeT (upd_cart (tenant_of c) cid (\<lambda>r.
     r\<lparr>ca_expires_at := c_now c + hours (30 * 24), ca_updated_at := c_now c\<rparr>))"

definition item_at :: "uuid \<Rightarrow> uuid \<Rightarrow> uuid \<Rightarrow> cart_item \<Rightarrow> bool" where
  "item_at t cid vid i \<longleftrightarrow> ci_tenant i = t \<and> ci_cart i = cid \<and> ci_variant i = vid"

text \<open>
  \<open>ON CONFLICT (cart_id, variant_id) DO UPDATE SET qty\<close>: the item keeps its place
  (\<open>added_at\<close>) when it is already there.
\<close>

definition set_cart_item :: "ctx \<Rightarrow> uuid \<Rightarrow> uuid \<Rightarrow> int \<Rightarrow> unit stmt" where
  "set_cart_item c cid vid qty =
     thenT (guardT (\<lambda>_. 1 \<le> qty \<and> qty \<le> 999) (check_violation ''cart_items_qty_check''))
     (thenT (guardT (\<lambda>s. get_cart (tenant_of c) cid s \<noteq> None \<and> get_variant_row (tenant_of c) vid s \<noteq> None)
              (fk_violation ''cart_items_same_tenant''))
     (writeT (\<lambda>s.
        if list_ex (item_at (tenant_of c) cid vid) (cart_items s)
        then s\<lparr>cart_items := map (\<lambda>i. if item_at (tenant_of c) cid vid i then i\<lparr>ci_qty := qty\<rparr> else i) (cart_items s)\<rparr>
        else s\<lparr>cart_items := cart_items s @ [\<lparr>ci_tenant = tenant_of c, ci_cart = cid, ci_variant = vid,
               ci_qty = qty, ci_added_at = c_now c\<rparr>]\<rparr>)))"

definition delete_cart_item :: "ctx \<Rightarrow> uuid \<Rightarrow> uuid \<Rightarrow> unit stmt" where
  "delete_cart_item c cid vid = writeT (\<lambda>s. s\<lparr>cart_items :=
     row_del ci_tenant (\<lambda>i. ci_cart i = cid \<and> ci_variant i = vid) (tenant_of c) (cart_items s)\<rparr>)"

definition variant_visible :: "ctx \<Rightarrow> uuid \<Rightarrow> bool stmt" where
  "variant_visible c vid = readT (\<lambda>s. storefront_variant (tenant_of c) vid s \<noteq> None)"

record cart_line_row =
  cv_variant :: uuid
  cv_qty :: int
  cv_sku :: "string option"
  cv_option_values :: "string list"
  cv_product_title :: string
  cv_product_slug :: string
  cv_available :: "bool option"
  cv_price :: "int option"
  cv_weight_grams :: "int option"

definition cart_line_of :: "instant \<Rightarrow> uuid \<Rightarrow> db \<Rightarrow> cart_item \<Rightarrow> cart_line_row option" where
  "cart_line_of now t s i =
    (case variant_label t (ci_variant i) s of
      None \<Rightarrow> None
    | Some l \<Rightarrow> Some \<lparr>cv_variant = ci_variant i, cv_qty = ci_qty i, cv_sku = lb_sku l,
        cv_option_values = lb_option_values l, cv_product_title = lb_product_title l,
        cv_product_slug = lb_product_slug l, cv_available = lb_available l,
        cv_price = map_option (variant_price now) (storefront_variant t (ci_variant i) s),
        cv_weight_grams = map_option va_weight_grams (storefront_variant t (ci_variant i) s)\<rparr>)"

definition cart_lines :: "ctx \<Rightarrow> uuid \<Rightarrow> cart_line_row list stmt" where
  "cart_lines c cid = readT (\<lambda>s. List.map_filter (cart_line_of (c_now c) (tenant_of c) s)
     (sort_key (\<lambda>i. (ci_added_at i, ci_variant i))
        (filter (\<lambda>i. ci_tenant i = tenant_of c \<and> ci_cart i = cid) (cart_items s))))"

text \<open>\<open>DeleteExpiredCarts\<close>: open carts past their expiry, their items by cascade.\<close>

definition delete_expired_carts :: "ctx \<Rightarrow> int stmt" where
  "delete_expired_carts c s =
    (let t = tenant_of c;
         dead = (\<lambda>r. ca_status r = S_open \<and> ca_expires_at r < c_now c);
         gone = filter (\<lambda>r. ca_tenant r = t \<and> dead r) (carts s)
     in Inr (int (length gone),
          s\<lparr>carts := row_del ca_tenant dead t (carts s),
            cart_items := row_del ci_tenant (\<lambda>i. ci_cart i \<in> set (map ca_id gone)) t (cart_items s)\<rparr>))"

section \<open>Settings\<close>

definition get_storefront_settings :: "ctx \<Rightarrow> storefront_setting stmt" where
  "get_storefront_settings c = oneT (\<lambda>s. find (\<lambda>r. st_tenant r = tenant_of c) (settings s))"

section \<open>Isolation of the statements\<close>

lemmas stmt_defs = lock_order_def order_by_cart_def order_by_number_def get_order_lines_def
  tenant_order_prefix_def variant_for_order_def customer_orders_query_def order_payments_def
  latest_payment_def lock_payment_def payment_by_provider_order_id_def lock_cart_def
  variant_visible_def cart_lines_def get_storefront_settings_def

lemma reads_isolated [isolation]:
  "within (isolated t) (lock_order c oid)" "within (isolated t) (order_by_cart c cid)"
  "within (isolated t) (order_by_number c n)" "within (isolated t) (get_order_lines c oid)"
  "within (isolated t) (tenant_order_prefix c)" "within (isolated t) (variant_for_order c vid)"
  "within (isolated t) (customer_orders_query c cu b l)" "within (isolated t) (order_payments c oid)"
  "within (isolated t) (latest_payment c oid)" "within (isolated t) (lock_payment c pid)"
  "within (isolated t) (payment_by_provider_order_id c n)" "within (isolated t) (lock_cart c cid)"
  "within (isolated t) (variant_visible c vid)" "within (isolated t) (cart_lines c cid)"
  "within (isolated t) (get_storefront_settings c)"
  by (simp_all add: stmt_defs isolation iso.read)

lemma isolatedI: "foreign t s' = foreign t s \<Longrightarrow> isolated t s s'"
  by (simp add: isolated_def same_def)

lemma write_isolated: "(\<And>s. foreign t (g s) = foreign t s) \<Longrightarrow> within (isolated t) (writeT g)"
  by (auto intro!: withinI isolatedI)

lemma upd_order_foreign: "keeps_key or_tenant or_id f \<Longrightarrow> foreign t (upd_order t oid f s) = foreign t s"
  by (simp add: foreign_def upd_order_def others_upd)

lemma upd_payment_foreign: "keeps_key pa_tenant pa_id f \<Longrightarrow> foreign t (upd_payment t pid f s) = foreign t s"
  by (simp add: foreign_def upd_payment_def others_upd)

lemma upd_cart_foreign: "keeps_key ca_tenant ca_id f \<Longrightarrow> foreign t (upd_cart t cid f s) = foreign t s"
  by (simp add: foreign_def upd_cart_def others_upd)

lemma insert_foreign:
  "or_tenant r = t \<Longrightarrow> foreign t (s\<lparr>orders := orders s @ [r]\<rparr>) = foreign t s"
  "ol_tenant l = t \<Longrightarrow> foreign t (s\<lparr>order_lines := order_lines s @ [l]\<rparr>) = foreign t s"
  "pa_tenant p = t \<Longrightarrow> foreign t (s\<lparr>payments := payments s @ [p]\<rparr>) = foreign t s"
  "ca_tenant k = t \<Longrightarrow> foreign t (s\<lparr>carts := carts s @ [k]\<rparr>) = foreign t s"
  by (simp_all add: foreign_def others_append others_own)

lemma update_order_isolated:
  "tenant_of c = t \<Longrightarrow> keeps_key or_tenant or_id f \<Longrightarrow> within (isolated t) (update_order c oid f)"
  unfolding update_order_def
  by (intro iso.rules write_isolated isolation) (simp add: upd_order_foreign)

lemma order_writes_isolated [isolation]:
  assumes "tenant_of c = t"
  shows "within (isolated t) (transition_order c oid to cour trk)"
    and "within (isolated t) (update_pending_order c oid a b n sh)"
    and "within (isolated t) (record_refund c oid)"
  using assms
  by (auto simp: transition_order_def update_pending_order_def record_refund_def keeps_key_def Let_def
      intro!: update_order_isolated)

lemma next_order_number_isolated [isolation]:
  "tenant_of c = t \<Longrightarrow> within (isolated t) (next_order_number c)"
proof -
  have "filter (\<lambda>p. fst p \<noteq> t) (map (\<lambda>p. if fst p = t then (fst p, n) else p) xs)
        = filter (\<lambda>p. fst p \<noteq> t) xs" for n and xs :: "(uuid \<times> int) list"
    by (induction xs) auto
  then show "tenant_of c = t \<Longrightarrow> within (isolated t) (next_order_number c)"
    by (auto simp: within_def next_order_number_def isolated_def same_def foreign_def
        split: option.splits if_splits)
qed

lemma inserts_isolated [isolation]:
  assumes "tenant_of c = t"
  shows "within (isolated t) (create_order c p)" and "within (isolated t) (create_order_line c q)"
    and "within (isolated t) (create_payment c r)" and "within (isolated t) (create_cart c cid cu)"
  using assms unfolding create_order_def create_order_line_def create_payment_def create_cart_def Let_def
  by (intro iso.rules write_isolated isolation; simp add: insert_foreign new_order_row_def)+

lemma payment_writes_isolated [isolation]:
  assumes "tenant_of c = t"
  shows "within (isolated t) (fail_stale_payment c pid)"
    and "within (isolated t) (set_payment_link c pid tok url)"
    and "within (isolated t) (record_notification c n)"
  using assms unfolding fail_stale_payment_def set_payment_link_def record_notification_def
  by (intro iso.rules write_isolated isolation; auto simp: upd_payment_foreign keeps_key_def)+

lemma cart_writes_isolated [isolation]:
  assumes "tenant_of c = t"
  shows "within (isolated t) (check_out_cart c cid)" and "within (isolated t) (claim_cart c cid cu)"
    and "within (isolated t) (touch_cart c cid)"
  using assms unfolding check_out_cart_def claim_cart_def touch_cart_def
  by (intro iso.rules write_isolated isolation; auto simp: upd_cart_foreign keeps_key_def)+

lemma set_cart_item_isolated [isolation]:
  "tenant_of c = t \<Longrightarrow> within (isolated t) (set_cart_item c cid vid qty)"
proof -
  have "others ci_tenant t (map (\<lambda>i. if item_at t cid vid i then i\<lparr>ci_qty := qty\<rparr> else i) xs)
        = others ci_tenant t xs" for xs
    by (induction xs) (auto simp: others_def item_at_def)
  then show "tenant_of c = t \<Longrightarrow> within (isolated t) (set_cart_item c cid vid qty)"
    unfolding set_cart_item_def
    by (intro iso.rules write_isolated isolation) (auto simp: foreign_def others_append others_own)
qed

lemma deletes_isolated [isolation]:
  assumes "tenant_of c = t"
  shows "within (isolated t) (delete_cart_item c cid vid)" and "within (isolated t) (delete_expired_carts c)"
  using assms by (auto simp: delete_cart_item_def delete_expired_carts_def within_def isolated_def
      same_def foreign_def others_del Let_def)

end
