(* ===== verification/OrderState.thy ===== *)
theory OrderState
  imports CheckoutQueries
begin

text \<open>
  The order state machine (internal/orders/transition.go), the edit of a pending order
  (update.go), the refund record (refund.go) and the mail a status change queues (mail.go).
  The state of the service is the database and the queue of order emails.
\<close>

section \<open>The service's state\<close>

record envelope =
  ev_kind :: string
  ev_tenant :: uuid
  ev_order :: uuid

record world =
  w_db :: db
  w_mail :: "envelope list"

text \<open>
  \<open>Service.Mail\<close>: nil, or a function that queues an envelope and may fail. A failure costs
  the email and nothing else.
\<close>

type_synonym mailer = "(envelope \<Rightarrow> bool) option"

definition queue_mail :: "mailer \<Rightarrow> string \<Rightarrow> uuid \<Rightarrow> uuid \<Rightarrow> envelope list \<Rightarrow> envelope list" where
  "queue_mail m kind t oid q =
    (case m of
      None \<Rightarrow> q
    | Some ok \<Rightarrow>
        let e = \<lparr>ev_kind = kind, ev_tenant = t, ev_order = oid\<rparr> in if ok e then q @ [e] else q)"

text \<open>The email a move to a status sends, if any.\<close>

definition mail_for :: "string \<Rightarrow> string" where
  "mail_for status = (if status = S_paid then ''payment_received''
     else if status = S_shipped then ''order_shipped'' else [])"

section \<open>Transition\<close>

text \<open>\<open>allowed\<close>: BR-070. A status that is not a key has no moves.\<close>

definition allowed :: "string \<Rightarrow> string list" where
  "allowed status = (case map_of
     [(S_pending, [S_paid, S_cancelled]),
      (S_paid, [S_processing, S_cancelled]),
      (S_processing, [S_shipped, S_cancelled]),
      (S_shipped, [S_completed]),
      (S_completed, []),
      (S_cancelled, [])] status of None \<Rightarrow> [] | Some xs \<Rightarrow> xs)"

definition allowed_from :: "string \<Rightarrow> string list" where
  "allowed_from status = allowed status"

record transition_input =
  ti_courier :: "string option"
  ti_tracking_number :: "string option"
  ti_reason :: "string option"

definition no_input :: transition_input where
  "no_input = \<lparr>ti_courier = None, ti_tracking_number = None, ti_reason = None\<rparr>"

definition err_tracking :: err where
  "err_tracking = field_error ''tracking_number'' ''Shipping needs a tracking number.''"

definition err_no_courier :: err where
  "err_no_courier = field_error ''courier'' ''This order has no chosen courier; send one.''"

definition err_bad_courier :: err where
  "err_bad_courier = field_error ''courier'' ''A courier is a lower-case Biteship code, like jne.''"

definition nonempty :: "string option \<Rightarrow> string option" where
  "nonempty x = (case x of None \<Rightarrow> None | Some y \<Rightarrow> if y = [] then None else Some y)"

text \<open>What a ship needs (BR-072): a tracking number, and a courier code, by default the one
  the shopper chose.\<close>

definition ship_params :: "order \<Rightarrow> transition_input \<Rightarrow> err + string \<times> string" where
  "ship_params ord inp =
    (case ti_tracking_number inp of
      None \<Rightarrow> Inl err_tracking
    | Some tracking \<Rightarrow>
        if blank tracking then Inl err_tracking
        else
          (case (case nonempty (ti_courier inp) of Some x \<Rightarrow> Some x | None \<Rightarrow> nonempty (or_shipping_courier ord)) of
            None \<Rightarrow> Inl err_no_courier
          | Some courier \<Rightarrow>
              if courier_ok courier then Inr (courier, tracking) else Inl err_bad_courier))"

definition transition_audit :: "order \<Rightarrow> string \<Rightarrow> (string \<times> string) option \<Rightarrow> transition_input \<Rightarrow> audit_entry" where
  "transition_audit ord to ship inp = \<lparr>ae_action = ''order.transition'', ae_subject_type = ''order'',
     ae_subject_id = DId (or_id ord), ae_before = Some (DObj [(''status'', DStr (or_status ord))]),
     ae_after = Some (DObj ([(''status'', DStr to)] @
       (case ship of None \<Rightarrow> [] | Some (courier, tracking) \<Rightarrow>
          [(''courier'', DStr courier), (''tracking_number'', DStr tracking)]) @
       (case ti_reason inp of None \<Rightarrow> [] | Some r \<Rightarrow> if blank r then [] else [(''reason'', DStr r)])))\<rparr>"

definition transition :: "ctx \<Rightarrow> uuid \<Rightarrow> string \<Rightarrow> transition_input \<Rightarrow> (order \<times> bool) stmt" where
  "transition c oid to inp =
    bindT (mapErrT (no_such ''order'') (lock_order c oid)) (\<lambda>ord.
    if or_status ord = to then retT (ord, False)
    else if to \<notin> set (allowed (or_status ord)) then failT (illegal_transition (or_status ord) to)
    else
      bindT (if to = S_shipped then liftT (map_sum id Some (ship_params ord inp)) else retT None) (\<lambda>ship.
      bindT (transition_order c oid to (map_option fst ship) (map_option snd ship)) (\<lambda>out.
      thenT (audit c (transition_audit ord to ship inp))
      (retT (out, True)))))"

text \<open>\<open>Service.Transition\<close>: one transaction, then the mail when it changed anything.\<close>

definition transition_op ::
  "mailer \<Rightarrow> ctx \<Rightarrow> uuid \<Rightarrow> string \<Rightarrow> transition_input \<Rightarrow> world \<Rightarrow> (err + order) \<times> world" where
  "transition_op m c oid to inp w =
    (case in_tenant_tx c (transition c oid to inp) (w_db w) of
      (Inl e, s) \<Rightarrow> (Inl e, w\<lparr>w_db := s\<rparr>)
    | (Inr (ord, changed), s) \<Rightarrow>
        (Inr ord, w\<lparr>w_db := s, w_mail :=
          (if changed \<and> mail_for to \<noteq> []
           then queue_mail m (mail_for to) (or_tenant ord) (or_id ord) (w_mail w) else w_mail w)\<rparr>))"

section \<open>UpdatePending and Refund\<close>

record update_input =
  ui_shipping_address :: "string option"
  ui_note :: "string option"
  ui_clear_note :: bool
  ui_shipping :: "int option"

definition err_not_pending :: err where
  "err_not_pending = validation_failed ''Only a pending order can be edited (BR-079).''"

definition update_audit :: "order \<Rightarrow> update_input \<Rightarrow> audit_entry" where
  "update_audit ord inp =
    (let set_note = ui_clear_note inp \<or> ui_note inp \<noteq> None;
         opt = (\<lambda>x. case x of None \<Rightarrow> DNull | Some y \<Rightarrow> DStr y)
     in \<lparr>ae_action = ''order.update'', ae_subject_type = ''order'', ae_subject_id = DId (or_id ord),
       ae_before = Some (DObj (
         (case ui_shipping_address inp of None \<Rightarrow> [] | Some _ \<Rightarrow> [(''shipping_address'', DRaw (or_shipping_address ord))]) @
         (if set_note then [(''note'', opt (or_note ord))] else []) @
         (case ui_shipping inp of None \<Rightarrow> [] | Some _ \<Rightarrow> [(''shipping'', DInt (or_shipping ord))]))),
       ae_after = Some (DObj (
         (case ui_shipping_address inp of None \<Rightarrow> [] | Some a \<Rightarrow> [(''shipping_address'', DRaw a)]) @
         (if set_note then [(''note'', opt (ui_note inp))] else []) @
         (case ui_shipping inp of None \<Rightarrow> [] | Some x \<Rightarrow> [(''shipping'', DInt x)])))\<rparr>)"

definition update_pending :: "ctx \<Rightarrow> uuid \<Rightarrow> int \<Rightarrow> update_input \<Rightarrow> order stmt" where
  "update_pending c oid version inp =
    bindT (mapErrT (no_such ''order'') (lock_order c oid)) (\<lambda>ord.
    if or_status ord \<noteq> S_pending then failT err_not_pending
    else if or_version ord \<noteq> version then failT (version_conflict (or_version ord) version)
    else
      bindT (update_pending_order c oid (ui_shipping_address inp)
               (ui_clear_note inp \<or> ui_note inp \<noteq> None) (ui_note inp) (ui_shipping inp)) (\<lambda>out.
      thenT (audit c (update_audit ord inp)) (retT out)))"

definition err_refund_recorded :: err where
  "err_refund_recorded = validation_failed ''This order's refund is already recorded.''"

definition err_refund_unpaid :: err where
  "err_refund_unpaid = validation_failed ''A refund is recorded only on a cancelled order that was paid.''"

definition opt_time :: "instant option \<Rightarrow> dyn" where
  "opt_time x = (case x of None \<Rightarrow> DNull | Some t \<Rightarrow> DTime t)"

definition refund_audit :: "uuid \<Rightarrow> order \<Rightarrow> string option \<Rightarrow> audit_entry" where
  "refund_audit oid out note = \<lparr>ae_action = ''order.refund'', ae_subject_type = ''order'', ae_subject_id = DId oid,
     ae_before = Some (DObj [(''refunded_at'', DNull)]),
     ae_after = Some (DObj ([(''refunded_at'', opt_time (or_refunded_at out))] @
       (case note of None \<Rightarrow> [] | Some n \<Rightarrow> if blank n then [] else [(''note'', DStr n)])))\<rparr>"

definition refund :: "ctx \<Rightarrow> uuid \<Rightarrow> string option \<Rightarrow> order stmt" where
  "refund c oid note =
    bindT (mapErrT (no_such ''order'') (lock_order c oid)) (\<lambda>ord.
    if or_refunded_at ord \<noteq> None then failT err_refund_recorded
    else if or_status ord \<noteq> S_cancelled \<or> or_paid_at ord = None then failT err_refund_unpaid
    else
      bindT (record_refund c oid) (\<lambda>out.
      thenT (audit c (refund_audit oid out note))
      (retT out)))"

definition update_pending_op :: "ctx \<Rightarrow> uuid \<Rightarrow> int \<Rightarrow> update_input \<Rightarrow> db \<Rightarrow> (err + order) \<times> db" where
  "update_pending_op c oid version inp = in_tenant_tx c (update_pending c oid version inp)"

definition refund_op :: "ctx \<Rightarrow> uuid \<Rightarrow> string option \<Rightarrow> db \<Rightarrow> (err + order) \<times> db" where
  "refund_op c oid note = in_tenant_tx c (refund c oid note)"

section \<open>The life of an order\<close>

text \<open>
  The timestamps a status implies. No CHECK of the schema says any of this; it holds because
  every write of the status goes through the transition.
\<close>

definition lifecycle :: "order \<Rightarrow> bool" where
  "lifecycle ord \<longleftrightarrow>
     (or_status ord = S_pending \<longrightarrow> or_paid_at ord = None) \<and>
     (or_status ord \<in> {S_pending, S_paid, S_processing} \<longrightarrow> or_shipped_at ord = None \<and> or_courier ord = None) \<and>
     (or_status ord \<in> {S_paid, S_processing, S_shipped, S_completed} \<longrightarrow> or_paid_at ord \<noteq> None) \<and>
     (or_status ord \<in> {S_shipped, S_completed} \<longrightarrow> or_shipped_at ord \<noteq> None) \<and>
     (or_completed_at ord \<noteq> None \<longleftrightarrow> or_status ord = S_completed) \<and>
     (or_cancelled_at ord \<noteq> None \<longleftrightarrow> or_status ord = S_cancelled) \<and>
     (or_status ord = S_cancelled \<longrightarrow> or_shipped_at ord = None) \<and>
     1 \<le> or_version ord"

definition good_order :: "order \<Rightarrow> bool" where
  "good_order ord \<longleftrightarrow> order_check ord \<and> lifecycle ord"

definition good_orders :: "db \<Rightarrow> bool" where
  "good_orders s \<longleftrightarrow> distinct (map or_id (orders s)) \<and> (\<forall>r \<in> set (orders s). good_order r)"

text \<open>How far along a status is: every move goes up.\<close>

definition rank :: "string \<Rightarrow> nat" where
  "rank status = (case map_of [(S_pending, 0), (S_paid, 1), (S_processing, 2), (S_shipped, 3),
     (S_completed, 4), (S_cancelled, 4)] status of None \<Rightarrow> 0 | Some n \<Rightarrow> n)"

lemma allowed_cases: "to \<in> set (allowed st) \<longleftrightarrow>
    (st, to) \<in> {(S_pending, S_paid), (S_pending, S_cancelled), (S_paid, S_processing),
      (S_paid, S_cancelled), (S_processing, S_shipped), (S_processing, S_cancelled),
      (S_shipped, S_completed)}"
  by (auto simp: allowed_def split: option.splits if_splits)

lemma rank_simps [simp]:
  "rank S_pending = 0" "rank S_paid = 1" "rank S_processing = 2" "rank S_shipped = 3"
  "rank S_completed = 4" "rank S_cancelled = 4"
  by (simp_all add: rank_def)

lemma allowed_elim:
  assumes "to \<in> set (allowed st)"
  obtains "st = S_pending" "to = S_paid" | "st = S_pending" "to = S_cancelled"
    | "st = S_paid" "to = S_processing" | "st = S_paid" "to = S_cancelled"
    | "st = S_processing" "to = S_shipped" | "st = S_processing" "to = S_cancelled"
    | "st = S_shipped" "to = S_completed"
  using assms unfolding allowed_cases by blast

lemma allowed_rank: "to \<in> set (allowed st) \<Longrightarrow> rank st < rank to"
  by (erule allowed_elim) simp_all

lemma rank_le: "rank st \<le> 4"
  by (simp add: rank_def)

lemma no_moves: "allowed S_completed = []" "allowed S_cancelled = []"
  by (simp_all add: allowed_def)

section \<open>Shape of the results\<close>

lemma get_order_Some: "get_order t oid s = Some ord \<Longrightarrow> or_tenant ord = t \<and> or_id ord = oid \<and> ord \<in> set (orders s)"
  unfolding get_order_def by (rule row_get_Some)

lemma update_order_Inr: "update_order c oid f s = Inr (out, s') \<longleftrightarrow>
    (\<exists>ord. get_order (tenant_of c) oid s = Some ord \<and> order_check (f ord) \<and> out = f ord \<and>
      s' = upd_order (tenant_of c) oid f s)"
  by (simp add: update_order_def tx_inr lock_order_def)

text \<open>The row a transition writes.\<close>

definition moved :: "ctx \<Rightarrow> string \<Rightarrow> (string \<times> string) option \<Rightarrow> order \<Rightarrow> order" where
  "moved c to ship ord = ord\<lparr>
     or_status := to,
     or_paid_at := (if to = S_paid then Some (c_now c) else or_paid_at ord),
     or_shipped_at := (if to = S_shipped then Some (c_now c) else or_shipped_at ord),
     or_completed_at := (if to = S_completed then Some (c_now c) else or_completed_at ord),
     or_cancelled_at := (if to = S_cancelled then Some (c_now c) else or_cancelled_at ord),
     or_courier := (case ship of Some (x, _) \<Rightarrow> Some x | None \<Rightarrow> or_courier ord),
     or_tracking_number := (case ship of Some (_, x) \<Rightarrow> Some x | None \<Rightarrow> or_tracking_number ord),
     or_version := or_version ord + 1,
     or_updated_at := c_now c\<rparr>"

lemma transition_order_moved:
  "transition_order c oid to (map_option fst ship) (map_option snd ship) = update_order c oid (moved c to ship)"
  unfolding transition_order_def moved_def by (cases ship) (simp_all add: split_def)

lemma transition_missing: "get_order (tenant_of c) oid s = None \<Longrightarrow>
    transition c oid to inp s = Inl (not_found ''No such order.'')"
  by (simp add: transition_def bindT_def mapErrT_def lock_order_def oneT_def no_such_def)

lemma transition_same: "get_order (tenant_of c) oid s = Some ord \<Longrightarrow> or_status ord = to \<Longrightarrow>
    transition c oid to inp s = Inr ((ord, False), s)"
  by (simp add: transition_def bindT_def mapErrT_def lock_order_def oneT_def retT_def)

lemma transition_refused: "get_order (tenant_of c) oid s = Some ord \<Longrightarrow> or_status ord \<noteq> to \<Longrightarrow>
    to \<notin> set (allowed (or_status ord)) \<Longrightarrow>
    transition c oid to inp s = Inl (illegal_transition (or_status ord) to)"
  by (simp add: transition_def bindT_def mapErrT_def lock_order_def oneT_def failT_def)

lemma transition_ship_refused: "get_order (tenant_of c) oid s = Some ord \<Longrightarrow>
    or_status ord \<noteq> S_shipped \<Longrightarrow> S_shipped \<in> set (allowed (or_status ord)) \<Longrightarrow>
    ship_params ord inp = Inl e \<Longrightarrow> transition c oid S_shipped inp s = Inl e"
  by (simp add: transition_def bindT_def mapErrT_def lock_order_def oneT_def liftT_def)

definition shipment :: "order \<Rightarrow> string \<Rightarrow> transition_input \<Rightarrow> err + (string \<times> string) option" where
  "shipment ord to inp = (if to = S_shipped then map_sum id Some (ship_params ord inp) else Inr None)"

lemma transition_go:
  assumes "get_order (tenant_of c) oid s = Some ord" and "or_status ord \<noteq> to"
    and "to \<in> set (allowed (or_status ord))" and "shipment ord to inp = Inr ship"
  shows "transition c oid to inp s =
    (if order_check (moved c to ship ord)
     then Inr ((moved c to ship ord, True),
       add_audit c (transition_audit ord to ship inp) (upd_order (tenant_of c) oid (moved c to ship) s))
     else Inl (check_violation ''orders_check''))"
proof -
  have ship: "(if to = S_shipped then liftT (map_sum id Some (ship_params ord inp)) else retT None) s
      = Inr (ship, s)"
    using assms(4) by (auto simp: shipment_def liftT_def retT_def split: if_splits)
  show ?thesis
    using assms(1-3)
    by (simp add: transition_def transition_order_moved bindT_def [of "mapErrT _ _"] mapErrT_def
        lock_order_def oneT_def bindT_def [of "if _ then _ else _"] ship)
      (simp add: bindT_def thenT_def update_order_def lock_order_def oneT_def guardT_def writeT_def
        retT_def audit_def)
qed

section \<open>What a move keeps\<close>

lemma ship_params_Inr: "ship_params ord inp = Inr (courier, tracking) \<Longrightarrow>
    courier_ok courier \<and> \<not> blank tracking \<and> ti_tracking_number inp = Some tracking"
  by (auto simp: ship_params_def split: option.splits if_splits)

lemma shipment_Inr: "shipment ord to inp = Inr ship \<Longrightarrow>
    (to = S_shipped \<longrightarrow> (\<exists>courier tracking. ship = Some (courier, tracking) \<and> courier_ok courier)) \<and>
    (to \<noteq> S_shipped \<longrightarrow> ship = None)"
  by (cases "ship_params ord inp") (auto simp: shipment_def dest: ship_params_Inr split: if_splits)

lemma moved_simps [simp]:
  "or_id (moved c to ship ord) = or_id ord" "or_tenant (moved c to ship ord) = or_tenant ord"
  "or_status (moved c to ship ord) = to" "or_version (moved c to ship ord) = or_version ord + 1"
  "or_total (moved c to ship ord) = or_total ord" "or_number (moved c to ship ord) = or_number ord"
  "or_cart (moved c to ship ord) = or_cart ord" "or_payment_method (moved c to ship ord) = or_payment_method ord"
  by (simp_all add: moved_def)

lemma moved_keeps_key: "keeps_key or_tenant or_id (moved c to ship)"
  by (simp add: keeps_key_def)

lemma moved_lifecycle:
  assumes "lifecycle ord" and "to \<in> set (allowed (or_status ord))" and "shipment ord to inp = Inr ship"
  shows "lifecycle (moved c to ship ord)"
  using assms(2)
proof (cases rule: allowed_elim)
qed (use assms(1) shipment_Inr [OF assms(3)] in \<open>auto simp: lifecycle_def moved_def split: option.splits\<close>)

lemma moved_check:
  assumes "good_order ord" and "to \<in> set (allowed (or_status ord))" and "shipment ord to inp = Inr ship"
    and "is_i32 (or_version ord + 1)"
  shows "order_check (moved c to ship ord)"
  using assms(2)
proof (cases rule: allowed_elim)
qed (use assms(1,4) shipment_Inr [OF assms(3)] in
    \<open>auto simp: good_order_def order_check_def lifecycle_def moved_def\<close>)

lemma moved_good:
  assumes "good_order ord" and "to \<in> set (allowed (or_status ord))" and "shipment ord to inp = Inr ship"
    and "order_check (moved c to ship ord)"
  shows "good_order (moved c to ship ord)"
  using assms moved_lifecycle by (auto simp: good_order_def)

text \<open>Every way a transition can return.\<close>

lemma transition_Inr_cases:
  assumes "transition c oid to inp s = Inr ((out, changed), s')"
  obtains (same) ord where "get_order (tenant_of c) oid s = Some ord" "or_status ord = to"
      "out = ord" "\<not> changed" "s' = s"
  | (move) ord ship where "get_order (tenant_of c) oid s = Some ord" "or_status ord \<noteq> to"
      "to \<in> set (allowed (or_status ord))" "shipment ord to inp = Inr ship"
      "order_check (moved c to ship ord)" "out = moved c to ship ord" "changed"
      "s' = add_audit c (transition_audit ord to ship inp) (upd_order (tenant_of c) oid (moved c to ship) s)"
proof (cases "get_order (tenant_of c) oid s")
  case None
  then show ?thesis using assms by (simp add: transition_missing)
next
  case (Some ord)
  show ?thesis
  proof (cases "or_status ord = to")
    case True
    with Some assms show ?thesis by (intro same [OF Some]) (simp_all add: transition_same)
  next
    case ne: False
    show ?thesis
    proof (cases "to \<in> set (allowed (or_status ord))")
      case False
      with Some ne assms show ?thesis by (simp add: transition_refused)
    next
      case True
      show ?thesis
      proof (cases "shipment ord to inp")
        case (Inl e)
        then have "to = S_shipped" "ship_params ord inp = Inl e"
          by (cases "ship_params ord inp"; simp add: shipment_def split: if_splits)+
        with Some ne True assms show ?thesis by (simp add: transition_ship_refused)
      next
        case (Inr ship)
        have ok: "order_check (moved c to ship ord)"
          using assms by (simp add: transition_go [OF Some ne True Inr] split: if_splits)
        then have "((out, changed), s') = ((moved c to ship ord, True),
            add_audit c (transition_audit ord to ship inp) (upd_order (tenant_of c) oid (moved c to ship) s))"
          using assms by (simp add: transition_go [OF Some ne True Inr])
        with ok show ?thesis
          by (intro move [OF Some ne True Inr]) simp_all
      qed
    qed
  qed
qed

lemma the_row:
  assumes "distinct (map or_id (orders s))" and "q \<in> set (orders s)" and "or_tenant q = t" and "or_id q = oid"
  shows "get_order t oid s = Some q"
proof -
  obtain r where r: "get_order t oid s = Some r"
    using assms(2-4) by (cases "get_order t oid s") (auto simp: get_order_def row_get_def find_None_iff)
  then have "or_id r = or_id q" "r \<in> set (orders s)"
    using assms(4) get_order_Some by simp_all
  then have "r = q"
    using assms(1,2) by (simp add: distinct_map inj_on_def)
  with r show ?thesis by simp
qed

lemma good_orders_upd:
  assumes "good_orders s" and "\<And>ord. get_order t oid s = Some ord \<Longrightarrow> good_order (f ord)"
    and "keeps_key or_tenant or_id f"
  shows "good_orders (upd_order t oid f s)"
  unfolding good_orders_def
proof (intro conjI ballI)
  have "or_id (f r) = or_id r" for r
    using assms(3) by (simp add: keeps_key_def)
  then show "distinct (map or_id (orders (upd_order t oid f s)))"
    using assms(1) by (simp add: upd_order_def row_upd_map good_orders_def)
next
  fix r
  assume "r \<in> set (orders (upd_order t oid f s))"
  then consider "r \<in> set (orders s)"
    | q where "q \<in> set (orders s)" "or_tenant q = t" "or_id q = oid" "r = f q"
    unfolding upd_order_def using row_upd_set by fastforce
  then show "good_order r"
    using assms(1,2) the_row by cases (auto simp: good_orders_def)
qed

lemma good_orders_Some: "good_orders s \<Longrightarrow> get_order t oid s = Some ord \<Longrightarrow> good_order ord"
  by (auto simp: good_orders_def dest: get_order_Some)

section \<open>The other two writes of an order\<close>

definition edited :: "ctx \<Rightarrow> update_input \<Rightarrow> order \<Rightarrow> order" where
  "edited c inp ord = (let ship = (case ui_shipping inp of Some x \<Rightarrow> x | None \<Rightarrow> or_shipping ord) in ord\<lparr>
     or_shipping_address := (case ui_shipping_address inp of Some x \<Rightarrow> x | None \<Rightarrow> or_shipping_address ord),
     or_note := (if ui_clear_note inp \<or> ui_note inp \<noteq> None then ui_note inp else or_note ord),
     or_shipping := ship,
     or_total := or_subtotal ord + ship - or_discount ord,
     or_version := or_version ord + 1,
     or_updated_at := c_now c\<rparr>)"

definition refunded :: "ctx \<Rightarrow> order \<Rightarrow> order" where
  "refunded c ord = ord\<lparr>or_refunded_at := Some (c_now c), or_version := or_version ord + 1,
     or_updated_at := c_now c\<rparr>"

lemma edited_simps [simp]:
  "or_id (edited c inp ord) = or_id ord" "or_tenant (edited c inp ord) = or_tenant ord"
  "or_status (edited c inp ord) = or_status ord" "or_version (edited c inp ord) = or_version ord + 1"
  "or_number (edited c inp ord) = or_number ord" "or_cart (edited c inp ord) = or_cart ord"
  "or_payment_method (edited c inp ord) = or_payment_method ord"
  "or_total (edited c inp ord) = or_subtotal (edited c inp ord) + or_shipping (edited c inp ord) - or_discount (edited c inp ord)"
  by (simp_all add: edited_def Let_def)

lemma refunded_simps [simp]:
  "or_id (refunded c ord) = or_id ord" "or_tenant (refunded c ord) = or_tenant ord"
  "or_status (refunded c ord) = or_status ord" "or_version (refunded c ord) = or_version ord + 1"
  "or_total (refunded c ord) = or_total ord" "or_number (refunded c ord) = or_number ord"
  "or_cart (refunded c ord) = or_cart ord" "or_payment_method (refunded c ord) = or_payment_method ord"
  "or_refunded_at (refunded c ord) = Some (c_now c)"
  by (simp_all add: refunded_def)

lemma keeps_key_writes: "keeps_key or_tenant or_id (edited c inp)" "keeps_key or_tenant or_id (refunded c)"
  by (simp_all add: keeps_key_def)

lemma update_pending_order_edited:
  "update_pending_order c oid (ui_shipping_address inp) (ui_clear_note inp \<or> ui_note inp \<noteq> None)
     (ui_note inp) (ui_shipping inp) = update_order c oid (edited c inp)"
  unfolding update_pending_order_def edited_def by (rule refl)

lemma record_refund_refunded: "record_refund c oid = update_order c oid (refunded c)"
  unfolding record_refund_def refunded_def ..

lemma update_pending_Inr: "update_pending c oid version inp s = Inr (out, s') \<longleftrightarrow>
    (\<exists>ord. get_order (tenant_of c) oid s = Some ord \<and> or_status ord = S_pending \<and>
      or_version ord = version \<and> order_check (edited c inp ord) \<and> out = edited c inp ord \<and>
      s' = add_audit c (update_audit ord inp) (upd_order (tenant_of c) oid (edited c inp) s))"
  unfolding update_pending_def update_pending_order_edited
  by (cases "get_order (tenant_of c) oid s") (simp_all add: tx_inr lock_order_def update_order_Inr)

lemma update_pending_Inl: "update_pending c oid version inp s = Inl e \<longleftrightarrow>
    (case get_order (tenant_of c) oid s of
      None \<Rightarrow> e = not_found ''No such order.''
    | Some ord \<Rightarrow>
        if or_status ord \<noteq> S_pending then e = err_not_pending
        else if or_version ord \<noteq> version then e = version_conflict (or_version ord) version
        else \<not> order_check (edited c inp ord) \<and> e = check_violation ''orders_check'')"
  unfolding update_pending_def update_pending_order_edited update_order_def lock_order_def
  by (cases "get_order (tenant_of c) oid s")
    (auto simp: tx_eval no_such_def audit_def)

lemma refund_Inr: "refund c oid note s = Inr (out, s') \<longleftrightarrow>
    (\<exists>ord. get_order (tenant_of c) oid s = Some ord \<and> or_refunded_at ord = None \<and>
      or_status ord = S_cancelled \<and> or_paid_at ord \<noteq> None \<and> order_check (refunded c ord) \<and>
      out = refunded c ord \<and>
      s' = add_audit c (refund_audit oid out note) (upd_order (tenant_of c) oid (refunded c) s))"
  unfolding refund_def record_refund_refunded
  by (cases "get_order (tenant_of c) oid s") (auto simp: tx_inr lock_order_def update_order_Inr)

lemma refund_Inl: "refund c oid note s = Inl e \<longleftrightarrow>
    (case get_order (tenant_of c) oid s of
      None \<Rightarrow> e = not_found ''No such order.''
    | Some ord \<Rightarrow>
        if or_refunded_at ord \<noteq> None then e = err_refund_recorded
        else if or_status ord \<noteq> S_cancelled \<or> or_paid_at ord = None then e = err_refund_unpaid
        else \<not> order_check (refunded c ord) \<and> e = check_violation ''orders_check'')"
  unfolding refund_def record_refund_refunded update_order_def lock_order_def
  by (cases "get_order (tenant_of c) oid s") (auto simp: tx_eval no_such_def audit_def)

lemma edited_good: "good_order ord \<Longrightarrow> order_check (edited c inp ord) \<Longrightarrow> good_order (edited c inp ord)"
  by (auto simp: good_order_def lifecycle_def edited_def Let_def)

lemma refunded_good: "good_order ord \<Longrightarrow> order_check (refunded c ord) \<Longrightarrow> good_order (refunded c ord)"
  by (auto simp: good_order_def lifecycle_def refunded_def)

lemma good_orders_audit [simp]: "good_orders (add_audit c e s) = good_orders s"
  by (simp add: good_orders_def)

lemma get_order_audit [simp]: "get_order t oid (add_audit c e s) = get_order t oid s"
  by (simp add: get_order_def)

lemma get_order_upd: "keeps_key or_tenant or_id f \<Longrightarrow>
    get_order t' oid' (upd_order t oid f s) =
      (if (t', oid') = (t, oid) then map_option f (get_order t oid s) else get_order t' oid' s)"
  by (simp add: get_order_def upd_order_def rows.get_same rows.get_other)

lemma upd_order_frame [simp]:
  "payments (upd_order t oid f s) = payments s" "carts (upd_order t oid f s) = carts s"
  "cart_items (upd_order t oid f s) = cart_items s" "order_lines (upd_order t oid f s) = order_lines s"
  "audit_log (upd_order t oid f s) = audit_log s" "sequences (upd_order t oid f s) = sequences s"
  "variants (upd_order t oid f s) = variants s" "products (upd_order t oid f s) = products s"
  "settings (upd_order t oid f s) = settings s" "tenants (upd_order t oid f s) = tenants s"
  "customers (upd_order t oid f s) = customers s" "users (upd_order t oid f s) = users s"
  by (simp_all add: upd_order_def)

lemma transition_keeps_good: "within (holds_on good_orders) (transition c oid to inp)"
proof (rule withinI)
  fix s x s'
  assume "transition c oid to inp s = Inr (x, s')"
  then show "holds_on good_orders s s'"
    by (cases x) (auto elim!: transition_Inr_cases simp: holds_on_def
        intro!: good_orders_upd moved_keeps_key moved_good dest: good_orders_Some)
qed

lemma update_pending_keeps_good: "within (holds_on good_orders) (update_pending c oid version inp)"
  by (rule withinI) (auto simp: holds_on_def update_pending_Inr
      intro!: good_orders_upd keeps_key_writes edited_good dest: good_orders_Some)

lemma refund_keeps_good: "within (holds_on good_orders) (refund c oid note)"
  by (rule withinI) (auto simp: holds_on_def refund_Inr
      intro!: good_orders_upd keeps_key_writes refunded_good dest: good_orders_Some)

section \<open>Properties of the state machine\<close>

lemma transition_op_Inr: "transition_op m c oid to inp w = (Inr out, w') \<longleftrightarrow>
    (\<exists>changed s. in_tenant_tx c (transition c oid to inp) (w_db w) = (Inr (out, changed), s) \<and>
      w' = w\<lparr>w_db := s, w_mail := (if changed \<and> mail_for to \<noteq> []
        then queue_mail m (mail_for to) (or_tenant out) (or_id out) (w_mail w) else w_mail w)\<rparr>)"
  by (auto simp: transition_op_def split: prod.splits sum.splits)

lemma transition_op_Inl: "transition_op m c oid to inp w = (Inl e, w') \<longleftrightarrow>
    in_tenant_tx c (transition c oid to inp) (w_db w) = (Inl e, w_db w) \<and> w' = w"
proof -
  have "in_tenant_tx c (transition c oid to inp) (w_db w) = (Inl e, s) \<Longrightarrow> s = w_db w" for s
    using in_tenant_tx_failed [of c "transition c oid to inp" "w_db w" e] by simp
  then show ?thesis
    by (auto simp: transition_op_def split: prod.splits sum.splits)
qed

lemma in_tenant_tx_Inl: "in_tenant_tx c m s = (Inl e, s') \<longleftrightarrow> s' = s \<and>
    (c_tenant c = None \<and> e = NoTenantContext \<or> c_tenant c \<noteq> None \<and> m s = Inl e)"
  by (auto simp: in_tenant_tx_def run_tx_def split: option.splits sum.splits)

lemma transition_Inl:
  assumes "transition c oid to inp s = Inl e"
  shows "(get_order (tenant_of c) oid s = None \<and> e = not_found ''No such order.'') \<or>
    (\<exists>ord. get_order (tenant_of c) oid s = Some ord \<and> or_status ord \<noteq> to \<and>
      (to \<notin> set (allowed (or_status ord)) \<and> e = illegal_transition (or_status ord) to \<or>
       to \<in> set (allowed (or_status ord)) \<and> to = S_shipped \<and> ship_params ord inp = Inl e \<or>
       to \<in> set (allowed (or_status ord)) \<and> (\<exists>ship. shipment ord to inp = Inr ship \<and> \<not> order_check (moved c to ship ord))))"
proof (cases "get_order (tenant_of c) oid s")
  case None
  then show ?thesis using assms by (simp add: transition_missing)
next
  case (Some ord)
  then have ne: "or_status ord \<noteq> to"
    using assms by (auto simp: transition_same)
  show ?thesis
  proof (cases "to \<in> set (allowed (or_status ord))")
    case False
    then show ?thesis using assms Some ne by (simp add: transition_refused)
  next
    case True
    show ?thesis
    proof (cases "shipment ord to inp")
      case (Inl e')
      then have "to = S_shipped" "ship_params ord inp = Inl e'"
        by (cases "ship_params ord inp"; simp add: shipment_def split: if_splits)+
      then show ?thesis using assms Some ne True by (simp add: transition_ship_refused)
    next
      case (Inr ship)
      then have "\<not> order_check (moved c to ship ord)"
        using assms by (auto simp: transition_go [OF Some ne True Inr] split: if_splits)
      then show ?thesis using Some ne True Inr by blast
    qed
  qed
qed

lemma transition_op_target:
  assumes "c_tenant c = Some t" and "transition_op m c oid to inp w = (Inr out, w')"
  shows "get_order t oid (w_db w') = Some out \<and> or_status out = to"
proof -
  have t: "tenant_of c = t"
    using assms(1) by (simp add: tenant_of_def)
  obtain changed s where r: "transition c oid to inp (w_db w) = Inr ((out, changed), s)" and "w_db w' = s"
    using assms(2) unfolding transition_op_Inr in_tenant_tx_Inr by auto
  then show ?thesis
    using t by (cases rule: transition_Inr_cases) (simp_all add: get_order_upd moved_keeps_key)
qed

text \<open>C16. A refused transition changes nothing and is always a client error: on a database
  whose orders went through this state machine, the only refusals are the 404 of a missing
  order, the 409 of a move off the BR-070 list (naming both statuses) and the 422 of a ship
  without a usable tracking number or courier. No CHECK constraint of the table can surface
  as an internal error.\<close>

theorem transition_refusals:
  assumes "good_orders (w_db w)" and "\<forall>r \<in> set (orders (w_db w)). is_i32 (or_version r + 1)"
    and "c_tenant c = Some t" and "transition_op m c oid to inp w = (Inl e, w')"
  shows "w' = w \<and>
    (get_order t oid (w_db w) = None \<and> e = not_found ''No such order.'' \<or>
     (\<exists>ord. get_order t oid (w_db w) = Some ord \<and> or_status ord \<noteq> to \<and>
       (to \<notin> set (allowed (or_status ord)) \<and> e = illegal_transition (or_status ord) to \<or>
        to = S_shipped \<and> ship_params ord inp = Inl e)))"
proof -
  have t: "tenant_of c = t"
    using assms(3) by (simp add: tenant_of_def)
  have w': "w' = w" and e: "transition c oid to inp (w_db w) = Inl e"
    using assms(3,4) by (simp_all add: transition_op_Inl in_tenant_tx_Inl)
  have "order_check (moved c to ship ord)"
    if "get_order t oid (w_db w) = Some ord" "to \<in> set (allowed (or_status ord))"
      "shipment ord to inp = Inr ship" for ord ship
    using that assms(1,2) get_order_Some by (blast intro: moved_check good_orders_Some)
  with w' transition_Inl [OF e] t show ?thesis
    by blast
qed

text \<open>C19. What a successful transition does: either the order was already there and nothing
  at all happens, or the move is on the list, the row gets the new status, the timestamp of
  that status and the next version, every other order is left alone, exactly one audit row
  names the old status, and an email is queued exactly for a payment or a shipment.\<close>

theorem transition_effect:
  assumes "c_tenant c = Some t" and "transition_op m c oid to inp w = (Inr out, w')"
  shows "\<exists>ord. get_order t oid (w_db w) = Some ord \<and>
    (or_status ord = to \<and> out = ord \<and> w' = w \<or>
     (\<exists>ship. to \<in> set (allowed (or_status ord)) \<and> shipment ord to inp = Inr ship \<and>
       out = moved c to ship ord \<and> or_version out = or_version ord + 1 \<and>
       get_order t oid (w_db w') = Some out \<and>
       (\<forall>t' oid'. (t', oid') = (t, oid) \<or> get_order t' oid' (w_db w') = get_order t' oid' (w_db w)) \<and>
       audit_log (w_db w') = audit_log (w_db w) @ [audit_row_of c (transition_audit ord to ship inp)] \<and>
       w_mail w' = (if to = S_paid \<or> to = S_shipped
         then queue_mail m (mail_for to) t oid (w_mail w) else w_mail w)))"
proof -
  have t: "tenant_of c = t"
    using assms(1) by (simp add: tenant_of_def)
  obtain changed s where r: "transition c oid to inp (w_db w) = Inr ((out, changed), s)"
    and w': "w' = w\<lparr>w_db := s, w_mail := (if changed \<and> mail_for to \<noteq> []
        then queue_mail m (mail_for to) (or_tenant out) (or_id out) (w_mail w) else w_mail w)\<rparr>"
    using assms(2) unfolding transition_op_Inr in_tenant_tx_Inr by blast
  from r show ?thesis
  proof (cases rule: transition_Inr_cases)
    case (same ord)
    with w' t show ?thesis by simp
  next
    case (move ord ship)
    have "or_tenant ord = t" "or_id ord = oid"
      using move(1) t get_order_Some by blast+
    moreover have "mail_for to \<noteq> [] \<longleftrightarrow> to = S_paid \<or> to = S_shipped"
      by (simp add: mail_for_def)
    ultimately show ?thesis
      using move w' t
      by (intro exI [of _ ord] conjI disjI2 exI [of _ ship]) (simp_all add: get_order_upd moved_keeps_key)
  qed
qed

text \<open>A repeated click is harmless (BR-071): once a transition has succeeded, the same
  transition again, by anyone in the tenant and with any body, answers the same order and
  changes neither the database nor the mail queue.\<close>

theorem transition_repeat:
  assumes "transition_op m c oid to inp w = (Inr out, w')" and "c_tenant c' = c_tenant c"
  shows "transition_op m c' oid to inp' w' = (Inr out, w')"
proof -
  obtain t where ct: "c_tenant c = Some t"
    using assms(1) by (cases "c_tenant c") (auto simp: transition_op_Inr in_tenant_tx_Inr)
  have ct': "c_tenant c' = Some t" and t: "tenant_of c' = t"
    using ct assms(2) by (simp_all add: tenant_of_def)
  have "get_order t oid (w_db w') = Some out \<and> or_status out = to"
    using transition_op_target [OF ct assms(1)] .
  then have "transition c' oid to inp' (w_db w') = Inr ((out, False), w_db w')"
    using t by (simp add: transition_same)
  then show ?thesis
    using ct' by (simp add: transition_op_def in_tenant_tx_def run_tx_def)
qed

text \<open>
  A run of transition calls on one order, from any callers; \<open>status_moves\<close> counts the calls
  that changed its status.
\<close>

fun run_transitions :: "mailer \<Rightarrow> uuid \<Rightarrow> (ctx \<times> string \<times> transition_input) list \<Rightarrow> world \<Rightarrow> world" where
  "run_transitions m oid [] w = w"
| "run_transitions m oid ((c, to, inp) # calls) w =
     run_transitions m oid calls (snd (transition_op m c oid to inp w))"

definition status_of_order :: "uuid \<Rightarrow> uuid \<Rightarrow> world \<Rightarrow> string option" where
  "status_of_order t oid w = map_option or_status (get_order t oid (w_db w))"

fun status_moves :: "mailer \<Rightarrow> uuid \<Rightarrow> uuid \<Rightarrow> (ctx \<times> string \<times> transition_input) list \<Rightarrow> world \<Rightarrow> nat" where
  "status_moves m t oid [] w = 0"
| "status_moves m t oid ((c, to, inp) # calls) w =
     (let w' = snd (transition_op m c oid to inp w)
      in (if status_of_order t oid w' \<noteq> status_of_order t oid w then 1 else 0) +
         status_moves m t oid calls w')"

text \<open>How many moves are left in an order.\<close>

definition moves_left :: "uuid \<Rightarrow> uuid \<Rightarrow> world \<Rightarrow> nat" where
  "moves_left t oid w = (case status_of_order t oid w of None \<Rightarrow> 0 | Some st \<Rightarrow> 4 - rank st)"

lemma transition_op_step:
  "status_of_order t oid (snd (transition_op m c oid to inp w)) = status_of_order t oid w \<or>
   moves_left t oid (snd (transition_op m c oid to inp w)) < moves_left t oid w"
proof (cases "transition_op m c oid to inp w")
  case (Pair r w')
  show ?thesis
  proof (cases r)
    case (Inl e)
    then have "w' = w" using Pair by (simp add: transition_op_Inl)
    then show ?thesis using Pair by simp
  next
    case (Inr out)
    then obtain changed s where tr: "transition c oid to inp (w_db w) = Inr ((out, changed), s)" and s: "w_db w' = s"
      using Pair by (auto simp: transition_op_Inr in_tenant_tx_Inr)
    from tr show ?thesis
    proof (cases rule: transition_Inr_cases)
      case (same ord)
      then show ?thesis using s Pair by (simp add: status_of_order_def)
    next
      case (move ord ship)
      have up: "rank (or_status ord) < rank to" "rank to \<le> 4"
        using move(3) by (simp_all add: allowed_rank rank_le)
      show ?thesis
        using move up s Pair
        by (cases "t = tenant_of c")
          (simp_all add: status_of_order_def moves_left_def get_order_upd moved_keeps_key)
    qed
  qed
qed

text \<open>C7. The state machine runs out: whatever sequence of transition calls is made, the
  status of an order changes at most four times, and never again once no move is left
  (completed or cancelled).\<close>

theorem status_moves_bounded:
  "status_moves m t oid calls w \<le> moves_left t oid w \<and> moves_left t oid w \<le> 4"
proof
  show "moves_left t oid w \<le> 4"
    by (simp add: moves_left_def split: option.splits)
  show "status_moves m t oid calls w \<le> moves_left t oid w"
  proof (induction calls arbitrary: w)
    case Nil
    then show ?case by simp
  next
    case (Cons call calls)
    obtain c to inp where call: "call = (c, to, inp)"
      by (metis prod_cases3)
    define w' where "w' = snd (transition_op m c oid to inp w)"
    have step: "status_of_order t oid w' = status_of_order t oid w \<or> moves_left t oid w' < moves_left t oid w"
      unfolding w'_def by (rule transition_op_step)
    have "moves_left t oid w' = moves_left t oid w" if "status_of_order t oid w' = status_of_order t oid w"
      using that by (simp add: moves_left_def)
    with step Cons.IH [of w'] show ?case
      by (auto simp: call Let_def w'_def [symmetric])
  qed
qed

text \<open>A refund is recorded once and for all (BR-075): after it, a second refund is refused
  and changes nothing, every transition to another status is refused, and every edit is
  refused, so the order stays a paid, cancelled, refunded order.\<close>

theorem refund_final:
  assumes "refund_op c oid note s = (Inr out, s')" and "c_tenant c' = c_tenant c"
  shows "or_status out = S_cancelled \<and> or_paid_at out \<noteq> None \<and> or_refunded_at out = Some (c_now c) \<and>
    refund_op c' oid note' s' = (Inl err_refund_recorded, s') \<and>
    update_pending_op c' oid v inp s' = (Inl err_not_pending, s') \<and>
    (to = S_cancelled \<or> fst (in_tenant_tx c' (transition c' oid to tin) s') = Inl (illegal_transition S_cancelled to))"
proof -
  obtain t where ct: "c_tenant c = Some t" "c_tenant c' = Some t" "tenant_of c = t" "tenant_of c' = t"
    using assms by (cases "c_tenant c") (auto simp: refund_op_def in_tenant_tx_Inr tenant_of_def)
  obtain ord where ord: "get_order t oid s = Some ord" "or_status ord = S_cancelled" "or_paid_at ord \<noteq> None"
    and out: "out = refunded c ord"
    and s': "s' = add_audit c (refund_audit oid out note) (upd_order t oid (refunded c) s)"
    using assms(1) ct by (auto simp: refund_op_def in_tenant_tx_Inr refund_Inr)
  have row: "get_order t oid s' = Some out"
    using ord out s' by (simp add: get_order_upd keeps_key_writes)
  have fields: "or_status out = S_cancelled" "or_refunded_at out = Some (c_now c)" "or_paid_at out \<noteq> None"
    using ord out by (simp_all add: refunded_def)
  have "refund c' oid note' s' = Inl err_refund_recorded"
    and "update_pending c' oid v inp s' = Inl err_not_pending"
    using row fields ct by (simp_all add: refund_Inl update_pending_Inl)
  moreover have "transition c' oid to tin s' = Inl (illegal_transition S_cancelled to)" if "to \<noteq> S_cancelled"
    using row fields ct that by (simp add: transition_refused no_moves)
  ultimately show ?thesis
    using ct fields
    by (cases "to = S_cancelled") (simp_all add: refund_op_def update_pending_op_def in_tenant_tx_def run_tx_def)
qed

text \<open>Optimistic locking of an edit (BR-010, BR-079): an edit that succeeds keeps the total
  equal to subtotal plus shipping minus discount and takes the version the client read; a
  second edit from the same read is refused with the version that is there now, and changes
  nothing.\<close>

theorem edit_once_per_version:
  assumes "update_pending_op c oid v inp s = (Inr out, s')" and "c_tenant c' = c_tenant c"
  shows "or_total out = or_subtotal out + or_shipping out - or_discount out \<and>
    or_version out = v + 1 \<and> or_status out = S_pending \<and> get_order (tenant_of c) oid s' = Some out \<and>
    update_pending_op c' oid v inp' s' = (Inl (version_conflict (v + 1) v), s')"
proof -
  obtain t where ct: "c_tenant c = Some t" "c_tenant c' = Some t" "tenant_of c = t" "tenant_of c' = t"
    using assms by (cases "c_tenant c") (auto simp: update_pending_op_def in_tenant_tx_Inr tenant_of_def)
  obtain ord where ord: "get_order t oid s = Some ord" "or_status ord = S_pending" "or_version ord = v"
    and out: "out = edited c inp ord"
    and s': "s' = add_audit c (update_audit ord inp) (upd_order t oid (edited c inp) s)"
    using assms(1) ct by (auto simp: update_pending_op_def in_tenant_tx_Inr update_pending_Inr)
  have row: "get_order t oid s' = Some out"
    using ord out s' by (simp add: get_order_upd keeps_key_writes)
  then have "update_pending c' oid v inp' s' = Inl (version_conflict (v + 1) v)"
    using ord out ct by (simp add: update_pending_Inl)
  then show ?thesis
    using row ct ord out by (simp add: update_pending_op_def in_tenant_tx_def run_tx_def)
qed

section \<open>Sample data\<close>

text \<open>A shop with one order of each interesting kind, for the witnesses.\<close>

definition sample_order :: order where
  "sample_order = \<lparr>or_id = 10, or_tenant = 1, or_source = S_manual, or_customer_id = None,
     or_number = ''ERG-000001'', or_status = S_pending, or_customer = ''{}'', or_shipping_address = ''{}'',
     or_note = None, or_subtotal = 200000, or_shipping = 10000, or_discount = 0, or_total = 210000,
     or_currency = ''IDR'', or_payment_method = S_bank_transfer, or_shipping_courier = Some ''jne'',
     or_shipping_service = Some ''reg'', or_courier = None, or_tracking_number = None, or_placed_at = 5,
     or_paid_at = None, or_shipped_at = None, or_completed_at = None, or_cancelled_at = None,
     or_refunded_at = None, or_version = 1, or_created_at = 5, or_updated_at = 5, or_cart = None\<rparr>"

definition sample_cancelled :: order where
  "sample_cancelled = sample_order\<lparr>or_id := 11, or_number := ''ERG-000002'', or_status := S_cancelled,
     or_paid_at := Some 6, or_cancelled_at := Some 7, or_version := 3\<rparr>"

definition sample_db :: db where
  "sample_db = empty_db\<lparr>orders := [sample_order, sample_cancelled]\<rparr>"

definition sample_ctx :: ctx where
  "sample_ctx = \<lparr>c_tenant = Some 1, c_actor = Some 2, c_ip = None, c_role = None, c_now = 100, c_clock = 100\<rparr>"

definition sample_world :: world where
  "sample_world = \<lparr>w_db = sample_db, w_mail = []\<rparr>"

definition sample_mailer :: mailer where
  "sample_mailer = Some (\<lambda>_. True)"

lemma sample_good: "good_orders sample_db" "good_orders (w_db sample_world)"
  by code_simp+

lemma sample_versions: "\<forall>r \<in> set (orders (w_db sample_world)). is_i32 (or_version r + 1)"
  by code_simp

lemma sample_tenant [simp]: "c_tenant sample_ctx = Some 1" "tenant_of sample_ctx = 1"
  by (simp_all add: sample_ctx_def tenant_of_def)

theorem transition_refusals_witness:
  "\<exists>e w'. transition_op sample_mailer sample_ctx 10 S_shipped no_input sample_world = (Inl e, w') \<and>
     w' = sample_world \<and> e_status e = 409"
proof -
  have run: "fst (transition_op sample_mailer sample_ctx 10 S_shipped no_input sample_world)
      = Inl (illegal_transition S_pending S_shipped)"
    by code_simp
  then obtain w' where r: "transition_op sample_mailer sample_ctx 10 S_shipped no_input sample_world
      = (Inl (illegal_transition S_pending S_shipped), w')"
    by (metis prod.collapse)
  show ?thesis
    using r transition_refusals [OF sample_good(2) sample_versions sample_tenant(1) r]
    by (simp add: status_of)
qed

theorem transition_effect_witness:
  "\<exists>out w'. transition_op sample_mailer sample_ctx 10 S_paid no_input sample_world = (Inr out, w') \<and>
     or_version out = 2 \<and> or_paid_at out = Some 100 \<and> length (audit_log (w_db w')) = 1"
proof -
  obtain out w' where r: "transition_op sample_mailer sample_ctx 10 S_paid no_input sample_world = (Inr out, w')"
    and o: "or_version out = 2" "or_paid_at out = Some 100" "w' \<noteq> sample_world"
  proof -
    have "(case transition_op sample_mailer sample_ctx 10 S_paid no_input sample_world of (Inl _, _) \<Rightarrow> False
       | (Inr out, w') \<Rightarrow> or_version out = 2 \<and> or_paid_at out = Some 100 \<and> length (w_mail w') = 1)"
      by code_simp
    then show thesis
      by (auto split: prod.splits sum.splits simp: sample_world_def intro!: that)
  qed
  have "length (audit_log (w_db w')) = Suc (length (audit_log (w_db sample_world)))"
    using transition_effect [OF sample_tenant(1) r] o(3) by auto
  then show ?thesis
    using r o by (auto simp: sample_world_def sample_db_def empty_db_def)
qed

theorem transition_repeat_witness:
  "\<exists>out w'. transition_op sample_mailer sample_ctx 10 S_paid no_input sample_world = (Inr out, w') \<and>
     transition_op sample_mailer sample_ctx 10 S_paid no_input w' = (Inr out, w')"
proof -
  have "\<not> (case fst (transition_op sample_mailer sample_ctx 10 S_paid no_input sample_world) of Inl _ \<Rightarrow> True | Inr _ \<Rightarrow> False)"
    by code_simp
  then obtain out w' where r: "transition_op sample_mailer sample_ctx 10 S_paid no_input sample_world = (Inr out, w')"
    by (metis prod.collapse sum.case_eq_if sum.collapse(2))
  show ?thesis
    using r transition_repeat [OF r refl] by blast
qed

definition sample_edit :: update_input where
  "sample_edit = \<lparr>ui_shipping_address = None, ui_note = Some ''call first'', ui_clear_note = False,
     ui_shipping = Some 25000\<rparr>"

theorem refund_final_witness:
  "\<exists>out s'. refund_op sample_ctx 11 None sample_db = (Inr out, s') \<and>
     refund_op sample_ctx 11 None s' = (Inl err_refund_recorded, s')"
proof -
  have "\<not> (case fst (refund_op sample_ctx 11 None sample_db) of Inl _ \<Rightarrow> True | Inr _ \<Rightarrow> False)"
    by code_simp
  then obtain out s' where r: "refund_op sample_ctx 11 None sample_db = (Inr out, s')"
    by (metis prod.collapse sum.case_eq_if sum.collapse(2))
  show ?thesis
    using r refund_final [OF r refl, of None] by blast
qed

theorem edit_once_per_version_witness:
  "\<exists>out s'. update_pending_op sample_ctx 10 1 sample_edit sample_db = (Inr out, s') \<and>
     or_version out = 2 \<and> update_pending_op sample_ctx 10 1 sample_edit s' = (Inl (version_conflict 2 1), s')"
proof -
  have "\<not> (case fst (update_pending_op sample_ctx 10 1 sample_edit sample_db) of Inl _ \<Rightarrow> True | Inr _ \<Rightarrow> False)"
    by code_simp
  then obtain out s' where r: "update_pending_op sample_ctx 10 1 sample_edit sample_db = (Inr out, s')"
    by (metis prod.collapse sum.case_eq_if sum.collapse(2))
  show ?thesis
    using r edit_once_per_version [OF r refl, of sample_edit] by auto
qed

end
