(* ===== verification/OrderCreate.thy ===== *)
theory OrderCreate
  imports OrderState
begin

text \<open>
  Making an order: the shipping quote (internal/orders/shipping.go) and the manual order entry
  (internal/orders/create.go). \<open>insert\<close> numbers and stores an order with its lines and is
  shared with the storefront checkout.
\<close>

section \<open>Shipping quotes\<close>

record ship_choice =
  sc_courier :: string
  sc_service :: string

record parcel =
  pc_destination :: string
  pc_weight :: int
  pc_value :: int

text \<open>\<open>biteship.Request\<close> and \<open>biteship.Option\<close>.\<close>

record rate_request =
  rq_origin :: string
  rq_destination :: string
  rq_couriers :: "string list"
  rq_weight :: int
  rq_value :: int

record ship_option =
  so_courier :: string
  so_service :: string
  so_courier_name :: string
  so_service_name :: string
  so_price :: int
  so_duration :: string

definition err_biteship_unavailable :: err where
  "err_biteship_unavailable = Sentinel ''shipping rates unavailable''"

text \<open>
  The \<open>Rates\<close> interface of the service: nil, or a function of the tenant and the request. What
  it answers is up to the cache and Biteship, so it is an argument of every operation that
  quotes.
\<close>

type_synonym rates = "(uuid \<Rightarrow> rate_request \<Rightarrow> err + ship_option list) option"

text \<open>\<open>q.GetStorefrontSettings\<close> with its one tolerated error: no row is None.\<close>

definition settings_row :: "ctx \<Rightarrow> storefront_setting option stmt" where
  "settings_row c = bindT (tryT (get_storefront_settings c)) (\<lambda>r.
     case r of Inr st \<Rightarrow> retT (Some st)
     | Inl e \<Rightarrow> if err_is e NoRows then retT None else failT e)"

definition quote :: "rates \<Rightarrow> ctx \<Rightarrow> parcel \<Rightarrow> ship_option list stmt" where
  "quote rates c p =
    bindT (settings_row c) (\<lambda>st.
    let r0 = \<lparr>rq_origin = [], rq_destination = pc_destination p, rq_couriers = [],
              rq_weight = pc_weight p, rq_value = pc_value p\<rparr>;
        r = (case st of None \<Rightarrow> r0
             | Some st \<Rightarrow> (case st_origin_postal_code st of None \<Rightarrow> r0
                | Some o' \<Rightarrow> r0\<lparr>rq_origin := o', rq_couriers := st_shipping_couriers st\<rparr>))
    in (case rates of
         None \<Rightarrow> retT []
       | Some f \<Rightarrow>
           (case f (tenant_of c) r of
             Inl e \<Rightarrow> failT (if err_is e err_biteship_unavailable then shipping_rates_unavailable e else e)
           | Inr opts \<Rightarrow> retT opts)))"

definition chosen :: "ship_option list \<Rightarrow> ship_choice \<Rightarrow> err + ship_option" where
  "chosen opts ch =
    (case find (\<lambda>x. so_courier x = sc_courier ch \<and> so_service x = sc_service ch) opts of
      Some x \<Rightarrow> Inr x
    | None \<Rightarrow> Inl shipping_unavailable)"

section \<open>Lines\<close>

record create_line =
  li_variant :: uuid
  li_qty :: int
  li_discount :: int

record create_input =
  cin_customer :: string
  cin_shipping_address :: string
  cin_lines :: "create_line list"
  cin_shipping :: int
  cin_note :: "string option"
  cin_option :: "ship_choice option"
  cin_destination :: string

record new_line =
  nl_variant :: uuid
  nl_qty :: int
  nl_discount :: int
  nl_sku :: string
  nl_title :: string
  nl_unit_price :: int

record new_order =
  no_source :: string
  no_payment_method :: string
  no_customer_id :: "uuid option"
  no_cart :: "uuid option"
  no_customer :: string
  no_shipping_address :: string
  no_note :: "string option"
  no_shipping :: int
  no_shipping_courier :: "string option"
  no_shipping_service :: "string option"
  no_lines :: "new_line list"

text \<open>\<open>lines.2.variant_id\<close>.\<close>

definition line_field :: "nat \<Rightarrow> string \<Rightarrow> string" where
  "line_field i name = ''lines.'' @ itoa (int i) @ ''.'' @ name"

text \<open>The separator is a space, an em dash (three bytes in UTF-8) and a space.\<close>

definition em_dash :: string where
  "em_dash = '' '' @ map char_of [226 :: nat, 128, 148] @ '' ''"

definition title_snapshot :: "string \<Rightarrow> string list \<Rightarrow> string" where
  "title_snapshot title option_values =
    (if option_values = [] then title else title @ em_dash @ join '' / '' option_values)"

definition err_no_variant :: "nat \<Rightarrow> err" where
  "err_no_variant i = field_error (line_field i ''variant_id'') ''No such variant.''"

definition err_archived_variant :: "nat \<Rightarrow> err" where
  "err_archived_variant i = field_error (line_field i ''variant_id'')
     ''This variant is archived and cannot be ordered (BR-045).''"

definition err_line_discount :: "nat \<Rightarrow> err" where
  "err_line_discount i = field_error (line_field i ''discount'') ''A discount cannot exceed the line's total.''"

text \<open>One turn of the loop: the line as it will be stored. Quantities are Go \<open>int\<close>s, amounts
  \<open>int64\<close>s, and both products wrap.\<close>

definition price_line :: "ctx \<Rightarrow> nat \<Rightarrow> create_line \<Rightarrow> (new_line \<times> int) stmt" where
  "price_line c i l =
    bindT (mapErrT (\<lambda>e. if err_is e NoRows then err_no_variant i else e) (variant_for_order c (li_variant l))) (\<lambda>v.
    if vo_archived_at v \<noteq> None then failT (err_archived_variant i)
    else if li_discount l > wrap64 (vo_price v * li_qty l) then failT (err_line_discount i)
    else retT (\<lparr>nl_variant = li_variant l, nl_qty = li_qty l, nl_discount = li_discount l,
               nl_sku = deref (vo_sku v), nl_title = title_snapshot (vo_title v) (vo_option_values v),
               nl_unit_price = vo_price v\<rparr>,
             wrap64 (vo_weight_grams v * li_qty l)))"

definition price_lines :: "ctx \<Rightarrow> create_line list \<Rightarrow> (new_line \<times> int) list stmt" where
  "price_lines c ls = eachT (\<lambda>(i, l). price_line c i l) (enumerate 0 ls)"

text \<open>A running \<open>int64\<close> total, as the loops keep it.\<close>

definition sum64 :: "int list \<Rightarrow> int" where
  "sum64 xs = foldl (\<lambda>a x. wrap64 (a + x)) 0 xs"

definition line_amount :: "new_line \<Rightarrow> int" where
  "line_amount l = wrap64 (nl_unit_price l * nl_qty l)"

definition parcel_of :: "string \<Rightarrow> (new_line \<times> int) list \<Rightarrow> parcel" where
  "parcel_of dest ps = \<lparr>pc_destination = dest, pc_weight = sum64 (map snd ps),
     pc_value = sum64 (map (line_amount \<circ> fst) ps)\<rparr>"

section \<open>insert\<close>

text \<open>\<open>fmt.Sprintf("%s-%06d", prefix, n)\<close>.\<close>

definition order_number :: "string \<Rightarrow> int \<Rightarrow> string" where
  "order_number pre n = pre @ ''-'' @
     (if n < 0 then ''-'' @ zero_pad 5 (itoa_nat (nat (- n))) else zero_pad 6 (itoa_nat (nat n)))"

text \<open>
  Ids come from \<open>uuid.NewV7\<close>; an operation takes the sequence it would draw, the order's first
  and then one per line.
\<close>

definition new_order_params :: "uuid \<Rightarrow> string \<Rightarrow> int \<Rightarrow> new_order \<Rightarrow> create_order_params" where
  "new_order_params oid pre n x =
    (let subtotal = sum64 (map line_amount (no_lines x)); discount = sum64 (map nl_discount (no_lines x))
     in \<lparr>co_id = oid, co_source = no_source x, co_customer_id = no_customer_id x, co_cart = no_cart x,
       co_number = order_number pre n, co_customer = no_customer x,
       co_shipping_address = no_shipping_address x, co_note = no_note x,
       co_payment_method = no_payment_method x, co_shipping_courier = no_shipping_courier x,
       co_shipping_service = no_shipping_service x, co_subtotal = subtotal, co_shipping = no_shipping x,
       co_discount = discount, co_total = wrap64 (wrap64 (subtotal + no_shipping x) - discount)\<rparr>)"

definition line_params :: "uuid \<Rightarrow> uuid \<Rightarrow> new_line \<Rightarrow> create_line_params" where
  "line_params oid lid l = \<lparr>cl_id = lid, cl_order = oid, cl_variant = nl_variant l, cl_sku = nl_sku l,
     cl_title = nl_title l, cl_qty = wrap32 (nl_qty l), cl_unit_price = nl_unit_price l,
     cl_discount = nl_discount l\<rparr>"

definition insert_lines :: "(nat \<Rightarrow> uuid) \<Rightarrow> ctx \<Rightarrow> uuid \<Rightarrow> new_line list \<Rightarrow> unit stmt" where
  "insert_lines ids c oid ls = thenT
     (eachT (\<lambda>(i, l). create_order_line c (line_params oid (ids (Suc i)) l)) (enumerate 0 ls)) (retT ())"

definition insert :: "(nat \<Rightarrow> uuid) \<Rightarrow> ctx \<Rightarrow> new_order \<Rightarrow> order stmt" where
  "insert ids c x =
    bindT (tenant_order_prefix c) (\<lambda>pre.
    bindT (next_order_number c) (\<lambda>n.
    bindT (create_order c (new_order_params (ids 0) pre n x)) (\<lambda>ord.
    thenT (insert_lines ids c (or_id ord) (no_lines x))
    (retT ord))))"

definition create_audit :: "order \<Rightarrow> audit_entry" where
  "create_audit ord = \<lparr>ae_action = ''order.create'', ae_subject_type = ''order'',
     ae_subject_id = DId (or_id ord), ae_before = None,
     ae_after = Some (DObj [(''order_number'', DStr (or_number ord)), (''source'', DStr (or_source ord)),
       (''total'', DInt (or_total ord))])\<rparr>"

section \<open>Create and ShippingRates\<close>

definition manual_order :: "create_input \<Rightarrow> new_line list \<Rightarrow> ship_option option \<Rightarrow> new_order" where
  "manual_order inp ls opt = \<lparr>no_source = S_manual, no_payment_method = S_bank_transfer,
     no_customer_id = None, no_cart = None, no_customer = cin_customer inp,
     no_shipping_address = cin_shipping_address inp, no_note = cin_note inp,
     no_shipping = (case opt of None \<Rightarrow> cin_shipping inp | Some x \<Rightarrow> so_price x),
     no_shipping_courier = map_option so_courier opt, no_shipping_service = map_option so_service opt,
     no_lines = ls\<rparr>"

lemma manual_order_lines: "no_lines (manual_order inp ls opt) = ls"
  by (simp add: manual_order_def)

definition pick_option :: "rates \<Rightarrow> ctx \<Rightarrow> parcel \<Rightarrow> ship_choice option \<Rightarrow> ship_option option stmt" where
  "pick_option rates c p ch =
    (case ch of
      None \<Rightarrow> retT None
    | Some x \<Rightarrow> bindT (quote rates c p) (\<lambda>opts. liftT (map_sum id Some (chosen opts x))))"

definition create :: "rates \<Rightarrow> (nat \<Rightarrow> uuid) \<Rightarrow> ctx \<Rightarrow> create_input \<Rightarrow> uuid stmt" where
  "create rates ids c inp =
    bindT (price_lines c (cin_lines inp)) (\<lambda>ps.
    bindT (pick_option rates c (parcel_of (cin_destination inp) ps) (cin_option inp)) (\<lambda>opt.
    bindT (insert ids c (manual_order inp (map fst ps) opt)) (\<lambda>ord.
    thenT (audit c (create_audit ord))
    (retT (or_id ord)))))"

definition create_op ::
  "rates \<Rightarrow> mailer \<Rightarrow> (nat \<Rightarrow> uuid) \<Rightarrow> ctx \<Rightarrow> create_input \<Rightarrow> world \<Rightarrow> (err + uuid) \<times> world" where
  "create_op rates m ids c inp w =
    (case in_tenant_tx c (create rates ids c inp) (w_db w) of
      (Inl e, s) \<Rightarrow> (Inl e, w\<lparr>w_db := s\<rparr>)
    | (Inr oid, s) \<Rightarrow>
        (Inr oid, w\<lparr>w_db := s, w_mail := queue_mail m ''order_placed'' (tenant_of c) oid (w_mail w)\<rparr>))"

definition rate_line :: "ctx \<Rightarrow> nat \<Rightarrow> create_line \<Rightarrow> (int \<times> int) stmt" where
  "rate_line c i l =
    bindT (mapErrT (\<lambda>e. if err_is e NoRows
        then field_error (line_field i ''variant_id'') ''No such variant, or it is archived.'' else e)
      (variant_for_order c (li_variant l))) (\<lambda>v.
    if vo_archived_at v \<noteq> None
    then failT (field_error (line_field i ''variant_id'') ''No such variant, or it is archived.'')
    else retT (wrap64 (vo_weight_grams v * li_qty l), wrap64 (vo_price v * li_qty l)))"

definition shipping_rates :: "rates \<Rightarrow> ctx \<Rightarrow> string \<Rightarrow> create_line list \<Rightarrow> (int \<times> ship_option list) stmt" where
  "shipping_rates rates c dest ls =
    bindT (eachT (\<lambda>(i, l). rate_line c i l) (enumerate 0 ls)) (\<lambda>ps.
    let p = \<lparr>pc_destination = dest, pc_weight = sum64 (map fst ps), pc_value = sum64 (map snd ps)\<rparr>
    in bindT (quote rates c p) (\<lambda>opts. retT (pc_weight p, opts)))"

definition shipping_rates_op ::
  "rates \<Rightarrow> ctx \<Rightarrow> string \<Rightarrow> create_line list \<Rightarrow> db \<Rightarrow> (err + int \<times> ship_option list) \<times> db" where
  "shipping_rates_op rates c dest ls = in_tenant_tx c (shipping_rates rates c dest ls)"

section \<open>Shipping for a cart\<close>

definition parcel_items :: "cart_line_row list \<Rightarrow> (int \<times> int) list" where
  "parcel_items items = List.map_filter (\<lambda>it.
     case (cv_available it, cv_price it, cv_weight_grams it) of
       (Some True, Some price, Some weight) \<Rightarrow> Some (wrap64 (weight * cv_qty it), wrap64 (price * cv_qty it))
     | _ \<Rightarrow> None) items"

definition cart_parcel :: "cart_line_row list \<Rightarrow> string \<Rightarrow> parcel" where
  "cart_parcel items dest = \<lparr>pc_destination = dest, pc_weight = sum64 (map fst (parcel_items items)),
     pc_value = sum64 (map snd (parcel_items items))\<rparr>"

definition err_no_cart :: err where
  "err_no_cart = not_found ''No such cart.''"

definition cart_rates :: "rates \<Rightarrow> ctx \<Rightarrow> uuid \<Rightarrow> string \<Rightarrow> (int \<times> ship_option list) stmt" where
  "cart_rates rates c cid dest =
    bindT (mapErrT (\<lambda>e. if err_is e NoRows then err_no_cart else e) (lock_cart c cid)) (\<lambda>cart.
    if ca_status cart \<noteq> S_open \<or> \<not> c_clock c < ca_expires_at cart then failT err_no_cart
    else
      bindT (cart_lines c cid) (\<lambda>items.
      let p = cart_parcel items dest in
      if pc_weight p = 0 \<and> pc_value p = 0 then failT empty_cart
      else bindT (quote rates c p) (\<lambda>opts. retT (pc_weight p, opts))))"

definition cart_rates_op ::
  "rates \<Rightarrow> ctx \<Rightarrow> uuid \<Rightarrow> string \<Rightarrow> db \<Rightarrow> (err + int \<times> ship_option list) \<times> db" where
  "cart_rates_op rates c cid dest = in_tenant_tx c (cart_rates rates c cid dest)"

section \<open>Totals\<close>

text \<open>A running total that never leaves the range is the mathematical sum.\<close>

lemma sum64_from: "foldl (\<lambda>a x. wrap64 (a + x)) (wrap64 b) xs = wrap64 (b + sum_list xs)"
proof (induction xs arbitrary: b)
  case Nil
  then show ?case by simp
next
  case (Cons x xs)
  have "foldl (\<lambda>a x. wrap64 (a + x)) (wrap64 b) (x # xs) = foldl (\<lambda>a x. wrap64 (a + x)) (wrap64 (b + x)) xs"
    by (simp add: wrap64_add)
  then show ?case
    using Cons.IH [of "b + x"] by (simp add: add.assoc)
qed

lemma sum64_wrap: "sum64 xs = wrap64 (sum_list xs)"
  using sum64_from [of 0 xs] by (simp add: sum64_def wrap64_id is_i64_def)

lemma sum64_exact: "is_i64 (sum_list xs) \<Longrightarrow> sum64 xs = sum_list xs"
  by (simp add: sum64_wrap wrap64_id)

lemma sum64_range: "is_i64 (sum64 xs)"
  by (simp add: sum64_wrap wrap64_range)

section \<open>What insert does\<close>

definition line_row :: "ctx \<Rightarrow> uuid \<Rightarrow> uuid \<Rightarrow> new_line \<Rightarrow> order_line" where
  "line_row c oid lid l = \<lparr>ol_id = lid, ol_tenant = tenant_of c, ol_order = oid, ol_variant = nl_variant l,
     ol_sku = nl_sku l, ol_title = nl_title l, ol_qty = wrap32 (nl_qty l), ol_unit_price = nl_unit_price l,
     ol_discount = nl_discount l\<rparr>"

lemma create_order_line_Inr: "create_order_line c (line_params oid lid l) s = Inr (u, s') \<Longrightarrow>
    s' = s\<lparr>order_lines := order_lines s @ [line_row c oid lid l]\<rparr> \<and> 0 < wrap32 (nl_qty l) \<and>
    get_order (tenant_of c) oid s \<noteq> None"
  by (auto simp: create_order_line_def tx_inr line_row_def line_params_def)

lemma insert_lines_Inr:
  assumes "insert_lines ids c oid ls s = Inr (u, s')"
  shows "s' = s\<lparr>order_lines := order_lines s @ map (\<lambda>(i, l). line_row c oid (ids (Suc i)) l) (enumerate 0 ls)\<rparr>"
proof -
  have "eachT (\<lambda>(i, l). create_order_line c (line_params oid (ids (Suc i)) l)) (enumerate n ls) s = Inr (us, s') \<Longrightarrow>
      s' = s\<lparr>order_lines := order_lines s @ map (\<lambda>(i, l). line_row c oid (ids (Suc i)) l) (enumerate n ls)\<rparr>" for n us
  proof (induction ls arbitrary: n s us)
    case Nil
    then show ?case by simp
  next
    case (Cons l ls)
    then obtain u s1 vs where "create_order_line c (line_params oid (ids (Suc n)) l) s = Inr (u, s1)"
      and r: "eachT (\<lambda>(i, l). create_order_line c (line_params oid (ids (Suc i)) l)) (enumerate (Suc n) ls) s1 = Inr (vs, s')"
      by (auto simp: bindT_Inr)
    then have "s1 = s\<lparr>order_lines := order_lines s @ [line_row c oid (ids (Suc n)) l]\<rparr>"
      using create_order_line_Inr by blast
    with Cons.IH [OF r] show ?case by simp
  qed
  then show ?thesis
    using assms by (auto simp: insert_lines_def thenT_Inr)
qed

lemma create_order_Inr: "create_order c p s = Inr (ord, s') \<longleftrightarrow>
    ord = new_order_row c p \<and> s' = s\<lparr>orders := orders s @ [ord]\<rparr> \<and>
    order_check ord \<and> order_unique ord s \<and> order_refs ord s"
  by (auto simp: create_order_def Let_def tx_inr)

definition sequence_of :: "uuid \<Rightarrow> db \<Rightarrow> int" where
  "sequence_of t s = (case map_of (sequences s) t of None \<Rightarrow> 0 | Some n \<Rightarrow> n)"

lemma map_of_bump: "map_of (map (\<lambda>p. if fst p = t then (fst p, n) else p) xs) t' =
    (if t' = t then map_option (\<lambda>_. n) (map_of xs t) else map_of xs t')"
  by (induction xs) auto

text \<open>\<open>bump\<close> is the counter after the statement.\<close>

definition bump :: "uuid \<Rightarrow> db \<Rightarrow> (uuid \<times> int) list" where
  "bump t s = (case map_of (sequences s) t of None \<Rightarrow> (t, 1) # sequences s
     | Some n \<Rightarrow> map (\<lambda>p. if fst p = t then (fst p, n + 1) else p) (sequences s))"

lemma next_order_number_Inr: "next_order_number c s = Inr (n, s') \<longleftrightarrow>
    n = sequence_of (tenant_of c) s + 1 \<and> (map_of (sequences s) (tenant_of c) = None \<or> is_i64 n) \<and>
    s' = s\<lparr>sequences := bump (tenant_of c) s\<rparr>"
  by (auto simp: next_order_number_def sequence_of_def bump_def split: option.splits)

lemma sequence_of_bump: "sequence_of t' (s\<lparr>sequences := bump t s\<rparr>) =
    (if t' = t then sequence_of t s + 1 else sequence_of t' s)"
  by (auto simp: sequence_of_def bump_def map_of_bump split: option.splits)

lemma tenant_order_prefix_Inr [simp]: "tenant_order_prefix c s = Inr (pre, s') \<longleftrightarrow>
    s' = s \<and> map_option tn_order_prefix (find (\<lambda>r. tn_id r = tenant_of c) (tenants s)) = Some pre"
  by (auto simp: tenant_order_prefix_def)

definition prefix_of :: "uuid \<Rightarrow> db \<Rightarrow> string" where
  "prefix_of t s = (case find (\<lambda>r. tn_id r = t) (tenants s) of None \<Rightarrow> [] | Some r \<Rightarrow> tn_order_prefix r)"

lemma order_guards_sequences [simp]:
  "order_unique r (s\<lparr>sequences := x\<rparr>) = order_unique r s" "order_refs r (s\<lparr>sequences := x\<rparr>) = order_refs r s"
  by (simp_all add: order_unique_def order_refs_def cong: option.case_cong)

text \<open>Everything an insert leaves behind.\<close>

lemma insert_Inr:
  assumes "insert ids c x s = Inr (ord, s')"
  shows "ord = new_order_row c (new_order_params (ids 0) (prefix_of (tenant_of c) s)
            (sequence_of (tenant_of c) s + 1) x) \<and>
    order_check ord \<and> order_unique ord s \<and> order_refs ord s \<and>
    s' = s\<lparr>sequences := bump (tenant_of c) s, orders := orders s @ [ord],
      order_lines := order_lines s @ map (\<lambda>(i, l). line_row c (ids 0) (ids (Suc i)) l) (enumerate 0 (no_lines x))\<rparr>"
proof -
  obtain u pre n s1 s2 where s1: "s1 = s\<lparr>sequences := bump (tenant_of c) s\<rparr>"
    and n: "n = sequence_of (tenant_of c) s + 1" and pre: "pre = prefix_of (tenant_of c) s"
    and ord: "create_order c (new_order_params (ids 0) pre n x) s1 = Inr (ord, s2)"
    and lines: "insert_lines ids c (or_id ord) (no_lines x) s2 = Inr (u, s')"
    using assms by (auto simp: insert_def tx_inr next_order_number_Inr prefix_of_def)
  have "or_id ord = ids 0"
    using ord by (simp add: create_order_Inr new_order_row_def new_order_params_def Let_def)
  then show ?thesis
    using insert_lines_Inr [OF lines] ord unfolding create_order_Inr
    by (auto simp: s1 n pre)
qed

section \<open>The pieces of Create\<close>

lemma tryT_Inr: "tryT m s = Inr (r, s') \<longleftrightarrow>
    (\<exists>e. m s = Inl e \<and> r = Inl e \<and> s' = s) \<or> (\<exists>x. m s = Inr (x, s') \<and> r = Inr x)"
  by (auto simp: tryT_def split: sum.splits)

lemma settings_row_Inr: "settings_row c s = Inr (st, s') \<longleftrightarrow>
    s' = s \<and> st = find (\<lambda>r. st_tenant r = tenant_of c) (settings s)"
  by (auto simp: settings_row_def get_storefront_settings_def bindT_def tryT_def oneT_def retT_def
      failT_def split: option.splits)

lemma quote_reads: "quote rates c p s = Inr (opts, s') \<Longrightarrow> s' = s"
  by (auto simp: quote_def bindT_Inr settings_row_Inr Let_def split: option.splits sum.splits)

lemma chosen_Inr: "chosen opts ch = Inr x \<Longrightarrow> x \<in> set opts \<and> so_courier x = sc_courier ch \<and> so_service x = sc_service ch"
  by (auto simp: chosen_def find_Some_iff split: option.splits)

lemma pick_option_reads: "pick_option rates c p ch s = Inr (opt, s') \<Longrightarrow> s' = s"
  by (auto simp: pick_option_def bindT_Inr split: option.splits dest: quote_reads)

lemma map_sum_Some_Inr: "map_sum id Some r = Inr y \<longleftrightarrow> (\<exists>x. r = Inr x \<and> y = Some x)"
  by (cases r) auto

lemma pick_option_Some:
  assumes "pick_option rates c p (Some ch) s = Inr (opt, s')"
  shows "\<exists>opts x. quote rates c p s = Inr (opts, s) \<and> opt = Some x \<and> chosen opts ch = Inr x"
proof -
  obtain opts s1 where q: "quote rates c p s = Inr (opts, s1)"
    and l: "liftT (map_sum id Some (chosen opts ch)) s1 = Inr (opt, s')"
    using assms by (auto simp: pick_option_def bindT_Inr)
  then show ?thesis
    using quote_reads [OF q] by (auto simp: map_sum_Some_Inr)
qed

text \<open>The price a shopper or an operator pays for a variant now.\<close>

definition catalog_price :: "ctx \<Rightarrow> db \<Rightarrow> uuid \<Rightarrow> int" where
  "catalog_price c s vid = (case get_variant_row (tenant_of c) vid s of None \<Rightarrow> 0
     | Some v \<Rightarrow> variant_price (c_now c) v)"

lemma variant_for_order_Inr: "variant_for_order c vid s = Inr (v, s') \<longleftrightarrow> s' = s \<and>
    (\<exists>va p. get_variant_row (tenant_of c) vid s = Some va \<and>
      get_product_row (tenant_of c) (va_product va) s = Some p \<and>
      v = \<lparr>vo_sku = va_sku va, vo_option_values = va_option_values va, vo_archived_at = va_archived_at va,
        vo_price = variant_price (c_now c) va, vo_weight_grams = va_weight_grams va, vo_title = pr_title p\<rparr>)"
  by (auto simp: variant_for_order_def split: option.splits)

definition priced_line :: "ctx \<Rightarrow> db \<Rightarrow> create_line \<Rightarrow> new_line \<Rightarrow> bool" where
  "priced_line c s l n \<longleftrightarrow> nl_variant n = li_variant l \<and> nl_qty n = li_qty l \<and> nl_discount n = li_discount l \<and>
     (\<exists>v. get_variant_row (tenant_of c) (li_variant l) s = Some v \<and> va_archived_at v = None) \<and>
     nl_unit_price n = catalog_price c s (li_variant l) \<and>
     li_discount l \<le> wrap64 (catalog_price c s (li_variant l) * li_qty l)"

lemma price_line_Inr: "price_line c i l s = Inr (nw, s') \<Longrightarrow> s' = s \<and> priced_line c s l (fst nw)"
  by (auto simp: price_line_def bindT_Inr variant_for_order_Inr priced_line_def catalog_price_def
      split: if_splits)

lemma price_lines_Inr:
  assumes "price_lines c ls s = Inr (ps, s')"
  shows "s' = s \<and> list_all2 (priced_line c s) ls (map fst ps)"
proof -
  have "s' = s \<and> list_all2 (\<lambda>il nw. priced_line c s (snd il) (fst nw)) (enumerate 0 ls) ps"
    using assms unfolding price_lines_def
    by (rule eachT_reads [rotated]) (auto dest: price_line_Inr)
  then show ?thesis
    by (simp add: list_all2_conv_all_nth nth_enumerate_eq)
qed

lemma create_Inr:
  assumes "create rates ids c inp s = Inr (oid, s')"
  obtains ps opt ord s1 where "list_all2 (priced_line c s) (cin_lines inp) (map fst ps)"
    "pick_option rates c (parcel_of (cin_destination inp) ps) (cin_option inp) s = Inr (opt, s)"
    "insert ids c (manual_order inp (map fst ps) opt) s = Inr (ord, s1)"
    "s' = add_audit c (create_audit ord) s1" "oid = or_id ord"
proof -
  obtain ps sa opt sb ord sc where p: "price_lines c (cin_lines inp) s = Inr (ps, sa)"
    and o': "pick_option rates c (parcel_of (cin_destination inp) ps) (cin_option inp) sa = Inr (opt, sb)"
    and i: "insert ids c (manual_order inp (map fst ps) opt) sb = Inr (ord, sc)"
    and r: "s' = add_audit c (create_audit ord) sc" "oid = or_id ord"
    using assms by (auto simp: create_def tx_inr)
  have "sa = s" "list_all2 (priced_line c s) (cin_lines inp) (map fst ps)" "sb = s"
    using price_lines_Inr [OF p] pick_option_reads [OF o'] by auto
  with o' i r show thesis by (intro that) simp_all
qed

section \<open>Isolation and the order invariant\<close>

lemma settings_row_isolated [isolation]: "within (isolated t) (settings_row c)"
  by (rule iso.failed_or_same) (simp add: settings_row_Inr)

lemma quote_isolated [isolation]: "within (isolated t) (quote rates c p)"
  by (rule iso.failed_or_same) (rule quote_reads)

lemma pick_option_isolated [isolation]: "within (isolated t) (pick_option rates c p ch)"
  by (rule iso.failed_or_same) (rule pick_option_reads)

lemma price_lines_isolated [isolation]: "within (isolated t) (price_lines c ls)"
  by (rule iso.failed_or_same) (simp add: price_lines_Inr)

lemma insert_isolated [isolation]: "tenant_of c = t \<Longrightarrow> within (isolated t) (insert ids c x)"
  unfolding insert_def insert_lines_def by (intro iso.rules isolation)

lemma create_isolated [isolation]: "tenant_of c = t \<Longrightarrow> within (isolated t) (create rates ids c inp)"
  unfolding create_def by (intro iso.rules isolation)

lemma new_order_good: "order_check (new_order_row c p) \<Longrightarrow> good_order (new_order_row c p)"
  by (simp add: good_order_def lifecycle_def new_order_row_def)

lemma good_orders_insert: "good_orders s \<Longrightarrow> good_order ord \<Longrightarrow> order_unique ord s \<Longrightarrow>
    good_orders (s\<lparr>sequences := q, orders := orders s @ [ord], order_lines := l\<rparr>)"
  by (auto simp: good_orders_def order_unique_def list_all_iff)

lemma insert_keeps_good: "within (holds_on good_orders) (insert ids c x)"
  by (rule withinI) (auto simp: holds_on_def intro!: good_orders_insert new_order_good dest: insert_Inr)

lemma create_keeps_good: "within (holds_on good_orders) (create rates ids c inp)"
proof (rule withinI)
  fix s oid s'
  assume "create rates ids c inp s = Inr (oid, s')"
  then show "holds_on good_orders s s'"
    by (elim create_Inr) (use insert_keeps_good in \<open>fastforce simp: holds_on_def within_def\<close>)
qed

section \<open>Properties of a manual order\<close>

definition goods_value :: "ctx \<Rightarrow> db \<Rightarrow> create_line list \<Rightarrow> int" where
  "goods_value c s ls = sum_list (map (\<lambda>l. catalog_price c s (li_variant l) * li_qty l) ls)"

definition prices_ok :: "ctx \<Rightarrow> db \<Rightarrow> bool" where
  "prices_ok c s \<longleftrightarrow> (\<forall>v \<in> set (variants s). 0 \<le> variant_price (c_now c) v)"

lemma catalog_price_nonneg: "prices_ok c s \<Longrightarrow> 0 \<le> catalog_price c s vid"
  by (auto simp: prices_ok_def catalog_price_def get_variant_row_def dest: row_get_Some split: option.splits)

lemma i64_between: "0 \<le> x \<Longrightarrow> x \<le> y \<Longrightarrow> y < 2 ^ 63 \<Longrightarrow> is_i64 x"
  by (simp add: is_i64_def)

text \<open>When the goods are worth less than \<open>2^63\<close>, no product and no running total wraps.\<close>

lemma amounts_exact:
  assumes "list_all2 (priced_line c s) ls ns" and "prices_ok c s"
    and "\<forall>l \<in> set ls. 1 \<le> li_qty l \<and> 0 \<le> li_discount l" and "goods_value c s ls < 2 ^ 63"
  shows "0 \<le> goods_value c s ls \<and> sum_list (map line_amount ns) = goods_value c s ls \<and>
    0 \<le> sum_list (map nl_discount ns) \<and> sum_list (map nl_discount ns) \<le> goods_value c s ls \<and>
    sum_list (map nl_discount ns) = sum_list (map li_discount ls)"
  using assms
proof (induction rule: list_all2_induct)
  case Nil
  then show ?case by (simp add: goods_value_def)
next
  case (Cons l ls n ns)
  define a where "a = catalog_price c s (li_variant l) * li_qty l"
  have a: "0 \<le> a"
    using Cons.prems catalog_price_nonneg [of c s "li_variant l"] by (simp add: a_def)
  have split: "goods_value c s (l # ls) = a + goods_value c s ls"
    by (simp add: goods_value_def a_def)
  have tail: "0 \<le> goods_value c s ls"
  proof -
    have "0 \<le> catalog_price c s (li_variant x) * li_qty x" if "x \<in> set ls" for x
      using that Cons.prems(1,2) catalog_price_nonneg [of c s "li_variant x"] by fastforce
    then show ?thesis
      unfolding goods_value_def by (intro sum_list_nonneg) auto
  qed
  have IH: "sum_list (map line_amount ns) = goods_value c s ls \<and>
    0 \<le> sum_list (map nl_discount ns) \<and> sum_list (map nl_discount ns) \<le> goods_value c s ls \<and>
    sum_list (map nl_discount ns) = sum_list (map li_discount ls)"
    using Cons.IH Cons.prems split a by simp
  have "wrap64 a = a"
    using a tail Cons.prems(3) split by (intro wrap64_id i64_between [of a a]) linarith+
  then have "line_amount n = a" "nl_discount n = li_discount l" "li_discount l \<le> a" "0 \<le> li_discount l"
    using Cons.hyps(1) Cons.prems(2) by (auto simp: priced_line_def line_amount_def a_def)
  with IH a tail split show ?case by simp
qed

text \<open>C22. A manual order adds up, and its prices are the catalog's (BR-046, BR-076, BR-078): when
  quantities fit the column and the goods are worth less than an \<open>int64\<close> holds, the order is
  stored pending with its subtotal the sum of the variants' current prices times the requested
  quantities, its shipping the amount sent or, for a chosen courier, that option's freshly quoted
  price, and its total subtotal plus shipping minus discount; its stored lines carry exactly those
  prices and quantities, and one email is queued.\<close>

theorem manual_order_adds_up:
  assumes "c_tenant c = Some t" and "create_op rates m ids c inp w = (Inr oid, w')"
    and "prices_ok c (w_db w)"
    and "\<forall>l \<in> set (cin_lines inp). 1 \<le> li_qty l \<and> is_i32 (li_qty l) \<and> 0 \<le> li_discount l"
    and "goods_value c (w_db w) (cin_lines inp) < 2 ^ 63"
  shows "\<exists>ord new. orders (w_db w') = orders (w_db w) @ [ord] \<and> or_id ord = oid \<and> or_tenant ord = t \<and>
    or_status ord = S_pending \<and> or_source ord = S_manual \<and>
    or_subtotal ord = goods_value c (w_db w) (cin_lines inp) \<and>
    or_discount ord = sum_list (map li_discount (cin_lines inp)) \<and>
    or_total ord = or_subtotal ord + or_shipping ord - or_discount ord \<and>
    (case cin_option inp of None \<Rightarrow> or_shipping ord = cin_shipping inp
     | Some ch \<Rightarrow> \<exists>p opts x. quote rates c p (w_db w) = Inr (opts, w_db w) \<and> chosen opts ch = Inr x \<and>
         or_shipping ord = so_price x) \<and>
    order_lines (w_db w') = order_lines (w_db w) @ new \<and>
    map (\<lambda>l. (ol_order l, ol_variant l, ol_qty l, ol_unit_price l, ol_discount l)) new =
      map (\<lambda>l. (oid, li_variant l, li_qty l, catalog_price c (w_db w) (li_variant l), li_discount l)) (cin_lines inp) \<and>
    w_mail w' = queue_mail m ''order_placed'' t oid (w_mail w)"
proof -
  define s where "s = w_db w"
  have t: "tenant_of c = t"
    using assms(1) by (simp add: tenant_of_def)
  obtain s' where cr: "create rates ids c inp s = Inr (oid, s')"
    and w': "w' = w\<lparr>w_db := s', w_mail := queue_mail m ''order_placed'' t oid (w_mail w)\<rparr>"
    using assms(2) t by (auto simp: create_op_def s_def in_tenant_tx_Inr split: prod.splits sum.splits)
  from cr obtain ps opt ord s1 where ps: "list_all2 (priced_line c s) (cin_lines inp) (map fst ps)"
    and opt: "pick_option rates c (parcel_of (cin_destination inp) ps) (cin_option inp) s = Inr (opt, s)"
    and ins: "insert ids c (manual_order inp (map fst ps) opt) s = Inr (ord, s1)"
    and s': "s' = add_audit c (create_audit ord) s1" and oid: "oid = or_id ord"
    by (elim create_Inr)
  define ns where "ns = map fst ps"
  have amounts: "0 \<le> goods_value c s (cin_lines inp)" "sum_list (map line_amount ns) = goods_value c s (cin_lines inp)"
    "0 \<le> sum_list (map nl_discount ns)" "sum_list (map nl_discount ns) \<le> goods_value c s (cin_lines inp)"
    "sum_list (map nl_discount ns) = sum_list (map li_discount (cin_lines inp))"
    using amounts_exact [OF ps assms(3) [folded s_def]] assms(4,5) unfolding s_def ns_def by auto
  have sums: "sum64 (map line_amount ns) = goods_value c s (cin_lines inp)"
    "sum64 (map nl_discount ns) = sum_list (map li_discount (cin_lines inp))"
    using amounts assms(5) by (simp_all add: sum64_exact is_i64_def s_def)
  have ord: "ord = new_order_row c (new_order_params (ids 0) (prefix_of (tenant_of c) s)
            (sequence_of (tenant_of c) s + 1) (manual_order inp ns opt))"
    and check: "order_check ord"
    and s1: "s1 = s\<lparr>sequences := bump (tenant_of c) s, orders := orders s @ [ord],
      order_lines := order_lines s @ map (\<lambda>(i, l). line_row c (ids 0) (ids (Suc i)) l) (enumerate 0 ns)\<rparr>"
    using insert_Inr [OF ins, folded ns_def] unfolding manual_order_lines by blast+
  have row: "or_id ord = ids 0" "or_tenant ord = t" "or_status ord = S_pending" "or_source ord = S_manual"
    "or_subtotal ord = goods_value c s (cin_lines inp)"
    "or_discount ord = sum_list (map li_discount (cin_lines inp))"
    "or_shipping ord = (case opt of None \<Rightarrow> cin_shipping inp | Some x \<Rightarrow> so_price x)"
    using ord t sums
    by (simp_all add: new_order_row_def new_order_params_def Let_def manual_order_def ns_def)
  have total: "or_total ord = or_subtotal ord + or_shipping ord - or_discount ord"
    using check by (simp add: order_check_def)
  have ship: "case cin_option inp of None \<Rightarrow> or_shipping ord = cin_shipping inp
     | Some ch \<Rightarrow> \<exists>p opts x. quote rates c p s = Inr (opts, s) \<and> chosen opts ch = Inr x \<and> or_shipping ord = so_price x"
  proof (cases "cin_option inp")
    case None
    then show ?thesis using opt row by (simp add: pick_option_def)
  next
    case (Some ch)
    then obtain opts x where "quote rates c (parcel_of (cin_destination inp) ps) s = Inr (opts, s)"
      "opt = Some x" "chosen opts ch = Inr x"
      using pick_option_Some opt by metis
    then show ?thesis using Some row by auto
  qed
  have lines: "map (\<lambda>l. (ol_order l, ol_variant l, ol_qty l, ol_unit_price l, ol_discount l))
      (map (\<lambda>(i, l). line_row c (ids 0) (ids (Suc i)) l) (enumerate 0 ns)) =
      map (\<lambda>l. (ids 0, li_variant l, li_qty l, catalog_price c s (li_variant l), li_discount l)) (cin_lines inp)"
    using ps assms(4) unfolding list_all2_conv_all_nth ns_def [symmetric]
    by (intro nth_equalityI) (auto simp: nth_enumerate_eq line_row_def priced_line_def wrap32_id)
  show ?thesis
    using w' s' s1 oid row total ship lines unfolding s_def [symmetric]
    by (intro exI [of _ ord] exI [of _ "map (\<lambda>(i, l). line_row c (ids 0) (ids (Suc i)) l) (enumerate 0 ns)"] conjI)
      (assumption | simp)+
qed

section \<open>Order numbers\<close>

lemma not_digit_dash: "is_digit c \<Longrightarrow> c \<noteq> CHR ''-''"
  by (auto simp: is_digit_def)

lemma order_number_inj:
  assumes "order_number p m = order_number p' n" and "0 \<le> m" and "0 \<le> n"
  shows "p = p' \<and> m = n"
proof -
  define d where "d k = zero_pad 6 (itoa_nat (nat k))" for k :: int
  have digits: "CHR ''-'' \<notin> set (d k)" for k
    using zero_pad_digits [OF itoa_nat_digits, of 6 "nat k"] not_digit_dash unfolding d_def by blast
  have "p @ CHR ''-'' # d m = p' @ CHR ''-'' # d n"
    using assms by (simp add: order_number_def d_def)
  from split_at_last_sep [OF this digits digits] have "p = p'" "d m = d n"
    by simp_all
  then have "nat m = nat n"
    unfolding d_def by (metis decimal_zero_pad decimal_itoa_nat)
  then show ?thesis
    using \<open>p = p'\<close> assms(2,3) by simp
qed

fun run_creates ::
  "rates \<Rightarrow> mailer \<Rightarrow> ((nat \<Rightarrow> uuid) \<times> ctx \<times> create_input) list \<Rightarrow> world \<Rightarrow> world" where
  "run_creates rates m [] w = w"
| "run_creates rates m ((ids, c, inp) # calls) w =
     run_creates rates m calls (snd (create_op rates m ids c inp w))"

text \<open>One create adds no order, or one order with the next number of its tenant.\<close>

definition adds_order :: "uuid \<Rightarrow> db \<Rightarrow> db \<Rightarrow> bool" where
  "adds_order t s s' \<longleftrightarrow> tenants s' = tenants s \<and>
     (orders s' = orders s \<and> sequences s' = sequences s \<or>
      (\<exists>ord. orders s' = orders s @ [ord] \<and>
        (or_tenant ord = t \<and> or_number ord = order_number (prefix_of t s) (sequence_of t s + 1) \<and>
           sequence_of t s' = sequence_of t s + 1 \<or>
         or_tenant ord \<noteq> t \<and> sequence_of t s' = sequence_of t s)))"

lemma insert_adds_order: "insert ids c x s = Inr (ord, s') \<Longrightarrow> adds_order t s s'"
proof -
  assume "insert ids c x s = Inr (ord, s')"
  note made = insert_Inr [OF this]
  have ord: "or_tenant ord = tenant_of c"
    "or_number ord = order_number (prefix_of (tenant_of c) s) (sequence_of (tenant_of c) s + 1)"
    using made by (simp_all add: new_order_row_def new_order_params_def Let_def)
  obtain l where s': "s' = s\<lparr>sequences := bump (tenant_of c) s, orders := orders s @ [ord], order_lines := l\<rparr>"
    using made by blast
  have seq: "sequence_of t s' = sequence_of t (s\<lparr>sequences := bump (tenant_of c) s\<rparr>)"
    by (simp add: s' sequence_of_def)
  show ?thesis
    using ord unfolding adds_order_def seq sequence_of_bump by (auto simp: s')
qed

lemma sequence_of_audit [simp]: "sequence_of t (add_audit c e s) = sequence_of t s"
  by (simp add: sequence_of_def)

lemma adds_order_audit: "adds_order t s s' \<Longrightarrow> adds_order t s (add_audit c e s')"
  by (simp add: adds_order_def)

lemma adds_order_refl: "adds_order t s s"
  by (simp add: adds_order_def)

lemma create_op_adds_order: "adds_order t (w_db w) (w_db (snd (create_op rates m ids c inp w)))"
proof (cases "in_tenant_tx c (create rates ids c inp) (w_db w)")
  case (Pair r s)
  show ?thesis
  proof (cases r)
    case (Inl e)
    then have "s = w_db w" using Pair by (simp add: in_tenant_tx_Inl)
    then show ?thesis using Pair Inl by (simp add: create_op_def adds_order_refl)
  next
    case (Inr oid)
    then have "create rates ids c inp (w_db w) = Inr (oid, s)"
      using Pair by (simp add: in_tenant_tx_Inr)
    then have "adds_order t (w_db w) s"
      by (elim create_Inr) (auto intro: adds_order_audit insert_adds_order)
    then show ?thesis using Pair Inr by (simp add: create_op_def)
  qed
qed

text \<open>Order numbers have no gaps and no duplicates (BR-077): whatever manual orders are
  attempted, by whichever tenants, in whatever order and however many fail, the orders a tenant
  gets are numbered from its counter upwards one by one, and no two of them share a number.\<close>

theorem order_numbers_consecutive:
  assumes "0 \<le> sequence_of t (w_db w)"
  shows "\<exists>new. orders (w_db (run_creates rates m calls w)) = orders (w_db w) @ new \<and>
    map or_number (rows_of or_tenant t new) = map (order_number (prefix_of t (w_db w)))
      [sequence_of t (w_db w) + 1 .. sequence_of t (w_db w) + int (length (rows_of or_tenant t new))] \<and>
    distinct (map or_number (rows_of or_tenant t new))"
proof -
  have run: "\<exists>new. orders (w_db (run_creates rates m calls w)) = orders (w_db w) @ new \<and>
    map or_number (rows_of or_tenant t new) = map (order_number (prefix_of t (w_db w)))
      [sequence_of t (w_db w) + 1 .. sequence_of t (w_db w) + int (length (rows_of or_tenant t new))]"
  proof (induction calls arbitrary: w)
    case Nil
    then show ?case by (simp add: rows_of_def)
  next
    case (Cons call calls)
    obtain ids c inp where call: "call = (ids, c, inp)"
      by (metis prod_cases3)
    define w1 where "w1 = snd (create_op rates m ids c inp w)"
    define k where "k = sequence_of t (w_db w)"
    have step: "adds_order t (w_db w) (w_db w1)"
      unfolding w1_def by (rule create_op_adds_order)
    then have pre: "prefix_of t (w_db w1) = prefix_of t (w_db w)"
      by (simp add: adds_order_def prefix_of_def)
    obtain new where new: "orders (w_db (run_creates rates m calls w1)) = orders (w_db w1) @ new"
      and nums: "map or_number (rows_of or_tenant t new) = map (order_number (prefix_of t (w_db w)))
        [sequence_of t (w_db w1) + 1 .. sequence_of t (w_db w1) + int (length (rows_of or_tenant t new))]"
      using Cons.IH [of w1] pre by auto
    from step consider "orders (w_db w1) = orders (w_db w)" "sequence_of t (w_db w1) = k"
      | ord where "orders (w_db w1) = orders (w_db w) @ [ord]" "or_tenant ord = t"
          "or_number ord = order_number (prefix_of t (w_db w)) (k + 1)" "sequence_of t (w_db w1) = k + 1"
      | ord where "orders (w_db w1) = orders (w_db w) @ [ord]" "or_tenant ord \<noteq> t" "sequence_of t (w_db w1) = k"
      unfolding adds_order_def k_def by (auto simp: sequence_of_def)
    then show ?case
    proof cases
      case 1
      then show ?thesis using new nums by (simp add: call w1_def [symmetric] k_def [symmetric])
    next
      case (2 ord)
      have "[k + 1 .. k + (1 + int n)] = (k + 1) # [k + 2 .. k + 1 + int n]" for n
        by (subst upto_rec1) (simp_all add: add.assoc)
      with 2 new nums show ?thesis
        by (intro exI [of _ "ord # new"])
          (simp add: call w1_def [symmetric] k_def [symmetric] rows_of_def add.assoc)
    next
      case (3 ord)
      with new nums show ?thesis
        by (intro exI [of _ "ord # new"])
          (simp add: call w1_def [symmetric] k_def [symmetric] rows_of_def)
    qed
  qed
  have "distinct (map (order_number p) [k + 1 .. n])" if "0 \<le> k" for p k n
    using that by (auto simp: distinct_map inj_on_def dest: order_number_inj)
  with run assms show ?thesis by metis
qed

section \<open>Sample shop\<close>

definition sample_tenant_row :: tenant where
  "sample_tenant_row = \<lparr>tn_id = 1, tn_name = ''Erigo'', tn_slug = ''erigo'', tn_timezone = ''Asia/Jakarta'',
     tn_status = S_active, tn_created_at = 0, tn_order_prefix = ''ERG''\<rparr>"

definition sample_product :: product where
  "sample_product = \<lparr>pr_id = 50, pr_tenant = 1, pr_title = ''Tee'', pr_slug = ''tee'', pr_description = None,
     pr_brand = None, pr_status = S_active, pr_attributes = ''{}'', pr_option_names = [''Size''], pr_version = 1,
     pr_archived_at = None, pr_created_at = 0, pr_updated_at = 0\<rparr>"

definition sample_variant :: variant where
  "sample_variant = \<lparr>va_id = 60, va_tenant = 1, va_product = 50, va_sku = Some ''TEE-M'', va_barcode = None,
     va_option_values = [''M''], va_regular_price = 15000000, va_sale_price = Some 12000000,
     va_sale_starts_at = Some 50, va_sale_ends_at = Some 500, va_currency = ''IDR'', va_weight_grams = 200,
     va_archived_at = None, va_version = 1, va_created_at = 0, va_updated_at = 0\<rparr>"

definition sample_settings :: storefront_setting where
  "sample_settings = \<lparr>st_tenant = 1, st_contact_email = None, st_google_client_id = None,
     st_origin_postal_code = Some ''12345'', st_shipping_couriers = [''jne''], st_bank_transfer_enabled = True,
     st_bank_transfer_instructions = None, st_midtrans_enabled = True,
     st_midtrans_environment = Some ''sandbox'', st_midtrans_client_key = Some ''ck'',
     st_midtrans_server_key = Some ''sealed'', st_midtrans_webhook_id = 70, st_updated_at = 0, st_logo_key = None, st_whatsapp = None, st_tagline = None, st_brand_color = None, st_instagram = None, st_theme = ''katalog'',
     st_hero_key = None, st_address = None, st_opening_hours = None, st_shopee_url = None, st_tokopedia_url = None\<rparr>"

definition shop_db :: db where
  "shop_db = sample_db\<lparr>tenants := [sample_tenant_row], products := [sample_product],
     variants := [sample_variant], settings := [sample_settings], sequences := [(1, 2)]\<rparr>"

definition shop_world :: world where
  "shop_world = \<lparr>w_db = shop_db, w_mail = []\<rparr>"

definition sample_option :: ship_option where
  "sample_option = \<lparr>so_courier = ''jne'', so_service = ''reg'', so_courier_name = ''JNE'',
     so_service_name = ''Reguler'', so_price = 1000000, so_duration = ''2 - 3 days''\<rparr>"

definition sample_rates :: rates where
  "sample_rates = Some (\<lambda>t r. Inr [sample_option])"

definition sample_ids :: "nat \<Rightarrow> uuid" where
  "sample_ids k = 100 + k"

definition sample_input :: create_input where
  "sample_input = \<lparr>cin_customer = ''{}'', cin_shipping_address = ''{}'',
     cin_lines = [\<lparr>li_variant = 60, li_qty = 2, li_discount = 500000\<rparr>], cin_shipping = 0, cin_note = None,
     cin_option = Some \<lparr>sc_courier = ''jne'', sc_service = ''reg''\<rparr>, cin_destination = ''40111''\<rparr>"

theorem manual_order_adds_up_witness:
  "\<exists>oid w' ord. create_op sample_rates sample_mailer sample_ids sample_ctx sample_input shop_world = (Inr oid, w') \<and>
     ord \<in> set (orders (w_db w')) \<and> or_id ord = oid \<and> or_subtotal ord = 24000000 \<and> or_status ord = S_pending"
proof -
  have "\<not> (case fst (create_op sample_rates sample_mailer sample_ids sample_ctx sample_input shop_world) of
      Inl _ \<Rightarrow> True | Inr _ \<Rightarrow> False)"
    by code_simp
  then obtain oid w' where r: "create_op sample_rates sample_mailer sample_ids sample_ctx sample_input shop_world = (Inr oid, w')"
    by (metis prod.collapse sum.case_eq_if sum.collapse(2))
  have hyps: "prices_ok sample_ctx (w_db shop_world)"
    "\<forall>l \<in> set (cin_lines sample_input). 1 \<le> li_qty l \<and> is_i32 (li_qty l) \<and> 0 \<le> li_discount l"
    "goods_value sample_ctx (w_db shop_world) (cin_lines sample_input) < 2 ^ 63"
    by code_simp+
  have val: "goods_value sample_ctx (w_db shop_world) (cin_lines sample_input) = 24000000"
    by code_simp
  obtain ord where "orders (w_db w') = orders (w_db shop_world) @ [ord]" "or_id ord = oid"
    "or_subtotal ord = 24000000" "or_status ord = S_pending"
    using manual_order_adds_up [OF sample_tenant(1) r hyps] val by auto
  with r show ?thesis
    by (intro exI [of _ oid] exI [of _ w'] exI [of _ ord]) simp
qed

theorem order_numbers_consecutive_witness:
  "\<exists>new. orders (w_db (run_creates sample_rates sample_mailer
       [(sample_ids, sample_ctx, sample_input), (\<lambda>k. 120 + k, sample_ctx, sample_input)] shop_world)) =
       orders shop_db @ new \<and>
     map or_number (rows_of or_tenant 1 new) = [''ERG-000003'', ''ERG-000004'']"
proof -
  define w' where "w' = run_creates sample_rates sample_mailer
       [(sample_ids, sample_ctx, sample_input), (\<lambda>k. 120 + k, sample_ctx, sample_input)] shop_world"
  have seq: "sequence_of 1 (w_db shop_world) = 2" "prefix_of 1 (w_db shop_world) = ''ERG''"
    and len: "length (rows_of or_tenant 1 (orders (w_db w'))) = 2 + length (rows_of or_tenant 1 (orders (w_db shop_world)))"
    and nums: "map (order_number ''ERG'') [3 .. 4] = [''ERG-000003'', ''ERG-000004'']"
    unfolding w'_def by code_simp+
  have "0 \<le> sequence_of 1 (w_db shop_world)"
    using seq by simp
  from order_numbers_consecutive [OF this] obtain new
    where new: "orders (w_db w') = orders (w_db shop_world) @ new"
    and num: "map or_number (rows_of or_tenant 1 new) = map (order_number ''ERG'') [2 + 1 .. 2 + int (length (rows_of or_tenant 1 new))]"
    unfolding w'_def seq by blast
  have "length (rows_of or_tenant 1 new) = 2"
    using new len by (simp add: rows_of_def)
  then show ?thesis
    using new num nums unfolding w'_def [symmetric] by (auto simp: shop_world_def)
qed

text \<open>
  Without the bound on quantities the stored lines do not add up: the quantity is checked and
  priced as a 64-bit \<open>int\<close> and stored as an \<open>int32\<close>. An order of 4294967297 pieces is charged for
  all of them and stores one.
\<close>

definition huge_input :: create_input where
  "huge_input = sample_input\<lparr>cin_lines := [\<lparr>li_variant = 60, li_qty = 4294967297, li_discount = 0\<rparr>]\<rparr>"

lemma huge_quantity_truncated:
  "case create_op sample_rates sample_mailer sample_ids sample_ctx huge_input shop_world of
     (Inl _, _) \<Rightarrow> False
   | (Inr oid, w') \<Rightarrow> map ol_qty (order_lines (w_db w')) = [1] \<and>
       map or_subtotal (filter (\<lambda>r. or_id r = oid) (orders (w_db w'))) = [12000000 * 4294967297]"
  by code_simp

end
