(* ===== verification/Carts.thy ===== *)
theory Carts
  imports OrderCreate
begin

text \<open>
  The storefront's server-side cart (internal/carts/carts.go): create, read, set an item. A cart
  stores quantities and never prices; what it answers is priced at the time of the call. The
  images of the variants come from the media tables, which the model does not hold, so the answer
  of the \<open>CartImages\<close> query is a parameter.
\<close>

record cart_view_item =
  vi_variant :: uuid
  vi_sku :: "string option"
  vi_title :: string
  vi_slug :: string
  vi_option_values :: "string list"
  vi_qty :: int
  vi_unit_price :: "int option"
  vi_line_total :: "int option"
  vi_image :: "string option"
  vi_available :: bool

record cart_view =
  vw_id :: uuid
  vw_items :: "cart_view_item list"
  vw_item_count :: int
  vw_subtotal :: int
  vw_expires_at :: instant

type_synonym image_map = "uuid \<Rightarrow> string option"

definition cart_title :: "string \<Rightarrow> string list \<Rightarrow> string" where
  "cart_title product option_values =
    (if option_values = [] then product else product @ em_dash @ join '' / '' option_values)"

definition err_cart_qty :: err where
  "err_cart_qty = field_error ''qty'' ''qty is 0 to 999; 0 removes the item''"

definition err_not_for_sale :: err where
  "err_not_for_sale = field_error ''variant_id'' ''This variant is not for sale.''"

text \<open>\<open>open\<close>: a missing, expired or checked-out cart is one 404.\<close>

definition is_open :: "ctx \<Rightarrow> cart \<Rightarrow> bool" where
  "is_open c row \<longleftrightarrow> ca_status row = S_open \<and> c_clock c < ca_expires_at row"

definition open_cart :: "ctx \<Rightarrow> cart stmt \<Rightarrow> cart stmt" where
  "open_cart c m =
    bindT (mapErrT (\<lambda>e. if err_is e NoRows then err_no_cart else e) m) (\<lambda>row.
    if is_open c row then retT row else failT err_no_cart)"

definition claim :: "ctx \<Rightarrow> uuid \<Rightarrow> uuid option \<Rightarrow> unit stmt" where
  "claim c cid customer = (case customer of None \<Rightarrow> retT () | Some cu \<Rightarrow> claim_cart c cid cu)"

definition view_item :: "image_map \<Rightarrow> cart_line_row \<Rightarrow> cart_view_item" where
  "view_item img l =
    (let available = cv_available l = Some True \<and> cv_price l \<noteq> None
     in \<lparr>vi_variant = cv_variant l, vi_sku = cv_sku l, vi_title = cart_title (cv_product_title l) (cv_option_values l),
       vi_slug = cv_product_slug l, vi_option_values = cv_option_values l, vi_qty = cv_qty l,
       vi_unit_price = (if available then cv_price l else None),
       vi_line_total = (if available then map_option (\<lambda>p. wrap64 (p * cv_qty l)) (cv_price l) else None),
       vi_image = img (cv_variant l), vi_available = available\<rparr>)"

definition cart_subtotal :: "cart_view_item list \<Rightarrow> int" where
  "cart_subtotal items = sum64 (List.map_filter vi_line_total items)"

definition priced :: "image_map \<Rightarrow> ctx \<Rightarrow> cart \<Rightarrow> cart_view stmt" where
  "priced img c row =
    bindT (cart_lines c (ca_id row)) (\<lambda>ls.
    let items = map (view_item img) ls
    in retT \<lparr>vw_id = ca_id row, vw_items = items, vw_item_count = sum64 (map vi_qty items),
         vw_subtotal = cart_subtotal items, vw_expires_at = ca_expires_at row\<rparr>)"

definition cart_create_op :: "uuid \<Rightarrow> ctx \<Rightarrow> uuid option \<Rightarrow> db \<Rightarrow> (err + cart_view) \<times> db" where
  "cart_create_op cid c customer = in_tenant_tx c
    (bindT (create_cart c cid customer) (\<lambda>row.
     retT \<lparr>vw_id = ca_id row, vw_items = [], vw_item_count = 0, vw_subtotal = 0,
       vw_expires_at = ca_expires_at row\<rparr>))"

definition cart_get :: "image_map \<Rightarrow> ctx \<Rightarrow> uuid \<Rightarrow> uuid option \<Rightarrow> cart_view stmt" where
  "cart_get img c cid customer =
    bindT (open_cart c (lock_cart c cid)) (\<lambda>row.
    thenT (claim c cid customer)
    (priced img c row))"

definition set_item :: "image_map \<Rightarrow> ctx \<Rightarrow> uuid \<Rightarrow> uuid \<Rightarrow> int \<Rightarrow> uuid option \<Rightarrow> cart_view stmt" where
  "set_item img c cid vid qty customer =
    bindT (open_cart c (lock_cart c cid)) (\<lambda>row.
    thenT (claim c cid customer)
    (thenT (if qty = 0 then delete_cart_item c cid vid
            else bindT (variant_visible c vid) (\<lambda>visible.
              if \<not> visible then failT err_not_for_sale else set_cart_item c cid vid (wrap32 qty)))
    (thenT (touch_cart c cid)
    (bindT (lock_cart c cid) (priced img c)))))"

definition cart_get_op :: "image_map \<Rightarrow> ctx \<Rightarrow> uuid \<Rightarrow> uuid option \<Rightarrow> db \<Rightarrow> (err + cart_view) \<times> db" where
  "cart_get_op img c cid customer = in_tenant_tx c (cart_get img c cid customer)"

definition set_item_op ::
  "image_map \<Rightarrow> ctx \<Rightarrow> uuid \<Rightarrow> uuid \<Rightarrow> int \<Rightarrow> uuid option \<Rightarrow> db \<Rightarrow> (err + cart_view) \<times> db" where
  "set_item_op img c cid vid qty customer s =
    (if qty < 0 \<or> 999 < qty then (Inl err_cart_qty, s)
     else in_tenant_tx c (set_item img c cid vid qty customer) s)"

section \<open>Isolation\<close>

lemma open_cart_isolated [isolation]: "within (isolated t) m \<Longrightarrow> within (isolated t) (open_cart c m)"
  unfolding open_cart_def by (intro iso.rules) simp_all

lemma claim_isolated [isolation]: "tenant_of c = t \<Longrightarrow> within (isolated t) (claim c cid cu)"
  unfolding claim_def by (intro iso.rules isolation)

lemma priced_isolated [isolation]: "within (isolated t) (priced img c row)"
  unfolding priced_def Let_def by (intro iso.rules isolation)

lemma cart_get_isolated [isolation]: "tenant_of c = t \<Longrightarrow> within (isolated t) (cart_get img c cid cu)"
  unfolding cart_get_def by (intro iso.rules isolation)

lemma set_item_isolated [isolation]: "tenant_of c = t \<Longrightarrow> within (isolated t) (set_item img c cid vid qty cu)"
  unfolding set_item_def by (intro iso.rules isolation)

section \<open>What the cart holds\<close>

text \<open>The quantity a cart holds of a variant; 0 when it is not in it.\<close>

definition qty_in :: "uuid \<Rightarrow> uuid \<Rightarrow> uuid \<Rightarrow> db \<Rightarrow> int" where
  "qty_in t cid vid s = (case find (item_at t cid vid) (cart_items s) of None \<Rightarrow> 0 | Some i \<Rightarrow> ci_qty i)"

text \<open>One item per variant, with a quantity of 1 to 999.\<close>

definition item_key :: "cart_item \<Rightarrow> uuid \<times> uuid \<times> uuid" where
  "item_key i = (ci_tenant i, ci_cart i, ci_variant i)"

definition good_items :: "cart_item list \<Rightarrow> bool" where
  "good_items xs \<longleftrightarrow> distinct (map item_key xs) \<and> (\<forall>i \<in> set xs. 1 \<le> ci_qty i \<and> ci_qty i \<le> 999)"

definition set_qty :: "ctx \<Rightarrow> uuid \<Rightarrow> uuid \<Rightarrow> int \<Rightarrow> cart_item list \<Rightarrow> cart_item list" where
  "set_qty c cid vid qty xs =
    (let k = (tenant_of c, cid, vid) in
     if qty = 0 then filter (\<lambda>i. item_key i \<noteq> k) xs
     else if k \<in> item_key ` set xs then map (\<lambda>i. if item_key i = k then i\<lparr>ci_qty := qty\<rparr> else i) xs
     else xs @ [\<lparr>ci_tenant = tenant_of c, ci_cart = cid, ci_variant = vid, ci_qty = qty, ci_added_at = c_now c\<rparr>])"

lemma item_at_key: "item_at t cid vid = (\<lambda>i. item_key i = (t, cid, vid))"
  by (auto simp: item_at_def item_key_def fun_eq_iff)

lemma item_key_upd [simp]: "item_key (i\<lparr>ci_qty := q\<rparr>) = item_key i"
  by (simp add: item_key_def)

lemma item_key_new [simp]:
  "item_key \<lparr>ci_tenant = t, ci_cart = cid, ci_variant = vid, ci_qty = q, ci_added_at = a\<rparr> = (t, cid, vid)"
  by (simp add: item_key_def)

lemma keys_upd: "map item_key (map (\<lambda>i. if item_key i = k then i\<lparr>ci_qty := q\<rparr> else i) xs) = map item_key xs"
  by simp

lemma set_qty_good:
  assumes "good_items xs" and "0 \<le> qty" and "qty \<le> 999"
  shows "good_items (set_qty c cid vid qty xs)"
proof -
  consider (del) "qty = 0" | (upd) "qty \<noteq> 0" "(tenant_of c, cid, vid) \<in> item_key ` set xs"
    | (add) "qty \<noteq> 0" "(tenant_of c, cid, vid) \<notin> item_key ` set xs"
    by blast
  then show ?thesis
  proof cases
    case del
    then show ?thesis
      using assms by (simp add: set_qty_def good_items_def distinct_map_filter)
  next
    case upd
    then have "set_qty c cid vid qty xs = map (\<lambda>i. if item_key i = (tenant_of c, cid, vid) then i\<lparr>ci_qty := qty\<rparr> else i) xs"
      by (simp add: set_qty_def)
    then show ?thesis
      using assms upd(1) unfolding good_items_def by (simp only: keys_upd) auto
  next
    case add
    then show ?thesis
      using assms by (auto simp: set_qty_def good_items_def)
  qed
qed

lemma find_append: "find P (xs @ ys) = (case find P xs of None \<Rightarrow> find P ys | Some x \<Rightarrow> Some x)"
  by (induction xs) auto

lemma find_filter_key: "find (\<lambda>i. key i = k') (filter (\<lambda>i. key i \<noteq> k) xs) =
    (if k' = k then None else find (\<lambda>i. key i = k') xs)"
  by (induction xs) auto

lemma find_upd_key: "find (\<lambda>i. item_key i = k') (map (\<lambda>i. if item_key i = k then i\<lparr>ci_qty := q\<rparr> else i) xs) =
    (if k' = k then map_option (\<lambda>i. i\<lparr>ci_qty := q\<rparr>) (find (\<lambda>i. item_key i = k) xs)
     else find (\<lambda>i. item_key i = k') xs)"
  by (induction xs) auto

lemma find_key_None: "find (\<lambda>i. key i = k) xs = None \<longleftrightarrow> k \<notin> key ` set xs"
  by (auto simp: find_None_iff)

definition qty_at :: "uuid \<times> uuid \<times> uuid \<Rightarrow> cart_item list \<Rightarrow> int" where
  "qty_at k xs = (case find (\<lambda>i. item_key i = k) xs of None \<Rightarrow> 0 | Some i \<Rightarrow> ci_qty i)"

lemma qty_in_at: "qty_in t cid vid s = qty_at (t, cid, vid) (cart_items s)"
  by (simp add: qty_in_def qty_at_def item_at_key)

lemma qty_after_set:
  "qty_at k (set_qty c cid vid qty xs) = (if k = (tenant_of c, cid, vid) then qty else qty_at k xs)"
proof -
  consider (del) "qty = 0" | (upd) "qty \<noteq> 0" "(tenant_of c, cid, vid) \<in> item_key ` set xs"
    | (add) "qty \<noteq> 0" "(tenant_of c, cid, vid) \<notin> item_key ` set xs"
    by blast
  then show ?thesis
  proof cases
    case del
    then show ?thesis by (simp add: set_qty_def qty_at_def find_filter_key)
  next
    case upd
    then have "find (\<lambda>i. item_key i = (tenant_of c, cid, vid)) xs \<noteq> None"
      using find_key_None by metis
    then show ?thesis
      using upd by (auto simp: set_qty_def qty_at_def find_upd_key)
  next
    case add
    then have "find (\<lambda>i. item_key i = (tenant_of c, cid, vid)) xs = None"
      using find_key_None by metis
    then show ?thesis
      using add by (auto simp: set_qty_def qty_at_def find_append split: option.splits)
  qed
qed

section \<open>What a set does\<close>

lemma get_cart_upd: "keeps_key ca_tenant ca_id f \<Longrightarrow>
    get_cart t' cid' (upd_cart t cid f s) =
      (if (t', cid') = (t, cid) then map_option f (get_cart t cid s) else get_cart t' cid' s)"
  by (simp add: get_cart_def upd_cart_def rows.get_same rows.get_other)

lemma upd_cart_frame [simp]:
  "cart_items (upd_cart t cid f s) = cart_items s" "variants (upd_cart t cid f s) = variants s"
  "products (upd_cart t cid f s) = products s" "orders (upd_cart t cid f s) = orders s"
  "payments (upd_cart t cid f s) = payments s" "order_lines (upd_cart t cid f s) = order_lines s"
  "sequences (upd_cart t cid f s) = sequences s" "tenants (upd_cart t cid f s) = tenants s"
  by (simp_all add: upd_cart_def)

lemma open_cart_Inr: "open_cart c (lock_cart c cid) s = Inr (row, s') \<longleftrightarrow>
    s' = s \<and> get_cart (tenant_of c) cid s = Some row \<and> is_open c row"
  by (auto simp: open_cart_def lock_cart_def bindT_Inr)

definition owned_by :: "uuid option \<Rightarrow> cart \<Rightarrow> cart" where
  "owned_by customer row = (case customer of None \<Rightarrow> row
     | Some cu \<Rightarrow> if ca_customer row = None \<and> ca_status row = S_open then row\<lparr>ca_customer := Some cu\<rparr> else row)"

definition touched :: "ctx \<Rightarrow> cart \<Rightarrow> cart" where
  "touched c row = row\<lparr>ca_expires_at := c_now c + hours (30 * 24), ca_updated_at := c_now c\<rparr>"

lemma cart_writes_keep [simp]: "keeps_key ca_tenant ca_id (owned_by cu)" "keeps_key ca_tenant ca_id (touched c)"
  by (auto simp: keeps_key_def owned_by_def touched_def split: option.splits)

lemma row_upd_id: "row_upd ten key t k (\<lambda>r. r) rows = rows"
  by (simp add: row_upd_def)

lemma owned_by_None: "owned_by None = (\<lambda>row. row)"
  by (simp add: owned_by_def fun_eq_iff)

lemma owned_by_Some: "owned_by (Some cu) =
    (\<lambda>row. if ca_customer row = None \<and> ca_status row = S_open then row\<lparr>ca_customer := Some cu\<rparr> else row)"
  by (simp add: owned_by_def fun_eq_iff)

lemma claim_Inr: "claim c cid cu s = Inr (u, s') \<Longrightarrow> s' = upd_cart (tenant_of c) cid (owned_by cu) s"
  by (cases cu) (auto simp: claim_def claim_cart_def tx_inr owned_by_None owned_by_Some upd_cart_def row_upd_id)

lemma get_cart_items [simp]: "get_cart t cid (s\<lparr>cart_items := x\<rparr>) = get_cart t cid s"
  by (simp add: get_cart_def)

lemma touch_Inr [simp]: "touch_cart c cid s = Inr (u, s') \<longleftrightarrow> s' = upd_cart (tenant_of c) cid (touched c) s"
  by (simp add: touch_cart_def touched_def [abs_def])

lemma set_qty_delete: "row_del ci_tenant (\<lambda>i. ci_cart i = cid \<and> ci_variant i = vid) (tenant_of c) xs = set_qty c cid vid 0 xs"
  by (auto simp: row_del_def set_qty_def item_key_def intro!: filter_cong)

lemma list_ex_key: "list_ex (\<lambda>i. item_key i = k) xs \<longleftrightarrow> k \<in> item_key ` set xs"
  by (auto simp: list_ex_iff)

lemma set_cart_item_Inr: "set_cart_item c cid vid qty s = Inr (u, s') \<Longrightarrow>
    1 \<le> qty \<and> qty \<le> 999 \<and> s' = s\<lparr>cart_items := set_qty c cid vid qty (cart_items s)\<rparr>"
  by (simp add: set_cart_item_def tx_inr set_qty_def item_at_key list_ex_key Let_def split: if_splits)

lemma write_items_Inr:
  assumes "(if qty = 0 then delete_cart_item c cid vid
      else bindT (variant_visible c vid) (\<lambda>visible.
        if \<not> visible then failT err_not_for_sale else set_cart_item c cid vid (wrap32 qty))) s = Inr (u, s')"
    and "0 \<le> qty" and "qty \<le> 999"
  shows "(qty \<noteq> 0 \<longrightarrow> storefront_variant (tenant_of c) vid s \<noteq> None) \<and>
    s' = s\<lparr>cart_items := set_qty c cid vid qty (cart_items s)\<rparr>"
proof -
  have "wrap32 qty = qty"
    using assms(2,3) by (intro wrap32_id) (simp add: is_i32_def)
  then show ?thesis
    using assms(1)
    by (auto simp: delete_cart_item_def set_qty_delete variant_visible_def bindT_Inr
        split: if_splits dest: set_cart_item_Inr)
qed

lemma storefront_variant_cong: "variants s' = variants s \<Longrightarrow> products s' = products s \<Longrightarrow>
    storefront_variant t vid s' = storefront_variant t vid s"
  by (simp add: storefront_variant_def get_variant_row_def get_product_row_def cong: option.case_cong)

definition cart_view_of :: "image_map \<Rightarrow> ctx \<Rightarrow> cart \<Rightarrow> db \<Rightarrow> cart_view" where
  "cart_view_of img c row s = (case priced img c row s of Inr (v, _) \<Rightarrow> v)"

lemma priced_Inr: "priced img c row s = Inr (v, s') \<longleftrightarrow> s' = s \<and> v = cart_view_of img c row s"
  by (auto simp: cart_view_of_def priced_def cart_lines_def bindT_def readT_def retT_def Let_def)

lemma set_item_Inr:
  assumes "set_item img c cid vid qty cu s = Inr (v, s')" and "0 \<le> qty" and "qty \<le> 999"
  obtains row where "get_cart (tenant_of c) cid s = Some row" "is_open c row"
    "get_cart (tenant_of c) cid s' = Some (touched c (owned_by cu row))"
    "qty \<noteq> 0 \<longrightarrow> storefront_variant (tenant_of c) vid s \<noteq> None"
    "cart_items s' = set_qty c cid vid qty (cart_items s)"
    "v = cart_view_of img c (touched c (owned_by cu row)) s'"
    "variants s' = variants s" "products s' = products s" "orders s' = orders s"
    "\<forall>cid'. cid' = cid \<or> get_cart (tenant_of c) cid' s' = get_cart (tenant_of c) cid' s"
proof -
  let ?t = "tenant_of c"
  obtain row u1 s1 u2 s2 s3 r where row: "get_cart ?t cid s = Some row" "is_open c row"
    and s1: "claim c cid cu s = Inr (u1, s1)"
    and s2: "(if qty = 0 then delete_cart_item c cid vid
      else bindT (variant_visible c vid) (\<lambda>visible.
        if \<not> visible then failT err_not_for_sale else set_cart_item c cid vid (wrap32 qty))) s1 = Inr (u2, s2)"
    and s3: "s3 = upd_cart ?t cid (touched c) s2" and r: "lock_cart c cid s3 = Inr (r, s3)"
    and v: "s' = s3" "v = cart_view_of img c r s3"
    using assms(1) unfolding set_item_def bindT_Inr thenT_Inr open_cart_Inr priced_Inr touch_Inr
    by (auto simp: lock_cart_def)
  note c1 = claim_Inr [OF s1]
  have c2: "(qty \<noteq> 0 \<longrightarrow> storefront_variant ?t vid s1 \<noteq> None) \<and> s2 = s1\<lparr>cart_items := set_qty c cid vid qty (cart_items s1)\<rparr>"
    by (rule write_items_Inr [OF s2 assms(2,3)])
  have g2: "get_cart t' k s2 = get_cart t' k s1" for t' k
    using c2 by (simp add: get_cart_def)
  have "r = touched c (owned_by cu row)"
    using r row by (simp add: lock_cart_def s3 get_cart_upd g2 c1)
  moreover have "storefront_variant ?t vid s1 = storefront_variant ?t vid s"
    by (rule storefront_variant_cong) (simp_all add: c1)
  ultimately show thesis
    using row c2 v r
    by (intro that [of row]) (auto simp: s3 get_cart_upd g2 c1)
qed

section \<open>Properties of the cart\<close>

definition open_at :: "ctx \<Rightarrow> uuid \<Rightarrow> uuid \<Rightarrow> db \<Rightarrow> bool" where
  "open_at c t cid s = (case get_cart t cid s of None \<Rightarrow> False | Some row \<Rightarrow> is_open c row)"

text \<open>Setting an item does exactly that (BR-080, BR-087, BR-095): it succeeds only on an open,
  unexpired cart, with a quantity of 0 to 999 and, unless it removes, a variant that is for sale; after
  it the cart holds exactly the quantity asked for, every other quantity of every cart is
  unchanged, there is still at most one item per variant with 1 to 999 pieces, and a cart that had
  an owner keeps it.\<close>

theorem cart_set_item_exact:
  assumes "c_tenant c = Some t" and "set_item_op img c cid vid qty cu s = (Inr v, s')"
    and "good_items (cart_items s)"
  shows "open_at c t cid s \<and> 0 \<le> qty \<and> qty \<le> 999 \<and> (qty \<noteq> 0 \<longrightarrow> storefront_variant t vid s \<noteq> None) \<and>
    good_items (cart_items s') \<and>
    (\<forall>t' cid' vid'. qty_in t' cid' vid' s' =
       (if (t', cid', vid') = (t, cid, vid) then qty else qty_in t' cid' vid' s)) \<and>
    (\<forall>row row'. get_cart t cid s = Some row \<and> get_cart t cid s' = Some row' \<longrightarrow>
       ca_customer row' = (if ca_customer row = None then cu else ca_customer row))"
proof -
  have t: "tenant_of c = t"
    using assms(1) by (simp add: tenant_of_def)
  have q: "0 \<le> qty" "qty \<le> 999" and si: "set_item img c cid vid qty cu s = Inr (v, s')"
    using assms(1,2) by (auto simp: set_item_op_def in_tenant_tx_Inr split: if_splits)
  from si q show ?thesis
  proof (elim set_item_Inr)
    fix row
    assume "get_cart (tenant_of c) cid s = Some row" "is_open c row"
      "get_cart (tenant_of c) cid s' = Some (touched c (owned_by cu row))"
      "qty \<noteq> 0 \<longrightarrow> storefront_variant (tenant_of c) vid s \<noteq> None"
      "cart_items s' = set_qty c cid vid qty (cart_items s)"
    then show ?thesis
      using q t assms(3) set_qty_good
      by (auto simp: open_at_def qty_in_at qty_after_set owned_by_def touched_def is_open_def
          split: option.splits)
  qed
qed

text \<open>A cart that is not open to the shopper is one 404 whatever they ask (a missing cart,
  another tenant's, an expired one, one already checked out), and changes nothing.\<close>

theorem cart_closed_is_404:
  assumes "c_tenant c = Some t" and "\<not> open_at c t cid s"
  shows "cart_get_op img c cid cu s = (Inl err_no_cart, s) \<and> e_status err_no_cart = 404 \<and>
    (0 \<le> qty \<and> qty \<le> 999 \<longrightarrow> set_item_op img c cid vid qty cu s = (Inl err_no_cart, s)) \<and>
    cart_rates_op rates c cid dest s = (Inl err_no_cart, s)"
proof -
  have t: "tenant_of c = t"
    using assms(1) by (simp add: tenant_of_def)
  have closed: "open_cart c (lock_cart c cid) s = Inl err_no_cart"
    using assms(2) t
    by (auto simp: open_cart_def lock_cart_def open_at_def bindT_def mapErrT_def oneT_def failT_def split: option.splits)
  have "cart_rates rates c cid dest s = Inl err_no_cart"
    using assms(2) t
    by (auto simp: cart_rates_def lock_cart_def open_at_def is_open_def bindT_def mapErrT_def oneT_def failT_def
        split: option.splits)
  moreover have "cart_get img c cid cu s = Inl err_no_cart" "set_item img c cid vid qty cu s = Inl err_no_cart"
    unfolding cart_get_def set_item_def bindT_Inl by (simp_all add: closed)
  ultimately show ?thesis
    using assms(1)
    by (simp add: cart_get_op_def set_item_op_def cart_rates_op_def in_tenant_tx_def run_tx_def
        err_no_cart_def status_of)
qed

lemma wrap64_sum: "wrap64 (sum_list (map wrap64 xs)) = wrap64 (sum_list xs)"
proof (induction xs)
  case Nil
  then show ?case by simp
next
  case (Cons x xs)
  have "wrap64 (wrap64 x + sum_list (map wrap64 xs)) = wrap64 (x + wrap64 (sum_list (map wrap64 xs)))"
    by (simp add: wrap64_add) (metis add.commute wrap64_add)
  then show ?case
    using Cons.IH by simp (metis add.commute wrap64_add)
qed

lemma storefront_variant_label: "storefront_variant t vid s = Some v \<Longrightarrow>
    \<exists>l. variant_label t vid s = Some l \<and> lb_available l = Some True"
  by (auto simp: storefront_variant_def variant_label_def split: option.splits if_splits)

lemma variant_label_available: "variant_label t vid s = Some l \<Longrightarrow>
    lb_available l = Some (storefront_variant t vid s \<noteq> None)"
  by (auto simp: storefront_variant_def variant_label_def split: option.splits if_splits)

lemma cart_line_shown: "cart_line_of now t s i = Some l \<Longrightarrow>
    cv_variant l = ci_variant i \<and> cv_qty l = ci_qty i \<and>
    cv_available l = Some (storefront_variant t (ci_variant i) s \<noteq> None) \<and>
    cv_price l = map_option (variant_price now) (storefront_variant t (ci_variant i) s)"
  by (auto simp: cart_line_of_def variant_label_available split: option.splits)

lemma cart_get_Inr: "cart_get img c cid cu s = Inr (v, s') \<Longrightarrow>
    \<exists>row. get_cart (tenant_of c) cid s = Some row \<and> is_open c row \<and>
      s' = upd_cart (tenant_of c) cid (owned_by cu) s \<and> v = cart_view_of img c row s'"
  by (auto simp: cart_get_def bindT_Inr thenT_Inr open_cart_Inr priced_Inr dest: claim_Inr)

definition shown_price :: "ctx \<Rightarrow> uuid \<Rightarrow> db \<Rightarrow> cart_view_item \<Rightarrow> int option" where
  "shown_price c t s it = map_option (variant_price (c_now c)) (storefront_variant t (vi_variant it) s)"

lemma view_item_price:
  assumes "cart_line_of (c_now c) t s i = Some l"
  shows "vi_unit_price (view_item img l) = shown_price c t s (view_item img l) \<and>
    vi_available (view_item img l) = (shown_price c t s (view_item img l) \<noteq> None) \<and>
    vi_line_total (view_item img l) = map_option (\<lambda>p. wrap64 (p * vi_qty (view_item img l))) (vi_unit_price (view_item img l))"
  using cart_line_shown [OF assms]
  by (auto simp: view_item_def shown_price_def Let_def)

lemma subtotal_of_items:
  assumes "\<forall>it \<in> set items. vi_line_total it = map_option (\<lambda>p. wrap64 (p * vi_qty it)) (vi_unit_price it)"
  shows "cart_subtotal items =
    wrap64 (sum_list (map (\<lambda>it. case vi_unit_price it of None \<Rightarrow> 0 | Some p \<Rightarrow> p * vi_qty it) items))"
proof -
  have "List.map_filter vi_line_total items = map wrap64 (List.map_filter (\<lambda>it. map_option (\<lambda>p. p * vi_qty it) (vi_unit_price it)) items)"
    using assms by (induction items) (auto simp: map_filter_simps split: option.splits)
  moreover have "sum_list (List.map_filter (\<lambda>it. map_option (\<lambda>p. p * vi_qty it) (vi_unit_price it)) items)
      = sum_list (map (\<lambda>it. case vi_unit_price it of None \<Rightarrow> 0 | Some p \<Rightarrow> p * vi_qty it) items)"
    by (induction items) (auto simp: map_filter_simps split: option.splits)
  ultimately show ?thesis
    by (simp add: cart_subtotal_def sum64_wrap wrap64_sum)
qed

text \<open>A cart stores no prices (BR-046, BR-081, BR-090): what a read answers is each variant's price
  now, for exactly the items whose variant the storefront shows now, and the subtotal is the sum
  of price times quantity over those, whatever the prices were when the items were added.\<close>

theorem cart_priced_now:
  assumes "c_tenant c = Some t" and "cart_get_op img c cid cu s = (Inr v, s')"
    and "good_items (cart_items s)"
  shows "(\<forall>it \<in> set (vw_items v). vi_unit_price it = shown_price c t s it \<and>
      vi_available it = (shown_price c t s it \<noteq> None) \<and> vi_qty it = qty_in t cid (vi_variant it) s) \<and>
    vw_subtotal v = wrap64 (sum_list (map (\<lambda>it. case shown_price c t s it of None \<Rightarrow> 0 | Some p \<Rightarrow> p * vi_qty it) (vw_items v)))"
proof -
  have t: "tenant_of c = t"
    using assms(1) by (simp add: tenant_of_def)
  obtain row where row: "get_cart t cid s = Some row" "s' = upd_cart t cid (owned_by cu) s"
      "v = cart_view_of img c row s'"
    using assms t by (auto simp: cart_get_op_def in_tenant_tx_Inr dest!: cart_get_Inr)
  have id: "ca_id row = cid"
    using row(1) by (auto simp: get_cart_def dest: row_get_Some)
  define ls where "ls = List.map_filter (cart_line_of (c_now c) t s')
     (sort_key (\<lambda>i. (ci_added_at i, ci_variant i)) (filter (\<lambda>i. ci_tenant i = t \<and> ci_cart i = cid) (cart_items s')))"
  have v: "vw_items v = map (view_item img) ls" "vw_subtotal v = cart_subtotal (vw_items v)"
    using row(3) t id by (simp_all add: cart_view_of_def priced_def cart_lines_def bindT_def readT_def retT_def Let_def ls_def)
  have same: "shown_price c t s' it = shown_price c t s it" for it
    unfolding shown_price_def by (subst storefront_variant_cong [of s' s]) (simp_all add: row(2))
  have items: "cart_items s' = cart_items s"
    by (simp add: row(2))
  have item: "\<exists>i l. it = view_item img l \<and> cart_line_of (c_now c) t s' i = Some l \<and> i \<in> set (cart_items s) \<and>
      ci_tenant i = t \<and> ci_cart i = cid" if "it \<in> set (vw_items v)" for it
    using that unfolding v ls_def by (fastforce simp: map_filter_def items)
  have facts: "vi_unit_price it = shown_price c t s it \<and> vi_available it = (shown_price c t s it \<noteq> None) \<and>
      vi_line_total it = map_option (\<lambda>p. wrap64 (p * vi_qty it)) (vi_unit_price it)" if "it \<in> set (vw_items v)" for it
    using item [OF that] view_item_price [of c t s' _ _ img] same by metis
  have qty: "vi_qty it = qty_in t cid (vi_variant it) s" if it: "it \<in> set (vw_items v)" for it
  proof -
    obtain i l where i: "it = view_item img l" "cart_line_of (c_now c) t s' i = Some l" "i \<in> set (cart_items s)"
      "ci_tenant i = t" "ci_cart i = cid"
      using item [OF it] by blast
    then have k: "item_key i = (t, cid, vi_variant it)" "vi_qty it = ci_qty i"
      using cart_line_shown [of "c_now c" t s' i l] by (simp_all add: view_item_def item_key_def Let_def)
    obtain j where j: "find (\<lambda>i. item_key i = (t, cid, vi_variant it)) (cart_items s) = Some j"
      using k(1) i(3) find_key_None [of item_key "(t, cid, vi_variant it)" "cart_items s"] by (metis image_eqI option.exhaust)
    then have "j \<in> set (cart_items s)" "item_key j = item_key i"
      using k(1) by (auto simp: find_Some_iff)
    then have "j = i"
      using assms(3) i(3) by (auto simp: good_items_def distinct_map inj_on_def)
    then show ?thesis
      using j k(2) by (simp add: qty_in_at qty_at_def)
  qed
  have "vw_subtotal v = wrap64 (sum_list (map (\<lambda>it. case vi_unit_price it of None \<Rightarrow> 0 | Some p \<Rightarrow> p * vi_qty it) (vw_items v)))"
    unfolding v(2) by (rule subtotal_of_items) (use facts in blast)
  moreover have "map (\<lambda>it. case vi_unit_price it of None \<Rightarrow> 0 | Some p \<Rightarrow> p * vi_qty it) (vw_items v) =
      map (\<lambda>it. case shown_price c t s it of None \<Rightarrow> 0 | Some p \<Rightarrow> p * vi_qty it) (vw_items v)"
    using facts by simp
  ultimately show ?thesis
    using facts qty by simp
qed

section \<open>Sample cart\<close>

definition sample_cart :: cart where
  "sample_cart = \<lparr>ca_id = 80, ca_tenant = 1, ca_customer = None, ca_status = S_open, ca_expires_at = 1000,
     ca_created_at = 10, ca_updated_at = 10\<rparr>"

definition sample_item :: cart_item where
  "sample_item = \<lparr>ci_tenant = 1, ci_cart = 80, ci_variant = 60, ci_qty = 2, ci_added_at = 11\<rparr>"

definition cart_db :: db where
  "cart_db = shop_db\<lparr>carts := [sample_cart], cart_items := [sample_item]\<rparr>"

definition no_images :: image_map where
  "no_images vid = None"

lemma cart_db_good: "good_items (cart_items cart_db)"
  by code_simp

theorem cart_set_item_exact_witness:
  "\<exists>v s'. set_item_op no_images sample_ctx 80 60 5 None cart_db = (Inr v, s') \<and> qty_in 1 80 60 s' = 5"
proof -
  have "\<not> (case fst (set_item_op no_images sample_ctx 80 60 5 None cart_db) of Inl _ \<Rightarrow> True | Inr _ \<Rightarrow> False)"
    by code_simp
  then obtain v s' where r: "set_item_op no_images sample_ctx 80 60 5 None cart_db = (Inr v, s')"
    by (metis prod.collapse sum.case_eq_if sum.collapse(2))
  show ?thesis
    using r cart_set_item_exact [OF sample_tenant(1) r cart_db_good] by auto
qed

theorem cart_closed_is_404_witness:
  "set_item_op no_images (sample_ctx\<lparr>c_clock := 1000\<rparr>) 80 60 5 None cart_db = (Inl err_no_cart, cart_db)"
proof -
  have "c_tenant (sample_ctx\<lparr>c_clock := 1000\<rparr>) = Some 1" "\<not> open_at (sample_ctx\<lparr>c_clock := 1000\<rparr>) 1 80 cart_db"
    by code_simp+
  from cart_closed_is_404 [OF this, of no_images None 5 60] show ?thesis by simp
qed

theorem cart_priced_now_witness:
  "\<exists>v s'. cart_get_op no_images sample_ctx 80 None cart_db = (Inr v, s') \<and> vw_subtotal v = 24000000"
proof -
  have "(case cart_get_op no_images sample_ctx 80 None cart_db of (Inl _, _) \<Rightarrow> False
     | (Inr v, _) \<Rightarrow> map (shown_price sample_ctx 1 cart_db) (vw_items v) = [Some 12000000] \<and> map vi_qty (vw_items v) = [2])"
    by code_simp
  then obtain v s' where r: "cart_get_op no_images sample_ctx 80 None cart_db = (Inr v, s')"
    and v: "map (shown_price sample_ctx 1 cart_db) (vw_items v) = [Some 12000000]" "map vi_qty (vw_items v) = [2]"
    by (auto split: prod.splits sum.splits)
  obtain it where "vw_items v = [it]" "shown_price sample_ctx 1 cart_db it = Some 12000000" "vi_qty it = 2"
    using v by (cases "vw_items v") auto
  then have "vw_subtotal v = wrap64 24000000"
    using cart_priced_now [OF sample_tenant(1) r cart_db_good] by simp
  then show ?thesis
    using r by (simp add: wrap64_def)
qed

end
