(* ===== verification/Payments.thy ===== *)
theory Payments
  imports Carts
begin

text \<open>
  Midtrans payments of an order (internal/orders/payments.go): which methods the shop takes, the
  attempts of a payment, the live link, and paying again. Midtrans itself, the box that opens the
  shop's sealed key, the decoding of the customer snapshot and the text of a UUID are a parameter,
  the record \<open>gateway\<close>.
\<close>

record snap_request =
  sn_order_id :: string
  sn_gross_amount :: int
  sn_name :: string
  sn_email :: string
  sn_phone :: string
  sn_notification_url :: string
  sn_expiry_hours :: int

text \<open>\<open>CreateSnap\<close> answers a token and a URL; nil clients are None.\<close>

record gateway =
  gw_snap :: "(string \<Rightarrow> string \<Rightarrow> snap_request \<Rightarrow> err + string \<times> string) option"
  gw_open :: "(uuid \<Rightarrow> string option \<Rightarrow> err + string) option"
  gw_who :: "string \<Rightarrow> string \<times> string option \<times> string option"
  gw_api_url :: string
  gw_uuid_text :: "uuid \<Rightarrow> string"

record pay_link =
  pl_token :: string
  pl_redirect_url :: string
  pl_expires_at :: instant

definition pay_link_ttl :: int where
  "pay_link_ttl = hours 24"

text \<open>The zero \<open>StorefrontSetting\<close> with bank transfer on.\<close>

definition default_settings :: storefront_setting where
  "default_settings = \<lparr>st_tenant = nil_uuid, st_contact_email = None, st_google_client_id = None,
     st_origin_postal_code = None, st_shipping_couriers = [], st_bank_transfer_enabled = True,
     st_bank_transfer_instructions = None, st_midtrans_enabled = False, st_midtrans_environment = None,
     st_midtrans_client_key = None, st_midtrans_server_key = None, st_midtrans_webhook_id = nil_uuid,
     st_updated_at = 0, st_logo_key = None, st_whatsapp = None, st_tagline = None, st_brand_color = None, st_instagram = None, st_theme = ''katalog'',
     st_hero_key = None, st_address = None, st_opening_hours = None, st_shopee_url = None, st_tokopedia_url = None\<rparr>"

definition settings_of :: "ctx \<Rightarrow> storefront_setting stmt" where
  "settings_of c = bindT (settings_row c) (\<lambda>r. retT (case r of None \<Rightarrow> default_settings | Some st \<Rightarrow> st))"

definition takes :: "storefront_setting \<Rightarrow> string \<Rightarrow> bool" where
  "takes st meth =
    (if meth = S_bank_transfer then st_bank_transfer_enabled st
     else if meth = S_midtrans
     then st_midtrans_enabled st \<and> st_midtrans_environment st \<noteq> None \<and> st_midtrans_server_key st \<noteq> None
     else False)"

text \<open>The attempt's id at Midtrans: the order's number, then the number, a dash and the attempt.\<close>

definition attempt_id :: "string \<Rightarrow> int \<Rightarrow> string" where
  "attempt_id number n = (if n > 1 then number @ ''-'' @ itoa n else number)"

definition new_attempt :: "uuid \<Rightarrow> ctx \<Rightarrow> order \<Rightarrow> int \<Rightarrow> payment stmt" where
  "new_attempt pid c ord n = create_payment c \<lparr>cp_id = pid, cp_order = or_id ord,
     cp_provider_order_id = attempt_id (or_number ord) n, cp_attempt = n, cp_gross_amount = or_total ord,
     cp_expires_at = c_clock c + pay_link_ttl\<rparr>"

definition live :: "ctx \<Rightarrow> payment \<Rightarrow> order \<Rightarrow> bool" where
  "live c p ord \<longleftrightarrow> pa_status p = S_pending \<and> pa_snap_token p \<noteq> None \<and> pa_redirect_url p \<noteq> None \<and>
     c_clock c < pa_expires_at p \<and> pa_gross_amount p = or_total ord"

definition link_of :: "payment \<Rightarrow> pay_link" where
  "link_of p = \<lparr>pl_token = deref (pa_snap_token p), pl_redirect_url = deref (pa_redirect_url p),
     pl_expires_at = pa_expires_at p\<rparr>"

definition err_midtrans_unavailable :: err where
  "err_midtrans_unavailable = Sentinel ''midtrans unavailable''"

definition snap_request_of :: "gateway \<Rightarrow> storefront_setting \<Rightarrow> order \<Rightarrow> payment \<Rightarrow> snap_request" where
  "snap_request_of gw st ord p =
    (case gw_who gw (or_customer ord) of (name, email, phone) \<Rightarrow>
     \<lparr>sn_order_id = pa_provider_order_id p, sn_gross_amount = go_div (pa_gross_amount p) 100,
      sn_name = name, sn_email = deref email, sn_phone = deref phone,
      sn_notification_url = gw_api_url gw @ ''/v1/webhooks/midtrans/'' @ gw_uuid_text gw (st_midtrans_webhook_id st),
      sn_expiry_hours = 24\<rparr>)"

definition snap :: "gateway \<Rightarrow> storefront_setting \<Rightarrow> order \<Rightarrow> payment \<Rightarrow> err + pay_link" where
  "snap gw st ord p =
    (case (gw_snap gw, gw_open gw, st_midtrans_environment st) of
      (Some call, Some openbox, Some env) \<Rightarrow>
        (case openbox (or_tenant ord) (st_midtrans_server_key st) of
          Inl e \<Rightarrow> Inl e
        | Inr key \<Rightarrow>
            (case call env key (snap_request_of gw st ord p) of
              Inl e \<Rightarrow> Inl e
            | Inr (token, url) \<Rightarrow> Inr \<lparr>pl_token = token, pl_redirect_url = url, pl_expires_at = pa_expires_at p\<rparr>))
    | _ \<Rightarrow> Inl err_midtrans_unavailable)"

text \<open>\<open>openSnap\<close>: after the attempt's commit; the link is stored in a transaction of its own.\<close>

definition open_snap :: "gateway \<Rightarrow> ctx \<Rightarrow> storefront_setting \<Rightarrow> order \<Rightarrow> payment \<Rightarrow> db \<Rightarrow> (err + pay_link) \<times> db" where
  "open_snap gw c st ord p s =
    (case snap gw st ord p of
      Inl e \<Rightarrow> (Inl e, s)
    | Inr link \<Rightarrow>
        (case in_tenant_tx c (set_payment_link c (pa_id p) (Some (pl_token link)) (Some (pl_redirect_url link))) s of
          (Inl e, s') \<Rightarrow> (Inl e, s')
        | (Inr _, s') \<Rightarrow> (Inr link, s')))"

definition err_not_whole :: err where
  "err_not_whole = field_error ''payment_method''
     ''This order's total is not a whole rupiah amount, which Midtrans cannot take; choose bank transfer.''"

definition whole_rupiah :: "int \<Rightarrow> err + unit" where
  "whole_rupiah amount = (if go_mod amount 100 \<noteq> 0 then Inl err_not_whole else Inr ())"

definition err_nothing_to_pay :: err where
  "err_nothing_to_pay = field_error ''order_number''
     ''This order has no payment to make: it is paid, cancelled, or not paid through Midtrans.''"

definition err_no_midtrans :: err where
  "err_no_midtrans = field_error ''order_number''
     ''This shop no longer takes payments through Midtrans; contact the shop.''"

text \<open>
  \<open>PayAgain\<close>. The transaction commits when Midtrans fails, so its value is itself a result: the
  error Midtrans gave, or the link.
\<close>

definition pay_new :: "gateway \<Rightarrow> uuid \<Rightarrow> ctx \<Rightarrow> storefront_setting \<Rightarrow> order \<Rightarrow> int \<Rightarrow> (err + pay_link) stmt" where
  "pay_new gw pid c st ord n =
    thenT (liftT (whole_rupiah (or_total ord)))
    (bindT (new_attempt pid c ord n) (\<lambda>p.
     case snap gw st ord p of
       Inl e \<Rightarrow> retT (Inl e)
     | Inr link \<Rightarrow>
         thenT (set_payment_link c (pa_id p) (Some (pl_token link)) (Some (pl_redirect_url link)))
         (retT (Inr link))))"

definition pay_again :: "gateway \<Rightarrow> uuid \<Rightarrow> ctx \<Rightarrow> uuid \<Rightarrow> (err + pay_link) stmt" where
  "pay_again gw pid c oid =
    bindT (mapErrT (no_such ''order'') (lock_order c oid)) (\<lambda>ord.
    if or_payment_method ord \<noteq> S_midtrans \<or> or_status ord \<noteq> S_pending then failT err_nothing_to_pay
    else
      bindT (settings_of c) (\<lambda>st.
      if \<not> takes st S_midtrans then failT err_no_midtrans
      else
        bindT (tryT (latest_payment c (or_id ord))) (\<lambda>latest.
        case latest of
          Inr p \<Rightarrow>
            if live c p ord then retT (Inr (link_of p))
            else thenT (fail_stale_payment c (pa_id p)) (pay_new gw pid c st ord (wrap32 (pa_attempt p + 1)))
        | Inl e \<Rightarrow> if err_is e NoRows then pay_new gw pid c st ord 1 else failT e)))"

definition pay_again_op :: "gateway \<Rightarrow> uuid \<Rightarrow> ctx \<Rightarrow> uuid \<Rightarrow> db \<Rightarrow> (err + pay_link) \<times> db" where
  "pay_again_op gw pid c oid s =
    (case in_tenant_tx c (pay_again gw pid c oid) s of
      (Inl e, s') \<Rightarrow> (Inl e, s')
    | (Inr (Inl e), s') \<Rightarrow> (Inl (payment_unavailable e), s')
    | (Inr (Inr link), s') \<Rightarrow> (Inr link, s'))"

section \<open>Isolation and the order rows\<close>

lemma settings_of_isolated [isolation]: "within (isolated t) (settings_of c)"
  unfolding settings_of_def by (intro iso.rules isolation)

lemma new_attempt_isolated [isolation]: "tenant_of c = t \<Longrightarrow> within (isolated t) (new_attempt pid c ord n)"
  unfolding new_attempt_def by (rule isolation)

lemma pay_new_isolated [isolation]: "tenant_of c = t \<Longrightarrow> within (isolated t) (pay_new gw pid c st ord n)"
  unfolding pay_new_def by (intro iso.rules isolation)

lemma pay_again_isolated [isolation]: "tenant_of c = t \<Longrightarrow> within (isolated t) (pay_again gw pid c oid)"
  unfolding pay_again_def by (intro iso.rules isolation)

text \<open>The payment statements never touch an order.\<close>

definition order_view :: "db \<Rightarrow> order list \<times> order_line list \<times> (uuid \<times> int) list \<times> tenant list \<times> cart list \<times> storefront_setting list" where
  "order_view s = (orders s, order_lines s, sequences s, tenants s, carts s, settings s)"

named_theorems order_frame \<open>statements that leave orders, lines, counters, tenants and carts as they are\<close>

lemma payment_stmts_frame [order_frame]:
  "within (same order_view) (create_payment c p)" "within (same order_view) (fail_stale_payment c pid)"
  "within (same order_view) (set_payment_link c pid tok url)" "within (same order_view) (record_notification c n)"
  "within (same order_view) (latest_payment c oid)" "within (same order_view) (settings_row c)"
  "within (same order_view) (lock_order c oid)" "within (same order_view) (payment_by_provider_order_id c x)"
  "within (same order_view) (lock_payment c pid)"
  by (auto simp: within_def same_def order_view_def create_payment_def fail_stale_payment_def
      set_payment_link_def record_notification_def tx_inr Let_def upd_payment_def latest_payment_def
      settings_row_Inr lock_order_def payment_by_provider_order_id_def lock_payment_def)

lemma audit_frame [order_frame]: "within (same order_view) (audit c e)"
  by (auto simp: within_def same_def order_view_def)

lemma pay_again_frame [order_frame]: "within (same order_view) (pay_again gw pid c oid)"
  unfolding pay_again_def pay_new_def settings_of_def new_attempt_def
  by (intro frame.rules order_frame)

section \<open>The attempts of an order\<close>

definition latest_attempt :: "uuid \<Rightarrow> uuid \<Rightarrow> db \<Rightarrow> payment option" where
  "latest_attempt t oid s = (case order_payments_of t oid s of [] \<Rightarrow> None | p # _ \<Rightarrow> Some p)"

definition attempt_of :: "uuid \<Rightarrow> uuid \<Rightarrow> db \<Rightarrow> payment \<Rightarrow> bool" where
  "attempt_of t oid s p \<longleftrightarrow> p \<in> set (payments s) \<and> pa_tenant p = t \<and> pa_order p = oid"

lemma latest_attempt_Some:
  assumes "latest_attempt t oid s = Some p"
  shows "attempt_of t oid s p \<and> (\<forall>q. attempt_of t oid s q \<longrightarrow> pa_attempt q \<le> pa_attempt p)"
proof -
  define xs where "xs = filter (\<lambda>p. pa_tenant p = t \<and> pa_order p = oid) (payments s)"
  obtain ps where ps: "sort_key (\<lambda>p. - pa_attempt p) xs = p # ps"
    using assms by (auto simp: latest_attempt_def order_payments_of_def xs_def split: list.splits)
  have "sorted (map (\<lambda>p. - pa_attempt p) (p # ps))"
    using ps by (metis sorted_sort_key)
  then have "\<forall>q \<in> set (p # ps). pa_attempt q \<le> pa_attempt p"
    by auto
  moreover have "set (p # ps) = set xs"
    using ps by (metis set_sort)
  ultimately show ?thesis
    by (auto simp: xs_def attempt_of_def)
qed

lemma latest_attempt_None: "latest_attempt t oid s = None \<longleftrightarrow> (\<forall>p. \<not> attempt_of t oid s p)"
proof -
  define xs where "xs = filter (\<lambda>p. pa_tenant p = t \<and> pa_order p = oid) (payments s)"
  have "latest_attempt t oid s = None \<longleftrightarrow> sort_key (\<lambda>p. - pa_attempt p) xs = []"
    by (simp add: latest_attempt_def order_payments_of_def xs_def split: list.splits)
  also have "\<dots> \<longleftrightarrow> xs = []"
    by (metis set_empty set_sort)
  finally show ?thesis
    by (auto simp: xs_def attempt_of_def filter_empty_conv)
qed

lemma latest_attempt_is:
  assumes "attempt_of t oid s p" and "\<And>q. attempt_of t oid s q \<Longrightarrow> q = p \<or> pa_attempt q < pa_attempt p"
  shows "latest_attempt t oid s = Some p"
proof (cases "latest_attempt t oid s")
  case None
  then show ?thesis using assms(1) by (simp add: latest_attempt_None)
next
  case (Some q)
  then show ?thesis using latest_attempt_Some [OF Some] assms by (metis not_less)
qed

lemma latest_payment_Inr: "latest_payment c oid s = Inr (p, s') \<longleftrightarrow> s' = s \<and> latest_attempt (tenant_of c) oid s = Some p"
  by (auto simp: latest_payment_def latest_attempt_def split: list.splits)

lemma latest_payment_Inl: "latest_payment c oid s = Inl e \<longleftrightarrow> e = NoRows \<and> latest_attempt (tenant_of c) oid s = None"
  by (auto simp: latest_payment_def latest_attempt_def split: list.splits)

section \<open>The invariant of the payments table\<close>

definition good_payment :: "payment \<Rightarrow> bool" where
  "good_payment p \<longleftrightarrow> payment_check p \<and> (pa_status p = S_paid \<longleftrightarrow> pa_paid_at p \<noteq> None)"

definition good_payments :: "payment list \<Rightarrow> bool" where
  "good_payments ps \<longleftrightarrow> distinct (map pa_id ps) \<and> distinct (map (\<lambda>p. (pa_order p, pa_attempt p)) ps) \<and>
     distinct (map (\<lambda>p. (pa_tenant p, pa_provider_order_id p)) ps) \<and>
     distinct (map pa_order (filter (\<lambda>p. pa_status p = S_pending) ps)) \<and> (\<forall>p \<in> set ps. good_payment p)"

definition keeps_attempt :: "(payment \<Rightarrow> payment) \<Rightarrow> bool" where
  "keeps_attempt f \<longleftrightarrow> (\<forall>p. pa_id (f p) = pa_id p \<and> pa_tenant (f p) = pa_tenant p \<and> pa_order (f p) = pa_order p \<and>
     pa_attempt (f p) = pa_attempt p \<and> pa_provider_order_id (f p) = pa_provider_order_id p)"

lemma distinct_filter_map:
  assumes "\<And>x. x \<in> set xs \<Longrightarrow> P (g x) \<Longrightarrow> P x" and "\<And>x. k (g x) = k x"
    and "distinct (map k (filter P xs))"
  shows "distinct (map k (filter P (map g xs))) \<and> set (map k (filter P (map g xs))) \<subseteq> set (map k (filter P xs))"
  using assms by (induction xs) (auto simp: image_subset_iff)

lemma good_payments_upd:
  assumes good: "good_payments (payments s)" and keeps: "keeps_attempt f"
    and new: "\<And>p. p \<in> set (payments s) \<Longrightarrow> pa_tenant p = t \<Longrightarrow> pa_id p = pid \<Longrightarrow>
      good_payment (f p) \<and> (pa_status (f p) = S_pending \<longrightarrow> pa_status p = S_pending)"
  shows "good_payments (payments (upd_payment t pid f s))"
proof -
  define g where "g p = (if pa_tenant p = t \<and> pa_id p = pid then f p else p)" for p
  have ps: "payments (upd_payment t pid f s) = map g (payments s)"
    by (simp add: upd_payment_def row_upd_def g_def)
  have keys: "pa_id (g p) = pa_id p" "(pa_order (g p), pa_attempt (g p)) = (pa_order p, pa_attempt p)"
    "(pa_tenant (g p), pa_provider_order_id (g p)) = (pa_tenant p, pa_provider_order_id p)"
    "pa_order (g p) = pa_order p" for p
    using keeps by (simp_all add: g_def keeps_attempt_def)
  have maps: "map pa_id (map g ps) = map pa_id ps"
    "map (\<lambda>p. (pa_order p, pa_attempt p)) (map g ps) = map (\<lambda>p. (pa_order p, pa_attempt p)) ps"
    "map (\<lambda>p. (pa_tenant p, pa_provider_order_id p)) (map g ps) = map (\<lambda>p. (pa_tenant p, pa_provider_order_id p)) ps" for ps
    using keys by simp_all
  have "distinct (map pa_order (filter (\<lambda>p. pa_status p = S_pending) (map g (payments s))))"
  proof (rule distinct_filter_map [THEN conjunct1])
    show "pa_status p = S_pending" if "p \<in> set (payments s)" "pa_status (g p) = S_pending" for p
      using that new [of p] by (simp add: g_def split: if_splits)
    show "distinct (map pa_order (filter (\<lambda>p. pa_status p = S_pending) (payments s)))"
      using good by (simp add: good_payments_def)
  qed (rule keys(4))
  moreover have "\<forall>p \<in> set (map g (payments s)). good_payment p"
    using good new by (auto simp: good_payments_def g_def)
  ultimately show ?thesis
    using good unfolding ps good_payments_def maps by simp
qed

definition new_payment :: "ctx \<Rightarrow> create_payment_params \<Rightarrow> payment" where
  "new_payment c p = \<lparr>pa_id = cp_id p, pa_tenant = tenant_of c, pa_order = cp_order p, pa_provider = S_midtrans,
     pa_provider_order_id = cp_provider_order_id p, pa_attempt = cp_attempt p, pa_status = S_pending,
     pa_gross_amount = cp_gross_amount p, pa_snap_token = None, pa_redirect_url = None,
     pa_expires_at = cp_expires_at p, pa_transaction_status = None, pa_last_notification = None,
     pa_paid_at = None, pa_created_at = c_now c, pa_updated_at = c_now c\<rparr>"

lemma create_payment_Inr: "create_payment c p s = Inr (q, s') \<longleftrightarrow>
    q = new_payment c p \<and> s' = s\<lparr>payments := payments s @ [q]\<rparr> \<and> payment_check q \<and> payment_unique q s \<and>
    get_order (tenant_of c) (cp_order p) s \<noteq> None"
  by (auto simp: create_payment_def Let_def tx_inr new_payment_def)

lemma good_payments_new:
  assumes "good_payments (payments s)" and "payment_check p" and "payment_unique p s"
    and "pa_status p = S_pending" and "pa_paid_at p = None"
  shows "good_payments (payments s @ [p])"
  using assms by (auto simp: good_payments_def good_payment_def payment_unique_def list_all_iff)

definition stale :: "ctx \<Rightarrow> payment \<Rightarrow> payment" where
  "stale c p = (if pa_status p = S_pending then p\<lparr>pa_status := S_failed, pa_updated_at := c_now c\<rparr> else p)"

definition linked :: "ctx \<Rightarrow> string \<Rightarrow> string \<Rightarrow> payment \<Rightarrow> payment" where
  "linked c token url p = p\<lparr>pa_snap_token := Some token, pa_redirect_url := Some url, pa_updated_at := c_now c\<rparr>"

lemma fail_stale_Inr [simp]: "fail_stale_payment c pid s = Inr (u, s') \<longleftrightarrow>
    s' = upd_payment (tenant_of c) pid (stale c) s"
  by (simp add: fail_stale_payment_def stale_def [abs_def])

lemma set_link_Inr [simp]: "set_payment_link c pid (Some tok) (Some url) s = Inr (u, s') \<longleftrightarrow>
    s' = upd_payment (tenant_of c) pid (linked c tok url) s"
  by (simp add: set_payment_link_def linked_def [abs_def])

lemma keeps_attempt_writes [simp]: "keeps_attempt (stale c)" "keeps_attempt (linked c tok url)"
  by (auto simp: keeps_attempt_def stale_def linked_def)

lemma keeps_attempt_key: "keeps_attempt f \<Longrightarrow> keeps_key pa_tenant pa_id f"
  by (simp add: keeps_attempt_def keeps_key_def)

lemma stale_good: "good_payment p \<Longrightarrow> good_payment (stale c p) \<and> (pa_status (stale c p) = S_pending \<longrightarrow> pa_status p = S_pending)"
  by (auto simp: good_payment_def stale_def payment_check_def)

lemma linked_good: "good_payment p \<Longrightarrow> good_payment (linked c tok url p) \<and>
    (pa_status (linked c tok url p) = S_pending \<longrightarrow> pa_status p = S_pending)"
  by (auto simp: good_payment_def linked_def payment_check_def)

abbreviation payments_ok :: "db \<Rightarrow> bool" where
  "payments_ok s \<equiv> good_payments (payments s)"

named_theorems pay_inv \<open>statements that keep the invariant of the payments table\<close>

lemma upd_payments_ok: "good_payments (payments s) \<Longrightarrow> keeps_attempt f \<Longrightarrow>
    (\<And>p. good_payment p \<Longrightarrow> good_payment (f p) \<and> (pa_status (f p) = S_pending \<longrightarrow> pa_status p = S_pending)) \<Longrightarrow>
    good_payments (payments (upd_payment t pid f s))"
  by (rule good_payments_upd) (auto simp: good_payments_def)

lemma payment_writes_inv [pay_inv]:
  "within (holds_on payments_ok) (fail_stale_payment c pid)"
  "within (holds_on payments_ok) (set_payment_link c pid (Some tok) (Some url))"
proof -
  have "payments_ok s \<Longrightarrow> payments_ok (upd_payment t pid (stale c) s)" for s t
    by (rule upd_payments_ok [OF _ keeps_attempt_writes(1) stale_good])
  then show "within (holds_on payments_ok) (fail_stale_payment c pid)"
    by (intro withinI) (simp add: holds_on_def)
  have "payments_ok s \<Longrightarrow> payments_ok (upd_payment t pid (linked c tok url) s)" for s t
    by (rule upd_payments_ok [OF _ keeps_attempt_writes(2) linked_good])
  then show "within (holds_on payments_ok) (set_payment_link c pid (Some tok) (Some url))"
    by (intro withinI) (simp add: holds_on_def)
qed

lemma create_payment_inv [pay_inv]: "within (holds_on payments_ok) (create_payment c p)"
  by (rule withinI) (auto simp: holds_on_def create_payment_Inr new_payment_def intro: good_payments_new)

lemma payment_reads_inv [pay_inv]:
  "within (holds_on payments_ok) (lock_order c oid)" "within (holds_on payments_ok) (settings_row c)"
  "within (holds_on payments_ok) (latest_payment c oid)" "within (holds_on payments_ok) (lock_payment c pid)"
  "within (holds_on payments_ok) (payment_by_provider_order_id c n)"
  "within (holds_on payments_ok) (audit c e)"
  by (auto simp: within_def holds_on_def lock_order_def settings_row_Inr latest_payment_def lock_payment_def
      payment_by_provider_order_id_def)

lemma pay_again_inv [pay_inv]: "within (holds_on payments_ok) (pay_again gw pid c oid)"
  unfolding pay_again_def pay_new_def settings_of_def new_attempt_def
  by (intro inv.rules pay_inv)

section \<open>Paying again\<close>

definition before_attempt :: "ctx \<Rightarrow> uuid \<Rightarrow> db \<Rightarrow> db" where
  "before_attempt c oid s = (case latest_attempt (tenant_of c) oid s of None \<Rightarrow> s
     | Some p \<Rightarrow> upd_payment (tenant_of c) (pa_id p) (stale c) s)"

definition next_attempt :: "ctx \<Rightarrow> uuid \<Rightarrow> db \<Rightarrow> int" where
  "next_attempt c oid s = (case latest_attempt (tenant_of c) oid s of None \<Rightarrow> 1
     | Some p \<Rightarrow> wrap32 (pa_attempt p + 1))"

definition attempt_params :: "uuid \<Rightarrow> ctx \<Rightarrow> order \<Rightarrow> int \<Rightarrow> create_payment_params" where
  "attempt_params pid c ord n = \<lparr>cp_id = pid, cp_order = or_id ord,
     cp_provider_order_id = attempt_id (or_number ord) n, cp_attempt = n, cp_gross_amount = or_total ord,
     cp_expires_at = c_clock c + pay_link_ttl\<rparr>"

lemma new_attempt_Inr: "new_attempt pid c ord n s = Inr (q, s') \<longleftrightarrow>
    q = new_payment c (attempt_params pid c ord n) \<and> s' = s\<lparr>payments := payments s @ [q]\<rparr> \<and> payment_check q \<and>
    payment_unique q s \<and> get_order (tenant_of c) (or_id ord) s \<noteq> None"
  by (simp add: new_attempt_def create_payment_Inr attempt_params_def)

lemma pay_new_Inr:
  assumes "pay_new gw pid c st ord n s = Inr (r, s')"
  shows "whole_rupiah (or_total ord) = Inr () \<and>
    (let q = new_payment c (attempt_params pid c ord n); s1 = s\<lparr>payments := payments s @ [q]\<rparr>
     in payment_check q \<and> payment_unique q s \<and> r = snap gw st ord q \<and>
       s' = (case r of Inl _ \<Rightarrow> s1
         | Inr link \<Rightarrow> upd_payment (tenant_of c) (pa_id q) (linked c (pl_token link) (pl_redirect_url link)) s1))"
  using assms unfolding pay_new_def
  by (auto simp: thenT_Inr bindT_Inr new_attempt_Inr Let_def split: sum.splits)

lemma settings_of_Inr: "settings_of c s = Inr (st, s') \<longleftrightarrow> s' = s \<and>
    st = (case find (\<lambda>r. st_tenant r = tenant_of c) (settings s) of None \<Rightarrow> default_settings | Some st \<Rightarrow> st)"
  by (auto simp: settings_of_def bindT_Inr settings_row_Inr)

definition payable :: "order \<Rightarrow> bool" where
  "payable ord \<longleftrightarrow> or_payment_method ord = S_midtrans \<and> or_status ord = S_pending"

definition shop_takes :: "uuid \<Rightarrow> db \<Rightarrow> bool" where
  "shop_takes t s \<longleftrightarrow> takes (case find (\<lambda>r. st_tenant r = t) (settings s) of None \<Rightarrow> default_settings | Some st \<Rightarrow> st) S_midtrans"

lemma pay_again_Inr:
  assumes "pay_again gw pid c oid s = Inr (r, s')"
  obtains (live) ord p where "get_order (tenant_of c) oid s = Some ord" "payable ord" "shop_takes (tenant_of c) s"
      "latest_attempt (tenant_of c) oid s = Some p" "live c p ord" "r = Inr (link_of p)" "s' = s"
  | (fresh) ord st where "get_order (tenant_of c) oid s = Some ord" "payable ord" "shop_takes (tenant_of c) s"
      "\<forall>p. latest_attempt (tenant_of c) oid s = Some p \<longrightarrow> \<not> live c p ord"
      "pay_new gw pid c st ord (next_attempt c oid s) (before_attempt c oid s) = Inr (r, s')"
proof -
  obtain ord where ord: "get_order (tenant_of c) oid s = Some ord" "payable ord"
    and takes: "shop_takes (tenant_of c) s" and id: "or_id ord = oid"
    and rest: "bindT (tryT (latest_payment c (or_id ord))) (\<lambda>latest.
        case latest of
          Inr p \<Rightarrow>
            if live c p ord then retT (Inr (link_of p))
            else thenT (fail_stale_payment c (pa_id p)) (pay_new gw pid c
              (case find (\<lambda>r. st_tenant r = tenant_of c) (settings s) of None \<Rightarrow> default_settings | Some st \<Rightarrow> st)
              ord (wrap32 (pa_attempt p + 1)))
        | Inl e \<Rightarrow> if err_is e NoRows then pay_new gw pid c
              (case find (\<lambda>r. st_tenant r = tenant_of c) (settings s) of None \<Rightarrow> default_settings | Some st \<Rightarrow> st)
              ord 1 else failT e) s = Inr (r, s')"
    using assms unfolding pay_again_def
    by (auto simp: bindT_Inr [of "mapErrT _ _"] bindT_Inr [of "settings_of c"] lock_order_def settings_of_Inr
        payable_def shop_takes_def dest: get_order_Some split: if_splits)
  show thesis
  proof (cases "latest_attempt (tenant_of c) oid s")
    case None
    then have "latest_payment c (or_id ord) s = Inl NoRows"
      by (simp add: latest_payment_Inl id)
    with rest None show thesis
      by (intro fresh [OF ord takes]) (auto simp: bindT_def tryT_def next_attempt_def before_attempt_def)
  next
    case (Some p)
    then have l: "latest_payment c (or_id ord) s = Inr (p, s)"
      by (simp add: latest_payment_Inr id)
    show thesis
    proof (cases "live c p ord")
      case True
      with rest l show thesis
        by (intro live [OF ord takes Some True]) (auto simp: bindT_def tryT_def retT_def)
    next
      case False
      with rest l Some show thesis
        by (intro fresh [OF ord takes]) (auto simp: bindT_def tryT_def thenT_Inr next_attempt_def before_attempt_def)
    qed
  qed
qed

lemma pay_again_live:
  assumes "c_tenant c = Some t" and "get_order t oid s = Some ord" and "payable ord" and "shop_takes t s"
    and "latest_attempt t oid s = Some p" and "live c p ord"
  shows "pay_again_op gw pid c oid s = (Inr (link_of p), s)"
proof -
  have t: "tenant_of c = t"
    using assms(1) by (simp add: tenant_of_def)
  have id: "or_id ord = oid"
    using assms(2) get_order_Some by blast
  have set: "settings_of c s = Inr ((case find (\<lambda>r. st_tenant r = t) (settings s) of None \<Rightarrow> default_settings | Some st \<Rightarrow> st), s)"
    by (simp add: settings_of_Inr t)
  have "latest_payment c oid s = Inr (p, s)"
    by (simp add: latest_payment_Inr t assms(5))
  then have "pay_again gw pid c oid s = Inr (Inr (link_of p), s)"
    using assms set unfolding pay_again_def
    by (simp add: bindT_def [of "mapErrT _ _"] mapErrT_def lock_order_def oneT_def t id payable_def shop_takes_def
        bindT_def tryT_def retT_def)
  then show ?thesis
    using assms(1) by (simp add: pay_again_op_def in_tenant_tx_def run_tx_def)
qed

text \<open>After a fresh attempt it is the last row, the newest attempt and the only pending one.\<close>

lemma attempt_of_upd:
  assumes "keeps_attempt f" and "attempt_of t oid (upd_payment t' pid f s) x"
  obtains y where "attempt_of t oid s y" "pa_attempt x = pa_attempt y" "pa_id x = pa_id y" "x = y \<or> x = f y"
  using assms by (auto simp: attempt_of_def upd_payment_def keeps_attempt_def dest!: row_upd_set)

lemma row_upd_last:
  assumes "\<forall>x \<in> set xs. key x \<noteq> k" and "ten q = t" and "key q = k"
  shows "row_upd ten key t k f (xs @ [q]) = xs @ [f q]"
proof -
  have "map (\<lambda>r. if ten r = t \<and> key r = k then f r else r) xs = xs"
    using assms(1) by (intro map_idI) auto
  then show ?thesis
    using assms(2,3) by (simp add: row_upd_def)
qed

lemma next_attempt_greater:
  assumes "payments_ok s" and "1 \<le> next_attempt c oid s" and "attempt_of (tenant_of c) oid s x"
  shows "pa_attempt x < next_attempt c oid s"
proof (cases "latest_attempt (tenant_of c) oid s")
  case None
  then show ?thesis using assms(3) by (simp add: latest_attempt_None)
next
  case (Some p)
  have le: "pa_attempt x \<le> pa_attempt p" and p: "p \<in> set (payments s)"
    using latest_attempt_Some [OF Some] assms(3) by (simp_all add: attempt_of_def)
  then have check: "1 \<le> pa_attempt p" "is_i32 (pa_attempt p)"
    using assms(1) by (auto simp: good_payments_def good_payment_def payment_check_def)
  have "pa_attempt p + 1 < 2 ^ 31"
  proof (rule ccontr)
    assume "\<not> pa_attempt p + 1 < 2 ^ 31"
    then have "pa_attempt p + 1 = 2 ^ 31"
      using check by (simp add: is_i32_def)
    then have "wrap32 (pa_attempt p + 1) = - (2 ^ 31)"
      by (simp add: wrap32_def)
    then show False
      using assms(2) Some by (simp add: next_attempt_def)
  qed
  then have "wrap32 (pa_attempt p + 1) = pa_attempt p + 1"
    using check by (intro wrap32_id) (simp add: is_i32_def)
  then show ?thesis
    using le Some by (simp add: next_attempt_def)
qed

lemma before_attempt_attempts:
  assumes "attempt_of (tenant_of c) oid (before_attempt c oid s) x"
  shows "\<exists>y. attempt_of (tenant_of c) oid s y \<and> pa_attempt x = pa_attempt y"
proof (cases "latest_attempt (tenant_of c) oid s")
  case None
  then show ?thesis using assms by (auto simp: before_attempt_def)
next
  case (Some p)
  then have "attempt_of (tenant_of c) oid (upd_payment (tenant_of c) (pa_id p) (stale c) s) x"
    using assms by (simp add: before_attempt_def)
  then show ?thesis
    by (elim attempt_of_upd [OF keeps_attempt_writes(1)]) blast
qed

lemma fresh_attempt:
  assumes "payments_ok s" and "or_id ord = oid"
    and "pay_new gw pid c st ord (next_attempt c oid s) (before_attempt c oid s) = Inr (r, s')"
  obtains q where "latest_attempt (tenant_of c) oid s' = Some q"
    "\<forall>x. attempt_of (tenant_of c) oid s' x \<and> pa_status x = S_pending \<longrightarrow> x = q"
    "pa_status q = S_pending" "pa_gross_amount q = or_total ord" "whole_rupiah (or_total ord) = Inr ()"
    "pa_attempt q = next_attempt c oid s" "pa_expires_at q = c_clock c + pay_link_ttl"
    "payments s' = payments (before_attempt c oid s) @ [q]"
    "\<forall>x \<in> set (payments (before_attempt c oid s)). pa_tenant x = tenant_of c \<longrightarrow>
       pa_provider_order_id x \<noteq> pa_provider_order_id q"
    "case r of Inl e \<Rightarrow> pa_snap_token q = None
     | Inr link \<Rightarrow> link = link_of q \<and> pa_snap_token q \<noteq> None \<and> pa_redirect_url q \<noteq> None"
proof -
  let ?t = "tenant_of c" and ?s0 = "before_attempt c oid s"
  define q0 where "q0 = new_payment c (attempt_params pid c ord (next_attempt c oid s))"
  define q where "q = (case r of Inl _ \<Rightarrow> q0 | Inr link \<Rightarrow> linked c (pl_token link) (pl_redirect_url link) q0)"
  have whole: "whole_rupiah (or_total ord) = Inr ()" and check: "payment_check q0" and uniq: "payment_unique q0 ?s0"
    and r: "r = snap gw st ord q0"
    and s': "s' = (case r of Inl _ \<Rightarrow> ?s0\<lparr>payments := payments ?s0 @ [q0]\<rparr>
      | Inr link \<Rightarrow> upd_payment ?t (pa_id q0) (linked c (pl_token link) (pl_redirect_url link))
          (?s0\<lparr>payments := payments ?s0 @ [q0]\<rparr>))"
    using pay_new_Inr [OF assms(3)] unfolding q0_def Let_def by blast+
  have q0: "pa_tenant q0 = ?t" "pa_order q0 = oid" "pa_status q0 = S_pending" "pa_gross_amount q0 = or_total ord"
    "pa_attempt q0 = next_attempt c oid s" "pa_expires_at q0 = c_clock c + pay_link_ttl" "pa_snap_token q0 = None"
    using assms(2) by (simp_all add: q0_def new_payment_def attempt_params_def)
  have q: "pa_tenant q = ?t" "pa_order q = oid" "pa_status q = S_pending" "pa_gross_amount q = or_total ord"
    "pa_attempt q = next_attempt c oid s" "pa_expires_at q = c_clock c + pay_link_ttl"
    "pa_provider_order_id q = pa_provider_order_id q0"
    using q0 by (simp_all add: q_def linked_def split: sum.splits)
  have "\<forall>x \<in> set (payments ?s0). pa_id x \<noteq> pa_id q0"
    using uniq by (simp add: payment_unique_def list_all_iff)
  then have ps: "payments s' = payments ?s0 @ [q]"
    using q0(1) by (simp add: s' q_def upd_payment_def row_upd_last split: sum.splits)
  have old: "\<forall>x \<in> set (payments ?s0). pa_order x = oid \<longrightarrow> pa_status x \<noteq> S_pending"
    and ids: "\<forall>x \<in> set (payments ?s0). pa_tenant x = ?t \<longrightarrow> pa_provider_order_id x \<noteq> pa_provider_order_id q"
    using uniq q0 q(7) by (auto simp: payment_unique_def list_all_iff)
  have lt: "pa_attempt x < pa_attempt q" if x: "attempt_of ?t oid ?s0 x" for x
  proof -
    obtain y where "attempt_of ?t oid s y" "pa_attempt x = pa_attempt y"
      using before_attempt_attempts [OF x] by blast
    moreover have "1 \<le> next_attempt c oid s"
      using check q0(5) by (simp add: payment_check_def)
    ultimately show ?thesis
      using next_attempt_greater [OF assms(1)] q(5) by metis
  qed
  have split: "attempt_of ?t oid s' x \<longleftrightarrow> x = q \<or> attempt_of ?t oid ?s0 x" for x
    using q(1,2) by (auto simp: attempt_of_def ps)
  have latest: "latest_attempt ?t oid s' = Some q"
    by (rule latest_attempt_is) (use split lt in blast)+
  have only: "\<forall>x. attempt_of ?t oid s' x \<and> pa_status x = S_pending \<longrightarrow> x = q"
    using split old by (auto simp: attempt_of_def)
  have link: "case r of Inl e \<Rightarrow> pa_snap_token q = None
     | Inr link \<Rightarrow> link = link_of q \<and> pa_snap_token q \<noteq> None \<and> pa_redirect_url q \<noteq> None"
  proof (cases r)
    case (Inl e)
    then show ?thesis using q0 by (simp add: q_def)
  next
    case (Inr link)
    then have "pl_expires_at link = pa_expires_at q0"
      using r by (auto simp: snap_def split: option.splits sum.splits prod.splits)
    then show ?thesis
      using Inr by (simp add: q_def link_of_def linked_def deref_def)
  qed
  show thesis
    by (rule that [OF latest only q(3,4) whole q(5,6) ps ids link])
qed

lemma pay_again_op_Inr: "pay_again_op gw pid c oid s = (Inr link, s') \<longleftrightarrow>
    c_tenant c \<noteq> None \<and> pay_again gw pid c oid s = Inr (Inr link, s')"
  by (auto simp: pay_again_op_def in_tenant_tx_def run_tx_def split: option.splits sum.splits prod.splits)

lemma whole_rupiah_Inr: "whole_rupiah n = Inr () \<longleftrightarrow> 100 dvd n"
  by (simp add: whole_rupiah_def go_mod_zero_iff)

lemma before_attempt_view: "order_view (before_attempt c oid s) = order_view s"
  by (simp add: before_attempt_def order_view_def upd_payment_def split: option.splits)

lemma pay_again_view: "pay_again gw pid c oid s = Inr (r, s') \<Longrightarrow> order_view s' = order_view s"
  using withinD [OF pay_again_frame] by (simp add: same_def)

lemma get_order_view: "order_view s' = order_view s \<Longrightarrow> get_order t oid s' = get_order t oid s"
  by (simp add: order_view_def get_order_def)

lemma shop_takes_view: "order_view s' = order_view s \<Longrightarrow> shop_takes t s' = shop_takes t s"
  by (simp add: order_view_def shop_takes_def)

lemma go_div_100: "100 dvd n \<Longrightarrow> go_div n 100 * 100 = n"
  using go_mod_zero_iff [of 100 n] by (simp add: go_mod_def)

text \<open>C13. Two taps on pay get one link (BR-123, BR-126): when paying again answers a link, that link
  belongs to the order's newest attempt, which is pending, is the only pending attempt of the
  order, and is for the order's total as it is now (a fresh one for a whole number of rupiah, so
  that what Midtrans is asked for is the total); and until it expires, paying again answers the
  very same link and changes nothing.\<close>

theorem pay_again_once:
  assumes "payments_ok s" and "c_tenant c = Some t" and "pay_again_op gw pid c oid s = (Inr link, s')"
    and "c_tenant c' = Some t" and "c_clock c' < pl_expires_at link"
  shows "pay_again_op gw' pid' c' oid s' = (Inr link, s') \<and>
    (\<exists>ord p. get_order t oid s = Some ord \<and> or_status ord = S_pending \<and> latest_attempt t oid s' = Some p \<and>
      link = link_of p \<and> pa_gross_amount p = or_total ord \<and>
      (s' = s \<or> go_div (pa_gross_amount p) 100 * 100 = or_total ord) \<and>
      (\<forall>q. attempt_of t oid s' q \<and> pa_status q = S_pending \<longrightarrow> q = p))"
proof -
  have t: "tenant_of c = t"
    using assms(2) by (simp add: tenant_of_def)
  have run: "pay_again gw pid c oid s = Inr (Inr link, s')"
    using assms(3) by (simp add: pay_again_op_Inr)
  have view: "order_view s' = order_view s"
    by (rule pay_again_view [OF run])
  have ok': "payments_ok s'"
    using withinD [OF pay_again_inv run] assms(1) by (simp add: holds_on_def)
  from run have "\<exists>ord p. get_order t oid s = Some ord \<and> payable ord \<and> shop_takes t s \<and>
      latest_attempt t oid s' = Some p \<and> link = link_of p \<and> pa_gross_amount p = or_total ord \<and>
      pa_status p = S_pending \<and> pa_snap_token p \<noteq> None \<and> pa_redirect_url p \<noteq> None \<and>
      (s' = s \<or> go_div (pa_gross_amount p) 100 * 100 = or_total ord)"
  proof (cases rule: pay_again_Inr)
    case (live ord p)
    then show ?thesis by (auto simp: t live_def)
  next
    case (fresh ord st)
    have "or_id ord = oid"
      using fresh(1) get_order_Some by blast
    from this obtain q where q: "latest_attempt t oid s' = Some q" "pa_status q = S_pending"
      "pa_gross_amount q = or_total ord" "whole_rupiah (or_total ord) = Inr ()"
      "link = link_of q \<and> pa_snap_token q \<noteq> None \<and> pa_redirect_url q \<noteq> None"
      by (rule fresh_attempt [OF assms(1) _ fresh(5)]) (auto simp: t)
    then have "go_div (pa_gross_amount q) 100 * 100 = or_total ord"
      by (simp add: whole_rupiah_Inr go_div_100)
    then show ?thesis
      using q fresh(1-3) by (auto simp: t)
  qed
  then obtain ord p where f: "get_order t oid s = Some ord" "payable ord" "shop_takes t s"
      "latest_attempt t oid s' = Some p" "link = link_of p" "pa_gross_amount p = or_total ord"
      "pa_status p = S_pending" "pa_snap_token p \<noteq> None" "pa_redirect_url p \<noteq> None"
      "s' = s \<or> go_div (pa_gross_amount p) 100 * 100 = or_total ord"
    by blast
  have again: "pay_again_op gw' pid' c' oid s' = (Inr (link_of p), s')"
  proof (rule pay_again_live [OF assms(4)])
    show "live c' p ord"
      using f assms(5) by (simp add: live_def link_of_def)
  qed (use f in \<open>simp_all add: get_order_view [OF view] shop_takes_view [OF view]\<close>)
  have "q = p" if q: "attempt_of t oid s' q" "pa_status q = S_pending" for q
  proof -
    have p: "attempt_of t oid s' p"
      using latest_attempt_Some f(4) by blast
    have "inj_on pa_order (set (filter (\<lambda>p. pa_status p = S_pending) (payments s')))"
      using ok' by (simp add: good_payments_def distinct_map)
    then show ?thesis
      using p q f(7) by (auto simp: attempt_of_def inj_on_def)
  qed
  then show ?thesis
    using again f by (auto simp: payable_def)
qed

text \<open>A Midtrans that fails costs an attempt and nothing else (BR-123): the answer is 502, the
  attempt it was asked for stays behind without a link, one higher than the last, under an id no
  earlier attempt of the shop was ever offered under, every older attempt of the order is no
  longer pending, and the order itself is untouched.\<close>

theorem pay_again_failure:
  assumes "payments_ok s" and "c_tenant c = Some t" and "pay_again_op gw pid c oid s = (Inl e, s')" and "s' \<noteq> s"
  shows "e_status e = 502 \<and> order_view s' = order_view s \<and>
    (\<exists>q. latest_attempt t oid s' = Some q \<and> pa_status q = S_pending \<and> pa_snap_token q = None \<and>
      pa_attempt q = next_attempt c oid s \<and>
      (\<forall>p. attempt_of t oid s p \<longrightarrow> pa_attempt p < pa_attempt q) \<and>
      (\<forall>p \<in> set (payments s). pa_tenant p = t \<longrightarrow> pa_provider_order_id p \<noteq> pa_provider_order_id q) \<and>
      (\<forall>p. attempt_of t oid s' p \<and> p \<noteq> q \<longrightarrow> pa_status p \<noteq> S_pending))"
proof -
  have t: "tenant_of c = t"
    using assms(2) by (simp add: tenant_of_def)
  have "fst (in_tenant_tx c (pay_again gw pid c oid) s) \<noteq> Inl e'" for e'
    using in_tenant_tx_failed [of c "pay_again gw pid c oid" s e'] assms(3,4)
    by (auto simp: pay_again_op_def split: prod.splits sum.splits)
  then obtain e0 where run: "pay_again gw pid c oid s = Inr (Inl e0, s')" and e: "e = payment_unavailable e0"
    using assms(2,3)
    by (auto simp: pay_again_op_def in_tenant_tx_def run_tx_def split: prod.splits sum.splits option.splits)
  from run show ?thesis
  proof (cases rule: pay_again_Inr)
    case (live ord p)
    then show ?thesis by simp
  next
    case (fresh ord st)
    have id: "or_id ord = oid"
      using fresh(1) get_order_Some by blast
    obtain q where q: "latest_attempt t oid s' = Some q"
      "\<forall>x. attempt_of t oid s' x \<and> pa_status x = S_pending \<longrightarrow> x = q" "pa_status q = S_pending"
      "pa_attempt q = next_attempt c oid s" "pa_snap_token q = None"
      and ids: "\<forall>x \<in> set (payments (before_attempt c oid s)). pa_tenant x = t \<longrightarrow>
       pa_provider_order_id x \<noteq> pa_provider_order_id q" and ok: "payments s' = payments (before_attempt c oid s) @ [q]"
      by (rule fresh_attempt [OF assms(1) id fresh(5)]) (auto simp: t)
    have ids': "pa_provider_order_id p \<noteq> pa_provider_order_id q" if p: "p \<in> set (payments s)" "pa_tenant p = t" for p
    proof (cases "latest_attempt t oid s")
      case None
      then show ?thesis using ids p by (simp add: before_attempt_def t)
    next
      case (Some l)
      have "(if pa_tenant p = t \<and> pa_id p = pa_id l then stale c p else p) \<in> set (payments (before_attempt c oid s))"
        using p(1) Some by (auto simp: before_attempt_def t upd_payment_def row_upd_def)
      then show ?thesis
        using ids p(2) keeps_attempt_writes(1) [of c] by (auto simp: keeps_attempt_def split: if_splits)
    qed
    have "payments_ok s'"
      using withinD [OF pay_again_inv run] assms(1) by (simp add: holds_on_def)
    then have "1 \<le> next_attempt c oid s"
      using q ok by (auto simp: good_payments_def good_payment_def payment_check_def)
    then have "\<forall>p. attempt_of t oid s p \<longrightarrow> pa_attempt p < pa_attempt q"
      using next_attempt_greater [OF assms(1)] q(4) t by metis
    then show ?thesis
      using q ids' pay_again_view [OF run]
      by (intro conjI exI [of _ q]) (auto simp: e payment_unavailable_def with_cause_def)
  qed
qed

section \<open>Sample payments\<close>

definition midtrans_order :: order where
  "midtrans_order = sample_order\<lparr>or_id := 20, or_number := ''ERG-000009'', or_payment_method := S_midtrans,
     or_source := S_storefront\<rparr>"

definition sample_payment :: payment where
  "sample_payment = \<lparr>pa_id = 90, pa_tenant = 1, pa_order = 20, pa_provider = S_midtrans,
     pa_provider_order_id = ''ERG-000009'', pa_attempt = 1, pa_status = S_pending, pa_gross_amount = 210000,
     pa_snap_token = None, pa_redirect_url = None, pa_expires_at = 900, pa_transaction_status = None,
     pa_last_notification = None, pa_paid_at = None, pa_created_at = 6, pa_updated_at = 6\<rparr>"

definition pay_db :: db where
  "pay_db = cart_db\<lparr>orders := [midtrans_order], payments := [sample_payment]\<rparr>"

definition sample_gateway :: gateway where
  "sample_gateway = \<lparr>gw_snap = Some (\<lambda>env key req. Inr (''tok'', ''url'')), gw_open = Some (\<lambda>t k. Inr ''key''),
     gw_who = (\<lambda>x. (''Budi'', None, None)), gw_api_url = ''https://api'', gw_uuid_text = (\<lambda>u. ''id'')\<rparr>"

definition down_gateway :: gateway where
  "down_gateway = sample_gateway\<lparr>gw_snap := None\<rparr>"

lemma pay_db_ok: "payments_ok pay_db"
  by code_simp

theorem pay_again_once_witness:
  "\<exists>link s'. pay_again_op sample_gateway 91 sample_ctx 20 pay_db = (Inr link, s') \<and>
     pay_again_op down_gateway 92 sample_ctx 20 s' = (Inr link, s')"
proof -
  have "(case pay_again_op sample_gateway 91 sample_ctx 20 pay_db of (Inl _, _) \<Rightarrow> False
     | (Inr link, s') \<Rightarrow> c_clock sample_ctx < pl_expires_at link)"
    by code_simp
  then obtain link s' where r: "pay_again_op sample_gateway 91 sample_ctx 20 pay_db = (Inr link, s')"
    and e: "c_clock sample_ctx < pl_expires_at link"
    by (auto split: prod.splits sum.splits)
  show ?thesis
    using r pay_again_once [OF pay_db_ok sample_tenant(1) r sample_tenant(1) e] by blast
qed

theorem pay_again_failure_witness:
  "\<exists>e s'. pay_again_op down_gateway 91 sample_ctx 20 pay_db = (Inl e, s') \<and> e_status e = 502 \<and>
     (\<exists>q. latest_attempt 1 20 s' = Some q \<and> pa_attempt q = 2)"
proof -
  have "(case pay_again_op down_gateway 91 sample_ctx 20 pay_db of (Inr _, _) \<Rightarrow> False
     | (Inl e, s') \<Rightarrow> length (payments s') = 2)" "length (payments pay_db) = 1"
    "next_attempt sample_ctx 20 pay_db = 2"
    by code_simp+
  then obtain e s' where r: "pay_again_op down_gateway 91 sample_ctx 20 pay_db = (Inl e, s')"
    and len: "length (payments s') \<noteq> length (payments pay_db)"
    and k: "next_attempt sample_ctx 20 pay_db = 2"
    by (cases "pay_again_op down_gateway 91 sample_ctx 20 pay_db") (auto split: sum.splits)
  from len have n: "s' \<noteq> pay_db" by auto
  show ?thesis
    using r k pay_again_failure [OF pay_db_ok sample_tenant(1) r n] by auto
qed

end
