(* ===== verification/Checkout.thy ===== *)
theory Checkout
  imports Payments
begin

text \<open>
  The storefront checkout (internal/orders/checkout.go): a cart becomes an order once. The body of
  the transaction is \<open>checkout\<close>; \<open>checkout_op\<close> adds what happens after the commit, the order
  email and the request for a payment link.
\<close>

record checkout_input =
  xi_cart :: uuid
  xi_customer_id :: "uuid option"
  xi_customer :: string
  xi_shipping_address :: string
  xi_payment_method :: string
  xi_note :: "string option"
  xi_shipping :: ship_choice
  xi_destination :: string

record checkout_result =
  xr_order :: order
  xr_lines :: "order_line list"
  xr_created :: bool
  xr_payment :: "pay_link option"
  xr_payment_error :: bool

definition item_available :: "cart_line_row \<Rightarrow> bool" where
  "item_available it \<longleftrightarrow> cv_available it = Some True \<and> cv_price it \<noteq> None"

definition unavailable_field :: "cart_line_row \<Rightarrow> field" where
  "unavailable_field it = \<lparr>f_name = ''items'', f_detail = [], f_extra =
     [(''variant_id'', DId (cv_variant it)), (''sku'', case cv_sku it of None \<Rightarrow> DNull | Some x \<Rightarrow> DStr x),
      (''title'', DStr (title_snapshot (cv_product_title it) (cv_option_values it)))]\<rparr>"

definition checkout_line :: "cart_line_row \<Rightarrow> new_line" where
  "checkout_line it = \<lparr>nl_variant = cv_variant it, nl_qty = cv_qty it, nl_discount = 0,
     nl_sku = deref (cv_sku it), nl_title = title_snapshot (cv_product_title it) (cv_option_values it),
     nl_unit_price = (case cv_price it of None \<Rightarrow> 0 | Some p \<Rightarrow> p)\<rparr>"

definition err_not_taken :: "string \<Rightarrow> err" where
  "err_not_taken meth = field_error ''payment_method'' (''This shop does not take '' @ meth @ ''.'')"

definition checkout_order :: "checkout_input \<Rightarrow> cart_line_row list \<Rightarrow> ship_option \<Rightarrow> new_order" where
  "checkout_order inp items ship = \<lparr>no_source = S_storefront, no_payment_method = xi_payment_method inp,
     no_customer_id = xi_customer_id inp, no_cart = Some (xi_cart inp), no_customer = xi_customer inp,
     no_shipping_address = xi_shipping_address inp, no_note = xi_note inp, no_shipping = so_price ship,
     no_shipping_courier = Some (so_courier ship), no_shipping_service = Some (so_service ship),
     no_lines = map checkout_line items\<rparr>"

type_synonym checked = "order \<times> order_line list \<times> bool \<times> payment option \<times> storefront_setting"

text \<open>The zero \<open>StorefrontSetting\<close> of a replay, which nothing reads.\<close>

definition zero_settings :: storefront_setting where
  "zero_settings = default_settings\<lparr>st_bank_transfer_enabled := False\<rparr>"

text \<open>The branch of a cart that is already checked out: the order it became.\<close>

definition replay :: "ctx \<Rightarrow> uuid \<Rightarrow> checked stmt" where
  "replay c cid =
    bindT (order_by_cart c cid) (\<lambda>ord.
    bindT (get_order_lines c (or_id ord)) (\<lambda>ls.
    bindT (tryT (latest_payment c (or_id ord))) (\<lambda>p.
    case p of
      Inr q \<Rightarrow> retT (ord, ls, False, Some q, zero_settings)
    | Inl e \<Rightarrow> if err_is e NoRows
        then retT (ord, ls, False, None, zero_settings) else failT e)))"

definition first_attempt :: "uuid \<Rightarrow> ctx \<Rightarrow> string \<Rightarrow> order \<Rightarrow> payment option stmt" where
  "first_attempt pid c meth ord =
    (if meth = S_midtrans
     then thenT (liftT (whole_rupiah (or_total ord)))
       (bindT (new_attempt pid c ord 1) (\<lambda>p. retT (Some p)))
     else retT None)"

definition make_order :: "rates \<Rightarrow> (nat \<Rightarrow> uuid) \<Rightarrow> ctx \<Rightarrow> checkout_input \<Rightarrow> cart_line_row list \<Rightarrow> checked stmt" where
  "make_order rates ids c inp items =
    bindT (settings_of c) (\<lambda>st.
    if \<not> takes st (xi_payment_method inp) then failT (err_not_taken (xi_payment_method inp))
    else
      bindT (quote rates c (cart_parcel items (xi_destination inp))) (\<lambda>opts.
      bindT (liftT (chosen opts (xi_shipping inp))) (\<lambda>ship.
      bindT (insert ids c (checkout_order inp items ship)) (\<lambda>ord.
      bindT (first_attempt (ids (Suc (length items))) c (xi_payment_method inp) ord) (\<lambda>attempt.
      thenT (check_out_cart c (xi_cart inp))
      (thenT (audit c (create_audit ord))
      (bindT (get_order_lines c (or_id ord)) (\<lambda>ls.
       retT (ord, ls, True, attempt, st)))))))))"

definition checkout :: "rates \<Rightarrow> (nat \<Rightarrow> uuid) \<Rightarrow> ctx \<Rightarrow> checkout_input \<Rightarrow> checked stmt" where
  "checkout rates ids c inp =
    bindT (mapErrT (\<lambda>e. if err_is e NoRows then err_no_cart else e) (lock_cart c (xi_cart inp))) (\<lambda>cart.
    if ca_status cart = S_checked_out then replay c (xi_cart inp)
    else if \<not> c_clock c < ca_expires_at cart then failT err_no_cart
    else
      bindT (cart_lines c (xi_cart inp)) (\<lambda>items.
      if items = [] then failT empty_cart
      else if \<exists>it \<in> set items. \<not> item_available it
      then failT (item_unavailable (map unavailable_field (filter (\<lambda>it. \<not> item_available it) items)))
      else make_order rates ids c inp items))"

definition checkout_op ::
  "rates \<Rightarrow> mailer \<Rightarrow> gateway \<Rightarrow> (nat \<Rightarrow> uuid) \<Rightarrow> ctx \<Rightarrow> checkout_input \<Rightarrow> world \<Rightarrow> (err + checkout_result) \<times> world" where
  "checkout_op rates m gw ids c inp w =
    (case in_tenant_tx c (checkout rates ids c inp) (w_db w) of
      (Inl e, s) \<Rightarrow> (Inl e, w\<lparr>w_db := s\<rparr>)
    | (Inr (ord, ls, created, attempt, st), s) \<Rightarrow>
        let mail = (if created then queue_mail m ''order_placed'' (or_tenant ord) (or_id ord) (w_mail w) else w_mail w);
            res = (\<lambda>link failed. \<lparr>xr_order = ord, xr_lines = ls, xr_created = created,
                     xr_payment = link, xr_payment_error = failed\<rparr>)
        in if or_payment_method ord \<noteq> S_midtrans then (Inr (res None False), w\<lparr>w_db := s, w_mail := mail\<rparr>)
           else case (created, attempt) of
             (True, Some p) \<Rightarrow>
               (case open_snap gw c st ord p s of
                 (Inl e, s') \<Rightarrow> (Inr (res None True), w\<lparr>w_db := s', w_mail := mail\<rparr>)
               | (Inr link, s') \<Rightarrow> (Inr (res (Some link) False), w\<lparr>w_db := s', w_mail := mail\<rparr>))
           | (False, Some p) \<Rightarrow>
               if live c p ord then (Inr (res (Some (link_of p)) False), w\<lparr>w_db := s, w_mail := mail\<rparr>)
               else (Inr (res None True), w\<lparr>w_db := s, w_mail := mail\<rparr>)
           | (_, None) \<Rightarrow> (Inr (res None True), w\<lparr>w_db := s, w_mail := mail\<rparr>))"

section \<open>Isolation and invariants\<close>

lemma replay_isolated [isolation]: "within (isolated t) (replay c cid)"
  unfolding replay_def by (intro iso.rules isolation)

lemma first_attempt_isolated [isolation]: "tenant_of c = t \<Longrightarrow> within (isolated t) (first_attempt pid c meth ord)"
  unfolding first_attempt_def by (intro iso.rules isolation)

lemma make_order_isolated [isolation]: "tenant_of c = t \<Longrightarrow> within (isolated t) (make_order rates ids c inp items)"
  unfolding make_order_def by (intro iso.rules isolation)

lemma checkout_isolated [isolation]: "tenant_of c = t \<Longrightarrow> within (isolated t) (checkout rates ids c inp)"
  unfolding checkout_def by (intro iso.rules isolation)

text \<open>Statements that read, for invariants of any part of the state.\<close>

lemma holds_same: "(\<And>s x s'. m s = Inr (x, s') \<Longrightarrow> s' = s) \<Longrightarrow> within (holds_on I) m"
  by (rule inv.failed_or_same)

lemma reads_hold:
  "within (holds_on I) (lock_cart c cid)" "within (holds_on I) (order_by_cart c cid)"
  "within (holds_on I) (get_order_lines c oid)" "within (holds_on I) (latest_payment c oid)"
  "within (holds_on I) (settings_of c)" "within (holds_on I) (quote rates c p)"
  "within (holds_on I) (cart_lines c cid)" "within (holds_on I) (lock_order c oid)"
  "within (holds_on I) (lock_payment c pid)" "within (holds_on I) (payment_by_provider_order_id c n)"
  by (rule holds_same;
      simp add: lock_cart_def order_by_cart_def get_order_lines_def latest_payment_def settings_of_Inr
        cart_lines_def lock_order_def lock_payment_def payment_by_provider_order_id_def quote_reads)+

lemma replay_holds: "within (holds_on I) (replay c cid)"
  unfolding replay_def by (intro inv.rules reads_hold)

lemma order_frame_good: "within (same order_view) m \<Longrightarrow> within (holds_on good_orders) m"
  by (auto simp: within_def same_def holds_on_def order_view_def good_orders_def)

lemma check_out_cart_holds:
  "within (holds_on good_orders) (check_out_cart c cid)" "within (holds_on payments_ok) (check_out_cart c cid)"
  by (auto simp: within_def holds_on_def check_out_cart_def good_orders_def)

lemma insert_payments: "insert ids c x s = Inr (ord, s') \<Longrightarrow> payments s' = payments s"
  by (drule insert_Inr) simp

lemma insert_payments_ok: "within (holds_on payments_ok) (insert ids c x)"
  by (auto simp: within_def holds_on_def insert_payments)

lemma first_attempt_good: "within (holds_on good_orders) (first_attempt pid c meth ord)"
  unfolding first_attempt_def new_attempt_def
  by (intro inv.rules order_frame_good order_frame)

lemma first_attempt_payments: "within (holds_on payments_ok) (first_attempt pid c meth ord)"
  unfolding first_attempt_def new_attempt_def by (intro inv.rules pay_inv)

lemma checkout_keeps_good: "within (holds_on good_orders) (checkout rates ids c inp)"
  unfolding checkout_def make_order_def
  by (intro inv.rules reads_hold replay_holds insert_keeps_good first_attempt_good check_out_cart_holds
      order_frame_good [OF audit_frame])

lemma checkout_inv [pay_inv]: "within (holds_on payments_ok) (checkout rates ids c inp)"
  unfolding checkout_def make_order_def
  by (intro inv.rules reads_hold replay_holds insert_payments_ok first_attempt_payments check_out_cart_holds pay_inv)

section \<open>How a checkout returns\<close>

definition lines_of :: "uuid \<Rightarrow> uuid \<Rightarrow> db \<Rightarrow> order_line list" where
  "lines_of t oid s = sort_key ol_id (filter (\<lambda>l. ol_tenant l = t \<and> ol_order l = oid) (order_lines s))"

definition cart_order :: "uuid \<Rightarrow> uuid \<Rightarrow> db \<Rightarrow> order option" where
  "cart_order t cid s = find (\<lambda>r. or_tenant r = t \<and> or_cart r = Some cid) (orders s)"

definition items_of :: "ctx \<Rightarrow> uuid \<Rightarrow> db \<Rightarrow> cart_line_row list" where
  "items_of c cid s = List.map_filter (cart_line_of (c_now c) (tenant_of c) s)
     (sort_key (\<lambda>i. (ci_added_at i, ci_variant i))
        (filter (\<lambda>i. ci_tenant i = tenant_of c \<and> ci_cart i = cid) (cart_items s)))"

definition checked_out :: "ctx \<Rightarrow> cart \<Rightarrow> cart" where
  "checked_out c row = row\<lparr>ca_status := S_checked_out, ca_updated_at := c_now c\<rparr>"

lemma checked_out_keeps [simp]: "keeps_key ca_tenant ca_id (checked_out c)"
  by (simp add: keeps_key_def checked_out_def)

lemma check_out_cart_Inr [simp]: "check_out_cart c cid s = Inr (u, s') \<longleftrightarrow> s' = upd_cart (tenant_of c) cid (checked_out c) s"
  by (simp add: check_out_cart_def checked_out_def [abs_def])

lemma get_order_lines_Inr: "get_order_lines c oid s = Inr (ls, s') \<longleftrightarrow> s' = s \<and> ls = lines_of (tenant_of c) oid s"
  by (auto simp: get_order_lines_def lines_of_def)

lemma cart_lines_Inr: "cart_lines c cid s = Inr (items, s') \<longleftrightarrow> s' = s \<and> items = items_of c cid s"
  by (auto simp: cart_lines_def items_of_def)

lemma order_by_cart_Inr: "order_by_cart c cid s = Inr (ord, s') \<longleftrightarrow> s' = s \<and> cart_order (tenant_of c) cid s = Some ord"
  by (auto simp: order_by_cart_def cart_order_def)

lemma replay_Inr: "replay c cid s = Inr (r, s') \<longleftrightarrow> s' = s \<and>
    (\<exists>ord. cart_order (tenant_of c) cid s = Some ord \<and>
      r = (ord, lines_of (tenant_of c) (or_id ord) s, False, latest_attempt (tenant_of c) (or_id ord) s, zero_settings))"
proof -
  have tail: "bindT (tryT (latest_payment c oid)) (\<lambda>p. case p of
      Inr q \<Rightarrow> retT (ord, ls, False, Some q, zero_settings)
    | Inl e \<Rightarrow> if err_is e NoRows then retT (ord, ls, False, None, zero_settings) else failT e) s
    = Inr ((ord, ls, False, latest_attempt (tenant_of c) oid s, zero_settings), s)" for oid ord ls
  proof (cases "latest_attempt (tenant_of c) oid s")
    case None
    then have "latest_payment c oid s = Inl NoRows" by (simp add: latest_payment_Inl)
    then show ?thesis using None by (simp add: bindT_def tryT_def retT_def)
  next
    case (Some q)
    then have "latest_payment c oid s = Inr (q, s)" by (simp add: latest_payment_Inr)
    then show ?thesis using Some by (simp add: bindT_def tryT_def retT_def)
  qed
  show ?thesis
    unfolding replay_def bindT_Inr [of "order_by_cart c cid"] bindT_Inr [of "get_order_lines c oid" for oid]
      order_by_cart_Inr get_order_lines_Inr
    by (auto simp: tail)
qed

lemma first_attempt_Inr: "first_attempt pid c meth ord s = Inr (a, s') \<longleftrightarrow>
    (if meth = S_midtrans
     then whole_rupiah (or_total ord) = Inr () \<and> (\<exists>q. a = Some q \<and> new_attempt pid c ord 1 s = Inr (q, s'))
     else a = None \<and> s' = s)"
  by (auto simp: first_attempt_def thenT_Inr bindT_Inr)

lemma checkout_Inr:
  assumes "checkout rates ids c inp s = Inr (r, s')"
  obtains (replay) cart where "get_cart (tenant_of c) (xi_cart inp) s = Some cart" "ca_status cart = S_checked_out"
      "replay c (xi_cart inp) s = Inr (r, s')"
  | (made) cart st opts ship ord s1 attempt s2 where
      "get_cart (tenant_of c) (xi_cart inp) s = Some cart" "ca_status cart \<noteq> S_checked_out"
      "c_clock c < ca_expires_at cart" "items_of c (xi_cart inp) s \<noteq> []"
      "\<forall>it \<in> set (items_of c (xi_cart inp) s). item_available it"
      "takes st (xi_payment_method inp)"
      "quote rates c (cart_parcel (items_of c (xi_cart inp) s) (xi_destination inp)) s = Inr (opts, s)"
      "chosen opts (xi_shipping inp) = Inr ship"
      "insert ids c (checkout_order inp (items_of c (xi_cart inp) s) ship) s = Inr (ord, s1)"
      "first_attempt (ids (Suc (length (items_of c (xi_cart inp) s)))) c (xi_payment_method inp) ord s1 = Inr (attempt, s2)"
      "s' = add_audit c (create_audit ord) (upd_cart (tenant_of c) (xi_cart inp) (checked_out c) s2)"
      "r = (ord, lines_of (tenant_of c) (or_id ord) s', True, attempt, st)"
proof -
  obtain cart where cart: "get_cart (tenant_of c) (xi_cart inp) s = Some cart"
    and rest: "(if ca_status cart = S_checked_out then replay c (xi_cart inp)
    else if \<not> c_clock c < ca_expires_at cart then failT err_no_cart
    else
      bindT (cart_lines c (xi_cart inp)) (\<lambda>items.
      if items = [] then failT empty_cart
      else if \<exists>it \<in> set items. \<not> item_available it
      then failT (item_unavailable (map unavailable_field (filter (\<lambda>it. \<not> item_available it) items)))
      else make_order rates ids c inp items)) s = Inr (r, s')"
    using assms unfolding checkout_def by (auto simp: bindT_Inr [of "mapErrT _ _"] lock_cart_def)
  show thesis
  proof (cases "ca_status cart = S_checked_out")
    case True
    then show thesis using rest by (intro replay [OF cart]) simp_all
  next
    case False
    define items where "items = items_of c (xi_cart inp) s"
    have fresh: "c_clock c < ca_expires_at cart" "items \<noteq> []" "\<forall>it \<in> set items. item_available it"
      and make: "make_order rates ids c inp items s = Inr (r, s')"
      using rest False
      by (auto simp: bindT_Inr [of "cart_lines c _"] cart_lines_Inr items_def split: if_splits)
    from make obtain st opts sq ship ord s1 attempt s2 ls where takes: "takes st (xi_payment_method inp)"
      and q: "quote rates c (cart_parcel items (xi_destination inp)) s = Inr (opts, sq)"
      and ship: "chosen opts (xi_shipping inp) = Inr ship"
      and ins: "insert ids c (checkout_order inp items ship) sq = Inr (ord, s1)"
      and fa: "first_attempt (ids (Suc (length items))) c (xi_payment_method inp) ord s1 = Inr (attempt, s2)"
      and s': "s' = add_audit c (create_audit ord) (upd_cart (tenant_of c) (xi_cart inp) (checked_out c) s2)"
      and r: "r = (ord, lines_of (tenant_of c) (or_id ord) s', True, attempt, st)"
      unfolding make_order_def bindT_Inr thenT_Inr settings_of_Inr get_order_lines_Inr check_out_cart_Inr audit_Inr
      by (auto split: if_splits simp: bindT_Inr thenT_Inr get_order_lines_Inr)
    show thesis
      using q quote_reads [OF q] ship ins fa s' r takes fresh
      by (intro made [OF cart False]) (simp_all add: items_def)
  qed
qed

section \<open>Once per cart\<close>

definition replay_payment :: "ctx \<Rightarrow> order \<Rightarrow> payment option \<Rightarrow> pay_link option \<times> bool" where
  "replay_payment c ord attempt =
    (if or_payment_method ord \<noteq> S_midtrans then (None, False)
     else case attempt of None \<Rightarrow> (None, True)
       | Some p \<Rightarrow> if live c p ord then (Some (link_of p), False) else (None, True))"

lemma checkout_replays:
  assumes "c_tenant c = Some t" and "get_cart t (xi_cart inp) (w_db w) = Some cart"
    and "ca_status cart = S_checked_out" and "cart_order t (xi_cart inp) (w_db w) = Some ord"
  shows "checkout_op rates m gw ids c inp w =
    (Inr \<lparr>xr_order = ord, xr_lines = lines_of t (or_id ord) (w_db w), xr_created = False,
       xr_payment = fst (replay_payment c ord (latest_attempt t (or_id ord) (w_db w))),
       xr_payment_error = snd (replay_payment c ord (latest_attempt t (or_id ord) (w_db w)))\<rparr>, w)"
proof -
  have t: "tenant_of c = t"
    using assms(1) by (simp add: tenant_of_def)
  have "replay c (xi_cart inp) (w_db w) =
      Inr ((ord, lines_of t (or_id ord) (w_db w), False, latest_attempt t (or_id ord) (w_db w), zero_settings), w_db w)"
    by (subst replay_Inr) (simp add: t assms(4))
  then have "checkout rates ids c inp (w_db w) =
      Inr ((ord, lines_of t (or_id ord) (w_db w), False, latest_attempt t (or_id ord) (w_db w), zero_settings), w_db w)"
    unfolding checkout_def
    by (simp add: bindT_def [of "mapErrT _ _"] mapErrT_def lock_cart_def oneT_def t assms(2,3))
  then show ?thesis
    using assms(1)
    by (auto simp: checkout_op_def in_tenant_tx_def run_tx_def replay_payment_def Let_def split: option.splits)
qed

text \<open>Payments belong to orders.\<close>

definition payment_refs :: "db \<Rightarrow> bool" where
  "payment_refs s \<longleftrightarrow> (\<forall>p \<in> set (payments s). pa_order p \<in> or_id ` set (orders s))"

lemma first_attempt_view: "first_attempt pid c meth ord s = Inr (a, s') \<Longrightarrow> order_view s' = order_view s"
  by (auto simp: first_attempt_Inr new_attempt_Inr order_view_def split: if_splits)

lemma insert_row:
  assumes "insert ids c x s = Inr (ord, s')"
  shows "or_tenant ord = tenant_of c \<and> or_cart ord = no_cart x \<and> or_payment_method ord = no_payment_method x \<and>
    or_customer_id ord = no_customer_id x \<and> or_source ord = no_source x \<and> or_status ord = S_pending \<and>
    or_shipping ord = no_shipping x \<and> or_subtotal ord = sum64 (map line_amount (no_lines x)) \<and>
    or_total ord = or_subtotal ord + or_shipping ord - or_discount ord \<and> or_id ord = ids 0 \<and>
    or_number ord = order_number (prefix_of (tenant_of c) s) (sequence_of (tenant_of c) s + 1) \<and>
    or_discount ord = sum64 (map nl_discount (no_lines x)) \<and> order_unique ord s"
proof -
  have ord: "ord = new_order_row c (new_order_params (ids 0) (prefix_of (tenant_of c) s) (sequence_of (tenant_of c) s + 1) x)"
    and check: "order_check ord" and u: "order_unique ord s"
    using insert_Inr [OF assms] by blast+
  have "or_total ord = or_subtotal ord + or_shipping ord - or_discount ord"
    using check by (simp add: order_check_def)
  then show ?thesis
    using u by (simp add: ord new_order_row_def new_order_params_def Let_def)
qed

lemma made_state:
  assumes "get_cart t cid s = Some cart" and "tenant_of c = t" and "no_cart x = Some cid" and "payment_refs s"
    and ins: "insert ids c x s = Inr (ord, s1)" and fa: "first_attempt pid c meth ord s1 = Inr (attempt, s2)"
    and s': "s' = add_audit c e (upd_cart t cid (checked_out c) s2)"
  shows "get_cart t cid s' = Some (checked_out c cart) \<and> cart_order t cid s' = Some ord \<and>
    latest_attempt t (or_id ord) s' = attempt"
proof (intro conjI)
  have carts1: "carts s1 = carts s" and orders1: "orders s1 = orders s @ [ord]" and pay1: "payments s1 = payments s"
    using insert_Inr [OF ins] by auto
  have view: "order_view s2 = order_view s1"
    by (rule first_attempt_view [OF fa])
  have "get_cart t cid s2 = Some cart"
    using assms(1) view carts1 by (simp add: order_view_def get_cart_def)
  then show "get_cart t cid s' = Some (checked_out c cart)"
    by (simp add: s' get_cart_def upd_cart_def rows.get_same)
  have row: "or_tenant ord = t" "or_cart ord = Some cid" "order_unique ord s"
    using insert_row [OF ins] assms(2,3) by simp_all
  have "find (\<lambda>r. or_tenant r = t \<and> or_cart r = Some cid) (orders s) = None"
    using row(2,3) by (auto simp: find_None_iff order_unique_def list_all_iff)
  then show "cart_order t cid s' = Some ord"
    using row view orders1 by (simp add: cart_order_def s' order_view_def find_append)
  have none: "\<not> attempt_of t (or_id ord) s1 p" for p
    using assms(4) row(3) pay1 by (auto simp: attempt_of_def payment_refs_def order_unique_def list_all_iff)
  have "latest_attempt t (or_id ord) s2 = attempt"
  proof (cases "meth = S_midtrans")
    case True
    then obtain q where q: "attempt = Some q" "new_attempt pid c ord 1 s1 = Inr (q, s2)"
      using fa by (auto simp: first_attempt_Inr)
    then have "attempt_of t (or_id ord) s2 x \<longleftrightarrow> x = q" for x
      using none assms(2) by (auto simp: new_attempt_Inr attempt_of_def new_payment_def attempt_params_def)
    then show ?thesis
      using latest_attempt_is [of t "or_id ord" s2 q] q(1) by simp
  next
    case False
    then show ?thesis
      using fa none by (simp add: first_attempt_Inr latest_attempt_None)
  qed
  then show "latest_attempt t (or_id ord) s' = attempt"
    by (simp add: s' latest_attempt_def order_payments_of_def)
qed

lemma open_snap_cases:
  assumes "open_snap gw c st ord p s = (r, s')" and "c_tenant c = Some t"
  shows "(\<exists>e. r = Inl e \<and> s' = s) \<or> (\<exists>link. r = Inr link \<and> pl_expires_at link = pa_expires_at p \<and>
    s' = upd_payment t (pa_id p) (linked c (pl_token link) (pl_redirect_url link)) s)"
proof (cases "snap gw st ord p")
  case (Inl e)
  then have "r = Inl e" "s' = s" using assms(1) by (simp_all add: open_snap_def)
  then show ?thesis by blast
next
  case (Inr link)
  have ttl: "pl_expires_at link = pa_expires_at p"
    using Inr by (auto simp: snap_def split: option.splits sum.splits prod.splits)
  have store: "set_payment_link c (pa_id p) (Some (pl_token link)) (Some (pl_redirect_url link)) s =
      Inr ((), upd_payment t (pa_id p) (linked c (pl_token link) (pl_redirect_url link)) s)"
    using assms(2) by (subst set_link_Inr) (simp add: tenant_of_def)
  have "(r, s') = (Inr link, upd_payment t (pa_id p) (linked c (pl_token link) (pl_redirect_url link)) s)"
    using assms by (simp add: open_snap_def Inr in_tenant_tx_def run_tx_def store del: set_link_Inr)
  then show ?thesis
    using ttl by blast
qed

lemma linked_latest:
  assumes "latest_attempt t oid s = Some p"
  shows "latest_attempt t oid (upd_payment t (pa_id p) (linked c tok url) s) \<noteq> None \<and>
    (payments_ok s \<longrightarrow> latest_attempt t oid (upd_payment t (pa_id p) (linked c tok url) s) = Some (linked c tok url p))"
proof -
  let ?s = "upd_payment t (pa_id p) (linked c tok url) s"
  have p: "attempt_of t oid s p" and max: "\<And>q. attempt_of t oid s q \<Longrightarrow> pa_attempt q \<le> pa_attempt p"
    using latest_attempt_Some [OF assms] by blast+
  have ps: "payments ?s = map (\<lambda>r. if pa_tenant r = t \<and> pa_id r = pa_id p then linked c tok url r else r) (payments s)"
    by (simp add: upd_payment_def row_upd_def)
  have in': "attempt_of t oid ?s (linked c tok url p)"
  proof -
    have "linked c tok url p \<in> set (payments ?s)"
      unfolding ps set_map using p by (intro image_eqI [of _ _ p]) (simp_all add: attempt_of_def)
    then show ?thesis using p by (simp add: attempt_of_def linked_def)
  qed
  have "latest_attempt t oid ?s = Some (linked c tok url p)" if ok: "payments_ok s"
  proof (rule latest_attempt_is [OF in'])
    fix q
    assume q: "attempt_of t oid ?s q"
    then have "q \<in> (\<lambda>r. if pa_tenant r = t \<and> pa_id r = pa_id p then linked c tok url r else r) ` set (payments s)"
      unfolding attempt_of_def ps set_map by (rule conjunct1)
    then obtain y where "y \<in> set (payments s)"
      and qy: "q = (if pa_tenant y = t \<and> pa_id y = pa_id p then linked c tok url y else y)"
      by (elim imageE)
    then have y: "attempt_of t oid s y"
      using q by (simp add: attempt_of_def linked_def split: if_splits)
    have yt: "pa_tenant y = t" "pa_tenant p = t"
      using y p by (simp_all add: attempt_of_def)
    show "q = linked c tok url p \<or> pa_attempt q < pa_attempt (linked c tok url p)"
    proof (cases "y = p")
      case True
      then show ?thesis using qy yt by simp
    next
      case False
      have "inj_on pa_id (set (payments s))" "inj_on (\<lambda>p. (pa_order p, pa_attempt p)) (set (payments s))"
        using ok by (simp_all add: good_payments_def distinct_map)
      then have "pa_id y \<noteq> pa_id p" "pa_attempt y \<noteq> pa_attempt p"
        using False p y by (auto simp: attempt_of_def inj_on_def)
      then show ?thesis
        using max [OF y] qy by (simp add: linked_def)
    qed
  qed
  moreover have "latest_attempt t oid ?s \<noteq> None"
    using in' latest_attempt_None by blast
  ultimately show ?thesis by blast
qed

lemma open_snap_view: "open_snap gw c st ord p s = (r, s') \<Longrightarrow> c_tenant c = Some t \<Longrightarrow> order_view s' = order_view s"
  by (drule open_snap_cases) (auto simp: order_view_def upd_payment_def)

text \<open>The outcome of a checkout, before what the second call needs of it.\<close>

lemma checkout_outcome:
  assumes "c_tenant c = Some t" and "checkout_op rates m gw ids c inp w = (Inr res, w')"
    and "payments_ok (w_db w)" and "payment_refs (w_db w)"
  shows "\<exists>cart. get_cart t (xi_cart inp) (w_db w') = Some cart \<and> ca_status cart = S_checked_out \<and>
    cart_order t (xi_cart inp) (w_db w') = Some (xr_order res) \<and>
    xr_lines res = lines_of t (or_id (xr_order res)) (w_db w') \<and>
    (\<forall>link. xr_payment res = Some link \<longrightarrow> or_payment_method (xr_order res) = S_midtrans \<and>
      (\<exists>p. latest_attempt t (or_id (xr_order res)) (w_db w') = Some p \<and> link = link_of p \<and>
        (\<forall>c'. c_clock c' < pl_expires_at link \<longrightarrow> live c' p (xr_order res))))"
proof -
  have t: "tenant_of c = t"
    using assms(1) by (simp add: tenant_of_def)
  obtain ord ls created attempt st s where body: "checkout rates ids c inp (w_db w) = Inr ((ord, ls, created, attempt, st), s)"
    using assms(1,2)
    by (auto simp: checkout_op_def in_tenant_tx_def run_tx_def split: prod.splits sum.splits option.splits)
  have op: "checkout_op rates m gw ids c inp w =
      (let mail = (if created then queue_mail m ''order_placed'' (or_tenant ord) (or_id ord) (w_mail w) else w_mail w);
            res = (\<lambda>link failed. \<lparr>xr_order = ord, xr_lines = ls, xr_created = created,
                     xr_payment = link, xr_payment_error = failed\<rparr>)
        in if or_payment_method ord \<noteq> S_midtrans then (Inr (res None False), w\<lparr>w_db := s, w_mail := mail\<rparr>)
           else case (created, attempt) of
             (True, Some p) \<Rightarrow>
               (case open_snap gw c st ord p s of
                 (Inl e, s') \<Rightarrow> (Inr (res None True), w\<lparr>w_db := s', w_mail := mail\<rparr>)
               | (Inr link, s') \<Rightarrow> (Inr (res (Some link) False), w\<lparr>w_db := s', w_mail := mail\<rparr>))
           | (False, Some p) \<Rightarrow>
               if live c p ord then (Inr (res (Some (link_of p)) False), w\<lparr>w_db := s, w_mail := mail\<rparr>)
               else (Inr (res None True), w\<lparr>w_db := s, w_mail := mail\<rparr>)
           | (_, None) \<Rightarrow> (Inr (res None True), w\<lparr>w_db := s, w_mail := mail\<rparr>))"
    using assms(1) body by (simp add: checkout_op_def in_tenant_tx_def run_tx_def)
  from body show ?thesis
  proof (cases rule: checkout_Inr)
    case (replay cart)
    then have r: "s = w_db w" "cart_order t (xi_cart inp) s = Some ord" "ls = lines_of t (or_id ord) s" "\<not> created"
      "attempt = latest_attempt t (or_id ord) s"
      using replay_Inr [of c "xi_cart inp" "w_db w" "(ord, ls, created, attempt, st)" s] t by auto
    have "w' = w\<lparr>w_db := s\<rparr> \<and> xr_order res = ord \<and> xr_lines res = ls \<and>
        (\<forall>link. xr_payment res = Some link \<longrightarrow> or_payment_method ord = S_midtrans \<and>
           (\<exists>p. attempt = Some p \<and> link = link_of p \<and> live c p ord))"
      using assms(2) r(4) unfolding op by (auto simp: Let_def split: if_splits option.splits)
    then show ?thesis
      using replay(1,2) r t by (auto simp: live_def link_of_def)
  next
    case (made cart st' opts ship o' s1 a s2)
    then have eqs: "st' = st" "o' = ord" "a = attempt" "created" "ls = lines_of t (or_id ord) s"
      using t by auto
    have ins: "insert ids c (checkout_order inp (items_of c (xi_cart inp) (w_db w)) ship) (w_db w) = Inr (ord, s1)"
      using made eqs by simp
    have st: "get_cart t (xi_cart inp) s = Some (checked_out c cart) \<and> cart_order t (xi_cart inp) s = Some ord \<and>
        latest_attempt t (or_id ord) s = attempt"
      by (rule made_state [OF made(1)[unfolded t] t _ assms(4) ins made(10)[unfolded eqs] made(11)[unfolded t eqs]])
        (simp add: checkout_order_def)
    have ok: "payments_ok s"
      using withinD [OF checkout_inv body] assms(3) by (simp add: holds_on_def)
    show ?thesis
    proof (cases "\<exists>p. attempt = Some p \<and> or_payment_method ord = S_midtrans")
      case False
      then have "w_db w' = s \<and> xr_order res = ord \<and> xr_lines res = ls \<and> xr_payment res = None"
        using assms(2) eqs(4) unfolding op by (auto simp: Let_def split: if_splits option.splits)
      then show ?thesis
        using st eqs(5) by (auto simp: checked_out_def)
    next
      case True
      then obtain p where p: "attempt = Some p" "or_payment_method ord = S_midtrans" by blast
      obtain r s' where snap: "open_snap gw c st ord p s = (r, s')"
        by (metis prod.exhaust)
      have view: "order_view s' = order_view s"
        by (rule open_snap_view [OF snap assms(1)])
      have res: "w_db w' = s' \<and> xr_order res = ord \<and> xr_lines res = ls \<and>
          xr_payment res = (case r of Inl _ \<Rightarrow> None | Inr link \<Rightarrow> Some link)"
        using assms(2) eqs(4) p snap unfolding op by (auto simp: Let_def split: sum.splits)
      have "pa_status p = S_pending" "pa_gross_amount p = or_total ord" "latest_attempt t (or_id ord) s = Some p"
        using made(10) eqs p st
        by (auto simp: first_attempt_Inr new_attempt_Inr new_payment_def attempt_params_def split: if_splits)
      then have "\<exists>q. latest_attempt t (or_id ord) s' = Some q \<and> link = link_of q \<and>
          (\<forall>c'. c_clock c' < pl_expires_at link \<longrightarrow> live c' q ord)" if "r = Inr link" for link
        using open_snap_cases [OF snap assms(1)] that linked_latest [of t "or_id ord" s p] ok
        by (auto simp: live_def link_of_def linked_def deref_def)
      then show ?thesis
        using res st eqs(5) p view
        by (auto simp: checked_out_def order_view_def cart_order_def get_cart_def lines_of_def split: sum.splits)
    qed
  qed
qed

text \<open>C1. A cart becomes one order (BR-088, BR-123): whoever checks a cart out again after it succeeded,
  with whatever address, method or courier and whether or not Biteship or Midtrans still answer,
  gets the same order with the same lines, nothing is written and no email is sent; and the
  payment link, if there was one, is the same link until it expires.\<close>

theorem checkout_once:
  assumes "payments_ok (w_db w)" and "payment_refs (w_db w)" and "c_tenant c = Some t" and "c_tenant c' = Some t"
    and "checkout_op rates m gw ids c inp w = (Inr res, w')" and "xi_cart inp' = xi_cart inp"
  shows "\<exists>res'. checkout_op rates' m' gw' ids' c' inp' w' = (Inr res', w') \<and>
    xr_order res' = xr_order res \<and> xr_lines res' = xr_lines res \<and> \<not> xr_created res' \<and>
    (\<forall>link. xr_payment res = Some link \<and> c_clock c' < pl_expires_at link \<longrightarrow> xr_payment res' = Some link)"
proof -
  obtain cart where cart: "get_cart t (xi_cart inp') (w_db w') = Some cart" "ca_status cart = S_checked_out"
    "cart_order t (xi_cart inp') (w_db w') = Some (xr_order res)"
    "xr_lines res = lines_of t (or_id (xr_order res)) (w_db w')"
    and pay: "\<And>link. xr_payment res = Some link \<Longrightarrow> or_payment_method (xr_order res) = S_midtrans \<and>
      (\<exists>p. latest_attempt t (or_id (xr_order res)) (w_db w') = Some p \<and> link = link_of p \<and>
        (\<forall>c'. c_clock c' < pl_expires_at link \<longrightarrow> live c' p (xr_order res)))"
    using checkout_outcome [OF assms(3,5,1,2)] assms(6) by auto
  have "fst (replay_payment c' (xr_order res) (latest_attempt t (or_id (xr_order res)) (w_db w'))) = Some link"
    if "xr_payment res = Some link" "c_clock c' < pl_expires_at link" for link
    using pay [OF that(1)] that(2) by (auto simp: replay_payment_def)
  with checkout_replays [OF assms(4) cart(1-3), of rates' m' gw' ids'] cart(4) show ?thesis
    by simp
qed

section \<open>What a checkout makes\<close>

lemma items_of_shown:
  assumes "it \<in> set (items_of c cid s)" and "good_items (cart_items s)"
  shows "cv_price it = map_option (variant_price (c_now c)) (storefront_variant (tenant_of c) (cv_variant it) s) \<and>
    cv_qty it = qty_in (tenant_of c) cid (cv_variant it) s \<and> 1 \<le> cv_qty it \<and> cv_qty it \<le> 999"
proof -
  obtain i where i: "i \<in> set (cart_items s)" "ci_tenant i = tenant_of c" "ci_cart i = cid"
    "cart_line_of (c_now c) (tenant_of c) s i = Some it"
    using assms(1) by (auto simp: items_of_def map_filter_def)
  note shown = cart_line_shown [OF i(4)]
  then have key: "item_key i = (tenant_of c, cid, cv_variant it)"
    using i by (simp add: item_key_def)
  obtain j where j: "find (\<lambda>i. item_key i = (tenant_of c, cid, cv_variant it)) (cart_items s) = Some j"
    using key i(1) find_key_None [of item_key "(tenant_of c, cid, cv_variant it)" "cart_items s"]
    by (metis image_eqI option.exhaust)
  then have "j \<in> set (cart_items s)" "item_key j = item_key i"
    using key by (auto simp: find_Some_iff)
  then have "j = i"
    using assms(2) i(1) by (auto simp: good_items_def distinct_map inj_on_def)
  then show ?thesis
    using shown j i(1) assms(2) by (auto simp: qty_in_at qty_at_def good_items_def)
qed

definition item_price :: "cart_line_row \<Rightarrow> int" where
  "item_price it = (case cv_price it of None \<Rightarrow> 0 | Some p \<Rightarrow> p)"

text \<open>C9. A storefront order is the cart at today's prices (BR-046, BR-078, BR-090, BR-095, BR-121): a
  checkout that makes an order had an open cart whose every item is for sale now; the order is
  pending, belongs to the signed-in customer, names the cart, charges for each item its price now
  and for shipping the freshly quoted price of the chosen service, has no discount, and its
  total is their sum; the lines stored are the items with those prices; and for Midtrans the
  total is whole rupiah.\<close>

theorem checkout_charges_cart:
  assumes "c_tenant c = Some t" and "checkout_op rates m gw ids c inp w = (Inr res, w')" and "xr_created res"
    and "good_items (cart_items (w_db w))"
  shows "let items = items_of c (xi_cart inp) (w_db w); ord = xr_order res in
    (\<exists>cart. get_cart t (xi_cart inp) (w_db w) = Some cart \<and> ca_status cart \<noteq> S_checked_out \<and> c_clock c < ca_expires_at cart) \<and>
    items \<noteq> [] \<and>
    (\<forall>it \<in> set items. \<exists>v. storefront_variant t (cv_variant it) (w_db w) = Some v \<and>
       item_price it = variant_price (c_now c) v \<and> cv_qty it = qty_in t (xi_cart inp) (cv_variant it) (w_db w)) \<and>
    or_status ord = S_pending \<and> or_source ord = S_storefront \<and> or_customer_id ord = xi_customer_id inp \<and>
    or_cart ord = Some (xi_cart inp) \<and> or_payment_method ord = xi_payment_method inp \<and>
    or_subtotal ord = wrap64 (sum_list (map (\<lambda>it. item_price it * cv_qty it) items)) \<and> or_discount ord = 0 \<and>
    (\<exists>opts ship. quote rates c (cart_parcel items (xi_destination inp)) (w_db w) = Inr (opts, w_db w) \<and>
       chosen opts (xi_shipping inp) = Inr ship \<and> or_shipping ord = so_price ship) \<and>
    or_total ord = or_subtotal ord + or_shipping ord \<and>
    (or_payment_method ord = S_midtrans \<longrightarrow> 100 dvd or_total ord) \<and>
    orders (w_db w') = orders (w_db w) @ [ord] \<and>
    (\<exists>new. order_lines (w_db w') = order_lines (w_db w) @ new \<and>
       map (\<lambda>l. (ol_order l, ol_variant l, ol_qty l, ol_unit_price l, ol_discount l)) new =
       map (\<lambda>it. (or_id ord, cv_variant it, cv_qty it, item_price it, 0)) items)"
proof -
  define s where "s = w_db w"
  define items where "items = items_of c (xi_cart inp) s"
  have t: "tenant_of c = t"
    using assms(1) by (simp add: tenant_of_def)
  obtain ord ls attempt st s' where body: "checkout rates ids c inp s = Inr ((ord, ls, True, attempt, st), s')"
    and res: "xr_order res = ord" and view: "order_view (w_db w') = order_view s'"
  proof -
    obtain ord ls created attempt st s' where body: "checkout rates ids c inp s = Inr ((ord, ls, created, attempt, st), s')"
      using assms(1,2) unfolding s_def
      by (auto simp: checkout_op_def in_tenant_tx_def run_tx_def split: prod.splits sum.splits option.splits)
    obtain r0 s0 where snap: "(case attempt of None \<Rightarrow> (Inl NoRows, s') | Some p \<Rightarrow> open_snap gw c st ord p s') = (r0, s0)"
      by (metis prod.exhaust)
    then have "order_view s0 = order_view s'"
      using open_snap_view [OF _ assms(1)] by (cases attempt) auto
    moreover have "created \<and> xr_order res = ord \<and> (w_db w' = s' \<or> w_db w' = s0)"
      using assms body snap unfolding s_def
      by (auto simp: checkout_op_def in_tenant_tx_def run_tx_def Let_def split: if_splits sum.splits prod.splits option.splits)
    ultimately show thesis
      using body that by metis
  qed
  from body obtain cart opts ship s1 s2 where cart: "get_cart t (xi_cart inp) s = Some cart"
      "ca_status cart \<noteq> S_checked_out" "c_clock c < ca_expires_at cart"
    and items: "items \<noteq> []" "\<forall>it \<in> set items. item_available it"
    and q: "quote rates c (cart_parcel items (xi_destination inp)) s = Inr (opts, s)"
    and ship: "chosen opts (xi_shipping inp) = Inr ship"
    and ins: "insert ids c (checkout_order inp items ship) s = Inr (ord, s1)"
    and fa: "first_attempt (ids (Suc (length items))) c (xi_payment_method inp) ord s1 = Inr (attempt, s2)"
    and s': "s' = add_audit c (create_audit ord) (upd_cart t (xi_cart inp) (checked_out c) s2)"
  proof (cases rule: checkout_Inr)
    case (replay cart)
    then show thesis by (auto simp: replay_Inr)
  qed (auto simp: t items_def intro: that)
  have lines: "no_lines (checkout_order inp items ship) = map checkout_line items"
    by (simp add: checkout_order_def)
  have avail: "\<exists>v. storefront_variant t (cv_variant it) s = Some v \<and> item_price it = variant_price (c_now c) v \<and>
      cv_qty it = qty_in t (xi_cart inp) (cv_variant it) s \<and> is_i32 (cv_qty it)" if "it \<in> set items" for it
  proof -
    have shown: "cv_price it = map_option (variant_price (c_now c)) (storefront_variant t (cv_variant it) s)"
      "cv_qty it = qty_in t (xi_cart inp) (cv_variant it) s" "is_i32 (cv_qty it)"
      using items_of_shown [of it c "xi_cart inp" s] that assms(4) t by (simp_all add: items_def s_def is_i32_def)
    have "cv_price it \<noteq> None"
      using items(2) that by (simp add: item_available_def)
    with shown show ?thesis
      by (cases "storefront_variant t (cv_variant it) s") (simp_all add: item_price_def)
  qed
  have "map line_amount (map checkout_line items) = map wrap64 (map (\<lambda>it. item_price it * cv_qty it) items)"
    by (simp add: line_amount_def checkout_line_def item_price_def)
  then have sub: "sum64 (map line_amount (map checkout_line items)) = wrap64 (sum_list (map (\<lambda>it. item_price it * cv_qty it) items))"
    by (simp only: sum64_wrap wrap64_sum)
  have "map nl_discount (map checkout_line items) = map (\<lambda>_. 0) items"
    by (simp add: checkout_line_def)
  then have disc: "sum64 (map nl_discount (map checkout_line items)) = 0"
    by (simp only: sum64_wrap) (simp add: wrap64_id is_i64_def)
  note row = insert_row [OF ins, unfolded lines sub disc]
  then have ordf: "or_status ord = S_pending" "or_source ord = S_storefront" "or_customer_id ord = xi_customer_id inp"
    "or_cart ord = Some (xi_cart inp)" "or_payment_method ord = xi_payment_method inp" "or_shipping ord = so_price ship"
    "or_subtotal ord = wrap64 (sum_list (map (\<lambda>it. item_price it * cv_qty it) items))" "or_discount ord = 0"
    "or_total ord = or_subtotal ord + or_shipping ord" "or_id ord = ids 0"
    by (simp_all add: checkout_order_def)
  have whole: "or_payment_method ord = S_midtrans \<longrightarrow> 100 dvd or_total ord"
    using fa ordf(5) by (auto simp: first_attempt_Inr whole_rupiah_Inr)
  define new where "new = map (\<lambda>(i, l). line_row c (ids 0) (ids (Suc i)) l) (enumerate 0 (map checkout_line items))"
  have "orders s1 = orders s @ [ord]" "order_lines s1 = order_lines s @ new"
    using insert_Inr [OF ins] unfolding lines new_def by auto
  then have tables: "orders (w_db w') = orders s @ [ord]" "order_lines (w_db w') = order_lines s @ new"
    using view first_attempt_view [OF fa] by (simp_all add: s' order_view_def)
  have "\<forall>it \<in> set items. wrap32 (cv_qty it) = cv_qty it"
    using avail wrap32_id by blast
  then have "map (\<lambda>l. (ol_order l, ol_variant l, ol_qty l, ol_unit_price l, ol_discount l)) new =
       map (\<lambda>it. (or_id ord, cv_variant it, cv_qty it, item_price it, 0)) items"
    unfolding new_def
    by (intro nth_equalityI) (auto simp: nth_enumerate_eq line_row_def checkout_line_def item_price_def ordf(10) wrap32_id)
  then show ?thesis
    unfolding s_def [symmetric] items_def [symmetric] Let_def res
    using cart items(1) avail ordf whole tables q ship by (intro conjI) (assumption | blast)+
qed

section \<open>Sample checkout\<close>

definition sample_checkout :: checkout_input where
  "sample_checkout = \<lparr>xi_cart = 80, xi_customer_id = None, xi_customer = ''{}'', xi_shipping_address = ''{}'',
     xi_payment_method = S_midtrans, xi_note = None, xi_shipping = \<lparr>sc_courier = ''jne'', sc_service = ''reg''\<rparr>,
     xi_destination = ''40111''\<rparr>"

definition cart_world :: world where
  "cart_world = \<lparr>w_db = cart_db, w_mail = []\<rparr>"

lemma cart_world_ok: "payments_ok (w_db cart_world)" "payment_refs (w_db cart_world)"
  "good_items (cart_items (w_db cart_world))"
  by code_simp+

lemma sample_checkout_runs:
  obtains res w' where "checkout_op sample_rates sample_mailer sample_gateway sample_ids sample_ctx sample_checkout cart_world
      = (Inr res, w')" "xr_created res" "xr_payment res \<noteq> None"
proof -
  have "(case checkout_op sample_rates sample_mailer sample_gateway sample_ids sample_ctx sample_checkout cart_world of
      (Inl _, _) \<Rightarrow> False | (Inr res, w') \<Rightarrow> xr_created res \<and> xr_payment res \<noteq> None)"
    by code_simp
  then show thesis
    by (auto split: prod.splits sum.splits intro: that)
qed

theorem checkout_once_witness:
  "\<exists>res w' res'. checkout_op sample_rates sample_mailer sample_gateway sample_ids sample_ctx sample_checkout cart_world
      = (Inr res, w') \<and> xr_created res \<and>
    checkout_op None None down_gateway sample_ids sample_ctx sample_checkout w' = (Inr res', w') \<and>
    xr_order res' = xr_order res \<and> \<not> xr_created res'"
proof -
  obtain res w' where r: "checkout_op sample_rates sample_mailer sample_gateway sample_ids sample_ctx sample_checkout cart_world
      = (Inr res, w')" "xr_created res"
    by (rule sample_checkout_runs)
  show ?thesis
    using r checkout_once [OF cart_world_ok(1,2) sample_tenant(1) sample_tenant(1) r(1) refl, of None None down_gateway sample_ids]
    by blast
qed

theorem checkout_charges_cart_witness:
  "\<exists>res w'. checkout_op sample_rates sample_mailer sample_gateway sample_ids sample_ctx sample_checkout cart_world
      = (Inr res, w') \<and> or_total (xr_order res) = or_subtotal (xr_order res) + or_shipping (xr_order res) \<and>
      100 dvd or_total (xr_order res)"
proof -
  obtain res w' where r: "checkout_op sample_rates sample_mailer sample_gateway sample_ids sample_ctx sample_checkout cart_world
      = (Inr res, w')" "xr_created res"
    by (rule sample_checkout_runs)
  have "xi_payment_method sample_checkout = S_midtrans"
    by (simp add: sample_checkout_def)
  then show ?thesis
    using r checkout_charges_cart [OF sample_tenant(1) r cart_world_ok(3)] by (auto simp: Let_def)
qed

text \<open>
  The replay decides on a live link without the order's status. An order that was cancelled while
  its attempt was pending is still offered for payment: checking the cart out again answers the
  link, with no error.
\<close>

lemma replay_offers_cancelled:
  "case checkout_op sample_rates sample_mailer sample_gateway sample_ids sample_ctx sample_checkout cart_world of
     (Inl _, _) \<Rightarrow> False
   | (Inr res, w1) \<Rightarrow>
       (case transition_op sample_mailer sample_ctx (or_id (xr_order res)) S_cancelled no_input w1 of
         (Inl _, _) \<Rightarrow> False
       | (Inr _, w2) \<Rightarrow>
           (case checkout_op sample_rates sample_mailer sample_gateway sample_ids sample_ctx sample_checkout w2 of
             (Inl _, _) \<Rightarrow> False
           | (Inr again, _) \<Rightarrow> or_status (xr_order again) = S_cancelled \<and> xr_payment again \<noteq> None \<and>
               \<not> xr_payment_error again))"
  by code_simp

end
