(* ===== verification/Notify.thy ===== *)
theory Notify
  imports Checkout
begin

text \<open>
  Midtrans' notification webhook (internal/orders/notify.go): resolving the webhook, verifying the
  signature, asking Midtrans for the status, and recording what it confirmed in one transaction
  with the order's move to paid. The JSON decoding of the body, SHA-512 with its hexadecimal
  text, the opening of the sealed key and Midtrans' Get Status are a parameter, the record
  \<open>notifier\<close>.
\<close>

record notification =
  nf_order_id :: string
  nf_status_code :: string
  nf_gross_amount :: string
  nf_signature :: string

record midtrans_status =
  ms_transaction_status :: string
  ms_fraud_status :: string
  ms_gross_amount :: string

record notifier =
  nt_parse :: "string \<Rightarrow> notification option"
  nt_digest :: "string \<Rightarrow> string"
  nt_open :: "(uuid \<Rightarrow> string option \<Rightarrow> err + string) option"
  nt_status :: "(string \<Rightarrow> string \<Rightarrow> string \<Rightarrow> err + midtrans_status) option"

section \<open>sameAmount\<close>

text \<open>
  \<open>new(big.Rat).SetString\<close> on decimal text: an optional sign, then digits with an optional
  fraction and exponent, or digits, a slash and digits. A number is a pair of a numerator and a
  positive denominator. (The prefixes and underscores \<open>SetString\<close> also takes are refused here.)
\<close>

definition digits_value :: "string \<Rightarrow> int" where
  "digits_value s = foldl (\<lambda>n ch. 10 * n + int (digit_val ch)) 0 s"

definition digits_then :: "string \<Rightarrow> string \<times> string" where
  "digits_then s = (takeWhile is_digit s, dropWhile is_digit s)"

definition sign_of :: "string \<Rightarrow> int \<times> string" where
  "sign_of s = (case s of
     [] \<Rightarrow> (1, s)
   | ch # r \<Rightarrow> if ch = CHR ''-'' then (-1, r) else if ch = CHR ''+'' then (1, r) else (1, s))"

definition parse_exponent :: "string \<Rightarrow> int option" where
  "parse_exponent s = (case s of
     [] \<Rightarrow> Some 0
   | ch # r \<Rightarrow>
       if ch = CHR ''e'' \<or> ch = CHR ''E''
       then (case sign_of r of (sg, r') \<Rightarrow>
         if r' \<noteq> [] \<and> list_all is_digit r' then Some (sg * digits_value r') else None)
       else None)"

definition parse_rat :: "string \<Rightarrow> (int \<times> int) option" where
  "parse_rat s =
    (case sign_of s of (sg, body) \<Rightarrow>
     case digits_then body of (whole, rest) \<Rightarrow>
     if rest \<noteq> [] \<and> hd rest = CHR ''/''
     then (if whole \<noteq> [] \<and> tl rest \<noteq> [] \<and> list_all is_digit (tl rest) \<and> digits_value (tl rest) \<noteq> 0
           then Some (sg * digits_value whole, digits_value (tl rest)) else None)
     else
       (case (if rest \<noteq> [] \<and> hd rest = CHR ''.'' then digits_then (tl rest) else ([], rest)) of (frac, tail) \<Rightarrow>
        if whole = [] \<and> frac = [] then None
        else (case parse_exponent tail of
           None \<Rightarrow> None
         | Some e \<Rightarrow>
             let m = sg * digits_value (whole @ frac); k = e - int (length frac)
             in if 0 \<le> k then Some (m * 10 ^ nat k, 1) else Some (m, 10 ^ nat (- k)))))"

definition same_amount :: "string \<Rightarrow> int \<Rightarrow> bool" where
  "same_amount gross minor = (case parse_rat gross of None \<Rightarrow> False | Some (a, b) \<Rightarrow> a * 100 = minor * b)"

section \<open>apply\<close>

definition settled :: "midtrans_status \<Rightarrow> bool" where
  "settled st \<longleftrightarrow> ms_transaction_status st = ''settlement'' \<or>
     ms_transaction_status st = ''capture'' \<and> ms_fraud_status st = ''accept''"

definition ended :: "midtrans_status \<Rightarrow> bool" where
  "ended st \<longleftrightarrow> ms_transaction_status st \<in> {''expire'', ''cancel'', ''deny''}"

text \<open>The status and the time of payment an attempt gets.\<close>

definition next_payment :: "ctx \<Rightarrow> midtrans_status \<Rightarrow> payment \<Rightarrow> order \<Rightarrow> string \<times> instant option" where
  "next_payment c st p ord =
    (if pa_status p = S_paid then (pa_status p, pa_paid_at p)
     else if settled st \<and> (\<not> same_amount (ms_gross_amount st) (pa_gross_amount p) \<or> pa_gross_amount p \<noteq> or_total ord)
     then (S_amount_mismatch, pa_paid_at p)
     else if settled st then (S_paid, Some (c_clock c))
     else if ended st \<and> pa_status p = S_pending then (S_failed, pa_paid_at p)
     else (pa_status p, pa_paid_at p))"

definition after_cancel_audit :: "order \<Rightarrow> payment \<Rightarrow> audit_entry" where
  "after_cancel_audit ord p = \<lparr>ae_action = ''payment.after_cancel'', ae_subject_type = ''order'',
     ae_subject_id = DId (or_id ord), ae_before = None,
     ae_after = Some (DObj [(''provider_order_id'', DStr (pa_provider_order_id p)), (''refund_owed'', DBool True)])\<rparr>"

text \<open>The money arrived. A pending order is now paid (BR-074); one ops already moved on stays where it
  is; a cancelled one owes a refund, and the audit log says so.\<close>

definition settle_order :: "ctx \<Rightarrow> order \<Rightarrow> payment \<Rightarrow> order option stmt" where
  "settle_order c ord p =
    (if or_status ord = S_pending
     then bindT (transition c (or_id ord) S_paid no_input) (\<lambda>(out, changed). retT (if changed then Some out else None))
     else if or_status ord = S_cancelled then thenT (audit c (after_cancel_audit ord p)) (retT None)
     else retT None)"

definition apply_status :: "ctx \<Rightarrow> string \<Rightarrow> midtrans_status \<Rightarrow> string \<Rightarrow> order option stmt" where
  "apply_status c provider_id st raw =
    bindT (payment_by_provider_order_id c provider_id) (\<lambda>found.
    bindT (lock_order c (pa_order found)) (\<lambda>ord.
    bindT (lock_payment c (pa_id found)) (\<lambda>p.
    let next = next_payment c st p ord in
    thenT (record_notification c \<lparr>np_status = fst next, np_transaction_status = Some (ms_transaction_status st),
             np_last_notification = raw, np_paid_at = snd next, np_id = pa_id p\<rparr>)
    (if fst next \<noteq> S_paid \<or> pa_status p = S_paid then retT None else settle_order c ord p))))"

section \<open>Notify\<close>

definition bad_signature :: err where
  "bad_signature = unauthenticated ''The notification's signature does not verify.''"

definition err_no_webhook :: err where
  "err_no_webhook = not_found ''No such webhook.''"

definition err_status_unconfirmed :: err where
  "err_status_unconfirmed = App ''payment_unavailable'' 503 ''Payment status unavailable''
     ''Midtrans did not confirm the payment; send the notification again.'' [] None"

text \<open>\<open>ResolveMidtransWebhook\<close>, one of the four reads across tenants (BR-003).\<close>

definition resolve_webhook :: "uuid \<Rightarrow> db \<Rightarrow> storefront_setting option" where
  "resolve_webhook hook s = find (\<lambda>r. st_midtrans_webhook_id r = hook) (settings s)"

definition signature_of :: "notifier \<Rightarrow> notification \<Rightarrow> string \<Rightarrow> string" where
  "signature_of nt n key = nt_digest nt (nf_order_id n @ nf_status_code n @ nf_gross_amount n @ key)"

text \<open>The part before anything is believed: the shop, its key, and the signature.\<close>

definition verify :: "notifier \<Rightarrow> uuid \<Rightarrow> string \<Rightarrow> db \<Rightarrow> err + notification \<times> uuid \<times> string \<times> string" where
  "verify nt hook raw s =
    (case nt_parse nt raw of
      None \<Rightarrow> Inl bad_signature
    | Some n \<Rightarrow>
        (case resolve_webhook hook s of
          None \<Rightarrow> Inl err_no_webhook
        | Some st \<Rightarrow>
            (case (nt_status nt, nt_open nt, st_midtrans_environment st) of
              (Some _, Some openbox, Some env) \<Rightarrow>
                (case openbox (st_tenant st) (st_midtrans_server_key st) of
                  Inl e \<Rightarrow> Inl (internal e)
                | Inr key \<Rightarrow>
                    if signature_of nt n key \<noteq> nf_signature n then Inl bad_signature
                    else Inr (n, st_tenant st, env, key))
            | _ \<Rightarrow> Inl (internal (Sentinel ''midtrans is not configured'')))))"

definition notify_op :: "notifier \<Rightarrow> mailer \<Rightarrow> ctx \<Rightarrow> uuid \<Rightarrow> string \<Rightarrow> world \<Rightarrow> (err + unit) \<times> world" where
  "notify_op nt m c0 hook raw w =
    (case verify nt hook raw (w_db w) of
      Inl e \<Rightarrow> (Inl e, w)
    | Inr (n, t, env, key) \<Rightarrow>
        let c = with_tenant t c0 in
        (case in_tenant_tx c (payment_by_provider_order_id c (nf_order_id n)) (w_db w) of
          (Inl e, _) \<Rightarrow> if err_is e NoRows then (Inr (), w) else (Inl e, w)
        | (Inr _, _) \<Rightarrow>
            (case nt_status nt of
              None \<Rightarrow> (Inl err_status_unconfirmed, w)
            | Some get \<Rightarrow>
                (case get env key (nf_order_id n) of
                  Inl _ \<Rightarrow> (Inl err_status_unconfirmed, w)
                | Inr st \<Rightarrow>
                    (case in_tenant_tx c (apply_status c (nf_order_id n) st raw) (w_db w) of
                      (Inl e, s) \<Rightarrow> (Inl e, w\<lparr>w_db := s\<rparr>)
                    | (Inr None, s) \<Rightarrow> (Inr (), w\<lparr>w_db := s\<rparr>)
                    | (Inr (Some ord), s) \<Rightarrow>
                        (Inr (), w\<lparr>w_db := s, w_mail := queue_mail m ''payment_received'' (or_tenant ord) (or_id ord) (w_mail w)\<rparr>))))))"

section \<open>Isolation and invariants\<close>

lemma transition_isolated [isolation]: "tenant_of c = t \<Longrightarrow> within (isolated t) (transition c oid to inp)"
  unfolding transition_def by (intro iso.rules isolation)

lemma apply_status_isolated [isolation]: "tenant_of c = t \<Longrightarrow> within (isolated t) (apply_status c n st raw)"
  unfolding apply_status_def settle_order_def Let_def by (intro iso.rules isolation)

lemma apply_status_good: "within (holds_on good_orders) (apply_status c n st raw)"
  unfolding apply_status_def settle_order_def Let_def
  by (intro inv.rules reads_hold transition_keeps_good order_frame_good [OF audit_frame]
      order_frame_good [OF payment_stmts_frame(4)])

lemma transition_payments: "within (same payments) (transition c oid to inp)"
proof (rule withinI)
  fix s x s'
  assume "transition c oid to inp s = Inr (x, s')"
  then show "same payments s s'"
    by (cases x) (auto elim!: transition_Inr_cases simp: same_def)
qed

section \<open>What apply does\<close>

definition recorded :: "ctx \<Rightarrow> string \<times> instant option \<Rightarrow> midtrans_status \<Rightarrow> string \<Rightarrow> payment \<Rightarrow> payment" where
  "recorded c next st raw p = p\<lparr>pa_status := fst next, pa_transaction_status := Some (ms_transaction_status st),
     pa_last_notification := Some raw, pa_paid_at := snd next, pa_updated_at := c_now c\<rparr>"

lemma recorded_keeps [simp]: "keeps_attempt (recorded c next st raw)"
  by (simp add: keeps_attempt_def recorded_def)

definition attempt_by_id :: "uuid \<Rightarrow> string \<Rightarrow> db \<Rightarrow> payment option" where
  "attempt_by_id t n s = find (\<lambda>p. pa_tenant p = t \<and> pa_provider_order_id p = n) (payments s)"

lemma payment_by_id_Inr: "payment_by_provider_order_id c n s = Inr (p, s') \<longleftrightarrow> s' = s \<and> attempt_by_id (tenant_of c) n s = Some p"
  by (auto simp: payment_by_provider_order_id_def attempt_by_id_def)

lemma lock_order_Inr: "lock_order c oid s = Inr (ord, s') \<longleftrightarrow> s' = s \<and> get_order (tenant_of c) oid s = Some ord"
  by (auto simp: lock_order_def)

lemma lock_payment_Inr: "lock_payment c pid s = Inr (p, s') \<longleftrightarrow> s' = s \<and> get_payment (tenant_of c) pid s = Some p"
  by (auto simp: lock_payment_def)

lemma get_payment_same:
  assumes "payments_ok s" and "p \<in> set (payments s)" and "pa_tenant p = t"
  shows "get_payment t (pa_id p) s = Some p"
proof -
  obtain r where r: "get_payment t (pa_id p) s = Some r"
    using assms(2,3) by (cases "get_payment t (pa_id p) s") (auto simp: get_payment_def row_get_def find_None_iff)
  then have "pa_id r = pa_id p" "r \<in> set (payments s)"
    by (auto simp: get_payment_def dest: row_get_Some)
  then have "r = p"
    using assms(1,2) by (auto simp: good_payments_def distinct_map inj_on_def)
  with r show ?thesis by simp
qed

lemma apply_Inr:
  assumes "apply_status c n st raw s = Inr (r, s')" and "payments_ok s"
  obtains p ord s1 where "attempt_by_id (tenant_of c) n s = Some p" "get_order (tenant_of c) (pa_order p) s = Some ord"
    "s1 = upd_payment (tenant_of c) (pa_id p) (recorded c (next_payment c st p ord) st raw) s"
    "(if fst (next_payment c st p ord) \<noteq> S_paid \<or> pa_status p = S_paid then retT None
     else settle_order c ord p) s1 = Inr (r, s')"
proof -
  obtain p ord q u s1 where p: "attempt_by_id (tenant_of c) n s = Some p" and ord: "get_order (tenant_of c) (pa_order p) s = Some ord"
    and q: "get_payment (tenant_of c) (pa_id p) s = Some q"
    and rec: "record_notification c \<lparr>np_status = fst (next_payment c st q ord),
       np_transaction_status = Some (ms_transaction_status st), np_last_notification = raw,
       np_paid_at = snd (next_payment c st q ord), np_id = pa_id q\<rparr> s = Inr (u, s1)"
    and rest: "(if fst (next_payment c st q ord) \<noteq> S_paid \<or> pa_status q = S_paid then retT None
     else settle_order c ord q) s1 = Inr (r, s')"
    using assms(1) unfolding apply_status_def Let_def bindT_Inr thenT_Inr payment_by_id_Inr lock_order_Inr lock_payment_Inr
    by blast
  have "p \<in> set (payments s)" "pa_tenant p = tenant_of c"
    using p by (auto simp: attempt_by_id_def find_Some_iff)
  then have qp: "q = p"
    using get_payment_same [OF assms(2)] q by auto
  have s1: "s1 = upd_payment (tenant_of c) (pa_id q) (recorded c (next_payment c st q ord) st raw) s"
    using rec by (auto simp: record_notification_def tx_inr recorded_def [abs_def])
  show thesis
    by (rule that [OF p ord s1 [unfolded qp] rest [unfolded qp]])
qed

lemma next_payment_facts:
  assumes "good_payment p"
  shows "(fst (next_payment c st p ord) = S_paid \<longleftrightarrow> snd (next_payment c st p ord) \<noteq> None) \<and>
    (fst (next_payment c st p ord) = S_pending \<longrightarrow> pa_status p = S_pending) \<and>
    fst (next_payment c st p ord) \<in> {S_pending, S_paid, S_failed, S_amount_mismatch} \<and>
    (pa_status p = S_paid \<longrightarrow> next_payment c st p ord = (S_paid, pa_paid_at p)) \<and>
    (pa_status p \<noteq> S_paid \<and> fst (next_payment c st p ord) = S_paid \<longrightarrow>
       settled st \<and> same_amount (ms_gross_amount st) (pa_gross_amount p) \<and> pa_gross_amount p = or_total ord)"
  using assms by (auto simp: good_payment_def payment_check_def next_payment_def)

lemma get_order_upd_payment [simp]: "get_order t oid (upd_payment t' pid f s) = get_order t oid s"
  by (simp add: get_order_def upd_payment_def)

lemma recorded_good:
  assumes "good_payment p"
  shows "good_payment (recorded c (next_payment c st p ord) st raw p) \<and>
    (pa_status (recorded c (next_payment c st p ord) st raw p) = S_pending \<longrightarrow> pa_status p = S_pending)"
proof -
  have check: "payment_check p"
    using assms by (simp add: good_payment_def)
  have f: "fst (next_payment c st p ord) = S_paid \<longleftrightarrow> snd (next_payment c st p ord) \<noteq> None"
    "fst (next_payment c st p ord) = S_pending \<longrightarrow> pa_status p = S_pending"
    "fst (next_payment c st p ord) \<in> {S_pending, S_paid, S_failed, S_amount_mismatch}"
    using next_payment_facts [OF assms] by blast+
  show ?thesis
    using check f unfolding good_payment_def payment_check_def by (simp add: recorded_def)
qed

text \<open>The two ways it returns: nothing about orders changes, or the pending order of a
  confirmed, matching attempt moves to paid.\<close>

lemma apply_cases:
  assumes "apply_status c n st raw s = Inr (r, s')" and "payments_ok s"
  obtains (quiet) p ord where "attempt_by_id (tenant_of c) n s = Some p" "get_order (tenant_of c) (pa_order p) s = Some ord"
      "r = None" "order_view s' = order_view s"
      "payments s' = payments (upd_payment (tenant_of c) (pa_id p) (recorded c (next_payment c st p ord) st raw) s)"
      "audit_log s' = audit_log s \<or> fst (next_payment c st p ord) = S_paid \<and> pa_status p \<noteq> S_paid \<and> or_status ord = S_cancelled \<and>
         audit_log s' = audit_log s @ [audit_row_of c (after_cancel_audit ord p)]"
      "fst (next_payment c st p ord) = S_paid \<Longrightarrow> pa_status p = S_paid \<or> or_status ord \<noteq> S_pending"
  | (paid) p ord where "attempt_by_id (tenant_of c) n s = Some p" "get_order (tenant_of c) (pa_order p) s = Some ord"
      "or_status ord = S_pending" "pa_status p \<noteq> S_paid" "fst (next_payment c st p ord) = S_paid"
      "r = Some (moved c S_paid None ord)"
      "payments s' = payments (upd_payment (tenant_of c) (pa_id p) (recorded c (next_payment c st p ord) st raw) s)"
      "orders s' = orders (upd_order (tenant_of c) (pa_order p) (moved c S_paid None) s)"
proof -
  obtain p ord s1 where p: "attempt_by_id (tenant_of c) n s = Some p" and ord: "get_order (tenant_of c) (pa_order p) s = Some ord"
    and s1: "s1 = upd_payment (tenant_of c) (pa_id p) (recorded c (next_payment c st p ord) st raw) s"
    and rest: "(if fst (next_payment c st p ord) \<noteq> S_paid \<or> pa_status p = S_paid then retT None
     else settle_order c ord p) s1 = Inr (r, s')"
    by (rule apply_Inr [OF assms])
  have view: "order_view s1 = order_view s" "audit_log s1 = audit_log s"
    by (simp_all add: s1 order_view_def upd_payment_def)
  have id: "or_id ord = pa_order p"
    using ord get_order_Some by blast
  consider (no) "fst (next_payment c st p ord) \<noteq> S_paid \<or> pa_status p = S_paid \<or> or_status ord \<noteq> S_pending"
    | (yes) "fst (next_payment c st p ord) = S_paid" "pa_status p \<noteq> S_paid" "or_status ord = S_pending"
    by blast
  then show thesis
  proof cases
    case no
    then show thesis
      using rest view by (intro quiet [OF p ord]) (auto simp: settle_order_def thenT_Inr order_view_def s1 split: if_splits)
  next
    case yes
    then obtain moved' changed where tr: "transition c (pa_order p) S_paid no_input s1 = Inr ((moved', changed), s')"
      and r: "r = (if changed then Some moved' else None)"
      using rest id by (auto simp: settle_order_def bindT_Inr)
    have ord1: "get_order (tenant_of c) (pa_order p) s1 = Some ord"
      using ord by (simp add: s1)
    from tr show thesis
    proof (cases rule: transition_Inr_cases)
      case (same o')
      then show thesis using ord1 yes(3) by simp
    next
      case (move o' ship)
      then have o': "o' = ord" "ship = None"
        using ord1 by (simp_all add: shipment_def)
      show thesis
        using move r o' yes by (intro paid [OF p ord]) (simp_all add: s1 upd_order_def upd_payment_def)
    qed
  qed
qed

lemma apply_inv [pay_inv]: "within (holds_on payments_ok) (apply_status c n st raw)"
proof (rule withinI)
  fix s r s'
  assume run: "apply_status c n st raw s = Inr (r, s')"
  have "payments_ok (upd_payment t (pa_id p) (recorded c (next_payment c st p ord) st raw) s)"
    if "payments_ok s" "attempt_by_id t n s = Some p" for t p ord
  proof (rule good_payments_upd [OF that(1) recorded_keeps])
    fix q
    assume q: "q \<in> set (payments s)" "pa_tenant q = t" "pa_id q = pa_id p"
    have "p \<in> set (payments s)"
      using that(2) by (auto simp: attempt_by_id_def find_Some_iff)
    then have "q = p"
      using q that(1) by (auto simp: good_payments_def distinct_map inj_on_def)
    have "good_payment p"
      using that(1) \<open>p \<in> set (payments s)\<close> by (simp add: good_payments_def)
    then show "good_payment (recorded c (next_payment c st p ord) st raw q) \<and>
        (pa_status (recorded c (next_payment c st p ord) st raw q) = S_pending \<longrightarrow> pa_status q = S_pending)"
      unfolding \<open>q = p\<close> by (rule recorded_good)
  qed
  note upd = this
  show "holds_on payments_ok s s'"
    unfolding holds_on_def
  proof
    assume ok: "payments_ok s"
    from run ok show "payments_ok s'"
    proof (cases rule: apply_cases)
      case (quiet p ord)
      then show ?thesis using upd [OF ok quiet(1)] by (simp only: quiet(5))
    next
      case (paid p ord)
      then show ?thesis using upd [OF ok paid(1)] by (simp only: paid(7))
    qed
  qed
qed

section \<open>Properties of the webhook\<close>

lemma with_tenant_simps [simp]: "c_tenant (with_tenant t c) = Some t" "tenant_of (with_tenant t c) = t"
  "c_now (with_tenant t c) = c_now c" "c_clock (with_tenant t c) = c_clock c"
  by (simp_all add: with_tenant_def tenant_of_def)

lemma notify_op_changes:
  assumes "notify_op nt m c0 hook raw w = (r, w')" and "w' \<noteq> w"
  obtains n t env key get st ro s where "verify nt hook raw (w_db w) = Inr (n, t, env, key)"
    "nt_status nt = Some get" "get env key (nf_order_id n) = Inr st"
    "apply_status (with_tenant t c0) (nf_order_id n) st raw (w_db w) = Inr (ro, s)" "r = Inr ()"
    "w' = w\<lparr>w_db := s, w_mail := (case ro of None \<Rightarrow> w_mail w
       | Some ord \<Rightarrow> queue_mail m ''payment_received'' (or_tenant ord) (or_id ord) (w_mail w))\<rparr>"
proof -
  obtain n t env key where v: "verify nt hook raw (w_db w) = Inr (n, t, env, key)"
    using assms by (cases "verify nt hook raw (w_db w)") (auto simp: notify_op_def)
  let ?c = "with_tenant t c0"
  obtain p s0 where p: "in_tenant_tx ?c (payment_by_provider_order_id ?c (nf_order_id n)) (w_db w) = (Inr p, s0)"
    using assms v
    by (cases "in_tenant_tx ?c (payment_by_provider_order_id ?c (nf_order_id n)) (w_db w)")
      (auto simp: notify_op_def Let_def split: sum.splits if_splits)
  obtain get st where g: "nt_status nt = Some get" "get env key (nf_order_id n) = Inr st"
    using assms v p by (auto simp: notify_op_def Let_def split: option.splits sum.splits)
  obtain rr s where tx: "in_tenant_tx ?c (apply_status ?c (nf_order_id n) st raw) (w_db w) = (rr, s)"
    by (metis prod.exhaust)
  show thesis
  proof (cases rr)
    case (Inl e)
    then have "s = w_db w" using tx by (simp add: in_tenant_tx_Inl)
    then show thesis using assms v p g tx Inl by (simp add: notify_op_def Let_def)
  next
    case (Inr ro)
    then have "apply_status ?c (nf_order_id n) st raw (w_db w) = Inr (ro, s)"
      using tx by (simp add: in_tenant_tx_Inr)
    then show thesis
      using assms v p g tx Inr
      by (intro that [OF v g]) (auto simp: notify_op_def Let_def split: option.splits)
  qed
qed

lemma orders_upd: "orders s' = orders (upd_order t oid f s) \<Longrightarrow> get_order t' oid' s' = get_order t' oid' (upd_order t oid f s)"
  by (simp add: get_order_def)

text \<open>C2. A notification pays only what Midtrans confirmed (BR-074, BR-124, BR-125): if handling one
  changed an order in any way, then its signature verified with the key of the shop the webhook
  names, Get Status answered a settled payment for that order's attempt, of exactly the attempt's
  amount, which is exactly the order's total; and the change is the move of that one pending
  order to paid, with one email.\<close>

theorem notify_pays_only_confirmed:
  assumes "payments_ok (w_db w)" and "notify_op nt m c0 hook raw w = (r, w')"
    and "get_order t oid (w_db w') \<noteq> get_order t oid (w_db w)"
  shows "\<exists>n env key get st p ord. verify nt hook raw (w_db w) = Inr (n, t, env, key) \<and>
    nt_status nt = Some get \<and> get env key (nf_order_id n) = Inr st \<and> settled st \<and>
    attempt_by_id t (nf_order_id n) (w_db w) = Some p \<and> pa_order p = oid \<and> pa_status p \<noteq> S_paid \<and>
    same_amount (ms_gross_amount st) (pa_gross_amount p) \<and> get_order t oid (w_db w) = Some ord \<and>
    pa_gross_amount p = or_total ord \<and> or_status ord = S_pending \<and>
    get_order t oid (w_db w') = Some (moved (with_tenant t c0) S_paid None ord) \<and>
    w_mail w' = queue_mail m ''payment_received'' t oid (w_mail w)"
proof -
  have "w' \<noteq> w"
    using assms(3) by auto
  from assms(2) this obtain n t' env key get st ro s where v: "verify nt hook raw (w_db w) = Inr (n, t', env, key)"
    "nt_status nt = Some get" "get env key (nf_order_id n) = Inr st"
    and a: "apply_status (with_tenant t' c0) (nf_order_id n) st raw (w_db w) = Inr (ro, s)"
    and w': "w' = w\<lparr>w_db := s, w_mail := (case ro of None \<Rightarrow> w_mail w
       | Some ord \<Rightarrow> queue_mail m ''payment_received'' (or_tenant ord) (or_id ord) (w_mail w))\<rparr>"
    by (rule notify_op_changes)
  from a assms(1) show ?thesis
  proof (cases rule: apply_cases)
    case (quiet p ord)
    then have "get_order t oid s = get_order t oid (w_db w)"
      by (simp add: order_view_def get_order_def)
    then show ?thesis
      using assms(3) by (simp add: w')
  next
    case (paid p ord)
    let ?c = "with_tenant t' c0"
    have good: "good_payment p"
      using assms(1) paid(1) by (auto simp: attempt_by_id_def find_Some_iff good_payments_def)
    have conf: "settled st \<and> same_amount (ms_gross_amount st) (pa_gross_amount p) \<and> pa_gross_amount p = or_total ord"
      using next_payment_facts [OF good, of ?c st ord] paid(4,5) by blast
    have get: "get_order t oid s = (if (t, oid) = (t', pa_order p) then Some (moved ?c S_paid None ord) else get_order t oid (w_db w))"
      using orders_upd [OF paid(8)] paid(2) by (simp add: get_order_upd moved_keeps_key)
    then have here: "t = t'" "oid = pa_order p"
      using assms(3) by (auto simp: w' split: if_splits)
    have "or_tenant ord = t" "or_id ord = oid"
      using paid(2) get_order_Some here by auto
    then show ?thesis
      using v paid conf get here by (auto simp: w')
  qed
qed

text \<open>C20. Money stays received (BR-125): no notification, whatever it says and whatever Midtrans
  answers, takes an attempt out of paid or changes when it was paid, or moves any order other
  than from pending to paid.\<close>

theorem notify_never_unpays:
  assumes "payments_ok (w_db w)" and "notify_op nt m c0 hook raw w = (r, w')"
  shows "(\<forall>p \<in> set (payments (w_db w)). pa_status p = S_paid \<longrightarrow>
      (\<exists>p' \<in> set (payments (w_db w')). pa_id p' = pa_id p \<and> pa_status p' = S_paid \<and> pa_paid_at p' = pa_paid_at p)) \<and>
    (\<forall>t oid ord. get_order t oid (w_db w) = Some ord \<longrightarrow>
      (\<exists>ord'. get_order t oid (w_db w') = Some ord' \<and> or_total ord' = or_total ord \<and>
        (or_status ord' = or_status ord \<or> or_status ord = S_pending \<and> or_status ord' = S_paid) \<and>
        (or_paid_at ord \<noteq> None \<and> or_status ord \<noteq> S_pending \<longrightarrow> or_paid_at ord' = or_paid_at ord)))"
proof (cases "w' = w")
  case True
  then show ?thesis by blast
next
  case False
  from assms(2) this obtain n t' env key get st ro s where "verify nt hook raw (w_db w) = Inr (n, t', env, key)"
    and a: "apply_status (with_tenant t' c0) (nf_order_id n) st raw (w_db w) = Inr (ro, s)"
    and "w' = w\<lparr>w_db := s, w_mail := (case ro of None \<Rightarrow> w_mail w
       | Some ord \<Rightarrow> queue_mail m ''payment_received'' (or_tenant ord) (or_id ord) (w_mail w))\<rparr>"
    by (rule notify_op_changes)
  then have w': "w_db w' = s" by simp
  let ?c = "with_tenant t' c0"
  have pay: "\<exists>p' \<in> set (payments s). pa_id p' = pa_id q \<and> pa_status p' = S_paid \<and> pa_paid_at p' = pa_paid_at q"
    if ps: "payments s = payments (upd_payment t' (pa_id p) (recorded ?c (next_payment ?c st p ord) st raw) (w_db w))"
      and p: "attempt_by_id t' (nf_order_id n) (w_db w) = Some p"
      and q: "q \<in> set (payments (w_db w))" "pa_status q = S_paid" for p ord q
  proof (cases "pa_tenant q = t' \<and> pa_id q = pa_id p")
    case True
    have "p \<in> set (payments (w_db w))"
      using p by (auto simp: attempt_by_id_def find_Some_iff)
    then have "q = p" and good: "good_payment p"
      using True q(1) assms(1) by (auto simp: good_payments_def distinct_map inj_on_def)
    then have "next_payment ?c st p ord = (S_paid, pa_paid_at p)"
      using next_payment_facts [OF good] q(2) by blast
    moreover have "recorded ?c (next_payment ?c st p ord) st raw q \<in> set (payments s)"
      using True q(1) by (force simp: ps upd_payment_def row_upd_def)
    ultimately show ?thesis
      by (intro bexI) (auto simp: recorded_def \<open>q = p\<close>)
  next
    case False
    then have "q \<in> set (payments s)"
      using q(1) by (force simp: ps upd_payment_def row_upd_def)
    then show ?thesis using q(2) by blast
  qed
  from a assms(1) show ?thesis
  proof (cases rule: apply_cases)
    case (quiet p ord)
    have "get_order t oid s = get_order t oid (w_db w)" for t oid
      using quiet(4) by (simp add: order_view_def get_order_def)
    then show ?thesis
      using pay quiet by (simp add: w')
  next
    case (paid p ord)
    have "get_order t oid s = (if (t, oid) = (t', pa_order p) then Some (moved ?c S_paid None ord) else get_order t oid (w_db w))" for t oid
      using orders_upd [OF paid(8)] paid(2) by (simp add: get_order_upd moved_keeps_key)
    then show ?thesis
      using pay [OF paid(7)[simplified] paid(1)[simplified]] paid(2,3) by (auto simp: w')
  qed
qed

text \<open>Deciding again from the recorded attempt decides the same.\<close>

lemma next_payment_fixed:
  assumes "or_total o' = or_total ord"
  shows "next_payment c1 st (recorded c (next_payment c st p ord) st raw p) o' = next_payment c st p ord"
proof -
  define bad where "bad \<longleftrightarrow> \<not> same_amount (ms_gross_amount st) (pa_gross_amount p) \<or> pa_gross_amount p \<noteq> or_total ord"
  have nx: "next_payment c2 st q ord2 =
    (if pa_status q = S_paid then (pa_status q, pa_paid_at q)
     else if settled st \<and> bad then (S_amount_mismatch, pa_paid_at q)
     else if settled st then (S_paid, Some (c_clock c2))
     else if ended st \<and> pa_status q = S_pending then (S_failed, pa_paid_at q)
     else (pa_status q, pa_paid_at q))"
    if "pa_gross_amount q = pa_gross_amount p" "or_total ord2 = or_total ord" for q ord2 c2
    unfolding next_payment_def bad_def that ..
  show ?thesis
    by (cases "pa_status p = S_paid"; cases "settled st"; cases bad; cases "ended st \<and> pa_status p = S_pending")
      (simp_all add: nx recorded_def assms)
qed

lemma attempt_by_id_upd: "keeps_attempt f \<Longrightarrow> attempt_by_id t n (upd_payment t pid f s) =
    map_option (\<lambda>p. if pa_id p = pid then f p else p) (attempt_by_id t n s)"
proof -
  assume "keeps_attempt f"
  then have "find (\<lambda>p. pa_tenant p = t \<and> pa_provider_order_id p = n) (map (\<lambda>r. if pa_tenant r = t \<and> pa_id r = pid then f r else r) xs) =
      map_option (\<lambda>p. if pa_id p = pid then f p else p) (find (\<lambda>p. pa_tenant p = t \<and> pa_provider_order_id p = n) xs)" for xs
    by (induction xs) (auto simp: keeps_attempt_def)
  then show ?thesis
    by (simp add: attempt_by_id_def upd_payment_def row_upd_def)
qed

lemma settle_order_settings:
  assumes "settle_order c ord p s = Inr (r, s')"
  shows "settings s' = settings s"
proof (cases "or_status ord = S_pending")
  case True
  then obtain out changed where "transition c (or_id ord) S_paid no_input s = Inr ((out, changed), s')"
    using assms by (auto simp: settle_order_def bindT_Inr)
  then show ?thesis
    by (cases rule: transition_Inr_cases) simp_all
next
  case False
  then show ?thesis
    using assms by (cases "or_status ord = S_cancelled") (auto simp: settle_order_def thenT_Inr)
qed

lemma apply_settings: "within (same settings) (apply_status c n st raw)"
proof (rule withinI)
  fix s r s'
  assume "apply_status c n st raw s = Inr (r, s')"
  then obtain np u s1 ord p b where rec: "record_notification c np s = Inr (u, s1)"
    and rest: "(if b then retT None else settle_order c ord p) s1 = Inr (r, s')"
    unfolding apply_status_def Let_def bindT_Inr thenT_Inr payment_by_id_Inr lock_order_Inr lock_payment_Inr
    by blast
  have "settings s1 = settings s"
    using rec by (auto simp: record_notification_def tx_inr upd_payment_def)
  moreover have "settings s' = settings s1"
    using rest settle_order_settings by (cases b) auto
  ultimately show "same settings s s'"
    by (simp add: same_def)
qed

lemma verify_settings: "settings s' = settings s \<Longrightarrow> verify nt hook raw s' = verify nt hook raw s"
proof -
  assume "settings s' = settings s"
  then have "resolve_webhook hook s' = resolve_webhook hook s"
    by (simp add: resolve_webhook_def)
  then show ?thesis
    unfolding verify_def by (rule arg_cong)
qed

lemma notify_op_ok:
  assumes "notify_op nt m c0 hook raw w = (Inr (), w')"
  obtains (unknown) n t env key where "verify nt hook raw (w_db w) = Inr (n, t, env, key)"
      "attempt_by_id t (nf_order_id n) (w_db w) = None" "w' = w"
  | (handled) n t env key get st ro s where "verify nt hook raw (w_db w) = Inr (n, t, env, key)"
      "nt_status nt = Some get" "get env key (nf_order_id n) = Inr st"
      "apply_status (with_tenant t c0) (nf_order_id n) st raw (w_db w) = Inr (ro, s)" "w_db w' = s"
proof -
  obtain n t env key where v: "verify nt hook raw (w_db w) = Inr (n, t, env, key)"
    using assms by (cases "verify nt hook raw (w_db w)") (auto simp: notify_op_def)
  let ?c = "with_tenant t c0"
  show thesis
  proof (cases "attempt_by_id t (nf_order_id n) (w_db w)")
    case None
    then have "payment_by_provider_order_id ?c (nf_order_id n) (w_db w) = Inl NoRows"
      by (auto simp: payment_by_provider_order_id_def attempt_by_id_def oneT_def)
    then show thesis
      using None assms v by (intro unknown [OF v]) (auto simp: notify_op_def Let_def in_tenant_tx_def run_tx_def)
  next
    case (Some p)
    then have p: "in_tenant_tx ?c (payment_by_provider_order_id ?c (nf_order_id n)) (w_db w) = (Inr p, w_db w)"
      by (simp add: in_tenant_tx_Inr payment_by_id_Inr)
    obtain get st where g: "nt_status nt = Some get" "get env key (nf_order_id n) = Inr st"
      using assms v p by (auto simp: notify_op_def Let_def split: option.splits sum.splits)
    obtain ro s where "in_tenant_tx ?c (apply_status ?c (nf_order_id n) st raw) (w_db w) = (Inr ro, s)" "w_db w' = s"
      using assms v p g by (auto simp: notify_op_def Let_def split: option.splits sum.splits prod.splits)
    then show thesis
      by (intro handled [OF v g]) (auto simp: in_tenant_tx_Inr)
  qed
qed

text \<open>A notification delivered again does nothing (BR-125): after one was handled, the same one,
  however often it is retried, leaves every order, order line, counter and cart as it is, sends no
  email, writes no audit row, and changes no attempt's status or time of payment.\<close>

theorem notify_replay:
  assumes "payments_ok (w_db w)" and "notify_op nt m c0 hook raw w = (Inr (), w')"
    and "notify_op nt m' c1 hook raw w' = (r, w'')"
  shows "order_view (w_db w'') = order_view (w_db w') \<and> w_mail w'' = w_mail w' \<and>
    audit_log (w_db w'') = audit_log (w_db w') \<and>
    map (\<lambda>p. (pa_id p, pa_status p, pa_paid_at p)) (payments (w_db w'')) =
    map (\<lambda>p. (pa_id p, pa_status p, pa_paid_at p)) (payments (w_db w'))"
proof (cases "w'' = w'")
  case True
  then show ?thesis by simp
next
  case False
  from assms(3) this obtain n t env key get st ro s2 where v2: "verify nt hook raw (w_db w') = Inr (n, t, env, key)"
    "nt_status nt = Some get" "get env key (nf_order_id n) = Inr st"
    and a2: "apply_status (with_tenant t c1) (nf_order_id n) st raw (w_db w') = Inr (ro, s2)"
    and w'': "w'' = w'\<lparr>w_db := s2, w_mail := (case ro of None \<Rightarrow> w_mail w'
       | Some ord \<Rightarrow> queue_mail m' ''payment_received'' (or_tenant ord) (or_id ord) (w_mail w'))\<rparr>"
    by (rule notify_op_changes)
  let ?t = t and ?n = "nf_order_id n" and ?c = "with_tenant t c0" and ?c1 = "with_tenant t c1"
  from assms(2) obtain ro1 where a1: "apply_status ?c ?n st raw (w_db w) = Inr (ro1, w_db w')"
  proof (cases rule: notify_op_ok)
    case (unknown n0 t0 env0 key0)
    then have "attempt_by_id t ?n (w_db w') = None"
      using v2(1) by simp
    then show thesis
      using a2 by (auto simp: apply_status_def bindT_Inr payment_by_id_Inr)
  next
    case (handled n0 t0 env0 key0 get0 st0 ro0 s0)
    have "settings (w_db w') = settings (w_db w)"
      using withinD [OF apply_settings handled(4)] handled(5) by (simp add: same_def)
    then have "verify nt hook raw (w_db w') = verify nt hook raw (w_db w)"
      by (rule verify_settings)
    then show thesis
      using v2 handled that by auto
  qed
  have ok': "payments_ok (w_db w')"
    using withinD [OF apply_inv a1] assms(1) by (simp add: holds_on_def)
  obtain p ord where p: "attempt_by_id t ?n (w_db w) = Some p" "get_order t (pa_order p) (w_db w) = Some ord"
    and ps: "payments (w_db w') = payments (upd_payment t (pa_id p) (recorded ?c (next_payment ?c st p ord) st raw) (w_db w))"
    and ord': "\<exists>ord'. get_order t (pa_order p) (w_db w') = Some ord' \<and> or_total ord' = or_total ord"
    using a1 assms(1)
  proof (cases rule: apply_cases)
    case (quiet p ord)
    have "get_order t (pa_order p) (w_db w') = get_order t (pa_order p) (w_db w)"
      using quiet(4) by (simp add: order_view_def get_order_def)
    then show thesis
      using quiet by (intro that [of p ord]) simp_all
  next
    case (paid p ord)
    have "get_order t (pa_order p) (w_db w') = Some (moved ?c S_paid None ord)"
      using orders_upd [OF paid(8)] paid(2) by (simp add: get_order_upd moved_keeps_key)
    then show thesis
      using paid by (intro that [of p ord]) simp_all
  qed
  define p' where "p' = recorded ?c (next_payment ?c st p ord) st raw p"
  have "attempt_by_id t ?n (w_db w') = attempt_by_id t ?n (upd_payment t (pa_id p) (recorded ?c (next_payment ?c st p ord) st raw) (w_db w))"
    by (simp add: attempt_by_id_def ps)
  then have p': "attempt_by_id t ?n (w_db w') = Some p'" and same: "pa_order p' = pa_order p"
    using p(1) by (simp_all add: attempt_by_id_upd p'_def recorded_def)
  have fixed: "next_payment ?c1 st p' o' = (pa_status p', pa_paid_at p')" if "or_total o' = or_total ord" for o'
  proof -
    have "pa_status p' = fst (next_payment ?c st p ord)" "pa_paid_at p' = snd (next_payment ?c st p ord)"
      by (simp_all add: p'_def recorded_def)
    then show ?thesis
      using next_payment_fixed [OF that, of ?c1 st ?c p raw] by (simp add: p'_def [symmetric])
  qed
  have kept: "map (\<lambda>q. (pa_id q, pa_status q, pa_paid_at q)) (payments (upd_payment t (pa_id p')
      (recorded ?c1 (next_payment ?c1 st p' o') st raw) (w_db w'))) =
      map (\<lambda>q. (pa_id q, pa_status q, pa_paid_at q)) (payments (w_db w'))"
    if "or_total o' = or_total ord" for o'
  proof -
    have mem: "p' \<in> set (payments (w_db w'))"
      using p' by (auto simp: attempt_by_id_def find_Some_iff)
    have "q = p'" if "q \<in> set (payments (w_db w'))" "pa_id q = pa_id p'" for q
      using that mem ok' by (auto simp: good_payments_def distinct_map inj_on_def)
    then show ?thesis
      using fixed [OF that] by (auto simp: upd_payment_def row_upd_def recorded_def)
  qed
  from a2 ok' show ?thesis
  proof (cases rule: apply_cases)
    case (quiet q o')
    then have q: "q = p'" "or_total o' = or_total ord"
      using p' ord' same by auto
    then have "audit_log s2 = audit_log (w_db w')"
      using quiet(6) fixed [of o'] by auto
    then show ?thesis
      using quiet kept q by (simp add: w'')
  next
    case (paid q o')
    then have q: "q = p'" "or_total o' = or_total ord"
      using p' ord' same by auto
    then show ?thesis
      using paid(4,5) fixed [of o'] by simp
  qed
qed

section \<open>Sample notification\<close>

definition sample_notifier :: notifier where
  "sample_notifier = \<lparr>nt_parse = (\<lambda>raw. Some \<lparr>nf_order_id = ''ERG-000009'', nf_status_code = ''200'',
       nf_gross_amount = ''2100.00'', nf_signature = ''ERG-0000092002100.00key''\<rparr>),
     nt_digest = (\<lambda>x. x), nt_open = Some (\<lambda>t k. Inr ''key''),
     nt_status = Some (\<lambda>env key oid. Inr \<lparr>ms_transaction_status = ''settlement'', ms_fraud_status = [],
       ms_gross_amount = ''2100.00''\<rparr>)\<rparr>"

definition pay_world :: world where
  "pay_world = \<lparr>w_db = pay_db, w_mail = []\<rparr>"

lemma pay_world_ok: "payments_ok (w_db pay_world)"
  using pay_db_ok by (simp add: pay_world_def)

lemma same_amount_examples:
  "same_amount ''2100.00'' 210000" "same_amount ''2.1e3'' 210000" "same_amount ''4200/2'' 210000"
  "\<not> same_amount ''2100.001'' 210000" "\<not> same_amount [] 0" "same_amount ''-1'' (- 100)"
  by code_simp+

lemma sample_notify_pays:
  "\<exists>w'. notify_op sample_notifier sample_mailer sample_ctx 70 ''{}'' pay_world = (Inr (), w') \<and>
     get_order 1 20 (w_db w') \<noteq> get_order 1 20 (w_db pay_world)"
proof -
  have "(case notify_op sample_notifier sample_mailer sample_ctx 70 ''{}'' pay_world of (Inl _, _) \<Rightarrow> False
     | (Inr _, w') \<Rightarrow> get_order 1 20 (w_db w') \<noteq> get_order 1 20 (w_db pay_world))"
    by code_simp
  then show ?thesis
    by (auto split: prod.splits sum.splits)
qed

theorem notify_pays_only_confirmed_witness:
  "\<exists>w'. notify_op sample_notifier sample_mailer sample_ctx 70 ''{}'' pay_world = (Inr (), w') \<and>
     (\<exists>ord. get_order 1 20 (w_db w') = Some ord \<and> or_status ord = S_paid)"
proof -
  obtain w' where r: "notify_op sample_notifier sample_mailer sample_ctx 70 ''{}'' pay_world = (Inr (), w')"
    and n: "get_order 1 20 (w_db w') \<noteq> get_order 1 20 (w_db pay_world)"
    using sample_notify_pays by blast
  show ?thesis
    using r notify_pays_only_confirmed [OF pay_world_ok r n] by auto
qed

theorem notify_never_unpays_witness:
  "\<exists>w' ord'. notify_op sample_notifier sample_mailer sample_ctx 70 ''{}'' pay_world = (Inr (), w') \<and>
     get_order 1 20 (w_db w') = Some ord' \<and> or_total ord' = 210000"
proof -
  obtain w' where r: "notify_op sample_notifier sample_mailer sample_ctx 70 ''{}'' pay_world = (Inr (), w')"
    using sample_notify_pays by blast
  have "(case get_order 1 20 (w_db pay_world) of None \<Rightarrow> False | Some ord \<Rightarrow> or_total ord = 210000)"
    by code_simp
  then obtain ord where "get_order 1 20 (w_db pay_world) = Some ord" "or_total ord = 210000"
    by (auto split: option.splits)
  then show ?thesis
    using r notify_never_unpays [OF pay_world_ok r] by fastforce
qed

theorem notify_replay_witness:
  "\<exists>w' r w''. notify_op sample_notifier sample_mailer sample_ctx 70 ''{}'' pay_world = (Inr (), w') \<and>
     notify_op sample_notifier sample_mailer sample_ctx 70 ''{}'' w' = (r, w'') \<and> w_mail w'' = w_mail w'"
proof -
  obtain w' where r: "notify_op sample_notifier sample_mailer sample_ctx 70 ''{}'' pay_world = (Inr (), w')"
    using sample_notify_pays by blast
  obtain r2 w'' where r2: "notify_op sample_notifier sample_mailer sample_ctx 70 ''{}'' w' = (r2, w'')"
    by (metis prod.exhaust)
  show ?thesis
    using r r2 notify_replay [OF pay_world_ok r r2] by blast
qed

end
