(* ===== verification/Jobs.thy ===== *)
theory Jobs
  imports CheckoutQueries
begin

text \<open>
  Background jobs (internal/jobs/jobs.go, jobs.sql): a row per job, and the runner that delivers
  a message to a handler and records the outcome on the row. Redis delivers at least once, so a
  message may be processed again, and by several workers.\<close>

section \<open>Statements\<close>

definition get_job_row :: "uuid \<Rightarrow> uuid \<Rightarrow> db \<Rightarrow> job option" where
  "get_job_row t jid s = row_get jb_tenant jb_id t jid (jobs s)"

definition upd_job :: "uuid \<Rightarrow> uuid \<Rightarrow> (job \<Rightarrow> job) \<Rightarrow> db \<Rightarrow> db" where
  "upd_job t jid f s = s\<lparr>jobs := row_upd jb_tenant jb_id t jid f (jobs s)\<rparr>"

definition job_kinds :: "string list" where
  "job_kinds = [''product_import'', ''order_export'', ''channel_import'', ''image_derivatives'', ''customer_purge'']"

definition job_ended :: "job \<Rightarrow> bool" where
  "job_ended j \<longleftrightarrow> jb_state j = S_done \<or> jb_state j = S_failed"

definition new_job :: "ctx \<Rightarrow> uuid \<Rightarrow> string \<Rightarrow> dyn \<Rightarrow> uuid option \<Rightarrow> job" where
  "new_job c jid kind params by = \<lparr>jb_id = jid, jb_tenant = tenant_of c, jb_kind = kind, jb_state = S_queued,
     jb_processed = 0, jb_total = None, jb_failed = 0, jb_params = params, jb_result = None, jb_error = None,
     jb_created_by = by, jb_created_at = c_now c, jb_finished_at = None\<rparr>"

text \<open>\<open>jobs.CreateWithID\<close>: a queued row; the kind, the key and the creating user are checked.\<close>

definition create_job :: "ctx \<Rightarrow> uuid \<Rightarrow> string \<Rightarrow> dyn \<Rightarrow> uuid option \<Rightarrow> job stmt" where
  "create_job c jid kind params by =
    thenT (guardT (\<lambda>_. List.member job_kinds kind) (check_violation ''jobs_kind_check''))
    (thenT (guardT (\<lambda>s. \<not> (\<exists>j \<in> set (jobs s). jb_id j = jid)) (unique_violation ''jobs_pkey''))
    (thenT (guardT (\<lambda>s. case by of None \<Rightarrow> True | Some u \<Rightarrow> \<exists>r \<in> set (users s). us_id r = u) (fk_violation ''jobs_created_by_fkey''))
    (thenT (writeT (\<lambda>s. s\<lparr>jobs := jobs s @ [new_job c jid kind params by]\<rparr>))
     (retT (new_job c jid kind params by)))))"

definition job_open :: "job \<Rightarrow> bool" where
  "job_open j \<longleftrightarrow> jb_state j = S_queued \<or> jb_state j = S_running"

text \<open>\<open>StartJob\<close>: the guard that makes a redelivered job finish once.\<close>

definition start_job :: "ctx \<Rightarrow> uuid \<Rightarrow> job stmt" where
  "start_job c jid s =
    (case get_job_row (tenant_of c) jid s of
      None \<Rightarrow> Inl NoRows
    | Some j \<Rightarrow> if job_open j
        then Inr (j\<lparr>jb_state := S_running\<rparr>, upd_job (tenant_of c) jid (\<lambda>j. j\<lparr>jb_state := S_running\<rparr>) s)
        else Inl NoRows)"

definition finish_job :: "ctx \<Rightarrow> uuid \<Rightarrow> dyn option \<Rightarrow> unit stmt" where
  "finish_job c jid result = writeT (upd_job (tenant_of c) jid
     (\<lambda>j. if jb_state j = S_running
       then j\<lparr>jb_state := S_done, jb_result := result, jb_finished_at := Some (c_now c)\<rparr> else j))"

definition fail_job :: "ctx \<Rightarrow> uuid \<Rightarrow> dyn \<Rightarrow> unit stmt" where
  "fail_job c jid problem = writeT (upd_job (tenant_of c) jid
     (\<lambda>j. if job_open j
       then j\<lparr>jb_state := S_failed, jb_error := Some problem, jb_finished_at := Some (c_now c)\<rparr> else j))"

definition job_progress :: "ctx \<Rightarrow> uuid \<Rightarrow> int \<Rightarrow> int option \<Rightarrow> int \<Rightarrow> unit stmt" where
  "job_progress c jid n tot failed = writeT (upd_job (tenant_of c) jid
     (\<lambda>j. if jb_state j = S_running then j\<lparr>jb_processed := n, jb_total := tot, jb_failed := failed\<rparr> else j))"

text \<open>\<open>CheckpointJob\<close>: no guard on the state.\<close>

definition checkpoint_job :: "ctx \<Rightarrow> uuid \<Rightarrow> int \<Rightarrow> int \<Rightarrow> dyn option \<Rightarrow> unit stmt" where
  "checkpoint_job c jid n failed result = writeT (upd_job (tenant_of c) jid
     (\<lambda>j. j\<lparr>jb_processed := n, jb_failed := failed, jb_result := result\<rparr>))"

definition job_get :: "ctx \<Rightarrow> uuid \<Rightarrow> db \<Rightarrow> (err + job) \<times> db" where
  "job_get c jid = in_tenant_tx c
     (mapErrT (\<lambda>e. if err_is e NoRows then not_found ''No such job.'' else e)
       (oneT (get_job_row (tenant_of c) jid)))"

section \<open>The runner\<close>

text \<open>
  What a handler hands back: an error, nothing, a result that marshals or one that does not. A
  handler runs in the job's tenant and may change the database as it likes.\<close>

datatype job_result = Marshals dyn | Unmarshalable err

type_synonym handler = "ctx \<Rightarrow> job \<Rightarrow> db \<Rightarrow> (err + job_result option) \<times> db"

record runner =
  rn_handlers :: "string \<Rightarrow> handler option"
  rn_max_deliveries :: int

text \<open>
  One delivery: the two ids of the message, parsed; whether the process was killed while the
  handler ran; what Redis answers to the count of deliveries; and which of the runner's own
  transactions reach the database.\<close>

record delivery =
  dl_job :: "uuid option"
  dl_tenant :: "uuid option"
  dl_killed :: bool
  dl_count :: "int option"
  dl_start_ok :: bool
  dl_finish_ok :: bool
  dl_fail_ok :: bool

definition problem_of :: "err \<Rightarrow> dyn" where
  "problem_of cause = (case from_err cause of
      App code status title detail _ _ \<Rightarrow> DObj [(''type'', DStr (''https://docs.example.com/errors/'' @ code)),
        (''title'', DStr title), (''status'', DInt (int status)), (''detail'', DStr detail)]
    | _ \<Rightarrow> DObj [])"

text \<open>\<open>fail\<close>: the problem goes on the row; if that write fails it is logged and forgotten.\<close>

definition fail_op :: "delivery \<Rightarrow> ctx \<Rightarrow> uuid \<Rightarrow> err \<Rightarrow> db \<Rightarrow> db" where
  "fail_op dl c jid cause s =
    (if dl_fail_ok dl then snd (in_tenant_tx c (fail_job c jid (problem_of cause)) s) else s)"

text \<open>What \<open>process\<close> does once the handler has returned: whether the message is
  acknowledged, and the database.\<close>

definition conclude :: "runner \<Rightarrow> delivery \<Rightarrow> ctx \<Rightarrow> uuid \<Rightarrow> err + job_result option \<Rightarrow> db \<Rightarrow> bool \<times> db" where
  "conclude rn dl c jid r s =
    (if dl_killed dl then (False, s)
     else case r of
      Inl e \<Rightarrow>
        (case dl_count dl of
          Some n \<Rightarrow> if n < rn_max_deliveries rn then (False, s) else (True, fail_op dl c jid e s)
        | None \<Rightarrow> (True, fail_op dl c jid e s))
    | Inr (Some (Unmarshalable e)) \<Rightarrow> (True, fail_op dl c jid e s)
    | Inr res \<Rightarrow>
        if dl_finish_ok dl
        then (True, snd (in_tenant_tx c (finish_job c jid
          (case res of Some (Marshals d) \<Rightarrow> Some d | _ \<Rightarrow> None)) s))
        else (False, s))"

definition process :: "runner \<Rightarrow> ctx \<Rightarrow> delivery \<Rightarrow> db \<Rightarrow> bool \<times> db" where
  "process rn c dl s =
    (case (dl_job dl, dl_tenant dl) of
      (Some jid, Some t) \<Rightarrow>
        let tc = with_tenant t c in
        if \<not> dl_start_ok dl then (False, s)
        else (case in_tenant_tx tc (start_job tc jid) s of
          (Inl e, s1) \<Rightarrow> (err_is e NoRows, s1)
        | (Inr j, s1) \<Rightarrow>
            (case rn_handlers rn (jb_kind j) of
              None \<Rightarrow> (True, fail_op dl tc jid (Opaque (''no handler for '' @ jb_kind j)) s1)
            | Some h \<Rightarrow> (case h tc j s1 of (r, s2) \<Rightarrow> conclude rn dl tc jid r s2)))
    | _ \<Rightarrow> (True, s))"

section \<open>The row's life under any interleaving\<close>

text \<open>
  Everything the runners and handlers of any number of workers do to job rows, one committed
  statement at a time.\<close>

datatype job_event = Start uuid | Progress uuid int "int option" int | Checkpoint uuid int int "dyn option"
  | Finish uuid "dyn option" | Fail uuid dyn

fun job_stmt :: "ctx \<Rightarrow> job_event \<Rightarrow> unit stmt" where
  "job_stmt c (Start jid) = bindT (start_job c jid) (\<lambda>_. retT ())"
| "job_stmt c (Progress jid n tot k) = job_progress c jid n tot k"
| "job_stmt c (Checkpoint jid n k r) = checkpoint_job c jid n k r"
| "job_stmt c (Finish jid r) = finish_job c jid r"
| "job_stmt c (Fail jid p) = fail_job c jid p"

fun job_run :: "(ctx \<times> job_event) list \<Rightarrow> db \<Rightarrow> db" where
  "job_run [] s = s"
| "job_run ((c, e) # es) s = job_run es (snd (in_tenant_tx c (job_stmt c e) s))"

fun is_checkpoint :: "job_event \<Rightarrow> bool" where
  "is_checkpoint (Checkpoint _ _ _ _) = True"
| "is_checkpoint _ = False"

lemma get_upd_job: "(\<And>j. jb_tenant (f j) = jb_tenant j \<and> jb_id (f j) = jb_id j) \<Longrightarrow>
    get_job_row t' k' (upd_job t k f s) = (if (t', k') = (t, k) then map_option f (get_job_row t' k' s) else get_job_row t' k' s)"
  unfolding get_job_row_def upd_job_def
  by (simp add: rows.get_same rows.get_other keeps_key_def)

lemma job_ended_not_open [simp]: "job_ended j \<Longrightarrow> \<not> job_open j" "job_ended j \<Longrightarrow> jb_state j \<noteq> S_running"
  by (auto simp: job_ended_def job_open_def)

lemma start_ended: "get_job_row (tenant_of c) jid s = Some j \<Longrightarrow> job_ended j \<Longrightarrow> start_job c jid s = Inl NoRows"
  by (simp add: start_job_def)

lemma start_job_Inr: "start_job c jid s = Inr (j', s') \<longleftrightarrow>
    (\<exists>j. get_job_row (tenant_of c) jid s = Some j \<and> job_open j \<and> j' = j\<lparr>jb_state := S_running\<rparr> \<and>
      s' = upd_job (tenant_of c) jid (\<lambda>j. j\<lparr>jb_state := S_running\<rparr>) s)"
  by (auto simp: start_job_def split: option.splits)

definition settled_as :: "job \<Rightarrow> job \<Rightarrow> bool" where
  "settled_as j j' \<longleftrightarrow> jb_state j' = jb_state j \<and> jb_error j' = jb_error j \<and> jb_finished_at j' = jb_finished_at j \<and>
     jb_kind j' = jb_kind j \<and> jb_params j' = jb_params j"

lemma job_stmt_ended:
  assumes "get_job_row t jid s = Some j" and "job_ended j" and "job_stmt c e s = Inr (x, s')"
  shows "\<exists>j'. get_job_row t jid s' = Some j' \<and> settled_as j j' \<and> (\<not> is_checkpoint e \<longrightarrow> j' = j)"
  using assms
  by (cases e; auto simp: bindT_Inr start_job_Inr job_progress_def checkpoint_job_def finish_job_def fail_job_def
      get_upd_job settled_as_def writeT_def split: if_splits; intro exI [of _ j]; simp)

lemma job_event_ended:
  assumes "get_job_row t jid s = Some j" and "job_ended j"
  shows "\<exists>j'. get_job_row t jid (snd (in_tenant_tx c (job_stmt c e) s)) = Some j' \<and> settled_as j j' \<and>
    (\<not> is_checkpoint e \<longrightarrow> j' = j)"
proof (cases "c_tenant c")
  case None
  then show ?thesis using assms(1) by (simp add: in_tenant_tx_def settled_as_def)
next
  case (Some u)
  then show ?thesis
    using assms job_stmt_ended [OF assms, of c e]
    by (cases "job_stmt c e s") (auto simp: in_tenant_tx_def run_tx_def settled_as_def)
qed

text \<open>A job ends once (BR-060): whatever statements any number of workers run afterwards, in any
  order and on any jobs, a job that is done or failed keeps its state, error and time of
  finishing, and everything else too unless a checkpoint, which has no guard, is among them.\<close>

theorem job_outcome_final:
  assumes "get_job_row t jid s = Some j" and "job_ended j"
  shows "\<exists>j'. get_job_row t jid (job_run es s) = Some j' \<and> settled_as j j' \<and>
    ((\<forall>(c, e) \<in> set es. \<not> is_checkpoint e) \<longrightarrow> j' = j)"
  using assms
proof (induction es arbitrary: s j)
  case Nil
  then show ?case by (simp add: settled_as_def)
next
  case (Cons ce es)
  obtain c e where ce: "ce = (c, e)" by (cases ce)
  obtain j1 where one: "get_job_row t jid (snd (in_tenant_tx c (job_stmt c e) s)) = Some j1" "settled_as j j1"
    "\<not> is_checkpoint e \<longrightarrow> j1 = j"
    using job_event_ended [OF Cons.prems, of c e] by blast
  then have "job_ended j1" using Cons.prems(2) by (simp add: settled_as_def job_ended_def)
  from Cons.IH [OF one(1) this] one ce show ?case by (auto simp: settled_as_def)
qed

section \<open>Acknowledging a message\<close>

text \<open>A handler may write anything, but leaves the states of job rows to the runner.\<close>

definition handler_ok :: "handler \<Rightarrow> bool" where
  "handler_ok h \<longleftrightarrow> (\<forall>c j s t jid. map_option jb_state (get_job_row t jid (snd (h c j s))) =
     map_option jb_state (get_job_row t jid s))"

lemma fail_op_state: "tenant_of tc = t \<Longrightarrow> c_tenant tc = Some t \<Longrightarrow> get_job_row t jid s = Some j \<Longrightarrow> job_open j \<Longrightarrow>
    dl_fail_ok dl \<Longrightarrow> \<exists>j'. get_job_row t jid (fail_op dl tc jid e s) = Some j' \<and> jb_state j' = S_failed"
  by (simp add: fail_op_def in_tenant_tx_def run_tx_def fail_job_def writeT_def get_upd_job)

lemma finish_state: "tenant_of tc = t \<Longrightarrow> c_tenant tc = Some t \<Longrightarrow> get_job_row t jid s = Some j \<Longrightarrow> jb_state j = S_running \<Longrightarrow>
    \<exists>j'. get_job_row t jid (snd (in_tenant_tx tc (finish_job tc jid r) s)) = Some j' \<and> jb_state j' = S_done"
  by (simp add: in_tenant_tx_def run_tx_def finish_job_def writeT_def get_upd_job)

definition has_outcome :: "uuid \<Rightarrow> uuid \<Rightarrow> db \<Rightarrow> bool" where
  "has_outcome t jid s \<longleftrightarrow> (\<exists>j. get_job_row t jid s = Some j \<and> job_ended j)"

definition last_delivery :: "runner \<Rightarrow> delivery \<Rightarrow> bool" where
  "last_delivery rn dl \<longleftrightarrow> (case dl_count dl of None \<Rightarrow> True | Some n \<Rightarrow> rn_max_deliveries rn \<le> n)"

lemma conclude_outcome:
  assumes "c_tenant tc = Some t" and "get_job_row t jid s = Some j" and "jb_state j = S_running"
  shows "fst (conclude rn dl tc jid r s) \<Longrightarrow> has_outcome t jid (snd (conclude rn dl tc jid r s)) \<or> \<not> dl_fail_ok dl"
    and "\<not> dl_killed dl \<Longrightarrow> dl_finish_ok dl \<Longrightarrow> last_delivery rn dl \<Longrightarrow> fst (conclude rn dl tc jid r s)"
proof -
  have t: "tenant_of tc = t" using assms(1) by (simp add: tenant_of_def)
  have op: "job_open j" using assms(3) by (simp add: job_open_def)
  have f: "dl_fail_ok dl \<Longrightarrow> has_outcome t jid (fail_op dl tc jid e s)" for e
    using fail_op_state [OF t assms(1,2) op, of dl e] by (auto simp: has_outcome_def job_ended_def)
  have g: "has_outcome t jid (snd (in_tenant_tx tc (finish_job tc jid x) s))" for x
    using finish_state [OF t assms(1-3), of x] by (auto simp: has_outcome_def job_ended_def)
  show "fst (conclude rn dl tc jid r s) \<Longrightarrow> has_outcome t jid (snd (conclude rn dl tc jid r s)) \<or> \<not> dl_fail_ok dl"
    using f g by (auto simp: conclude_def split: sum.splits option.splits job_result.splits if_splits)
  show "\<not> dl_killed dl \<Longrightarrow> dl_finish_ok dl \<Longrightarrow> last_delivery rn dl \<Longrightarrow> fst (conclude rn dl tc jid r s)"
    by (auto simp: conclude_def last_delivery_def split: sum.splits option.splits job_result.splits)
qed

lemma start_job_row: "start_job tc jid s = Inr (j, s1) \<Longrightarrow> tenant_of tc = t \<Longrightarrow>
    \<exists>j1. get_job_row t jid s1 = Some j1 \<and> jb_state j1 = S_running"
  by (auto simp: start_job_Inr get_upd_job)

lemma handler_keeps_state:
  assumes "handler_ok h" and "h c j s = (r, s')" and "get_job_row t jid s = Some q"
  shows "\<exists>q'. get_job_row t jid s' = Some q' \<and> jb_state q' = jb_state q"
  using assms(1)[unfolded handler_ok_def, rule_format, of t jid c j s] assms(2,3) by auto

lemma process_done:
  assumes "get_job_row t jid s = Some j" and "job_ended j" and "dl_job dl = Some jid" and "dl_tenant dl = Some t"
  shows "process rn c dl s = (dl_start_ok dl, s)"
  using assms start_ended [of "with_tenant t c" jid s j]
  by (simp add: process_def Let_def in_tenant_tx_def run_tx_def with_tenant_def tenant_of_def)

lemma fail_op_outcome: "c_tenant tc = Some t \<Longrightarrow> get_job_row t jid s = Some q \<Longrightarrow> jb_state q = S_running \<Longrightarrow>
    dl_fail_ok dl \<Longrightarrow> has_outcome t jid (fail_op dl tc jid e s)"
  using fail_op_state [of tc t jid s q dl e] by (auto simp: has_outcome_def job_ended_def job_open_def tenant_of_def)

text \<open>A delivery of an open job whose start reached the database.\<close>

lemma process_started:
  assumes "get_job_row t jid s = Some j" and "job_open j" and "dl_job dl = Some jid" and "dl_tenant dl = Some t"
    and "dl_start_ok dl" and ok: "\<And>k h. rn_handlers rn k = Some h \<Longrightarrow> handler_ok h"
  shows "(fst (process rn c dl s) \<longrightarrow> has_outcome t jid (snd (process rn c dl s)) \<or> \<not> dl_fail_ok dl) \<and>
    (\<not> dl_killed dl \<and> dl_finish_ok dl \<and> last_delivery rn dl \<longrightarrow> fst (process rn c dl s))"
proof -
  define tc where "tc = with_tenant t c"
  have tc: "c_tenant tc = Some t" "tenant_of tc = t" by (simp_all add: tc_def with_tenant_def tenant_of_def)
  obtain j1 s1 where st: "start_job tc jid s = Inr (j1, s1)"
    using assms(1,2) tc by (simp add: start_job_def)
  obtain q where q: "get_job_row t jid s1 = Some q" "jb_state q = S_running"
    using start_job_row [OF st tc(2)] by blast
  show ?thesis
  proof (cases "rn_handlers rn (jb_kind j1)")
    case None
    have "process rn c dl s = (True, fail_op dl tc jid (Opaque (''no handler for '' @ jb_kind j1)) s1)"
      using st None assms(3-5) tc by (simp add: process_def Let_def tc_def [symmetric] in_tenant_tx_def run_tx_def)
    then show ?thesis using fail_op_outcome [OF tc(1) q, where dl = dl] by (cases "dl_fail_ok dl") simp_all
  next
    case (Some h)
    obtain r s2 where h: "h tc j1 s1 = (r, s2)" by (cases "h tc j1 s1")
    obtain q2 where q2: "get_job_row t jid s2 = Some q2" "jb_state q2 = S_running"
      using handler_keeps_state [OF ok [OF Some] h q(1)] q(2) by auto
    have "process rn c dl s = conclude rn dl tc jid r s2"
      using st Some h assms(3-5) tc by (simp add: process_def Let_def tc_def [symmetric] in_tenant_tx_def run_tx_def)
    then show ?thesis using conclude_outcome [OF tc(1) q2, where rn = rn and dl = dl and r = r] by auto
  qed
qed

text \<open>C25. A message is acknowledged with its job's outcome (BR-060): when the runner acknowledges the
  message of an existing job, the job is done or failed on its row, except when the one write
  that records a failure was itself lost. A message whose job has ended does nothing: no handler
  runs and the database stays as it is. And no message is delivered for ever: with the
  database up and the worker alive, delivery number \<open>MaxDeliveries\<close> at the latest is
  acknowledged, whatever the handler does.\<close>

theorem ack_means_outcome:
  assumes "get_job_row t jid s = Some j" and "job_ended j \<or> job_open j" and "dl_job dl = Some jid" and "dl_tenant dl = Some t"
    and "\<And>k h. rn_handlers rn k = Some h \<Longrightarrow> handler_ok h"
  shows "(job_ended j \<longrightarrow> process rn c dl s = (dl_start_ok dl, s)) \<and>
    (fst (process rn c dl s) \<longrightarrow> has_outcome t jid (snd (process rn c dl s)) \<or> \<not> dl_fail_ok dl) \<and>
    (dl_start_ok dl \<and> \<not> dl_killed dl \<and> dl_finish_ok dl \<and> last_delivery rn dl \<longrightarrow> fst (process rn c dl s))"
proof (cases "job_ended j")
  case True
  then show ?thesis using process_done [OF assms(1) True assms(3,4)] assms(1) by (simp add: has_outcome_def)
next
  case False
  then have op: "job_open j" using assms(2) by blast
  show ?thesis
  proof (cases "dl_start_ok dl")
    case True
    then show ?thesis using process_started [OF assms(1) op assms(3,4) True assms(5)] False by simp
  next
    case down: False
    then show ?thesis using False by (simp add: process_def Let_def assms(3,4))
  qed
qed

section \<open>A sample job\<close>

definition sample_job :: job where
  "sample_job = \<lparr>jb_id = 7, jb_tenant = 1, jb_kind = ''customer_purge'', jb_state = S_queued, jb_processed = 0,
     jb_total = None, jb_failed = 0, jb_params = DObj [], jb_result = None, jb_error = None, jb_created_by = None,
     jb_created_at = 0, jb_finished_at = None\<rparr>"

definition done_job :: job where
  "done_job = sample_job\<lparr>jb_state := S_done, jb_finished_at := Some 5\<rparr>"

definition job_db :: "job \<Rightarrow> db" where
  "job_db j = empty_db\<lparr>jobs := [j]\<rparr>"

definition sample_handler :: handler where
  "sample_handler c j s = (Inl (Opaque ''boom''), s)"

definition sample_runner :: runner where
  "sample_runner = \<lparr>rn_handlers = (\<lambda>k. if k = ''customer_purge'' then Some sample_handler else None), rn_max_deliveries = 5\<rparr>"

definition sample_delivery :: delivery where
  "sample_delivery = \<lparr>dl_job = Some 7, dl_tenant = Some 1, dl_killed = False, dl_count = Some 5,
     dl_start_ok = True, dl_finish_ok = True, dl_fail_ok = True\<rparr>"

definition job_ctx :: ctx where
  "job_ctx = \<lparr>c_tenant = Some 1, c_actor = None, c_ip = None, c_role = None, c_now = 9, c_clock = 9\<rparr>"

lemma sample_rows: "get_job_row 1 7 (job_db sample_job) = Some sample_job"
  "get_job_row 1 7 (job_db done_job) = Some done_job" "job_ended done_job" "job_open sample_job"
  by (simp_all add: get_job_row_def row_get_def job_db_def sample_job_def done_job_def empty_db_def job_ended_def job_open_def)

theorem job_outcome_final_witness:
  "\<exists>j'. get_job_row 1 7 (job_run [(job_ctx, Fail 7 DNull), (job_ctx, Start 7), (job_ctx, Finish 7 None)] (job_db done_job)) = Some j' \<and>
    j' = done_job"
  using job_outcome_final [OF sample_rows(2,3), of "[(job_ctx, Fail 7 DNull), (job_ctx, Start 7), (job_ctx, Finish 7 None)]"]
  by auto

theorem ack_means_outcome_witness:
  "fst (process sample_runner job_ctx sample_delivery (job_db sample_job)) \<and>
   has_outcome 1 7 (snd (process sample_runner job_ctx sample_delivery (job_db sample_job)))"
proof -
  have h: "\<And>k h. rn_handlers sample_runner k = Some h \<Longrightarrow> handler_ok h"
    by (auto simp: sample_runner_def sample_handler_def handler_ok_def split: if_splits)
  have "dl_job sample_delivery = Some 7" "dl_tenant sample_delivery = Some 1" "job_ended sample_job \<or> job_open sample_job"
    "dl_start_ok sample_delivery" "\<not> dl_killed sample_delivery" "dl_finish_ok sample_delivery" "dl_fail_ok sample_delivery"
    "last_delivery sample_runner sample_delivery"
    using sample_rows(4) by (simp_all add: sample_delivery_def sample_runner_def last_delivery_def)
  with ack_means_outcome [OF sample_rows(1) this(3,1,2) h, where c = job_ctx] show ?thesis by simp
qed

text \<open>The exception is real: the handler gives up, the write of the failure is lost, and the message is
  acknowledged all the same; the row stays running and no delivery is left to end it.\<close>

lemma lost_failure:
  "case process sample_runner job_ctx (sample_delivery\<lparr>dl_fail_ok := False\<rparr>) (job_db sample_job) of
    (acked, s) \<Rightarrow> acked \<and> map jb_state (jobs s) = [S_running]"
  by code_simp

text \<open>A checkpoint of a worker that is still busy overwrites the result of a job another worker has
  already finished.\<close>

lemma late_checkpoint:
  "map jb_result (jobs (job_run [(job_ctx, Start 7), (job_ctx, Start 7), (job_ctx, Finish 7 (Some (DInt 3))),
     (job_ctx, Checkpoint 7 1 0 None)] (job_db sample_job))) = [None]"
  by code_simp

end
