(* ===== verification/Purge.thy ===== *)
theory Purge
  imports Payments Jobs
begin

text \<open>
  Erasing a customer's personal data (internal/orders/purge.go, customers.sql; BR-097) and the
  nightly sweep (internal/retention/retention.go; BR-096).\<close>

section \<open>Statements on many rows\<close>

definition row_map :: "('r \<Rightarrow> uuid) \<Rightarrow> ('r \<Rightarrow> bool) \<Rightarrow> uuid \<Rightarrow> ('r \<Rightarrow> 'r) \<Rightarrow> 'r list \<Rightarrow> 'r list" where
  "row_map ten p t f rows = map (\<lambda>r. if ten r = t \<and> p r then f r else r) rows"

lemma others_map: "(\<And>r. ten (f r) = ten r) \<Longrightarrow> others ten t (row_map ten p t f rows) = others ten t rows"
  by (induction rows) (auto simp: others_def row_map_def)

lemma row_map_keys: "(\<And>r. g (f r) = g r) \<Longrightarrow> map g (row_map ten p t f rows) = map g rows"
  by (auto simp: row_map_def)

lemma row_map_set: "r \<in> set (row_map ten p t f rows) \<Longrightarrow>
    r \<in> set rows \<or> (\<exists>q \<in> set rows. ten q = t \<and> p q \<and> r = f q)"
  by (auto simp: row_map_def)

lemma row_get_map: "(\<And>r. ten (f r) = ten r \<and> key (f r) = key r) \<Longrightarrow>
    row_get ten key t' k (row_map ten p t f rows) =
    map_option (\<lambda>r. if ten r = t \<and> p r then f r else r) (row_get ten key t' k rows)"
  by (induction rows) (auto simp: row_get_def row_map_def)

section \<open>The purge's statements\<close>

text \<open>
  The JSON documents of an order, read by the database: the lower-cased email of the customer
  snapshot, the address reduced to its region, the snapshot of a deleted customer; and the text
  of an id.\<close>

record order_docs =
  od_email :: "string \<Rightarrow> string option"
  od_region :: "string \<Rightarrow> string"
  od_deleted :: string
  od_uuid_text :: "uuid \<Rightarrow> string"

definition get_customer_row :: "uuid \<Rightarrow> uuid \<Rightarrow> db \<Rightarrow> customer option" where
  "get_customer_row t cid s = row_get cu_tenant cu_id t cid (customers s)"

definition upd_customer :: "uuid \<Rightarrow> uuid \<Rightarrow> (customer \<Rightarrow> customer) \<Rightarrow> db \<Rightarrow> db" where
  "upd_customer t cid f s = s\<lparr>customers := row_upd cu_tenant cu_id t cid f (customers s)\<rparr>"

definition anonymous :: "order_docs \<Rightarrow> ctx \<Rightarrow> customer \<Rightarrow> customer" where
  "anonymous od c r = r\<lparr>cu_email := ''purged+'' @ od_uuid_text od (cu_id r) @ ''@invalid'', cu_name := ''Deleted customer'',
     cu_phone := None, cu_password_hash := None, cu_email_verified_at := None,
     cu_purged_at := (case cu_purged_at r of None \<Rightarrow> Some (c_now c) | Some a \<Rightarrow> Some a), cu_updated_at := c_now c\<rparr>"

text \<open>\<open>PurgeCustomer\<close> answers the email it erased; the new one must be free.\<close>

definition purge_customer :: "order_docs \<Rightarrow> ctx \<Rightarrow> uuid \<Rightarrow> string stmt" where
  "purge_customer od c cid =
    bindT (oneT (get_customer_row (tenant_of c) cid)) (\<lambda>r.
    thenT (guardT (\<lambda>s. \<not> (\<exists>q \<in> set (customers s). cu_tenant q = tenant_of c \<and> cu_id q \<noteq> cid \<and>
        cu_email q = cu_email (anonymous od c r))) (unique_violation ''customers_tenant_id_email_key''))
    (thenT (writeT (upd_customer (tenant_of c) cid (anonymous od c)))
     (retT (cu_email r))))"

definition delete_customer_identities :: "ctx \<Rightarrow> uuid \<Rightarrow> unit stmt" where
  "delete_customer_identities c cid = writeT (\<lambda>s. s\<lparr>identities :=
     row_del cd_tenant (\<lambda>r. cd_customer r = cid) (tenant_of c) (identities s)\<rparr>)"

definition delete_customer_sessions :: "ctx \<Rightarrow> uuid \<Rightarrow> unit stmt" where
  "delete_customer_sessions c cid = writeT (\<lambda>s. s\<lparr>sessions :=
     row_del cs_tenant (\<lambda>r. cs_customer r = cid) (tenant_of c) (sessions s)\<rparr>)"

text \<open>Their own orders, and guest or manual ones placed with their email.\<close>

definition placed_by :: "order_docs \<Rightarrow> uuid \<Rightarrow> string \<Rightarrow> order \<Rightarrow> bool" where
  "placed_by od cid email r \<longleftrightarrow> or_customer_id r = Some cid \<or>
     (or_customer_id r = None \<and> od_email od (or_customer r) = Some email)"

definition redacted :: "order_docs \<Rightarrow> ctx \<Rightarrow> order \<Rightarrow> order" where
  "redacted od c r = r\<lparr>or_customer := od_deleted od, or_shipping_address := od_region od (or_shipping_address r),
     or_note := None, or_version := or_version r + 1, or_updated_at := c_now c\<rparr>"

definition redact_customer_orders :: "order_docs \<Rightarrow> ctx \<Rightarrow> uuid \<Rightarrow> string \<Rightarrow> uuid list stmt" where
  "redact_customer_orders od c cid email =
    bindT (readT (\<lambda>s. filter (placed_by od cid email) (rows_of or_tenant (tenant_of c) (orders s)))) (\<lambda>rs.
    thenT (guardT (\<lambda>_. list_all (\<lambda>r. is_i32 (or_version r + 1)) rs) out_of_range)
    (thenT (writeT (\<lambda>s. s\<lparr>orders := row_map or_tenant (placed_by od cid email) (tenant_of c) (redacted od c) (orders s)\<rparr>))
     (retT (map or_id rs))))"

definition forget_notification :: "payment \<Rightarrow> payment" where
  "forget_notification p = p\<lparr>pa_last_notification := None\<rparr>"

definition drop_order_notifications :: "ctx \<Rightarrow> uuid list \<Rightarrow> unit stmt" where
  "drop_order_notifications c ids = writeT (\<lambda>s. s\<lparr>payments :=
     row_map pa_tenant (\<lambda>p. pa_order p \<in> set ids) (tenant_of c) forget_notification (payments s)\<rparr>)"

text \<open>The address and note an \<open>order.update\<close> row recorded go; that they were there stays.\<close>

fun redact_doc :: "dyn \<Rightarrow> dyn" where
  "redact_doc (DObj kvs) = (if \<exists>(k, _) \<in> set kvs. k \<in> {''shipping_address'', ''note''}
     then DObj (filter (\<lambda>(k, _). k \<notin> {''shipping_address'', ''note'', ''redacted''}) kvs @ [(''redacted'', DBool True)])
     else DObj kvs)"
| "redact_doc d = d"

definition redact_row :: "audit_row \<Rightarrow> audit_row" where
  "redact_row a = a\<lparr>au_before := map_option redact_doc (au_before a), au_after := map_option redact_doc (au_after a)\<rparr>"

definition about_orders :: "uuid list \<Rightarrow> audit_row \<Rightarrow> bool" where
  "about_orders ids a \<longleftrightarrow> au_subject_type a = ''order'' \<and> au_subject_id a \<in> DId ` set ids"

definition redact_order_audit :: "ctx \<Rightarrow> uuid list \<Rightarrow> unit stmt" where
  "redact_order_audit c ids = writeT (\<lambda>s. s\<lparr>audit_log :=
     row_map au_tenant (about_orders ids) (tenant_of c) redact_row (audit_log s)\<rparr>)"

section \<open>The purge\<close>

definition purge_params :: "uuid \<Rightarrow> dyn" where
  "purge_params cid = DObj [(''customer_id'', DId cid)]"

text \<open>\<open>StartPurge\<close>: the job and its audit row commit together; the message is enqueued only after.
  The stream is the list of the jobs enqueued; \<open>up\<close> is whether Redis takes the message.\<close>

definition start_purge :: "ctx \<Rightarrow> uuid \<Rightarrow> uuid \<Rightarrow> job stmt" where
  "start_purge c jid cid =
    thenT (mapErrT (no_such ''customer'') (oneT (get_customer_row (tenant_of c) cid)))
    (bindT (create_job c jid ''customer_purge'' (purge_params cid) (actor_of c)) (\<lambda>j.
     thenT (audit c \<lparr>ae_action = ''customer.purge_request'', ae_subject_type = ''job'', ae_subject_id = DId (jb_id j),
       ae_before = None, ae_after = Some (purge_params cid)\<rparr>)
     (retT j)))"

definition start_purge_op :: "bool \<Rightarrow> ctx \<Rightarrow> uuid \<Rightarrow> uuid \<Rightarrow> db \<times> job list \<Rightarrow> (err + uuid) \<times> db \<times> job list" where
  "start_purge_op up c jid cid w =
    (case in_tenant_tx c (start_purge c jid cid) (fst w) of
      (Inl e, s) \<Rightarrow> (Inl e, s, snd w)
    | (Inr j, s) \<Rightarrow> if up then (Inr (jb_id j), s, snd w @ [j]) else (Inl (Opaque ''xadd jobs''), s, snd w))"

definition purge_audit :: "uuid \<Rightarrow> uuid list \<Rightarrow> audit_entry" where
  "purge_audit cid ids = \<lparr>ae_action = ''customer.purge'', ae_subject_type = ''customer'', ae_subject_id = DId cid,
     ae_before = None, ae_after = Some (DObj [(''orders'', DInt (int (length ids)))])\<rparr>"

definition purge :: "order_docs \<Rightarrow> ctx \<Rightarrow> uuid \<Rightarrow> uuid list stmt" where
  "purge od c cid =
    bindT (mapErrT (no_such ''customer'') (purge_customer od c cid)) (\<lambda>email.
    thenT (delete_customer_identities c cid)
    (thenT (delete_customer_sessions c cid)
    (bindT (redact_customer_orders od c cid email) (\<lambda>ids.
     thenT (drop_order_notifications c ids)
     (thenT (redact_order_audit c ids)
     (thenT (audit c (purge_audit cid ids))
      (retT ids)))))))"

definition purge_param :: "dyn \<Rightarrow> uuid option" where
  "purge_param d = (case d of DObj [(k, DId cid)] \<Rightarrow> if k = ''customer_id'' then Some cid else None | _ \<Rightarrow> None)"

definition purge_handler :: "order_docs \<Rightarrow> handler" where
  "purge_handler od c j s =
    (case purge_param (jb_params j) of
      None \<Rightarrow> (Inl (Opaque ''json''), s)
    | Some cid \<Rightarrow>
        (case in_tenant_tx c (purge od c cid) s of
          (Inl e, s') \<Rightarrow> (Inl e, s')
        | (Inr ids, s') \<Rightarrow> (Inr (Some (Marshals (DObj [(''orders'', DInt (int (length ids)))]))), s')))"

section \<open>Retention\<close>

definition delete_ended_sessions :: "ctx \<Rightarrow> int stmt" where
  "delete_ended_sessions c s =
    (let dead = (\<lambda>r. cs_expires_at r < c_now c \<or> cs_revoked_at r \<noteq> None)
     in Inr (int (length (filter (\<lambda>r. cs_tenant r = tenant_of c \<and> dead r) (sessions s))),
          s\<lparr>sessions := row_del cs_tenant dead (tenant_of c) (sessions s)\<rparr>))"

definition sweep_audit :: "uuid \<Rightarrow> int \<Rightarrow> int \<Rightarrow> audit_entry" where
  "sweep_audit t n k = \<lparr>ae_action = ''retention.sweep'', ae_subject_type = ''tenant'', ae_subject_id = DId t,
     ae_before = None, ae_after = Some (DObj [(''carts'', DInt n), (''customer_sessions'', DInt k)])\<rparr>"

definition sweep :: "ctx \<Rightarrow> unit stmt" where
  "sweep c =
    bindT (delete_expired_carts c) (\<lambda>n.
    bindT (delete_ended_sessions c) (\<lambda>k.
    if n + k = 0 then retT () else audit c (sweep_audit (tenant_of c) n k)))"

definition sweep_shop :: "ctx \<Rightarrow> uuid \<Rightarrow> db \<Rightarrow> (err + unit) \<times> db" where
  "sweep_shop c t s = in_tenant_tx (with_tenant t c) (sweep (with_tenant t c)) s"

text \<open>\<open>Sweep\<close>: one shop failing does not stop the rest. \<open>up t\<close> is whether the transaction of shop
  \<open>t\<close> reaches the database; the errors are joined.\<close>

fun sweep_shops :: "(uuid \<Rightarrow> bool) \<Rightarrow> ctx \<Rightarrow> uuid list \<Rightarrow> db \<Rightarrow> uuid list \<times> db" where
  "sweep_shops up c [] s = ([], s)"
| "sweep_shops up c (t # ts) s =
    (if up t
     then (case sweep_shop c t s of
        (Inl e, s') \<Rightarrow> (case sweep_shops up c ts s' of (failed, s2) \<Rightarrow> (t # failed, s2))
      | (Inr _, s') \<Rightarrow> sweep_shops up c ts s')
     else (case sweep_shops up c ts s of (failed, s2) \<Rightarrow> (t # failed, s2)))"

definition sweep_op :: "(uuid \<Rightarrow> bool) \<Rightarrow> ctx \<Rightarrow> db \<Rightarrow> uuid list \<times> db" where
  "sweep_op up c s = sweep_shops up c (sort (map tn_id (tenants s))) s"

section \<open>What a purge leaves\<close>

definition purge_fits :: "order_docs \<Rightarrow> ctx \<Rightarrow> uuid \<Rightarrow> customer \<Rightarrow> db \<Rightarrow> bool" where
  "purge_fits od c cid r s \<longleftrightarrow>
     \<not> (\<exists>q \<in> set (customers s). cu_tenant q = tenant_of c \<and> cu_id q \<noteq> cid \<and> cu_email q = cu_email (anonymous od c r)) \<and>
     (\<forall>q \<in> set (orders s). or_tenant q = tenant_of c \<and> placed_by od cid (cu_email r) q \<longrightarrow> is_i32 (or_version q + 1))"

definition purge_ids :: "order_docs \<Rightarrow> ctx \<Rightarrow> uuid \<Rightarrow> string \<Rightarrow> db \<Rightarrow> uuid list" where
  "purge_ids od c cid email s = map or_id (filter (placed_by od cid email) (rows_of or_tenant (tenant_of c) (orders s)))"

definition purged :: "order_docs \<Rightarrow> ctx \<Rightarrow> uuid \<Rightarrow> string \<Rightarrow> uuid list \<Rightarrow> db \<Rightarrow> db" where
  "purged od c cid email ids s = s\<lparr>
     customers := row_upd cu_tenant cu_id (tenant_of c) cid (anonymous od c) (customers s),
     identities := row_del cd_tenant (\<lambda>r. cd_customer r = cid) (tenant_of c) (identities s),
     sessions := row_del cs_tenant (\<lambda>r. cs_customer r = cid) (tenant_of c) (sessions s),
     orders := row_map or_tenant (placed_by od cid email) (tenant_of c) (redacted od c) (orders s),
     payments := row_map pa_tenant (\<lambda>p. pa_order p \<in> set ids) (tenant_of c) forget_notification (payments s),
     audit_log := row_map au_tenant (about_orders ids) (tenant_of c) redact_row (audit_log s) @ [audit_row_of c (purge_audit cid ids)]\<rparr>"

lemma purge_Inr: "purge od c cid s = Inr (ids, s') \<longleftrightarrow>
    (\<exists>r. get_customer_row (tenant_of c) cid s = Some r \<and> purge_fits od c cid r s \<and>
      ids = purge_ids od c cid (cu_email r) s \<and> s' = purged od c cid (cu_email r) ids s)"
  by (auto simp: purge_def purge_customer_def delete_customer_identities_def delete_customer_sessions_def
      redact_customer_orders_def drop_order_notifications_def redact_order_audit_def bindT_Inr thenT_Inr
      purge_fits_def purge_ids_def purged_def upd_customer_def add_audit_def rows_of_def list_all_iff readT_def)

lemma purged_isolated: "foreign (tenant_of c) (purged od c cid email ids s) = foreign (tenant_of c) s"
  by (simp add: foreign_def purged_def others_upd others_del others_map others_append others_own keeps_key_def
      anonymous_def redacted_def forget_notification_def redact_row_def audit_row_of_def)

lemma purge_isolated [isolation]: "tenant_of c = t \<Longrightarrow> within (isolated t) (purge od c cid)"
  by (intro withinI) (auto simp: purge_Inr isolated_def same_def purged_isolated)

lemma redacted_good: "good_order r \<Longrightarrow> is_i32 (or_version r + 1) \<Longrightarrow> good_order (redacted od c r)"
  unfolding good_order_def order_check_def lifecycle_def redacted_def
  by (elim conjE, intro conjI) simp_all

lemma purge_keeps_good: "within (holds_on good_orders) (purge od c cid)"
proof (rule withinI)
  fix s ids s'
  assume "purge od c cid s = Inr (ids, s')"
  then obtain r where fits: "purge_fits od c cid r s" and s': "s' = purged od c cid (cu_email r) ids s"
    by (auto simp: purge_Inr)
  have ids: "map or_id (orders s') = map or_id (orders s)"
    by (simp add: s' purged_def row_map_keys redacted_def)
  have "good_order q" if good: "good_orders s" and q: "q \<in> set (orders s')" for q
  proof -
    from q have "q \<in> set (orders s) \<or>
      (\<exists>p \<in> set (orders s). or_tenant p = tenant_of c \<and> placed_by od cid (cu_email r) p \<and> q = redacted od c p)"
      unfolding s' purged_def by (intro row_map_set) simp
    then show ?thesis
      using good fits redacted_good unfolding good_orders_def purge_fits_def by blast
  qed
  then show "holds_on good_orders s s'" using ids by (auto simp: holds_on_def good_orders_def)
qed

lemma forget_fields [simp]:
  "pa_id (forget_notification p) = pa_id p" "pa_order (forget_notification p) = pa_order p"
  "pa_tenant (forget_notification p) = pa_tenant p" "pa_attempt (forget_notification p) = pa_attempt p"
  "pa_provider_order_id (forget_notification p) = pa_provider_order_id p"
  "pa_status (forget_notification p) = pa_status p"
  by (simp_all add: forget_notification_def)

lemma purge_payments_inv [pay_inv]: "within (holds_on payments_ok) (purge od c cid)"
proof (rule withinI)
  fix s ids s'
  assume "purge od c cid s = Inr (ids, s')"
  then have ps: "payments s' = map (\<lambda>p. if pa_tenant p = tenant_of c \<and> pa_order p \<in> set ids then forget_notification p else p) (payments s)"
    by (auto simp: purge_Inr purged_def row_map_def)
  have "map pa_id (payments s') = map pa_id (payments s)"
    "map (\<lambda>p. (pa_order p, pa_attempt p)) (payments s') = map (\<lambda>p. (pa_order p, pa_attempt p)) (payments s)"
    "map (\<lambda>p. (pa_tenant p, pa_provider_order_id p)) (payments s') = map (\<lambda>p. (pa_tenant p, pa_provider_order_id p)) (payments s)"
    by (simp_all add: ps)
  moreover have "map pa_order (filter (\<lambda>p. pa_status p = S_pending) (map (\<lambda>p. if b p then forget_notification p else p) xs)) =
      map pa_order (filter (\<lambda>p. pa_status p = S_pending) xs)" for b xs
    by (induction xs) (auto simp: forget_notification_def)
  note this [of "\<lambda>p. pa_tenant p = tenant_of c \<and> pa_order p \<in> set ids" "payments s", folded ps]
  moreover have "good_payment (forget_notification p) = good_payment p" for p
    by (simp add: good_payment_def payment_check_def forget_notification_def)
  then have "\<forall>p \<in> set (payments s'). good_payment p" if "\<forall>p \<in> set (payments s). good_payment p"
    using that by (auto simp: ps)
  ultimately show "holds_on payments_ok s s'"
    unfolding holds_on_def good_payments_def by simp
qed

text \<open>An order without what a purge may touch.\<close>

definition business :: "order \<Rightarrow> order" where
  "business r = r\<lparr>or_customer := [], or_shipping_address := [], or_note := None, or_version := 0, or_updated_at := 0\<rparr>"

lemma business_redacted [simp]: "business (redacted od c r) = business r"
  by (simp add: business_def redacted_def)

fun doc_keys :: "dyn \<Rightarrow> string list" where
  "doc_keys (DObj kvs) = map fst kvs"
| "doc_keys _ = []"

definition clean :: "dyn option \<Rightarrow> bool" where
  "clean d \<longleftrightarrow> (case d of None \<Rightarrow> True | Some x \<Rightarrow> \<not> (\<exists>k \<in> set (doc_keys x). k = ''shipping_address'' \<or> k = ''note''))"

lemma redact_doc_clean: "clean (map_option redact_doc d)"
  by (cases d; cases "the d") (auto simp: clean_def)

lemma redact_doc_same: "clean (Some x) \<Longrightarrow> redact_doc x = x"
  by (cases x) (auto simp: clean_def)

lemma redact_doc_fix: "redact_doc (redact_doc d) = redact_doc d"
proof (cases d)
  case (DObj kvs)
  then show ?thesis by auto
qed simp_all

lemma redact_row_fix: "redact_row (redact_row a) = redact_row a"
  by (simp add: redact_row_def option.map_comp comp_def redact_doc_fix)

lemma purge_run: "in_tenant_tx c (purge od c cid) s = (Inr ids, s') \<Longrightarrow> c_tenant c = Some t \<Longrightarrow>
    \<exists>r. get_customer_row t cid s = Some r \<and> purge_fits od c cid r s \<and>
      ids = purge_ids od c cid (cu_email r) s \<and> s' = purged od c cid (cu_email r) ids s"
  using purge_Inr [of od c cid s ids s']
  by (auto simp: in_tenant_tx_def run_tx_def tenant_of_def split: sum.splits)

lemma purged_order: "q \<in> set (orders (purged od c cid email ids s)) \<Longrightarrow> \<exists>p \<in> set (orders s). q =
    (if or_tenant p = tenant_of c \<and> placed_by od cid email p then redacted od c p else p)"
  by (auto simp: purged_def row_map_def)

lemma purged_audit: "a \<in> set (audit_log (purged od c cid email ids s)) \<Longrightarrow> a = audit_row_of c (purge_audit cid ids) \<or>
    (\<exists>b \<in> set (audit_log s). a = (if au_tenant b = tenant_of c \<and> about_orders ids b then redact_row b else b))"
  by (auto simp: purged_def row_map_def)

lemma purged_customer: "get_customer_row t cid s = Some r \<Longrightarrow> tenant_of c = t \<Longrightarrow>
    get_customer_row t cid (purged od c cid email ids s) = Some (anonymous od c r)"
  by (simp add: get_customer_row_def purged_def rows.get_same keeps_key_def anonymous_def)


lemma row_map_same: "(\<And>r. r \<in> set rows \<Longrightarrow> ten r = t \<Longrightarrow> p r \<Longrightarrow> f r = r) \<Longrightarrow> row_map ten p t f rows = rows"
  by (auto simp: row_map_def intro!: map_idI)

lemma redacted_before:
  assumes sub: "set ids2 \<subseteq> set ids1" and a: "a \<in> set (audit_log (purged od c cid email ids1 s))"
    and t: "au_tenant a = tenant_of c" and about: "about_orders ids2 a"
  shows "redact_row a = a"
proof -
  have about1: "about_orders ids1 a" using about sub by (auto simp: about_orders_def)
  then have "a \<noteq> audit_row_of c (purge_audit cid ids1)"
    by (auto simp: about_orders_def audit_row_of_def purge_audit_def)
  then obtain b where b: "a = (if au_tenant b = tenant_of c \<and> about_orders ids1 b then redact_row b else b)"
    using purged_audit [OF a] by blast
  then have "a = redact_row b" using about1 t by metis
  then show ?thesis by (simp add: redact_row_fix)
qed

text \<open>A purge run again finds what the first run left.\<close>

definition unversioned :: "order \<Rightarrow> order" where
  "unversioned r = r\<lparr>or_version := 0, or_updated_at := 0\<rparr>"

text \<open>Running a purge twice (BR-097): the second run erases nothing more. Identities, sessions, lines,
  payments and the contents of every order are as the first run left them, and one audit row is
  added. It is not a no-op, though: each order of the customer gets another version.\<close>

theorem purge_twice:
  assumes one: "in_tenant_tx c1 (purge od c1 cid) s = (Inr ids1, s1)" "c_tenant c1 = Some t"
    and two: "in_tenant_tx c2 (purge od c2 cid) s1 = (Inr ids2, s2)" "c_tenant c2 = Some t"
    and nobody: "od_email od (od_deleted od) = None" and region: "\<And>a. od_region od (od_region od a) = od_region od a"
    and free: "\<And>q. q \<in> set (orders s) \<Longrightarrow> od_email od (or_customer q) \<noteq> Some (''purged+'' @ od_uuid_text od cid @ ''@invalid'')"
  shows "map unversioned (orders s2) = map unversioned (orders s1) \<and>
      (\<forall>q \<in> set (orders s1). or_tenant q = t \<and> or_customer_id q = Some cid \<longrightarrow>
         (\<exists>q' \<in> set (orders s2). or_id q' = or_id q \<and> or_version q' = or_version q + 1)) \<and>
      identities s2 = identities s1 \<and> sessions s2 = sessions s1 \<and> payments s2 = payments s1 \<and>
      order_lines s2 = order_lines s1 \<and> audit_log s2 = audit_log s1 @ [audit_row_of c2 (purge_audit cid ids2)] \<and>
      set ids2 \<subseteq> set ids1"
proof -
  have t: "tenant_of c1 = t" "tenant_of c2 = t" using one two by (simp_all add: tenant_of_def)
  obtain r where r: "get_customer_row t cid s = Some r" and ids1: "ids1 = purge_ids od c1 cid (cu_email r) s"
    and s1: "s1 = purged od c1 cid (cu_email r) ids1 s"
    using purge_run [OF one] by blast
  have cid: "cu_id r = cid" using r row_get_Some by (fastforce simp: get_customer_row_def)
  define mail where "mail = ''purged+'' @ od_uuid_text od cid @ ''@invalid''"
  obtain r1 where r1: "get_customer_row t cid s1 = Some r1" and ids2: "ids2 = purge_ids od c2 cid (cu_email r1) s1"
    and s2: "s2 = purged od c2 cid (cu_email r1) ids2 s1"
    using purge_run [OF two] by blast
  have "r1 = anonymous od c1 r" using purged_customer [OF r t(1)] r1 s1 by simp
  then have email: "cu_email r1 = mail" using cid by (simp add: anonymous_def mail_def)
  text \<open>What the second run finds are the customer's own orders, already redacted.\<close>
  have found: "or_customer_id q = Some cid \<and> redacted od c2 q = q\<lparr>or_version := or_version q + 1, or_updated_at := c_now c2\<rparr> \<and>
      or_id q \<in> set ids1"
    if q: "q \<in> set (orders s1)" "or_tenant q = t" "placed_by od cid mail q" for q
  proof -
    obtain p where p: "p \<in> set (orders s)"
      "q = (if or_tenant p = t \<and> placed_by od cid (cu_email r) p then redacted od c1 p else p)"
      using purged_order [OF q(1) [unfolded s1]] unfolding t by blast
    have own: "or_customer_id q = Some cid"
      using q(3) p nobody free [OF p(1)] by (auto simp: placed_by_def redacted_def mail_def split: if_splits)
    then have "q = redacted od c1 p" "or_tenant p = t" "placed_by od cid (cu_email r) p"
      using p(2) q(2) by (auto simp: placed_by_def redacted_def split: if_splits)
    then show ?thesis
      using own p(1) region by (auto simp: redacted_def ids1 purge_ids_def rows_of_def t)
  qed
  have orders: "orders s2 = map (\<lambda>q. if or_tenant q = t \<and> placed_by od cid mail q
      then q\<lparr>or_version := or_version q + 1, or_updated_at := c_now c2\<rparr> else q) (orders s1)"
    using found by (auto simp: s2 purged_def row_map_def email t)
  have sub: "set ids2 \<subseteq> set ids1"
    using found by (auto simp: ids2 purge_ids_def rows_of_def email t)
  have "payments s2 = payments s1" using sub
    by (auto simp: s2 purged_def s1 row_map_def t forget_notification_def)
  moreover have "audit_log s2 = audit_log s1 @ [audit_row_of c2 (purge_audit cid ids2)]"
  proof -
    have "redact_row a = a" if "a \<in> set (audit_log s1)" "au_tenant a = t" "about_orders ids2 a" for a
      using redacted_before [OF sub that(1) [unfolded s1] _ that(3)] that(2) t by simp
    then have "row_map au_tenant (about_orders ids2) t redact_row (audit_log s1) = audit_log s1"
      by (intro row_map_same) blast
    then show ?thesis by (simp add: s2 purged_def t)
  qed
  moreover have "identities s2 = identities s1" "sessions s2 = sessions s1" "order_lines s2 = order_lines s1"
    by (simp_all add: s2 purged_def s1 row_del_def t)
  moreover have "map unversioned (orders s2) = map unversioned (orders s1)"
    by (simp add: orders unversioned_def)
  moreover have "\<forall>q \<in> set (orders s1). or_tenant q = t \<and> or_customer_id q = Some cid \<longrightarrow>
      (\<exists>q' \<in> set (orders s2). or_id q' = or_id q \<and> or_version q' = or_version q + 1)"
  proof (intro ballI impI)
    fix q
    assume q: "q \<in> set (orders s1)" "or_tenant q = t \<and> or_customer_id q = Some cid"
    then have "placed_by od cid mail q" by (simp add: placed_by_def)
    then have "q\<lparr>or_version := or_version q + 1, or_updated_at := c_now c2\<rparr> \<in> set (orders s2)"
      using q unfolding orders set_map by (intro image_eqI [of _ _ q]) simp_all
    then show "\<exists>q' \<in> set (orders s2). or_id q' = or_id q \<and> or_version q' = or_version q + 1"
      by (rule bexI [rotated]) simp
  qed
  ultimately show ?thesis using sub by blast
qed

section \<open>The sweep\<close>

lemma sweep_shop_state: "\<exists>s1. sweep_shop c t s = (Inr (), s1) \<and> orders s1 = orders s \<and> order_lines s1 = order_lines s \<and>
    payments s1 = payments s \<and>
    carts s1 = row_del ca_tenant (\<lambda>k. ca_status k = S_open \<and> ca_expires_at k < c_now c) t (carts s) \<and>
    sessions s1 = row_del cs_tenant (\<lambda>r. cs_expires_at r < c_now c \<or> cs_revoked_at r \<noteq> None) t (sessions s)"
  by (simp add: sweep_shop_def in_tenant_tx_def with_tenant_def run_tx_def sweep_def delete_expired_carts_def
      delete_ended_sessions_def tenant_of_def bindT_def Let_def retT_def audit_def writeT_def)

lemma sweep_shops_state:
  assumes "sweep_shops up c ts s = (failed, s')"
  shows "failed = filter (\<lambda>t. \<not> up t) ts \<and>
    orders s' = orders s \<and> order_lines s' = order_lines s \<and> payments s' = payments s \<and>
    carts s' = filter (\<lambda>k. \<not> (ca_tenant k \<in> set ts \<and> up (ca_tenant k) \<and>
      ca_status k = S_open \<and> ca_expires_at k < c_now c)) (carts s) \<and>
    sessions s' = filter (\<lambda>r. \<not> (cs_tenant r \<in> set ts \<and> up (cs_tenant r) \<and>
      (cs_expires_at r < c_now c \<or> cs_revoked_at r \<noteq> None))) (sessions s)"
  using assms
proof (induction ts arbitrary: s failed)
  case Nil
  then show ?case by simp
next
  case (Cons t ts)
  show ?case
  proof (cases "up t")
    case True
    obtain s1 where s1: "sweep_shop c t s = (Inr (), s1)" "orders s1 = orders s" "order_lines s1 = order_lines s"
      "payments s1 = payments s"
      "carts s1 = row_del ca_tenant (\<lambda>k. ca_status k = S_open \<and> ca_expires_at k < c_now c) t (carts s)"
      "sessions s1 = row_del cs_tenant (\<lambda>r. cs_expires_at r < c_now c \<or> cs_revoked_at r \<noteq> None) t (sessions s)"
      using sweep_shop_state [of c t s] by blast
    have "sweep_shops up c ts s1 = (failed, s')" using Cons.prems True s1(1) by simp
    from Cons.IH [OF this] True show ?thesis
      unfolding s1(2-6) row_del_def by (auto intro!: filter_cong)
  next
    case False
    then obtain fs where "sweep_shops up c ts s = (fs, s')" "failed = t # fs"
      using Cons.prems by (auto split: prod.splits)
    from Cons.IH [OF this(1)] this(2) False show ?thesis by (auto intro!: filter_cong)
  qed
qed

text \<open>The sweep deletes only what is over (BR-096): in a shop whose transaction runs, exactly the open
  carts past their expiry go, with their items, and the sessions that can never refresh again;
  orders, lines and checked-out carts stay. A shop that fails keeps everything and stops no
  other shop.\<close>

theorem sweep_only_expired:
  assumes "sweep_op up c s = (failed, s')"
  shows "set failed = {t \<in> tn_id ` set (tenants s). \<not> up t} \<and>
    orders s' = orders s \<and> order_lines s' = order_lines s \<and> payments s' = payments s \<and>
    carts s' = filter (\<lambda>k. \<not> (ca_tenant k \<in> tn_id ` set (tenants s) \<and> up (ca_tenant k) \<and>
      ca_status k = S_open \<and> ca_expires_at k < c_now c)) (carts s) \<and>
    sessions s' = filter (\<lambda>r. \<not> (cs_tenant r \<in> tn_id ` set (tenants s) \<and> up (cs_tenant r) \<and>
      (cs_expires_at r < c_now c \<or> cs_revoked_at r \<noteq> None))) (sessions s)"
  using sweep_shops_state [OF assms [unfolded sweep_op_def]] by auto

section \<open>A sample purge\<close>

definition sample_docs :: order_docs where
  "sample_docs = \<lparr>od_email = (\<lambda>d. if d = ''b'' then Some ''m'' else None), od_region = (\<lambda>a. ''r''),
     od_deleted = ''gone'', od_uuid_text = (\<lambda>u. ''5'')\<rparr>"

definition sample_customer :: customer where
  "sample_customer = \<lparr>cu_id = 5, cu_tenant = 1, cu_email = ''m'', cu_password_hash = Some ''h'', cu_name = ''Budi'',
     cu_phone = Some ''08'', cu_email_verified_at = None, cu_created_at = 0, cu_updated_at = 0, cu_purged_at = None\<rparr>"

definition guest_order :: order where
  "guest_order = sample_order\<lparr>or_id := 12, or_customer := ''b'', or_customer_id := None, or_note := Some ''ring''\<rparr>"

definition own_order :: order where
  "own_order = sample_order\<lparr>or_id := 13, or_customer := ''c'', or_customer_id := Some 5\<rparr>"

definition purge_db :: db where
  "purge_db = empty_db\<lparr>customers := [sample_customer], orders := [guest_order, own_order]\<rparr>"

definition purge_ctx :: ctx where
  "purge_ctx = \<lparr>c_tenant = Some 1, c_actor = None, c_ip = None, c_role = None, c_now = 9, c_clock = 9\<rparr>"

lemma sample_purge: "case in_tenant_tx purge_ctx (purge sample_docs purge_ctx 5) purge_db of
    (Inr ids, s) \<Rightarrow> ids = [12, 13] \<and> (case in_tenant_tx purge_ctx (purge sample_docs purge_ctx 5) s of
      (Inr ids2, s2) \<Rightarrow> ids2 = [13] | (Inl _, _) \<Rightarrow> False)
  | (Inl _, _) \<Rightarrow> False"
  by code_simp

lemma sample_purge_runs:
  obtains s1 s2 where "in_tenant_tx purge_ctx (purge sample_docs purge_ctx 5) purge_db = (Inr [12, 13], s1)"
    "in_tenant_tx purge_ctx (purge sample_docs purge_ctx 5) s1 = (Inr [13], s2)"
  using sample_purge by (auto split: prod.splits sum.splits)

lemma purge_ctx_tenant: "c_tenant purge_ctx = Some 1"
  by (simp add: purge_ctx_def)

lemma sample_docs_ok: "od_email sample_docs (od_deleted sample_docs) = None"
  "od_region sample_docs (od_region sample_docs a) = od_region sample_docs a"
  "q \<in> set (orders purge_db) \<Longrightarrow> od_email sample_docs (or_customer q) \<noteq> Some (''purged+'' @ od_uuid_text sample_docs 5 @ ''@invalid'')"
  by (auto simp: sample_docs_def purge_db_def empty_db_def)


theorem purge_twice_witness:
  "\<exists>s1 s2. in_tenant_tx purge_ctx (purge sample_docs purge_ctx 5) purge_db = (Inr [12, 13], s1) \<and>
    in_tenant_tx purge_ctx (purge sample_docs purge_ctx 5) s1 = (Inr [13], s2) \<and>
    map unversioned (orders s2) = map unversioned (orders s1)"
proof -
  obtain s1 s2 where r: "in_tenant_tx purge_ctx (purge sample_docs purge_ctx 5) purge_db = (Inr [12, 13], s1)"
    "in_tenant_tx purge_ctx (purge sample_docs purge_ctx 5) s1 = (Inr [13], s2)"
    by (rule sample_purge_runs)
  from purge_twice [OF r(1) purge_ctx_tenant r(2) purge_ctx_tenant sample_docs_ok] r show ?thesis by blast
qed

definition swept_db :: db where
  "swept_db = empty_db\<lparr>tenants := [\<lparr>tn_id = 1, tn_name = [], tn_slug = [], tn_timezone = [], tn_status = S_active,
     tn_created_at = 0, tn_order_prefix = ''A''\<rparr>], carts := [\<lparr>ca_id = 3, ca_tenant = 1, ca_customer = None,
     ca_status = S_open, ca_expires_at = 5, ca_created_at = 0, ca_updated_at = 0\<rparr>]\<rparr>"

theorem sweep_only_expired_witness:
  "carts (snd (sweep_op (\<lambda>_. True) purge_ctx swept_db)) = []"
proof -
  obtain f s' where "sweep_op (\<lambda>_. True) purge_ctx swept_db = (f, s')" by (cases "sweep_op (\<lambda>_. True) purge_ctx swept_db")
  from sweep_only_expired [OF this] this show ?thesis by (simp add: swept_db_def purge_ctx_def)
qed

end
