(* ===== verification/Shop.thy ===== *)
theory Shop
  imports Notify Purge
begin

text \<open>
  The services together. Every transaction the order, cart, payment, purge and retention code
  commits is one rule of a step relation over the database, with any caller, any clock and any
  answer of the outside services; the operations of the services are sequences of such steps, and
  between the steps of one operation those of others may come.\<close>

section \<open>How orders evolve\<close>

text \<open>One step of the status machine, and what of an order is written once.\<close>

definition moves :: "(string \<times> string) set" where
  "moves = {(a, b). b \<in> set (allowed a)}"

definition snapshot :: "order \<Rightarrow> order" where
  "snapshot r = r\<lparr>or_status := [], or_customer := [], or_shipping_address := [], or_note := None, or_shipping := 0,
     or_total := 0, or_courier := None, or_tracking_number := None, or_paid_at := None, or_shipped_at := None,
     or_completed_at := None, or_cancelled_at := None, or_refunded_at := None, or_version := 0, or_updated_at := 0\<rparr>"

definition later :: "order \<Rightarrow> order \<Rightarrow> bool" where
  "later r r' \<longleftrightarrow> snapshot r' = snapshot r \<and> (or_status r, or_status r') \<in> moves\<^sup>* \<and> or_version r \<le> or_version r' \<and>
     (or_status r \<noteq> S_pending \<longrightarrow> or_total r' = or_total r \<and> or_shipping r' = or_shipping r) \<and>
     (or_paid_at r \<noteq> None \<longrightarrow> or_paid_at r' = or_paid_at r) \<and> (or_refunded_at r \<noteq> None \<longrightarrow> or_refunded_at r' \<noteq> None)"

lemma later_refl [simp]: "later r r"
  by (simp add: later_def)

lemma to_pending: "(a, S_pending) \<in> moves\<^sup>* \<Longrightarrow> a = S_pending"
  by (erule rtranclE) (auto simp: moves_def dest: allowed_rank)

lemma later_trans: "later r r' \<Longrightarrow> later r' r'' \<Longrightarrow> later r r''"
  unfolding later_def using to_pending by (metis (no_types, lifting) order_trans rtrancl_trans)

definition evolved :: "order list \<Rightarrow> order list \<Rightarrow> bool" where
  "evolved xs ys \<longleftrightarrow> (\<exists>zs ws. ys = zs @ ws \<and> list_all2 later xs zs)"

lemma evolved_snoc: "evolved xs (xs @ ws)"
  unfolding evolved_def by (intro exI conjI, rule refl) (simp add: list_all2_refl)

lemma evolved_refl: "evolved xs xs"
  using evolved_snoc [of xs "[]"] by simp

lemma evolved_trans: "evolved xs ys \<Longrightarrow> evolved ys zs \<Longrightarrow> evolved xs zs"
  unfolding evolved_def
proof (elim exE conjE)
  fix y1 y2 z1 z2
  assume ys: "ys = y1 @ y2" "list_all2 later xs y1" and zs: "zs = z1 @ z2" "list_all2 later ys z1"
  then obtain u v where uv: "z1 = u @ v" "list_all2 later y1 u"
    by (auto simp: list_all2_append1)
  have "list_all2 later xs u" by (rule list_all2_trans [OF later_trans ys(2) uv(2)])
  then show "\<exists>y3 ws. zs = y3 @ ws \<and> list_all2 later xs y3" using zs uv by auto
qed

lemma evolved_map: "(\<And>r. r \<in> set xs \<Longrightarrow> later r (g r)) \<Longrightarrow> evolved xs (map g xs)"
  unfolding evolved_def by (rule exI [of _ "map g xs"]) (simp add: list_all2_map2 list.rel_refl_strong)

text \<open>The lines of an order that is already there never change.\<close>

definition keeps_lines :: "db \<Rightarrow> db \<Rightarrow> bool" where
  "keeps_lines s s' \<longleftrightarrow> (\<forall>oid \<in> or_id ` set (orders s).
     filter (\<lambda>l. ol_order l = oid) (order_lines s') = filter (\<lambda>l. ol_order l = oid) (order_lines s))"

definition evolves :: "db \<Rightarrow> db \<Rightarrow> bool" where
  "evolves s s' \<longleftrightarrow> (good_orders s \<longrightarrow> good_orders s' \<and> evolved (orders s) (orders s') \<and> keeps_lines s s')"

lemma evolved_ids: "evolved xs ys \<Longrightarrow> or_id ` set xs \<subseteq> or_id ` set ys"
proof -
  have id: "or_id r' = or_id r" if "later r r'" for r r'
  proof -
    have "or_id (snapshot r') = or_id (snapshot r)" using that by (simp add: later_def)
    then show ?thesis by (simp add: snapshot_def)
  qed
  have "map or_id zs = map or_id xs" if "list_all2 later xs zs" for zs
    using that by (induction rule: list_all2_induct) (simp_all add: id)
  then show "evolved xs ys \<Longrightarrow> or_id ` set xs \<subseteq> or_id ` set ys"
    unfolding evolved_def by (metis Un_upper1 image_Un image_set set_append)
qed

interpretation evo: tx_relation evolves
proof
  show "evolves s s" for s by (simp add: evolves_def evolved_refl keeps_lines_def)
next
  fix s t u
  assume st: "evolves s t" and tu: "evolves t u"
  show "evolves s u"
    unfolding evolves_def
  proof (intro impI)
    assume "good_orders s"
    with st tu have e: "evolved (orders s) (orders t)" "evolved (orders t) (orders u)" "good_orders u"
      "keeps_lines s t" "keeps_lines t u"
      by (auto simp: evolves_def)
    have "keeps_lines s u"
      using e(4,5) evolved_ids [OF e(1)] unfolding keeps_lines_def by fastforce
    then show "good_orders u \<and> evolved (orders s) (orders u) \<and> keeps_lines s u"
      using e evolved_trans by blast
  qed
qed

named_theorems evolution \<open>statements under which orders only evolve\<close>

lemma frame_evolves: "within (same (\<lambda>s. (orders s, order_lines s))) m \<Longrightarrow> within evolves m"
  by (auto simp: within_def same_def evolves_def good_orders_def evolved_refl keeps_lines_def)

lemma view_evolves: "within (same order_view) m \<Longrightarrow> within evolves m"
  by (rule frame_evolves) (auto simp: within_def same_def order_view_def)

section \<open>Every service evolves\<close>

lemma moved_later: "good_order r \<Longrightarrow> to \<in> set (allowed (or_status r)) \<Longrightarrow> later r (moved c to ship r)"
proof -
  assume good: "good_order r" and to: "to \<in> set (allowed (or_status r))"
  have "or_paid_at r = None" if "to = S_paid"
    using that to good by (auto simp: allowed_cases good_order_def lifecycle_def)
  then have "or_paid_at r \<noteq> None \<longrightarrow> or_paid_at (moved c to ship r) = or_paid_at r"
    by (auto simp: moved_def)
  moreover have "(or_status r, or_status (moved c to ship r)) \<in> moves\<^sup>*"
    using to by (auto simp: moves_def moved_def)
  ultimately show ?thesis by (simp add: later_def snapshot_def moved_def)
qed

lemma edited_later: "or_status r = S_pending \<Longrightarrow> later r (edited c inp r)"
  by (simp add: later_def snapshot_def edited_def Let_def)

lemma refunded_later: "later r (refunded c r)"
  by (simp add: later_def snapshot_def refunded_def)

lemma redacted_later: "later r (redacted od c r)"
  by (simp add: later_def snapshot_def redacted_def)

lemma upd_evolved:
  assumes "good_orders s" and "get_order t oid s = Some ord" and "later ord (f ord)"
  shows "evolved (orders s) (orders (upd_order t oid f s))"
  unfolding upd_order_def row_upd_def
proof (simp, rule evolved_map)
  fix r
  assume r: "r \<in> set (orders s)"
  have "r = ord" if "or_id r = oid"
    using that r assms(1) get_order_Some [OF assms(2)] by (auto simp: good_orders_def distinct_map dest: inj_onD)
  then show "later r (if or_tenant r = t \<and> or_id r = oid then f r else r)"
    using assms(3) by (cases "or_id r = oid") auto
qed

lemma upd_evolves:
  assumes "get_order t oid s = Some ord" and "good_order ord \<Longrightarrow> later ord (f ord)"
    and "good_orders s \<Longrightarrow> good_orders s'" and "orders s' = orders (upd_order t oid f s)" "order_lines s' = order_lines s"
  shows "evolves s s'"
  using assms upd_evolved [OF _ assms(1)] good_orders_Some [OF _ assms(1)]
  by (auto simp: evolves_def keeps_lines_def)

lemma transition_evolves [evolution]: "within evolves (transition c oid to inp)"
proof (rule withinI)
  fix s x s'
  assume run: "transition c oid to inp s = Inr (x, s')"
  obtain out ch where x: "x = (out, ch)" by (cases x)
  have good: "good_orders s \<Longrightarrow> good_orders s'"
    using withinD [OF transition_keeps_good run] by (simp add: holds_on_def)
  from run [unfolded x] show "evolves s s'"
  proof (cases rule: transition_Inr_cases)
    case (same ord)
    then show ?thesis by (simp add: evo.R_refl)
  next
    case (move ord ship)
    then show ?thesis by (intro upd_evolves [OF move(1) _ good]) (auto intro: moved_later)
  qed
qed

lemma update_refund_evolves [evolution]:
  "within evolves (update_pending c oid version inp)" "within evolves (refund c oid note)"
proof -
  show "within evolves (update_pending c oid version inp)"
  proof (rule withinI)
    fix s x s'
    assume run: "update_pending c oid version inp s = Inr (x, s')"
    then have good: "good_orders s \<Longrightarrow> good_orders s'"
      using withinD [OF update_pending_keeps_good run] by (simp add: holds_on_def)
    obtain ord where "get_order (tenant_of c) oid s = Some ord" "or_status ord = S_pending"
      "s' = add_audit c (update_audit ord inp) (upd_order (tenant_of c) oid (edited c inp) s)"
      using run update_pending_Inr by blast
    then show "evolves s s'" by (intro upd_evolves [OF _ _ good]) (auto intro: edited_later)
  qed
  show "within evolves (refund c oid note)"
  proof (rule withinI)
    fix s x s'
    assume run: "refund c oid note s = Inr (x, s')"
    then have good: "good_orders s \<Longrightarrow> good_orders s'"
      using withinD [OF refund_keeps_good run] by (simp add: holds_on_def)
    obtain ord where "get_order (tenant_of c) oid s = Some ord"
      "s' = add_audit c (refund_audit oid x note) (upd_order (tenant_of c) oid (refunded c) s)"
      using run refund_Inr by blast
    then show "evolves s s'" by (intro upd_evolves [OF _ _ good]) (auto intro: refunded_later)
  qed
qed

lemma purge_evolves [evolution]: "within evolves (purge od c cid)"
proof (rule withinI)
  fix s ids s'
  assume run: "purge od c cid s = Inr (ids, s')"
  have "evolved (orders s) (orders s')" "order_lines s' = order_lines s"
    using run by (auto simp: purge_Inr purged_def row_map_def intro!: evolved_map redacted_later)
  then show "evolves s s'"
    using withinD [OF purge_keeps_good run] by (auto simp: evolves_def holds_on_def keeps_lines_def)
qed

lemma insert_evolves [evolution]: "within evolves (insert ids c x)"
proof (rule withinI)
  fix s ord s'
  assume run: "insert ids c x s = Inr (ord, s')"
  note i = insert_Inr [OF run]
  have new: "ord = new_order_row c (new_order_params (ids 0) (prefix_of (tenant_of c) s) (sequence_of (tenant_of c) s + 1) x)"
    "order_unique ord s"
    using i by blast+
  have rows: "orders s' = orders s @ [ord]" "order_lines s' = order_lines s @ map (\<lambda>(i, l). line_row c (ids 0) (ids (Suc i)) l) (enumerate 0 (no_lines x))"
    using i by (elim conjE, simp)+
  have id: "or_id ord = ids 0" using new(1) by (simp add: new_order_row_def new_order_params_def Let_def)
  have fresh: "ids 0 \<notin> or_id ` set (orders s)"
    using new(2) id by (auto simp: order_unique_def list_all_iff)
  have "keeps_lines s s'"
    using fresh by (auto simp: keeps_lines_def rows(2) line_row_def filter_empty_conv)
  then show "evolves s s'"
    using withinD [OF insert_keeps_good run] evolved_snoc by (auto simp: evolves_def holds_on_def rows(1))
qed

lemma read_evolves [evolution]:
  "within evolves (lock_cart c cid)" "within evolves (order_by_cart c cid)" "within evolves (get_order_lines c oid)"
  "within evolves (settings_of c)" "within evolves (quote rates c p)" "within evolves (cart_lines c cid)"
  "within evolves (variant_for_order c vid)" "within evolves (variant_visible c vid)"
  "within evolves (settings_row c)" "within evolves (get_storefront_settings c)"
  by (rule evo.failed_or_same;
      simp add: lock_cart_def order_by_cart_def get_order_lines_def settings_of_Inr cart_lines_def quote_reads
        variant_for_order_def variant_visible_def settings_row_Inr get_storefront_settings_def)+

lemmas order_frame_evolves [evolution] = order_frame [THEN view_evolves]

lemma cart_stmts_evolve [evolution]:
  "within evolves (check_out_cart c cid)" "within evolves (create_cart c cid cu)" "within evolves (claim_cart c cid k)"
  "within evolves (touch_cart c cid)" "within evolves (set_cart_item c cid vid qty)" "within evolves (delete_cart_item c cid vid)"
  "within evolves (delete_expired_carts c)" "within evolves (delete_ended_sessions c)"
  by (rule frame_evolves;
      auto simp: within_def same_def check_out_cart_def create_cart_def claim_cart_def touch_cart_def set_cart_item_def
        delete_cart_item_def delete_expired_carts_def delete_ended_sessions_def tx_inr Let_def upd_cart_def)+

lemma price_lines_evolve [evolution]: "within evolves (price_lines c ls)"
  unfolding price_lines_def price_line_def by (intro evo.rules evolution)

lemma service_evolves [evolution]:
  "within evolves (create rates ids c inp)" "within evolves (checkout rates ids c xin)"
  "within evolves (apply_status c n st raw)" "within evolves (cart_get img c cid cu)"
  "within evolves (set_item img c cid vid qty cu)" "within evolves (sweep c)" "within evolves (start_purge c jid cid)"
proof -
  show "within evolves (create rates ids c inp)"
    unfolding create_def pick_option_def by (intro evo.rules evolution)
  show "within evolves (checkout rates ids c xin)"
    unfolding checkout_def make_order_def replay_def first_attempt_def new_attempt_def by (intro evo.rules evolution)
  show "within evolves (apply_status c n st raw)"
    unfolding apply_status_def settle_order_def Let_def by (intro evo.rules evolution)
  show "within evolves (cart_get img c cid cu)"
    unfolding cart_get_def open_cart_def claim_def priced_def Let_def by (intro evo.rules evolution)
  show "within evolves (set_item img c cid vid qty cu)"
    unfolding set_item_def open_cart_def claim_def priced_def Let_def by (intro evo.rules evolution)
  show "within evolves (sweep c)"
    unfolding sweep_def by (intro evo.rules evolution)
  show "within evolves (start_purge c jid cid)"
    by (rule frame_evolves) (auto simp: within_def same_def start_purge_def create_job_def tx_inr)
qed

section \<open>The step relation\<close>

text \<open>\<open>commit t s s'\<close>: a transaction of tenant \<open>t\<close> took the database from \<open>s\<close> to \<open>s'\<close>. A transaction
  that fails is a step that changes nothing. Whether the link of a checkout is stored
  (\<open>openSnap\<close>) is a transaction of its own, after the order's.\<close>

definition tx_step :: "uuid \<Rightarrow> (ctx \<Rightarrow> 'a stmt) \<Rightarrow> db \<Rightarrow> db \<Rightarrow> bool" where
  "tx_step t m s s' \<longleftrightarrow> (\<exists>c. c_tenant c = Some t \<and> s' = snd (in_tenant_tx c (m c) s))"

inductive commit :: "uuid \<Rightarrow> db \<Rightarrow> db \<Rightarrow> bool" for t where
  manual: "tx_step t (\<lambda>c. create rates ids c inp) s s' \<Longrightarrow> commit t s s'"
| checkout: "tx_step t (\<lambda>c. checkout rates ids c xin) s s' \<Longrightarrow> commit t s s'"
| link: "tx_step t (\<lambda>c. set_payment_link c pid (Some tok) (Some url)) s s' \<Longrightarrow> commit t s s'"
| transition: "tx_step t (\<lambda>c. transition c oid to tin) s s' \<Longrightarrow> commit t s s'"
| update: "tx_step t (\<lambda>c. update_pending c oid ver uin) s s' \<Longrightarrow> commit t s s'"
| refund: "tx_step t (\<lambda>c. refund c oid note) s s' \<Longrightarrow> commit t s s'"
| pay_again: "tx_step t (\<lambda>c. pay_again gw pid c oid) s s' \<Longrightarrow> commit t s s'"
| notify: "tx_step t (\<lambda>c. apply_status c n st raw) s s' \<Longrightarrow> commit t s s'"
| cart_create: "tx_step t (\<lambda>c. create_cart c cid cu) s s' \<Longrightarrow> commit t s s'"
| cart_get: "tx_step t (\<lambda>c. cart_get img c cid cu) s s' \<Longrightarrow> commit t s s'"
| set_item: "tx_step t (\<lambda>c. set_item img c cid vid qty cu) s s' \<Longrightarrow> commit t s s'"
| start_purge: "tx_step t (\<lambda>c. start_purge c jid cid) s s' \<Longrightarrow> commit t s s'"
| purge: "tx_step t (\<lambda>c. purge od c cid) s s' \<Longrightarrow> commit t s s'"
| sweep: "tx_step t (\<lambda>c. sweep c) s s' \<Longrightarrow> commit t s s'"

inductive_simps commit_simps: "commit t s s'"

text \<open>Any number of steps, in any order, of the shops \<open>P\<close> allows.\<close>

inductive run :: "(uuid \<Rightarrow> bool) \<Rightarrow> db \<Rightarrow> db \<Rightarrow> bool" for P where
  refl: "run P s s"
| step: "run P s u \<Longrightarrow> P t \<Longrightarrow> commit t u s' \<Longrightarrow> run P s s'"

inductive_cases runE: "run P s s'"

lemma tx_step_within:
  assumes "tx_step t m s s'" and "tx_relation R" and "\<And>c. tenant_of c = t \<Longrightarrow> within R (m c)"
  shows "R s s'"
proof -
  obtain c where c: "c_tenant c = Some t" "s' = snd (in_tenant_tx c (m c) s)"
    using assms(1) by (auto simp: tx_step_def)
  then have "within R (m c)" by (intro assms(3)) (simp add: tenant_of_def)
  then show ?thesis unfolding c(2) by (rule in_tenant_tx_within [OF assms(2)])
qed

text \<open>A relation kept by every statement is kept by every step, and by every run.\<close>

lemma commit_within:
  assumes "commit t s s'" and "tx_relation R" and rules: "\<And>c. tenant_of c = t \<Longrightarrow>
      (\<forall>rates ids inp. within R (create rates ids c inp)) \<and> (\<forall>rates ids xin. within R (checkout rates ids c xin)) \<and>
      (\<forall>pid tok url. within R (set_payment_link c pid (Some tok) (Some url))) \<and>
      (\<forall>oid to tin. within R (transition c oid to tin)) \<and> (\<forall>oid ver uin. within R (update_pending c oid ver uin)) \<and>
      (\<forall>oid note. within R (refund c oid note)) \<and> (\<forall>gw pid oid. within R (pay_again gw pid c oid)) \<and>
      (\<forall>n st raw. within R (apply_status c n st raw)) \<and> (\<forall>cid cu. within R (create_cart c cid cu)) \<and>
      (\<forall>img cid cu. within R (cart_get img c cid cu)) \<and> (\<forall>img cid vid qty cu. within R (set_item img c cid vid qty cu)) \<and>
      (\<forall>jid cid. within R (start_purge c jid cid)) \<and> (\<forall>od cid. within R (purge od c cid)) \<and> within R (sweep c)"
  shows "R s s'"
  using assms(1) by cases (erule tx_step_within [OF _ assms(2)]; simp add: rules)+

lemma run_within:
  assumes "run P s s'" and R: "tx_relation R" and "\<And>t u u'. P t \<Longrightarrow> commit t u u' \<Longrightarrow> R u u'"
  shows "R s s'"
  using assms(1)
proof induction
  case (refl s)
  show ?case by (rule tx_relation.R_refl [OF R])
next
  case (step s u t s')
  then show ?case using tx_relation.R_trans [OF R] assms(3) by blast
qed

lemma evolves_relation: "tx_relation evolves" ..

lemma commit_evolves: "commit t s s' \<Longrightarrow> evolves s s'"
  by (erule commit_within [OF _ evolves_relation]) (simp add: evolution)

lemma evolved_nth: "evolved xs ys \<Longrightarrow> length xs \<le> length ys \<and> (\<forall>i < length xs. later (xs ! i) (ys ! i))"
  by (auto simp: evolved_def nth_append list_all2_conv_all_nth)

text \<open>C5. Orders only move forward, whatever is interleaved: through any run of transactions of all the
  services and shops, an order that exists keeps its place, identity, lines, prices, snapshotted
  choices and number; its status has followed the allowed moves, its version has not gone back,
  its total is fixed once it left pending, and a recorded payment or refund is never undone.\<close>

theorem orders_move_forward:
  assumes "run P s s'" and "good_orders s"
  shows "good_orders s' \<and> length (orders s) \<le> length (orders s') \<and>
    (\<forall>i < length (orders s). later (orders s ! i) (orders s' ! i)) \<and> keeps_lines s s'"
  using run_within [OF assms(1) evolves_relation commit_evolves] assms(2) evolved_nth by (auto simp: evolves_def)

section \<open>Shops do not see each other\<close>

definition own :: "uuid \<Rightarrow> db \<Rightarrow> db" where
  "own t s = \<lparr>tenants = tenants s, users = rows_of us_tenant t (users s),
     refresh_tokens = rows_of rt_tenant t (refresh_tokens s),
     customers = rows_of cu_tenant t (customers s), sessions = rows_of cs_tenant t (sessions s),
     identities = rows_of cd_tenant t (identities s), api_keys = rows_of ak_tenant t (api_keys s),
     brands = rows_of br_tenant t (brands s), categories = rows_of cg_tenant t (categories s),
     products = rows_of pr_tenant t (products s), variants = rows_of va_tenant t (variants s),
     carts = rows_of ca_tenant t (carts s), cart_items = rows_of ci_tenant t (cart_items s),
     orders = rows_of or_tenant t (orders s), order_lines = rows_of ol_tenant t (order_lines s),
     payments = rows_of pa_tenant t (payments s), sequences = filter (\<lambda>p. fst p = t) (sequences s),
     settings = rows_of st_tenant t (settings s), jobs = rows_of jb_tenant t (jobs s),
     audit_log = rows_of au_tenant t (audit_log s),
     product_categories = rows_of pc_tenant t (product_categories s), media = rows_of md_tenant t (media s),
     blog_categories = rows_of bc_tenant t (blog_categories s), blog_posts = rows_of bp_tenant t (blog_posts s),
     blog_post_products = rows_of bq_tenant t (blog_post_products s)\<rparr>"

lemma rows_of_others: "t \<noteq> u \<Longrightarrow> rows_of ten u (others ten t xs) = rows_of ten u xs"
  by (induction xs) (auto simp: rows_of_def others_def)

lemma own_foreign: "t \<noteq> u \<Longrightarrow> own u (foreign t s) = own u s"
proof -
  assume "t \<noteq> u"
  moreover have "filter (\<lambda>p. fst p = u) (filter (\<lambda>p. fst p \<noteq> t) xs) = filter (\<lambda>p. fst p = u) xs"
    if "t \<noteq> u" for xs :: "(uuid \<times> int) list"
    using that by (induction xs) auto
  ultimately show ?thesis by (simp add: own_def foreign_def rows_of_others)
qed

lemma sweep_isolated [isolation]: "tenant_of c = t \<Longrightarrow> within (isolated t) (sweep c)"
proof -
  assume t: "tenant_of c = t"
  then have "within (isolated t) (delete_ended_sessions c)"
    by (auto simp: within_def isolated_def same_def foreign_def others_del delete_ended_sessions_def Let_def)
  then show ?thesis unfolding sweep_def using t by (intro iso.rules isolation)
qed

lemma start_purge_isolated [isolation]: "tenant_of c = t \<Longrightarrow> within (isolated t) (start_purge c jid cid)"
proof -
  assume t: "tenant_of c = t"
  have "within (isolated t) (create_job c jid k p u)" for k p u
    unfolding create_job_def
    by (intro iso.rules isolation write_isolated) (simp add: foreign_def others_append others_own new_job_def t)
  then show ?thesis unfolding start_purge_def using t by (intro iso.rules isolation)
qed

lemma update_refund_isolated [isolation]:
  "tenant_of c = t \<Longrightarrow> within (isolated t) (update_pending c oid ver uin)"
  "tenant_of c = t \<Longrightarrow> within (isolated t) (refund c oid note)"
  unfolding update_pending_def refund_def by (intro iso.rules isolation; assumption)+

lemma isolated_relation: "tx_relation (isolated t)" ..

lemma commit_isolated: "commit t s s' \<Longrightarrow> isolated t s s'"
  by (erule commit_within [OF _ isolated_relation]) (simp add: isolation)


section \<open>The invariant of the shop's books\<close>

definition order_key :: "order \<Rightarrow> uuid \<times> uuid \<times> uuid option \<times> string" where
  "order_key r = (or_id r, or_tenant r, or_cart r, or_number r)"

definition cart_key :: "cart \<Rightarrow> uuid \<times> uuid \<times> string" where
  "cart_key k = (ca_id k, ca_tenant k, ca_status k)"

text \<open>Carts and orders fit: a cart has been checked out exactly when one order was made from it.\<close>

definition carts_fit :: "(uuid \<times> uuid \<times> uuid option \<times> string) list \<Rightarrow> (uuid \<times> uuid \<times> string) list \<Rightarrow> bool" where
  "carts_fit os ks \<longleftrightarrow> distinct (map fst ks) \<and> distinct (map (\<lambda>(i, t, ca, n). (t, n)) os) \<and>
     (\<forall>cid t. (cid, t, S_checked_out) \<in> set ks \<longleftrightarrow> (\<exists>i n. (i, t, Some cid, n) \<in> set os)) \<and>
     (\<forall>i i' t t' n n' cid. (i, t, Some cid, n) \<in> set os \<and> (i', t', Some cid, n') \<in> set os \<longrightarrow> i = i')"

text \<open>Payments fit: each is an attempt on an order of its shop, and no order stays pending once one of
  its attempts is paid.\<close>

definition pays_fit :: "order list \<Rightarrow> payment list \<Rightarrow> bool" where
  "pays_fit os ps \<longleftrightarrow> (\<forall>p \<in> set ps. \<exists>r \<in> set os. or_id r = pa_order p \<and> or_tenant r = pa_tenant p \<and>
     (pa_status p = S_paid \<longrightarrow> or_status r \<noteq> S_pending))"

definition shop_ok :: "db \<Rightarrow> bool" where
  "shop_ok s \<longleftrightarrow> good_orders s \<and> payments_ok s \<and>
     carts_fit (map order_key (orders s)) (map cart_key (carts s)) \<and> pays_fit (orders s) (payments s)"

definition cart_view :: "db \<Rightarrow> (uuid \<times> uuid \<times> uuid option \<times> string) list \<times> (uuid \<times> uuid \<times> string) list" where
  "cart_view s = (map order_key (orders s), map cart_key (carts s))"

named_theorems cart_frame \<open>statements that leave the keys of orders and carts as they are\<close>

lemma view_cart_frame: "within (same order_view) m \<Longrightarrow> within (same cart_view) m"
  by (auto simp: within_def same_def order_view_def cart_view_def)

lemmas order_frame_carts [cart_frame] = order_frame [THEN view_cart_frame]

lemma same_read: "(\<And>x s'. m s = Inr (x, s') \<Longrightarrow> s' = s) \<Longrightarrow> m s = Inr (x, s') \<Longrightarrow> same v s s'"
  by (auto simp: same_def)

lemma cart_reads_frame [cart_frame]:
  "within (same v) (lock_cart c cid)" "within (same v) (cart_lines c cid)" "within (same v) (variant_visible c vid)"
  by (auto simp: within_def same_def lock_cart_def cart_lines_def variant_visible_def)

lemma order_key_writes [simp]:
  "order_key (moved c to ship r) = order_key r" "order_key (edited c inp r) = order_key r"
  "order_key (refunded c r) = order_key r" "order_key (redacted od c r) = order_key r"
  by (simp_all add: order_key_def moved_def edited_def refunded_def redacted_def Let_def)

lemma cart_view_upd: "(\<And>r. order_key (f r) = order_key r) \<Longrightarrow> cart_view (upd_order t oid f s) = cart_view s"
  by (simp add: cart_view_def upd_order_def row_upd_map)

lemma cart_view_audit [simp]: "cart_view (add_audit c e s) = cart_view s"
  by (simp add: cart_view_def)

lemma order_services_carts [cart_frame]:
  "within (same cart_view) (transition c oid to inp)" "within (same cart_view) (update_pending c oid ver uin)"
  "within (same cart_view) (refund c oid note)" "within (same cart_view) (purge od c cid)"
proof -
  show "within (same cart_view) (transition c oid to inp)"
  proof (rule withinI)
    fix s x s'
    assume "transition c oid to inp s = Inr (x, s')"
    then show "same cart_view s s'"
      by (cases x) (auto elim!: transition_Inr_cases simp: same_def cart_view_upd)
  qed
  show "within (same cart_view) (update_pending c oid ver uin)" "within (same cart_view) (refund c oid note)"
    by (auto simp: within_def same_def update_pending_Inr refund_Inr cart_view_upd)
  show "within (same cart_view) (purge od c cid)"
    by (auto simp: within_def same_def purge_Inr purged_def cart_view_def row_map_keys)
qed

lemma cart_stmts_carts [cart_frame]:
  "within (same cart_view) (claim_cart c cid k)" "within (same cart_view) (touch_cart c cid)"
  "within (same cart_view) (set_cart_item c cid vid qty)" "within (same cart_view) (delete_cart_item c cid vid)"
  "within (same cart_view) (start_purge c jid cid)"
  by (auto simp: within_def same_def cart_view_def claim_cart_def touch_cart_def set_cart_item_def delete_cart_item_def
      start_purge_def create_job_def tx_inr upd_cart_def cart_key_def row_upd_map)

lemma services_carts [cart_frame]:
  "within (same cart_view) (apply_status c n st raw)" "within (same cart_view) (cart_get img c cid cu)"
  "within (same cart_view) (set_item img c cid vid qty cu)"
  unfolding apply_status_def settle_order_def cart_get_def set_item_def open_cart_def claim_def priced_def Let_def
  by (intro frame.rules cart_frame)+

section \<open>Payments and their orders\<close>

definition books :: "db \<Rightarrow> bool" where
  "books s \<longleftrightarrow> good_orders s \<and> pays_fit (orders s) (payments s)"

lemma later_key: "later r r' \<Longrightarrow> or_id r' = or_id r \<and> or_tenant r' = or_tenant r \<and> (or_status r' = S_pending \<longrightarrow> or_status r = S_pending)"
proof -
  assume l: "later r r'"
  then have "or_id (snapshot r') = or_id (snapshot r)" "or_tenant (snapshot r') = or_tenant (snapshot r)"
    by (simp_all add: later_def)
  then show ?thesis using l to_pending by (auto simp: snapshot_def later_def)
qed

lemma evolved_later:
  assumes "evolved xs ys" and "r \<in> set xs"
  shows "\<exists>r' \<in> set ys. later r r'"
proof -
  obtain zs ws where z: "ys = zs @ ws" "list_all2 later xs zs" using assms(1) by (auto simp: evolved_def)
  obtain i where "i < length xs" "xs ! i = r" using assms(2) by (auto simp: in_set_conv_nth)
  then have "zs ! i \<in> set ys" "later r (zs ! i)" using z by (auto simp: list_all2_conv_all_nth)
  then show ?thesis by blast
qed

lemma pays_fit_mono:
  assumes "pays_fit os ps" and "evolved os os'"
    and "\<And>p. p \<in> set ps' \<Longrightarrow> \<exists>q \<in> set ps. pa_order q = pa_order p \<and> pa_tenant q = pa_tenant p \<and> (pa_status p = S_paid \<longrightarrow> pa_status q = S_paid)"
  shows "pays_fit os' ps'"
  unfolding pays_fit_def
proof
  fix p
  assume "p \<in> set ps'"
  then obtain q where q: "q \<in> set ps" "pa_order q = pa_order p" "pa_tenant q = pa_tenant p"
    "pa_status p = S_paid \<longrightarrow> pa_status q = S_paid"
    using assms(3) by blast
  then obtain r where r: "r \<in> set os" "or_id r = pa_order q" "or_tenant r = pa_tenant q" "pa_status q = S_paid \<longrightarrow> or_status r \<noteq> S_pending"
    using assms(1) by (auto simp: pays_fit_def)
  then obtain r' where "r' \<in> set os'" "later r r'" using evolved_later [OF assms(2)] by blast
  then show "\<exists>r \<in> set os'. or_id r = pa_order p \<and> or_tenant r = pa_tenant p \<and> (pa_status p = S_paid \<longrightarrow> or_status r \<noteq> S_pending)"
    using q r later_key by metis
qed

lemma books_evolve: "within evolves m \<Longrightarrow> within (same payments) m \<Longrightarrow> within (holds_on books) m"
  by (auto simp: within_def same_def holds_on_def books_def evolves_def intro: pays_fit_mono)

lemma upd_payment_fit:
  assumes "pays_fit os (payments s)" and "\<And>p. pa_order (f p) = pa_order p \<and> pa_tenant (f p) = pa_tenant p"
    and "\<And>p. p \<in> set (payments s) \<Longrightarrow> pa_tenant p = t \<Longrightarrow> pa_id p = pid \<Longrightarrow> pa_status (f p) = S_paid \<Longrightarrow> pa_status p = S_paid"
  shows "pays_fit os (payments (upd_payment t pid f s))"
  by (rule pays_fit_mono [OF assms(1) evolved_refl]) (use assms(2,3) in \<open>auto simp: upd_payment_def row_upd_def\<close>)

named_theorems books_kept \<open>statements that keep payments fitting their orders\<close>

lemma upd_payment_orders [simp]: "orders (upd_payment t pid f s) = orders s" "order_lines (upd_payment t pid f s) = order_lines s"
  by (simp_all add: upd_payment_def)

lemma payment_books:
  assumes "books s" and "\<And>p. pa_order (f p) = pa_order p \<and> pa_tenant (f p) = pa_tenant p"
    and "\<And>p. pa_status (f p) = S_paid \<Longrightarrow> pa_status p = S_paid"
  shows "books (upd_payment t pid f s)"
proof -
  have "pays_fit (orders s) (payments (upd_payment t pid f s))"
    using assms by (intro upd_payment_fit) (auto simp: books_def)
  then show ?thesis using assms(1) by (simp add: books_def good_orders_def)
qed

lemma payment_stmts_books [books_kept]:
  "within (holds_on books) (fail_stale_payment c pid)" "within (holds_on books) (set_payment_link c pid (Some tok) (Some url))"
  "within (holds_on books) (create_payment c p)"
proof -
  show "within (holds_on books) (fail_stale_payment c pid)" "within (holds_on books) (set_payment_link c pid (Some tok) (Some url))"
    by (auto simp: within_def holds_on_def fail_stale_payment_def set_payment_link_def intro!: payment_books split: if_splits)
  show "within (holds_on books) (create_payment c p)"
    by (auto simp: within_def holds_on_def books_def good_orders_def create_payment_Inr pays_fit_def new_payment_def
        dest!: get_order_Some)
qed

lemma reads_books [books_kept]:
  "within (holds_on books) (settings_row c)" "within (holds_on books) (variant_for_order c vid)"
  by (rule holds_same, simp add: settings_row_Inr variant_for_order_def)+

lemma writes_books [books_kept]: "within (holds_on books) (audit c e)" "within (holds_on books) (check_out_cart c cid)"
  by (rule books_evolve, intro evolution, simp add: within_def same_def check_out_cart_def upd_cart_def)+

lemmas reads_hold_books [books_kept] = reads_hold [where I = books] replay_holds [where I = books]

lemma price_lines_books [books_kept]: "within (holds_on books) (price_lines c ls)"
  unfolding price_lines_def price_line_def by (intro inv.rules books_kept)

lemma insert_books [books_kept]: "within (holds_on books) (insert ids c x)"
  by (rule books_evolve [OF insert_evolves]) (auto simp: within_def same_def insert_payments)

lemma service_books [books_kept]:
  "within (holds_on books) (create rates ids c inp)" "within (holds_on books) (checkout rates ids c xin)"
  "within (holds_on books) (pay_again gw pid c oid)"
proof -
  show "within (holds_on books) (create rates ids c inp)"
    unfolding create_def pick_option_def by (intro inv.rules books_kept)
  show "within (holds_on books) (checkout rates ids c xin)"
    unfolding checkout_def make_order_def first_attempt_def new_attempt_def by (intro inv.rules books_kept)
  show "within (holds_on books) (pay_again gw pid c oid)"
    unfolding pay_again_def pay_new_def new_attempt_def by (intro inv.rules books_kept)
qed

named_theorems pays_frame \<open>statements that leave the payments table as it is\<close>

lemma stmts_payments [pays_frame]:
  "within (same payments) (create_cart c cid cu)" "within (same payments) (claim_cart c cid k)"
  "within (same payments) (touch_cart c cid)" "within (same payments) (set_cart_item c cid vid q)"
  "within (same payments) (delete_cart_item c cid vid)" "within (same payments) (start_purge c jid cid)"
  "within (same payments) (delete_expired_carts c)" "within (same payments) (delete_ended_sessions c)"
  "within (same payments) (audit c e)" "within (same payments) (insert ids c x)"
  "within (same payments) (update_pending c oid ver uin)" "within (same payments) (refund c oid note)"
  "within (same payments) (settings_row c)" "within (same payments) (variant_for_order c vid)"
  "within (same payments) (quote rates c pa)"
  by (auto simp: within_def same_def create_cart_def claim_cart_def touch_cart_def set_cart_item_def delete_cart_item_def
      start_purge_def create_job_def tx_inr upd_cart_def delete_expired_carts_def delete_ended_sessions_def Let_def insert_payments
      update_pending_Inr upd_order_def refund_Inr settings_row_Inr variant_for_order_def dest: quote_reads)

lemmas transition_payments_frame [pays_frame] = transition_payments

lemma services_payments [pays_frame]:
  "within (same payments) (create rates ids c inp)" "within (same payments) (cart_get img c cid cu)"
  "within (same payments) (set_item img c cid vid qty cu)" "within (same payments) (sweep c)"
  unfolding create_def pick_option_def price_lines_def price_line_def cart_get_def set_item_def open_cart_def claim_def
    priced_def Let_def sweep_def
  by (intro frame.rules pays_frame cart_reads_frame)+

lemma frame_payments: "within (same payments) m \<Longrightarrow> within (holds_on payments_ok) m"
  by (auto simp: within_def same_def holds_on_def)

lemmas pays_frame_inv [pay_inv] = pays_frame [THEN frame_payments]

lemma same_payments [books_kept]:
  "within (holds_on books) (transition c oid to inp)" "within (holds_on books) (update_pending c oid ver uin)"
  "within (holds_on books) (refund c oid note)" "within (holds_on books) (create_cart c cid cu)"
  "within (holds_on books) (cart_get img c cid cu)" "within (holds_on books) (set_item img c cid vid qty cu)"
  "within (holds_on books) (start_purge c jid cid)" "within (holds_on books) (sweep c)"
  by (rule books_evolve; intro evolution pays_frame)+

lemma purge_books [books_kept]: "within (holds_on books) (purge od c cid)"
proof (rule withinI)
  fix s ids s'
  assume run: "purge od c cid s = Inr (ids, s')"
  then have e: "evolves s s'" by (rule withinD [OF purge_evolves])
  have "pays_fit (orders s') (payments s')" if "evolved (orders s) (orders s')" "pays_fit (orders s) (payments s)"
  proof (rule pays_fit_mono [OF that(2,1)])
    fix p
    assume "p \<in> set (payments s')"
    then obtain q where "q \<in> set (payments s)" "p = q \<or> p = forget_notification q"
      using run by (auto simp: purge_Inr purged_def dest!: row_map_set)
    then show "\<exists>q \<in> set (payments s). pa_order q = pa_order p \<and> pa_tenant q = pa_tenant p \<and> (pa_status p = S_paid \<longrightarrow> pa_status q = S_paid)"
      by auto
  qed
  then show "holds_on books s s'" using e by (auto simp: holds_on_def books_def evolves_def)
qed

lemma conj_holds: "within (holds_on I) m \<Longrightarrow> within (holds_on J) m \<Longrightarrow> within (holds_on (\<lambda>s. I s \<and> J s)) m"
  by (auto simp: within_def holds_on_def)

lemma payment_row: "attempt_by_id t n s = Some p \<Longrightarrow> p \<in> set (payments s) \<and> pa_tenant p = t"
  by (auto simp: attempt_by_id_def find_Some_iff)

text \<open>Only the row of the confirmed attempt becomes paid, and by then its order is not pending.\<close>

lemma recorded_fit:
  assumes fit: "pays_fit (orders s) (payments s)" and ok: "payments_ok s" and p: "p \<in> set (payments s)" "pa_tenant p = t"
    and ev: "evolved (orders s) os" and kept: "keeps_attempt f"
    and paid: "pa_status (f p) = S_paid \<Longrightarrow> \<exists>r \<in> set os. or_id r = pa_order p \<and> or_tenant r = t \<and> or_status r \<noteq> S_pending"
  shows "pays_fit os (payments (upd_payment t (pa_id p) f s))"
  unfolding pays_fit_def
proof
  fix q
  assume "q \<in> set (payments (upd_payment t (pa_id p) f s))"
  then obtain q0 where q0: "q0 \<in> set (payments s)" "q = (if pa_tenant q0 = t \<and> pa_id q0 = pa_id p then f q0 else q0)"
    by (auto simp: upd_payment_def row_upd_def)
  have fit': "\<exists>r \<in> set os. or_id r = pa_order q0 \<and> or_tenant r = pa_tenant q0 \<and> (pa_status q0 = S_paid \<longrightarrow> or_status r \<noteq> S_pending)"
    using pays_fit_mono [OF fit ev, of "payments s"] q0(1) by (auto simp: pays_fit_def)
  show "\<exists>r \<in> set os. or_id r = pa_order q \<and> or_tenant r = pa_tenant q \<and> (pa_status q = S_paid \<longrightarrow> or_status r \<noteq> S_pending)"
  proof (cases "pa_tenant q0 = t \<and> pa_id q0 = pa_id p")
    case True
    then have same: "q0 = p" using ok p q0(1) by (auto simp: good_payments_def distinct_map dest: inj_onD)
    then have "q = f p" using q0(2) True by simp
    then show ?thesis
      using fit' paid kept p(2) unfolding same by (cases "pa_status (f p) = S_paid") (auto simp: keeps_attempt_def)
  next
    case False
    then show ?thesis using fit' q0(2) by auto
  qed
qed

lemma apply_books: "within (holds_on (\<lambda>s. payments_ok s \<and> books s)) (apply_status c n st raw)"
proof (rule withinI)
  fix s r s'
  assume run: "apply_status c n st raw s = Inr (r, s')"
  let ?f = "\<lambda>p ord. recorded c (next_payment c st p ord) st raw"
  have "payments_ok s' \<and> books s'" if ok: "payments_ok s" and bk: "books s"
  proof -
    have ok': "payments_ok s'" using withinD [OF apply_inv run] ok by (simp add: holds_on_def)
    have good': "good_orders s'" and ev: "evolved (orders s) (orders s')"
      using withinD [OF service_evolves(3) run] bk by (simp_all add: evolves_def books_def)
    have fit: "pays_fit (orders s) (payments s)" using bk by (simp add: books_def)
    note fitted = recorded_fit [OF fit ok _ _ ev recorded_keeps]
    from run ok have "pays_fit (orders s') (payments s')"
    proof (cases rule: apply_cases)
      case (quiet p ord)
      have p: "p \<in> set (payments s)" "pa_tenant p = tenant_of c" using payment_row [OF quiet(1)] by simp_all
      have same: "orders s' = orders s" using quiet(4) by (simp add: order_view_def)
      have "\<exists>r \<in> set (orders s'). or_id r = pa_order p \<and> or_tenant r = tenant_of c \<and> or_status r \<noteq> S_pending"
        if "pa_status (?f p ord p) = S_paid"
      proof (cases "pa_status p = S_paid")
        case True
        then show ?thesis using bspec [OF fit [unfolded pays_fit_def] p(1)] unfolding same p(2) by blast
      next
        case False
        then have "or_status ord \<noteq> S_pending" using that quiet(7) by (simp add: recorded_def)
        then show ?thesis using get_order_Some [OF quiet(2)] by (intro bexI [of _ ord]) (simp_all add: same)
      qed
      from fitted [OF p this] show ?thesis unfolding quiet(5) .
    next
      case (paid p ord)
      have p: "p \<in> set (payments s)" "pa_tenant p = tenant_of c" using payment_row [OF paid(1)] by simp_all
      have "get_order (tenant_of c) (pa_order p) s' = Some (moved c S_paid None ord)"
        using paid(2) by (simp add: orders_upd [OF paid(8)] get_order_upd moved_keeps_key)
      then have "\<exists>r \<in> set (orders s'). or_id r = pa_order p \<and> or_tenant r = tenant_of c \<and> or_status r \<noteq> S_pending"
        by (auto dest!: get_order_Some intro!: bexI [of _ "moved c S_paid None ord"] simp: moved_def)
      from fitted [OF p this] show ?thesis unfolding paid(7) .
    qed
    then show ?thesis using ok' good' by (simp add: books_def)
  qed
  then show "holds_on (\<lambda>s. payments_ok s \<and> books s) s s'" by (auto simp: holds_on_def)
qed

section \<open>Carts and their orders\<close>

definition carts_ok :: "db \<Rightarrow> bool" where
  "carts_ok s \<longleftrightarrow> carts_fit (map order_key (orders s)) (map cart_key (carts s))"

named_theorems carts_kept \<open>statements that keep carts and orders fitting\<close>

lemma frame_carts: "within (same cart_view) m \<Longrightarrow> within (holds_on carts_ok) m"
  by (auto simp: within_def same_def cart_view_def holds_on_def carts_ok_def)

lemmas cart_frame_kept [carts_kept] = cart_frame [THEN frame_carts]

text \<open>The three changes: a new open cart, open carts dropped, an order made with or without a cart.\<close>

lemma fit_open: "carts_fit os ks \<Longrightarrow> cid \<notin> fst ` set ks \<Longrightarrow> carts_fit os (ks @ [(cid, t, S_open)])"
  by (auto simp: carts_fit_def)

lemma fit_drop:
  assumes "carts_fit os ks" and keep: "\<And>k. k \<in> set ks \<Longrightarrow> snd (snd k) = S_checked_out \<Longrightarrow> P k"
  shows "carts_fit os (filter P ks)"
proof -
  have "(cid, t, S_checked_out) \<in> set (filter P ks) \<longleftrightarrow> (cid, t, S_checked_out) \<in> set ks" for cid t
    using keep [of "(cid, t, S_checked_out)"] by auto
  then show ?thesis using assms(1) by (simp add: carts_fit_def distinct_map_filter)
qed

lemma fit_manual: "carts_fit os ks \<Longrightarrow> (t, n) \<notin> (\<lambda>(i, t, ca, n). (t, n)) ` set os \<Longrightarrow>
    carts_fit (os @ [(i, t, None, n)]) ks"
  unfolding carts_fit_def by (elim conjE, intro conjI) auto

definition closed :: "uuid \<Rightarrow> uuid \<Rightarrow> uuid \<times> uuid \<times> string \<Rightarrow> uuid \<times> uuid \<times> string" where
  "closed t cid k = (if fst (snd k) = t \<and> fst k = cid then (cid, t, S_checked_out) else k)"

lemma closed_in:
  assumes "distinct (map fst ks)" and "(cid, t, st) \<in> set ks"
  shows "(cid', t', S_checked_out) \<in> set (map (closed t cid) ks) \<longleftrightarrow> (cid', t') = (cid, t) \<or> (cid', t', S_checked_out) \<in> set ks"
  using assms by (force simp: closed_def split: if_splits)

lemma fit_checkout:
  assumes fit: "carts_fit os ks" and k: "(cid, t, st) \<in> set ks" and new: "(t, n) \<notin> (\<lambda>(i, t, ca, n). (t, n)) ` set os"
    and only: "\<And>i t n. (i, t, Some cid, n) \<notin> set os"
  shows "carts_fit (os @ [(i, t, Some cid, n)]) (map (closed t cid) ks)"
proof -
  have d: "distinct (map fst ks)" using fit by (simp add: carts_fit_def)
  have keys: "map fst (map (closed t cid) ks) = map fst ks" by (simp add: closed_def)
  show ?thesis
    unfolding carts_fit_def keys closed_in [OF d k]
    using fit new only unfolding carts_fit_def by (elim conjE, intro conjI) (auto, blast)
qed

text \<open>The rows an insertion adds, and the keys of a cart that is checked out.\<close>

lemma insert_keys:
  assumes "insert ids c x s = Inr (ord, s')"
  shows "map order_key (orders s') = map order_key (orders s) @ [order_key ord]" "carts s' = carts s"
    "order_key ord = (ids 0, tenant_of c, no_cart x, or_number ord)"
    "(tenant_of c, or_number ord) \<notin> (\<lambda>(i, t, ca, n). (t, n)) ` set (map order_key (orders s))"
    "no_cart x = Some cid \<Longrightarrow> (i, t, Some cid, n) \<notin> set (map order_key (orders s))"
proof -
  note row = insert_row [OF assms]
  show "map order_key (orders s') = map order_key (orders s) @ [order_key ord]" "carts s' = carts s"
    using insert_Inr [OF assms] by simp_all
  show "order_key ord = (ids 0, tenant_of c, no_cart x, or_number ord)"
    using row by (simp add: order_key_def)
  show "(tenant_of c, or_number ord) \<notin> (\<lambda>(i, t, ca, n). (t, n)) ` set (map order_key (orders s))"
    using row by (auto simp: order_key_def order_unique_def list_all_iff)
  show "no_cart x = Some cid \<Longrightarrow> (i, t, Some cid, n) \<notin> set (map order_key (orders s))"
    using row by (auto simp: order_key_def order_unique_def list_all_iff)
qed

lemma insert_carts: "no_cart x = None \<Longrightarrow> within (holds_on carts_ok) (insert ids c x)"
proof (rule withinI)
  fix s ord s'
  assume x: "no_cart x = None" and run: "insert ids c x s = Inr (ord, s')"
  show "holds_on carts_ok s s'"
    using fit_manual [OF _ insert_keys(4) [OF run]] unfolding holds_on_def carts_ok_def insert_keys(1-3) [OF run] x by simp
qed

lemma create_carts [carts_kept]: "within (holds_on carts_ok) (create rates ids c inp)"
proof -
  have "within (holds_on carts_ok) (insert ids c (manual_order inp ls opt))" for ls opt
    by (rule insert_carts) (simp add: manual_order_def)
  moreover have "within (holds_on carts_ok) (settings_row c)" "within (holds_on carts_ok) (variant_for_order c vid)"
    "within (holds_on carts_ok) (quote rates c p)" for vid p
    by (rule holds_same, simp add: settings_row_Inr variant_for_order_def quote_reads)+
  ultimately show ?thesis
    unfolding create_def pick_option_def price_lines_def price_line_def by (intro inv.rules carts_kept)
qed

lemma checked_out_keys: "map cart_key (carts (upd_cart t cid (checked_out c) s)) = map (closed t cid) (map cart_key (carts s))"
  by (simp add: upd_cart_def row_upd_def cart_key_def checked_out_def closed_def)

lemma checkout_carts [carts_kept]: "within (holds_on carts_ok) (checkout rates ids c inp)"
proof (rule withinI)
  fix s r s'
  assume "checkout rates ids c inp s = Inr (r, s')"
  then show "holds_on carts_ok s s'"
  proof (cases rule: checkout_Inr)
    case (replay cart)
    then show ?thesis by (auto simp: replay_Inr holds_on_def)
  next
    case (made cart st opts ship ord s1 attempt s2)
    let ?x = "checkout_order inp (items_of c (xi_cart inp) s) ship"
    have x: "no_cart ?x = Some (xi_cart inp)" by (simp add: checkout_order_def)
    note keys = insert_keys [OF made(9)]
    have view: "order_view s2 = order_view s1" by (rule first_attempt_view [OF made(10)])
    have cart: "(xi_cart inp, tenant_of c, ca_status cart) \<in> set (map cart_key (carts s))"
      using made(1) by (auto simp: get_cart_def cart_key_def image_iff dest!: row_get_Some intro!: bexI [of _ cart])
    have "carts_fit (map order_key (orders s) @ [(ids 0, tenant_of c, Some (xi_cart inp), or_number ord)])
      (map (closed (tenant_of c) (xi_cart inp)) (map cart_key (carts s)))" if "carts_ok s"
      using that keys(4) keys(5) [OF x] by (intro fit_checkout [OF _ cart]) (simp_all add: carts_ok_def)
    moreover have "map order_key (orders s') = map order_key (orders s) @ [(ids 0, tenant_of c, Some (xi_cart inp), or_number ord)]"
      "map cart_key (carts s') = map (closed (tenant_of c) (xi_cart inp)) (map cart_key (carts s))"
      using view keys(1,2,3) x unfolding made(11) by (simp_all add: order_view_def checked_out_keys)
    ultimately show ?thesis by (simp add: holds_on_def carts_ok_def)
  qed
qed

lemma create_cart_carts [carts_kept]: "within (holds_on carts_ok) (create_cart c cid cu)"
proof (rule withinI)
  fix s r s'
  assume "create_cart c cid cu s = Inr (r, s')"
  then have "map cart_key (carts s') = map cart_key (carts s) @ [(cid, tenant_of c, S_open)]" "orders s' = orders s"
    "cid \<notin> fst ` set (map cart_key (carts s))"
    by (auto simp: create_cart_def tx_inr Let_def cart_key_def list_all_iff)
  then show "holds_on carts_ok s s'" by (simp add: holds_on_def carts_ok_def fit_open)
qed

lemma sweep_carts [carts_kept]: "within (holds_on carts_ok) (sweep c)"
proof -
  have "within (holds_on carts_ok) (delete_expired_carts c)"
  proof (rule withinI)
    fix s n s'
    assume run: "delete_expired_carts c s = Inr (n, s')"
    let ?dead = "\<lambda>r. ca_tenant r = tenant_of c \<and> ca_status r = S_open \<and> ca_expires_at r < c_now c"
    have rows: "orders s' = orders s" "carts s' = filter (\<lambda>r. \<not> ?dead r) (carts s)"
      using run by (auto simp: delete_expired_carts_def Let_def row_del_def intro!: filter_cong)
    have "carts_fit os (map cart_key (filter (\<lambda>r. \<not> ?dead r) ks))" if fit: "carts_fit os (map cart_key ks)" for os ks
    proof -
      have inj: "inj_on cart_key (set ks)"
      proof (rule inj_on_imageI2 [of fst])
        show "inj_on (fst \<circ> cart_key) (set ks)" using fit by (simp add: carts_fit_def distinct_map o_def)
      qed
      have "map cart_key (filter (\<lambda>r. \<not> ?dead r) ks) = filter (\<lambda>k. \<not> ?dead (the_inv_into (set ks) cart_key k)) (map cart_key ks)"
        by (simp add: filter_map o_def the_inv_into_f_f [OF inj] cong: filter_cong)
      moreover have "\<not> ?dead (the_inv_into (set ks) cart_key k)" if k: "k \<in> set (map cart_key ks)" and out: "snd (snd k) = S_checked_out" for k
      proof -
        obtain r where r: "r \<in> set ks" "k = cart_key r" using k by auto
        have "ca_status r = S_checked_out" using out r(2) by (simp add: cart_key_def)
        with r show ?thesis using the_inv_into_f_f [OF inj r(1)] by simp
      qed
      ultimately show ?thesis using fit_drop [OF fit] by presburger
    qed
    then show "holds_on carts_ok s s'" by (simp add: holds_on_def carts_ok_def rows)
  qed
  moreover have "within (holds_on carts_ok) (delete_ended_sessions c)"
    by (auto simp: within_def holds_on_def carts_ok_def delete_ended_sessions_def Let_def)
  ultimately show ?thesis unfolding sweep_def by (intro inv.rules carts_kept)
qed

section \<open>The books stay right\<close>

lemma commit_books: "commit t s s' \<Longrightarrow> holds_on shop_ok s s'"
proof -
  assume step: "commit t s s'"
  have "holds_on carts_ok s s'"
    by (rule commit_within [OF step inv.tx_relation_axioms]) (simp add: carts_kept)
  moreover have "holds_on (\<lambda>s. payments_ok s \<and> books s) s s'"
    by (rule commit_within [OF step inv.tx_relation_axioms]) (simp add: apply_books conj_holds books_kept pay_inv)
  ultimately show ?thesis
    by (simp add: holds_on_def shop_ok_def carts_ok_def books_def)
qed

lemma run_books: "run P s s' \<Longrightarrow> holds_on shop_ok s s'"
  by (rule run_within [OF _ inv.tx_relation_axioms commit_books])

lemma empty_ok: "orders s = [] \<Longrightarrow> carts s = [] \<Longrightarrow> payments s = [] \<Longrightarrow> shop_ok s"
  by (simp add: shop_ok_def good_orders_def good_payments_def carts_fit_def pays_fit_def)

lemma shop_ok_carts:
  assumes "shop_ok s" and "k \<in> set (carts s)"
  shows "ca_status k = S_checked_out \<longleftrightarrow> (\<exists>!r. r \<in> set (orders s) \<and> or_tenant r = ca_tenant k \<and> or_cart r = Some (ca_id k))"
proof -
  have fit: "carts_fit (map order_key (orders s)) (map cart_key (carts s))" and ids: "distinct (map or_id (orders s))"
    using assms(1) by (simp_all add: shop_ok_def good_orders_def)
  have one: "ca_status k = S_checked_out \<longleftrightarrow> (\<exists>r \<in> set (orders s). or_tenant r = ca_tenant k \<and> or_cart r = Some (ca_id k))"
  proof -
    have "ca_status k = S_checked_out \<longleftrightarrow> (ca_id k, ca_tenant k, S_checked_out) \<in> set (map cart_key (carts s))"
    proof
      show "ca_status k = S_checked_out \<Longrightarrow> (ca_id k, ca_tenant k, S_checked_out) \<in> set (map cart_key (carts s))"
        using assms(2) by (auto simp: cart_key_def image_iff intro!: bexI [of _ k])
    next
      assume "(ca_id k, ca_tenant k, S_checked_out) \<in> set (map cart_key (carts s))"
      then obtain q where q: "q \<in> set (carts s)" "ca_id q = ca_id k" "ca_status q = S_checked_out"
        by (auto simp: cart_key_def)
      have "inj_on ca_id (set (carts s))"
        using fit by (simp add: carts_fit_def distinct_map cart_key_def o_def)
      then show "ca_status k = S_checked_out" using q assms(2) by (auto dest: inj_onD)
    qed
    also have "\<dots> \<longleftrightarrow> (\<exists>i n. (i, ca_tenant k, Some (ca_id k), n) \<in> set (map order_key (orders s)))"
      using fit by (simp add: carts_fit_def)
    also have "\<dots> \<longleftrightarrow> (\<exists>r \<in> set (orders s). or_tenant r = ca_tenant k \<and> or_cart r = Some (ca_id k))"
      by (force simp: order_key_def)
    finally show ?thesis .
  qed
  have "r = q" if "r \<in> set (orders s)" "q \<in> set (orders s)" "or_cart r = Some (ca_id k)" "or_cart q = Some (ca_id k)" for r q
  proof -
    have "(or_id r, or_tenant r, Some (ca_id k), or_number r) \<in> set (map order_key (orders s))"
      "(or_id q, or_tenant q, Some (ca_id k), or_number q) \<in> set (map order_key (orders s))"
      using that by (auto simp: order_key_def image_iff intro: rev_bexI)
    then have "or_id r = or_id q" using fit unfolding carts_fit_def by blast
    then show ?thesis using ids that by (auto simp: distinct_map dest: inj_onD)
  qed
  then show ?thesis using one by blast
qed

text \<open>C3. The books of the shops stay right (BR-040, BR-041): whatever runs of transactions of whatever
  shops came before, a cart has been checked out exactly when it has its one order, no two orders
  of a shop share a number, every payment is an attempt on an order of its shop, an order with
  a paid attempt is not pending, and an order has at most one pending attempt.\<close>

theorem books_stay_right:
  assumes "run P s0 s" and "orders s0 = []" and "carts s0 = []" and "payments s0 = []"
  shows "(\<forall>k \<in> set (carts s). ca_status k = S_checked_out \<longleftrightarrow>
      (\<exists>!r. r \<in> set (orders s) \<and> or_tenant r = ca_tenant k \<and> or_cart r = Some (ca_id k))) \<and>
    distinct (map (\<lambda>r. (or_tenant r, or_number r)) (orders s)) \<and>
    (\<forall>p \<in> set (payments s). \<exists>r \<in> set (orders s). or_id r = pa_order p \<and> or_tenant r = pa_tenant p \<and>
      (pa_status p = S_paid \<longrightarrow> or_status r \<noteq> S_pending)) \<and>
    distinct (map pa_order (filter (\<lambda>p. pa_status p = S_pending) (payments s)))"
proof -
  have ok: "shop_ok s"
    using run_books [OF assms(1)] empty_ok [OF assms(2-4)] by (simp add: holds_on_def)
  then have fit: "pays_fit (orders s) (payments s)" "good_payments (payments s)"
    "distinct (map (\<lambda>(i, t, ca, n). (t, n)) (map order_key (orders s)))"
    by (simp_all add: shop_ok_def carts_fit_def)
  then show ?thesis
    using shop_ok_carts [OF ok] by (simp add: pays_fit_def good_payments_def order_key_def o_def)
qed

section \<open>The operations are runs\<close>

lemma run_one: "commit t s s' \<Longrightarrow> run ((=) t) s s'"
  by (rule run.step [OF run.refl]) simp_all

lemma run_trans: "run P u v \<Longrightarrow> run P s u \<Longrightarrow> run P s v"
  by (induction rule: run.induct) (auto intro: run.step)

lemma run_mono: "run P s s' \<Longrightarrow> (\<And>t. P t \<Longrightarrow> Q t) \<Longrightarrow> run Q s s'"
  by (induction rule: run.induct) (auto intro: run.intros)

lemma tx_stepI: "c_tenant c = Some t \<Longrightarrow> in_tenant_tx c (m c) s = (r, s') \<Longrightarrow> tx_step t m s s'"
  unfolding tx_step_def by (intro exI [of _ c]) simp

lemma stepI: "c_tenant c = Some t \<Longrightarrow> tx_step t m s (snd (in_tenant_tx c (m c) s))"
  by (auto simp: tx_step_def)

lemmas step_run = commit.intros [THEN run_one]

lemma open_snap_run:
  assumes "c_tenant c = Some t" and "open_snap gw c st ord p s = (r, s')"
  shows "run ((=) t) s s'"
  using assms(2) unfolding open_snap_def
  by (auto split: sum.splits prod.splits intro!: run.refl step_run(3) tx_stepI [OF assms(1)])

lemma order_ops_run:
  assumes "c_tenant c = Some t"
  shows "run ((=) t) (w_db w) (w_db (snd (create_op rates m ids c inp w)))"
    "run ((=) t) (w_db w) (w_db (snd (transition_op m c oid to tin w)))"
    "run ((=) t) s (snd (update_pending_op c oid ver uin s))" "run ((=) t) s (snd (refund_op c oid note s))"
    "run ((=) t) s (snd (pay_again_op gw pid c oid s))"
proof -
  show "run ((=) t) (w_db w) (w_db (snd (create_op rates m ids c inp w)))"
    unfolding create_op_def
    by (auto split: sum.splits prod.splits intro!: run.refl step_run(1) tx_stepI [OF assms])
  show "run ((=) t) (w_db w) (w_db (snd (transition_op m c oid to tin w)))"
    unfolding transition_op_def
    by (auto split: sum.splits prod.splits intro!: run.refl step_run(4) tx_stepI [OF assms])
  show "run ((=) t) s (snd (update_pending_op c oid ver uin s))" "run ((=) t) s (snd (refund_op c oid note s))"
    unfolding update_pending_op_def refund_op_def by (rule step_run(5,6) [OF stepI [OF assms]])+
  show "run ((=) t) s (snd (pay_again_op gw pid c oid s))"
    unfolding pay_again_op_def
    by (auto split: sum.splits prod.splits intro!: run.refl step_run(7) tx_stepI [OF assms])
qed

lemma checkout_op_run:
  assumes "c_tenant c = Some t"
  shows "run ((=) t) (w_db w) (w_db (snd (checkout_op rates m gw ids c xin w)))"
proof (cases "in_tenant_tx c (checkout rates ids c xin) (w_db w)")
  case (Pair r s1)
  have first: "run ((=) t) (w_db w) s1" by (rule step_run(2), rule tx_stepI [OF assms], rule Pair)
  have link: "run ((=) t) (w_db w) s2" if "open_snap gw c st ord p s1 = (l, s2)" for st ord p l s2
    by (rule run_trans [OF open_snap_run [OF assms that] first])
  show ?thesis
    using first link Pair unfolding checkout_op_def by (auto split: sum.splits prod.splits option.splits bool.splits simp: Let_def)
qed

lemma notify_op_run: "run (\<lambda>_. True) (w_db w) (w_db (snd (notify_op nt m c hook raw w)))"
proof -
  have "run (\<lambda>_. True) s s'" if "in_tenant_tx (with_tenant t c) (apply_status (with_tenant t c) n st raw) s = (r, s')" for t n st r s s'
    by (rule run_mono, rule step_run(8), rule tx_stepI [of "with_tenant t c"], simp, rule that) simp
  then show ?thesis
    unfolding notify_op_def by (auto split: sum.splits prod.splits option.splits simp: Let_def intro: run.refl)
qed

lemma cart_ops_run:
  assumes "c_tenant c = Some t"
  shows "run ((=) t) s (snd (cart_create_op cid c cu s))" "run ((=) t) s (snd (cart_get_op img c cid cu s))"
    "run ((=) t) s (snd (set_item_op img c cid vid qty cu s))"
proof -
  have "snd (cart_create_op cid c cu s) = snd (in_tenant_tx c (create_cart c cid cu) s)"
    by (auto simp: cart_create_op_def in_tenant_tx_def run_tx_def bindT_def retT_def split: option.splits sum.splits prod.splits)
  then show "run ((=) t) s (snd (cart_create_op cid c cu s))"
    using step_run(9) [OF stepI [OF assms]] by metis
  show "run ((=) t) s (snd (cart_get_op img c cid cu s))"
    unfolding cart_get_op_def by (rule step_run(10) [OF stepI [OF assms]])
  show "run ((=) t) s (snd (set_item_op img c cid vid qty cu s))"
    unfolding set_item_op_def using step_run(11) [OF stepI [OF assms]] by (auto intro: run.refl)
qed

lemma purge_ops_run:
  assumes "c_tenant c = Some t"
  shows "run ((=) t) (fst js) (fst (snd (start_purge_op up c jid cid js)))" "run ((=) t) s (snd (purge_handler od c j s))"
proof -
  show "run ((=) t) (fst js) (fst (snd (start_purge_op up c jid cid js)))"
    unfolding start_purge_op_def
    by (auto split: sum.splits prod.splits intro!: run.refl step_run(12) tx_stepI [OF assms])
  show "run ((=) t) s (snd (purge_handler od c j s))"
    unfolding purge_handler_def
    by (auto split: sum.splits prod.splits option.splits intro!: run.refl step_run(13) tx_stepI [OF assms])
qed

lemma sweep_shops_run: "run (\<lambda>_. True) s (snd (sweep_shops up c ts s))"
proof (induction ts arbitrary: s)
  case Nil
  then show ?case by (simp add: run.refl)
next
  case (Cons t ts)
  have "run (\<lambda>_. True) s s'" if "sweep_shop c t s = (r, s')" for r s'
    by (rule run_mono, rule step_run(14), rule tx_stepI [of "with_tenant t c"], simp,
        rule that [unfolded sweep_shop_def]) simp
  then show ?case
    using Cons.IH by (auto split: sum.splits prod.splits intro: run_trans) (metis run_trans snd_conv)+
qed


section \<open>A sample day\<close>

definition new_shop :: db where
  "new_shop = shop_db\<lparr>orders := [], order_lines := []\<rparr>"

definition day1 :: db where
  "day1 = snd (set_item_op no_images sample_ctx 80 60 2 None (snd (cart_create_op 80 sample_ctx None new_shop)))"

definition day2 :: db where
  "day2 = w_db (snd (checkout_op sample_rates sample_mailer sample_gateway sample_ids sample_ctx sample_checkout \<lparr>w_db = day1, w_mail = []\<rparr>))"

lemma day_runs: "run ((=) 1) new_shop day2"
proof -
  have "run ((=) 1) (w_db \<lparr>w_db = day1, w_mail = []\<rparr>) day2"
    unfolding day2_def by (rule checkout_op_run [OF sample_tenant(1)])
  then have "run ((=) 1) day1 day2" by simp
  moreover have "run ((=) 1) new_shop day1"
    unfolding day1_def by (rule run_trans [OF cart_ops_run(3) cart_ops_run(1)]) (rule sample_tenant(1))+
  ultimately show ?thesis by (rule run_trans)
qed

lemma day_facts: "orders new_shop = []" "carts new_shop = []" "payments new_shop = []" "good_orders pay_db"
  "length (orders day2) = 1" "map ca_status (carts day2) = [S_checked_out]" "map pa_status (payments day2) = [S_pending]"
  "length (orders pay_db) = 1"
  by code_simp+

theorem books_stay_right_witness:
  "\<exists>k r. carts day2 = [k] \<and> r \<in> set (orders day2) \<and> or_cart r = Some (ca_id k)"
proof -
  obtain k where k: "carts day2 = [k]" "ca_status k = S_checked_out"
    using day_facts(6) by (auto simp: map_eq_Cons_conv)
  then show ?thesis
    using books_stay_right [OF day_runs day_facts(1-3)] by auto
qed

theorem orders_move_forward_witness:
  "\<exists>s'. run (\<lambda>_. True) pay_db s' \<and> s' \<noteq> pay_db \<and> later (orders pay_db ! 0) (orders s' ! 0)"
proof -
  obtain w' where r: "notify_op sample_notifier sample_mailer sample_ctx 70 ''{}'' pay_world = (Inr (), w')"
    and n: "get_order 1 20 (w_db w') \<noteq> get_order 1 20 (w_db pay_world)"
    using sample_notify_pays by blast
  have run: "run (\<lambda>_. True) pay_db (w_db w')"
    using notify_op_run [of pay_world sample_notifier sample_mailer sample_ctx 70 "''{}''"] r by (simp add: pay_world_def)
  have "w_db w' \<noteq> pay_db" using n by (auto simp: pay_world_def)
  then show ?thesis
    using run orders_move_forward [OF run day_facts(4)] day_facts(8) by auto
qed



end
