(* ===== verification/Roles.thy ===== *)
theory Roles
  imports GoStrings "HOL-Library.Char_ord" "HOL-Library.List_Lexorder"
begin

text \<open>
  The four seeded roles and what each grants (internal/auth/roles.go, BR-023..BR-025). Strings are
  ordered by their bytes, as \<open>slices.Sort\<close> orders them.\<close>

definition role_owner :: string where "role_owner = ''owner''"
definition role_admin :: string where "role_admin = ''admin''"
definition role_ops :: string where "role_ops = ''ops''"
definition role_viewer :: string where "role_viewer = ''viewer''"

definition read_all :: "string list" where
  "read_all = [''products:read'', ''variants:read'', ''categories:read'', ''brands:read'',
     ''blog:read'', ''media:read'', ''orders:read'', ''customers:read'', ''exports:read'']"

definition admin_permissions :: "string list" where
  "admin_permissions = read_all @
    [''products:write'', ''variants:write'', ''categories:write'', ''brands:write'',
     ''blog:write'', ''media:write'', ''orders:write'', ''channels:read'', ''channels:write'',
     ''users:read'', ''users:write'', ''api_keys:read'', ''api_keys:write'',
     ''audit_log:read'', ''settings:read'']"

definition role_permissions :: "string \<Rightarrow> string list option" where
  "role_permissions role =
    (if role = role_owner then Some (admin_permissions @ [''settings:write'', ''customers:purge''])
     else if role = role_admin then Some admin_permissions
     else if role = role_ops then Some (read_all @ [''orders:write''])
     else if role = role_viewer then Some (read_all @ [''channels:read'', ''settings:read''])
     else None)"

definition permissions_for :: "string \<Rightarrow> string list" where
  "permissions_for role = (case role_permissions role of None \<Rightarrow> [] | Some perms \<Rightarrow> sort perms)"

text \<open>The Go map answers its zero value, no permissions, for a role that is not in it.\<close>

definition can :: "string \<Rightarrow> string \<Rightarrow> bool" where
  "can role permission \<longleftrightarrow> permission \<in> set (case role_permissions role of None \<Rightarrow> [] | Some perms \<Rightarrow> perms)"

record seeded_role =
  sr_name :: string
  sr_description :: string
  sr_permissions :: "string list"

definition seeded_roles :: "seeded_role list" where
  "seeded_roles = map (\<lambda>(n, d). \<lparr>sr_name = n, sr_description = d, sr_permissions = permissions_for n\<rparr>)
    [(role_owner, ''Everything, including the tenant'' @ [CHR 0x27] @ ''s own settings.''),
     (role_admin, ''Everything except the tenant'' @ [CHR 0x27] @ ''s settings and billing.''),
     (role_ops, ''Works orders and customers. Reads the catalog.''),
     (role_viewer, ''Read-only. For accountants and external bookkeepers.'')]"

lemma role_names: "role_owner \<noteq> role_admin" "role_owner \<noteq> role_ops" "role_owner \<noteq> role_viewer" "role_admin \<noteq> role_ops"
  "role_admin \<noteq> role_viewer" "role_ops \<noteq> role_viewer"
  by (simp_all add: role_owner_def role_admin_def role_ops_def role_viewer_def)

lemma can_simps: "can role_owner p \<longleftrightarrow> p \<in> set (admin_permissions @ [''settings:write'', ''customers:purge''])"
  "can role_admin p \<longleftrightarrow> p \<in> set admin_permissions" "can role_ops p \<longleftrightarrow> p \<in> set (read_all @ [''orders:write''])"
  "can role_viewer p \<longleftrightarrow> p \<in> set (read_all @ [''channels:read'', ''settings:read''])"
  using role_names role_names [symmetric] by (simp_all add: can_def role_permissions_def)

lemma role_cases: "role_permissions r \<noteq> None \<Longrightarrow> r = role_owner \<or> r = role_admin \<or> r = role_ops \<or> r = role_viewer"
  by (auto simp: role_permissions_def split: if_splits)

lemma permission_sets:
  "set admin_permissions \<inter> {''settings:write'', ''customers:purge''} = {}"
  "set (read_all @ [''orders:write'']) \<subseteq> set admin_permissions"
  "set (read_all @ [''channels:read'', ''settings:read'']) \<subseteq> set admin_permissions"
  "list_all (\<lambda>p. suffix '':read'' p) (read_all @ [''channels:read'', ''settings:read''])"
  "distinct (admin_permissions @ [''settings:write'', ''customers:purge''])"
  by code_simp+

lemma roles_pointwise:
  shows "(\<forall>p. can role_ops p \<or> can role_viewer p \<longrightarrow> can role_admin p) \<and>
    (\<forall>p. can role_owner p \<longleftrightarrow> can role_admin p \<or> p = ''settings:write'' \<or> p = ''customers:purge'') \<and>
    \<not> can role_admin ''settings:write'' \<and> \<not> can role_admin ''customers:purge'' \<and>
    (\<forall>p. can role_viewer p \<longrightarrow> suffix '':read'' p) \<and>
    (\<forall>r p. can r p \<longrightarrow> r \<in> {role_owner, role_admin, role_ops, role_viewer}) \<and>
    (\<forall>r. set (permissions_for r) = {p. can r p} \<and> sorted (permissions_for r) \<and> distinct (permissions_for r)) \<and>
    (\<forall>sr \<in> set seeded_roles. sr_permissions sr = permissions_for (sr_name sr))"
proof (intro conjI allI impI ballI)
  show "can role_admin p" if "can role_ops p \<or> can role_viewer p" for p
    using that permission_sets(2,3) unfolding can_simps by blast
  show "can role_owner p \<longleftrightarrow> can role_admin p \<or> p = ''settings:write'' \<or> p = ''customers:purge''" for p
    unfolding can_simps set_append by (simp only: Un_iff list.set empty_iff insert_iff) blast
  show "\<not> can role_admin ''settings:write''" "\<not> can role_admin ''customers:purge''"
    using permission_sets(1) unfolding can_simps by blast+
  show "suffix '':read'' p" if "can role_viewer p" for p
    using that permission_sets(4) unfolding can_simps list_all_iff by blast
  show "r \<in> {role_owner, role_admin, role_ops, role_viewer}" if "can r p" for r p
    using that role_cases [of r] by (cases "role_permissions r") (auto simp: can_def)
  show "set (permissions_for r) = {p. can r p}" "sorted (permissions_for r)" for r
    by (auto simp: permissions_for_def can_def split: option.splits)
  show "distinct (permissions_for r)" for r
  proof -
    have "distinct admin_permissions" "distinct (read_all @ [''orders:write''])" "distinct (read_all @ [''channels:read'', ''settings:read''])"
      by code_simp+
    then show ?thesis
      using permission_sets(5) by (auto simp only: permissions_for_def role_permissions_def distinct_sort option.case if_split
          distinct.simps split: if_splits)
  qed
  show "sr_permissions sr = permissions_for (sr_name sr)" if "sr \<in> set seeded_roles" for sr
    using that unfolding seeded_roles_def set_map by (simp only: list.set prod.case) auto
qed

text \<open>The seeded roles (BR-023, BR-025): ops and viewer are within admin and admin within owner, who alone
  writes the shop's settings and erases customers; a viewer only reads; a role that is none of the
  four can do nothing; and what the login response and GET /roles list, in order and without
  repetition, is what the handlers check.\<close>

theorem roles_nested:
  shows "{p. can role_ops p \<or> can role_viewer p} \<subseteq> {p. can role_admin p} \<and>
    {p. can role_owner p} = {p. can role_admin p} \<union> {''settings:write'', ''customers:purge''} \<and>
    {''settings:write'', ''customers:purge''} \<inter> {p. can role_admin p} = {} \<and>
    {p. can role_viewer p} \<subseteq> {p. suffix '':read'' p} \<and>
    {r. \<exists>p. can r p} \<subseteq> {role_owner, role_admin, role_ops, role_viewer} \<and>
    (\<forall>r. set (permissions_for r) = {p. can r p} \<and> sorted (permissions_for r) \<and> distinct (permissions_for r)) \<and>
    map sr_permissions seeded_roles = map (\<lambda>sr. permissions_for (sr_name sr)) seeded_roles"
proof (intro conjI)
  show "map sr_permissions seeded_roles = map (\<lambda>sr. permissions_for (sr_name sr)) seeded_roles"
    using roles_pointwise by simp
qed (use roles_pointwise in blast)+

end
