(* ===== verification/AuthQueries.thy ===== *)
theory AuthQueries
  imports CheckoutQueries Roles
begin

text \<open>
  The statements of sign-in, refresh tokens and the team (internal/db/sqlcgen/auth.sql.go,
  team.sql.go) and the two cross-tenant lookups sign-in starts from (internal/db/auth_lookup.go,
  migration 000003). Emails are citext: \<open>lc\<close> is the database's lower case.\<close>

section \<open>The lookups before a tenant is known (BR-003)\<close>

record auth_user =
  lu_id :: uuid
  lu_tenant :: uuid
  lu_password_hash :: "string option"
  lu_status :: string
  lu_role :: string

definition lookup_user :: "(string \<Rightarrow> string) \<Rightarrow> string \<Rightarrow> db \<Rightarrow> err + auth_user" where
  "lookup_user lc email s =
    (case find (\<lambda>u. lc (us_email u) = lc email) (users s) of
      None \<Rightarrow> Inl LookupNotFound
    | Some u \<Rightarrow> Inr \<lparr>lu_id = us_id u, lu_tenant = us_tenant u, lu_password_hash = us_password_hash u,
        lu_status = us_status u, lu_role = us_role u\<rparr>)"

record auth_token =
  lr_id :: uuid
  lr_tenant :: uuid
  lr_user :: uuid
  lr_expires_at :: instant
  lr_revoked_at :: "instant option"

definition auth_token_of :: "refresh_token \<Rightarrow> auth_token" where
  "auth_token_of r = \<lparr>lr_id = rt_id r, lr_tenant = rt_tenant r, lr_user = rt_user r,
     lr_expires_at = rt_expires_at r, lr_revoked_at = rt_revoked_at r\<rparr>"

definition lookup_refresh_token :: "string \<Rightarrow> db \<Rightarrow> err + auth_token" where
  "lookup_refresh_token hash s =
    (case find (\<lambda>r. rt_token_hash r = hash) (refresh_tokens s) of
      None \<Rightarrow> Inl LookupNotFound
    | Some r \<Rightarrow> Inr (auth_token_of r))"

section \<open>Refresh tokens\<close>

record create_token_params =
  ct_id :: uuid
  ct_tenant :: uuid
  ct_user :: uuid
  ct_token_hash :: string
  ct_rotated_from :: "uuid option"
  ct_expires_at :: instant

definition new_token :: "ctx \<Rightarrow> create_token_params \<Rightarrow> refresh_token" where
  "new_token c p = \<lparr>rt_id = ct_id p, rt_tenant = ct_tenant p, rt_user = ct_user p, rt_token_hash = ct_token_hash p,
     rt_rotated_from = ct_rotated_from p, rt_expires_at = ct_expires_at p, rt_revoked_at = None, rt_created_at = c_now c\<rparr>"

definition rls_violation :: err where
  "rls_violation = PgError ''42501'' [] ''row-level security''"

definition create_refresh_token :: "ctx \<Rightarrow> create_token_params \<Rightarrow> unit stmt" where
  "create_refresh_token c p =
    thenT (guardT (\<lambda>_. ct_tenant p = tenant_of c) rls_violation)
    (thenT (guardT (\<lambda>s. ct_id p \<notin> rt_id ` set (refresh_tokens s)) (unique_violation ''refresh_tokens_pkey''))
    (thenT (guardT (\<lambda>s. ct_token_hash p \<notin> rt_token_hash ` set (refresh_tokens s)) (unique_violation ''refresh_tokens_token_hash_key''))
    (thenT (guardT (\<lambda>s. ct_user p \<in> us_id ` set (users s)) (fk_violation ''refresh_tokens_user_id_fkey''))
    (thenT (guardT (\<lambda>s. case ct_rotated_from p of None \<Rightarrow> True | Some f \<Rightarrow> f \<in> rt_id ` set (refresh_tokens s))
              (fk_violation ''refresh_tokens_rotated_from_fkey''))
     (writeT (\<lambda>s. s\<lparr>refresh_tokens := refresh_tokens s @ [new_token c p]\<rparr>))))))"

definition has_successor :: "ctx \<Rightarrow> uuid \<Rightarrow> bool stmt" where
  "has_successor c f = readT (\<lambda>s. list_ex (\<lambda>r. rt_tenant r = tenant_of c \<and> rt_rotated_from r = Some f) (refresh_tokens s))"

text \<open>\<open>:execrows\<close>: how many rows the update met.\<close>

definition revoked_rows :: "ctx \<Rightarrow> (refresh_token \<Rightarrow> bool) \<Rightarrow> db \<Rightarrow> db" where
  "revoked_rows c p s = s\<lparr>refresh_tokens := map (\<lambda>r.
     if rt_tenant r = tenant_of c \<and> p r \<and> rt_revoked_at r = None then r\<lparr>rt_revoked_at := Some (c_now c)\<rparr> else r) (refresh_tokens s)\<rparr>"

definition revoke_where :: "ctx \<Rightarrow> (refresh_token \<Rightarrow> bool) \<Rightarrow> int stmt" where
  "revoke_where c p s = Inr (int (length (filter (\<lambda>r. rt_tenant r = tenant_of c \<and> p r \<and> rt_revoked_at r = None) (refresh_tokens s))),
     revoked_rows c p s)"

definition revoke_refresh_token :: "ctx \<Rightarrow> uuid \<Rightarrow> int stmt" where
  "revoke_refresh_token c rid = revoke_where c (\<lambda>r. rt_id r = rid)"

definition revoke_all_user_tokens :: "ctx \<Rightarrow> uuid \<Rightarrow> int stmt" where
  "revoke_all_user_tokens c u = revoke_where c (\<lambda>r. rt_user r = u)"

section \<open>Users\<close>

definition get_user_row :: "uuid \<Rightarrow> uuid \<Rightarrow> db \<Rightarrow> user option" where
  "get_user_row t u s = row_get us_tenant us_id t u (users s)"

definition upd_user :: "uuid \<Rightarrow> uuid \<Rightarrow> (user \<Rightarrow> user) \<Rightarrow> db \<Rightarrow> db" where
  "upd_user t u f s = s\<lparr>users := row_upd us_tenant us_id t u f (users s)\<rparr>"

text \<open>\<open>UPDATE .. RETURNING\<close> of one user, where the row must also satisfy \<open>p\<close>.\<close>

definition update_user :: "ctx \<Rightarrow> uuid \<Rightarrow> (user \<Rightarrow> bool) \<Rightarrow> (user \<Rightarrow> user) \<Rightarrow> user stmt" where
  "update_user c u p f =
    bindT (oneT (\<lambda>s. case get_user_row (tenant_of c) u s of None \<Rightarrow> None | Some r \<Rightarrow> if p r then Some r else None)) (\<lambda>r.
    thenT (writeT (upd_user (tenant_of c) u f)) (retT (f r)))"

definition touch_last_login :: "ctx \<Rightarrow> uuid \<Rightarrow> unit stmt" where
  "touch_last_login c u = writeT (upd_user (tenant_of c) u (\<lambda>r. r\<lparr>us_last_login_at := Some (c_now c)\<rparr>))"

record session_row =
  sw_user :: uuid
  sw_user_name :: string
  sw_email :: string
  sw_role :: string
  sw_tenant :: uuid
  sw_tenant_name :: string
  sw_timezone :: string

definition session_row_of :: "uuid \<Rightarrow> uuid \<Rightarrow> db \<Rightarrow> session_row option" where
  "session_row_of t u s =
    (case get_user_row t u s of
      None \<Rightarrow> None
    | Some r \<Rightarrow>
        (case find (\<lambda>x. tn_id x = us_tenant r) (tenants s) of
           None \<Rightarrow> None
         | Some x \<Rightarrow> Some \<lparr>sw_user = us_id r, sw_user_name = us_name r, sw_email = us_email r, sw_role = us_role r,
             sw_tenant = tn_id x, sw_tenant_name = tn_name x, sw_timezone = tn_timezone x\<rparr>))"

definition get_session :: "ctx \<Rightarrow> uuid \<Rightarrow> session_row stmt" where
  "get_session c u = oneT (session_row_of (tenant_of c) u)"

definition get_user :: "ctx \<Rightarrow> uuid \<Rightarrow> user stmt" where
  "get_user c u = oneT (get_user_row (tenant_of c) u)"

definition accept_invitation :: "ctx \<Rightarrow> uuid \<Rightarrow> string option \<Rightarrow> user stmt" where
  "accept_invitation c u hash = update_user c u (\<lambda>r. us_status r = S_invited)
     (\<lambda>r. r\<lparr>us_password_hash := hash, us_status := S_active\<rparr>)"

definition activate_invited :: "ctx \<Rightarrow> uuid \<Rightarrow> user stmt" where
  "activate_invited c u = update_user c u (\<lambda>r. us_status r = S_invited) (\<lambda>r. r\<lparr>us_status := S_active\<rparr>)"

definition set_user_password :: "ctx \<Rightarrow> uuid \<Rightarrow> string option \<Rightarrow> string option \<Rightarrow> int stmt" where
  "set_user_password c u new old s =
    (case get_user_row (tenant_of c) u s of
      None \<Rightarrow> Inr (0, s)
    | Some r \<Rightarrow> if us_status r = S_active \<and> us_password_hash r = old
                then Inr (1, upd_user (tenant_of c) u (\<lambda>r. r\<lparr>us_password_hash := new\<rparr>) s) else Inr (0, s))"

definition set_user_role :: "ctx \<Rightarrow> uuid \<Rightarrow> string \<Rightarrow> user stmt" where
  "set_user_role c u role =
     thenT (guardT (\<lambda>_. role \<in> {role_owner, role_admin, role_ops, role_viewer}) (check_violation ''users_role_check''))
       (update_user c u (\<lambda>_. True) (\<lambda>r. r\<lparr>us_role := role\<rparr>))"

definition set_user_status :: "ctx \<Rightarrow> uuid \<Rightarrow> string \<Rightarrow> user stmt" where
  "set_user_status c u st =
     thenT (guardT (\<lambda>_. st \<in> {S_invited, S_active, S_disabled}) (check_violation ''users_status_check''))
       (update_user c u (\<lambda>_. True) (\<lambda>r. r\<lparr>us_status := st\<rparr>))"

definition set_user_bio :: "ctx \<Rightarrow> uuid \<Rightarrow> string option \<Rightarrow> user stmt" where
  "set_user_bio c u b = update_user c u (\<lambda>_. True) (\<lambda>r. r\<lparr>us_bio := b\<rparr>)"

definition other_active_owners :: "ctx \<Rightarrow> uuid \<Rightarrow> int stmt" where
  "other_active_owners c u = readT (\<lambda>s. int (length (filter (\<lambda>r. us_tenant r = tenant_of c \<and> us_role r = role_owner \<and>
     us_status r = S_active \<and> us_id r \<noteq> u) (users s))))"

definition new_user :: "ctx \<Rightarrow> uuid \<Rightarrow> string \<Rightarrow> string \<Rightarrow> string \<Rightarrow> string \<Rightarrow> user" where
  "new_user c u email name role st = \<lparr>us_id = u, us_tenant = tenant_of c, us_email = email, us_password_hash = None,
     us_name = name, us_role = role, us_status = st, us_last_login_at = None, us_created_at = c_now c, us_bio = None\<rparr>"

text \<open>The email is unique across every shop (BR-020).\<close>

definition insert_user :: "(string \<Rightarrow> string) \<Rightarrow> user \<Rightarrow> user stmt" where
  "insert_user lc r =
    thenT (guardT (\<lambda>_. us_role r \<in> {role_owner, role_admin, role_ops, role_viewer}) (check_violation ''users_role_check''))
    (thenT (guardT (\<lambda>s. us_id r \<notin> us_id ` set (users s)) (unique_violation ''users_pkey''))
    (thenT (guardT (\<lambda>s. list_all (\<lambda>q. lc (us_email q) \<noteq> lc (us_email r)) (users s)) (unique_violation ''users_email_key''))
    (thenT (guardT (\<lambda>s. us_tenant r \<in> tn_id ` set (tenants s)) (fk_violation ''users_tenant_id_fkey''))
    (thenT (writeT (\<lambda>s. s\<lparr>users := users s @ [r]\<rparr>)) (retT r)))))"

definition invite_user :: "(string \<Rightarrow> string) \<Rightarrow> ctx \<Rightarrow> uuid \<Rightarrow> string \<Rightarrow> string \<Rightarrow> string \<Rightarrow> user stmt" where
  "invite_user lc c u email name role = insert_user lc (new_user c u email name role S_invited)"

definition create_active_owner :: "(string \<Rightarrow> string) \<Rightarrow> ctx \<Rightarrow> uuid \<Rightarrow> string \<Rightarrow> string \<Rightarrow> user stmt" where
  "create_active_owner lc c u email name = insert_user lc (new_user c u email name role_owner S_active)"

record user_filter =
  uf_status :: "string option"
  uf_role :: "string option"
  uf_after :: "(instant \<times> uuid) option"
  uf_limit :: int

definition list_users :: "ctx \<Rightarrow> user_filter \<Rightarrow> user list stmt" where
  "list_users c p = readT (\<lambda>s. take (nat (uf_limit p)) (filter (\<lambda>r.
       (case uf_status p of None \<Rightarrow> True | Some x \<Rightarrow> us_status r = x) \<and>
       (case uf_role p of None \<Rightarrow> True | Some x \<Rightarrow> us_role r = x) \<and>
       (case uf_after p of None \<Rightarrow> True | Some k \<Rightarrow> k < (us_created_at r, us_id r)))
     (sort_key (\<lambda>r. (us_created_at r, us_id r)) (rows_of us_tenant (tenant_of c) (users s)))))"

section \<open>Tenants\<close>

definition order_prefix_ok :: "string \<Rightarrow> bool" where
  "order_prefix_ok p \<longleftrightarrow> 2 \<le> length p \<and> length p \<le> 6 \<and>
     list_all (\<lambda>ch. is_digit ch \<or> 65 \<le> (of_char ch :: nat) \<and> (of_char ch :: nat) \<le> 90) p"

definition create_tenant :: "ctx \<Rightarrow> string \<Rightarrow> string \<Rightarrow> string \<Rightarrow> tenant stmt" where
  "create_tenant c name slug pre =
    (let r = \<lparr>tn_id = tenant_of c, tn_name = name, tn_slug = slug, tn_timezone = ''Asia/Jakarta'', tn_status = S_active,
       tn_created_at = c_now c, tn_order_prefix = pre\<rparr> in
     thenT (guardT (\<lambda>_. order_prefix_ok pre) (check_violation ''tenants_order_prefix_check''))
     (thenT (guardT (\<lambda>s. tenant_of c \<notin> tn_id ` set (tenants s)) (unique_violation ''tenants_pkey''))
     (thenT (guardT (\<lambda>s. slug \<notin> tn_slug ` set (tenants s)) (unique_violation ''tenants_slug_key''))
     (thenT (writeT (\<lambda>s. s\<lparr>tenants := tenants s @ [r]\<rparr>)) (retT r)))))"

definition get_tenant :: "uuid \<Rightarrow> tenant stmt" where
  "get_tenant t = oneT (\<lambda>s. find (\<lambda>r. tn_id r = t) (tenants s))"

record update_tenant_params =
  ut_name :: "string option"
  ut_slug :: "string option"
  ut_timezone :: "string option"
  ut_order_prefix :: "string option"

definition coalesce :: "'a option \<Rightarrow> 'a \<Rightarrow> 'a" where
  "coalesce x d = (case x of None \<Rightarrow> d | Some y \<Rightarrow> y)"

definition updated_tenant :: "update_tenant_params \<Rightarrow> tenant \<Rightarrow> tenant" where
  "updated_tenant p r = r\<lparr>tn_name := coalesce (ut_name p) (tn_name r), tn_slug := coalesce (ut_slug p) (tn_slug r),
     tn_timezone := coalesce (ut_timezone p) (tn_timezone r), tn_order_prefix := coalesce (ut_order_prefix p) (tn_order_prefix r)\<rparr>"

definition update_settings :: "ctx \<Rightarrow> update_tenant_params \<Rightarrow> tenant stmt" where
  "update_settings c p =
    bindT (get_tenant (tenant_of c)) (\<lambda>r.
    thenT (guardT (\<lambda>_. order_prefix_ok (tn_order_prefix (updated_tenant p r))) (check_violation ''tenants_order_prefix_check''))
    (thenT (guardT (\<lambda>s. list_all (\<lambda>q. tn_id q = tn_id r \<or> tn_slug q \<noteq> tn_slug (updated_tenant p r)) (tenants s))
              (unique_violation ''tenants_slug_key''))
    (thenT (writeT (\<lambda>s. s\<lparr>tenants := map (\<lambda>q. if tn_id q = tenant_of c then updated_tenant p q else q) (tenants s)\<rparr>))
     (retT (updated_tenant p r)))))"

section \<open>What the statements leave\<close>

lemma revoke_Inr: "revoke_where c p s = Inr (n, s') \<longleftrightarrow> s' = revoked_rows c p s \<and>
    n = int (length (filter (\<lambda>r. rt_tenant r = tenant_of c \<and> p r \<and> rt_revoked_at r = None) (refresh_tokens s)))"
  by (auto simp: revoke_where_def)

lemma revoked_rows_frame [simp]: "users (revoked_rows c p s) = users s" "tenants (revoked_rows c p s) = tenants s"
  "audit_log (revoked_rows c p s) = audit_log s"
  by (simp_all add: revoked_rows_def)

lemma upd_user_frame [simp]: "refresh_tokens (upd_user t u f s) = refresh_tokens s" "tenants (upd_user t u f s) = tenants s"
  by (simp_all add: upd_user_def)

lemma get_user_upd: "keeps_key us_tenant us_id f \<Longrightarrow> get_user_row t' u' (upd_user t u f s) =
    (if (t', u') = (t, u) then map_option f (get_user_row t u s) else get_user_row t' u' s)"
  by (simp add: get_user_row_def upd_user_def rows.get_same rows.get_other)

lemma get_user_Some: "get_user_row t u s = Some r \<Longrightarrow> us_tenant r = t \<and> us_id r = u \<and> r \<in> set (users s)"
  unfolding get_user_row_def by (drule row_get_Some) simp

lemma update_user_Inr: "update_user c u p f s = Inr (r, s') \<longleftrightarrow>
    (\<exists>q. get_user_row (tenant_of c) u s = Some q \<and> p q \<and> r = f q \<and> s' = upd_user (tenant_of c) u f s)"
  by (auto simp: update_user_def tx_inr split: option.splits if_splits)

end
