(* ===== verification/Base64.thy ===== *)
theory Base64
  imports GoStrings
begin

text \<open>
  The unpadded encodings of Go's encoding/base64 the code writes tokens, hashes and keys in:
  \<open>RawURLEncoding\<close> and \<open>RawStdEncoding\<close>, which differ in their alphabet.\<close>

section \<open>Raw encodings\<close>

type_synonym alphabet = string

definition url_alphabet :: alphabet where
  "url_alphabet = ''ABCDEFGHIJKLMNOPQRSTUVWXYZabcdefghijklmnopqrstuvwxyz0123456789-_''"

definition std_alphabet :: alphabet where
  "std_alphabet = ''ABCDEFGHIJKLMNOPQRSTUVWXYZabcdefghijklmnopqrstuvwxyz0123456789+/''"

definition b64_char :: "alphabet \<Rightarrow> nat \<Rightarrow> char" where
  "b64_char al n = al ! n"

definition b64_index :: "alphabet \<Rightarrow> char \<Rightarrow> nat option" where
  "b64_index al ch = map_of (zip al [0..<64]) ch"

text \<open>What an alphabet is: 64 different characters, line ends not among them.\<close>

definition is_alphabet :: "alphabet \<Rightarrow> bool" where
  "is_alphabet al \<longleftrightarrow> length al = 64 \<and> distinct al \<and> CHR 0x0A \<notin> set al \<and> CHR 0x0D \<notin> set al"

lemma alphabets: "is_alphabet url_alphabet" "is_alphabet std_alphabet"
  by code_simp+

abbreviation byte_of :: "char \<Rightarrow> nat" where
  "byte_of ch \<equiv> of_char ch"

fun b64_encode :: "alphabet \<Rightarrow> string \<Rightarrow> string" where
  "b64_encode al [] = []"
| "b64_encode al [a] = [b64_char al (byte_of a div 4), b64_char al (byte_of a mod 4 * 16)]"
| "b64_encode al [a, b] = [b64_char al (byte_of a div 4), b64_char al (byte_of a mod 4 * 16 + byte_of b div 16),
     b64_char al (byte_of b mod 16 * 4)]"
| "b64_encode al (a # b # c # r) = b64_char al (byte_of a div 4) # b64_char al (byte_of a mod 4 * 16 + byte_of b div 16) #
     b64_char al (byte_of b mod 16 * 4 + byte_of c div 64) # b64_char al (byte_of c mod 64) # b64_encode al r"

text \<open>The decoder skips line ends, refuses every other byte outside the alphabet, and ignores the bits
  left over in a short last group; a group of one character is an error.\<close>

fun b64_groups :: "nat list \<Rightarrow> string option" where
  "b64_groups [] = Some []"
| "b64_groups [a] = None"
| "b64_groups [a, b] = Some [char_of (a * 4 + b div 16)]"
| "b64_groups [a, b, c] = Some [char_of (a * 4 + b div 16), char_of (b mod 16 * 16 + c div 4)]"
| "b64_groups (a # b # c # d # r) = map_option (\<lambda>s. char_of (a * 4 + b div 16) # char_of (b mod 16 * 16 + c div 4) #
     char_of (c mod 4 * 64 + d) # s) (b64_groups r)"

definition b64_decode :: "alphabet \<Rightarrow> string \<Rightarrow> string option" where
  "b64_decode al s =
    (let xs = map (b64_index al) (filter (\<lambda>ch. ch \<noteq> CHR 0x0A \<and> ch \<noteq> CHR 0x0D) s)
     in if None \<in> set xs then None else b64_groups (map the xs))"

lemma b64_index_char: "is_alphabet al \<Longrightarrow> n < 64 \<Longrightarrow> b64_index al (b64_char al n) = Some n"
proof -
  assume al: "is_alphabet al" "n < 64"
  then have "(al ! n, [0..<64] ! n) \<in> set (zip al [0..<64])"
    by (simp add: is_alphabet_def set_zip) (metis add.left_neutral length_upt nth_upt diff_zero)
  then show ?thesis
    using al by (simp add: b64_index_def b64_char_def is_alphabet_def)
qed

lemma b64_char_in: "is_alphabet al \<Longrightarrow> n < 64 \<Longrightarrow> b64_char al n \<in> set al"
  by (simp add: b64_char_def is_alphabet_def)

lemma byte_bound [simp]: "(of_char ch :: nat) < 256"
  using nat_of_char_less_256 by simp

lemma byte_parts: "byte_of a div 4 < 64" "byte_of a mod 4 * 16 + byte_of b div 16 < 64" "byte_of b mod 16 * 4 + byte_of c div 64 < 64"
  "byte_of c mod 64 < 64" "byte_of a mod 4 * 16 < 64" "byte_of b mod 16 * 4 < 64"
proof -
  have "x div 4 < 64" "x mod 4 * 16 + y div 16 < 64" "y mod 16 * 4 + z div 64 < 64" "z mod 64 < 64" "x mod 4 * 16 < 64" "y mod 16 * 4 < 64"
    if "x < 256" "y < 256" "z < 256" for x y z :: nat
    using that by linarith+
  from this [OF byte_bound byte_bound byte_bound]
  show "byte_of a div 4 < 64" "byte_of a mod 4 * 16 + byte_of b div 16 < 64" "byte_of b mod 16 * 4 + byte_of c div 64 < 64"
    "byte_of c mod 64 < 64" "byte_of a mod 4 * 16 < 64" "byte_of b mod 16 * 4 < 64" .
qed

lemma b64_encode_alphabet: "is_alphabet al \<Longrightarrow> set (b64_encode al s) \<subseteq> set al"
  by (induction al s rule: b64_encode.induct) (simp_all add: b64_char_in byte_parts)

fun b64_values :: "string \<Rightarrow> nat list" where
  "b64_values [] = []"
| "b64_values [a] = [byte_of a div 4, byte_of a mod 4 * 16]"
| "b64_values [a, b] = [byte_of a div 4, byte_of a mod 4 * 16 + byte_of b div 16, byte_of b mod 16 * 4]"
| "b64_values (a # b # c # r) = byte_of a div 4 # (byte_of a mod 4 * 16 + byte_of b div 16) #
     (byte_of b mod 16 * 4 + byte_of c div 64) # byte_of c mod 64 # b64_values r"

lemma b64_encode_values: "is_alphabet al \<Longrightarrow> map (b64_index al) (b64_encode al s) = map Some (b64_values s)"
  by (induction al s rule: b64_encode.induct) (simp_all add: b64_index_char byte_parts)

lemma bytes_again: "byte_of a div 4 * 4 + (byte_of a mod 4 * 16 + byte_of b div 16) div 16 = byte_of a"
  "(byte_of a mod 4 * 16 + byte_of b div 16) mod 16 * 16 + (byte_of b mod 16 * 4 + byte_of c div 64) div 4 = byte_of b"
  "(byte_of b mod 16 * 4 + byte_of c div 64) mod 4 * 64 + byte_of c mod 64 = byte_of c"
  "byte_of a div 4 * 4 + byte_of a mod 4 * 16 div 16 = byte_of a"
  "(byte_of a mod 4 * 16 + byte_of b div 16) mod 16 * 16 + byte_of b mod 16 * 4 div 4 = byte_of b"
proof -
  have "x div 4 * 4 + (x mod 4 * 16 + y div 16) div 16 = x" "(x mod 4 * 16 + y div 16) mod 16 * 16 + (y mod 16 * 4 + z div 64) div 4 = y"
    "(y mod 16 * 4 + z div 64) mod 4 * 64 + z mod 64 = z" "x div 4 * 4 + x mod 4 * 16 div 16 = x"
    "(x mod 4 * 16 + y div 16) mod 16 * 16 + y mod 16 * 4 div 4 = y"
    if "x < 256" "y < 256" "z < 256" for x y z :: nat
  proof -
    have shift: "(n * m + k) div m = n" "(n * m + k) mod m = k" if "k < m" for n m k :: nat
      using that by simp_all
    have y: "y div 16 < 16" and z: "z div 64 < 4" using that by linarith+
    show "x div 4 * 4 + (x mod 4 * 16 + y div 16) div 16 = x" "x div 4 * 4 + x mod 4 * 16 div 16 = x"
      by (simp_all only: shift [OF y] div_mult_self_is_m zero_less_numeral div_mult_mod_eq)
    show "(x mod 4 * 16 + y div 16) mod 16 * 16 + (y mod 16 * 4 + z div 64) div 4 = y"
      "(x mod 4 * 16 + y div 16) mod 16 * 16 + y mod 16 * 4 div 4 = y"
      by (simp_all only: shift [OF y] shift [OF z] div_mult_self_is_m zero_less_numeral div_mult_mod_eq)
    show "(y mod 16 * 4 + z div 64) mod 4 * 64 + z mod 64 = z"
      by (simp only: shift [OF z] div_mult_mod_eq)
  qed
  from this [OF byte_bound byte_bound byte_bound]
  show "byte_of a div 4 * 4 + (byte_of a mod 4 * 16 + byte_of b div 16) div 16 = byte_of a"
    "(byte_of a mod 4 * 16 + byte_of b div 16) mod 16 * 16 + (byte_of b mod 16 * 4 + byte_of c div 64) div 4 = byte_of b"
    "(byte_of b mod 16 * 4 + byte_of c div 64) mod 4 * 64 + byte_of c mod 64 = byte_of c"
    "byte_of a div 4 * 4 + byte_of a mod 4 * 16 div 16 = byte_of a"
    "(byte_of a mod 4 * 16 + byte_of b div 16) mod 16 * 16 + byte_of b mod 16 * 4 div 4 = byte_of b" .
qed

lemma b64_values_groups: "b64_groups (b64_values s) = Some s"
  by (induction s rule: b64_values.induct) (simp_all only: b64_values.simps b64_groups.simps bytes_again char_of_char option.map)

lemma decode_encode [simp]:
  assumes "is_alphabet al"
  shows "b64_decode al (b64_encode al s) = Some s"
proof -
  have "filter (\<lambda>ch. ch \<noteq> CHR 0x0A \<and> ch \<noteq> CHR 0x0D) (b64_encode al s) = b64_encode al s"
    using b64_encode_alphabet [OF assms] assms by (intro filter_True) (auto simp: is_alphabet_def)
  then show ?thesis
    using assms by (simp add: b64_decode_def Let_def b64_encode_values b64_values_groups o_def image_iff)
qed

lemma encode_inj: "is_alphabet al \<Longrightarrow> b64_encode al s = b64_encode al s' \<longleftrightarrow> s = s'"
  by (metis decode_encode option.inject)

end
