(* ===== verification/Tokens.thy ===== *)
theory Tokens
  imports Base64
begin

text \<open>
  The signed tokens of internal/auth: the invitation link and the signup code (invite.go), the
  password reset link (reset.go) and the guest's order token (order_token.go). None is stored; what a
  token proves is in its layout and its signature. HMAC-SHA256, the text of a UUID and the JSON
  decoder are parameters.\<close>

abbreviation url_encode :: "string \<Rightarrow> string" where
  "url_encode \<equiv> b64_encode url_alphabet"

abbreviation url_decode :: "string \<Rightarrow> string option" where
  "url_decode \<equiv> b64_decode url_alphabet"

lemma url_roundtrip [simp]: "url_decode (url_encode s) = Some s"
  by (simp add: alphabets)

lemma url_no_dot: "CHR ''.'' \<notin> set (url_encode s)"
proof -
  have "CHR ''.'' \<notin> set url_alphabet" by code_simp
  then show ?thesis using b64_encode_alphabet [OF alphabets(1)] by blast
qed

text \<open>Whatever bytes are encoded, decoding gives them back: a token's payload and signature arrive as
  they were signed, and the dot that separates them is never part of either.\<close>

theorem base64_roundtrip: "url_decode (url_encode s) = Some s \<and> CHR ''.'' \<notin> set (url_encode s)"
  by (simp add: url_no_dot)

section \<open>Invitations\<close>

text \<open>What is outside: the MAC under the deployment's key, a UUID's text, and
  \<open>json.Unmarshal\<close> of a payload into the id, the tenant and the expiry.\<close>

record token_lib =
  tl_mac :: "string \<Rightarrow> string"
  tl_uuid :: "uuid \<Rightarrow> string"
  tl_invite :: "string \<Rightarrow> (uuid \<times> uuid \<times> int) option"
  tl_reset :: "string \<Rightarrow> (uuid \<times> uuid \<times> int) option"

text \<open>\<open>time.Time.Unix\<close>: whole seconds, rounded down.\<close>

definition unix :: "instant \<Rightarrow> int" where
  "unix t = t div 1000000000"

definition invite_ttl :: int where
  "invite_ttl = hours (7 * 24)"

definition claims_json :: "token_lib \<Rightarrow> string \<Rightarrow> uuid \<Rightarrow> uuid \<Rightarrow> int \<Rightarrow> string" where
  "claims_json lib k u t e = ''{\"'' @ k @ ''\":\"'' @ tl_uuid lib u @ ''\",\"t\":\"'' @ tl_uuid lib t @ ''\",\"e\":'' @ itoa e @ ''}''"

definition invite_sign :: "token_lib \<Rightarrow> string \<Rightarrow> string" where
  "invite_sign lib payload = tl_mac lib (''invite:'' @ payload)"

definition invite_mint :: "token_lib \<Rightarrow> uuid \<Rightarrow> uuid \<Rightarrow> instant \<Rightarrow> string" where
  "invite_mint lib u t now =
    (let p = url_encode (claims_json lib ''u'' u t (unix (now + invite_ttl)))
     in ''inv_'' @ p @ ''.'' @ url_encode (invite_sign lib p))"

definition invite_parse :: "token_lib \<Rightarrow> string \<Rightarrow> instant \<Rightarrow> (uuid \<times> uuid \<times> int) option" where
  "invite_parse lib token now =
    (case cut_prefix ''inv_'' token of (body, ok) \<Rightarrow>
     case cut_at (CHR ''.'') body of (p, sig, ok2) \<Rightarrow>
     if \<not> ok \<or> \<not> ok2 then None
     else (case url_decode sig of
        None \<Rightarrow> None
      | Some got \<Rightarrow>
          if got \<noteq> invite_sign lib p then None
          else (case url_decode p of
             None \<Rightarrow> None
           | Some raw \<Rightarrow>
               (case tl_invite lib raw of
                  None \<Rightarrow> None
                | Some (u, t, e) \<Rightarrow> if e \<le> unix now then None else Some (u, t, e)))))"

section \<open>Signup codes\<close>

definition code_window :: int where
  "code_window = minutes 15"

definition window :: "instant \<Rightarrow> int" where
  "window now = go_div (unix now) (code_window div seconds 1)"

definition be_value :: "string \<Rightarrow> nat" where
  "be_value s = foldl (\<lambda>n ch. n * 256 + byte_of ch) 0 s"

definition be32 :: "string \<Rightarrow> nat" where
  "be32 s = be_value (take 4 s)"

definition code_at :: "token_lib \<Rightarrow> uuid \<Rightarrow> uuid \<Rightarrow> int \<Rightarrow> string" where
  "code_at lib u t w = zero_pad 6 (itoa_nat
     (be32 (tl_mac lib (''code:'' @ tl_uuid lib u @ '':'' @ tl_uuid lib t @ '':'' @ itoa w)) mod 1000000))"

definition code :: "token_lib \<Rightarrow> uuid \<Rightarrow> uuid \<Rightarrow> instant \<Rightarrow> string" where
  "code lib u t now = code_at lib u t (window now)"

definition check_code :: "token_lib \<Rightarrow> uuid \<Rightarrow> uuid \<Rightarrow> string \<Rightarrow> instant \<Rightarrow> bool" where
  "check_code lib u t x now = foldl (\<lambda>ok bk. code_at lib u t (window now - bk) = x \<or> ok) False [0, 1, 2]"

section \<open>Password resets\<close>

definition reset_ttl :: int where
  "reset_ttl = minutes 30"

text \<open>\<open>NewResetTokens\<close> signs under the customers' label, \<open>Staff\<close> under the admin's.\<close>

definition customer_label :: string where "customer_label = ''reset:''"
definition staff_label :: string where "staff_label = ''staff-reset:''"

definition reset_sign :: "token_lib \<Rightarrow> string \<Rightarrow> string \<Rightarrow> string option \<Rightarrow> string" where
  "reset_sign lib lab payload hash = tl_mac lib (lab @ payload @ [CHR 0x00] @ deref hash)"

definition reset_mint :: "token_lib \<Rightarrow> string \<Rightarrow> uuid \<Rightarrow> uuid \<Rightarrow> string option \<Rightarrow> instant \<Rightarrow> string" where
  "reset_mint lib lab u t hash now =
    (let p = url_encode (claims_json lib ''c'' u t (unix (now + reset_ttl)))
     in ''prt_'' @ p @ ''.'' @ url_encode (reset_sign lib lab p hash))"

definition split_reset :: "string \<Rightarrow> string \<times> string \<times> bool" where
  "split_reset token =
    (case cut_prefix ''prt_'' token of (body, ok1) \<Rightarrow>
     case cut_at (CHR ''.'') body of (p, sig, ok2) \<Rightarrow> (p, sig, ok1 \<and> ok2))"

definition reset_parse :: "token_lib \<Rightarrow> string \<Rightarrow> instant \<Rightarrow> (uuid \<times> uuid \<times> int) option" where
  "reset_parse lib token now =
    (case split_reset token of (p, _, ok) \<Rightarrow>
     if \<not> ok then None
     else (case url_decode p of
        None \<Rightarrow> None
      | Some raw \<Rightarrow>
          (case tl_reset lib raw of
             None \<Rightarrow> None
           | Some (u, t, e) \<Rightarrow> if e \<le> unix now then None else Some (u, t, e))))"

definition reset_verify :: "token_lib \<Rightarrow> string \<Rightarrow> string \<Rightarrow> string option \<Rightarrow> bool" where
  "reset_verify lib lab token hash =
    (case split_reset token of (p, sig, ok) \<Rightarrow>
     if \<not> ok then False
     else (case url_decode sig of None \<Rightarrow> False | Some got \<Rightarrow> got = reset_sign lib lab p hash))"

section \<open>Order tokens\<close>

text \<open>A UUID is an array of 16 bytes, most significant first.\<close>

fun be_bytes :: "nat \<Rightarrow> nat \<Rightarrow> string" where
  "be_bytes 0 n = []"
| "be_bytes (Suc k) n = be_bytes k (n div 256) @ [char_of (n mod 256)]"

definition uuid_bytes :: "uuid \<Rightarrow> string" where
  "uuid_bytes u = be_bytes 16 u"

definition order_token :: "token_lib \<Rightarrow> uuid \<Rightarrow> uuid \<Rightarrow> string" where
  "order_token lib t oid = url_encode (tl_mac lib (uuid_bytes t @ uuid_bytes oid))"

definition order_token_valid :: "token_lib \<Rightarrow> uuid \<Rightarrow> uuid \<Rightarrow> string \<Rightarrow> bool" where
  "order_token_valid lib t oid token \<longleftrightarrow> token = order_token lib t oid"

section \<open>What the tokens prove\<close>

lemma cut_encoded: "cut_at (CHR ''.'') (url_encode p @ CHR ''.'' # q) = (url_encode p, q, True)"
  by (rule cut_at_append [OF url_no_dot])

lemma invite_parse_minted:
  "invite_parse lib (invite_mint lib u t now) now' =
    (case tl_invite lib (claims_json lib ''u'' u t (unix (now + invite_ttl))) of
       None \<Rightarrow> None
     | Some (u, t, e) \<Rightarrow> if e \<le> unix now' then None else Some (u, t, e))"
  by (simp add: invite_parse_def invite_mint_def Let_def cut_prefix_append [where p = "''inv_''", simplified] cut_encoded)

text \<open>An invitation link (BR-026) carries its user and shop: minted, it parses back to them at every
  instant of its seven days and at none after, when the decoder reads what the encoder wrote.\<close>

theorem invite_link:
  assumes "tl_invite lib (claims_json lib ''u'' u t (unix (now + invite_ttl))) = Some (u, t, unix (now + invite_ttl))"
  shows "(\<forall>later. later < now + invite_ttl - seconds 1 \<longrightarrow>
      invite_parse lib (invite_mint lib u t now) later = Some (u, t, unix (now + invite_ttl))) \<and>
    (\<forall>later. now + invite_ttl \<le> later \<longrightarrow> invite_parse lib (invite_mint lib u t now) later = None)"
  using assms by (auto simp: invite_parse_minted unix_def seconds_def)

lemma itoa_nat_length: "n < 10 ^ Suc k \<Longrightarrow> length (itoa_nat n) \<le> Suc k"
proof (induction k arbitrary: n)
  case 0
  then show ?case by (simp add: itoa_nat.simps)
next
  case (Suc k)
  then have "n div 10 < 10 ^ Suc k" by (simp add: less_mult_imp_div_less mult.commute)
  from Suc.IH [OF this] show ?case by (subst itoa_nat.simps) simp
qed

lemma code_shape: "length (code_at lib u t w) = 6 \<and> (\<forall>ch \<in> set (code_at lib u t w). is_digit ch)"
proof -
  define n where "n = be32 (tl_mac lib (''code:'' @ tl_uuid lib u @ '':'' @ tl_uuid lib t @ '':'' @ itoa w)) mod 1000000"
  have "length (itoa_nat n) \<le> 6"
    using itoa_nat_length [of n 5] by (simp add: n_def)
  then show ?thesis
    unfolding code_at_def n_def [symmetric] using zero_pad_digits [OF itoa_nat_digits, of 6 n] by (simp add: zero_pad_def)
qed

lemma check_code_iff: "check_code lib u t x now \<longleftrightarrow> (\<exists>bk \<in> {0, 1, 2}. x = code_at lib u t (window now - bk))"
  by (auto simp: check_code_def)

lemma window_div: "0 \<le> now \<Longrightarrow> window now = now div 900000000000"
proof -
  assume now: "0 \<le> now"
  then have "0 \<le> unix now" by (simp add: unix_def)
  then show ?thesis
    by (simp add: window_def go_div_nonneg unix_def code_window_def minutes_def seconds_def zdiv_zmult2_eq [symmetric])
qed

text \<open>A signup code (BR-026) is six digits, is accepted at every instant of the thirty minutes after it
  was minted, and from forty-five minutes on only by colliding with the code of a later window.\<close>

theorem code_lifetime:
  assumes "0 \<le> now"
  shows "length (code lib u t now) = 6 \<and> (\<forall>ch \<in> set (code lib u t now). is_digit ch) \<and>
    (\<forall>later. now \<le> later \<longrightarrow> later \<le> now + minutes 30 \<longrightarrow> check_code lib u t (code lib u t now) later) \<and>
    (\<forall>later. now + minutes 45 \<le> later \<longrightarrow> check_code lib u t (code lib u t now) later \<longrightarrow>
       (\<exists>w > window now. code_at lib u t w = code_at lib u t (window now)))"
proof (intro conjI allI impI)
  show "length (code lib u t now) = 6" "\<forall>ch \<in> set (code lib u t now). is_digit ch"
    using code_shape by (auto simp: code_def)
next
  fix later
  assume l: "now \<le> later" "later \<le> now + minutes 30"
  have "window later = later div 900000000000" "window now = now div 900000000000"
    using assms l(1) by (simp_all add: window_div)
  moreover have "now div 900000000000 \<le> later div 900000000000" "later div 900000000000 \<le> now div 900000000000 + 2"
    using l by (simp_all add: minutes_def seconds_def zdiv_mono1)
  ultimately have "window later - window now \<in> {0, 1, 2}" by auto
  then show "check_code lib u t (code lib u t now) later"
    unfolding check_code_iff code_def by (intro bexI [of _ "window later - window now"]) simp_all
next
  fix later
  assume l: "now + minutes 45 \<le> later" and ok: "check_code lib u t (code lib u t now) later"
  obtain bk where b: "bk \<in> {0, 1, 2}" "code lib u t now = code_at lib u t (window later - bk)"
    using ok unfolding check_code_iff by blast
  have "now div 900000000000 + 3 \<le> later div 900000000000"
  proof -
    have "(now + 3 * 900000000000) div 900000000000 \<le> later div 900000000000"
      using l by (intro zdiv_mono1) (simp_all add: minutes_def seconds_def)
    then show ?thesis by simp
  qed
  moreover have "0 \<le> later" using assms l by (simp add: minutes_def seconds_def)
  ultimately have "window now < window later - bk"
    using assms b(1) by (auto simp: window_div)
  then show "\<exists>w > window now. code_at lib u t w = code_at lib u t (window now)"
    using b(2) by (auto simp: code_def)
qed

lemma split_minted: "split_reset (''prt_'' @ url_encode p @ ''.'' @ q) = (url_encode p, q, True)"
  by (simp add: split_reset_def cut_prefix_append [where p = "''prt_''", simplified] cut_encoded)

lemma reset_verify_minted:
  "reset_verify lib lab' (reset_mint lib lab u t hash now) hash' \<longleftrightarrow>
    (let p = url_encode (claims_json lib ''c'' u t (unix (now + reset_ttl)))
     in reset_sign lib lab p hash = reset_sign lib lab' p hash')"
  using split_minted by (simp add: reset_verify_def reset_mint_def Let_def)

text \<open>A reset link (BR-094) works once and on its own side: minted against a password hash it verifies
  exactly while the account still has that hash (a missing one counting as empty), and never
  under the other side's label, as long as the MAC does not collide.\<close>

theorem reset_link_spent:
  assumes "inj (tl_mac lib)"
  shows "(reset_verify lib lab (reset_mint lib lab u t hash now) hash' \<longleftrightarrow> deref hash' = deref hash) \<and>
    \<not> reset_verify lib staff_label (reset_mint lib customer_label u t hash now) hash' \<and>
    \<not> reset_verify lib customer_label (reset_mint lib staff_label u t hash now) hash'"
  using assms
  by (auto simp: reset_verify_minted Let_def reset_sign_def inj_eq staff_label_def customer_label_def)

lemma be_bytes_length: "length (be_bytes k n) = k"
  by (induction k arbitrary: n) simp_all

lemma uuid_bytes_length: "length (uuid_bytes u) = 16"
  by (simp add: uuid_bytes_def be_bytes_length)

lemma be_value_bytes: "be_value (be_bytes k n) = n mod 256 ^ k"
proof (induction k arbitrary: n)
  case 0
  then show ?case by (simp add: be_value_def)
next
  case (Suc k)
  have "n mod 256 ^ Suc k = 256 * (n div 256 mod 256 ^ k) + n mod 256"
    by (simp add: mod_mult2_eq)
  then show ?case using Suc.IH [of "n div 256"] by (simp add: be_value_def)
qed

lemma uuid_bytes_eq: "u < 2 ^ 128 \<Longrightarrow> v < 2 ^ 128 \<Longrightarrow> uuid_bytes u = uuid_bytes v \<longleftrightarrow> u = v"
proof -
  assume "u < 2 ^ 128" "v < 2 ^ 128"
  then have "u mod 256 ^ 16 = u" "v mod 256 ^ 16 = v" by (simp_all add: mod_less)
  then show "uuid_bytes u = uuid_bytes v \<longleftrightarrow> u = v"
    unfolding uuid_bytes_def using be_value_bytes [of 16] by metis
qed

text \<open>A guest's order token (BR-091) opens the one order of the one shop it was minted for, as long as the
  MAC does not collide.\<close>

theorem order_token_opens_one:
  assumes "inj (tl_mac lib)" and "t < 2 ^ 128" and "oid < 2 ^ 128" and "t' < 2 ^ 128" and "oid' < 2 ^ 128"
  shows "order_token_valid lib t' oid' (order_token lib t oid) \<longleftrightarrow> t' = t \<and> oid' = oid"
proof -
  have "uuid_bytes t @ uuid_bytes oid = uuid_bytes t' @ uuid_bytes oid' \<longleftrightarrow> t' = t \<and> oid' = oid"
    using assms(2-5) by (auto simp: append_eq_append_conv uuid_bytes_length uuid_bytes_eq)
  then show ?thesis
    using assms(1) by (simp add: order_token_valid_def order_token_def encode_inj [OF alphabets(1)] inj_eq)
qed

section \<open>Sample tokens\<close>

definition sample_lib :: token_lib where
  "sample_lib = \<lparr>tl_mac = id, tl_uuid = itoa_nat, tl_invite = (\<lambda>raw. Some (3, 1, 604800)), tl_reset = (\<lambda>raw. Some (3, 1, 1800))\<rparr>"

lemma sample_mac: "inj (tl_mac sample_lib)"
  by (simp add: sample_lib_def)

theorem invite_link_witness: "invite_parse sample_lib (invite_mint sample_lib 3 1 0) (hours 24) = Some (3, 1, 604800)"
proof -
  have "tl_invite sample_lib (claims_json sample_lib ''u'' 3 1 (unix (0 + invite_ttl))) = Some (3, 1, unix (0 + invite_ttl))"
    by (simp add: sample_lib_def unix_def invite_ttl_def hours_def minutes_def seconds_def)
  from invite_link [OF this] show ?thesis
    by (simp add: unix_def invite_ttl_def hours_def minutes_def seconds_def)
qed

theorem code_lifetime_witness: "check_code sample_lib 3 1 (code sample_lib 3 1 0) (minutes 30)"
  using code_lifetime [of 0 sample_lib 3 1] by (simp add: minutes_def seconds_def)

theorem reset_link_spent_witness:
  "\<not> reset_verify sample_lib staff_label (reset_mint sample_lib staff_label 3 1 (Some ''old'') 0) (Some ''new'')"
  using reset_link_spent [OF sample_mac, where lab = staff_label and u = 3 and t = 1 and hash = "Some ''old''" and now = 0 and hash' = "Some ''new''"] by (simp add: deref_def)

theorem order_token_opens_one_witness: "\<not> order_token_valid sample_lib 1 21 (order_token sample_lib 1 20)"
  using order_token_opens_one [OF sample_mac, of 1 20 1 21] by simp

end
