(* ===== verification/Passwords.thy ===== *)
theory Passwords
  imports Base64
begin

text \<open>
  The stored form of a password (internal/auth/password.go, BR-022): argon2id's parameters, the salt
  and the digest in one line of six parts. argon2id itself is a parameter; \<open>strings.Split\<close> and
  \<open>fmt.Sscanf\<close> are written out as far as the code uses them.\<close>

section \<open>Split and Sscanf\<close>

fun split_char :: "char \<Rightarrow> string \<Rightarrow> string list" where
  "split_char ch [] = [[]]"
| "split_char ch (x # xs) =
    (if x = ch then [] # split_char ch xs
     else (case split_char ch xs of [] \<Rightarrow> [[x]] | p # ps \<Rightarrow> (x # p) # ps))"

text \<open>A literal of the format must be next in the input; \<open>%d\<close> skips spaces but not a line end, and a
  number that does not fit the variable is an error. What follows the last verb is not looked at.\<close>

definition scan_literal :: "string \<Rightarrow> string \<Rightarrow> string option" where
  "scan_literal lit s = (if prefix lit s then Some (drop (length lit) s) else None)"

definition scan_spaces :: "string \<Rightarrow> string" where
  "scan_spaces s = strip_all (filter (\<lambda>r. r \<noteq> [CHR 0x0A]) space_runes) s"

definition scan_uint :: "nat \<Rightarrow> string \<Rightarrow> (nat \<times> string) option" where
  "scan_uint bits s =
    (let s' = scan_spaces s; ds = takeWhile is_digit s'
     in if ds = [] \<or> 2 ^ bits \<le> decimal ds then None else Some (decimal ds, dropWhile is_digit s'))"

definition scan_int :: "string \<Rightarrow> (int \<times> string) option" where
  "scan_int s =
    (let s' = scan_spaces s;
         neg = (s' \<noteq> [] \<and> hd s' = CHR ''-'');
         s'' = (if s' \<noteq> [] \<and> (hd s' = CHR ''-'' \<or> hd s' = CHR ''+'') then tl s' else s');
         ds = takeWhile is_digit s'';
         n = (if neg then - int (decimal ds) else int (decimal ds))
     in if ds = [] \<or> \<not> is_i64 n then None else Some (n, dropWhile is_digit s''))"

definition scan_version :: "string \<Rightarrow> int option" where
  "scan_version s =
    (case scan_literal ''v='' s of None \<Rightarrow> None
     | Some r \<Rightarrow> (case scan_int r of None \<Rightarrow> None | Some (n, _) \<Rightarrow> Some n))"

definition scan_params :: "string \<Rightarrow> (nat \<times> nat \<times> nat) option" where
  "scan_params s =
    (case scan_literal ''m='' s of None \<Rightarrow> None | Some r0 \<Rightarrow>
    (case scan_uint 32 r0 of None \<Rightarrow> None | Some (m, r1) \<Rightarrow>
    (case scan_literal '',t='' r1 of None \<Rightarrow> None | Some r2 \<Rightarrow>
    (case scan_uint 32 r2 of None \<Rightarrow> None | Some (t, r3) \<Rightarrow>
    (case scan_literal '',p='' r3 of None \<Rightarrow> None | Some r4 \<Rightarrow>
    (case scan_uint 8 r4 of None \<Rightarrow> None | Some (p, _) \<Rightarrow> Some (m, t, p)))))))"

section \<open>Hashing and verifying\<close>

text \<open>\<open>argon2.IDKey\<close>: password, salt, passes, memory, threads, key length. It panics on no passes or no
  threads.\<close>

type_synonym argon = "string \<Rightarrow> string \<Rightarrow> nat \<Rightarrow> nat \<Rightarrow> nat \<Rightarrow> nat \<Rightarrow> string"

definition argon_time :: nat where "argon_time = 3"
definition argon_memory :: nat where "argon_memory = 64 * 1024"
definition argon_threads :: nat where "argon_threads = 4"
definition argon_key_len :: nat where "argon_key_len = 32"
definition argon_version :: nat where "argon_version = 19"

abbreviation std_encode :: "string \<Rightarrow> string" where
  "std_encode \<equiv> b64_encode std_alphabet"

definition hash_password :: "argon \<Rightarrow> string \<Rightarrow> string \<Rightarrow> string" where
  "hash_password argon salt password =
    ''$argon2id$v='' @ itoa_nat argon_version @ ''$m='' @ itoa_nat argon_memory @ '',t='' @ itoa_nat argon_time @
    '',p='' @ itoa_nat argon_threads @ ''$'' @ std_encode salt @ ''$'' @
    std_encode (argon password salt argon_time argon_memory argon_threads argon_key_len)"

definition err_mismatch :: err where
  "err_mismatch = Sentinel ''password does not match''"

definition verify_password :: "argon \<Rightarrow> string \<Rightarrow> string \<Rightarrow> err + unit" where
  "verify_password argon encoded password =
    (let parts = split_char (CHR ''$'') encoded in
     if length parts \<noteq> 6 \<or> parts ! 1 \<noteq> ''argon2id'' then Inl (Opaque ''malformed password hash'')
     else if scan_version (parts ! 2) \<noteq> Some (int argon_version) then Inl (Opaque ''unsupported argon2 version'')
     else (case scan_params (parts ! 3) of
        None \<Rightarrow> Inl (Opaque ''malformed argon2 parameters'')
      | Some (memory, time, threads) \<Rightarrow>
          (case b64_decode std_alphabet (parts ! 4) of
             None \<Rightarrow> Inl (Opaque ''malformed salt'')
           | Some salt \<Rightarrow>
               (case b64_decode std_alphabet (parts ! 5) of
                  None \<Rightarrow> Inl (Opaque ''malformed digest'')
                | Some want \<Rightarrow>
                    if time = 0 \<or> threads = 0 then Inl (Opaque ''panic: argon2'')
                    else if argon password salt time memory threads (length want) = want then Inr ()
                    else Inl err_mismatch))))"

section \<open>What verifying accepts\<close>

lemma split_plain: "ch \<notin> set p \<Longrightarrow> split_char ch (p @ ch # q) = p # split_char ch q"
  by (induction p) auto

lemma split_last: "ch \<notin> set p \<Longrightarrow> split_char ch p = [p]"
  by (induction p) auto

lemma std_no_dollar: "CHR ''$'' \<notin> set (std_encode s)"
proof -
  have "CHR ''$'' \<notin> set std_alphabet" by code_simp
  then show ?thesis using b64_encode_alphabet [OF alphabets(2)] by blast
qed

lemma hash_parts: "split_char (CHR ''$'') (hash_password argon salt password) =
    [[], ''argon2id'', ''v=19'', ''m=65536,t=3,p=4'', std_encode salt, std_encode (argon password salt 3 65536 4 32)]"
proof -
  have "hash_password argon salt password = [] @ CHR ''$'' # (''argon2id'' @ CHR ''$'' # (''v=19'' @ CHR ''$'' #
      (''m=65536,t=3,p=4'' @ CHR ''$'' # (std_encode salt @ CHR ''$'' # std_encode (argon password salt 3 65536 4 32)))))"
  proof -
    have "itoa_nat argon_version = ''19''" "itoa_nat argon_memory = ''65536''" "itoa_nat argon_time = ''3''" "itoa_nat argon_threads = ''4''"
      by (simp_all add: itoa_nat.simps digit_def char_of_def bit_Suc_0_iff argon_version_def argon_memory_def argon_time_def argon_threads_def)
    then show ?thesis by (simp add: hash_password_def argon_time_def argon_memory_def argon_threads_def argon_key_len_def)
  qed
  then show ?thesis
    by (simp only: split_plain split_last std_no_dollar) (simp add: split_plain split_last std_no_dollar)
qed

lemma strip_plain: "is_digit ch \<Longrightarrow> strip_all (filter (\<lambda>r. r \<noteq> [CHR 0x0A]) space_runes) (ch # s) = ch # s"
proof (rule strip_all_fixed)
  assume d: "is_digit ch"
  have "list_all (\<lambda>r. r \<noteq> [] \<and> \<not> is_digit (hd r)) space_runes" by code_simp
  then have "p \<in> set space_runes \<Longrightarrow> p \<noteq> [] \<Longrightarrow> \<not> prefix p (ch # s)" for p
    using d by (cases p) (auto simp: list_all_iff)
  then show "strip_one (filter (\<lambda>r. r \<noteq> [CHR 0x0A]) space_runes) (ch # s) = None"
    by (auto simp: strip_one_def find_None_iff)
qed

lemma own_params: "scan_version ''v=19'' = Some (int argon_version)" "scan_params ''m=65536,t=3,p=4'' = Some (65536, 3, 4)"
  by (simp_all add: scan_version_def scan_params_def scan_literal_def scan_int_def scan_uint_def scan_spaces_def Let_def
      is_digit_def decimal_def digit_val_def strip_plain argon_version_def is_i64_def)

text \<open>C39. A stored password verifies (BR-022): the line \<open>HashPassword\<close> writes is taken apart again into the
  salt and digest it was made of, so a password is accepted exactly when it gives the same key,
  and any other is the one mismatch error.\<close>

theorem password_roundtrip:
  assumes "\<And>pw. length (argon pw salt 3 65536 4 32) = 32"
  shows "verify_password argon (hash_password argon salt password) attempt =
    (if argon attempt salt 3 65536 4 32 = argon password salt 3 65536 4 32 then Inr () else Inl err_mismatch)"
  unfolding verify_password_def hash_parts Let_def
  by (simp add: own_params alphabets assms)

definition sample_argon :: argon where
  "sample_argon pw salt t m p k = take k (pw @ salt @ replicate k (CHR ''x''))"

theorem password_roundtrip_witness:
  "verify_password sample_argon (hash_password sample_argon ''salt'' ''secret'') ''secret'' = Inr () \<and>
   verify_password sample_argon (hash_password sample_argon ''salt'' ''secret'') ''Secret'' = Inl err_mismatch"
proof -
  have len: "length (sample_argon pw ''salt'' 3 65536 4 32) = 32" for pw by (simp add: sample_argon_def)
  show ?thesis
    using password_roundtrip [where argon = sample_argon and salt = "''salt''", OF len]
    by (simp add: sample_argon_def)
qed

end
