(* ===== verification/Google.thy ===== *)
theory Google
  imports Base64
begin

text \<open>
  Google sign-in's token check (internal/auth/google.go, BR-127) and the platform admins
  (platform_admins.go, BR-150). The JWT library, Google's answer over HTTP and its JSON are parameters;
  the cache of Google's keys, what is accepted of a token and \<open>Cache-Control\<close>'s max-age are the code's.\<close>

section \<open>Google's keys\<close>

record rsa_key =
  rk_modulus :: nat
  rk_exponent :: int

record google_jwk =
  gj_kid :: string
  gj_kty :: string
  gj_n :: string
  gj_e :: string

record google_response =
  gr_keys :: "google_jwk list option"
  gr_status :: int
  gr_cache_control :: string

record google_cache =
  gc_keys :: "(string \<times> rsa_key) list"
  gc_expires :: instant
  gc_refetched :: instant

definition set_bytes :: "string \<Rightarrow> nat" where
  "set_bytes s = foldl (\<lambda>n ch. n * 256 + byte_of ch) 0 s"

definition jwk_key :: "google_jwk \<Rightarrow> (string \<times> rsa_key) option" where
  "jwk_key k =
    (case (gj_kty k = ''RSA'', b64_decode url_alphabet (gj_n k), b64_decode url_alphabet (gj_e k)) of
      (True, Some n, Some e) \<Rightarrow> Some (gj_kid k, \<lparr>rk_modulus = set_bytes n, rk_exponent = wrap64 (int (set_bytes e))\<rparr>)
    | _ \<Rightarrow> None)"

text \<open>The leftmost \<open>max-age=\<close> that digits follow, and \<open>strconv.Atoi\<close> of them.\<close>

fun max_age_match :: "string \<Rightarrow> string option" where
  "max_age_match [] = None"
| "max_age_match (x # xs) =
    (let (r, ok) = cut_prefix ''max-age='' (x # xs); ds = takeWhile is_digit r
     in if ok \<and> ds \<noteq> [] then Some ds else max_age_match xs)"

definition max_age_of :: "string \<Rightarrow> int" where
  "max_age_of header =
    (case max_age_match header of
      None \<Rightarrow> hours 1
    | Some ds \<Rightarrow> if is_i64 (int (decimal ds)) then wrap64 (int (decimal ds) * seconds 1) else hours 1)"

definition fetch_keys :: "google_response option \<Rightarrow> err + (string \<times> rsa_key) list \<times> int" where
  "fetch_keys resp =
    (case resp of
      None \<Rightarrow> Inl (Opaque ''google certs'')
    | Some r \<Rightarrow>
        (case gr_keys r of
           None \<Rightarrow> Inl (Opaque ''google certs'')
         | Some ks \<Rightarrow> if gr_status r \<noteq> 200 then Inl (Opaque ''google certs'')
                     else Inr (rev (List.map_filter jwk_key ks), max_age_of (gr_cache_control r))))"

text \<open>\<open>key\<close>: the answer, the next cache, and whether Google was asked. A key id given twice is the last
  one's, which comes first in the list.\<close>

definition google_key :: "google_response option \<Rightarrow> instant \<Rightarrow> string \<Rightarrow> google_cache \<Rightarrow> (err + rsa_key) \<times> google_cache \<times> bool" where
  "google_key resp now kid g =
    (case (map_of (gc_keys g) kid, now < gc_expires g) of
      (Some k, True) \<Rightarrow> (Inr k, g, False)
    | _ \<Rightarrow>
        if now - gc_refetched g < minutes 1 \<and> now < gc_expires g then (Inl (Opaque ''unknown kid''), g, False)
        else
          (let g1 = g\<lparr>gc_refetched := now\<rparr> in
           case fetch_keys resp of
             Inl e \<Rightarrow> (Inl e, g1, True)
           | Inr (ks, age) \<Rightarrow>
               (case map_of ks kid of
                  Some k \<Rightarrow> (Inr k, g1\<lparr>gc_keys := ks, gc_expires := now + age\<rparr>, True)
                | None \<Rightarrow> (Inl (Opaque ''unknown kid''), g1\<lparr>gc_keys := ks, gc_expires := now + age\<rparr>, True))))"

section \<open>The token\<close>

record google_claims =
  go_issuer :: string
  go_subject :: string
  go_email :: string
  go_name :: string
  go_email_verified :: bool

record google_identity =
  gi_subject :: string
  gi_email :: string
  gi_name :: string

text \<open>\<open>jl_kid\<close> is the header's key id, \<open>jl_parse\<close> what \<open>ParseWithClaims\<close> makes of the token under a key:
  its signature by RS256, the audience, the expiry, the issue time and the leeway.\<close>

record jwt_lib =
  jl_kid :: "string \<Rightarrow> string"
  jl_parse :: "rsa_key \<Rightarrow> string \<Rightarrow> string \<Rightarrow> instant \<Rightarrow> err + google_claims"

definition err_google_token :: err where
  "err_google_token = Sentinel ''invalid google id token''"

definition google_issuers :: "string list" where
  "google_issuers = [''accounts.google.com'', ''https://accounts.google.com'']"

definition google_verify ::
  "jwt_lib \<Rightarrow> google_response option \<Rightarrow> instant \<Rightarrow> string \<Rightarrow> string \<Rightarrow> google_cache \<Rightarrow> (err + google_identity) \<times> google_cache" where
  "google_verify lib resp now raw client g =
    (if jl_kid lib raw = [] then (Inl err_google_token, g)
     else (case google_key resp now (jl_kid lib raw) g of
        (Inl _, g', _) \<Rightarrow> (Inl err_google_token, g')
      | (Inr k, g', _) \<Rightarrow>
          (case jl_parse lib k raw client now of
             Inl _ \<Rightarrow> (Inl err_google_token, g')
           | Inr cl \<Rightarrow>
               if go_issuer cl \<notin> set google_issuers \<or> go_subject cl = [] \<or> go_email cl = [] \<or> \<not> go_email_verified cl
               then (Inl err_google_token, g')
               else (Inr \<lparr>gi_subject = go_subject cl, gi_email = go_email cl, gi_name = go_name cl\<rparr>, g'))))"

section \<open>Platform admins\<close>

text \<open>\<open>strings.ToLower\<close> is a parameter: it folds all of Unicode.\<close>

definition new_platform_admins :: "(string \<Rightarrow> string) \<Rightarrow> string list \<Rightarrow> string set" where
  "new_platform_admins lower emails = set (map (\<lambda>e. lower (trim_space e)) emails)"

definition platform_has :: "(string \<Rightarrow> string) \<Rightarrow> string set \<Rightarrow> string \<Rightarrow> bool" where
  "platform_has lower admins email \<longleftrightarrow> lower (trim_space email) \<in> admins \<and> email \<noteq> []"

section \<open>What a sign-in rests on\<close>

text \<open>A cache is honest when its keys are what Google published in a fetch, good until its expiry.\<close>

definition published :: "google_response option list \<Rightarrow> (string \<times> rsa_key) list \<Rightarrow> bool" where
  "published answers ks \<longleftrightarrow> ks = [] \<or> (\<exists>r \<in> set answers. \<exists>age. fetch_keys r = Inr (ks, age))"

fun google_calls :: "(google_response option \<times> instant \<times> string) list \<Rightarrow> google_cache \<Rightarrow> google_cache \<times> nat" where
  "google_calls [] g = (g, 0)"
| "google_calls ((resp, now, kid) # calls) g =
    (case google_key resp now kid g of (_, g', asked) \<Rightarrow>
     case google_calls calls g' of (g'', n) \<Rightarrow> (g'', n + (if asked then 1 else 0)))"

lemma key_published:
  assumes "google_key resp now kid g = (r, g', asked)" and "published answers (gc_keys g)"
  shows "published (resp # answers) (gc_keys g')"
  using assms unfolding google_key_def published_def
  by (auto simp: Let_def split: option.splits bool.splits if_splits sum.splits prod.splits)

lemma calls_published: "published answers (gc_keys g) \<Longrightarrow>
    published (rev (map fst calls) @ answers) (gc_keys (fst (google_calls calls g)))"
proof (induction calls arbitrary: g answers)
  case Nil
  then show ?case by simp
next
  case (Cons call calls)
  obtain resp now kid where call: "call = (resp, now, kid)" by (cases call)
  obtain r g' asked where key: "google_key resp now kid g = (r, g', asked)" by (cases "google_key resp now kid g")
  from Cons.IH [OF key_published [OF key Cons.prems]] show ?case
    by (auto simp: call key split: prod.splits)
qed

definition no_keys :: google_cache where
  "no_keys = \<lparr>gc_keys = [], gc_expires = 0, gc_refetched = 0\<rparr>"

lemma key_answer:
  assumes "google_key resp now kid g = (Inr k, g', asked)"
  shows "map_of (gc_keys g') kid = Some k \<and> (asked \<or> now < gc_expires g)"
  using assms unfolding google_key_def
  by (auto simp: Let_def split: option.splits bool.splits if_splits sum.splits prod.splits)

text \<open>A Google sign-in names someone only when Google does (BR-020, BR-127): whatever came before, an identity
  is returned only for a token that parses, for this client, under the key of its key id in a set
  Google published, from one of Google's issuers, with a subject and an email Google verified.\<close>

theorem google_vouches:
  assumes "google_verify lib resp now raw client (fst (google_calls calls no_keys)) = (Inr who, g')"
  shows "\<exists>k cl ks age r. r \<in> set (resp # map fst calls) \<and> fetch_keys r = Inr (ks, age) \<and> map_of ks (jl_kid lib raw) = Some k \<and>
    jl_parse lib k raw client now = Inr cl \<and> go_issuer cl \<in> set google_issuers \<and> go_email_verified cl \<and>
    gi_subject who = go_subject cl \<and> gi_subject who \<noteq> [] \<and> gi_email who = go_email cl \<and> gi_email who \<noteq> []"
proof -
  obtain k asked cl where key: "google_key resp now (jl_kid lib raw) (fst (google_calls calls no_keys)) = (Inr k, g', asked)"
    and cl: "jl_parse lib k raw client now = Inr cl" "go_issuer cl \<in> set google_issuers" "go_subject cl \<noteq> []"
      "go_email cl \<noteq> []" "go_email_verified cl"
    and who: "who = \<lparr>gi_subject = go_subject cl, gi_email = go_email cl, gi_name = go_name cl\<rparr>"
    using assms unfolding google_verify_def by (auto split: if_splits sum.splits prod.splits)
  have "published [] (gc_keys no_keys)" by (simp add: published_def no_keys_def)
  from key_published [OF key calls_published [OF this]]
  have "published (resp # rev (map fst calls)) (gc_keys g')" by simp
  moreover have m: "map_of (gc_keys g') (jl_kid lib raw) = Some k" using key_answer [OF key] by simp
  ultimately obtain r age where "r \<in> set (resp # map fst calls)" "fetch_keys r = Inr (gc_keys g', age)"
    by (auto simp: published_def)
  then show ?thesis using m cl who by (intro exI conjI) (assumption | simp)+
qed

text \<open>Forged key ids cannot make the service hammer Google while its keys are good: within a minute of a
  fetch, and before the keys expire, no run of sign-ins asks Google again or changes the cache.\<close>

theorem google_throttled:
  assumes "\<forall>(resp, now, kid) \<in> set calls. now < gc_expires g \<and> now - gc_refetched g < minutes 1"
  shows "google_calls calls g = (g, 0)"
  using assms
proof (induction calls)
  case Nil
  then show ?case by simp
next
  case (Cons call calls)
  obtain resp now kid where call: "call = (resp, now, kid)" by (cases call)
  have "now < gc_expires g" "now - gc_refetched g < minutes 1" using Cons.prems call by auto
  then have "\<exists>r. google_key resp now kid g = (r, g, False)"
    by (auto simp: google_key_def split: option.splits bool.splits)
  then show ?case using Cons by (auto simp: call)
qed

text \<open>Once they have expired, and Google does not answer, every sign-in asks: the minute's rest needs
  an expiry in the future, and a failed fetch sets none.\<close>

lemma forged_kids_hammer: "gc_expires g \<le> now \<Longrightarrow> snd (google_calls (replicate n (None, now, kid)) g) = n"
proof (induction n arbitrary: g)
  case 0
  then show ?case by simp
next
  case (Suc n)
  have "google_key None now kid g = (Inl (Opaque ''google certs''), g\<lparr>gc_refetched := now\<rparr>, True)"
    using Suc.prems by (auto simp: google_key_def fetch_keys_def Let_def split: option.splits)
  then show ?case using Suc.IH [of "g\<lparr>gc_refetched := now\<rparr>"] Suc.prems by (auto split: prod.splits)
qed

section \<open>Sample sign-in\<close>

definition google_answer :: google_response where
  "google_answer = \<lparr>gr_keys = Some [\<lparr>gj_kid = ''k1'', gj_kty = ''RSA'', gj_n = ''Iw'', gj_e = ''Aw''\<rparr>], gr_status = 200,
     gr_cache_control = ''public, max-age=60''\<rparr>"

definition sample_jwt :: jwt_lib where
  "sample_jwt = \<lparr>jl_kid = (\<lambda>raw. ''k1''), jl_parse = (\<lambda>k raw client now. Inr \<lparr>go_issuer = ''accounts.google.com'',
     go_subject = ''118'', go_email = ''rina@example.com'', go_name = ''Rina'', go_email_verified = True\<rparr>)\<rparr>"

theorem google_vouches_witness:
  "\<exists>who g'. google_verify sample_jwt (Some google_answer) 5 ''token'' ''client'' no_keys = (Inr who, g') \<and> gi_subject who \<noteq> []"
proof -
  have "(case google_verify sample_jwt (Some google_answer) 5 ''token'' ''client'' no_keys of (Inl _, _) \<Rightarrow> False | (Inr _, _) \<Rightarrow> True)"
    by code_simp
  then obtain who g' where r: "google_verify sample_jwt (Some google_answer) 5 ''token'' ''client'' no_keys = (Inr who, g')"
    by (auto split: prod.splits sum.splits)
  then have "google_verify sample_jwt (Some google_answer) 5 ''token'' ''client'' (fst (google_calls [] no_keys)) = (Inr who, g')" by simp
  from google_vouches [OF this] r show ?thesis by blast
qed

theorem google_throttled_witness:
  "google_calls [(None, 10, ''forged''), (None, 11, ''forged'')] (no_keys\<lparr>gc_expires := 100\<rparr>) = (no_keys\<lparr>gc_expires := 100\<rparr>, 0)"
  by (rule google_throttled) (simp add: no_keys_def minutes_def seconds_def)

end
