(* ===== verification/Sessions.thy ===== *)
theory Sessions
  imports AuthQueries Tokens Passwords Google "HOL-Library.Code_Target_Nat"
begin

text \<open>
  Signing in, keeping a session alive and signing out (internal/auth/service.go, BR-020..BR-027), and
  the access token (token.go). What is outside is in \<open>auth_env\<close>: argon2id, SHA-256, the JWT library, the
  database's lower case; the random bytes drawn are arguments.\<close>

section \<open>Access tokens\<close>

record access_claims =
  ac_tenant :: uuid
  ac_role :: string
  ac_subject :: uuid
  ac_audience :: string
  ac_issued_at :: instant
  ac_expires_at :: instant

definition access_token_ttl :: int where
  "access_token_ttl = minutes 15"

definition refresh_token_ttl :: int where
  "refresh_token_ttl = hours (30 * 24)"

definition audience_admin :: string where "audience_admin = ''admin''"
definition audience_storefront :: string where "audience_storefront = ''storefront''"

text \<open>\<open>ev_sign\<close> signs claims; \<open>ev_parse\<close> is the library's parse of a token for one audience at one instant.\<close>

record auth_env =
  ev_sign :: "access_claims \<Rightarrow> err + string"
  ev_parse :: "string \<Rightarrow> string \<Rightarrow> instant \<Rightarrow> err + access_claims"
  ev_hash :: "string \<Rightarrow> string"
  ev_argon :: argon
  ev_lower :: "string \<Rightarrow> string"
  ev_fold :: "string \<Rightarrow> string"
  ev_admins :: "string set"
  ev_lib :: token_lib

definition access_claims_for :: "string \<Rightarrow> uuid \<Rightarrow> uuid \<Rightarrow> string \<Rightarrow> instant \<Rightarrow> access_claims" where
  "access_claims_for audience subject t role now = \<lparr>ac_tenant = t, ac_role = role, ac_subject = subject,
     ac_audience = audience, ac_issued_at = now, ac_expires_at = now + access_token_ttl\<rparr>"

definition signer_issue :: "auth_env \<Rightarrow> uuid \<Rightarrow> uuid \<Rightarrow> string \<Rightarrow> instant \<Rightarrow> err + string" where
  "signer_issue ev u t role now = ev_sign ev (access_claims_for audience_admin u t role now)"

definition signer_issue_customer :: "auth_env \<Rightarrow> uuid \<Rightarrow> uuid \<Rightarrow> instant \<Rightarrow> err + string" where
  "signer_issue_customer ev cu t now = ev_sign ev (access_claims_for audience_storefront cu t [] now)"

definition err_invalid_token :: err where
  "err_invalid_token = Sentinel ''invalid access token''"

definition signer_parse :: "auth_env \<Rightarrow> string \<Rightarrow> string \<Rightarrow> instant \<Rightarrow> err + access_claims" where
  "signer_parse ev audience raw now =
    (case ev_parse ev raw audience now of
      Inl _ \<Rightarrow> Inl err_invalid_token
    | Inr cl \<Rightarrow> if ac_tenant cl = nil_uuid then Inl err_invalid_token else Inr cl)"

section \<open>Sessions\<close>

record session =
  se_access_token :: string
  se_expires_in :: int
  se_refresh_token :: string
  se_user :: uuid
  se_user_name :: string
  se_role :: string
  se_permissions :: "string list"
  se_platform_admin :: bool
  se_tenant :: uuid
  se_tenant_name :: string
  se_timezone :: string

definition err_unauthenticated :: err where "err_unauthenticated = Sentinel ''unauthenticated''"
definition err_invalid_code :: err where "err_invalid_code = Sentinel ''invalid code''"
definition err_no_account :: err where "err_no_account = Sentinel ''no account for this google email''"
definition err_invalid_invite :: err where "err_invalid_invite = Sentinel ''invalid invitation''"
definition err_invalid_reset :: err where "err_invalid_reset = Sentinel ''invalid password reset''"

text \<open>The random refresh token and the new row's id.\<close>

record fresh =
  fr_token :: string
  fr_id :: uuid

text \<open>What a finished check lets \<open>issue\<close> do: for whom, in which role, and rotated from which token.\<close>

record permit =
  pm_tenant :: uuid
  pm_user :: uuid
  pm_role :: string
  pm_from :: "uuid option"

definition token_params :: "auth_env \<Rightarrow> fresh \<Rightarrow> instant \<Rightarrow> permit \<Rightarrow> create_token_params" where
  "token_params ev fr now pm = \<lparr>ct_id = fr_id fr, ct_tenant = pm_tenant pm, ct_user = pm_user pm,
     ct_token_hash = ev_hash ev (fr_token fr), ct_rotated_from = pm_from pm, ct_expires_at = now + refresh_token_ttl\<rparr>"

definition issue_tx :: "auth_env \<Rightarrow> fresh \<Rightarrow> ctx \<Rightarrow> permit \<Rightarrow> string \<Rightarrow> session stmt" where
  "issue_tx ev fr c pm access =
    thenT (create_refresh_token c (token_params ev fr (c_clock c) pm))
    (thenT (whenT (pm_from pm = None) (touch_last_login c (pm_user pm)))
    (bindT (get_session c (pm_user pm)) (\<lambda>row.
     retT \<lparr>se_access_token = access, se_expires_in = access_token_ttl div seconds 1, se_refresh_token = fr_token fr,
       se_user = sw_user row, se_user_name = sw_user_name row, se_role = sw_role row,
       se_permissions = permissions_for (sw_role row),
       se_platform_admin = platform_has (ev_lower ev) (ev_admins ev) (sw_email row),
       se_tenant = sw_tenant row, se_tenant_name = sw_tenant_name row, se_timezone = sw_timezone row\<rparr>)))"

definition issue :: "auth_env \<Rightarrow> fresh \<Rightarrow> ctx \<Rightarrow> permit \<Rightarrow> db \<Rightarrow> (err + session) \<times> db" where
  "issue ev fr c pm s =
    (case signer_issue ev (pm_user pm) (pm_tenant pm) (pm_role pm) (c_clock c) of
      Inl e \<Rightarrow> (Inl e, s)
    | Inr access \<Rightarrow> in_tenant_tx (with_tenant (pm_tenant pm) c) (issue_tx ev fr (with_tenant (pm_tenant pm) c) pm access) s)"

section \<open>Login\<close>

definition login_check :: "auth_env \<Rightarrow> string \<Rightarrow> string \<Rightarrow> db \<Rightarrow> err + permit" where
  "login_check ev email password s =
    (case lookup_user (ev_fold ev) email s of
      Inl e \<Rightarrow> if err_is e LookupNotFound then Inl err_unauthenticated else Inl e
    | Inr u \<Rightarrow>
        (case lu_password_hash u of
           None \<Rightarrow> Inl err_unauthenticated
         | Some hash \<Rightarrow>
             (case verify_password (ev_argon ev) hash password of
                Inl _ \<Rightarrow> Inl err_unauthenticated
              | Inr _ \<Rightarrow>
                  if lu_status u \<noteq> S_active then Inl err_unauthenticated
                  else Inr \<lparr>pm_tenant = lu_tenant u, pm_user = lu_id u, pm_role = lu_role u, pm_from = None\<rparr>)))"

definition login :: "auth_env \<Rightarrow> fresh \<Rightarrow> ctx \<Rightarrow> string \<Rightarrow> string \<Rightarrow> db \<Rightarrow> (err + session) \<times> db" where
  "login ev fr c email password s =
    (case login_check ev email password s of Inl e \<Rightarrow> (Inl e, s) | Inr pm \<Rightarrow> issue ev fr c pm s)"

section \<open>Refresh and logout\<close>

text \<open>A revoked token presented again: theft when it has a successor, a stale copy when not.\<close>

definition replay_tx :: "ctx \<Rightarrow> auth_token \<Rightarrow> unit stmt" where
  "replay_tx c tok =
    bindT (has_successor c (lr_id tok)) (\<lambda>superseded.
    if \<not> superseded then retT () else bindT (revoke_all_user_tokens c (lr_user tok)) (\<lambda>_. retT ()))"

definition rotate_tx :: "ctx \<Rightarrow> auth_token \<Rightarrow> permit stmt" where
  "rotate_tx c tok =
    bindT (revoke_refresh_token c (lr_id tok)) (\<lambda>n.
    if n = 0 then failT err_unauthenticated
    else bindT (get_session c (lr_user tok)) (\<lambda>row.
      retT \<lparr>pm_tenant = lr_tenant tok, pm_user = lr_user tok, pm_role = sw_role row, pm_from = Some (lr_id tok)\<rparr>))"

definition refresh_check :: "auth_env \<Rightarrow> ctx \<Rightarrow> string \<Rightarrow> db \<Rightarrow> (err + permit) \<times> db" where
  "refresh_check ev c presented s =
    (case lookup_refresh_token (ev_hash ev presented) s of
      Inl e \<Rightarrow> (Inl (if err_is e LookupNotFound then err_unauthenticated else e), s)
    | Inr tok \<Rightarrow>
        let tc = with_tenant (lr_tenant tok) c in
        if lr_revoked_at tok \<noteq> None
        then (case in_tenant_tx tc (replay_tx tc tok) s of
                (Inl e, s') \<Rightarrow> (Inl (Wrapped ''handle revoked refresh token: '' e), s')
              | (Inr _, s') \<Rightarrow> (Inl err_unauthenticated, s'))
        else if lr_expires_at tok < c_clock c then (Inl err_unauthenticated, s)
        else in_tenant_tx tc (rotate_tx tc tok) s)"

definition refresh :: "auth_env \<Rightarrow> fresh \<Rightarrow> ctx \<Rightarrow> string \<Rightarrow> db \<Rightarrow> (err + session) \<times> db" where
  "refresh ev fr c presented s =
    (case refresh_check ev c presented s of (Inl e, s') \<Rightarrow> (Inl e, s') | (Inr pm, s') \<Rightarrow> issue ev fr c pm s')"

definition logout :: "auth_env \<Rightarrow> ctx \<Rightarrow> string \<Rightarrow> db \<Rightarrow> (err + unit) \<times> db" where
  "logout ev c presented s =
    (if presented = [] then (Inr (), s)
     else (case lookup_refresh_token (ev_hash ev presented) s of
        Inl _ \<Rightarrow> (Inr (), s)
      | Inr tok \<Rightarrow>
          let tc = with_tenant (lr_tenant tok) c in
          in_tenant_tx tc (bindT (revoke_refresh_token tc (lr_id tok)) (\<lambda>_. retT ())) s))"

section \<open>Invitations, resets, codes and Google\<close>

definition acting_for :: "uuid \<Rightarrow> uuid \<Rightarrow> ctx \<Rightarrow> ctx" where
  "acting_for t u c = with_actor u (with_tenant t c)"

definition accept_audit :: "uuid \<Rightarrow> dyn \<Rightarrow> audit_entry" where
  "accept_audit u doc = \<lparr>ae_action = ''user.accept_invite'', ae_subject_type = ''user'', ae_subject_id = DId u,
     ae_before = None, ae_after = Some doc\<rparr>"

definition accept_tx :: "ctx \<Rightarrow> uuid \<Rightarrow> string \<Rightarrow> permit stmt" where
  "accept_tx c u hash =
    bindT (mapErrT (\<lambda>e. if err_is e NoRows then err_invalid_invite else e) (accept_invitation c u (Some hash))) (\<lambda>r.
    thenT (audit c (accept_audit (us_id r) (DObj [(''status'', DStr (us_status r))])))
     (retT \<lparr>pm_tenant = tenant_of c, pm_user = u, pm_role = us_role r, pm_from = None\<rparr>))"

definition accept_invite :: "auth_env \<Rightarrow> fresh \<Rightarrow> string \<Rightarrow> ctx \<Rightarrow> string \<Rightarrow> string \<Rightarrow> db \<Rightarrow> (err + session) \<times> db" where
  "accept_invite ev fr salt c token password s =
    (case invite_parse (ev_lib ev) token (c_clock c) of
      None \<Rightarrow> (Inl err_invalid_invite, s)
    | Some (u, t, _) \<Rightarrow>
        (case in_tenant_tx (acting_for t u c) (accept_tx (acting_for t u c) u (hash_password (ev_argon ev) salt password)) s of
           (Inl e, s') \<Rightarrow> (Inl e, s')
         | (Inr pm, s') \<Rightarrow> issue ev fr c pm s'))"

definition reset_tx :: "auth_env \<Rightarrow> ctx \<Rightarrow> string \<Rightarrow> uuid \<Rightarrow> string \<Rightarrow> permit stmt" where
  "reset_tx ev c token u hash =
    bindT (mapErrT (\<lambda>e. if err_is e NoRows then err_invalid_reset else e) (get_user c u)) (\<lambda>r.
    if \<not> reset_verify (ev_lib ev) staff_label token (us_password_hash r) then failT err_invalid_reset
    else bindT (set_user_password c (us_id r) (Some hash) (us_password_hash r)) (\<lambda>n.
      if n = 0 then failT err_invalid_reset
      else bindT (revoke_all_user_tokens c (us_id r)) (\<lambda>_.
        thenT (audit c \<lparr>ae_action = ''user.password_reset'', ae_subject_type = ''user'', ae_subject_id = DId (us_id r),
                 ae_before = None, ae_after = None\<rparr>)
         (retT \<lparr>pm_tenant = tenant_of c, pm_user = u, pm_role = us_role r, pm_from = None\<rparr>))))"

definition reset_password :: "auth_env \<Rightarrow> fresh \<Rightarrow> string \<Rightarrow> ctx \<Rightarrow> string \<Rightarrow> string \<Rightarrow> db \<Rightarrow> (err + session) \<times> db" where
  "reset_password ev fr salt c token password s =
    (case reset_parse (ev_lib ev) token (c_clock c) of
      None \<Rightarrow> (Inl err_invalid_reset, s)
    | Some (u, t, _) \<Rightarrow>
        (case in_tenant_tx (acting_for t u c) (reset_tx ev (acting_for t u c) token u (hash_password (ev_argon ev) salt password)) s of
           (Inl e, s') \<Rightarrow> (Inl e, s')
         | (Inr pm, s') \<Rightarrow> issue ev fr c pm s'))"

definition verify_code :: "auth_env \<Rightarrow> ctx \<Rightarrow> string \<Rightarrow> string \<Rightarrow> db \<Rightarrow> err + string" where
  "verify_code ev c email x s =
    (case lookup_user (ev_fold ev) email s of
      Inl e \<Rightarrow> if err_is e LookupNotFound then Inl err_invalid_code else Inl e
    | Inr u \<Rightarrow>
        if lu_status u \<noteq> S_invited \<or> lu_password_hash u \<noteq> None \<or>
           \<not> check_code (ev_lib ev) (lu_id u) (lu_tenant u) x (c_clock c)
        then Inl err_invalid_code
        else Inr (invite_mint (ev_lib ev) (lu_id u) (lu_tenant u) (c_clock c)))"

definition google_accept_tx :: "ctx \<Rightarrow> uuid \<Rightarrow> unit stmt" where
  "google_accept_tx c u =
    bindT (mapErrT (\<lambda>e. if err_is e NoRows then err_unauthenticated else e) (activate_invited c u)) (\<lambda>r.
     audit c (accept_audit (us_id r) (DObj [(''status'', DStr (us_status r)), (''via'', DStr ''google'')])))"

text \<open>\<open>who\<close> is what \<open>google_verify\<close> answered.\<close>

definition google_sign_in :: "auth_env \<Rightarrow> fresh \<Rightarrow> ctx \<Rightarrow> err + google_identity \<Rightarrow> db \<Rightarrow> (err + session) \<times> db" where
  "google_sign_in ev fr c who s =
    (case who of
      Inl _ \<Rightarrow> (Inl err_unauthenticated, s)
    | Inr g \<Rightarrow>
        (case lookup_user (ev_fold ev) (gi_email g) s of
           Inl e \<Rightarrow> (Inl (if err_is e LookupNotFound then err_no_account else e), s)
         | Inr u \<Rightarrow>
             let pm = \<lparr>pm_tenant = lu_tenant u, pm_user = lu_id u, pm_role = lu_role u, pm_from = None\<rparr> in
             if lu_status u = S_active then issue ev fr c pm s
             else if lu_status u = S_invited
             then (let tc = acting_for (lu_tenant u) (lu_id u) c in
                   case in_tenant_tx tc (google_accept_tx tc (lu_id u)) s of
                     (Inl e, s') \<Rightarrow> (Inl e, s')
                   | (Inr _, s') \<Rightarrow> issue ev fr c pm s')
             else (Inl err_unauthenticated, s)))"

definition session_for :: "auth_env \<Rightarrow> fresh \<Rightarrow> ctx \<Rightarrow> uuid \<Rightarrow> uuid \<Rightarrow> string \<Rightarrow> db \<Rightarrow> (err + session) \<times> db" where
  "session_for ev fr c t u role s = issue ev fr c \<lparr>pm_tenant = t, pm_user = u, pm_role = role, pm_from = None\<rparr> s"

section \<open>The statements, step by step\<close>

lemma create_refresh_token_Inr: "create_refresh_token c p s = Inr (x, s') \<longleftrightarrow>
    ct_tenant p = tenant_of c \<and> ct_id p \<notin> rt_id ` set (refresh_tokens s) \<and>
    ct_token_hash p \<notin> rt_token_hash ` set (refresh_tokens s) \<and> ct_user p \<in> us_id ` set (users s) \<and>
    (\<forall>f. ct_rotated_from p = Some f \<longrightarrow> f \<in> rt_id ` set (refresh_tokens s)) \<and>
    s' = s\<lparr>refresh_tokens := refresh_tokens s @ [new_token c p]\<rparr>"
  by (auto simp: create_refresh_token_def tx_inr split: option.splits)

definition touched :: "ctx \<Rightarrow> permit \<Rightarrow> db \<Rightarrow> db" where
  "touched c pm s = (if pm_from pm = None then upd_user (tenant_of c) (pm_user pm) (\<lambda>r. r\<lparr>us_last_login_at := Some (c_now c)\<rparr>) s else s)"

lemma touched_tokens [simp]: "refresh_tokens (touched c pm s) = refresh_tokens s"
  by (simp add: touched_def)

definition session_of :: "auth_env \<Rightarrow> string \<Rightarrow> string \<Rightarrow> session_row \<Rightarrow> session" where
  "session_of ev access token row = \<lparr>se_access_token = access, se_expires_in = access_token_ttl div seconds 1, se_refresh_token = token,
     se_user = sw_user row, se_user_name = sw_user_name row, se_role = sw_role row, se_permissions = permissions_for (sw_role row),
     se_platform_admin = platform_has (ev_lower ev) (ev_admins ev) (sw_email row),
     se_tenant = sw_tenant row, se_tenant_name = sw_tenant_name row, se_timezone = sw_timezone row\<rparr>"

lemma session_row_user: "session_row_of t u s = Some row \<longleftrightarrow> (\<exists>r x. get_user_row t u s = Some r \<and>
    find (\<lambda>y. tn_id y = us_tenant r) (tenants s) = Some x \<and>
    row = \<lparr>sw_user = us_id r, sw_user_name = us_name r, sw_email = us_email r, sw_role = us_role r,
      sw_tenant = tn_id x, sw_tenant_name = tn_name x, sw_timezone = tn_timezone x\<rparr>)"
  by (auto simp: session_row_of_def split: option.splits)

lemma issue_tx_Inr: "issue_tx ev fr c pm access s = Inr (se, s') \<longleftrightarrow>
    (\<exists>row s1. create_refresh_token c (token_params ev fr (c_clock c) pm) s = Inr ((), s1) \<and> s' = touched c pm s1 \<and>
      session_row_of (tenant_of c) (pm_user pm) s' = Some row \<and> se = session_of ev access (fr_token fr) row)"
  by (auto simp: issue_tx_def tx_inr get_session_def touch_last_login_def touched_def whenT_def session_of_def)

lemma ctx_simps [simp]: "c_tenant (with_tenant t c) = Some t" "tenant_of (with_tenant t c) = t" "c_now (with_tenant t c) = c_now c"
  "c_clock (with_tenant t c) = c_clock c" "c_tenant (acting_for t u c) = Some t" "tenant_of (acting_for t u c) = t"
  "c_now (acting_for t u c) = c_now c" "c_clock (acting_for t u c) = c_clock c"
  by (simp_all add: with_tenant_def acting_for_def with_actor_def tenant_of_def)

lemma issue_Inr: "issue ev fr c pm s = (Inr se, s') \<longleftrightarrow>
    (\<exists>access. signer_issue ev (pm_user pm) (pm_tenant pm) (pm_role pm) (c_clock c) = Inr access \<and>
      issue_tx ev fr (with_tenant (pm_tenant pm) c) pm access s = Inr (se, s'))"
  by (auto simp: issue_def in_tenant_tx_Inr split: sum.splits)

text \<open>The row an issued refresh token is, and what issuing leaves.\<close>

definition issued_row :: "auth_env \<Rightarrow> fresh \<Rightarrow> ctx \<Rightarrow> permit \<Rightarrow> refresh_token" where
  "issued_row ev fr c pm = \<lparr>rt_id = fr_id fr, rt_tenant = pm_tenant pm, rt_user = pm_user pm,
     rt_token_hash = ev_hash ev (fr_token fr), rt_rotated_from = pm_from pm, rt_expires_at = c_clock c + refresh_token_ttl,
     rt_revoked_at = None, rt_created_at = c_now c\<rparr>"

lemma issue_adds:
  assumes "issue ev fr c pm s = (Inr se, s')"
  shows "refresh_tokens s' = refresh_tokens s @ [issued_row ev fr c pm] \<and> fr_id fr \<notin> rt_id ` set (refresh_tokens s) \<and>
    ev_hash ev (fr_token fr) \<notin> rt_token_hash ` set (refresh_tokens s) \<and> se_refresh_token se = fr_token fr \<and>
    (\<exists>r. get_user_row (pm_tenant pm) (pm_user pm) s' = Some r \<and> se_user se = us_id r \<and> se_role se = us_role r \<and>
      se_permissions se = permissions_for (us_role r)) \<and> se_tenant se = pm_tenant pm"
proof -
  let ?c = "with_tenant (pm_tenant pm) c"
  obtain access row s1 where cr: "create_refresh_token ?c (token_params ev fr (c_clock ?c) pm) s = Inr ((), s1)"
    and s': "s' = touched ?c pm s1" and row: "session_row_of (tenant_of ?c) (pm_user pm) s' = Some row"
    and se: "se = session_of ev access (fr_token fr) row"
    using assms unfolding issue_Inr issue_tx_Inr by blast
  from row obtain r x where r: "get_user_row (pm_tenant pm) (pm_user pm) s' = Some r"
    and x: "find (\<lambda>y. tn_id y = us_tenant r) (tenants s') = Some x"
    and rw: "row = \<lparr>sw_user = us_id r, sw_user_name = us_name r, sw_email = us_email r, sw_role = us_role r,
      sw_tenant = tn_id x, sw_tenant_name = tn_name x, sw_timezone = tn_timezone x\<rparr>"
    unfolding session_row_user by (auto simp: with_tenant_def tenant_of_def)
  have "tn_id x = pm_tenant pm" using x get_user_Some [OF r] by (auto simp: find_Some_iff)
  then show ?thesis
    using cr s' r se rw
    by (auto simp: create_refresh_token_Inr token_params_def new_token_def issued_row_def session_of_def with_tenant_def)
qed

section \<open>Signing in\<close>

definition signs_in :: "auth_env \<Rightarrow> string \<Rightarrow> string \<Rightarrow> db \<Rightarrow> user option" where
  "signs_in ev email password s =
    (case find (\<lambda>u. ev_fold ev (us_email u) = ev_fold ev email) (users s) of
      None \<Rightarrow> None
    | Some u \<Rightarrow> (case us_password_hash u of None \<Rightarrow> None
        | Some h \<Rightarrow> if verify_password (ev_argon ev) h password = Inr () \<and> us_status u = S_active then Some u else None))"

lemma login_check_eq: "login_check ev email password s =
    (case signs_in ev email password s of
      None \<Rightarrow> Inl err_unauthenticated
    | Some u \<Rightarrow> Inr \<lparr>pm_tenant = us_tenant u, pm_user = us_id u, pm_role = us_role u, pm_from = None\<rparr>)"
  by (auto simp: login_check_def signs_in_def lookup_user_def split: option.splits sum.splits)

text \<open>A failed sign-in tells nothing (BR-021): an unknown email, an account without a password, a wrong
  password, an invited and a disabled account all get the one same error, and nothing is written.\<close>

theorem login_uniform:
  assumes "signs_in ev email password s = None"
  shows "login ev fr c email password s = (Inl err_unauthenticated, s)"
  using assms by (simp add: login_def login_check_eq)

text \<open>A sign-in opens one session (BR-020, BR-022): it succeeds only for the active user the email names,
  with their password; it adds one live refresh token of theirs for thirty days and changes no
  other token; and the session carries that user's role and exactly its permissions.\<close>

theorem login_opens_session:
  assumes "login ev fr c email password s = (Inr se, s')"
  shows "\<exists>u h. u \<in> set (users s) \<and> ev_fold ev (us_email u) = ev_fold ev email \<and> us_status u = S_active \<and>
    us_password_hash u = Some h \<and> verify_password (ev_argon ev) h password = Inr () \<and>
    refresh_tokens s' = refresh_tokens s @ [\<lparr>rt_id = fr_id fr, rt_tenant = us_tenant u, rt_user = us_id u,
      rt_token_hash = ev_hash ev (se_refresh_token se), rt_rotated_from = None, rt_expires_at = c_clock c + hours (30 * 24),
      rt_revoked_at = None, rt_created_at = c_now c\<rparr>] \<and>
    se_user se = us_id u \<and> se_tenant se = us_tenant u \<and> set (se_permissions se) = {p. can (se_role se) p}"
proof -
  obtain u where u: "signs_in ev email password s = Some u"
    and iss: "issue ev fr c \<lparr>pm_tenant = us_tenant u, pm_user = us_id u, pm_role = us_role u, pm_from = None\<rparr> s = (Inr se, s')"
    using assms unfolding login_def login_check_eq by (auto split: option.splits)
  have who: "u \<in> set (users s)" "ev_fold ev (us_email u) = ev_fold ev email" "us_status u = S_active"
    "\<exists>h. us_password_hash u = Some h \<and> verify_password (ev_argon ev) h password = Inr ()"
    using u by (auto simp: signs_in_def find_Some_iff split: option.splits if_splits)
  have perms: "set (permissions_for r) = {p. can r p}" for r
    by (auto simp: permissions_for_def can_def split: option.splits)
  show ?thesis
    using who issue_adds [OF iss] perms get_user_Some by (fastforce simp: issued_row_def refresh_token_ttl_def)
qed

section \<open>Refreshing\<close>

lemma has_successor_Inr: "has_successor c f s = Inr (b, s') \<longleftrightarrow> s' = s \<and>
    (b \<longleftrightarrow> (\<exists>r \<in> set (refresh_tokens s). rt_tenant r = tenant_of c \<and> rt_rotated_from r = Some f))"
  by (auto simp: has_successor_def list_ex_iff)

lemma revoked_user_dead: "q \<in> set (refresh_tokens (revoked_rows c (\<lambda>q. rt_user q = u) s)) \<Longrightarrow> rt_tenant q = tenant_of c \<Longrightarrow>
    rt_user q = u \<Longrightarrow> rt_revoked_at q \<noteq> None"
proof -
  assume q: "q \<in> set (refresh_tokens (revoked_rows c (\<lambda>q. rt_user q = u) s))" "rt_tenant q = tenant_of c" "rt_user q = u"
  from q(1) have "q \<in> (\<lambda>r. if rt_tenant r = tenant_of c \<and> rt_user r = u \<and> rt_revoked_at r = None
      then r\<lparr>rt_revoked_at := Some (c_now c)\<rparr> else r) ` set (refresh_tokens s)"
    by (simp add: revoked_rows_def)
  then obtain q0 where q0: "q = (if rt_tenant q0 = tenant_of c \<and> rt_user q0 = u \<and> rt_revoked_at q0 = None
      then q0\<lparr>rt_revoked_at := Some (c_now c)\<rparr> else q0)"
    by (rule imageE)
  show ?thesis
  proof (cases "rt_tenant q0 = tenant_of c \<and> rt_user q0 = u \<and> rt_revoked_at q0 = None")
    case True
    from q0 [unfolded if_P [OF this]] show ?thesis by simp
  next
    case False
    from q0 [unfolded if_not_P [OF this]] show ?thesis using False q(2,3) by simp
  qed
qed

lemma replay_tx_Inr: "replay_tx c tok s = Inr (x, s') \<longleftrightarrow>
    s' = (if \<exists>r \<in> set (refresh_tokens s). rt_tenant r = tenant_of c \<and> rt_rotated_from r = Some (lr_id tok)
          then revoked_rows c (\<lambda>r. rt_user r = lr_user tok) s else s)"
  by (auto simp: replay_tx_def bindT_Inr has_successor_Inr revoke_all_user_tokens_def revoke_Inr)

lemma rotate_tx_Inr: "rotate_tx c tok s = Inr (pm, s') \<longleftrightarrow>
    (\<exists>r \<in> set (refresh_tokens s). rt_tenant r = tenant_of c \<and> rt_id r = lr_id tok \<and> rt_revoked_at r = None) \<and>
    s' = revoked_rows c (\<lambda>r. rt_id r = lr_id tok) s \<and>
    (\<exists>row. session_row_of (tenant_of c) (lr_user tok) s = Some row \<and>
      pm = \<lparr>pm_tenant = lr_tenant tok, pm_user = lr_user tok, pm_role = sw_role row, pm_from = Some (lr_id tok)\<rparr>)"
proof -
  have same: "session_row_of t u (revoked_rows c p s) = session_row_of t u s" for t u p
    by (simp add: session_row_of_def get_user_row_def cong: option.case_cong)
  show ?thesis
    unfolding rotate_tx_def bindT_Inr revoke_refresh_token_def revoke_Inr
    by (auto simp: get_session_def same bindT_Inr filter_empty_conv split: if_splits)
qed

lemma lookup_token_Inr: "lookup_refresh_token h s = Inr tok \<longleftrightarrow>
    (\<exists>r. find (\<lambda>r. rt_token_hash r = h) (refresh_tokens s) = Some r \<and> tok = auth_token_of r)"
  by (auto simp: lookup_refresh_token_def split: option.splits)

lemma auth_token_simps [simp]: "lr_id (auth_token_of r) = rt_id r" "lr_tenant (auth_token_of r) = rt_tenant r"
  "lr_user (auth_token_of r) = rt_user r" "lr_expires_at (auth_token_of r) = rt_expires_at r" "lr_revoked_at (auth_token_of r) = rt_revoked_at r"
  by (simp_all add: auth_token_of_def)

definition presented_row :: "auth_env \<Rightarrow> string \<Rightarrow> db \<Rightarrow> refresh_token option" where
  "presented_row ev presented s = find (\<lambda>r. rt_token_hash r = ev_hash ev presented) (refresh_tokens s)"

lemma refresh_check_cases:
  "refresh_check ev c presented s = (case presented_row ev presented s of
     None \<Rightarrow> (Inl err_unauthenticated, s)
   | Some r \<Rightarrow>
       if rt_revoked_at r \<noteq> None
       then (Inl err_unauthenticated,
         if \<exists>q \<in> set (refresh_tokens s). rt_tenant q = rt_tenant r \<and> rt_rotated_from q = Some (rt_id r)
         then revoked_rows (with_tenant (rt_tenant r) c) (\<lambda>q. rt_user q = rt_user r) s else s)
       else if rt_expires_at r < c_clock c then (Inl err_unauthenticated, s)
       else in_tenant_tx (with_tenant (rt_tenant r) c) (rotate_tx (with_tenant (rt_tenant r) c) (auth_token_of r)) s)"
proof -
  have replay: "in_tenant_tx tc (replay_tx tc tok) s = (Inr (), if \<exists>r \<in> set (refresh_tokens s). rt_tenant r = tenant_of tc \<and>
      rt_rotated_from r = Some (lr_id tok) then revoked_rows tc (\<lambda>r. rt_user r = lr_user tok) s else s)"
    if "c_tenant tc = Some t" for tc tok t
    using that by (simp add: in_tenant_tx_Inr replay_tx_Inr)
  show ?thesis
    by (auto simp: refresh_check_def presented_row_def lookup_refresh_token_def Let_def replay [OF ctx_simps(1)] split: option.splits sum.splits)
qed

text \<open>C26. Presenting a token that was already rotated ends every session of its user (BR-022), on every device:
  the request is refused, no token of theirs is live afterwards, no other token changes; a token
  that was only signed out is refused and touches nothing.\<close>

theorem stolen_token_ends_sessions:
  assumes "presented_row ev presented s = Some r" and "rt_revoked_at r \<noteq> None"
  shows "case refresh ev fr c presented s of (res, s') \<Rightarrow> res = Inl err_unauthenticated \<and>
    (if \<exists>q \<in> set (refresh_tokens s). rt_tenant q = rt_tenant r \<and> rt_rotated_from q = Some (rt_id r)
     then (\<forall>q \<in> set (refresh_tokens s'). rt_tenant q = rt_tenant r \<longrightarrow> rt_user q = rt_user r \<longrightarrow> rt_revoked_at q \<noteq> None) \<and>
       filter (\<lambda>q. rt_tenant q \<noteq> rt_tenant r \<or> rt_user q \<noteq> rt_user r) (refresh_tokens s') =
       filter (\<lambda>q. rt_tenant q \<noteq> rt_tenant r \<or> rt_user q \<noteq> rt_user r) (refresh_tokens s)
     else s' = s)"
proof -
  let ?c = "with_tenant (rt_tenant r) c" and ?p = "\<lambda>q. rt_user q = rt_user r"
  have all: "rt_revoked_at q \<noteq> None" if "q \<in> set (refresh_tokens (revoked_rows ?c ?p s))" "rt_tenant q = rt_tenant r" "rt_user q = rt_user r" for q
    using revoked_user_dead [OF that(1)] that(2,3) by simp
  have rest: "filter (\<lambda>q. rt_tenant q \<noteq> rt_tenant r \<or> rt_user q \<noteq> rt_user r) (map (\<lambda>q. if rt_tenant q = rt_tenant r \<and>
      rt_user q = rt_user r \<and> rt_revoked_at q = None then q\<lparr>rt_revoked_at := n\<rparr> else q) xs) =
    filter (\<lambda>q. rt_tenant q \<noteq> rt_tenant r \<or> rt_user q \<noteq> rt_user r) xs" for xs n
    by (induction xs) auto
  show ?thesis
  proof (cases "\<exists>q \<in> set (refresh_tokens s). rt_tenant q = rt_tenant r \<and> rt_rotated_from q = Some (rt_id r)")
    case True
    then have "refresh ev fr c presented s = (Inl err_unauthenticated, revoked_rows ?c ?p s)"
      using assms by (simp add: refresh_def refresh_check_cases)
    moreover have "filter (\<lambda>q. rt_tenant q \<noteq> rt_tenant r \<or> rt_user q \<noteq> rt_user r) (refresh_tokens (revoked_rows ?c ?p s)) =
        filter (\<lambda>q. rt_tenant q \<noteq> rt_tenant r \<or> rt_user q \<noteq> rt_user r) (refresh_tokens s)"
      using rest by (simp add: revoked_rows_def)
    ultimately show ?thesis using True all by simp
  next
    case False
    then have "refresh ev fr c presented s = (Inl err_unauthenticated, s)"
      using assms by (auto simp: refresh_def refresh_check_cases)
    then show ?thesis using False by auto
  qed
qed

text \<open>A refresh rotates (BR-022): it succeeds only with a token that is live and not expired, which it
  revokes, and adds exactly one live token, of the same user and shop, recorded as its successor; every other
  token stays as it was.\<close>

theorem refresh_rotates:
  assumes "refresh ev fr c presented s = (Inr se, s')" and "distinct (map rt_id (refresh_tokens s))"
  shows "\<exists>r. presented_row ev presented s = Some r \<and> rt_revoked_at r = None \<and> c_clock c \<le> rt_expires_at r \<and>
    refresh_tokens s' = map (\<lambda>q. if q = r then q\<lparr>rt_revoked_at := Some (c_now c)\<rparr> else q) (refresh_tokens s) @
      [\<lparr>rt_id = fr_id fr, rt_tenant = rt_tenant r, rt_user = rt_user r, rt_token_hash = ev_hash ev (se_refresh_token se),
        rt_rotated_from = Some (rt_id r), rt_expires_at = c_clock c + hours (30 * 24), rt_revoked_at = None, rt_created_at = c_now c\<rparr>] \<and>
    se_user se = rt_user r \<and> se_tenant se = rt_tenant r"
proof -
  obtain pm s1 where chk: "refresh_check ev c presented s = (Inr pm, s1)" and iss: "issue ev fr c pm s1 = (Inr se, s')"
    using assms(1) by (auto simp: refresh_def split: prod.splits sum.splits)
  from chk obtain r where r: "presented_row ev presented s = Some r" "rt_revoked_at r = None" "\<not> rt_expires_at r < c_clock c"
    and tx: "rotate_tx (with_tenant (rt_tenant r) c) (auth_token_of r) s = Inr (pm, s1)"
    unfolding refresh_check_cases by (auto simp: in_tenant_tx_Inr split: option.splits if_splits)
  have mem: "r \<in> set (refresh_tokens s)" using r(1) by (auto simp: presented_row_def find_Some_iff)
  have pm: "pm_tenant pm = rt_tenant r" "pm_user pm = rt_user r" "pm_from pm = Some (rt_id r)"
    and s1: "s1 = revoked_rows (with_tenant (rt_tenant r) c) (\<lambda>q. rt_id q = rt_id r) s"
    using tx by (auto simp: rotate_tx_Inr)
  have one: "q = r" if "q \<in> set (refresh_tokens s)" "rt_id q = rt_id r" for q
    using that mem assms(2) by (auto simp: distinct_map dest: inj_onD)
  have rows: "refresh_tokens s1 = map (\<lambda>q. if q = r then q\<lparr>rt_revoked_at := Some (c_now c)\<rparr> else q) (refresh_tokens s)"
    unfolding s1 revoked_rows_def using one r(2) by (auto intro!: map_cong)
  obtain u where u: "get_user_row (pm_tenant pm) (pm_user pm) s' = Some u" "se_user se = us_id u"
    using issue_adds [OF iss] by blast
  then have "se_user se = rt_user r" using get_user_Some [OF u(1)] pm(2) by simp
  then show ?thesis
    using issue_adds [OF iss] r rows pm by (auto simp: issued_row_def refresh_token_ttl_def)
qed

section \<open>Resets and invitations\<close>

lemma set_user_password_Inr: "set_user_password c u new old s = Inr (n, s') \<Longrightarrow> n \<noteq> 0 \<Longrightarrow>
    \<exists>r. get_user_row (tenant_of c) u s = Some r \<and> us_status r = S_active \<and> us_password_hash r = old \<and>
      s' = upd_user (tenant_of c) u (\<lambda>r. r\<lparr>us_password_hash := new\<rparr>) s"
  by (auto simp: set_user_password_def split: option.splits if_splits)

lemma reset_tx_Inr:
  assumes "reset_tx ev c token u hash s = Inr (pm, s')"
  shows "\<exists>r. get_user_row (tenant_of c) u s = Some r \<and> us_status r = S_active \<and>
    reset_verify (ev_lib ev) staff_label token (us_password_hash r) \<and>
    users s' = users (upd_user (tenant_of c) u (\<lambda>r. r\<lparr>us_password_hash := Some hash\<rparr>) s) \<and>
    refresh_tokens s' = refresh_tokens (revoked_rows c (\<lambda>r. rt_user r = u) s) \<and>
    pm = \<lparr>pm_tenant = tenant_of c, pm_user = u, pm_role = us_role r, pm_from = None\<rparr>"
proof -
  obtain r n s1 s2 where r: "get_user_row (tenant_of c) u s = Some r" "reset_verify (ev_lib ev) staff_label token (us_password_hash r)"
    and set: "set_user_password c (us_id r) (Some hash) (us_password_hash r) s = Inr (n, s1)" "n \<noteq> 0"
    and s2: "s2 = revoked_rows c (\<lambda>q. rt_user q = us_id r) s1"
    and rest: "users s' = users s2" "refresh_tokens s' = refresh_tokens s2"
      "pm = \<lparr>pm_tenant = tenant_of c, pm_user = u, pm_role = us_role r, pm_from = None\<rparr>"
    using assms unfolding reset_tx_def
    by (auto simp: bindT_Inr get_user_def revoke_all_user_tokens_def revoke_Inr thenT_Inr split: if_splits)
  have id: "us_id r = u" using get_user_Some [OF r(1)] by simp
  have s1: "us_status r = S_active" "s1 = upd_user (tenant_of c) u (\<lambda>r. r\<lparr>us_password_hash := Some hash\<rparr>) s"
    using set_user_password_Inr [OF set] r(1) id by auto
  have "refresh_tokens s2 = refresh_tokens (revoked_rows c (\<lambda>q. rt_user q = u) s)"
    by (simp add: s2 s1(2) id revoked_rows_def)
  then show ?thesis using r s1 s2 rest by simp
qed

lemma reset_password_Inr:
  assumes "reset_password ev fr salt c token password s = (Inr se, s')"
  obtains u t e s1 pm r where "reset_parse (ev_lib ev) token (c_clock c) = Some (u, t, e)"
    "get_user_row t u s = Some r" "us_status r = S_active" "reset_verify (ev_lib ev) staff_label token (us_password_hash r)"
    "users s1 = users (upd_user t u (\<lambda>r. r\<lparr>us_password_hash := Some (hash_password (ev_argon ev) salt password)\<rparr>) s)"
    "refresh_tokens s1 = refresh_tokens (revoked_rows (with_tenant t c) (\<lambda>q. rt_user q = u) s)"
    "pm = \<lparr>pm_tenant = t, pm_user = u, pm_role = us_role r, pm_from = None\<rparr>" "issue ev fr c pm s1 = (Inr se, s')"
proof -
  obtain u t e pm s1 where p: "reset_parse (ev_lib ev) token (c_clock c) = Some (u, t, e)"
    and tx: "reset_tx ev (acting_for t u c) token u (hash_password (ev_argon ev) salt password) s = Inr (pm, s1)"
    and iss: "issue ev fr c pm s1 = (Inr se, s')"
    using assms unfolding reset_password_def
    by (auto simp: in_tenant_tx_Inr split: option.splits prod.splits sum.splits)
  have rows: "refresh_tokens (revoked_rows (acting_for t u c) q s) = refresh_tokens (revoked_rows (with_tenant t c) q s)" for q
    by (simp add: revoked_rows_def)
  show thesis
    using reset_tx_Inr [OF tx] that [OF p _ _ _ _ _ _ iss] unfolding rows ctx_simps by blast
qed

lemma upd_password_row: "get_user_row t u s = Some r \<Longrightarrow> users s' = users (upd_user t u (\<lambda>r. r\<lparr>us_password_hash := h\<rparr>) s) \<Longrightarrow>
    get_user_row t u s' = Some (r\<lparr>us_password_hash := h\<rparr>)"
  using get_user_upd [of "\<lambda>r. r\<lparr>us_password_hash := h\<rparr>" t u t u s] by (simp add: get_user_row_def keeps_key_def)

lemma issue_user:
  assumes "issue ev fr c pm s = (Inr se, s')" and "get_user_row t u s = Some r"
  shows "\<exists>r'. get_user_row t u s' = Some r' \<and> us_password_hash r' = us_password_hash r \<and> us_status r' = us_status r"
proof -
  obtain s1 where s1: "users s1 = users s" and s': "s' = touched (with_tenant (pm_tenant pm) c) pm s1"
  proof -
    obtain access row s1 where "create_refresh_token (with_tenant (pm_tenant pm) c) (token_params ev fr (c_clock c) pm) s = Inr ((), s1)"
      "s' = touched (with_tenant (pm_tenant pm) c) pm s1"
      using assms(1) unfolding issue_Inr issue_tx_Inr by auto
    then show thesis by (intro that [of s1]) (simp_all add: create_refresh_token_Inr)
  qed
  have "get_user_row t u s1 = Some r" using assms(2) s1 by (simp add: get_user_row_def)
  then show ?thesis by (auto simp: s' touched_def get_user_upd keeps_key_def)
qed

lemma reset_parse_det: "reset_parse lib token n = Some x \<Longrightarrow> reset_parse lib token n' = Some y \<Longrightarrow> x = y"
  by (auto simp: reset_parse_def split: prod.splits option.splits if_splits)

lemma reset_verify_hash: "inj (tl_mac lib) \<Longrightarrow> reset_verify lib lab token h \<Longrightarrow> reset_verify lib lab token h' \<Longrightarrow> deref h' = deref h"
  by (auto simp: reset_verify_def reset_sign_def inj_eq split: prod.splits option.splits if_splits)

lemma reset_refused:
  assumes "reset_parse (ev_lib ev) token n = Some (u, t, e)" and "get_user_row t u s = Some r"
    and "\<not> reset_verify (ev_lib ev) staff_label token (us_password_hash r)"
  shows "reset_password ev fr salt c token password s = (Inl err_invalid_reset, s)"
proof (cases "reset_parse (ev_lib ev) token (c_clock c)")
  case None
  then show ?thesis by (simp add: reset_password_def)
next
  case (Some x)
  then have "x = (u, t, e)" using reset_parse_det [OF assms(1)] by simp
  moreover have "reset_tx ev (acting_for t u c) token u hash s = Inl err_invalid_reset" for hash
    using assms(2,3) by (simp add: reset_tx_def get_user_def bindT_def mapErrT_def oneT_def failT_def)
  then have "in_tenant_tx (acting_for t u c) (reset_tx ev (acting_for t u c) token u hash) s = (Inl err_invalid_reset, s)" for hash
    by (simp add: in_tenant_tx_def run_tx_def)
  ultimately show ?thesis using Some by (simp add: reset_password_def)
qed


section \<open>Sample sessions\<close>

definition sample_env :: auth_env where
  "sample_env = \<lparr>ev_sign = (\<lambda>cl. Inr ''jwt''), ev_parse = (\<lambda>raw aud now. Inl (Opaque ''jwt'')), ev_hash = rev, ev_argon = sample_argon,
     ev_lower = map ascii_lower, ev_fold = map ascii_lower, ev_admins = {}, ev_lib = sample_lib\<rparr>"

definition rina :: user where
  "rina = \<lparr>us_id = 3, us_tenant = 1, us_email = ''rina@toko.id'', us_password_hash = Some ''$argon2id$v=19$m=8,t=1,p=1$c2FsdA$c2Vj'',
     us_name = ''Rina'', us_role = role_owner, us_status = S_active, us_last_login_at = None, us_created_at = 0, us_bio = None\<rparr>"

definition staff_db :: db where
  "staff_db = empty_db\<lparr>tenants := [\<lparr>tn_id = 1, tn_name = ''Toko'', tn_slug = ''toko'', tn_timezone = ''Asia/Jakarta'',
     tn_status = S_active, tn_created_at = 0, tn_order_prefix = ''TKO''\<rparr>], users := [rina]\<rparr>"

definition staff_ctx :: ctx where
  "staff_ctx = \<lparr>c_tenant = None, c_actor = None, c_ip = None, c_role = None, c_now = 10, c_clock = 10\<rparr>"

definition signed_in :: "(err + session) \<times> db" where
  "signed_in = login sample_env \<lparr>fr_token = ''first'', fr_id = 31\<rparr> staff_ctx ''Rina@toko.id'' ''secret'' staff_db"

definition sample_token :: "uuid \<Rightarrow> string \<Rightarrow> uuid option \<Rightarrow> instant option \<Rightarrow> refresh_token" where
  "sample_token i h f at = \<lparr>rt_id = i, rt_tenant = 1, rt_user = 3, rt_token_hash = h, rt_rotated_from = f,
     rt_expires_at = 1000, rt_revoked_at = at, rt_created_at = 5\<rparr>"

definition live_db :: db where
  "live_db = staff_db\<lparr>refresh_tokens := [sample_token 31 ''tsrif'' None None]\<rparr>"

definition rotated_db :: db where
  "rotated_db = staff_db\<lparr>refresh_tokens := [sample_token 31 ''tsrif'' None (Some 6), sample_token 32 ''dnoces'' (Some 31) None]\<rparr>"

definition refreshed :: "(err + session) \<times> db" where
  "refreshed = refresh sample_env \<lparr>fr_token = ''second'', fr_id = 32\<rparr> staff_ctx ''first'' live_db"

lemma not_left: "\<not> isl (fst p) \<Longrightarrow> \<exists>x s. p = (Inr x, s)"
  by (metis prod.collapse sum.collapse(2))

lemma signed_in_ok: "\<exists>se s'. signed_in = (Inr se, s')"
  by (rule not_left) code_simp

lemma refreshed_ok: "\<exists>se s'. refreshed = (Inr se, s')"
  by (rule not_left) code_simp

theorem login_uniform_witness:
  "login sample_env \<lparr>fr_token = ''first'', fr_id = 31\<rparr> staff_ctx ''nobody@toko.id'' ''secret'' staff_db = (Inl err_unauthenticated, staff_db)"
proof -
  have "signs_in sample_env ''nobody@toko.id'' ''secret'' staff_db = None" by code_simp
  then show ?thesis by (rule login_uniform)
qed

theorem login_opens_session_witness: "\<exists>se s'. signed_in = (Inr se, s') \<and> se_user se = 3"
proof -
  obtain se s' where r: "signed_in = (Inr se, s')" using signed_in_ok by blast
  have "\<exists>u. u \<in> set (users staff_db) \<and> se_user se = us_id u"
    using login_opens_session [OF r [unfolded signed_in_def]] by blast
  then show ?thesis using r by (auto simp: staff_db_def rina_def)
qed

theorem refresh_rotates_witness: "\<exists>se s'. refreshed = (Inr se, s') \<and> length (refresh_tokens s') = 2"
proof -
  obtain se s' where r: "refreshed = (Inr se, s')" using refreshed_ok by blast
  have "distinct (map rt_id (refresh_tokens live_db))" by (simp add: live_db_def)
  from refresh_rotates [OF r [unfolded refreshed_def] this]
  have "length (refresh_tokens s') = 2" by (auto simp: live_db_def)
  then show ?thesis using r by blast
qed

theorem stolen_token_ends_sessions_witness:
  "case refresh sample_env \<lparr>fr_token = ''third'', fr_id = 33\<rparr> staff_ctx ''first'' rotated_db of (res, s') \<Rightarrow>
     res = Inl err_unauthenticated \<and> (\<forall>q \<in> set (refresh_tokens s'). rt_tenant q = 1 \<longrightarrow> rt_user q = 3 \<longrightarrow> rt_revoked_at q \<noteq> None)"
proof -
  let ?a = "sample_token 31 ''tsrif'' None (Some 6)"
  have p: "presented_row sample_env ''first'' rotated_db = Some ?a"
    by (simp add: presented_row_def sample_env_def rotated_db_def sample_token_def)
  have r: "rt_revoked_at ?a \<noteq> None" "rt_tenant ?a = 1" "rt_user ?a = 3" "rt_id ?a = 31" by (simp_all add: sample_token_def)
  have "\<exists>q \<in> set (refresh_tokens rotated_db). rt_tenant q = 1 \<and> rt_rotated_from q = Some 31"
    by (simp add: rotated_db_def sample_token_def)
  then show ?thesis
    using stolen_token_ends_sessions [OF p r(1), of "\<lparr>fr_token = ''third'', fr_id = 33\<rparr>" staff_ctx] unfolding r(2-4)
    by (auto split: prod.splits)
qed

definition reset_link :: string where
  "reset_link = reset_mint sample_lib staff_label 3 1 None 0"

definition google_only_db :: db where
  "google_only_db = live_db\<lparr>users := [rina\<lparr>us_password_hash := None\<rparr>]\<rparr>"

definition reset_done :: "(err + session) \<times> db" where
  "reset_done = reset_password sample_env \<lparr>fr_token = ''fresh'', fr_id = 33\<rparr> ''salt'' staff_ctx reset_link ''newpass'' google_only_db"

lemma reset_link_parses: "reset_parse (ev_lib sample_env) reset_link (c_clock staff_ctx) = Some (3, 1, 1800)"
  by code_simp

lemma reset_runs: "\<exists>se s'. reset_done = (Inr se, s')"
  by (rule not_left) code_simp


end
