(* ===== verification/Runes.thy ===== *)
theory Runes
  imports GoStrings
begin

text \<open>
  Go strings as runes: \<open>range s\<close>, \<open>utf8.RuneCountInString\<close>, \<open>[]rune(s)\<close>. A byte that does not start a valid
  UTF-8 sequence is a rune of its own, and reads as U+FFFD.\<close>

abbreviation byte_at :: "string \<Rightarrow> nat \<Rightarrow> nat" where
  "byte_at s k \<equiv> of_char (s ! k)"

definition cont_byte :: "string \<Rightarrow> nat \<Rightarrow> nat \<Rightarrow> nat \<Rightarrow> bool" where
  "cont_byte s k lo hi \<longleftrightarrow> k < length s \<and> lo \<le> byte_at s k \<and> byte_at s k \<le> hi"

definition rune_width :: "string \<Rightarrow> nat" where
  "rune_width s =
    (let b = byte_at s 0 in
     if b < 128 then 1
     else if 194 \<le> b \<and> b \<le> 223 \<and> cont_byte s 1 128 191 then 2
     else if (b = 224 \<and> cont_byte s 1 160 191 \<or> (225 \<le> b \<and> b \<le> 236 \<or> b = 238 \<or> b = 239) \<and> cont_byte s 1 128 191 \<or>
              b = 237 \<and> cont_byte s 1 128 159) \<and> cont_byte s 2 128 191 then 3
     else if (b = 240 \<and> cont_byte s 1 144 191 \<or> 241 \<le> b \<and> b \<le> 243 \<and> cont_byte s 1 128 191 \<or>
              b = 244 \<and> cont_byte s 1 128 143) \<and> cont_byte s 2 128 191 \<and> cont_byte s 3 128 191 then 4
     else 1)"

lemma rune_width_pos: "0 < rune_width s"
  by (simp add: rune_width_def Let_def)

function runes :: "string \<Rightarrow> string list" where
  "runes s = (if s = [] then [] else take (rune_width s) s # runes (drop (rune_width s) s))"
  by pat_completeness auto
termination
  by (relation "measure length") (auto simp: rune_width_pos)

declare runes.simps [simp del]

lemma runes_Nil [simp]: "runes [] = []"
  by (simp add: runes.simps)

definition rune_count :: "string \<Rightarrow> nat" where
  "rune_count s = length (runes s)"

lemma concat_runes: "concat (runes s) = s"
proof (induction s rule: runes.induct)
  case (1 s)
  then show ?case by (subst runes.simps) auto
qed

lemma rune_count_le: "rune_count s \<le> length s"
proof (induction s rule: runes.induct)
  case (1 s)
  show ?case
  proof (cases "s = []")
    case True
    then show ?thesis by (simp add: rune_count_def)
  next
    case False
    have "rune_count s = Suc (rune_count (drop (rune_width s) s))"
      using False by (subst rune_count_def, subst runes.simps) (simp add: rune_count_def)
    moreover have "length (drop (rune_width s) s) < length s"
      using False rune_width_pos by simp
    ultimately show ?thesis using 1 False by linarith
  qed
qed

text \<open>\<open>string([]rune(s)[:n])\<close>.\<close>

definition replacement :: string where
  "replacement = map char_of [239::nat, 191, 189]"

definition rune_text :: "string \<Rightarrow> string" where
  "rune_text r = (if length r = 1 \<and> 128 \<le> byte_at r 0 then replacement else r)"

definition take_runes :: "nat \<Rightarrow> string \<Rightarrow> string" where
  "take_runes n s = concat (map rune_text (take n (runes s)))"

end
