(* ===== verification/Team.thy ===== *)
theory Team
  imports Sessions Runes
begin

text \<open>
  The people of a shop and the shop's own settings (internal/team: users.go, settings.go, signup.go,
  mail.go; BR-020, BR-021, BR-023, BR-026, BR-027, BR-029, BR-140). An email is queued after the
  commit and may be lost; \<open>up\<close> is whether Redis takes it.\<close>

section \<open>Who may do what\<close>

definition caller_is :: "ctx \<Rightarrow> string \<Rightarrow> bool" where
  "caller_is c role \<longleftrightarrow> deref (c_role c) = role"

definition grantable :: "ctx \<Rightarrow> string \<Rightarrow> err + unit" where
  "grantable c role =
    (if role = role_owner then
       (if \<not> caller_is c role_owner then Inl (forbidden ''Only an owner can grant the owner role.'') else Inr ())
     else if role \<in> {role_admin, role_ops, role_viewer} then Inr ()
     else Inl (field_error ''role'' ''role is owner, admin, ops or viewer''))"

record staff_mail =
  sm_kind :: string
  sm_tenant :: uuid
  sm_user :: uuid
  sm_actor :: uuid

record staff_world =
  sw_db :: db
  sw_mail :: "staff_mail list"

definition queue_staff :: "bool \<Rightarrow> staff_mail \<Rightarrow> staff_mail list \<Rightarrow> staff_mail list" where
  "queue_staff up m q = (if up then q @ [m] else q)"

definition invitation_to :: "ctx \<Rightarrow> user \<Rightarrow> staff_mail" where
  "invitation_to c u = \<lparr>sm_kind = ''invitation'', sm_tenant = us_tenant u, sm_user = us_id u,
     sm_actor = (case actor_of c of None \<Rightarrow> nil_uuid | Some a \<Rightarrow> a)\<rparr>"

section \<open>Users\<close>

definition list_users_op :: "ctx \<Rightarrow> string option \<Rightarrow> string option \<Rightarrow> (instant \<times> uuid) option \<Rightarrow> int \<Rightarrow> db \<Rightarrow>
    (err + user list \<times> (instant \<times> uuid) option) \<times> db" where
  "list_users_op c st role after limit s =
    (case in_tenant_tx c (list_users c \<lparr>uf_status = st, uf_role = role, uf_after = after, uf_limit = wrap32 (limit + 1)\<rparr>) s of
      (Inl e, s') \<Rightarrow> (Inl e, s')
    | (Inr rows, s') \<Rightarrow>
        if int (length rows) \<le> limit then (Inr (rows, None), s')
        else (let page = take (nat limit) rows; r = last page in (Inr (page, Some (us_created_at r, us_id r)), s')))"

definition taken :: "err \<Rightarrow> bool" where
  "taken e \<longleftrightarrow> violation e = Some (''23505'', ''users_email_key'')"

definition invite_tx :: "(string \<Rightarrow> string) \<Rightarrow> ctx \<Rightarrow> uuid \<Rightarrow> string \<Rightarrow> string \<Rightarrow> string \<Rightarrow> user stmt" where
  "invite_tx lc c u address name role =
    bindT (mapErrT (\<lambda>e. if taken e then field_error ''email'' ''this email already has an account'' else e)
      (invite_user lc c u address name role)) (\<lambda>r.
    thenT (audit c \<lparr>ae_action = ''user.invite'', ae_subject_type = ''user'', ae_subject_id = DId (us_id r), ae_before = None,
      ae_after = Some (DObj [(''email'', DStr (us_email r)), (''name'', DStr (us_name r)), (''role'', DStr (us_role r))])\<rparr>)
    (retT r))"

definition invite :: "(string \<Rightarrow> string) \<Rightarrow> bool \<Rightarrow> ctx \<Rightarrow> uuid \<Rightarrow> string \<Rightarrow> string \<Rightarrow> string \<Rightarrow> staff_world \<Rightarrow> (err + user) \<times> staff_world" where
  "invite lc up c u address name role w =
    (if trim_space name = [] then (Inl (field_error ''name'' ''name is required''), w)
     else (case grantable c role of
        Inl e \<Rightarrow> (Inl e, w)
      | Inr _ \<Rightarrow>
          (case in_tenant_tx c (invite_tx lc c u (trim_space address) (trim_space name) role) (sw_db w) of
             (Inl e, s) \<Rightarrow> (Inl e, w\<lparr>sw_db := s\<rparr>)
           | (Inr r, s) \<Rightarrow> (Inr r, w\<lparr>sw_db := s, sw_mail := queue_staff up (invitation_to c r) (sw_mail w)\<rparr>))))"

definition resend_tx :: "ctx \<Rightarrow> uuid \<Rightarrow> user stmt" where
  "resend_tx c u =
    bindT (mapErrT (no_such ''user'') (get_user c u)) (\<lambda>r.
    if us_status r \<noteq> S_invited then failT (field_error ''status'' ''only an invited user can be sent the invitation again'')
    else thenT (audit c \<lparr>ae_action = ''user.resend_invite'', ae_subject_type = ''user'', ae_subject_id = DId u,
           ae_before = None, ae_after = None\<rparr>) (retT r))"

definition resend_invite :: "bool \<Rightarrow> ctx \<Rightarrow> uuid \<Rightarrow> staff_world \<Rightarrow> (err + unit) \<times> staff_world" where
  "resend_invite up c u w =
    (case in_tenant_tx c (resend_tx c u) (sw_db w) of
      (Inl e, s) \<Rightarrow> (Inl e, w\<lparr>sw_db := s\<rparr>)
    | (Inr r, s) \<Rightarrow> (Inr (), w\<lparr>sw_db := s, sw_mail := queue_staff up (invitation_to c r) (sw_mail w)\<rparr>))"

definition max_bio_runes :: nat where
  "max_bio_runes = 300"

text \<open>\<open>Update\<close>, in its two halves: what it reads and refuses, and what it writes. They run in one
  transaction, but no row is locked between them.\<close>

definition loses_owner :: "user \<Rightarrow> string option \<Rightarrow> string option \<Rightarrow> bool" where
  "loses_owner before role st \<longleftrightarrow> us_role before = role_owner \<and> us_status before = S_active \<and>
     ((case role of None \<Rightarrow> False | Some r \<Rightarrow> r \<noteq> role_owner) \<or> st = Some S_disabled)"

definition update_check :: "ctx \<Rightarrow> uuid \<Rightarrow> string option \<Rightarrow> string option \<Rightarrow> user stmt" where
  "update_check c u role st =
    bindT (mapErrT (no_such ''user'') (get_user c u)) (\<lambda>before.
    if us_role before = role_owner \<and> \<not> caller_is c role_owner \<and> (role \<noteq> None \<or> st \<noteq> None)
    then failT (forbidden ''Only an owner can change an owner.'')
    else if loses_owner before role st
    then bindT (other_active_owners c u) (\<lambda>others.
      if others = 0 then failT (field_error ''role'' (''the shop'' @ [CHR 0x27] @ ''s last active owner cannot be demoted or disabled'')) else retT before)
    else retT before)"

definition bio_doc :: "string option \<Rightarrow> dyn" where
  "bio_doc b = (case b of None \<Rightarrow> DNull | Some x \<Rightarrow> DStr x)"

definition standing_doc :: "user \<Rightarrow> dyn" where
  "standing_doc r = DObj [(''role'', DStr (us_role r)), (''status'', DStr (us_status r)), (''bio'', bio_doc (us_bio r))]"

definition write_role :: "ctx \<Rightarrow> uuid \<Rightarrow> user \<Rightarrow> string option \<Rightarrow> user stmt" where
  "write_role c u before role =
    (case role of None \<Rightarrow> retT before
     | Some r \<Rightarrow> if r \<noteq> us_role before then set_user_role c u r else retT before)"

definition write_status :: "ctx \<Rightarrow> uuid \<Rightarrow> user \<Rightarrow> string option \<Rightarrow> user \<Rightarrow> user stmt" where
  "write_status c u before st r =
    (case st of
      None \<Rightarrow> retT r
    | Some x \<Rightarrow>
        if x = us_status before then retT r
        else if us_status before = S_invited
        then failT (field_error ''status'' ''an invited user becomes active by accepting the invitation'')
        else bindT (set_user_status c u x) (\<lambda>r'.
          if x = S_disabled then bindT (revoke_all_user_tokens c u) (\<lambda>_. retT r') else retT r'))"

definition write_bio :: "ctx \<Rightarrow> uuid \<Rightarrow> string option \<Rightarrow> user \<Rightarrow> user stmt" where
  "write_bio c u b r = (case b of None \<Rightarrow> retT r | Some x \<Rightarrow> set_user_bio c u (if x \<noteq> [] then Some x else None))"

definition update_write :: "ctx \<Rightarrow> uuid \<Rightarrow> string option \<Rightarrow> string option \<Rightarrow> string option \<Rightarrow> user \<Rightarrow> user stmt" where
  "update_write c u role st b before =
    bindT (write_role c u before role) (\<lambda>r1.
    bindT (write_status c u before st r1) (\<lambda>r2.
    bindT (write_bio c u b r2) (\<lambda>r3.
    thenT (audit c \<lparr>ae_action = ''user.update'', ae_subject_type = ''user'', ae_subject_id = DId u,
       ae_before = Some (standing_doc before), ae_after = Some (standing_doc r3)\<rparr>)
    (retT r3))))"

definition update_staff :: "ctx \<Rightarrow> uuid \<Rightarrow> string option \<Rightarrow> string option \<Rightarrow> string option \<Rightarrow> user stmt" where
  "update_staff c u role st b = bindT (update_check c u role st) (update_write c u role st b)"

definition update_staff_op :: "ctx \<Rightarrow> uuid \<Rightarrow> string option \<Rightarrow> string option \<Rightarrow> string option \<Rightarrow> db \<Rightarrow> (err + user) \<times> db" where
  "update_staff_op c u role st b s =
    (case (case role of None \<Rightarrow> Inr () | Some r \<Rightarrow> grantable c r) of
      Inl e \<Rightarrow> (Inl e, s)
    | Inr _ \<Rightarrow>
        if (case st of None \<Rightarrow> False | Some x \<Rightarrow> x \<noteq> S_active \<and> x \<noteq> S_disabled)
        then (Inl (field_error ''status'' ''status is active or disabled''), s)
        else if (case b of None \<Rightarrow> False | Some x \<Rightarrow> max_bio_runes < rune_count (trim_space x))
        then (Inl (field_error ''bio'' ''a bio is at most 300 characters''), s)
        else in_tenant_tx c (update_staff c u role st (map_option trim_space b)) s)"

definition request_password_reset :: "(string \<Rightarrow> string) \<Rightarrow> bool \<Rightarrow> string \<Rightarrow> staff_world \<Rightarrow> (err + unit) \<times> staff_world" where
  "request_password_reset lc up address w =
    (case lookup_user lc (trim_space address) (sw_db w) of
      Inl e \<Rightarrow> (if err_is e LookupNotFound then Inr () else Inl e, w)
    | Inr u \<Rightarrow>
        if lu_status u \<noteq> S_active then (Inr (), w)
        else (Inr (), w\<lparr>sw_mail := queue_staff up \<lparr>sm_kind = ''staff_password_reset'', sm_tenant = lu_tenant u,
               sm_user = lu_id u, sm_actor = nil_uuid\<rparr> (sw_mail w)\<rparr>))"

section \<open>The shop's settings\<close>

definition lower_digit :: "char \<Rightarrow> bool" where
  "lower_digit ch \<longleftrightarrow> is_digit ch \<or> 97 \<le> byte_of ch \<and> byte_of ch \<le> 122"

definition shop_slug :: "string \<Rightarrow> bool" where
  "shop_slug s \<longleftrightarrow> 3 \<le> length s \<and> length s \<le> 40 \<and> lower_digit (hd s) \<and> lower_digit (last s) \<and>
     list_all (\<lambda>ch. lower_digit ch \<or> ch = CHR ''-'') s"

definition reserved_slugs :: "string list" where
  "reserved_slugs = [''www'', ''api'', ''admin'', ''img'', ''app'',
     ''mail'', ''docs'', ''blog'', ''help'', ''status'', ''cdn'', ''static'',
     ''dashboard'', ''belli'', ''toko'', ''shop'', ''dev'', ''staging'', ''test'']"

definition settings_op :: "ctx \<Rightarrow> db \<Rightarrow> (err + tenant) \<times> db" where
  "settings_op c = in_tenant_tx c (get_tenant (tenant_of c))"

definition settings_doc :: "tenant \<Rightarrow> dyn" where
  "settings_doc r = DObj [(''name'', DStr (tn_name r)), (''slug'', DStr (tn_slug r)), (''timezone'', DStr (tn_timezone r)),
     (''order_prefix'', DStr (tn_order_prefix r))]"

definition slug_taken :: "err \<Rightarrow> err" where
  "slug_taken e = (if violation e = Some (''23505'', ''tenants_slug_key'') then field_error ''slug'' ''this address is taken'' else e)"

definition update_settings_tx :: "ctx \<Rightarrow> update_tenant_params \<Rightarrow> tenant stmt" where
  "update_settings_tx c p =
    bindT (get_tenant (tenant_of c)) (\<lambda>before.
    bindT (mapErrT slug_taken (update_settings c p)) (\<lambda>after.
    thenT (audit c \<lparr>ae_action = ''settings.update'', ae_subject_type = ''tenant'', ae_subject_id = DId (tenant_of c),
      ae_before = Some (settings_doc before), ae_after = Some (settings_doc after)\<rparr>)
    (retT after)))"

text \<open>\<open>zone\<close> is whether \<open>time.LoadLocation\<close> knows the name.\<close>

definition update_settings_op :: "(string \<Rightarrow> bool) \<Rightarrow> ctx \<Rightarrow> update_tenant_params \<Rightarrow> db \<Rightarrow> (err + tenant) \<times> db" where
  "update_settings_op zone c p s =
    (let p' = p\<lparr>ut_name := map_option trim_space (ut_name p)\<rparr> in
     if ut_name p' = Some [] then (Inl (field_error ''name'' ''name cannot be empty''), s)
     else if (case ut_timezone p of None \<Rightarrow> False | Some z \<Rightarrow> \<not> zone z \<or> z = [] \<or> z = ''Local'')
     then (Inl (field_error ''timezone'' ''timezone is an IANA name such as Asia/Jakarta''), s)
     else if (case ut_order_prefix p of None \<Rightarrow> False | Some x \<Rightarrow> \<not> order_prefix_ok x)
     then (Inl (field_error ''order_prefix'' ''order_prefix is 2 to 6 upper-case letters or digits''), s)
     else if (case ut_slug p of None \<Rightarrow> False | Some x \<Rightarrow> \<not> shop_slug x)
     then (Inl (field_error ''slug'' ''slug is 3 to 40 lower-case letters, digits or hyphens, starting and ending with a letter or digit''), s)
     else if (case ut_slug p of None \<Rightarrow> False | Some x \<Rightarrow> x \<in> set reserved_slugs)
     then (Inl (field_error ''slug'' ''this address is reserved''), s)
     else in_tenant_tx c (update_settings_tx c p') s)"

section \<open>Opening a shop\<close>

text \<open>\<open>low\<close> and \<open>up_case\<close> are \<open>strings.ToLower\<close> and \<open>strings.ToUpper\<close>. Every byte of a rune beyond ASCII
  takes the branch of its rune, and the dashes collapse, so the loop may go by bytes.\<close>

fun slug_body :: "string \<Rightarrow> string \<Rightarrow> string" where
  "slug_body b [] = b"
| "slug_body b (ch # s) =
    (let b' = (if lower_digit ch then b @ [ch] else if b \<noteq> [] \<and> last b \<noteq> CHR ''-'' then b @ [CHR ''-''] else b)
     in if 40 \<le> length b' then b' else slug_body b' s)"

definition slug_for :: "(string \<Rightarrow> string) \<Rightarrow> string \<Rightarrow> string \<Rightarrow> string" where
  "slug_for low rand name =
    (let b = slug_body [] (low name);
         base = (if b \<noteq> [] \<and> last b = CHR ''-'' then butlast b else b)
     in (if base = [] then ''shop'' else base) @ ''-'' @ rand)"

definition upper_digit :: "char \<Rightarrow> bool" where
  "upper_digit ch \<longleftrightarrow> is_digit ch \<or> 65 \<le> byte_of ch \<and> byte_of ch \<le> 90"

definition prefix_for :: "(string \<Rightarrow> string) \<Rightarrow> string \<Rightarrow> string" where
  "prefix_for up_case name =
    (let b = take 3 (filter upper_digit (up_case name)) in if length b < 2 then ''SHOP'' else b)"

record signup_lib =
  sl_low :: "string \<Rightarrow> string"
  sl_up :: "string \<Rightarrow> string"
  sl_suffix :: string
  sl_tenant :: uuid
  sl_owner :: uuid
  sl_address :: "string \<Rightarrow> bool"

text \<open>\<open>openShop\<close>: the new owner is the actor of their own signup.\<close>

definition open_tx :: "signup_lib \<Rightarrow> ctx \<Rightarrow> string \<Rightarrow> string \<Rightarrow> string \<Rightarrow> user stmt \<Rightarrow> unit stmt" where
  "open_tx sl c name address via owner =
    bindT (create_tenant c name (slug_for (sl_low sl) (sl_suffix sl) name) (prefix_for (sl_up sl) name)) (\<lambda>shop.
    thenT owner
     (audit c \<lparr>ae_action = ''tenant.register'', ae_subject_type = ''tenant'', ae_subject_id = DId (tn_id shop), ae_before = None,
       ae_after = Some (DObj ([(''name'', DStr (tn_name shop)), (''slug'', DStr (tn_slug shop)),
         (''order_prefix'', DStr (tn_order_prefix shop)), (''owner'', DStr address)] @
         (if via \<noteq> [] then [(''via'', DStr via)] else [])))\<rparr>))"

definition signup_ctx :: "signup_lib \<Rightarrow> ctx \<Rightarrow> string option \<Rightarrow> ctx" where
  "signup_ctx sl c ip = (with_tenant (sl_tenant sl) c)\<lparr>c_actor := Some (sl_owner sl), c_ip := ip\<rparr>"

definition valid_signup :: "signup_lib \<Rightarrow> string \<Rightarrow> string \<Rightarrow> string \<Rightarrow> err + unit" where
  "valid_signup sl shop name address =
    (if shop = [] \<or> 100 < rune_count shop then Inl (field_error ''shop_name'' ''shop_name is 1 to 100 characters'')
     else if name = [] \<or> 100 < rune_count name then Inl (field_error ''name'' ''name is 1 to 100 characters'')
     else if \<not> sl_address sl address \<or> 254 < length address then Inl (field_error ''email'' ''email is not a valid address'')
     else Inr ())"

definition signup_mail :: "uuid \<Rightarrow> uuid \<Rightarrow> staff_mail" where
  "signup_mail t u = \<lparr>sm_kind = ''signup'', sm_tenant = t, sm_user = u, sm_actor = nil_uuid\<rparr>"

definition resend_signup :: "(string \<Rightarrow> string) \<Rightarrow> bool \<Rightarrow> string \<Rightarrow> staff_world \<Rightarrow> (err + unit) \<times> staff_world" where
  "resend_signup lc up address w =
    (case lookup_user lc address (sw_db w) of
      Inl e \<Rightarrow> (if err_is e LookupNotFound then Inr () else Inl e, w)
    | Inr u \<Rightarrow>
        if lu_status u = S_invited \<and> lu_role u = role_owner \<and> lu_password_hash u = None
        then (Inr (), w\<lparr>sw_mail := queue_staff up (signup_mail (lu_tenant u) (lu_id u)) (sw_mail w)\<rparr>)
        else (Inr (), w))"

definition register :: "signup_lib \<Rightarrow> (string \<Rightarrow> string) \<Rightarrow> bool \<Rightarrow> ctx \<Rightarrow> string option \<Rightarrow> string \<Rightarrow> string \<Rightarrow> string \<Rightarrow> staff_world \<Rightarrow>
    (err + unit) \<times> staff_world" where
  "register sl lc up c ip shop0 name0 address0 w =
    (let shop = trim_space shop0; name = trim_space name0; address = trim_space address0; tc = signup_ctx sl c ip in
     case valid_signup sl shop name address of
       Inl e \<Rightarrow> (Inl e, w)
     | Inr _ \<Rightarrow>
         (case in_tenant_tx tc (open_tx sl tc shop address [] (invite_user lc tc (sl_owner sl) address name role_owner)) (sw_db w) of
            (Inl e, s) \<Rightarrow> if taken e then resend_signup lc up address (w\<lparr>sw_db := s\<rparr>) else (Inl e, w\<lparr>sw_db := s\<rparr>)
          | (Inr _, s) \<Rightarrow> (Inr (), w\<lparr>sw_db := s, sw_mail := queue_staff up (signup_mail (sl_tenant sl) (sl_owner sl)) (sw_mail w)\<rparr>)))"

definition google_name :: "string \<Rightarrow> string \<Rightarrow> string" where
  "google_name profile email =
    (let name = (if trim_space profile = [] then fst (cut_at (CHR ''@'') email) else trim_space profile)
     in if 100 < rune_count name then take_runes 100 name else name)"

text \<open>\<open>who\<close> is the subject, email and name Google vouched for.\<close>

definition register_with_google :: "signup_lib \<Rightarrow> (string \<Rightarrow> string) \<Rightarrow> ctx \<Rightarrow> string option \<Rightarrow> string \<Rightarrow> err + string \<times> string \<times> string \<Rightarrow>
    db \<Rightarrow> (err + uuid \<times> uuid) \<times> db" where
  "register_with_google sl lc c ip shop0 who s =
    (let shop = trim_space shop0; tc = signup_ctx sl c ip in
     if shop = [] \<or> 100 < rune_count shop then (Inl (field_error ''shop_name'' ''shop_name is 1 to 100 characters''), s)
     else (case who of
        Inl _ \<Rightarrow> (Inl (Sentinel ''unauthenticated''), s)
      | Inr (_, email, profile) \<Rightarrow>
          (case in_tenant_tx tc (open_tx sl tc shop email ''google'' (create_active_owner lc tc (sl_owner sl) email (google_name profile email))) s of
             (Inl e, s') \<Rightarrow> (Inl (if taken e then field_error ''email'' ''This Google email already has an account. Sign in instead.'' else e), s')
           | (Inr _, s') \<Rightarrow> (Inr (sl_tenant sl, sl_owner sl), s'))))"

definition resend_code :: "(string \<Rightarrow> string) \<Rightarrow> bool \<Rightarrow> string \<Rightarrow> staff_world \<Rightarrow> (err + unit) \<times> staff_world" where
  "resend_code lc up address w = resend_signup lc up (trim_space address) w"

section \<open>What an update of a staff user leaves\<close>

lemma upd_user_twice: "keeps_key us_tenant us_id f \<Longrightarrow> users (upd_user t u g (upd_user t u f s)) = users (upd_user t u (g \<circ> f) s)"
  by (auto simp: upd_user_def row_upd_def keeps_key_def)

lemma upd_user_id: "users (upd_user t u id s) = users s"
  by (simp add: upd_user_def row_upd_def map_idI)

text \<open>The standing a request asks for: what is not asked for stays.\<close>

definition standing :: "string option \<Rightarrow> string option \<Rightarrow> string option \<Rightarrow> user \<Rightarrow> user" where
  "standing role st b r = r\<lparr>us_role := coalesce role (us_role r), us_status := coalesce st (us_status r),
     us_bio := (case b of None \<Rightarrow> us_bio r | Some x \<Rightarrow> if x = [] then None else Some x)\<rparr>"

lemma standing_keeps: "keeps_key us_tenant us_id (standing role st b)"
  by (simp add: keeps_key_def standing_def)

text \<open>\<open>wrote t u s q s' r\<close>: between the two states user \<open>u\<close> of shop \<open>t\<close> was rewritten, from \<open>q\<close> to \<open>r\<close>, and no one else.\<close>

definition wrote :: "uuid \<Rightarrow> uuid \<Rightarrow> db \<Rightarrow> user \<Rightarrow> db \<Rightarrow> user \<Rightarrow> bool" where
  "wrote t u s q s' r \<longleftrightarrow> get_user_row t u s = Some q \<and>
     (\<exists>f. keeps_key us_tenant us_id f \<and> users s' = users (upd_user t u f s) \<and> r = f q)"

lemma wrote_refl: "get_user_row t u s = Some q \<Longrightarrow> users s' = users s \<Longrightarrow> wrote t u s q s' q"
  by (auto simp: wrote_def upd_user_id keeps_key_def intro!: exI [of _ id])

lemma wrote_row: "wrote t u s q s' r \<Longrightarrow> get_user_row t u s' = Some r"
  unfolding wrote_def by (auto simp: get_user_row_def upd_user_def rows.get_same)

lemma wrote_trans: "wrote t u s q s1 r1 \<Longrightarrow> wrote t u s1 r1 s2 r2 \<Longrightarrow> wrote t u s q s2 r2"
proof -
  assume a: "wrote t u s q s1 r1" and b: "wrote t u s1 r1 s2 r2"
  from a obtain f where f: "get_user_row t u s = Some q" "keeps_key us_tenant us_id f" "users s1 = users (upd_user t u f s)" "r1 = f q"
    by (auto simp: wrote_def)
  from b obtain g where g: "keeps_key us_tenant us_id g" "users s2 = users (upd_user t u g s1)" "r2 = g r1"
    by (auto simp: wrote_def)
  have "users s2 = users (upd_user t u g (upd_user t u f s))"
    using f(3) g(2) by (simp add: upd_user_def)
  then have "users s2 = users (upd_user t u (g \<circ> f) s)" by (simp add: upd_user_twice [OF f(2)])
  moreover have "keeps_key us_tenant us_id (g \<circ> f)" using f(2) g(1) by (simp add: keeps_key_def)
  ultimately show ?thesis using f(1,4) g(3) unfolding wrote_def by (auto intro!: exI [of _ "g \<circ> f"])
qed

lemma wrote_one:
  "get_user_row t u s = Some q \<Longrightarrow> keeps_key us_tenant us_id f \<Longrightarrow> users s' = users (upd_user t u f s) \<Longrightarrow> r = f q \<Longrightarrow> wrote t u s q s' r"
  by (auto simp: wrote_def)

lemma write_role_Inr:
  assumes "get_user_row (tenant_of c) u s = Some q" and "write_role c u q role s = Inr (r, s')"
  shows "wrote (tenant_of c) u s q s' r \<and> r = q\<lparr>us_role := coalesce role (us_role q)\<rparr> \<and> refresh_tokens s' = refresh_tokens s"
proof (cases "role = None \<or> role = Some (us_role q)")
  case True
  then show ?thesis using assms wrote_refl by (auto simp: write_role_def coalesce_def)
next
  case False
  then obtain x where x: "role = Some x" "x \<noteq> us_role q" by auto
  have "r = q\<lparr>us_role := x\<rparr> \<and> s' = upd_user (tenant_of c) u (\<lambda>r. r\<lparr>us_role := x\<rparr>) s"
    using assms x by (auto simp: write_role_def set_user_role_def tx_inr update_user_Inr guardT_Inr)
  then show ?thesis
    using assms(1) x by (auto simp: coalesce_def keeps_key_def intro!: wrote_one [where f = "\<lambda>r. r\<lparr>us_role := x\<rparr>"])
qed

lemma write_status_Inr:
  assumes "get_user_row (tenant_of c) u s = Some q" and "write_status c u before st q s = Inr (r, s')"
    and "us_status q = us_status before"
  shows "wrote (tenant_of c) u s q s' r \<and> r = q\<lparr>us_status := coalesce st (us_status q)\<rparr> \<and>
    (st = Some S_disabled \<longrightarrow> us_status before \<noteq> S_disabled \<longrightarrow> refresh_tokens s' = refresh_tokens (revoked_rows c (\<lambda>p. rt_user p = u) s)) \<and>
    (st \<noteq> None \<longrightarrow> st \<noteq> Some (us_status before) \<longrightarrow> us_status before \<noteq> S_invited)"
proof (cases "st = None \<or> st = Some (us_status before)")
  case True
  then show ?thesis using assms wrote_refl by (auto simp: write_status_def coalesce_def)
next
  case False
  then obtain x where x: "st = Some x" "x \<noteq> us_status before" by auto
  let ?f = "\<lambda>r. r\<lparr>us_status := x\<rparr>"
  have r: "r = q\<lparr>us_status := x\<rparr>" "users s' = users (upd_user (tenant_of c) u ?f s)" "us_status before \<noteq> S_invited"
    using assms x by (auto simp: write_status_def set_user_status_def revoke_all_user_tokens_def revoke_Inr tx_inr update_user_Inr
        guardT_Inr split: if_splits)
  have "refresh_tokens s' = refresh_tokens (revoked_rows c (\<lambda>p. rt_user p = u) s)" if "x = S_disabled"
    using assms x that by (auto simp: write_status_def set_user_status_def revoke_all_user_tokens_def revoke_Inr tx_inr update_user_Inr
        guardT_Inr revoked_rows_def split: if_splits)
  moreover have "wrote (tenant_of c) u s q s' r"
    using assms(1) r by (intro wrote_one [where f = ?f]) (simp_all add: keeps_key_def)
  ultimately show ?thesis using assms(3) x r by (simp add: coalesce_def)
qed

lemma write_bio_Inr:
  assumes "get_user_row (tenant_of c) u s = Some q" and "write_bio c u b q s = Inr (r, s')"
  shows "wrote (tenant_of c) u s q s' r \<and> r = standing None None b q \<and> refresh_tokens s' = refresh_tokens s"
proof (cases b)
  case None
  then show ?thesis using assms wrote_refl by (auto simp: write_bio_def standing_def coalesce_def)
next
  case (Some x)
  let ?f = "\<lambda>r. r\<lparr>us_bio := if x \<noteq> [] then Some x else None\<rparr>"
  have "r = ?f q \<and> s' = upd_user (tenant_of c) u ?f s"
    using assms Some by (auto simp: write_bio_def set_user_bio_def update_user_Inr)
  then show ?thesis
    using assms(1) Some by (auto simp: standing_def coalesce_def keeps_key_def intro!: wrote_one [where f = ?f])
qed

lemma write_role_log: "write_role c u q role s = Inr (r, s') \<Longrightarrow> audit_log s' = audit_log s"
  by (auto simp: write_role_def set_user_role_def update_user_Inr tx_inr guardT_Inr upd_user_def split: option.splits if_splits)

lemma write_status_log: "write_status c u before st q s = Inr (r, s') \<Longrightarrow> audit_log s' = audit_log s"
  by (auto simp: write_status_def set_user_status_def update_user_Inr tx_inr guardT_Inr upd_user_def revoke_all_user_tokens_def revoke_Inr
      split: option.splits if_splits)

lemma write_bio_log: "write_bio c u b q s = Inr (r, s') \<Longrightarrow> audit_log s' = audit_log s"
  by (auto simp: write_bio_def set_user_bio_def update_user_Inr upd_user_def split: option.splits)

lemma update_write_Inr:
  assumes "get_user_row (tenant_of c) u s = Some q" and "update_write c u role st b q s = Inr (r, s')"
  shows "wrote (tenant_of c) u s q s' r \<and> r = standing role st b q \<and>
    (st = Some S_disabled \<longrightarrow> us_status q \<noteq> S_disabled \<longrightarrow> refresh_tokens s' = refresh_tokens (revoked_rows c (\<lambda>p. rt_user p = u) s)) \<and>
    (st \<noteq> None \<longrightarrow> st \<noteq> Some (us_status q) \<longrightarrow> us_status q \<noteq> S_invited) \<and>
    audit_log s' = audit_log s @ [audit_row_of c \<lparr>ae_action = ''user.update'', ae_subject_type = ''user'', ae_subject_id = DId u,
       ae_before = Some (standing_doc q), ae_after = Some (standing_doc r)\<rparr>]"
proof -
  obtain r1 s1 r2 s2 s3 where w1: "write_role c u q role s = Inr (r1, s1)" and w2: "write_status c u q st r1 s1 = Inr (r2, s2)"
    and w3: "write_bio c u b r2 s2 = Inr (r, s3)"
    and s': "s' = add_audit c \<lparr>ae_action = ''user.update'', ae_subject_type = ''user'', ae_subject_id = DId u,
       ae_before = Some (standing_doc q), ae_after = Some (standing_doc r)\<rparr> s3"
    using assms(2) by (auto simp: update_write_def tx_inr)
  note f1 = write_role_Inr [OF assms(1) w1]
  note f2 = write_status_Inr [OF wrote_row [OF conjunct1 [OF f1]] w2]
  have f2': "wrote (tenant_of c) u s1 r1 s2 r2" "r2 = r1\<lparr>us_status := coalesce st (us_status r1)\<rparr>"
    using f2 f1 by auto
  note f3 = write_bio_Inr [OF wrote_row [OF f2'(1)] w3]
  have w: "wrote (tenant_of c) u s q s3 r"
    using f1 f2'(1) f3 wrote_trans by blast
  have logs: "audit_log s3 = audit_log s"
    using write_role_log [OF w1] write_status_log [OF w2] write_bio_log [OF w3] by simp
  have "wrote (tenant_of c) u s q s' r" using w s' by (simp add: wrote_def)
  moreover have "r = standing role st b q" using f1 f2'(2) f3 by (cases b) (simp_all add: standing_def coalesce_def)
  moreover have "refresh_tokens s' = refresh_tokens (revoked_rows c (\<lambda>p. rt_user p = u) s)" if "st = Some S_disabled" "us_status q \<noteq> S_disabled"
    using f1 f2 f3 that s' by (simp add: revoked_rows_def)
  moreover have "us_status q \<noteq> S_invited" if "st \<noteq> None" "st \<noteq> Some (us_status q)"
    using f1 f2 that by auto
  ultimately show ?thesis using logs s' by simp
qed

lemma update_check_Inr: "update_check c u role st s = Inr (q, s') \<longleftrightarrow>
    s' = s \<and> get_user_row (tenant_of c) u s = Some q \<and>
    \<not> (us_role q = role_owner \<and> \<not> caller_is c role_owner \<and> (role \<noteq> None \<or> st \<noteq> None)) \<and>
    (loses_owner q role st \<longrightarrow> (\<exists>p \<in> set (users s). us_tenant p = tenant_of c \<and> us_role p = role_owner \<and> us_status p = S_active \<and> us_id p \<noteq> u))"
  by (auto simp: update_check_def tx_inr get_user_def other_active_owners_def filter_empty_conv)

lemma wrote_others: "wrote t u s q s' r \<Longrightarrow> p \<in> set (users s) \<Longrightarrow> us_tenant p \<noteq> t \<or> us_id p \<noteq> u \<Longrightarrow> p \<in> set (users s')"
  unfolding wrote_def by (force simp: upd_user_def row_upd_def)

lemma wrote_in: "wrote t u s q s' r \<Longrightarrow> r \<in> set (users s') \<and> us_tenant r = t \<and> us_id r = u"
  using get_user_Some [OF wrote_row] by blast

lemma update_staff_op_Inr:
  assumes "update_staff_op c u role st b s = (Inr r, s')"
  obtains q where "get_user_row (tenant_of c) u s = Some q" "wrote (tenant_of c) u s q s' r"
    "r = standing role st (map_option trim_space b) q"
    "us_role q = role_owner \<Longrightarrow> \<not> caller_is c role_owner \<Longrightarrow> role = None \<and> st = None"
    "loses_owner q role st \<Longrightarrow> \<exists>p \<in> set (users s). us_tenant p = tenant_of c \<and> us_role p = role_owner \<and> us_status p = S_active \<and> us_id p \<noteq> u"
    "st = None \<or> st = Some S_active \<or> st = Some S_disabled"
    "st = Some S_disabled \<Longrightarrow> us_status q \<noteq> S_disabled \<Longrightarrow> refresh_tokens s' = refresh_tokens (revoked_rows c (\<lambda>p. rt_user p = u) s)"
    "st \<noteq> None \<Longrightarrow> st \<noteq> Some (us_status q) \<Longrightarrow> us_status q \<noteq> S_invited"
    "role = Some role_owner \<Longrightarrow> caller_is c role_owner"
proof -
  from assms have g: "role = None \<or> (\<exists>x. role = Some x \<and> grantable c x = Inr ())"
    and st: "st = None \<or> st = Some S_active \<or> st = Some S_disabled"
    and tx: "update_staff c u role st (map_option trim_space b) s = Inr (r, s')"
    by (auto simp: update_staff_op_def in_tenant_tx_Inr split: option.splits sum.splits if_splits)
  from tx obtain q where ck: "update_check c u role st s = Inr (q, s)" and wr: "update_write c u role st (map_option trim_space b) q s = Inr (r, s')"
    by (auto simp: update_staff_def bindT_Inr update_check_Inr)
  have own: "role = Some role_owner \<Longrightarrow> caller_is c role_owner"
    using g by (auto simp: grantable_def split: if_splits)
  have q: "get_user_row (tenant_of c) u s = Some q" using ck by (simp add: update_check_Inr)
  from update_write_Inr [OF q wr] ck st own show thesis
    by (intro that [of q]) (auto simp: update_check_Inr)
qed

lemma update_staff_op_failed: "update_staff_op c u role st b s = (Inl e, s') \<Longrightarrow> s' = s"
  using in_tenant_tx_failed [of c "update_staff c u role st (map_option trim_space b)" s]
  by (auto simp: update_staff_op_def split: sum.splits option.splits if_splits)

definition has_owner :: "uuid \<Rightarrow> db \<Rightarrow> bool" where
  "has_owner t s \<longleftrightarrow> (\<exists>p \<in> set (users s). us_tenant p = t \<and> us_role p = role_owner \<and> us_status p = S_active)"

text \<open>C38. A shop keeps an active owner (BR-027): a change of a staff user's role, status or bio that runs
  alone leaves every shop that had an active owner with one, whoever asks for it.\<close>

theorem keeps_an_owner:
  assumes "distinct (map us_id (users s))" and "has_owner t s"
  shows "has_owner t (snd (update_staff_op c u role st b s))"
proof (cases "update_staff_op c u role st b s")
  case (Pair res s')
  show ?thesis
  proof (cases res)
    case (Inl e)
    then show ?thesis using Pair assms(2) update_staff_op_failed by (metis snd_conv)
  next
    case (Inr r)
    from Pair [unfolded Inr] obtain q where q: "get_user_row (tenant_of c) u s = Some q" and w: "wrote (tenant_of c) u s q s' r"
      and r: "r = standing role st (map_option trim_space b) q"
      and other: "loses_owner q role st \<Longrightarrow> \<exists>p \<in> set (users s). us_tenant p = tenant_of c \<and> us_role p = role_owner \<and> us_status p = S_active \<and> us_id p \<noteq> u"
      and st: "st = None \<or> st = Some S_active \<or> st = Some S_disabled"
      by (rule update_staff_op_Inr) blast
    obtain p where p: "p \<in> set (users s)" "us_tenant p = t" "us_role p = role_owner" "us_status p = S_active"
      using assms(2) by (auto simp: has_owner_def)
    have "has_owner t s'"
    proof (cases "us_tenant p \<noteq> tenant_of c \<or> us_id p \<noteq> u")
      case True
      then show ?thesis using wrote_others [OF w p(1)] p by (auto simp: has_owner_def)
    next
      case False
      then have pq: "p = q" using get_user_Some [OF q] p(1) assms(1) by (auto simp: distinct_map inj_on_def)
      show ?thesis
      proof (cases "loses_owner q role st")
        case True
        then show ?thesis using other wrote_others [OF w] False p(2) by (fastforce simp: has_owner_def)
      next
        case False
        then have "us_role r = role_owner \<and> us_status r = S_active"
          using pq p st by (auto simp: r standing_def loses_owner_def coalesce_def split: option.splits)
        then show ?thesis using wrote_in [OF w] p(2) pq get_user_Some [OF q] by (auto simp: has_owner_def)
      qed
    qed
    then show ?thesis using Pair by simp
  qed
qed

text \<open>A change of a staff user does what was asked and nothing else (BR-023, BR-027): the role, the status
  and the trimmed bio become the ones asked for, no other user changes; only an owner changes an
  owner's standing or grants the owner role, an invited user's status is not changed here; and whoever is disabled keeps no live session.\<close>

theorem staff_update_exact:
  assumes "update_staff_op c u role st b s = (Inr r, s')"
  shows "\<exists>q. get_user_row (tenant_of c) u s = Some q \<and> get_user_row (tenant_of c) u s' = Some r \<and>
    r = standing role st (map_option trim_space b) q \<and>
    (\<forall>p \<in> set (users s). us_tenant p \<noteq> tenant_of c \<or> us_id p \<noteq> u \<longrightarrow> p \<in> set (users s')) \<and>
    (us_role r \<noteq> us_role q \<longrightarrow> role_owner \<in> {us_role q, us_role r} \<longrightarrow> caller_is c role_owner) \<and>
    (us_status r \<noteq> us_status q \<longrightarrow> us_status q \<noteq> S_invited \<and> (us_role q = role_owner \<longrightarrow> caller_is c role_owner)) \<and>
    (us_status r = S_disabled \<longrightarrow> us_status q \<noteq> S_disabled \<longrightarrow>
       (\<forall>k \<in> set (refresh_tokens s'). rt_tenant k = tenant_of c \<longrightarrow> rt_user k = u \<longrightarrow> rt_revoked_at k \<noteq> None))"
proof -
  from assms obtain q where q: "get_user_row (tenant_of c) u s = Some q" and w: "wrote (tenant_of c) u s q s' r"
    and r: "r = standing role st (map_option trim_space b) q"
    and own: "us_role q = role_owner \<Longrightarrow> \<not> caller_is c role_owner \<Longrightarrow> role = None \<and> st = None"
    and dis: "st = Some S_disabled \<Longrightarrow> us_status q \<noteq> S_disabled \<Longrightarrow> refresh_tokens s' = refresh_tokens (revoked_rows c (\<lambda>p. rt_user p = u) s)"
    and inv: "st \<noteq> None \<Longrightarrow> st \<noteq> Some (us_status q) \<Longrightarrow> us_status q \<noteq> S_invited"
    and grant: "role = Some role_owner \<Longrightarrow> caller_is c role_owner"
    by (rule update_staff_op_Inr) blast
  have role: "us_role r = coalesce role (us_role q)" and status: "us_status r = coalesce st (us_status q)"
    by (simp_all add: r standing_def)
  have a: "caller_is c role_owner" if "us_role r \<noteq> us_role q" "role_owner \<in> {us_role q, us_role r}"
    using that own grant role by (cases role; cases "caller_is c role_owner") (auto simp: coalesce_def)
  have b: "us_status q \<noteq> S_invited \<and> (us_role q = role_owner \<longrightarrow> caller_is c role_owner)" if "us_status r \<noteq> us_status q"
    using that own inv status by (auto simp: coalesce_def split: option.splits)
  have d: "\<forall>k \<in> set (refresh_tokens s'). rt_tenant k = tenant_of c \<longrightarrow> rt_user k = u \<longrightarrow> rt_revoked_at k \<noteq> None"
    if "us_status r = S_disabled" "us_status q \<noteq> S_disabled"
  proof -
    have "refresh_tokens s' = refresh_tokens (revoked_rows c (\<lambda>p. rt_user p = u) s)"
      using that dis status by (auto simp: coalesce_def split: option.splits)
    then show ?thesis using revoked_user_dead by auto
  qed
  show ?thesis using q wrote_row [OF w] r wrote_others [OF w] a b d by blast
qed

section \<open>Two owners at once\<close>

text \<open>
  The two halves of an update run in one transaction, but \<open>OtherActiveOwners\<close> locks nothing: when two owners
  demote each other at the same time, each check sees the other still in place, the writes touch
  different rows, and the shop is left without an owner (against BR-027).\<close>

definition two_owners :: db where
  "two_owners = staff_db\<lparr>users := [rina, rina\<lparr>us_id := 4, us_email := ''budi@toko.id''\<rparr>]\<rparr>"

definition owner_ctx :: "uuid \<Rightarrow> ctx" where
  "owner_ctx u = staff_ctx\<lparr>c_tenant := Some 1, c_actor := Some u, c_role := Some role_owner\<rparr>"

definition both_demoted :: "(err + user) \<times> (err + user) \<times> db" where
  "both_demoted =
    (case update_check (owner_ctx 3) 4 (Some role_admin) None two_owners of
       Inl e \<Rightarrow> (Inl e, Inl e, two_owners)
     | Inr (budi, s1) \<Rightarrow> (case update_check (owner_ctx 4) 3 (Some role_admin) None s1 of
         Inl e \<Rightarrow> (Inl e, Inl e, s1)
       | Inr (rin, s2) \<Rightarrow> (case run_tx (update_write (owner_ctx 3) 4 (Some role_admin) None None budi) s2 of
           (a, s3) \<Rightarrow> (case run_tx (update_write (owner_ctx 4) 3 (Some role_admin) None None rin) s3 of (b, s4) \<Rightarrow> (a, b, s4)))))"

lemma owners_demote_each_other:
  "has_owner 1 two_owners \<and> (case both_demoted of (a, b, s) \<Rightarrow> \<not> isl a \<and> \<not> isl b \<and> \<not> has_owner 1 s)"
proof -
  have "list_ex (\<lambda>p. us_tenant p = 1 \<and> us_role p = role_owner \<and> us_status p = S_active) (users two_owners)"
    by code_simp
  moreover have "case both_demoted of (a, b, s) \<Rightarrow> \<not> isl a \<and> \<not> isl b \<and>
      \<not> list_ex (\<lambda>p. us_tenant p = 1 \<and> us_role p = role_owner \<and> us_status p = S_active) (users s)"
    by code_simp
  ultimately show ?thesis by (auto simp: has_owner_def list_ex_iff split: prod.splits)
qed

section \<open>The names of a new shop\<close>

definition label_char :: "char \<Rightarrow> bool" where
  "label_char ch \<longleftrightarrow> lower_digit ch \<or> ch = CHR ''-''"

definition dns_label :: "string \<Rightarrow> bool" where
  "dns_label s \<longleftrightarrow> s \<noteq> [] \<and> lower_digit (hd s) \<and> lower_digit (last s) \<and> list_all label_char s"

text \<open>What the builder of \<open>slugFor\<close> holds: a label that may still end in one hyphen.\<close>

definition slug_part :: "string \<Rightarrow> bool" where
  "slug_part b \<longleftrightarrow> list_all label_char b \<and> (b \<noteq> [] \<longrightarrow> lower_digit (hd b)) \<and>
     (b \<noteq> [] \<and> last b = CHR ''-'' \<longrightarrow> butlast b \<noteq> [] \<and> last (butlast b) \<noteq> CHR ''-'')"

lemma dash_not_lower: "\<not> lower_digit (CHR ''-'')"
  by (simp add: lower_digit_def is_digit_def)

lemma slug_part_digit: "slug_part b \<Longrightarrow> lower_digit ch \<Longrightarrow> slug_part (b @ [ch])"
  by (cases b) (auto simp: slug_part_def label_char_def dash_not_lower)

lemma slug_part_dash: "slug_part b \<Longrightarrow> b \<noteq> [] \<Longrightarrow> last b \<noteq> CHR ''-'' \<Longrightarrow> slug_part (b @ [CHR ''-''])"
  by (auto simp: slug_part_def label_char_def)

lemma slug_body_part: "slug_part b \<Longrightarrow> length b < 40 \<Longrightarrow> slug_part (slug_body b s) \<and> length (slug_body b s) \<le> 40"
proof (induction b s rule: slug_body.induct)
  case (1 b)
  then show ?case by simp
next
  case (2 b ch s)
  define b' where "b' = (if lower_digit ch then b @ [ch] else if b \<noteq> [] \<and> last b \<noteq> CHR ''-'' then b @ [CHR ''-''] else b)"
  have b': "slug_part b'" "length b' \<le> 40"
    using 2(2,3) slug_part_digit slug_part_dash by (auto simp: b'_def)
  have "slug_body b (ch # s) = (if 40 \<le> length b' then b' else slug_body b' s)"
    by (simp add: b'_def Let_def)
  then show ?case using b' 2(1) [OF b'_def] by auto
qed

lemma trimmed_label:
  assumes "slug_part b" and "base = (if b \<noteq> [] \<and> last b = CHR ''-'' then butlast b else b)" and "base \<noteq> []"
  shows "dns_label base \<and> length base \<le> length b"
proof (cases "b \<noteq> [] \<and> last b = CHR ''-''")
  case True
  then obtain x where x: "b = x @ [CHR ''-'']" by (metis append_butlast_last_id)
  then have "base = x" using assms(2) by simp
  then show ?thesis
    using assms(1,3) x by (auto simp: slug_part_def dns_label_def label_char_def list_all_iff)
next
  case False
  then have "base = b" using assms(2) by auto
  moreover have "lower_digit (last b)"
    using assms(1,3) False \<open>base = b\<close> by (auto simp: slug_part_def label_char_def list_all_iff)
  ultimately show ?thesis using assms(1,3) by (simp add: slug_part_def dns_label_def)
qed

lemma shop_label: "dns_label ''shop''"
  by code_simp

lemma reserved_no_dash: "list_all (\<lambda>r. CHR ''-'' \<notin> set r) reserved_slugs"
  by code_simp

lemma order_prefix_upper: "order_prefix_ok p \<longleftrightarrow> 2 \<le> length p \<and> length p \<le> 6 \<and> list_all upper_digit p"
  by (simp add: order_prefix_ok_def upper_digit_def [abs_def])

lemma shop_prefix: "order_prefix_ok ''SHOP''"
  by code_simp

lemma prefix_for_ok: "order_prefix_ok (prefix_for up name)"
proof -
  define b where "b = take 3 (filter upper_digit (up name))"
  have "list_all upper_digit b" "length b \<le> 3"
    by (auto simp: b_def list_all_iff dest: in_set_takeD)
  then have "2 \<le> length b \<Longrightarrow> order_prefix_ok b"
    unfolding order_prefix_upper by linarith
  then show ?thesis
    unfolding prefix_for_def b_def [symmetric] Let_def using shop_prefix by (cases "length b < 2") simp_all
qed

text \<open>A new shop always gets names it can trade under (BR-029, BR-140): whatever the shop is called, its first
  order prefix is one the database accepts, and its first address is a DNS label of 6 to 47
  characters that is none of the platform's own hosts.\<close>

theorem signup_names_valid:
  assumes "length rand = 6" and "list_all lower_digit rand"
  shows "order_prefix_ok (prefix_for up name) \<and> dns_label (slug_for low rand name) \<and>
    6 \<le> length (slug_for low rand name) \<and> length (slug_for low rand name) \<le> 47 \<and> slug_for low rand name \<notin> set reserved_slugs"
proof -
  define b where "b = slug_body [] (low name)"
  define base where "base = (if b \<noteq> [] \<and> last b = CHR ''-'' then butlast b else b)"
  define base' where "base' = (if base = [] then ''shop'' else base)"
  have slug: "slug_for low rand name = base' @ ''-'' @ rand"
    by (simp add: slug_for_def b_def base_def base'_def Let_def)
  have b: "slug_part b" "length b \<le> 40"
    using slug_body_part [of "[]" "low name"] by (auto simp: b_def slug_part_def)
  have base': "dns_label base' \<and> length base' \<le> 40"
    using trimmed_label [OF b(1) base_def] b(2) shop_label by (auto simp: base'_def)
  then have "dns_label (base' @ ''-'' @ rand)"
    using assms by (auto simp: dns_label_def label_char_def list_all_iff hd_append)
  moreover have "base' @ ''-'' @ rand \<notin> set reserved_slugs"
    using reserved_no_dash by (auto simp: list_all_iff)
  ultimately show ?thesis
    using prefix_for_ok base' assms(1) by (simp add: slug)
qed

theorem signup_names_valid_witness:
  "order_prefix_ok (prefix_for (\<lambda>x. x) ''TOKO'') \<and> dns_label (slug_for (\<lambda>x. x) ''a1b2c3'' ''toko kopi'')"
  using signup_names_valid [of "''a1b2c3''" "\<lambda>x. x" "''TOKO''" "\<lambda>x. x"] signup_names_valid [of "''a1b2c3''" "\<lambda>x. x" "''toko kopi''"]
  by (simp add: lower_digit_def is_digit_def)

text \<open>An address of a long-named shop is longer than the settings form accepts: it can be kept, not saved again.\<close>

lemma signup_slug_too_long: "\<not> shop_slug (slug_for (\<lambda>x. x) ''a1b2c3'' (replicate 40 (CHR ''a'')))"
  by code_simp

section \<open>Registering\<close>

lemma resend_signup_ok: "fst (resend_signup lc up address w) = Inr ()"
  by (auto simp: resend_signup_def lookup_user_def split: option.splits)

lemma email_taken: "taken (unique_violation ''users_email_key'')"
  by (simp add: taken_def unique_violation_def)

text \<open>Opening a shop never tells whether an email has an account (BR-021): for a well-formed request the
  answer is the same success whoever already uses the address, and when someone does, no shop is opened.\<close>

theorem signup_discloses_nothing:
  assumes "valid_signup sl (trim_space shop) (trim_space name) (trim_space address) = Inr ()"
    and "sl_tenant sl \<notin> tn_id ` set (tenants (sw_db w))" and "sl_owner sl \<notin> us_id ` set (users (sw_db w))"
    and "slug_for (sl_low sl) (sl_suffix sl) (trim_space shop) \<notin> tn_slug ` set (tenants (sw_db w))"
  shows "fst (register sl lc up c ip shop name address w) = Inr () \<and>
    ((\<exists>u \<in> set (users (sw_db w)). lc (us_email u) = lc (trim_space address)) \<longrightarrow>
       sw_db (snd (register sl lc up c ip shop name address w)) = sw_db w)"
proof -
  let ?c = "signup_ctx sl c ip" and ?s = "sw_db w"
  let ?tx = "open_tx sl ?c (trim_space shop) (trim_space address) [] (invite_user lc ?c (sl_owner sl) (trim_space address) (trim_space name) role_owner)"
  have c: "c_tenant ?c = Some (sl_tenant sl)" "tenant_of ?c = sl_tenant sl"
    by (simp_all add: signup_ctx_def with_tenant_def tenant_of_def)
  have role: "role_owner \<in> {role_owner, role_admin, role_ops, role_viewer}" by simp
  obtain s1 sh where s1: "create_tenant ?c (trim_space shop) (slug_for (sl_low sl) (sl_suffix sl) (trim_space shop)) (prefix_for (sl_up sl) (trim_space shop)) ?s = Inr (sh, s1)"
    "users s1 = users ?s" "sl_tenant sl \<in> tn_id ` set (tenants s1)"
  proof -
    have "\<exists>sh s1. create_tenant ?c (trim_space shop) (slug_for (sl_low sl) (sl_suffix sl) (trim_space shop)) (prefix_for (sl_up sl) (trim_space shop)) ?s = Inr (sh, s1) \<and>
        users s1 = users ?s \<and> sl_tenant sl \<in> tn_id ` set (tenants s1)"
      using assms(2,4) by (simp add: create_tenant_def Let_def thenT_def bindT_def guardT_def retT_def writeT_def prefix_for_ok c)
    then show thesis using that by blast
  qed
  show ?thesis
  proof (cases "\<exists>u \<in> set (users ?s). lc (us_email u) = lc (trim_space address)")
    case True
    then have "invite_user lc ?c (sl_owner sl) (trim_space address) (trim_space name) role_owner s1 = Inl (unique_violation ''users_email_key'')"
      using assms(3) s1(2) role
      by (auto simp: invite_user_def insert_user_def new_user_def thenT_def bindT_def guardT_def list_all_iff)
    then have "in_tenant_tx ?c ?tx ?s = (Inl (unique_violation ''users_email_key''), ?s)"
      using s1(1) c by (simp add: in_tenant_tx_def run_tx_def open_tx_def thenT_def bindT_def)
    moreover have "sw_db (snd (resend_signup lc up (trim_space address) w)) = sw_db w"
      by (auto simp: resend_signup_def split: sum.splits)
    ultimately show ?thesis
      using True assms(1) email_taken resend_signup_ok by (simp add: register_def Let_def)
  next
    case False
    then obtain s2 r where "invite_user lc ?c (sl_owner sl) (trim_space address) (trim_space name) role_owner s1 = Inr (r, s2)"
      using assms(3) s1(2,3) role c
      by (auto simp: invite_user_def insert_user_def new_user_def thenT_def bindT_def guardT_def list_all_iff writeT_def retT_def)
    then obtain s3 where "in_tenant_tx ?c ?tx ?s = (Inr (), s3)"
      using s1(1) c by (auto simp: in_tenant_tx_def run_tx_def open_tx_def thenT_def bindT_def audit_def writeT_def)
    then show ?thesis using False assms(1) by (simp add: register_def Let_def)
  qed
qed

section \<open>Samples\<close>

theorem keeps_an_owner_witness:
  "has_owner 1 (snd (update_staff_op (owner_ctx 3) 3 (Some role_admin) None None staff_db))"
  by (rule keeps_an_owner) (simp_all add: staff_db_def rina_def has_owner_def)

definition disabled_budi :: "(err + user) \<times> db" where
  "disabled_budi = update_staff_op (owner_ctx 3) 4 None (Some S_disabled) None two_owners"

lemma disabled_budi_ok: "\<exists>r s'. disabled_budi = (Inr r, s')"
  by (rule not_left) code_simp

theorem staff_update_exact_witness: "\<exists>r s'. disabled_budi = (Inr r, s') \<and> us_status r = S_disabled"
proof -
  obtain r s' where r: "disabled_budi = (Inr r, s')" using disabled_budi_ok by blast
  show ?thesis
    using r staff_update_exact [OF r [unfolded disabled_budi_def]] by (auto simp: standing_def coalesce_def)
qed

definition sample_signup :: signup_lib where
  "sample_signup = \<lparr>sl_low = map ascii_lower, sl_up = (\<lambda>x. x), sl_suffix = ''a1b2c3'', sl_tenant = 2, sl_owner = 9, sl_address = (\<lambda>_. True)\<rparr>"

theorem signup_discloses_nothing_witness:
  "fst (register sample_signup (map ascii_lower) True staff_ctx None ''Kopi'' ''Rina'' ''rina@toko.id'' \<lparr>sw_db = staff_db, sw_mail = []\<rparr>) = Inr ()"
  by (rule conjunct1 [OF signup_discloses_nothing]) code_simp+

end
