(* ===== verification/Rotation.thy ===== *)
theory Rotation
  imports Team "HOL-Library.Multiset"
begin

text \<open>
  Refresh tokens under concurrency (BR-022). Signing in and refreshing take two transactions: a check, and
  the one that stores the new token. Between the two the check's \<open>permit\<close> is in flight, and any
  number of requests run in between. \<open>auth_step\<close> is one transaction of one request; a state is the
  database and the permits in flight.\<close>

section \<open>The steps\<close>

type_synonym auth_state = "db \<times> permit list"

definition sign_in_permit :: "auth_user \<Rightarrow> permit" where
  "sign_in_permit u = \<lparr>pm_tenant = lu_tenant u, pm_user = lu_id u, pm_role = lu_role u, pm_from = None\<rparr>"

inductive auth_step :: "auth_env \<Rightarrow> auth_state \<Rightarrow> auth_state \<Rightarrow> bool" for ev where
  login: "login_check ev email password s = Inr pm \<Longrightarrow> auth_step ev (s, ps) (s, pm # ps)"
| google: "lookup_user (ev_fold ev) email s = Inr u \<Longrightarrow> lu_status u = S_active \<Longrightarrow>
    auth_step ev (s, ps) (s, sign_in_permit u # ps)"
| google_invited: "lookup_user (ev_fold ev) email s = Inr u \<Longrightarrow> lu_status u = S_invited \<Longrightarrow> tc = acting_for (lu_tenant u) (lu_id u) c \<Longrightarrow>
    in_tenant_tx tc (google_accept_tx tc (lu_id u)) s = (Inr (), s') \<Longrightarrow> auth_step ev (s, ps) (s', sign_in_permit u # ps)"
| accept: "tc = acting_for t u c \<Longrightarrow> in_tenant_tx tc (accept_tx tc u hash) s = (Inr pm, s') \<Longrightarrow> auth_step ev (s, ps) (s', pm # ps)"
| reset: "tc = acting_for t u c \<Longrightarrow> in_tenant_tx tc (reset_tx ev tc token u hash) s = (Inr pm, s') \<Longrightarrow> auth_step ev (s, ps) (s', pm # ps)"
| opened: "auth_step ev (s, ps) (s, \<lparr>pm_tenant = t, pm_user = u, pm_role = role, pm_from = None\<rparr> # ps)"
| rotated: "refresh_check ev c presented s = (Inr pm, s') \<Longrightarrow> auth_step ev (s, ps) (s', pm # ps)"
| refused: "refresh_check ev c presented s = (Inl e, s') \<Longrightarrow> auth_step ev (s, ps) (s', ps)"
| issued: "pm \<in> set ps \<Longrightarrow> issue ev fr c pm s = (res, s') \<Longrightarrow> auth_step ev (s, ps) (s', remove1 pm ps)"
| signed_out: "logout ev c presented s = (out, s') \<Longrightarrow> auth_step ev (s, ps) (s', ps)"
| staff: "update_staff_op c u role st b s = (user, s') \<Longrightarrow> auth_step ev (s, ps) (s', ps)"
| elsewhere: "refresh_tokens s' = refresh_tokens s \<Longrightarrow> auth_step ev (s, ps) (s', ps)"

definition auth_run :: "auth_env \<Rightarrow> auth_state \<Rightarrow> auth_state \<Rightarrow> bool" where
  "auth_run ev = (auth_step ev)\<^sup>*\<^sup>*"

lemma auth_run_step: "auth_run ev x y \<Longrightarrow> auth_step ev y z \<Longrightarrow> auth_run ev x z"
  by (simp add: auth_run_def)

lemma auth_run_refl [simp]: "auth_run ev x x"
  by (simp add: auth_run_def)

section \<open>Tokens age: they are revoked, and nothing else\<close>

definition aged :: "refresh_token \<Rightarrow> refresh_token \<Rightarrow> bool" where
  "aged a b \<longleftrightarrow> b = a\<lparr>rt_revoked_at := rt_revoked_at b\<rparr> \<and> (rt_revoked_at a \<noteq> None \<longrightarrow> rt_revoked_at b = rt_revoked_at a)"

definition ages :: "db \<Rightarrow> db \<Rightarrow> bool" where
  "ages s s' \<longleftrightarrow> list_all2 aged (refresh_tokens s) (refresh_tokens s')"

lemma aged_refl: "aged a a"
  by (simp add: aged_def)

lemma aged_fields: "aged a b \<Longrightarrow> rt_id b = rt_id a \<and> rt_tenant b = rt_tenant a \<and> rt_user b = rt_user a \<and>
    rt_rotated_from b = rt_rotated_from a \<and> rt_token_hash b = rt_token_hash a \<and> (rt_revoked_at a \<noteq> None \<longrightarrow> rt_revoked_at b \<noteq> None)"
  unfolding aged_def by (cases b, cases a) auto

lemma aged_trans: "aged a b \<Longrightarrow> aged b d \<Longrightarrow> aged a d"
  unfolding aged_def by (cases a, cases b, cases d) auto

interpretation age: tx_relation ages
proof
  show "ages s s" for s
    by (simp add: ages_def list.rel_refl aged_refl)
  show "ages s u" if "ages s t" "ages t u" for s t u
    using that list_all2_trans [of aged aged aged] aged_trans unfolding ages_def by blast
qed

lemma ages_same: "refresh_tokens s' = refresh_tokens s \<Longrightarrow> ages s s'"
  using age.R_refl [of s] by (simp add: ages_def)

named_theorems aging \<open>statements that at most revoke refresh tokens\<close>

lemma revoked_rows_age: "ages s (revoked_rows c p s)"
  by (auto simp: ages_def revoked_rows_def list.rel_map aged_def intro!: list.rel_refl)

lemma revoke_age [aging]: "within ages (revoke_where c p)"
  by (rule withinI) (auto simp: revoke_Inr revoked_rows_age)

lemma oneT_age [aging]: "within ages (oneT g)"
  by (rule age.failed_or_same) simp

lemma audit_age [aging]: "within ages (audit c e)"
  by (rule withinI) (auto intro: ages_same)

lemma guard_age [aging]: "within ages (guardT p e)"
  by (rule withinI) (auto intro: ages_same)

lemma update_user_age [aging]: "within ages (update_user c u p f)"
  by (rule withinI) (auto simp: update_user_Inr intro: ages_same)

lemma set_password_age [aging]: "within ages (set_user_password c u new old)"
  by (rule withinI) (auto simp: set_user_password_def intro!: ages_same split: option.splits if_splits)

lemmas statements_age [aging] = age.rules

lemma google_accept_age: "within ages (google_accept_tx c u)"
  unfolding google_accept_tx_def activate_invited_def by (intro aging)

lemma accept_age: "within ages (accept_tx c u hash)"
  unfolding accept_tx_def accept_invitation_def by (intro aging)

lemma reset_age: "within ages (reset_tx ev c token u hash)"
  unfolding reset_tx_def get_user_def revoke_all_user_tokens_def by (intro aging)

lemma update_staff_age: "within ages (update_staff c u role st b)"
  unfolding update_staff_def update_check_def update_write_def write_role_def write_status_def write_bio_def get_user_def
    other_active_owners_def set_user_role_def set_user_status_def set_user_bio_def revoke_all_user_tokens_def
  by (intro aging)

lemma in_tx_age: "within ages m \<Longrightarrow> in_tenant_tx c m s = (res, s') \<Longrightarrow> ages s s'"
  using in_tenant_tx_within [OF age.tx_relation_axioms] by (metis snd_conv)

lemma update_staff_op_age: "update_staff_op c u role st b s = (res, s') \<Longrightarrow> ages s s'"
  using in_tx_age [OF update_staff_age] age.R_refl by (auto simp: update_staff_op_def split: sum.splits if_splits)

lemma logout_age: "logout ev c presented s = (res, s') \<Longrightarrow> ages s s'"
proof -
  have "within ages (bindT (revoke_refresh_token tc i) (\<lambda>_. retT ()))" for tc i
    unfolding revoke_refresh_token_def by (intro aging)
  note in_tx_age [OF this]
  then show "logout ev c presented s = (res, s') \<Longrightarrow> ages s s'"
    using age.R_refl by (auto simp: logout_def Let_def split: if_splits sum.splits)
qed

lemma in_tx_Inl: "in_tenant_tx c m s = (Inl e, s') \<Longrightarrow> s' = s"
  using in_tenant_tx_failed [of c m s e] by simp

lemma refused_age: "refresh_check ev c presented s = (Inl e, s') \<Longrightarrow> ages s s'"
  using revoked_rows_age age.R_refl by (auto simp: refresh_check_cases dest!: in_tx_Inl split: option.splits if_splits)

section \<open>The invariant\<close>

definition rotations :: "refresh_token list \<Rightarrow> uuid list" where
  "rotations ts = List.map_filter rt_rotated_from ts"

definition in_flight :: "permit list \<Rightarrow> uuid list" where
  "in_flight ps = List.map_filter pm_from ps"

text \<open>A token of this user of this shop that is revoked.\<close>

definition retired :: "refresh_token list \<Rightarrow> uuid \<Rightarrow> uuid \<Rightarrow> uuid \<Rightarrow> bool" where
  "retired ts t u f \<longleftrightarrow> (\<exists>b \<in> set ts. rt_id b = f \<and> rt_tenant b = t \<and> rt_user b = u \<and> rt_revoked_at b \<noteq> None)"

definition chained :: "auth_state \<Rightarrow> bool" where
  "chained st \<longleftrightarrow> (let ts = refresh_tokens (fst st); ps = snd st in
     distinct (map rt_id ts) \<and> distinct (rotations ts @ in_flight ps) \<and>
     (\<forall>a \<in> set ts. \<forall>f. rt_rotated_from a = Some f \<longrightarrow> retired ts (rt_tenant a) (rt_user a) f) \<and>
     (\<forall>p \<in> set ps. \<forall>f. pm_from p = Some f \<longrightarrow> retired ts (pm_tenant p) (pm_user p) f))"

lemma rotations_mem: "f \<in> set (rotations ts) \<longleftrightarrow> (\<exists>a \<in> set ts. rt_rotated_from a = Some f)"
  by (force simp: rotations_def map_filter_def)

lemma in_flight_mem: "f \<in> set (in_flight ps) \<longleftrightarrow> (\<exists>p \<in> set ps. pm_from p = Some f)"
  by (force simp: in_flight_def map_filter_def)

lemma in_flight_Cons: "in_flight (p # ps) = (case pm_from p of None \<Rightarrow> in_flight ps | Some f \<Rightarrow> f # in_flight ps)"
  by (simp add: in_flight_def map_filter_simps split: option.splits)

lemma rotations_snoc: "rotations (ts @ [a]) = rotations ts @ (case rt_rotated_from a of None \<Rightarrow> [] | Some f \<Rightarrow> [f])"
  by (induction ts) (simp_all add: rotations_def map_filter_simps split: option.splits)

lemma aged_same:
  assumes "list_all2 aged ts ts'"
  shows "map rt_id ts' = map rt_id ts" and "rotations ts' = rotations ts"
    and "a' \<in> set ts' \<Longrightarrow> \<exists>a \<in> set ts. aged a a'" and "retired ts t u f \<Longrightarrow> retired ts' t u f"
proof -
  show "map rt_id ts' = map rt_id ts" "rotations ts' = rotations ts"
    using assms by (induction rule: list_all2_induct) (auto simp: rotations_def map_filter_def dest: aged_fields)
  show "a' \<in> set ts' \<Longrightarrow> \<exists>a \<in> set ts. aged a a'"
    using assms by (induction rule: list_all2_induct) auto
  show "retired ts t u f \<Longrightarrow> retired ts' t u f"
    using assms unfolding retired_def by (induction rule: list_all2_induct) (auto dest: aged_fields)
qed

lemma chained_age:
  assumes "chained (s, ps)" and "ages s s'"
  shows "chained (s', ps)"
proof -
  note ts = aged_same [OF assms(2) [unfolded ages_def]]
  have "retired (refresh_tokens s') (rt_tenant a') (rt_user a') f" if a': "a' \<in> set (refresh_tokens s')" "rt_rotated_from a' = Some f" for a' f
  proof -
    obtain a where a: "a \<in> set (refresh_tokens s)" "aged a a'" using ts(3) [OF a'(1)] by blast
    then show ?thesis using assms(1) a'(2) aged_fields [OF a(2)] ts(4) by (auto simp: chained_def Let_def)
  qed
  then show ?thesis using assms(1) ts(1,2,4) by (auto simp: chained_def Let_def)
qed

lemma chained_permit: "chained (s, ps) \<Longrightarrow> pm_from pm = None \<Longrightarrow> chained (s, pm # ps)"
  by (simp add: chained_def in_flight_Cons Let_def)

lemma refresh_check_Inr:
  assumes "refresh_check ev c presented s = (Inr pm, s')"
  obtains r where "r \<in> set (refresh_tokens s)" "rt_revoked_at r = None" "ages s s'"
    "pm_from pm = Some (rt_id r)" "pm_tenant pm = rt_tenant r" "pm_user pm = rt_user r"
    "retired (refresh_tokens s') (rt_tenant r) (rt_user r) (rt_id r)"
proof -
  let ?tc = "\<lambda>r. with_tenant (rt_tenant r) c"
  obtain r where r: "presented_row ev presented s = Some r" "rt_revoked_at r = None"
    and tx: "rotate_tx (?tc r) (auth_token_of r) s = Inr (pm, s')"
    using assms by (auto simp: refresh_check_cases in_tenant_tx_Inr split: option.splits if_splits)
  have mem: "r \<in> set (refresh_tokens s)"
    using r(1) by (auto simp: presented_row_def find_Some_iff)
  have s': "s' = revoked_rows (?tc r) (\<lambda>q. rt_id q = rt_id r) s"
    and pm: "pm_from pm = Some (rt_id r)" "pm_tenant pm = rt_tenant r" "pm_user pm = rt_user r"
    using tx by (auto simp: rotate_tx_Inr)
  have "r\<lparr>rt_revoked_at := Some (c_now c)\<rparr> \<in> set (refresh_tokens s')"
    using mem r(2) by (force simp: s' revoked_rows_def)
  then have "retired (refresh_tokens s') (rt_tenant r) (rt_user r) (rt_id r)"
    unfolding retired_def by (rule bexI [rotated]) simp
  then show thesis using that mem r(2) pm revoked_rows_age s' by blast
qed

lemma live_unrotated:
  assumes "chained (s, ps)" and "r \<in> set (refresh_tokens s)" and "rt_revoked_at r = None"
  shows "rt_id r \<notin> set (rotations (refresh_tokens s)) \<union> set (in_flight ps)"
proof
  assume "rt_id r \<in> set (rotations (refresh_tokens s)) \<union> set (in_flight ps)"
  then obtain t u where "retired (refresh_tokens s) t u (rt_id r)"
    using assms(1) by (auto simp: chained_def Let_def rotations_mem in_flight_mem)
  then obtain b where b: "b \<in> set (refresh_tokens s)" "rt_id b = rt_id r" "rt_revoked_at b \<noteq> None"
    by (auto simp: retired_def)
  moreover have "inj_on rt_id (set (refresh_tokens s))"
    using assms(1) by (simp add: chained_def Let_def distinct_map)
  ultimately have "b = r" using assms(2) by (auto dest: inj_onD)
  then show False using b(3) assms(3) by simp
qed

lemma chained_rotated: "chained (s, ps) \<Longrightarrow> refresh_check ev c presented s = (Inr pm, s') \<Longrightarrow> chained (s', pm # ps)"
proof -
  assume ch: "chained (s, ps)" and "refresh_check ev c presented s = (Inr pm, s')"
  then obtain r where r: "r \<in> set (refresh_tokens s)" "rt_revoked_at r = None" "ages s s'"
    "pm_from pm = Some (rt_id r)" "pm_tenant pm = rt_tenant r" "pm_user pm = rt_user r"
    "retired (refresh_tokens s') (rt_tenant r) (rt_user r) (rt_id r)"
    by (elim refresh_check_Inr)
  have "rt_id r \<notin> set (rotations (refresh_tokens s')) \<union> set (in_flight ps)"
    using live_unrotated [OF ch r(1,2)] aged_same(2) [OF r(3) [unfolded ages_def]] by simp
  then show ?thesis
    using chained_age [OF ch r(3)] r(4-7) by (auto simp: chained_def in_flight_Cons Let_def)
qed

lemma in_flight_remove1: "p \<in> set ps \<Longrightarrow> mset (in_flight ps) = mset (in_flight [p]) + mset (in_flight (remove1 p ps))"
  by (induction ps) (auto simp: in_flight_Cons in_flight_def [of "[]"] map_filter_simps split: option.splits)

lemma in_flight_rest:
  assumes "p \<in> set ps"
  shows "set (in_flight (remove1 p ps)) \<subseteq> set (in_flight ps) \<and> (distinct (in_flight ps) \<longrightarrow> distinct (in_flight (remove1 p ps)))"
proof -
  have m: "mset (in_flight ps) = mset (in_flight [p] @ in_flight (remove1 p ps))"
    using in_flight_remove1 [OF assms] by simp
  from mset_eq_setD [OF m] mset_eq_imp_distinct_iff [OF m] show ?thesis by auto
qed

lemma issue_failed: "issue ev fr c pm s = (Inl e, s') \<Longrightarrow> s' = s"
  by (auto simp: issue_def dest: in_tx_Inl split: sum.splits)

lemma chained_issued:
  assumes ch: "chained (s, ps)" and p: "pm \<in> set ps" and "issue ev fr c pm s = (res, s')"
  shows "chained (s', remove1 pm ps)"
proof (cases res)
  case (Inl e)
  then have "s' = s" using issue_failed assms(3) by blast
  moreover have "distinct (rotations (refresh_tokens s) @ in_flight (remove1 pm ps))"
    using ch in_flight_rest [OF p] by (auto simp: chained_def Let_def)
  ultimately show ?thesis using ch by (auto simp: chained_def Let_def dest: notin_set_remove1)
next
  case (Inr se)
  let ?row = "issued_row ev fr c pm"
  have add: "refresh_tokens s' = refresh_tokens s @ [?row]" "fr_id fr \<notin> rt_id ` set (refresh_tokens s)"
    using issue_adds assms(3) Inr by blast+
  have row: "rt_id ?row = fr_id fr" "rt_tenant ?row = pm_tenant pm" "rt_user ?row = pm_user pm" "rt_rotated_from ?row = pm_from pm"
    by (simp_all add: issued_row_def)
  have "in_flight [pm] = (case pm_from pm of None \<Rightarrow> [] | Some f \<Rightarrow> [f])"
    by (simp add: in_flight_def map_filter_simps split: option.splits)
  then have "mset (rotations (refresh_tokens s') @ in_flight (remove1 pm ps)) = mset (rotations (refresh_tokens s) @ in_flight ps)"
    using in_flight_remove1 [OF p] by (simp add: add rotations_snoc row)
  then have d: "distinct (rotations (refresh_tokens s') @ in_flight (remove1 pm ps))"
    using ch mset_eq_imp_distinct_iff unfolding chained_def Let_def fst_conv snd_conv by blast
  have mono: "retired (refresh_tokens s) t u f \<Longrightarrow> retired (refresh_tokens s') t u f" for t u f
    by (auto simp: retired_def add)
  have "distinct (map rt_id (refresh_tokens s'))"
    using ch add row by (auto simp: chained_def Let_def)
  moreover have "\<forall>a \<in> set (refresh_tokens s'). \<forall>f. rt_rotated_from a = Some f \<longrightarrow> retired (refresh_tokens s') (rt_tenant a) (rt_user a) f"
    using ch mono p by (simp add: chained_def Let_def add(1) row)
  moreover have "\<forall>q \<in> set (remove1 pm ps). \<forall>f. pm_from q = Some f \<longrightarrow> retired (refresh_tokens s') (pm_tenant q) (pm_user q) f"
    using ch mono set_remove1_subset [of pm ps] by (auto simp: chained_def Let_def)
  ultimately show ?thesis using d by (simp add: chained_def Let_def)
qed

section \<open>Every step keeps the chains\<close>

lemma step_keeps_chains: "auth_step ev x y \<Longrightarrow> chained x \<Longrightarrow> chained y"
proof (induction rule: auth_step.induct)
  case (login email password s pm ps)
  then show ?case by (intro chained_permit) (auto simp: login_check_eq split: option.splits)
next
  case (google email s u ps)
  then show ?case by (intro chained_permit) (simp_all add: sign_in_permit_def)
next
  case (google_invited email s u tc c s' ps)
  then have "chained (s', ps)" using chained_age in_tx_age [OF google_accept_age] by blast
  then show ?case by (rule chained_permit) (simp add: sign_in_permit_def)
next
  case (accept tc t u c hash s pm s' ps)
  then have "pm_from pm = None" by (auto simp: in_tenant_tx_Inr accept_tx_def tx_inr)
  then show ?case using accept chained_permit chained_age [OF _ in_tx_age [OF accept_age]] by blast
next
  case (reset tc t u c token hash s pm s' ps)
  then have "pm_from pm = None" by (auto simp: in_tenant_tx_Inr dest!: reset_tx_Inr)
  then show ?case using reset chained_permit chained_age [OF _ in_tx_age [OF reset_age]] by blast
next
  case (opened s ps t u role)
  then show ?case by (intro chained_permit) simp_all
next
  case (rotated c presented s pm s' ps)
  then show ?case by (intro chained_rotated)
next
  case (refused c presented s e s' ps)
  then show ?case using chained_age refused_age by blast
next
  case (issued pm ps fr c s res s')
  then show ?case by (intro chained_issued)
next
  case (signed_out c presented s out s' ps)
  then show ?case using chained_age logout_age by blast
next
  case (staff c u role st b s user s' ps)
  then show ?case using chained_age update_staff_op_age by blast
next
  case (elsewhere s' s ps)
  then show ?case using chained_age ages_same by blast
qed

lemma run_keeps_chains: "auth_run ev x y \<Longrightarrow> chained x \<Longrightarrow> chained y"
  unfolding auth_run_def by (induction rule: rtranclp_induct) (auto intro: step_keeps_chains)

lemma chained_empty: "refresh_tokens s = [] \<Longrightarrow> chained (s, [])"
  by (simp add: chained_def rotations_def in_flight_def map_filter_simps)

text \<open>The operations of the service are runs: what one call does is a check and then an issue.\<close>

lemma issue_run: "auth_step ev (s, ps) (s1, pm # ps) \<Longrightarrow> issue ev fr c pm s1 = (res, s') \<Longrightarrow> auth_run ev (s, ps) (s', ps)"
  using issued [of pm "pm # ps" ev fr c s1 res s'] by (auto simp: auth_run_def intro: converse_rtranclp_into_rtranclp)

lemma login_run: "login ev fr c email password s = (res, s') \<Longrightarrow> auth_run ev (s, ps) (s', ps)"
  by (auto simp: login_def split: sum.splits intro: issue_run [OF auth_step.login])

lemma refresh_run: "refresh ev fr c presented s = (res, s') \<Longrightarrow> auth_run ev (s, ps) (s', ps)"
  by (auto simp: refresh_def split: sum.splits prod.splits
      intro: issue_run [OF auth_step.rotated] auth_run_step [OF auth_run_refl auth_step.refused])

lemma rotations_once: "distinct (rotations ts) \<Longrightarrow> a \<in> set ts \<Longrightarrow> b \<in> set ts \<Longrightarrow> rt_rotated_from a = Some f \<Longrightarrow> rt_rotated_from b = Some f \<Longrightarrow> a = b"
proof (induction ts)
  case Nil
  then show ?case by simp
next
  case (Cons x ts)
  have cons: "rotations (x # ts) = (case rt_rotated_from x of None \<Rightarrow> rotations ts | Some g \<Rightarrow> g # rotations ts)"
    by (simp add: rotations_def map_filter_simps split: option.splits)
  show ?case using Cons rotations_mem [of f ts] by (fastforce simp: cons split: option.splits)
qed



section \<open>Disabled while refreshing\<close>

text \<open>
  Nothing ties the permit to the user's status: a refresh whose first transaction has committed when the
  user is disabled stores its new token afterwards, the revocation has missed it, and since no refresh looks at the status, the
  disabled user's session can be renewed for ever (against BR-027, out within 15 minutes).\<close>

definition budis_db :: db where
  "budis_db = two_owners\<lparr>refresh_tokens := [(sample_token 31 ''tsrif'' None None)\<lparr>rt_user := 4\<rparr>]\<rparr>"

definition raced :: "(err + session) \<times> (err + session) \<times> db" where
  "raced = (case refresh_check sample_env staff_ctx ''first'' budis_db of
      (Inl e, s) \<Rightarrow> (Inl e, Inl e, s)
    | (Inr pm, s) \<Rightarrow>
        (let s1 = snd (update_staff_op (owner_ctx 3) 4 None (Some S_disabled) None s);
             (r2, s2) = issue sample_env \<lparr>fr_token = ''second'', fr_id = 32\<rparr> staff_ctx pm s1;
             (r3, s3) = refresh sample_env \<lparr>fr_token = ''third'', fr_id = 33\<rparr> staff_ctx ''second'' s2 in (r2, r3, s3)))"

lemma disabled_keeps_refreshing: "case raced of (r2, r3, s) \<Rightarrow> \<not> isl r2 \<and> \<not> isl r3 \<and>
    map (\<lambda>u. (us_id u, us_status u)) (users s) = [(3, S_active), (4, S_disabled)] \<and>
    map (\<lambda>k. (rt_id k, rt_user k, rt_revoked_at k = None)) (refresh_tokens s) = [(31, 4, False), (32, 4, False), (33, 4, True)]"
  by code_simp

end
