(* ===== verification/CatalogQueries.thy ===== *)
theory CatalogQueries
  imports CheckoutQueries "HOL-Library.Char_ord" "HOL-Library.List_Lexorder"
begin

text \<open>
  The statements of the catalog (internal/db/sqlcgen/products.sql.go, variants.sql.go, brands.sql.go) with
  the constraints of migrations 000008, 000011, 000012, 000013 and 000015 in the order PostgreSQL
  tries them: CHECKs by name, then unique indexes, then foreign keys. \<open>pg_text\<close> is what the database
  does with text and the code cannot see: \<open>lower(unaccent(_))\<close>, the collation (as a sort key) and \<open>ILIKE\<close>.\<close>

record pg_text =
  pt_fold :: "string \<Rightarrow> string"
  pt_key :: "string \<Rightarrow> string"
  pt_ilike :: "string \<Rightarrow> string \<Rightarrow> bool"

section \<open>Slugs\<close>

definition slug_char :: "char \<Rightarrow> bool" where
  "slug_char ch \<longleftrightarrow> is_digit ch \<or> 97 \<le> (of_char ch :: nat) \<and> (of_char ch :: nat) \<le> 122"

text \<open>\<open>regexp_replace(_, '[^a-z0-9]+', sep, 'g')\<close>: \<open>b\<close> is whether a run of other characters was just replaced.\<close>

fun runs_to :: "char \<Rightarrow> bool \<Rightarrow> string \<Rightarrow> string" where
  "runs_to sep b [] = []"
| "runs_to sep b (ch # s) =
    (if slug_char ch then ch # runs_to sep False s else if b then runs_to sep True s else sep # runs_to sep True s)"

definition trim_both :: "char \<Rightarrow> string \<Rightarrow> string" where
  "trim_both ch s = rev (dropWhile (\<lambda>x. x = ch) (rev (dropWhile (\<lambda>x. x = ch) s)))"

definition slugify :: "pg_text \<Rightarrow> string \<Rightarrow> string" where
  "slugify pg txt = trim_both (CHR ''-'') (runs_to (CHR ''-'') False (pt_fold pg txt))"

text \<open>The pattern \<open>^[a-z0-9]+(-[a-z0-9]+)*$\<close> the handlers accept, as a scan.\<close>

fun slug_rest :: "string \<Rightarrow> bool" where
  "slug_rest [] = True"
| "slug_rest (ch # s) = (if slug_char ch then slug_rest s else ch = CHR ''-'' \<and> s \<noteq> [] \<and> slug_char (hd s) \<and> slug_rest s)"

definition slug_pattern :: "string \<Rightarrow> bool" where
  "slug_pattern s \<longleftrightarrow> s \<noteq> [] \<and> slug_char (hd s) \<and> slug_rest s"

section \<open>Products\<close>

definition upd_product :: "uuid \<Rightarrow> uuid \<Rightarrow> (product \<Rightarrow> product) \<Rightarrow> db \<Rightarrow> db" where
  "upd_product t i f s = s\<lparr>products := row_upd pr_tenant pr_id t i f (products s)\<rparr>"

definition get_product :: "ctx \<Rightarrow> uuid \<Rightarrow> product stmt" where
  "get_product c i = oneT (get_product_row (tenant_of c) i)"

definition lock_product :: "ctx \<Rightarrow> uuid \<Rightarrow> product stmt" where
  "lock_product c i = oneT (get_product_row (tenant_of c) i)"

definition product_slug_taken :: "ctx \<Rightarrow> string \<Rightarrow> uuid option \<Rightarrow> bool stmt" where
  "product_slug_taken c slug except =
    readT (\<lambda>s. list_ex (\<lambda>p. pr_tenant p = tenant_of c \<and> pr_slug p = slug \<and> Some (pr_id p) \<noteq> except) (products s))"

definition brand_ref_ok :: "product \<Rightarrow> db \<Rightarrow> bool" where
  "brand_ref_ok p s \<longleftrightarrow> (case pr_brand p of None \<Rightarrow> True
     | Some b \<Rightarrow> list_ex (\<lambda>x. br_id x = b \<and> br_tenant x = pr_tenant p) (brands s))"

definition product_slug_free :: "product \<Rightarrow> db \<Rightarrow> bool" where
  "product_slug_free p s \<longleftrightarrow> list_all (\<lambda>q. pr_tenant q = pr_tenant p \<and> pr_slug q = pr_slug p \<longrightarrow> pr_id q = pr_id p) (products s)"

record create_product_params =
  cp_id :: uuid
  cp_title :: string
  cp_slug :: string
  cp_description :: "string option"
  cp_brand :: "uuid option"
  cp_attributes :: string

definition new_product :: "ctx \<Rightarrow> create_product_params \<Rightarrow> product" where
  "new_product c p = \<lparr>pr_id = cp_id p, pr_tenant = tenant_of c, pr_title = cp_title p, pr_slug = cp_slug p,
     pr_description = cp_description p, pr_brand = cp_brand p, pr_status = S_draft, pr_attributes = cp_attributes p,
     pr_option_names = [], pr_version = 1, pr_archived_at = None, pr_created_at = c_now c, pr_updated_at = c_now c\<rparr>"

definition create_product :: "ctx \<Rightarrow> create_product_params \<Rightarrow> product stmt" where
  "create_product c p =
    (let r = new_product c p in
     thenT (guardT (\<lambda>s. pr_id r \<notin> pr_id ` set (products s)) (unique_violation ''products_pkey''))
     (thenT (guardT (product_slug_free r) (unique_violation ''products_tenant_id_slug_key''))
     (thenT (guardT (brand_ref_ok r) (fk_violation ''products_same_tenant_as_brand''))
     (thenT (writeT (\<lambda>s. s\<lparr>products := products s @ [r]\<rparr>)) (retT r)))))"

record update_product_params =
  up_title :: "string option"
  up_slug :: "string option"
  up_set_description :: bool
  up_description :: "string option"
  up_set_brand :: bool
  up_brand :: "uuid option"
  up_attributes :: "string option"
  up_status :: "string option"

definition or_else :: "'a option \<Rightarrow> 'a \<Rightarrow> 'a" where
  "or_else x d = (case x of None \<Rightarrow> d | Some y \<Rightarrow> y)"

definition updated_product :: "ctx \<Rightarrow> update_product_params \<Rightarrow> product \<Rightarrow> product" where
  "updated_product c p r = r\<lparr>pr_title := or_else (up_title p) (pr_title r), pr_slug := or_else (up_slug p) (pr_slug r),
     pr_description := (if up_set_description p then up_description p else pr_description r),
     pr_brand := (if up_set_brand p then up_brand p else pr_brand r),
     pr_status := or_else (up_status p) (pr_status r), pr_attributes := or_else (up_attributes p) (pr_attributes r),
     pr_version := pr_version r + 1, pr_updated_at := c_now c\<rparr>"

definition update_product :: "ctx \<Rightarrow> uuid \<Rightarrow> int \<Rightarrow> update_product_params \<Rightarrow> product stmt" where
  "update_product c i version p =
    bindT (oneT (\<lambda>s. case get_product_row (tenant_of c) i s of None \<Rightarrow> None | Some r \<Rightarrow> if pr_version r = version then Some r else None)) (\<lambda>r.
    let r' = updated_product c p r in
    thenT (guardT (\<lambda>_. pr_status r' \<in> {S_draft, S_active, S_archived}) (check_violation ''products_status_check''))
    (thenT (guardT (product_slug_free r') (unique_violation ''products_tenant_id_slug_key''))
    (thenT (guardT (brand_ref_ok r') (fk_violation ''products_same_tenant_as_brand''))
    (thenT (writeT (upd_product (tenant_of c) i (updated_product c p))) (retT r')))))"

definition archived_product :: "ctx \<Rightarrow> product \<Rightarrow> product" where
  "archived_product c r = r\<lparr>pr_status := S_archived, pr_archived_at := Some (or_else (pr_archived_at r) (c_now c)),
     pr_version := pr_version r + 1, pr_updated_at := c_now c\<rparr>"

definition archive_product :: "ctx \<Rightarrow> uuid \<Rightarrow> product stmt" where
  "archive_product c i =
    bindT (oneT (get_product_row (tenant_of c) i)) (\<lambda>r.
    thenT (writeT (upd_product (tenant_of c) i (archived_product c))) (retT (archived_product c r)))"

definition bumped_product :: "ctx \<Rightarrow> string list \<Rightarrow> product \<Rightarrow> product" where
  "bumped_product c names r = r\<lparr>pr_option_names := names, pr_version := pr_version r + 1, pr_updated_at := c_now c\<rparr>"

definition bump_product :: "ctx \<Rightarrow> uuid \<Rightarrow> string list \<Rightarrow> int stmt" where
  "bump_product c i names =
    bindT (oneT (get_product_row (tenant_of c) i)) (\<lambda>r.
    thenT (writeT (upd_product (tenant_of c) i (bumped_product c names))) (retT (pr_version r + 1)))"

definition set_product_status :: "ctx \<Rightarrow> uuid \<Rightarrow> string \<Rightarrow> unit stmt" where
  "set_product_status c i st =
    thenT (guardT (\<lambda>s. st \<in> {S_draft, S_active, S_archived} \<or>
        (case get_product_row (tenant_of c) i s of None \<Rightarrow> True | Some r \<Rightarrow> pr_archived_at r \<noteq> None)) (check_violation ''products_status_check''))
     (writeT (upd_product (tenant_of c) i (\<lambda>r. if pr_archived_at r = None
        then r\<lparr>pr_status := st, pr_version := pr_version r + 1, pr_updated_at := c_now c\<rparr> else r)))"

section \<open>What a product belongs to\<close>

definition clear_product_categories :: "ctx \<Rightarrow> uuid \<Rightarrow> unit stmt" where
  "clear_product_categories c i = writeT (\<lambda>s. s\<lparr>product_categories := row_del pc_tenant (\<lambda>r. pc_product r = i) (tenant_of c) (product_categories s)\<rparr>)"

definition add_product_categories :: "ctx \<Rightarrow> uuid \<Rightarrow> uuid list \<Rightarrow> unit stmt" where
  "add_product_categories c i cats =
    thenT (guardT (\<lambda>s. distinct cats \<and> (\<forall>k \<in> set cats. (i, k) \<notin> (\<lambda>r. (pc_product r, pc_category r)) ` set (product_categories s)))
             (unique_violation ''product_categories_pkey''))
    (thenT (guardT (\<lambda>s. cats = [] \<or> get_product_row (tenant_of c) i s \<noteq> None) (fk_violation ''product_categories_same_tenant_as_product''))
    (thenT (guardT (\<lambda>s. list_all (\<lambda>k. list_ex (\<lambda>x. cg_id x = k \<and> cg_tenant x = tenant_of c) (categories s)) cats)
             (fk_violation ''product_categories_same_tenant_as_category''))
     (writeT (\<lambda>s. s\<lparr>product_categories := product_categories s @ map (\<lambda>k. \<lparr>pc_tenant = tenant_of c, pc_product = i, pc_category = k\<rparr>) cats\<rparr>))))"

definition live_category_count :: "ctx \<Rightarrow> uuid list \<Rightarrow> int stmt" where
  "live_category_count c ks = readT (\<lambda>s. int (length (filter (\<lambda>r. cg_id r \<in> set ks \<and> cg_archived_at r = None)
     (rows_of cg_tenant (tenant_of c) (categories s)))))"

record product_category_row =
  pg_id :: uuid
  pg_kind :: string
  pg_name :: string
  pg_path :: string

definition product_categories_of :: "pg_text \<Rightarrow> ctx \<Rightarrow> uuid \<Rightarrow> product_category_row list stmt" where
  "product_categories_of pg c i = readT (\<lambda>s.
     sort_key (\<lambda>r. (pt_key pg (pg_kind r), pg_path r))
      (map (\<lambda>k. \<lparr>pg_id = cg_id k, pg_kind = cg_kind k, pg_name = cg_name k, pg_path = cg_path k\<rparr>)
        (concat (map (\<lambda>r. if pc_product r = i then filter (\<lambda>k. cg_id k = pc_category r) (rows_of cg_tenant (tenant_of c) (categories s)) else [])
          (rows_of pc_tenant (tenant_of c) (product_categories s))))))"

definition live_variants :: "ctx \<Rightarrow> uuid \<Rightarrow> db \<Rightarrow> variant list" where
  "live_variants c i s = filter (\<lambda>v. va_product v = i \<and> va_archived_at v = None) (rows_of va_tenant (tenant_of c) (variants s))"

definition live_variant_count :: "ctx \<Rightarrow> uuid \<Rightarrow> int stmt" where
  "live_variant_count c i = readT (\<lambda>s. int (length (live_variants c i s)))"

text \<open>\<open>PublishFacts\<close>: how many images, and how many categories of kind category.\<close>

definition publish_facts :: "ctx \<Rightarrow> uuid \<Rightarrow> (int \<times> int) stmt" where
  "publish_facts c i = readT (\<lambda>s.
     (int (length (filter (\<lambda>m. md_product m = i) (rows_of md_tenant (tenant_of c) (media s)))),
      int (length (concat (map (\<lambda>r. if pc_product r = i
         then filter (\<lambda>k. cg_id k = pc_category r \<and> cg_kind k = ''category'') (rows_of cg_tenant (tenant_of c) (categories s)) else [])
        (rows_of pc_tenant (tenant_of c) (product_categories s)))))))"

end
