(* ===== verification/VariantQueries.thy ===== *)
theory VariantQueries
  imports CatalogQueries
begin

text \<open>The statements of variants (variants.sql.go) and brands (brands.sql.go).\<close>

section \<open>Variants\<close>

definition upd_variant :: "uuid \<Rightarrow> uuid \<Rightarrow> (variant \<Rightarrow> variant) \<Rightarrow> db \<Rightarrow> db" where
  "upd_variant t i f s = s\<lparr>variants := row_upd va_tenant va_id t i f (variants s)\<rparr>"

text \<open>The CHECKs of the table, in the order of their names.\<close>

definition price_ok :: "variant \<Rightarrow> bool" where
  "price_ok v \<longleftrightarrow> 0 \<le> va_regular_price v"

definition sale_ok :: "variant \<Rightarrow> bool" where
  "sale_ok v \<longleftrightarrow> (case va_sale_price v of None \<Rightarrow> True | Some x \<Rightarrow> 0 \<le> x \<and> x < va_regular_price v)"

definition window_ok :: "variant \<Rightarrow> bool" where
  "window_ok v \<longleftrightarrow> (case va_sale_starts_at v of None \<Rightarrow> True
     | Some a \<Rightarrow> (case va_sale_ends_at v of None \<Rightarrow> True | Some b \<Rightarrow> a < b))"

definition weight_ok :: "variant \<Rightarrow> bool" where
  "weight_ok v \<longleftrightarrow> 0 \<le> va_weight_grams v"

definition variant_checks :: "variant \<Rightarrow> unit stmt" where
  "variant_checks v =
    thenT (guardT (\<lambda>_. price_ok v) (check_violation ''variants_regular_price_amount_check''))
    (thenT (guardT (\<lambda>_. sale_ok v) (check_violation ''variants_sale_below_regular''))
    (thenT (guardT (\<lambda>_. window_ok v) (check_violation ''variants_sale_window''))
     (guardT (\<lambda>_. weight_ok v) (check_violation ''variants_weight_grams_check''))))"

definition sku_free :: "variant \<Rightarrow> db \<Rightarrow> bool" where
  "sku_free v s \<longleftrightarrow> list_all (\<lambda>w. va_tenant w = va_tenant v \<and> va_sku v \<noteq> None \<and> va_sku w = va_sku v \<longrightarrow> va_id w = va_id v) (variants s)"

definition options_free :: "variant \<Rightarrow> db \<Rightarrow> bool" where
  "options_free v s \<longleftrightarrow> va_archived_at v \<noteq> None \<or> list_all (\<lambda>w. va_product w = va_product v \<and> va_option_values w = va_option_values v \<and>
     va_archived_at w = None \<longrightarrow> va_id w = va_id v) (variants s)"

definition variant_unique :: "variant \<Rightarrow> unit stmt" where
  "variant_unique v =
    thenT (guardT (sku_free v) (unique_violation ''variants_tenant_sku_uq''))
     (guardT (options_free v) (unique_violation ''variants_product_options_uq''))"

record create_variant_params =
  cv_id :: uuid
  cv_product :: uuid
  cv_sku :: "string option"
  cv_barcode :: "string option"
  cv_option_values :: "string list"
  cv_regular_price :: int
  cv_sale_price :: "int option"
  cv_sale_starts_at :: "instant option"
  cv_sale_ends_at :: "instant option"
  cv_weight_grams :: int

definition new_variant :: "ctx \<Rightarrow> create_variant_params \<Rightarrow> variant" where
  "new_variant c p = \<lparr>va_id = cv_id p, va_tenant = tenant_of c, va_product = cv_product p, va_sku = cv_sku p,
     va_barcode = cv_barcode p, va_option_values = cv_option_values p, va_regular_price = cv_regular_price p,
     va_sale_price = cv_sale_price p, va_sale_starts_at = cv_sale_starts_at p, va_sale_ends_at = cv_sale_ends_at p,
     va_currency = ''IDR'', va_weight_grams = cv_weight_grams p, va_archived_at = None, va_version = 1,
     va_created_at = c_now c, va_updated_at = c_now c\<rparr>"

definition create_variant :: "ctx \<Rightarrow> create_variant_params \<Rightarrow> uuid stmt" where
  "create_variant c p =
    (let v = new_variant c p in
     thenT (variant_checks v)
     (thenT (guardT (\<lambda>s. va_id v \<notin> va_id ` set (variants s)) (unique_violation ''variants_pkey''))
     (thenT (variant_unique v)
     (thenT (guardT (\<lambda>s. get_product_row (tenant_of c) (va_product v) s \<noteq> None) (fk_violation ''variants_same_tenant_as_product''))
     (thenT (writeT (\<lambda>s. s\<lparr>variants := variants s @ [v]\<rparr>)) (retT (va_id v)))))))"

text \<open>\<open>GetVariant\<close>: the row with its price now.\<close>

record variant_view =
  vv_row :: variant
  vv_price :: int

definition view_of :: "ctx \<Rightarrow> variant \<Rightarrow> variant_view" where
  "view_of c v = \<lparr>vv_row = v, vv_price = variant_price (c_now c) v\<rparr>"

definition get_variant :: "ctx \<Rightarrow> uuid \<Rightarrow> variant_view stmt" where
  "get_variant c i = oneT (\<lambda>s. map_option (view_of c) (get_variant_row (tenant_of c) i s))"

definition own_variants :: "ctx \<Rightarrow> db \<Rightarrow> variant list" where
  "own_variants c s = rows_of va_tenant (tenant_of c) (variants s)"

definition all_variants :: "ctx \<Rightarrow> uuid \<Rightarrow> variant_view list stmt" where
  "all_variants c pid = readT (\<lambda>s. map (view_of c) (sort_key va_id (filter (\<lambda>v. va_product v = pid) (own_variants c s))))"

definition list_variants :: "ctx \<Rightarrow> uuid \<Rightarrow> bool \<Rightarrow> variant_view list stmt" where
  "list_variants c pid archived = readT (\<lambda>s. map (view_of c)
     (sort_key va_id (filter (\<lambda>v. va_product v = pid \<and> (va_archived_at v \<noteq> None) = archived) (own_variants c s))))"

definition variant_by_sku :: "ctx \<Rightarrow> string \<Rightarrow> variant_view stmt" where
  "variant_by_sku c sku = oneT (\<lambda>s. map_option (view_of c) (find (\<lambda>v. va_sku v = Some sku) (own_variants c s)))"

definition sku_holder_row :: "ctx \<Rightarrow> string \<Rightarrow> db \<Rightarrow> (uuid \<times> string) option" where
  "sku_holder_row c sku s =
    (case find (\<lambda>v. va_sku v = Some sku) (own_variants c s) of
      None \<Rightarrow> None
    | Some v \<Rightarrow> (case get_product_row (tenant_of c) (va_product v) s of None \<Rightarrow> None | Some p \<Rightarrow> Some (va_id v, pr_title p)))"

definition sku_holder :: "ctx \<Rightarrow> string \<Rightarrow> (uuid \<times> string) stmt" where
  "sku_holder c sku = oneT (sku_holder_row c sku)"

record update_variant_params =
  uv_set_sku :: bool
  uv_sku :: "string option"
  uv_set_barcode :: bool
  uv_barcode :: "string option"
  uv_regular_price :: "int option"
  uv_set_sale_price :: bool
  uv_sale_price :: "int option"
  uv_set_sale_starts :: bool
  uv_sale_starts_at :: "instant option"
  uv_set_sale_ends :: bool
  uv_sale_ends_at :: "instant option"
  uv_weight_grams :: "int option"
  uv_id :: uuid
  uv_version :: int

definition edited_variant :: "update_variant_params \<Rightarrow> variant \<Rightarrow> variant" where
  "edited_variant p v = v\<lparr>va_sku := (if uv_set_sku p then uv_sku p else va_sku v),
     va_barcode := (if uv_set_barcode p then uv_barcode p else va_barcode v),
     va_regular_price := or_else (uv_regular_price p) (va_regular_price v),
     va_sale_price := (if uv_set_sale_price p then uv_sale_price p else va_sale_price v),
     va_sale_starts_at := (if uv_set_sale_starts p then uv_sale_starts_at p else va_sale_starts_at v),
     va_sale_ends_at := (if uv_set_sale_ends p then uv_sale_ends_at p else va_sale_ends_at v),
     va_weight_grams := or_else (uv_weight_grams p) (va_weight_grams v)\<rparr>"

definition updated_variant :: "ctx \<Rightarrow> update_variant_params \<Rightarrow> variant \<Rightarrow> variant" where
  "updated_variant c p v = (edited_variant p v)\<lparr>va_version := va_version v + 1, va_updated_at := c_now c\<rparr>"

definition update_variant :: "ctx \<Rightarrow> update_variant_params \<Rightarrow> uuid stmt" where
  "update_variant c p =
    bindT (oneT (\<lambda>s. case get_variant_row (tenant_of c) (uv_id p) s of None \<Rightarrow> None
       | Some v \<Rightarrow> if va_version v = uv_version p then Some v else None)) (\<lambda>v.
    thenT (variant_checks (updated_variant c p v))
    (thenT (variant_unique (updated_variant c p v))
    (thenT (writeT (upd_variant (tenant_of c) (uv_id p) (updated_variant c p))) (retT (va_id v)))))"

definition archived_variant :: "ctx \<Rightarrow> variant \<Rightarrow> variant" where
  "archived_variant c v = v\<lparr>va_archived_at := Some (or_else (va_archived_at v) (c_now c)),
     va_version := va_version v + 1, va_updated_at := c_now c\<rparr>"

definition archive_variant :: "ctx \<Rightarrow> uuid \<Rightarrow> uuid stmt" where
  "archive_variant c i =
    bindT (oneT (get_variant_row (tenant_of c) i)) (\<lambda>v.
    thenT (writeT (upd_variant (tenant_of c) i (archived_variant c))) (retT (va_id v)))"

definition restored_variant :: "ctx \<Rightarrow> variant \<Rightarrow> variant" where
  "restored_variant c v = v\<lparr>va_archived_at := None, va_version := va_version v + 1, va_updated_at := c_now c\<rparr>"

definition restore_variant :: "ctx \<Rightarrow> uuid \<Rightarrow> unit stmt" where
  "restore_variant c i =
    thenT (guardT (\<lambda>s. case get_variant_row (tenant_of c) i s of None \<Rightarrow> True | Some v \<Rightarrow> options_free (restored_variant c v) s)
             (unique_violation ''variants_product_options_uq''))
     (writeT (upd_variant (tenant_of c) i (restored_variant c)))"

section \<open>Brands\<close>

definition get_brand_row :: "uuid \<Rightarrow> uuid \<Rightarrow> db \<Rightarrow> brand option" where
  "get_brand_row t i s = row_get br_tenant br_id t i (brands s)"

definition get_brand :: "ctx \<Rightarrow> uuid \<Rightarrow> brand stmt" where
  "get_brand c i = oneT (get_brand_row (tenant_of c) i)"

definition brand_slug_free :: "brand \<Rightarrow> db \<Rightarrow> bool" where
  "brand_slug_free b s \<longleftrightarrow> list_all (\<lambda>q. br_tenant q = br_tenant b \<and> br_slug q = br_slug b \<longrightarrow> br_id q = br_id b) (brands s)"

definition create_brand :: "pg_text \<Rightarrow> ctx \<Rightarrow> uuid \<Rightarrow> string \<Rightarrow> string option \<Rightarrow> brand stmt" where
  "create_brand pg c i name slug =
    (let r = \<lparr>br_id = i, br_tenant = tenant_of c, br_name = name, br_slug = or_else slug (slugify pg name), br_archived_at = None,
       br_created_at = c_now c, br_updated_at = c_now c\<rparr> in
     thenT (guardT (\<lambda>s. i \<notin> br_id ` set (brands s)) (unique_violation ''brands_pkey''))
     (thenT (guardT (brand_slug_free r) (unique_violation ''brands_tenant_id_slug_key''))
     (thenT (writeT (\<lambda>s. s\<lparr>brands := brands s @ [r]\<rparr>)) (retT r))))"

definition upd_brand :: "uuid \<Rightarrow> uuid \<Rightarrow> (brand \<Rightarrow> brand) \<Rightarrow> db \<Rightarrow> db" where
  "upd_brand t i f s = s\<lparr>brands := row_upd br_tenant br_id t i f (brands s)\<rparr>"

definition renamed_brand :: "pg_text \<Rightarrow> ctx \<Rightarrow> string \<Rightarrow> string option \<Rightarrow> brand \<Rightarrow> brand" where
  "renamed_brand pg c name slug r = r\<lparr>br_name := name, br_slug := or_else slug (slugify pg name), br_updated_at := c_now c\<rparr>"

definition update_brand :: "pg_text \<Rightarrow> ctx \<Rightarrow> uuid \<Rightarrow> string \<Rightarrow> string option \<Rightarrow> brand stmt" where
  "update_brand pg c i name slug =
    bindT (oneT (get_brand_row (tenant_of c) i)) (\<lambda>r.
    thenT (guardT (brand_slug_free (renamed_brand pg c name slug r)) (unique_violation ''brands_tenant_id_slug_key''))
    (thenT (writeT (upd_brand (tenant_of c) i (renamed_brand pg c name slug))) (retT (renamed_brand pg c name slug r))))"

definition archived_brand :: "ctx \<Rightarrow> brand \<Rightarrow> brand" where
  "archived_brand c r = r\<lparr>br_archived_at := Some (or_else (br_archived_at r) (c_now c)), br_updated_at := c_now c\<rparr>"

definition archive_brand :: "ctx \<Rightarrow> uuid \<Rightarrow> brand stmt" where
  "archive_brand c i =
    bindT (oneT (get_brand_row (tenant_of c) i)) (\<lambda>r.
    thenT (writeT (upd_brand (tenant_of c) i (archived_brand c))) (retT (archived_brand c r)))"

definition clear_product_brand :: "ctx \<Rightarrow> uuid \<Rightarrow> int stmt" where
  "clear_product_brand c b s = Inr (int (length (filter (\<lambda>p. pr_tenant p = tenant_of c \<and> pr_brand p = Some b) (products s))),
     s\<lparr>products := map (\<lambda>p. if pr_tenant p = tenant_of c \<and> pr_brand p = Some b
        then p\<lparr>pr_brand := None, pr_version := pr_version p + 1, pr_updated_at := c_now c\<rparr> else p) (products s)\<rparr>)"

record list_brands_params =
  lb_archived :: bool
  lb_q :: "string option"
  lb_after :: "(string \<times> uuid) option"
  lb_limit :: int

definition list_brands :: "pg_text \<Rightarrow> ctx \<Rightarrow> list_brands_params \<Rightarrow> brand list stmt" where
  "list_brands pg c p = readT (\<lambda>s. take (nat (lb_limit p)) (filter (\<lambda>r.
       (br_archived_at r \<noteq> None) = lb_archived p \<and>
       (case lb_q p of None \<Rightarrow> True | Some q \<Rightarrow> pt_ilike pg (br_name r) (''%'' @ q @ ''%'')) \<and>
       (case lb_after p of None \<Rightarrow> True | Some (n, i) \<Rightarrow> (pt_key pg n, i) < (pt_key pg (br_name r), br_id r)))
     (sort_key (\<lambda>r. (pt_key pg (br_name r), br_id r)) (rows_of br_tenant (tenant_of c) (brands s)))))"

end
