(* ===== verification/Variants.thy ===== *)
theory Variants
  imports VariantQueries
begin

text \<open>The writes of one variant (internal/catalog/variants.go; BR-010, BR-039, BR-040, BR-046).\<close>

section \<open>The fields of a request\<close>

text \<open>\<open>None\<close> is "not sent"; the clear flags are an explicit null (BR-009).\<close>

record variant_fields =
  vf_sku :: "string option"
  vf_barcode :: "string option"
  vf_clear_sku :: bool
  vf_clear_barcode :: bool
  vf_regular_price :: "int option"
  vf_sale_price :: "int option"
  vf_clear_sale_price :: bool
  vf_sale_starts_at :: "instant option"
  vf_sale_ends_at :: "instant option"
  vf_clear_sale_starts :: bool
  vf_clear_sale :: bool
  vf_weight_grams :: "int option"

definition on_sale :: "variant_view \<Rightarrow> bool" where
  "on_sale v \<longleftrightarrow> vv_price v < va_regular_price (vv_row v)"

definition create_params :: "uuid \<Rightarrow> uuid \<Rightarrow> string list \<Rightarrow> variant_fields \<Rightarrow> create_variant_params" where
  "create_params i pid options f = \<lparr>cv_id = i, cv_product = pid, cv_sku = vf_sku f, cv_barcode = vf_barcode f,
     cv_option_values = options, cv_regular_price = or_else (vf_regular_price f) 0, cv_sale_price = vf_sale_price f,
     cv_sale_starts_at = vf_sale_starts_at f, cv_sale_ends_at = vf_sale_ends_at f, cv_weight_grams = or_else (vf_weight_grams f) 0\<rparr>"

definition update_params :: "uuid \<Rightarrow> int \<Rightarrow> variant_fields \<Rightarrow> update_variant_params" where
  "update_params i version f = \<lparr>uv_set_sku = (vf_sku f \<noteq> None \<or> vf_clear_sku f), uv_sku = vf_sku f,
     uv_set_barcode = (vf_barcode f \<noteq> None \<or> vf_clear_barcode f), uv_barcode = vf_barcode f,
     uv_regular_price = vf_regular_price f,
     uv_set_sale_price = (vf_sale_price f \<noteq> None \<or> vf_clear_sale_price f), uv_sale_price = vf_sale_price f,
     uv_set_sale_starts = (vf_sale_starts_at f \<noteq> None \<or> vf_clear_sale_starts f), uv_sale_starts_at = vf_sale_starts_at f,
     uv_set_sale_ends = (vf_sale_ends_at f \<noteq> None \<or> vf_clear_sale f), uv_sale_ends_at = vf_sale_ends_at f,
     uv_weight_grams = vf_weight_grams f, uv_id = i, uv_version = wrap32 version\<rparr>"

definition opt_str :: "string option \<Rightarrow> dyn" where
  "opt_str x = (case x of None \<Rightarrow> DNull | Some y \<Rightarrow> DStr y)"

definition opt_int :: "int option \<Rightarrow> dyn" where
  "opt_int x = (case x of None \<Rightarrow> DNull | Some y \<Rightarrow> DInt y)"

definition opt_time :: "instant option \<Rightarrow> dyn" where
  "opt_time x = (case x of None \<Rightarrow> DNull | Some y \<Rightarrow> DTime y)"

definition variant_audit :: "variant_view \<Rightarrow> dyn" where
  "variant_audit x = (let v = vv_row x in DObj [(''sku'', opt_str (va_sku v)), (''option_values'', DList (map DStr (va_option_values v))),
     (''regular_price'', DInt (va_regular_price v)), (''sale_price'', opt_int (va_sale_price v)),
     (''sale_starts_at'', opt_time (va_sale_starts_at v)), (''sale_ends_at'', opt_time (va_sale_ends_at v)),
     (''weight_grams'', DInt (va_weight_grams v)), (''version'', DInt (va_version v))])"

section \<open>Errors\<close>

text \<open>\<open>checkSKU\<close>: blank is refused, and a SKU another variant holds is named with its product.\<close>

definition check_sku :: "ctx \<Rightarrow> string option \<Rightarrow> uuid \<Rightarrow> unit stmt" where
  "check_sku c sku self =
    (case sku of None \<Rightarrow> retT ()
     | Some k \<Rightarrow>
        if blank k then failT (field_error ''sku'' ''sku cannot be blank; send null to clear it'')
        else (\<lambda>s. case sku_holder_row c k s of
            None \<Rightarrow> Inr ((), s)
          | Some (holder, title) \<Rightarrow> if holder = self then Inr ((), s) else Inl (duplicate_sku k title)))"

definition variant_write_error :: "err \<Rightarrow> err" where
  "variant_write_error e =
    (case violation e of
      None \<Rightarrow> e
    | Some (k, con) \<Rightarrow>
        if k = ''23505'' \<and> con = ''variants_tenant_sku_uq'' then duplicate_sku [] []
        else if k = ''23505'' \<and> con = ''variants_product_options_uq''
        then field_error ''option_values'' ''another live variant of this product has these option values''
        else if k = ''23514'' \<and> con = ''variants_sale_below_regular''
        then field_error ''sale_price'' ''sale_price must be lower than regular_price''
        else if k = ''23514'' \<and> con = ''variants_sale_window''
        then field_error ''sale_ends_at'' ''the sale must end after it starts''
        else if k = ''23514'' \<and> contains con ''regular_price''
        then field_error ''regular_price'' ''regular_price cannot be negative''
        else if k = ''23514'' \<and> contains con ''weight''
        then field_error ''weight_grams'' ''weight_grams cannot be negative''
        else e)"

section \<open>The operations\<close>

definition variant_entry :: "string \<Rightarrow> uuid \<Rightarrow> dyn option \<Rightarrow> dyn option \<Rightarrow> audit_entry" where
  "variant_entry action i b a = \<lparr>ae_action = action, ae_subject_type = ''variant'', ae_subject_id = DId i, ae_before = b, ae_after = a\<rparr>"

definition create_variant_tx :: "ctx \<Rightarrow> uuid \<Rightarrow> uuid \<Rightarrow> string list \<Rightarrow> variant_fields \<Rightarrow> variant_view stmt" where
  "create_variant_tx c vid pid options f =
    bindT (mapErrT (no_such ''product'') (get_product c pid)) (\<lambda>p.
    if pr_archived_at p \<noteq> None then failT (field_error ''product_id'' ''the product is archived'')
    else if length options \<noteq> length (pr_option_names p)
    then failT (field_error ''option_values'' ''option_values needs one value per option name; change the options through the variant matrix'')
    else thenT (check_sku c (vf_sku f) nil_uuid)
      (bindT (mapErrT variant_write_error (create_variant c (create_params vid pid options f))) (\<lambda>i.
       bindT (get_variant c i) (\<lambda>v.
       thenT (audit c (variant_entry ''variant.create'' i None (Some (variant_audit v)))) (retT v)))))"

definition create_variant_op :: "ctx \<Rightarrow> uuid \<Rightarrow> uuid \<Rightarrow> string list \<Rightarrow> variant_fields \<Rightarrow> db \<Rightarrow> (err + variant_view) \<times> db" where
  "create_variant_op c vid pid options f = in_tenant_tx c (create_variant_tx c vid pid options f)"

definition update_variant_tx :: "ctx \<Rightarrow> uuid \<Rightarrow> int \<Rightarrow> variant_fields \<Rightarrow> variant_view stmt" where
  "update_variant_tx c i version f =
    bindT (mapErrT (no_such ''variant'') (get_variant c i)) (\<lambda>before.
    let b = vv_row before in
    if va_archived_at b \<noteq> None then failT (field_error ''archived_at'' ''an archived variant cannot be edited'')
    else if va_version b \<noteq> version then failT (version_conflict (va_version b) version)
    else thenT (check_sku c (vf_sku f) i)
      (thenT (mapErrT (\<lambda>e. if err_is e NoRows then version_conflict (va_version b + 1) version else variant_write_error e)
               (update_variant c (update_params i version f)))
      (bindT (get_variant c i) (\<lambda>v.
       thenT (audit c (variant_entry ''variant.update'' i (Some (variant_audit before)) (Some (variant_audit v)))) (retT v)))))"

definition update_variant_op :: "ctx \<Rightarrow> uuid \<Rightarrow> int \<Rightarrow> variant_fields \<Rightarrow> db \<Rightarrow> (err + variant_view) \<times> db" where
  "update_variant_op c i version f = in_tenant_tx c (update_variant_tx c i version f)"

definition archive_variant_tx :: "ctx \<Rightarrow> uuid \<Rightarrow> unit stmt" where
  "archive_variant_tx c i =
    thenT (mapErrT (no_such ''variant'') (archive_variant c i)) (audit c (variant_entry ''variant.archive'' i None None))"

definition archive_variant_op :: "ctx \<Rightarrow> uuid \<Rightarrow> db \<Rightarrow> (err + unit) \<times> db" where
  "archive_variant_op c i = in_tenant_tx c (archive_variant_tx c i)"

definition list_variants_tx :: "ctx \<Rightarrow> uuid \<Rightarrow> bool \<Rightarrow> variant_view list stmt" where
  "list_variants_tx c pid archived = thenT (mapErrT (no_such ''product'') (get_product c pid)) (list_variants c pid archived)"

definition list_variants_op :: "ctx \<Rightarrow> uuid \<Rightarrow> bool \<Rightarrow> db \<Rightarrow> (err + variant_view list) \<times> db" where
  "list_variants_op c pid archived = in_tenant_tx c (list_variants_tx c pid archived)"

end
