(* ===== verification/MediaQueries.thy ===== *)
theory MediaQueries
  imports VariantQueries
begin

text \<open>The statements of product images (media.sql.go; migration 000015).\<close>

definition own_media :: "ctx \<Rightarrow> db \<Rightarrow> product_medium list" where
  "own_media c s = rows_of md_tenant (tenant_of c) (media s)"

definition get_medium_row :: "uuid \<Rightarrow> uuid \<Rightarrow> db \<Rightarrow> product_medium option" where
  "get_medium_row t i s = row_get md_tenant md_id t i (media s)"

definition upd_medium :: "uuid \<Rightarrow> uuid \<Rightarrow> (product_medium \<Rightarrow> product_medium) \<Rightarrow> db \<Rightarrow> db" where
  "upd_medium t i f s = s\<lparr>media := row_upd md_tenant md_id t i f (media s)\<rparr>"

record create_media_params =
  cm_id :: uuid
  cm_product :: uuid
  cm_variant :: "uuid option"
  cm_key :: string
  cm_mime :: string
  cm_bytes :: int

text \<open>A new image goes after the product's last one.\<close>

definition next_position :: "ctx \<Rightarrow> uuid \<Rightarrow> db \<Rightarrow> int" where
  "next_position c pid s = foldl (\<lambda>n m. max n (md_position m + 1)) 0 (filter (\<lambda>m. md_product m = pid) (own_media c s))"

definition new_medium :: "ctx \<Rightarrow> create_media_params \<Rightarrow> db \<Rightarrow> product_medium" where
  "new_medium c p s = \<lparr>md_id = cm_id p, md_tenant = tenant_of c, md_product = cm_product p, md_variant = cm_variant p, md_key = cm_key p,
     md_mime = cm_mime p, md_bytes = cm_bytes p, md_width = None, md_height = None, md_position = next_position c (cm_product p) s,
     md_derivatives = ''{}'', md_source_url = None, md_created_at = c_now c\<rparr>"

text \<open>\<open>ON CONFLICT DO NOTHING\<close> returns no row for a key the product already has.\<close>

definition create_media :: "ctx \<Rightarrow> create_media_params \<Rightarrow> product_medium stmt" where
  "create_media c p s =
    (if list_ex (\<lambda>m. md_product m = cm_product p \<and> md_key m = cm_key p) (media s) then Inl NoRows
     else if cm_id p \<in> md_id ` set (media s) then Inl (unique_violation ''product_media_pkey'')
     else if get_product_row (tenant_of c) (cm_product p) s = None then Inl (fk_violation ''product_media_same_tenant_as_product'')
     else if (case cm_variant p of None \<Rightarrow> False | Some v \<Rightarrow> get_variant_row (tenant_of c) v s = None)
     then Inl (fk_violation ''product_media_same_tenant_as_variant'')
     else Inr (new_medium c p s, s\<lparr>media := media s @ [new_medium c p s]\<rparr>))"

definition delete_media :: "ctx \<Rightarrow> uuid \<Rightarrow> product_medium stmt" where
  "delete_media c i =
    bindT (oneT (get_medium_row (tenant_of c) i)) (\<lambda>m.
    thenT (writeT (\<lambda>s. s\<lparr>media := row_del md_tenant (\<lambda>r. md_id r = i) (tenant_of c) (media s)\<rparr>)) (retT m))"

definition get_media :: "ctx \<Rightarrow> uuid \<Rightarrow> product_medium stmt" where
  "get_media c i = oneT (get_medium_row (tenant_of c) i)"

definition get_media_by_key :: "ctx \<Rightarrow> uuid \<Rightarrow> string \<Rightarrow> product_medium stmt" where
  "get_media_by_key c pid key = oneT (\<lambda>s. find (\<lambda>m. md_product m = pid \<and> md_key m = key) (own_media c s))"

definition list_product_media :: "ctx \<Rightarrow> uuid \<Rightarrow> product_medium list stmt" where
  "list_product_media c pid = readT (\<lambda>s. sort_key (\<lambda>m. (md_position m, md_id m)) (filter (\<lambda>m. md_product m = pid) (own_media c s)))"

definition live_variant_of_product :: "ctx \<Rightarrow> uuid \<Rightarrow> uuid \<Rightarrow> bool stmt" where
  "live_variant_of_product c vid pid = readT (\<lambda>s. list_ex (\<lambda>v. va_id v = vid \<and> va_product v = pid \<and> va_archived_at v = None) (own_variants c s))"

definition media_key_in_use :: "ctx \<Rightarrow> string \<Rightarrow> bool stmt" where
  "media_key_in_use c key = readT (\<lambda>s. list_ex (\<lambda>m. md_key m = key) (own_media c s))"

definition set_media_derivatives :: "ctx \<Rightarrow> uuid \<Rightarrow> string \<Rightarrow> int option \<Rightarrow> int option \<Rightarrow> int stmt" where
  "set_media_derivatives c i d w h s = Inr (int (length (filter (\<lambda>m. md_id m = i) (own_media c s))),
     upd_medium (tenant_of c) i (\<lambda>m. m\<lparr>md_derivatives := d, md_width := w, md_height := h\<rparr>) s)"

definition set_media_position :: "ctx \<Rightarrow> uuid \<Rightarrow> int \<Rightarrow> unit stmt" where
  "set_media_position c i p = writeT (upd_medium (tenant_of c) i (\<lambda>m. m\<lparr>md_position := p\<rparr>))"

definition set_media_variant :: "ctx \<Rightarrow> uuid \<Rightarrow> uuid option \<Rightarrow> product_medium stmt" where
  "set_media_variant c i v =
    bindT (oneT (get_medium_row (tenant_of c) i)) (\<lambda>m.
    thenT (guardT (\<lambda>s. case v of None \<Rightarrow> True | Some x \<Rightarrow> get_variant_row (tenant_of c) x s \<noteq> None) (fk_violation ''product_media_same_tenant_as_variant''))
    (thenT (writeT (upd_medium (tenant_of c) i (\<lambda>m. m\<lparr>md_variant := v\<rparr>))) (retT (m\<lparr>md_variant := v\<rparr>))))"

end
