(* ===== verification/Products.thy ===== *)
theory Products
  imports Variants MediaQueries
begin

text \<open>
  Products (internal/catalog/products.go; BR-010, BR-012, BR-037, BR-038, BR-042): creating a draft, the
  PATCH at a version, archiving, and the publish check. Attributes are the JSON the handler decoded, kept as
  text; \<open>files\<close> is the object store's view of keys (BR-050).\<close>

record files =
  fl_url :: "string \<Rightarrow> string"
  fl_keys :: "string \<Rightarrow> (string \<times> string) list"

record medium_view =
  mv_row :: product_medium
  mv_url :: string
  mv_derivatives :: "(string \<times> string) list"

record product_view =
  pv_row :: product
  pv_brand :: "brand option"
  pv_categories :: "product_category_row list"
  pv_variant_count :: int
  pv_media :: "medium_view list"

record product_input =
  pi_title :: string
  pi_description :: "string option"
  pi_brand :: "uuid option"
  pi_categories :: "uuid list"
  pi_attributes :: "string option"

record product_patch =
  pp_title :: "string option"
  pp_slug :: "string option"
  pp_description :: "string option"
  pp_clear_description :: bool
  pp_brand :: "uuid option"
  pp_clear_brand :: bool
  pp_categories :: "uuid list option"
  pp_attributes :: "string option"
  pp_status :: "string option"

definition medium_view_of :: "files \<Rightarrow> product_medium \<Rightarrow> medium_view" where
  "medium_view_of fl m =
    (if md_key m = [] then \<lparr>mv_row = m, mv_url = [], mv_derivatives = []\<rparr>
     else \<lparr>mv_row = m, mv_url = fl_url fl (md_key m), mv_derivatives = map (\<lambda>(size, key). (size, fl_url fl key)) (fl_keys fl (md_derivatives m))\<rparr>)"

definition product_media :: "files \<Rightarrow> ctx \<Rightarrow> uuid \<Rightarrow> medium_view list stmt" where
  "product_media fl c pid = bindT (list_product_media c pid) (\<lambda>rows. retT (map (medium_view_of fl) rows))"

section \<open>References and slugs\<close>

text \<open>The ids sorted and each once, as \<open>slices.SortFunc\<close> and \<open>slices.Compact\<close> leave them.\<close>

definition sorted_once :: "uuid list \<Rightarrow> uuid list" where
  "sorted_once ids = remdups_adj (sort ids)"

definition check_refs :: "ctx \<Rightarrow> uuid option \<Rightarrow> uuid list \<Rightarrow> unit stmt" where
  "check_refs c b cats =
    thenT (case b of None \<Rightarrow> retT ()
           | Some i \<Rightarrow> bindT (mapErrT (\<lambda>e. if err_is e NoRows then field_error ''brand_id'' ''no such live brand'' else e) (get_brand c i)) (\<lambda>r.
               if br_archived_at r \<noteq> None then failT (field_error ''brand_id'' ''no such live brand'') else retT ()))
     (if cats = [] then retT ()
      else bindT (live_category_count c (sorted_once cats)) (\<lambda>n.
        if n \<noteq> int (length (sorted_once cats))
        then failT (field_error ''category_ids'' ''every category must be a live category of this shop'') else retT ()))"

definition set_categories :: "ctx \<Rightarrow> uuid \<Rightarrow> uuid list \<Rightarrow> unit stmt" where
  "set_categories c pid cats = (if cats = [] then retT () else add_product_categories c pid (sorted_once cats))"

text \<open>
  \<open>freeSlug\<close> tries the base, base-2, base-3 and so on. The loop has no bound of its own: \<open>fuel\<close> tries are
  enough when there are more of them than products, as \<open>free_slug_found\<close> shows.\<close>

definition slug_try :: "string \<Rightarrow> nat \<Rightarrow> string" where
  "slug_try base n = (if n > 1 then base @ ''-'' @ itoa (int n) else base)"

fun first_free :: "nat \<Rightarrow> nat \<Rightarrow> string \<Rightarrow> (string \<Rightarrow> bool) \<Rightarrow> string option" where
  "first_free 0 n base taken = None"
| "first_free (Suc fuel) n base taken = (if taken (slug_try base n) then first_free fuel (Suc n) base taken else Some (slug_try base n))"

definition slug_taken_by :: "ctx \<Rightarrow> db \<Rightarrow> string \<Rightarrow> bool" where
  "slug_taken_by c s slug = list_ex (\<lambda>p. pr_tenant p = tenant_of c \<and> pr_slug p = slug) (products s)"

definition slug_base :: "pg_text \<Rightarrow> string \<Rightarrow> string" where
  "slug_base pg title = (let b = slugify pg title in if b = [] then ''product'' else b)"

definition free_slug :: "pg_text \<Rightarrow> ctx \<Rightarrow> string \<Rightarrow> string stmt" where
  "free_slug pg c title s =
    (case first_free (Suc (length (products s))) 1 (slug_base pg title) (slug_taken_by c s) of
      None \<Rightarrow> Inl (Opaque ''unreachable'')
    | Some slug \<Rightarrow> Inr (slug, s))"

section \<open>The publish check\<close>

definition variant_field :: "string \<Rightarrow> variant \<Rightarrow> string \<Rightarrow> field" where
  "variant_field name v detail = \<lparr>f_name = name, f_detail = detail, f_extra = [(''variant_id'', DId (va_id v))]\<rparr>"

definition variant_label_text :: "variant \<Rightarrow> string" where
  "variant_label_text v = (let l = join '' / '' (va_option_values v) in if l = [] then ''the variant'' else l)"

definition variant_fails :: "variant \<Rightarrow> field list" where
  "variant_fails v = (let l = variant_label_text v in
     (if va_sku v = None then [variant_field ''sku'' v (''Variant '' @ l @ '' has no SKU'')] else []) @
     (if va_regular_price v \<le> 0 then [variant_field ''price'' v (''Variant '' @ l @ '': price must be greater than zero'')] else []) @
     (if va_weight_grams v \<le> 0 then [variant_field ''weight'' v (''Variant '' @ l @ '': weight must be greater than zero'')] else []))"

definition publish_fails :: "variant list \<Rightarrow> int \<times> int \<Rightarrow> field list" where
  "publish_fails vs facts =
    (if vs = [] then [plain_field ''variants'' ''At least one live variant is required''] else []) @
    concat (map variant_fails vs) @
    (if fst facts = 0 then [plain_field ''media'' ''At least one image is required''] else []) @
    (if snd facts = 0 then [plain_field ''categories'' ''At least one category of kind category is required''] else [])"

definition publish_check :: "ctx \<Rightarrow> uuid \<Rightarrow> unit stmt" where
  "publish_check c pid =
    bindT (list_variants c pid False) (\<lambda>vs.
    bindT (publish_facts c pid) (\<lambda>facts.
    let fails = publish_fails (map vv_row vs) facts in
    if fails \<noteq> [] then failT (publish_check_failed fails) else retT ()))"

section \<open>The operations\<close>

definition product_audit :: "product \<Rightarrow> dyn" where
  "product_audit p = DObj [(''title'', DStr (pr_title p)), (''slug'', DStr (pr_slug p)), (''status'', DStr (pr_status p)),
     (''description'', opt_str (pr_description p)), (''brand_id'', case pr_brand p of None \<Rightarrow> DNull | Some b \<Rightarrow> DId b),
     (''version'', DInt (pr_version p))]"

definition product_entry :: "string \<Rightarrow> uuid \<Rightarrow> dyn option \<Rightarrow> dyn option \<Rightarrow> audit_entry" where
  "product_entry action i b a = \<lparr>ae_action = action, ae_subject_type = ''product'', ae_subject_id = DId i, ae_before = b, ae_after = a\<rparr>"

definition get_product_tx :: "pg_text \<Rightarrow> files \<Rightarrow> ctx \<Rightarrow> uuid \<Rightarrow> product_view stmt" where
  "get_product_tx pg fl c pid =
    bindT (mapErrT (no_such ''product'') (get_product c pid)) (\<lambda>p.
    bindT (case pr_brand p of None \<Rightarrow> retT None | Some b \<Rightarrow> bindT (get_brand c b) (\<lambda>r. retT (Some r))) (\<lambda>b.
    bindT (product_categories_of pg c pid) (\<lambda>cats.
    bindT (live_variant_count c pid) (\<lambda>n.
    bindT (product_media fl c pid) (\<lambda>ms.
    retT \<lparr>pv_row = p, pv_brand = b, pv_categories = cats, pv_variant_count = n, pv_media = ms\<rparr>)))))"

definition get_product_op :: "pg_text \<Rightarrow> files \<Rightarrow> ctx \<Rightarrow> uuid \<Rightarrow> db \<Rightarrow> (err + product_view) \<times> db" where
  "get_product_op pg fl c pid = in_tenant_tx c (get_product_tx pg fl c pid)"

definition create_product_tx :: "pg_text \<Rightarrow> ctx \<Rightarrow> uuid \<Rightarrow> string \<Rightarrow> product_input \<Rightarrow> product stmt" where
  "create_product_tx pg c pid title inp =
    thenT (check_refs c (pi_brand inp) (pi_categories inp))
    (bindT (free_slug pg c title) (\<lambda>slug.
     bindT (create_product c \<lparr>cp_id = pid, cp_title = title, cp_slug = slug, cp_description = pi_description inp,
       cp_brand = pi_brand inp, cp_attributes = or_else (pi_attributes inp) ''{}''\<rparr>) (\<lambda>p.
     thenT (set_categories c pid (pi_categories inp))
     (thenT (audit c (product_entry ''product.create'' pid None (Some (DObj [(''title'', DStr (pr_title p)), (''slug'', DStr (pr_slug p)), (''status'', DStr (pr_status p))]))))
      (retT p)))))"

definition create_product_op :: "pg_text \<Rightarrow> files \<Rightarrow> ctx \<Rightarrow> uuid \<Rightarrow> product_input \<Rightarrow> db \<Rightarrow> (err + product_view) \<times> db" where
  "create_product_op pg fl c pid inp s =
    (let title = trim_space (pi_title inp) in
     if title = [] then (Inl (field_error ''title'' ''title is required''), s)
     else (case in_tenant_tx c (create_product_tx pg c pid title inp) s of
        (Inl e, s') \<Rightarrow> (Inl e, s')
      | (Inr p, s') \<Rightarrow> get_product_op pg fl c (pr_id p) s'))"

definition patch_params :: "product_patch \<Rightarrow> update_product_params" where
  "patch_params p = \<lparr>up_title = pp_title p, up_slug = pp_slug p, up_set_description = (pp_description p \<noteq> None \<or> pp_clear_description p),
     up_description = pp_description p, up_set_brand = (pp_brand p \<noteq> None \<or> pp_clear_brand p), up_brand = pp_brand p,
     up_attributes = pp_attributes p, up_status = pp_status p\<rparr>"

definition update_product_tx :: "ctx \<Rightarrow> uuid \<Rightarrow> int \<Rightarrow> product_patch \<Rightarrow> product stmt" where
  "update_product_tx c pid version p =
    bindT (mapErrT (no_such ''product'') (get_product c pid)) (\<lambda>before.
    if pr_archived_at before \<noteq> None then failT (field_error ''status'' ''an archived product cannot be edited'')
    else if pr_version before \<noteq> version then failT (version_conflict (pr_version before) version)
    else
    thenT (check_refs c (pp_brand p) (or_else (pp_categories p) []))
    (thenT (case pp_slug p of None \<Rightarrow> retT ()
            | Some slug \<Rightarrow> bindT (product_slug_taken c slug (Some pid)) (\<lambda>t.
                if t then failT (field_error ''slug'' ''another product already uses this slug (archived products included)'') else retT ()))
    (bindT (mapErrT (\<lambda>e. if err_is e NoRows then version_conflict (pr_version before + 1) version else e)
              (update_product c pid (wrap32 version) (patch_params p))) (\<lambda>after.
     thenT (case pp_categories p of None \<Rightarrow> retT () | Some cats \<Rightarrow> thenT (clear_product_categories c pid) (set_categories c pid cats))
     (thenT (whenT (pp_status p = Some S_active \<and> pr_status before \<noteq> S_active) (publish_check c pid))
     (thenT (audit c (product_entry ''product.update'' pid (Some (product_audit before)) (Some (product_audit after))))
      (retT after)))))))"

definition update_product_op :: "pg_text \<Rightarrow> files \<Rightarrow> ctx \<Rightarrow> uuid \<Rightarrow> int \<Rightarrow> product_patch \<Rightarrow> db \<Rightarrow> (err + product_view) \<times> db" where
  "update_product_op pg fl c pid version p s =
    (let p' = p\<lparr>pp_title := map_option trim_space (pp_title p)\<rparr> in
     if pp_title p' = Some [] then (Inl (field_error ''title'' ''title cannot be empty''), s)
     else if (case pp_slug p of None \<Rightarrow> False | Some x \<Rightarrow> \<not> slug_pattern x)
     then (Inl (field_error ''slug'' ''slug is lower-case letters and digits joined by single hyphens''), s)
     else (case in_tenant_tx c (update_product_tx c pid version p') s of
        (Inl e, s') \<Rightarrow> (Inl e, s')
      | (Inr _, s') \<Rightarrow> get_product_op pg fl c pid s'))"

definition archive_product_tx :: "ctx \<Rightarrow> uuid \<Rightarrow> unit stmt" where
  "archive_product_tx c pid =
    bindT (mapErrT (no_such ''product'') (archive_product c pid)) (\<lambda>p.
     audit c (product_entry ''product.archive'' pid None (Some (DObj [(''status'', DStr (pr_status p))]))))"

definition archive_product_op :: "ctx \<Rightarrow> uuid \<Rightarrow> db \<Rightarrow> (err + unit) \<times> db" where
  "archive_product_op c pid = in_tenant_tx c (archive_product_tx c pid)"

end
