(* ===== verification/Brands.thy ===== *)
theory Brands
  imports Variants
begin

text \<open>Brands (internal/catalog/brands.go; BR-010, BR-012, BR-030) and the search pattern of catalog.go.\<close>

text \<open>\<open>likePattern\<close>: the LIKE metacharacters are escaped; a blank search is none.\<close>

fun like_escape :: "string \<Rightarrow> string" where
  "like_escape [] = []"
| "like_escape (ch # s) = (if ch \<in> {CHR 0x5C, CHR ''%'', CHR ''_''} then [CHR 0x5C, ch] else [ch]) @ like_escape s"

definition like_pattern :: "string option \<Rightarrow> string option" where
  "like_pattern q = (case q of None \<Rightarrow> None | Some x \<Rightarrow> if blank x then None else Some (like_escape (trim_space x)))"

definition brand_name :: "pg_text \<Rightarrow> string \<Rightarrow> string option \<Rightarrow> err + string" where
  "brand_name pg name slug =
    (let n = trim_space name in
     if n = [] then Inl (field_error ''name'' ''name is required'')
     else (case slug of
       Some x \<Rightarrow> if slug_pattern x then Inr n
                 else Inl (field_error ''slug'' ''slug is lower-case letters and digits joined by single hyphens'')
     | None \<Rightarrow> if slugify pg n = [] then Inl (field_error ''name'' ''name needs at least one letter or digit'') else Inr n))"

definition brand_write_error :: "string option \<Rightarrow> err \<Rightarrow> err" where
  "brand_write_error slug e =
    (if violation e = Some (''23505'', ''brands_tenant_id_slug_key'')
     then (if slug \<noteq> None then field_error ''slug'' ''another brand already uses this slug (deleted brands included)''
           else field_error ''name'' ''another brand already uses this name, or one that slugifies the same (deleted brands included); set a different slug'')
     else e)"

definition brand_entry :: "string \<Rightarrow> uuid \<Rightarrow> dyn option \<Rightarrow> dyn option \<Rightarrow> audit_entry" where
  "brand_entry action i b a = \<lparr>ae_action = action, ae_subject_type = ''brand'', ae_subject_id = DId i, ae_before = b, ae_after = a\<rparr>"

definition brand_audit :: "brand \<Rightarrow> dyn" where
  "brand_audit b = DObj [(''name'', DStr (br_name b)), (''slug'', DStr (br_slug b))]"

definition create_brand_tx :: "pg_text \<Rightarrow> ctx \<Rightarrow> uuid \<Rightarrow> string \<Rightarrow> string option \<Rightarrow> brand stmt" where
  "create_brand_tx pg c i name slug =
    bindT (liftT (brand_name pg name slug)) (\<lambda>n.
    bindT (mapErrT (brand_write_error slug) (create_brand pg c i n slug)) (\<lambda>b.
    thenT (audit c (brand_entry ''brand.create'' (br_id b) None (Some (brand_audit b)))) (retT b)))"

definition create_brand_op :: "pg_text \<Rightarrow> ctx \<Rightarrow> uuid \<Rightarrow> string \<Rightarrow> string option \<Rightarrow> db \<Rightarrow> (err + brand) \<times> db" where
  "create_brand_op pg c i name slug = in_tenant_tx c (create_brand_tx pg c i name slug)"

definition rename_brand_tx :: "pg_text \<Rightarrow> ctx \<Rightarrow> uuid \<Rightarrow> string option \<Rightarrow> string option \<Rightarrow> brand stmt" where
  "rename_brand_tx pg c i new_name slug =
    bindT (mapErrT (no_such ''brand'') (get_brand c i)) (\<lambda>before.
    bindT (liftT (brand_name pg (or_else new_name (br_name before)) slug)) (\<lambda>n.
    bindT (mapErrT (brand_write_error slug) (update_brand pg c i n slug)) (\<lambda>b.
    thenT (audit c (brand_entry ''brand.update'' i (Some (brand_audit before)) (Some (brand_audit b)))) (retT b))))"

definition rename_brand_op :: "pg_text \<Rightarrow> ctx \<Rightarrow> uuid \<Rightarrow> string option \<Rightarrow> string option \<Rightarrow> db \<Rightarrow> (err + brand) \<times> db" where
  "rename_brand_op pg c i new_name slug = in_tenant_tx c (rename_brand_tx pg c i new_name slug)"

definition archive_brand_tx :: "ctx \<Rightarrow> uuid \<Rightarrow> unit stmt" where
  "archive_brand_tx c i =
    bindT (mapErrT (no_such ''brand'') (archive_brand c i)) (\<lambda>b.
    bindT (clear_product_brand c i) (\<lambda>n.
     audit c (brand_entry ''brand.archive'' i None (Some (DObj [(''archived_at'', opt_time (br_archived_at b)), (''products_cleared'', DInt n)])))))"

definition archive_brand_op :: "ctx \<Rightarrow> uuid \<Rightarrow> db \<Rightarrow> (err + unit) \<times> db" where
  "archive_brand_op c i = in_tenant_tx c (archive_brand_tx c i)"

definition get_brand_op :: "ctx \<Rightarrow> uuid \<Rightarrow> db \<Rightarrow> (err + brand) \<times> db" where
  "get_brand_op c i = in_tenant_tx c (mapErrT (no_such ''brand'') (get_brand c i))"

text \<open>A page is one row more than asked for, so that the page knows whether another follows.\<close>

definition brand_page :: "int \<Rightarrow> brand list \<Rightarrow> brand list \<times> (string \<times> uuid) option" where
  "brand_page limit rows =
    (if int (length rows) \<le> limit then (rows, None)
     else (let page = take (nat limit) rows in (page, Some (br_name (last page), br_id (last page)))))"

definition list_brands_op ::
  "pg_text \<Rightarrow> ctx \<Rightarrow> string option \<Rightarrow> bool \<Rightarrow> (string \<times> uuid) option \<Rightarrow> int \<Rightarrow> db \<Rightarrow> (err + brand list \<times> (string \<times> uuid) option) \<times> db" where
  "list_brands_op pg c q archived after limit s =
    (case in_tenant_tx c (list_brands pg c \<lparr>lb_archived = archived, lb_q = like_pattern q, lb_after = after, lb_limit = wrap32 (limit + 1)\<rparr>) s of
      (Inl e, s') \<Rightarrow> (Inl e, s')
    | (Inr rows, s') \<Rightarrow> (Inr (brand_page limit rows), s'))"

end
