(* ===== verification/CategoryQueries.thy ===== *)
theory CategoryQueries
  imports Variants
begin

text \<open>
  The statements of categories (categories.sql.go) with the triggers of migrations 000009, 000010 and 000017,
  which derive every path. A path is its labels joined by dots, as \<open>ltree\<close> prints it; labels hold no dot.\<close>

definition dot :: char where
  "dot = CHR ''.''"

text \<open>\<open>p <@ q\<close> and \<open>nlevel\<close>.\<close>

definition under :: "string \<Rightarrow> string \<Rightarrow> bool" where
  "under p q \<longleftrightarrow> p = q \<or> prefix (q @ [dot]) p"

definition nlevel :: "string \<Rightarrow> int" where
  "nlevel p = 1 + int (length (filter (\<lambda>ch. ch = dot) p))"

definition slugify_label :: "pg_text \<Rightarrow> string \<Rightarrow> string" where
  "slugify_label pg txt = trim_both (CHR ''_'') (runs_to (CHR ''_'') False (pt_fold pg txt))"

definition own_categories :: "ctx \<Rightarrow> db \<Rightarrow> category list" where
  "own_categories c s = rows_of cg_tenant (tenant_of c) (categories s)"

definition get_category_row :: "uuid \<Rightarrow> uuid \<Rightarrow> db \<Rightarrow> category option" where
  "get_category_row t i s = row_get cg_tenant cg_id t i (categories s)"

definition get_category :: "ctx \<Rightarrow> uuid \<Rightarrow> category stmt" where
  "get_category c i = oneT (get_category_row (tenant_of c) i)"

text \<open>\<open>LockCategories\<close> serialises the writers of a tenant until commit; it has no effect on the rows.\<close>

definition lock_categories :: "ctx \<Rightarrow> unit stmt" where
  "lock_categories c = retT ()"

section \<open>The path of a row\<close>

definition child_path :: "string option \<Rightarrow> string \<Rightarrow> string" where
  "child_path parent l = (case parent of None \<Rightarrow> l | Some p \<Rightarrow> p @ dot # l)"

definition path_taken :: "category \<Rightarrow> db \<Rightarrow> string \<Rightarrow> bool" where
  "path_taken r s p = list_ex (\<lambda>q. cg_tenant q = cg_tenant r \<and> cg_kind q = cg_kind r \<and> cg_path q = p \<and> cg_id q \<noteq> cg_id r) (categories s)"

definition nth_label :: "string \<Rightarrow> nat \<Rightarrow> string" where
  "nth_label base n = (if n = 0 then base else base @ ''_'' @ itoa (int n))"

text \<open>
  The loop over candidates: a taken path is refused when the client chose the label, otherwise the next number is
  tried. \<open>fuel\<close> is more than the number of rows, which is enough.\<close>

fun next_path :: "nat \<Rightarrow> nat \<Rightarrow> string option \<Rightarrow> string \<Rightarrow> string option \<Rightarrow> (string \<Rightarrow> bool) \<Rightarrow> err + string" where
  "next_path 0 n parent base chosen taken = Inl (Opaque ''unreachable'')"
| "next_path (Suc fuel) n parent base chosen taken =
    (let p = child_path parent (nth_label base n) in
     if \<not> taken p then Inr p
     else (case chosen of
        Some l \<Rightarrow> Inl (PgError ''P0001'' [] (''category label '' @ l @ '' is taken''))
      | None \<Rightarrow> next_path fuel (Suc n) parent base chosen taken))"

definition label_base :: "pg_text \<Rightarrow> category \<Rightarrow> string" where
  "label_base pg r = (let b = or_else (cg_label r) (slugify_label pg (cg_name r)) in if b = [] then ''cat'' else b)"

text \<open>\<open>categories_set_path\<close>: \<open>old\<close> is the old path of an UPDATE.\<close>

definition set_path :: "pg_text \<Rightarrow> string option \<Rightarrow> category \<Rightarrow> db \<Rightarrow> err + string" where
  "set_path pg old r s =
    (let go = (\<lambda>parent. next_path (Suc (length (categories s))) 0 parent (label_base pg r) (cg_label r) (path_taken r s)) in
     case cg_parent r of
       None \<Rightarrow> go None
     | Some p \<Rightarrow> (case find (\<lambda>q. cg_tenant q = cg_tenant r \<and> cg_id q = p \<and> cg_kind q = cg_kind r) (categories s) of
         None \<Rightarrow> Inl (PgError ''P0002'' [] ''query returned no rows'')
       | Some q \<Rightarrow>
           if (case old of None \<Rightarrow> False | Some o' \<Rightarrow> under (cg_path q) o')
           then Inl (PgError ''P0001'' [] ''cannot move category beneath its own descendant'')
           else go (Some (cg_path q))))"

text \<open>\<open>categories_move_subtree\<close>: the rows below the old path move with the row.\<close>

definition rebased :: "string \<Rightarrow> category \<Rightarrow> category \<Rightarrow> category" where
  "rebased old r d =
    (if cg_tenant d = cg_tenant r \<and> cg_kind d = cg_kind r \<and> under (cg_path d) old \<and> cg_id d \<noteq> cg_id r
     then d\<lparr>cg_path := cg_path r @ drop (length old) (cg_path d)\<rparr> else d)"

definition move_subtree :: "string \<Rightarrow> category \<Rightarrow> db \<Rightarrow> db" where
  "move_subtree old r s = (if cg_path r = old then s else s\<lparr>categories := map (rebased old r) (categories s)\<rparr>)"

section \<open>Writes\<close>

definition category_kinds :: "string list" where
  "category_kinds = [''category'', ''series'', ''collection'', ''activity'', ''custom'']"

fun label_rest :: "string \<Rightarrow> bool" where
  "label_rest [] = True"
| "label_rest (ch # s) = (if slug_char ch then label_rest s else ch = CHR ''_'' \<and> s \<noteq> [] \<and> slug_char (hd s) \<and> label_rest s)"

definition label_pattern :: "string \<Rightarrow> bool" where
  "label_pattern s \<longleftrightarrow> s \<noteq> [] \<and> slug_char (hd s) \<and> label_rest s"

definition category_checks :: "category \<Rightarrow> unit stmt" where
  "category_checks r =
    thenT (guardT (\<lambda>_. cg_kind r \<in> set category_kinds) (check_violation ''categories_kind_check''))
     (guardT (\<lambda>_. case cg_label r of None \<Rightarrow> True | Some l \<Rightarrow> label_pattern l) (check_violation ''categories_label_check''))"

definition new_category :: "ctx \<Rightarrow> uuid \<Rightarrow> uuid option \<Rightarrow> string \<Rightarrow> string \<Rightarrow> string option \<Rightarrow> category" where
  "new_category c i parent kind name label = \<lparr>cg_id = i, cg_tenant = tenant_of c, cg_parent = parent, cg_kind = kind, cg_name = name,
     cg_path = [], cg_archived_at = None, cg_created_at = c_now c, cg_updated_at = c_now c, cg_label = label\<rparr>"

definition create_category :: "pg_text \<Rightarrow> ctx \<Rightarrow> uuid \<Rightarrow> uuid option \<Rightarrow> string \<Rightarrow> string \<Rightarrow> string option \<Rightarrow> category stmt" where
  "create_category pg c i parent kind name label s =
    (let r = new_category c i parent kind name label in
     bindT (liftT (set_path pg None r s)) (\<lambda>p.
     let r' = r\<lparr>cg_path := p\<rparr> in
     thenT (category_checks r')
     (thenT (guardT (\<lambda>s. i \<notin> cg_id ` set (categories s)) (unique_violation ''categories_pkey''))
     (thenT (writeT (\<lambda>s. s\<lparr>categories := categories s @ [r']\<rparr>)) (retT r')))) s)"

record update_category_params =
  uc_name :: "string option"
  uc_set_parent :: bool
  uc_parent :: "uuid option"
  uc_set_label :: bool
  uc_label :: "string option"

definition edited_category :: "ctx \<Rightarrow> update_category_params \<Rightarrow> category \<Rightarrow> category" where
  "edited_category c u r = r\<lparr>cg_name := or_else (uc_name u) (cg_name r),
     cg_parent := (if uc_set_parent u then uc_parent u else cg_parent r),
     cg_label := (if uc_set_label u then uc_label u else cg_label r), cg_updated_at := c_now c\<rparr>"

definition upd_category :: "uuid \<Rightarrow> uuid \<Rightarrow> (category \<Rightarrow> category) \<Rightarrow> db \<Rightarrow> db" where
  "upd_category t i f s = s\<lparr>categories := row_upd cg_tenant cg_id t i f (categories s)\<rparr>"

definition update_category :: "pg_text \<Rightarrow> ctx \<Rightarrow> uuid \<Rightarrow> update_category_params \<Rightarrow> category stmt" where
  "update_category pg c i u =
    bindT (oneT (get_category_row (tenant_of c) i)) (\<lambda>r s.
     (let r1 = edited_category c u r in
      bindT (liftT (set_path pg (Some (cg_path r)) r1 s)) (\<lambda>p.
      let r2 = r1\<lparr>cg_path := p\<rparr> in
      thenT (category_checks r2)
      (thenT (writeT (\<lambda>s. move_subtree (cg_path r) r2 (upd_category (tenant_of c) i (\<lambda>_. r2) s))) (retT r2))) s))"

definition archive_category :: "ctx \<Rightarrow> uuid \<Rightarrow> unit stmt" where
  "archive_category c i = writeT (upd_category (tenant_of c) i
     (\<lambda>r. r\<lparr>cg_archived_at := Some (or_else (cg_archived_at r) (c_now c)), cg_updated_at := c_now c\<rparr>))"

section \<open>Counts and lists\<close>

definition below :: "ctx \<Rightarrow> category \<Rightarrow> db \<Rightarrow> category list" where
  "below c r s = filter (\<lambda>d. cg_kind d = cg_kind r \<and> under (cg_path d) (cg_path r)) (own_categories c s)"

definition descendant_count :: "ctx \<Rightarrow> category \<Rightarrow> db \<Rightarrow> int" where
  "descendant_count c r s = int (length (filter (\<lambda>d. cg_id d \<noteq> cg_id r \<and> cg_archived_at d = None) (below c r s)))"

definition subtree_products :: "ctx \<Rightarrow> category \<Rightarrow> db \<Rightarrow> uuid set" where
  "subtree_products c r s = pc_product ` {l \<in> set (rows_of pc_tenant (tenant_of c) (product_categories s)).
     pc_category l \<in> cg_id ` set (below c r s) \<and>
     (case get_product_row (tenant_of c) (pc_product l) s of None \<Rightarrow> False | Some p \<Rightarrow> pr_archived_at p = None)}"

definition category_counts :: "ctx \<Rightarrow> uuid \<Rightarrow> (int \<times> int) stmt" where
  "category_counts c i = oneT (\<lambda>s. map_option (\<lambda>r. (descendant_count c r s, int (card (subtree_products c r s))))
     (get_category_row (tenant_of c) i s))"

definition in_category :: "ctx \<Rightarrow> uuid \<Rightarrow> db \<Rightarrow> uuid \<Rightarrow> bool" where
  "in_category c i s pid = list_ex (\<lambda>l. pc_product l = pid \<and> pc_category l = i) (rows_of pc_tenant (tenant_of c) (product_categories s))"

definition clear_category_products :: "ctx \<Rightarrow> uuid \<Rightarrow> int stmt" where
  "clear_category_products c i s =
    (let hit = (\<lambda>p. pr_tenant p = tenant_of c \<and> in_category c i s (pr_id p)) in
     Inr (int (length (filter hit (products s))),
      s\<lparr>product_categories := row_del pc_tenant (\<lambda>l. pc_category l = i) (tenant_of c) (product_categories s),
        products := map (\<lambda>p. if hit p then p\<lparr>pr_version := pr_version p + 1, pr_updated_at := c_now c\<rparr> else p) (products s)\<rparr>))"

record list_categories_params =
  lg_kind :: "string option"
  lg_parent :: "uuid option"
  lg_depth :: "int option"

text \<open>Without the parent's row (no such category) the left join's columns are NULL and nothing is below it.\<close>

definition list_categories :: "pg_text \<Rightarrow> ctx \<Rightarrow> list_categories_params \<Rightarrow> category list stmt" where
  "list_categories pg c p = readT (\<lambda>s.
     let base = (case lg_parent p of None \<Rightarrow> None | Some i \<Rightarrow> get_category_row (tenant_of c) i s) in
     sort_key (\<lambda>r. (pt_key pg (cg_kind r), cg_path r)) (filter (\<lambda>r.
       cg_archived_at r = None \<and>
       (case lg_kind p of None \<Rightarrow> True | Some k \<Rightarrow> cg_kind r = k) \<and>
       (lg_parent p = None \<or> (case base of None \<Rightarrow> False | Some b \<Rightarrow>
          cg_kind r = cg_kind b \<and> under (cg_path r) (cg_path b) \<and> cg_id r \<noteq> cg_id b)) \<and>
       (case lg_depth p of None \<Rightarrow> True | Some d \<Rightarrow> nlevel (cg_path r) \<le> (case base of None \<Rightarrow> 0 | Some b \<Rightarrow> nlevel (cg_path b)) + d))
     (own_categories c s)))"

end
