(* ===== verification/ProductLists.thy ===== *)
theory ProductLists
  imports Products Brands CategoryQueries
begin

text \<open>
  The catalog lists: the admin's (internal/catalog/product_list.go) and the storefront's reads
  (internal/catalog/storefront.go, storefront_catalog.sql.go; BR-080, BR-081), which see products and variants through
  the views of migration 000019 only. A page is taken by the keyset after a cursor or by a page number.\<close>

section \<open>Pages\<close>

text \<open>\<open>ORDER BY key\<close> or \<open>ORDER BY key DESC\<close>, the rows after the cursor, \<open>LIMIT\<close> one more than asked for.\<close>

definition in_order :: "bool \<Rightarrow> ('r \<Rightarrow> 'k::linorder) \<Rightarrow> 'r list \<Rightarrow> 'r list" where
  "in_order desc key rows = (if desc then rev (sort_key key rows) else sort_key key rows)"

definition past :: "bool \<Rightarrow> ('r \<Rightarrow> 'k::linorder) \<Rightarrow> 'k option \<Rightarrow> 'r \<Rightarrow> bool" where
  "past desc key after r = (case after of None \<Rightarrow> True | Some k \<Rightarrow> if desc then key r < k else k < key r)"

definition fetch :: "bool \<Rightarrow> ('r \<Rightarrow> 'k::linorder) \<Rightarrow> 'k option \<Rightarrow> int \<Rightarrow> int \<Rightarrow> 'r list \<Rightarrow> 'r list" where
  "fetch desc key after page limit rows =
    take (nat (limit + 1)) (drop (if page > 0 then nat (wrap64 ((page - 1) * limit)) else 0)
      (in_order desc key (filter (past desc key after) rows)))"

definition cut_page :: "int \<Rightarrow> 'r list \<Rightarrow> 'r list \<times> 'r option" where
  "cut_page limit rows = (if int (length rows) \<le> limit then (rows, None)
     else (take (nat limit) rows, Some (rows ! (nat limit - 1))))"

text \<open>The offset is computed in \<open>int64\<close>; PostgreSQL refuses one that wraps to below zero.\<close>

definition bad_offset :: "int \<Rightarrow> int \<Rightarrow> bool" where
  "bad_offset page limit \<longleftrightarrow> page > 0 \<and> wrap64 ((page - 1) * limit) < 0"

definition offset_error :: err where
  "offset_error = PgError ''2201X'' [] ''OFFSET must not be negative''"

section \<open>The admin's list\<close>

record list_cursor =
  lc_at :: "instant option"
  lc_title :: "string option"
  lc_price :: "int option"
  lc_id :: uuid

record product_filter =
  pf_status :: "string option"
  pf_brand :: "uuid option"
  pf_category :: "uuid option"
  pf_q :: "string option"
  pf_sort :: string
  pf_after :: "list_cursor option"
  pf_page :: int
  pf_limit :: int

record product_row =
  pw_product :: product
  pw_brand_name :: "string option"
  pw_categories :: "(uuid \<times> string \<times> string) list"
  pw_variants :: int
  pw_price_min :: "int option"
  pw_price_max :: "int option"
  pw_cover :: "string option"

record product_list =
  pl_rows :: "product_row list"
  pl_next :: "list_cursor option"
  pl_total :: int

definition own_products :: "ctx \<Rightarrow> db \<Rightarrow> product list" where
  "own_products c s = rows_of pr_tenant (tenant_of c) (products s)"

definition linked :: "ctx \<Rightarrow> db \<Rightarrow> uuid \<Rightarrow> category list" where
  "linked c s pid = concat (map (\<lambda>l. if pc_product l = pid then filter (\<lambda>k. cg_id k = pc_category l) (own_categories c s) else [])
     (rows_of pc_tenant (tenant_of c) (product_categories s)))"

definition list_match :: "pg_text \<Rightarrow> ctx \<Rightarrow> product_filter \<Rightarrow> db \<Rightarrow> product \<Rightarrow> bool" where
  "list_match pg c f s p \<longleftrightarrow>
     (if pf_status f = Some S_archived then pr_archived_at p \<noteq> None
      else pr_archived_at p = None \<and> (case pf_status f of None \<Rightarrow> True | Some st \<Rightarrow> pr_status p = st)) \<and>
     (case pf_brand f of None \<Rightarrow> True | Some b \<Rightarrow> pr_brand p = Some b) \<and>
     (case pf_category f of None \<Rightarrow> True | Some i \<Rightarrow> (case get_category_row (tenant_of c) i s of None \<Rightarrow> False
        | Some base \<Rightarrow> list_ex (\<lambda>d. cg_kind d = cg_kind base \<and> under (cg_path d) (cg_path base)) (linked c s (pr_id p)))) \<and>
     (case like_pattern (pf_q f) of None \<Rightarrow> True | Some q \<Rightarrow> pt_ilike pg (pr_title p) (''%'' @ q @ ''%'') \<or>
        list_ex (\<lambda>v. va_product v = pr_id p \<and> va_sku v = Some (trim_space (deref (pf_q f)))) (own_variants c s))"

definition cover_key :: "files \<Rightarrow> ctx \<Rightarrow> db \<Rightarrow> uuid \<Rightarrow> string option" where
  "cover_key fl c s pid = (case sort_key (\<lambda>m. (md_position m, md_id m)) (filter (\<lambda>m. md_product m = pid) (own_media c s)) of
     [] \<Rightarrow> None | m # _ \<Rightarrow> map_of (fl_keys fl (md_derivatives m)) ''200'')"

definition least :: "int list \<Rightarrow> int option" where
  "least xs = (case xs of [] \<Rightarrow> None | y # ys \<Rightarrow> Some (foldl min y ys))"

definition greatest :: "int list \<Rightarrow> int option" where
  "greatest xs = (case xs of [] \<Rightarrow> None | y # ys \<Rightarrow> Some (foldl max y ys))"

definition list_row :: "files \<Rightarrow> ctx \<Rightarrow> db \<Rightarrow> product \<Rightarrow> product_row" where
  "list_row fl c s p = (let vs = live_variants c (pr_id p) s in
     \<lparr>pw_product = p,
      pw_brand_name = (case pr_brand p of None \<Rightarrow> None | Some b \<Rightarrow> map_option br_name (get_brand_row (tenant_of c) b s)),
      pw_categories = map (\<lambda>k. (cg_id k, cg_name k, cg_path k)) (sort_key cg_path (filter (\<lambda>k. cg_kind k = ''category'') (linked c s (pr_id p)))),
      pw_variants = int (length vs), pw_price_min = least (map (variant_price (c_now c)) vs),
      pw_price_max = greatest (map (variant_price (c_now c)) vs), pw_cover = map_option (fl_url fl) (cover_key fl c s (pr_id p))\<rparr>)"

definition list_page :: "pg_text \<Rightarrow> product_filter \<Rightarrow> product list \<Rightarrow> product list" where
  "list_page pg f rows =
    (let after = (if pf_page f > 0 then None else pf_after f); fetch' = (\<lambda>desc key k. fetch desc key k (pf_page f) (pf_limit f) rows) in
     if pf_sort f = ''title''
     then fetch False (\<lambda>p. (pt_key pg (pr_title p), pr_id p))
       (case after of None \<Rightarrow> None | Some k \<Rightarrow> map_option (\<lambda>t. (pt_key pg t, lc_id k)) (lc_title k)) (pf_page f) (pf_limit f) rows
     else fetch' True (\<lambda>p. (if pf_sort f = ''-updated_at'' then pr_updated_at p else pr_created_at p, pr_id p))
       (case after of None \<Rightarrow> None | Some k \<Rightarrow> map_option (\<lambda>t. (t, lc_id k)) (lc_at k)))"

definition list_cursor_of :: "string \<Rightarrow> product \<Rightarrow> list_cursor" where
  "list_cursor_of how p = \<lparr>lc_at = (if how = ''title'' then None else if how = ''-updated_at'' then Some (pr_updated_at p) else Some (pr_created_at p)),
     lc_title = (if how = ''title'' then Some (pr_title p) else None), lc_price = None, lc_id = pr_id p\<rparr>"

definition list_products_tx :: "pg_text \<Rightarrow> files \<Rightarrow> ctx \<Rightarrow> product_filter \<Rightarrow> (product list \<times> product_row list \<times> int) stmt" where
  "list_products_tx pg fl c f =
    thenT (guardT (\<lambda>_. \<not> bad_offset (pf_page f) (pf_limit f)) offset_error)
     (readT (\<lambda>s. let hits = filter (list_match pg c f s) (own_products c s); page = list_page pg f hits in
        (page, map (list_row fl c s) page, int (length hits))))"

definition list_products :: "pg_text \<Rightarrow> files \<Rightarrow> ctx \<Rightarrow> product_filter \<Rightarrow> db \<Rightarrow> (err + product_list) \<times> db" where
  "list_products pg fl c f s =
    (case in_tenant_tx c (list_products_tx pg fl c f) s of
      (Inl e, s') \<Rightarrow> (Inl e, s')
    | (Inr (page, rows, n), s') \<Rightarrow> (Inr \<lparr>pl_rows = fst (cut_page (pf_limit f) rows),
        pl_next = map_option (list_cursor_of (pf_sort f)) (snd (cut_page (pf_limit f) page)), pl_total = n\<rparr>, s'))"

section \<open>What a shopper sees\<close>

definition shown_products :: "ctx \<Rightarrow> db \<Rightarrow> product list" where
  "shown_products c s = filter product_visible (own_products c s)"

definition shown_variants :: "ctx \<Rightarrow> db \<Rightarrow> uuid \<Rightarrow> variant list" where
  "shown_variants c s pid = filter (\<lambda>v. va_product v = pid \<and> storefront_variant (tenant_of c) (va_id v) s \<noteq> None) (own_variants c s)"

definition live_linked :: "pg_text \<Rightarrow> ctx \<Rightarrow> db \<Rightarrow> uuid \<Rightarrow> category list" where
  "live_linked pg c s pid = sort_key (\<lambda>k. (pt_key pg (cg_kind k), cg_path k)) (filter (\<lambda>k. cg_archived_at k = None) (linked c s pid))"

definition live_brand :: "ctx \<Rightarrow> db \<Rightarrow> product \<Rightarrow> brand option" where
  "live_brand c s p = (case pr_brand p of None \<Rightarrow> None | Some b \<Rightarrow>
     (case get_brand_row (tenant_of c) b s of None \<Rightarrow> None | Some r \<Rightarrow> if br_archived_at r = None then Some r else None))"

record shop_image =
  si_variant :: "uuid option"
  si_url :: string
  si_sizes :: "(string \<times> string) list"

definition shop_image_of :: "files \<Rightarrow> uuid option \<Rightarrow> string \<Rightarrow> string \<Rightarrow> string \<Rightarrow> shop_image" where
  "shop_image_of fl v key derivatives preferred =
    (let sizes = map (\<lambda>(size, k). (size, fl_url fl k)) (fl_keys fl derivatives) in
     \<lparr>si_variant = v, si_url = or_else (map_of sizes preferred) (fl_url fl key), si_sizes = sizes\<rparr>)"

definition product_images :: "ctx \<Rightarrow> db \<Rightarrow> uuid \<Rightarrow> product_medium list" where
  "product_images c s pid = sort_key (\<lambda>m. (md_position m, md_id m)) (filter (\<lambda>m. md_product m = pid) (own_media c s))"

fun once :: "string list \<Rightarrow> string list \<Rightarrow> string list" where
  "once acc [] = acc"
| "once acc (x # xs) = once (if x \<in> set acc then acc else acc @ [x]) xs"

definition shop_options :: "string list \<Rightarrow> string list list \<Rightarrow> (string \<times> string list) list" where
  "shop_options names vs = map (\<lambda>(i, n). (n, once [] (map (\<lambda>v. v ! i) (filter (\<lambda>v. i < length v) vs)))) (enumerate 0 names)"

record shop_filter =
  sf_path :: "string option"
  sf_brand :: "string option"
  sf_q :: "string option"
  sf_sort :: string
  sf_after :: "list_cursor option"
  sf_page :: int
  sf_limit :: int
  sf_ids :: "uuid list option"

record priced =
  sp_row :: product
  sp_lo :: int
  sp_hi :: int
  sp_sale :: bool
  sp_regular :: int
  sp_weight_lo :: int
  sp_weight_hi :: int
  sp_options :: "string list list"

record shop_product =
  sh_priced :: priced
  sh_brand :: "(string \<times> string) option"
  sh_categories :: "(string \<times> string \<times> string) list"
  sh_options :: "(string \<times> string list) list"
  sh_image :: "shop_image option"

record shop_page =
  sg_products :: "shop_product list"
  sg_next :: "list_cursor option"
  sg_total :: int

fun path_rest :: "string \<Rightarrow> bool" where
  "path_rest [] = True"
| "path_rest (ch # s) = (if slug_char ch \<or> ch = CHR ''_'' then path_rest s
     else ch = dot \<and> s \<noteq> [] \<and> (slug_char (hd s) \<or> hd s = CHR ''_'') \<and> path_rest s)"

definition category_path :: "string \<Rightarrow> bool" where
  "category_path s \<longleftrightarrow> s \<noteq> [] \<and> (slug_char (hd s) \<or> hd s = CHR ''_'') \<and> path_rest s"

definition shop_match :: "pg_text \<Rightarrow> ctx \<Rightarrow> shop_filter \<Rightarrow> db \<Rightarrow> product \<Rightarrow> bool" where
  "shop_match pg c f s p \<longleftrightarrow>
     (case sf_path f of None \<Rightarrow> True | Some x \<Rightarrow> list_ex (\<lambda>k. cg_archived_at k = None \<and> under (cg_path k) x) (linked c s (pr_id p))) \<and>
     (case sf_brand f of None \<Rightarrow> True | Some b \<Rightarrow> list_ex (\<lambda>r. pr_brand p = Some (br_id r) \<and> br_archived_at r = None \<and> br_slug r = b)
        (rows_of br_tenant (tenant_of c) (brands s))) \<and>
     (case like_pattern (sf_q f) of None \<Rightarrow> True | Some q \<Rightarrow> pt_ilike pg (pr_title p) (''%'' @ q @ ''%'')) \<and>
     (case sf_ids f of None \<Rightarrow> True | Some ids \<Rightarrow> pr_id p \<in> set ids)"

text \<open>A product without a visible variant has no price and is left out.\<close>

definition priced_of :: "ctx \<Rightarrow> db \<Rightarrow> product \<Rightarrow> priced option" where
  "priced_of c s p = (let vs = sort_key va_id (shown_variants c s (pr_id p)); price = variant_price (c_now c) in
     case vs of [] \<Rightarrow> None | _ \<Rightarrow> Some \<lparr>sp_row = p, sp_lo = the (least (map price vs)), sp_hi = the (greatest (map price vs)),
       sp_sale = list_ex (\<lambda>v. price v < va_regular_price v) vs, sp_regular = the (least (map va_regular_price vs)),
       sp_weight_lo = the (least (map va_weight_grams vs)), sp_weight_hi = the (greatest (map va_weight_grams vs)),
       sp_options = map va_option_values vs\<rparr>)"

definition shop_list :: "pg_text \<Rightarrow> shop_filter \<Rightarrow> priced list \<Rightarrow> priced list" where
  "shop_list pg f rows =
    (let after = (if sf_page f > 0 then None else sf_after f);
         by_int = (\<lambda>desc key k. fetch desc (\<lambda>p. (key p, pr_id (sp_row p))) (k :: (int \<times> uuid) option) (sf_page f) (sf_limit f) rows);
         at = (\<lambda>g. case after of None \<Rightarrow> None | Some k \<Rightarrow> map_option (\<lambda>t. (t, lc_id k)) (g k)) in
     if sf_sort f = ''price_min'' then by_int False sp_lo (at lc_price)
     else if sf_sort f = ''-price_min'' then by_int True sp_lo (at lc_price)
     else if sf_sort f = ''title''
     then fetch False (\<lambda>p. (pt_key pg (pr_title (sp_row p)), pr_id (sp_row p)))
       (case after of None \<Rightarrow> None | Some k \<Rightarrow> map_option (\<lambda>t. (pt_key pg t, lc_id k)) (lc_title k)) (sf_page f) (sf_limit f) rows
     else by_int True (\<lambda>p. pr_updated_at (sp_row p)) (at lc_at))"

definition shop_cursor_of :: "string \<Rightarrow> priced \<Rightarrow> list_cursor" where
  "shop_cursor_of how p =
    (let by_price = (how = ''price_min'' \<or> how = ''-price_min'') in
     \<lparr>lc_at = (if by_price \<or> how = ''title'' then None else Some (pr_updated_at (sp_row p))),
      lc_title = (if how = ''title'' then Some (pr_title (sp_row p)) else None),
      lc_price = (if by_price then Some (sp_lo p) else None), lc_id = pr_id (sp_row p)\<rparr>)"

definition shop_row :: "pg_text \<Rightarrow> files \<Rightarrow> ctx \<Rightarrow> db \<Rightarrow> priced \<Rightarrow> shop_product" where
  "shop_row pg fl c s p = (let r = sp_row p in
     \<lparr>sh_priced = p, sh_brand = map_option (\<lambda>b. (br_slug b, br_name b)) (live_brand c s r),
      sh_categories = map (\<lambda>k. (cg_kind k, cg_name k, cg_path k)) (live_linked pg c s (pr_id r)),
      sh_options = shop_options (pr_option_names r) (sp_options p),
      sh_image = (case product_images c s (pr_id r) of [] \<Rightarrow> None | m # _ \<Rightarrow> Some (shop_image_of fl None (md_key m) (md_derivatives m) ''800''))\<rparr>)"

definition shop_products_tx :: "pg_text \<Rightarrow> files \<Rightarrow> ctx \<Rightarrow> shop_filter \<Rightarrow> (priced list \<times> shop_product list \<times> int) stmt" where
  "shop_products_tx pg fl c f =
    thenT (guardT (\<lambda>_. \<not> bad_offset (sf_page f) (sf_limit f)) offset_error)
     (readT (\<lambda>s. let hits = List.map_filter (priced_of c s) (filter (shop_match pg c f s) (shown_products c s)); page = shop_list pg f hits in
        (page, map (shop_row pg fl c s) page, int (length hits))))"

definition shop_products :: "pg_text \<Rightarrow> files \<Rightarrow> ctx \<Rightarrow> shop_filter \<Rightarrow> db \<Rightarrow> (err + shop_page) \<times> db" where
  "shop_products pg fl c f s =
    (if (case sf_path f of None \<Rightarrow> False | Some x \<Rightarrow> \<not> category_path x)
     then (Inl (field_error ''category'' ''category is a category path such as apparel.tees''), s)
     else (case in_tenant_tx c (shop_products_tx pg fl c f) s of
       (Inl e, s') \<Rightarrow> (Inl e, s')
     | (Inr (page, rows, n), s') \<Rightarrow> (Inr \<lparr>sg_products = fst (cut_page (sf_limit f) rows),
         sg_next = map_option (shop_cursor_of (sf_sort f)) (snd (cut_page (sf_limit f) page)), sg_total = n\<rparr>, s')))"

section \<open>One product\<close>

record shop_variant =
  sv_id :: uuid
  sv_sku :: "string option"
  sv_options :: "string list"
  sv_price :: int
  sv_regular :: int
  sv_on_sale :: bool
  sv_weight :: int

definition shop_variant_of :: "instant \<Rightarrow> variant \<Rightarrow> shop_variant" where
  "shop_variant_of now v = \<lparr>sv_id = va_id v, sv_sku = va_sku v, sv_options = va_option_values v, sv_price = variant_price now v,
     sv_regular = va_regular_price v, sv_on_sale = (variant_price now v < va_regular_price v), sv_weight = va_weight_grams v\<rparr>"

record shop_detail =
  sd_product :: product
  sd_brand :: "(string \<times> string) option"
  sd_categories :: "(string \<times> string \<times> string) list"
  sd_images :: "shop_image list"
  sd_variants :: "shop_variant list"

text \<open>An image of a variant the shopper may not see keeps its place and loses the variant's id.\<close>

definition shown_image :: "files \<Rightarrow> ctx \<Rightarrow> db \<Rightarrow> product_medium \<Rightarrow> shop_image" where
  "shown_image fl c s m = shop_image_of fl
     (case md_variant m of None \<Rightarrow> None | Some v \<Rightarrow> map_option va_id (storefront_variant (tenant_of c) v s)) (md_key m) (md_derivatives m) ''1600''"

definition shop_product_op :: "pg_text \<Rightarrow> files \<Rightarrow> ctx \<Rightarrow> string \<Rightarrow> db \<Rightarrow> (err + shop_detail) \<times> db" where
  "shop_product_op pg fl c slug = in_tenant_tx c
    (bindT (mapErrT (\<lambda>e. if err_is e NoRows then not_found ''No such product.'' else e)
       (oneT (\<lambda>s. find (\<lambda>p. pr_slug p = slug) (shown_products c s)))) (\<lambda>p.
     readT (\<lambda>s. \<lparr>sd_product = p, sd_brand = map_option (\<lambda>b. (br_slug b, br_name b)) (live_brand c s p),
       sd_categories = map (\<lambda>k. (cg_kind k, cg_name k, cg_path k)) (live_linked pg c s (pr_id p)),
       sd_images = map (shown_image fl c s) (product_images c s (pr_id p)),
       sd_variants = map (shop_variant_of (c_now c)) (sort_key va_id (shown_variants c s (pr_id p)))\<rparr>)))"

definition shop_categories_op :: "pg_text \<Rightarrow> ctx \<Rightarrow> string option \<Rightarrow> db \<Rightarrow> (err + category list) \<times> db" where
  "shop_categories_op pg c kind = in_tenant_tx c (readT (\<lambda>s. sort_key (\<lambda>r. (cg_path r, pt_key pg (cg_kind r), cg_id r))
     (filter (\<lambda>r. cg_archived_at r = None \<and> (case kind of None \<Rightarrow> True | Some k \<Rightarrow> cg_kind r = k)) (own_categories c s))))"

definition shop_brands_op :: "pg_text \<Rightarrow> ctx \<Rightarrow> db \<Rightarrow> (err + (string \<times> string) list) \<times> db" where
  "shop_brands_op pg c = in_tenant_tx c (readT (\<lambda>s. map (\<lambda>b. (br_slug b, br_name b))
     (sort_key (\<lambda>b. (pt_key pg (br_name b), br_id b)) (filter (\<lambda>b. br_archived_at b = None) (rows_of br_tenant (tenant_of c) (brands s))))))"

end
