(* ===== verification/Categories.thy ===== *)
theory Categories
  imports CategoryQueries
begin

text \<open>
  Categories (internal/catalog/categories.go; BR-012, BR-031 to BR-036): creating, renaming, relabelling and moving
  with the paths the triggers keep, and the delete that live children refuse.\<close>

section \<open>Checks\<close>

definition check_label :: "string option \<Rightarrow> err option" where
  "check_label l = (case l of None \<Rightarrow> None
     | Some x \<Rightarrow> if label_pattern x then None else Some (field_error ''label'' ''lower-case letters and digits joined by single underscores''))"

definition check_parent :: "ctx \<Rightarrow> uuid option \<Rightarrow> string \<Rightarrow> unit stmt" where
  "check_parent c parent kind =
    (case parent of None \<Rightarrow> retT ()
     | Some p \<Rightarrow> bindT (mapErrT (\<lambda>e. if err_is e NoRows then field_error ''parent_id'' ''no such category'' else e) (get_category c p)) (\<lambda>r.
         if cg_archived_at r \<noteq> None then failT (field_error ''parent_id'' ''the parent is archived'')
         else if cg_kind r \<noteq> kind
         then failT (field_error ''parent_id'' (''the parent is in a '' @ cg_kind r @ '' tree, not '' @ kind))
         else retT ()))"

definition category_write_error :: "err \<Rightarrow> err" where
  "category_write_error e =
    (case violation e of
      None \<Rightarrow> e
    | Some (k, _) \<Rightarrow>
        if k = ''P0001'' \<and> contains (error_text e) ''beneath its own descendant''
        then field_error ''parent_id'' ''a category cannot move beneath itself or one of its descendants''
        else if k = ''P0001'' \<and> contains (error_text e) ''category label''
        then field_error ''label'' ''a sibling already uses this path (deleted categories included)''
        else e)"

section \<open>The operations\<close>

definition category_entry :: "string \<Rightarrow> uuid \<Rightarrow> dyn option \<Rightarrow> dyn option \<Rightarrow> audit_entry" where
  "category_entry action i b a = \<lparr>ae_action = action, ae_subject_type = ''category'', ae_subject_id = DId i, ae_before = b, ae_after = a\<rparr>"

definition parent_dyn :: "category \<Rightarrow> dyn" where
  "parent_dyn r = (case cg_parent r of None \<Rightarrow> DNull | Some p \<Rightarrow> DId p)"

definition create_category_tx :: "pg_text \<Rightarrow> ctx \<Rightarrow> uuid \<Rightarrow> string \<Rightarrow> string \<Rightarrow> uuid option \<Rightarrow> string option \<Rightarrow> category stmt" where
  "create_category_tx pg c i name kind parent label =
    thenT (lock_categories c)
    (thenT (check_parent c parent kind)
    (bindT (mapErrT category_write_error (create_category pg c i parent kind name label)) (\<lambda>r.
     thenT (audit c (category_entry ''category.create'' i None (Some (DObj [(''name'', DStr (cg_name r)), (''kind'', DStr (cg_kind r)),
        (''parent_id'', parent_dyn r), (''path'', DStr (cg_path r))])))) (retT r))))"

definition create_category_op :: "pg_text \<Rightarrow> ctx \<Rightarrow> uuid \<Rightarrow> string \<Rightarrow> string \<Rightarrow> uuid option \<Rightarrow> string option \<Rightarrow> db \<Rightarrow> (err + category) \<times> db" where
  "create_category_op pg c i name kind parent label s =
    (let n = trim_space name in
     if n = [] then (Inl (field_error ''name'' ''name is required''), s)
     else (case check_label label of
        Some e \<Rightarrow> (Inl e, s)
      | None \<Rightarrow> in_tenant_tx c (create_category_tx pg c i n kind parent label) s))"

record category_update =
  cx_name :: "string option"
  cx_parent :: "uuid option"
  cx_clear_parent :: bool
  cx_label :: "string option"
  cx_clear_label :: bool

definition category_params :: "category_update \<Rightarrow> update_category_params" where
  "category_params u = \<lparr>uc_name = cx_name u, uc_set_parent = (cx_parent u \<noteq> None \<or> cx_clear_parent u), uc_parent = cx_parent u,
     uc_set_label = (cx_label u \<noteq> None \<or> cx_clear_label u), uc_label = cx_label u\<rparr>"

definition category_audit :: "category \<Rightarrow> dyn" where
  "category_audit r = DObj [(''name'', DStr (cg_name r)), (''parent_id'', parent_dyn r), (''label'', opt_str (cg_label r)), (''path'', DStr (cg_path r))]"

definition update_category_tx :: "pg_text \<Rightarrow> ctx \<Rightarrow> uuid \<Rightarrow> category_update \<Rightarrow> category stmt" where
  "update_category_tx pg c i u =
    thenT (lock_categories c)
    (bindT (mapErrT (no_such ''category'') (get_category c i)) (\<lambda>before.
     thenT (if cx_parent u \<noteq> None then check_parent c (cx_parent u) (cg_kind before) else retT ())
     (bindT (mapErrT category_write_error (update_category pg c i (category_params u))) (\<lambda>r.
      thenT (audit c (category_entry ''category.update'' i (Some (category_audit before)) (Some (category_audit r)))) (retT r)))))"

definition update_category_op :: "pg_text \<Rightarrow> ctx \<Rightarrow> uuid \<Rightarrow> category_update \<Rightarrow> db \<Rightarrow> (err + category) \<times> db" where
  "update_category_op pg c i u s =
    (let u' = u\<lparr>cx_name := map_option trim_space (cx_name u)\<rparr> in
     if cx_name u' = Some [] then (Inl (field_error ''name'' ''name is required''), s)
     else (case check_label (cx_label u) of
        Some e \<Rightarrow> (Inl e, s)
      | None \<Rightarrow> in_tenant_tx c (update_category_tx pg c i u') s))"

definition archive_category_tx :: "ctx \<Rightarrow> uuid \<Rightarrow> unit stmt" where
  "archive_category_tx c i =
    thenT (lock_categories c)
    (thenT (mapErrT (no_such ''category'') (get_category c i))
    (bindT (category_counts c i) (\<lambda>(n, _).
     if n > 0 then failT (category_in_use n)
     else thenT (archive_category c i)
       (bindT (clear_category_products c i) (\<lambda>k.
        audit c (category_entry ''category.archive'' i None (Some (DObj [(''products_cleared'', DInt k)]))))))))"

definition archive_category_op :: "ctx \<Rightarrow> uuid \<Rightarrow> db \<Rightarrow> (err + unit) \<times> db" where
  "archive_category_op c i = in_tenant_tx c (archive_category_tx c i)"

record category_detail =
  cdt_row :: category
  cdt_descendants :: int
  cdt_products :: int

definition get_category_op :: "ctx \<Rightarrow> uuid \<Rightarrow> db \<Rightarrow> (err + category_detail) \<times> db" where
  "get_category_op c i = in_tenant_tx c
    (bindT (mapErrT (no_such ''category'') (get_category c i)) (\<lambda>r.
     bindT (category_counts c i) (\<lambda>(d, p). retT \<lparr>cdt_row = r, cdt_descendants = d, cdt_products = p\<rparr>)))"

definition list_categories_op :: "pg_text \<Rightarrow> ctx \<Rightarrow> string option \<Rightarrow> uuid option \<Rightarrow> int option \<Rightarrow> db \<Rightarrow> (err + category list) \<times> db" where
  "list_categories_op pg c kind parent depth = in_tenant_tx c
    (thenT (case parent of None \<Rightarrow> retT ()
            | Some p \<Rightarrow> thenT (mapErrT (\<lambda>e. if err_is e NoRows then field_error ''parent_id'' ''no such category'' else e) (get_category c p)) (retT ()))
     (list_categories pg c \<lparr>lg_kind = kind, lg_parent = parent, lg_depth = map_option wrap32 depth\<rparr>))"

end
