(* ===== verification/CategoryTree.thy ===== *)
theory CategoryTree
  imports Categories
begin

text \<open>
  The category trees (BR-031 to BR-034): what the paths promise about the parents, that every category operation
  keeps it, and what follows: the parents form a forest, and the path comparisons the statements make are the
  ancestor relation.\<close>

section \<open>Paths\<close>

lemma under_refl [simp]: "under p p"
  by (simp add: under_def)

lemma under_child [simp]: "under (q @ dot # l) q"
  by (simp add: under_def)

lemma under_child_iff: "dot \<notin> set l \<Longrightarrow> under (q @ dot # l) p \<longleftrightarrow> q @ dot # l = p \<or> under q p"
proof
  assume l: "dot \<notin> set l" and u: "under (q @ dot # l) p"
  show "q @ dot # l = p \<or> under q p"
  proof (cases "q @ dot # l = p")
    case False
    with u have "prefix (p @ [dot]) (q @ dot # l)" by (simp add: under_def)
    then obtain z where z: "q @ dot # l = p @ dot # z" by (auto simp: prefix_def)
    have "under q p"
      using z unfolding append_eq_append_conv2
    proof (elim exE disjE conjE)
      fix us assume "q = p @ us" and "us @ dot # l = dot # z"
      then show ?thesis by (cases us) (auto simp: under_def)
    next
      fix us assume "q @ us = p" and "dot # l = us @ dot # z"
      then show ?thesis using l by (cases us) auto
    qed
    then show ?thesis ..
  qed simp
next
  assume "dot \<notin> set l" and "q @ dot # l = p \<or> under q p"
  then show "under (q @ dot # l) p" by (auto simp: under_def prefix_def)
qed

lemma under_top: "dot \<notin> set p \<Longrightarrow> under p q \<longleftrightarrow> p = q"
  by (auto simp: under_def prefix_def)

lemma under_trans: "under p q \<Longrightarrow> under q r \<Longrightarrow> under p r"
  by (auto simp: under_def prefix_def)

lemma under_cases: "under p q \<Longrightarrow> (p = q \<Longrightarrow> P) \<Longrightarrow> (\<And>z. p = q @ dot # z \<Longrightarrow> P) \<Longrightarrow> P"
  by (auto simp: under_def prefix_def)

text \<open>A label the triggers derive has no dot.\<close>

lemma slug_char_no_dot: "slug_char ch \<Longrightarrow> ch \<noteq> dot"
  by (auto simp: slug_char_def is_digit_def dot_def)

lemma runs_to_chars: "ch \<in> set (runs_to sep b s) \<Longrightarrow> slug_char ch \<or> ch = sep"
  by (induction sep b s rule: runs_to.induct) (auto split: if_splits)

lemma trim_both_subset: "set (trim_both ch s) \<subseteq> set s"
  by (auto simp: trim_both_def dest!: set_dropWhileD)

lemma slugify_label_no_dot: "dot \<notin> set (slugify_label pg txt)"
  using trim_both_subset [of "CHR ''_''" "runs_to (CHR ''_'') False (pt_fold pg txt)"]
    runs_to_chars [of dot "CHR ''_''" False "pt_fold pg txt"] slug_char_no_dot
  by (auto simp: slugify_label_def dot_def)

lemma label_rest_chars: "label_rest s \<Longrightarrow> ch \<in> set s \<Longrightarrow> slug_char ch \<or> ch = CHR ''_''"
  by (induction s) (auto split: if_splits)

lemma label_pattern_no_dot: "label_pattern s \<Longrightarrow> dot \<notin> set s"
  using label_rest_chars [of s dot] slug_char_no_dot by (auto simp: label_pattern_def dot_def)

lemma itoa_no_dot: "dot \<notin> set (itoa (int n))"
  using itoa_nat_digits [of n] slug_char_no_dot by (auto simp: itoa_def slug_char_def)

lemma nth_label_no_dot: "dot \<notin> set base \<Longrightarrow> dot \<notin> set (nth_label base n)"
  using itoa_no_dot by (auto simp: nth_label_def dot_def)

lemma nth_label_nonempty: "base \<noteq> [] \<Longrightarrow> nth_label base n \<noteq> []"
  by (simp add: nth_label_def)

lemma label_base_nonempty: "label_base pg r \<noteq> []"
  by (simp add: label_base_def Let_def)

lemma label_base_no_dot: "(case cg_label r of None \<Rightarrow> True | Some l \<Rightarrow> label_pattern l) \<Longrightarrow> dot \<notin> set (label_base pg r)"
  using slugify_label_no_dot label_pattern_no_dot
  by (auto simp: label_base_def or_else_def Let_def dot_def split: option.splits)

lemma next_path_Inr: "next_path fuel n parent base chosen taken = Inr p \<Longrightarrow>
    \<not> taken p \<and> (\<exists>k. p = child_path parent (nth_label base k))"
  by (induction fuel n parent base chosen taken rule: next_path.induct)
    (auto simp: Let_def split: if_splits option.splits)

section \<open>The invariant\<close>

definition tree_key :: "category \<Rightarrow> uuid \<times> string \<times> string" where
  "tree_key r = (cg_tenant r, cg_kind r, cg_path r)"

text \<open>\<open>child_of q r\<close>: \<open>r\<close> names \<open>q\<close> as its parent and its path is one label below.\<close>

definition child_of :: "category \<Rightarrow> category \<Rightarrow> bool" where
  "child_of q r \<longleftrightarrow> cg_parent r = Some (cg_id q) \<and> cg_tenant q = cg_tenant r \<and> cg_kind q = cg_kind r \<and>
     (\<exists>l. l \<noteq> [] \<and> dot \<notin> set l \<and> cg_path r = cg_path q @ dot # l)"

definition rooted :: "category set \<Rightarrow> category \<Rightarrow> bool" where
  "rooted R r \<longleftrightarrow> (cg_parent r = None \<and> cg_path r \<noteq> [] \<and> dot \<notin> set (cg_path r)) \<or> (\<exists>q \<in> R. child_of q r)"

definition tree_ok :: "db \<Rightarrow> bool" where
  "tree_ok s \<longleftrightarrow> distinct (map cg_id (categories s)) \<and> inj_on tree_key (set (categories s)) \<and>
     (\<forall>r \<in> set (categories s). rooted (set (categories s)) r)"

lemma tree_okD:
  assumes "tree_ok s"
  shows "distinct (map cg_id (categories s))" "inj_on cg_id (set (categories s))" "inj_on tree_key (set (categories s))"
    "r \<in> set (categories s) \<Longrightarrow> rooted (set (categories s)) r"
  using assms by (auto simp: tree_ok_def distinct_map)

lemma rooted_mono: "rooted R r \<Longrightarrow> R \<subseteq> R' \<Longrightarrow> rooted R' r"
  by (auto simp: rooted_def)

lemma child_path_longer: "child_of q r \<Longrightarrow> length (cg_path q) < length (cg_path r)"
  by (auto simp: child_of_def)

lemma child_under: "child_of q r \<Longrightarrow> under (cg_path r) p \<longleftrightarrow> cg_path r = p \<or> under (cg_path q) p"
  by (auto simp: child_of_def under_child_iff)

text \<open>Every prefix of a path is the path of a row: the ancestors of a category exist.\<close>

lemma ancestor_exists:
  assumes "tree_ok s" and "r \<in> set (categories s)" and "under (cg_path r) p"
  shows "\<exists>q \<in> set (categories s). cg_tenant q = cg_tenant r \<and> cg_kind q = cg_kind r \<and> cg_path q = p"
  using assms(2,3)
proof (induction "length (cg_path r)" arbitrary: r rule: less_induct)
  case less
  show ?case
  proof (cases "cg_path r = p")
    case True
    with less.prems show ?thesis by blast
  next
    case False
    from tree_okD(4) [OF assms(1) less.prems(1)] consider "dot \<notin> set (cg_path r)"
      | q where "q \<in> set (categories s)" "child_of q r"
      by (auto simp: rooted_def)
    then show ?thesis
    proof cases
      case 1
      with less.prems(2) False show ?thesis by (simp add: under_top)
    next
      case 2
      then have "under (cg_path q) p" using less.prems(2) False child_under by auto
      then show ?thesis
        using less.hyps [OF child_path_longer [OF 2(2)] 2(1)] 2(2) by (auto simp: child_of_def)
    qed
  qed
qed

section \<open>A new row\<close>

text \<open>What the BEFORE trigger promises: a free path one label below a parent that is not below the row itself.\<close>

definition placed :: "db \<Rightarrow> string option \<Rightarrow> category \<Rightarrow> bool" where
  "placed s old r \<longleftrightarrow> \<not> path_taken r s (cg_path r) \<and>
     ((cg_parent r = None \<and> cg_path r \<noteq> [] \<and> dot \<notin> set (cg_path r)) \<or>
      (\<exists>q \<in> set (categories s). child_of q r \<and> (case old of None \<Rightarrow> True | Some p \<Rightarrow> \<not> under (cg_path q) p)))"

lemma set_path_Inr:
  assumes "set_path pg old r s = Inr p" and "case cg_label r of None \<Rightarrow> True | Some l \<Rightarrow> label_pattern l"
  shows "placed s old (r\<lparr>cg_path := p\<rparr>)"
proof -
  have base: "dot \<notin> set (label_base pg r)" "label_base pg r \<noteq> []"
    by (rule label_base_no_dot [OF assms(2)]) (rule label_base_nonempty)
  have path: "\<not> path_taken r s p \<and> (\<exists>l. l \<noteq> [] \<and> dot \<notin> set l \<and> p = child_path parent l)"
    if "next_path fuel n parent (label_base pg r) chosen (path_taken r s) = Inr p" for fuel n parent chosen
    using next_path_Inr [OF that] nth_label_no_dot [OF base(1)] nth_label_nonempty [OF base(2)] by blast
  have taken: "path_taken (r\<lparr>cg_path := p\<rparr>) s = path_taken r s"
    by (simp add: path_taken_def fun_eq_iff)
  show ?thesis
  proof (cases "cg_parent r")
    case None
    then have n: "next_path (Suc (length (categories s))) 0 None (label_base pg r) (cg_label r) (path_taken r s) = Inr p"
      using assms(1) by (simp add: set_path_def Let_def)
    from path [OF n] None show ?thesis by (auto simp: placed_def taken child_path_def)
  next
    case (Some i)
    with assms(1) obtain q where q: "find (\<lambda>q. cg_tenant q = cg_tenant r \<and> cg_id q = i \<and> cg_kind q = cg_kind r) (categories s) = Some q"
      and o1: "case old of None \<Rightarrow> True | Some p \<Rightarrow> \<not> under (cg_path q) p"
      and n: "next_path (Suc (length (categories s))) 0 (Some (cg_path q)) (label_base pg r) (cg_label r) (path_taken r s) = Inr p"
      by (auto simp: set_path_def Let_def split: option.splits if_splits)
    have "q \<in> set (categories s)" "cg_tenant q = cg_tenant r" "cg_id q = i" "cg_kind q = cg_kind r"
      using q by (auto simp: find_Some_iff)
    moreover from path [OF n] obtain l where "l \<noteq> []" "dot \<notin> set l" "p = cg_path q @ dot # l"
      by (auto simp: child_path_def)
    ultimately have "child_of q (r\<lparr>cg_path := p\<rparr>)" using Some by (simp add: child_of_def)
    with \<open>q \<in> set (categories s)\<close> o1 path [OF n] show ?thesis by (auto simp: placed_def taken)
  qed
qed

lemma placed_rooted: "placed s old r \<Longrightarrow> rooted (set (categories s)) r"
  by (auto simp: placed_def rooted_def)

lemma placed_free: "placed s old r \<Longrightarrow> q \<in> set (categories s) \<Longrightarrow> tree_key q = tree_key r \<Longrightarrow> cg_id q = cg_id r"
  by (auto simp: placed_def path_taken_def list_ex_iff tree_key_def)

lemma create_category_shape:
  assumes "create_category pg c i parent kind name label s = Inr (r, s')"
  shows "placed s None r \<and> cg_id r \<notin> cg_id ` set (categories s) \<and> categories s' = categories s @ [r]"
  using assms set_path_Inr [of pg None "new_category c i parent kind name label" s]
  by (auto simp: create_category_def tx_inr category_checks_def Let_def new_category_def)

lemma create_category_tree:
  assumes "tree_ok s" and "create_category pg c i parent kind name label s = Inr (r, s')"
  shows "tree_ok s'"
proof -
  from create_category_shape [OF assms(2)]
  have p: "placed s None r" and new: "cg_id r \<notin> cg_id ` set (categories s)" and s': "categories s' = categories s @ [r]"
    by blast+
  have "tree_key r \<notin> tree_key ` set (categories s)"
  proof
    assume "tree_key r \<in> tree_key ` set (categories s)"
    then obtain q where "q \<in> set (categories s)" "tree_key q = tree_key r" by (metis imageE)
    with placed_free [OF p] new show False by (metis image_eqI)
  qed
  then have "inj_on tree_key (set (categories s'))"
    using tree_okD(3) [OF assms(1)] new by (simp add: s') blast
  moreover have "rooted (set (categories s')) q" if "q \<in> set (categories s')" for q
  proof (rule rooted_mono)
    show "rooted (set (categories s)) q"
      using that placed_rooted [OF p] tree_okD(4) [OF assms(1)] by (auto simp: s')
  qed (auto simp: s')
  ultimately show ?thesis using new tree_okD(1) [OF assms(1)] by (auto simp: tree_ok_def s')
qed

section \<open>A move\<close>

lemma rebased_same: "cg_path r2 = old \<Longrightarrow> rebased old r2 d = d"
  by (auto simp: rebased_def elim!: under_cases)

lemma move_subtree_map: "categories (move_subtree old r2 s) = map (rebased old r2) (categories s)"
  by (simp add: move_subtree_def rebased_same cong: map_cong)

definition moved :: "category \<Rightarrow> category \<Rightarrow> category \<Rightarrow> category" where
  "moved r r2 d = (if cg_id d = cg_id r then r2 else rebased (cg_path r) r2 d)"

lemma update_category_shape:
  assumes "update_category pg c i u s = Inr (r2, s')" and "tree_ok s"
  obtains r where "get_category_row (tenant_of c) i s = Some r" "r \<in> set (categories s)" "cg_id r2 = cg_id r"
    "cg_tenant r2 = cg_tenant r" "cg_kind r2 = cg_kind r" "placed s (Some (cg_path r)) r2"
    "categories s' = map (moved r r2) (categories s)"
proof -
  from assms(1) obtain r p where r: "get_category_row (tenant_of c) i s = Some r"
    and p: "set_path pg (Some (cg_path r)) (edited_category c u r) s = Inr p"
    and r2: "r2 = (edited_category c u r)\<lparr>cg_path := p\<rparr>"
    and l: "case cg_label r2 of None \<Rightarrow> True | Some l \<Rightarrow> label_pattern l"
    and s': "s' = move_subtree (cg_path r) r2 (upd_category (tenant_of c) i (\<lambda>_. r2) s)"
    by (auto simp: update_category_def tx_inr category_checks_def Let_def)
  have m: "r \<in> set (categories s)" "cg_tenant r = tenant_of c" "cg_id r = i"
    using row_get_Some [of cg_tenant cg_id "tenant_of c" i "categories s" r] r by (auto simp: get_category_row_def)
  have "cg_tenant d = tenant_of c" if "d \<in> set (categories s)" "cg_id d = i" for d
    using that m tree_okD(2) [OF assms(2)] by (metis inj_onD)
  moreover have id2: "cg_id r2 = i" by (simp add: r2 edited_category_def m)
  ultimately have "categories s' = map (moved r r2) (categories s)"
    unfolding s' move_subtree_map upd_category_def row_upd_def
    by (simp add: moved_def rebased_def [of _ _ r2] id2 m cong: map_cong)
  moreover have "placed s (Some (cg_path r)) r2"
    using set_path_Inr [OF p] l by (simp add: r2)
  ultimately show thesis
    using that [of r] r m by (simp add: r2 edited_category_def)
qed

text \<open>A row under the moved one keeps its place below it; every other row keeps its path.\<close>

lemma moved_frame:
  assumes "cg_id r2 = cg_id r" and "cg_tenant r2 = cg_tenant r" and "cg_kind r2 = cg_kind r"
    and "cg_id d = cg_id r \<Longrightarrow> d = r"
  shows "cg_id (moved r r2 d) = cg_id d" "cg_tenant (moved r r2 d) = cg_tenant d" "cg_kind (moved r r2 d) = cg_kind d"
  using assms by (auto simp: moved_def rebased_def)

definition in_subtree :: "category \<Rightarrow> category \<Rightarrow> bool" where
  "in_subtree r d \<longleftrightarrow> cg_tenant d = cg_tenant r \<and> cg_kind d = cg_kind r \<and> under (cg_path d) (cg_path r)"

lemma moved_path:
  assumes "cg_id d \<noteq> cg_id r" and "cg_id r2 = cg_id r" and "cg_tenant r2 = cg_tenant r" and "cg_kind r2 = cg_kind r"
  shows "cg_path (moved r r2 d) = (if in_subtree r d then cg_path r2 @ drop (length (cg_path r)) (cg_path d) else cg_path d)"
    and "cg_parent (moved r r2 d) = cg_parent d"
  using assms by (auto simp: moved_def rebased_def in_subtree_def)

lemma in_subtree_child:
  assumes "child_of q d" and "\<not> (in_subtree r d \<and> cg_path d = cg_path r)"
  shows "in_subtree r d \<longleftrightarrow> in_subtree r q"
  using assms child_under [OF assms(1)] by (auto simp: in_subtree_def child_of_def)

lemma rebase_child:
  assumes "under q old" and "p = q @ dot # l"
  shows "new @ drop (length old) p = (new @ drop (length old) q) @ dot # l"
  using assms by (auto simp: under_def prefix_def)

lemma moved_child:
  assumes "child_of q d" and "cg_id d \<noteq> cg_id r" and "\<not> (in_subtree r d \<and> cg_path d = cg_path r)"
    and "cg_id q = cg_id r \<Longrightarrow> q = r" and r2: "cg_id r2 = cg_id r" "cg_tenant r2 = cg_tenant r" "cg_kind r2 = cg_kind r"
  shows "child_of (moved r r2 q) (moved r r2 d)"
proof -
  from assms(1) obtain l where l: "l \<noteq> []" "dot \<notin> set l" "cg_path d = cg_path q @ dot # l" by (auto simp: child_of_def)
  note same = in_subtree_child [OF assms(1,3)]
  have "cg_path (moved r r2 d) = cg_path (moved r r2 q) @ dot # l"
  proof (cases "cg_id q = cg_id r")
    case True
    then have "q = r" by (rule assms(4))
    moreover have "in_subtree r r" by (simp add: in_subtree_def)
    ultimately show ?thesis using same l(3) by (simp add: moved_path(1) [OF assms(2) r2]) (simp add: moved_def)
  next
    case False
    show ?thesis
      using same l(3) rebase_child [of "cg_path q" "cg_path r" "cg_path d" l "cg_path r2"]
      by (simp add: moved_path(1) [OF assms(2) r2] moved_path(1) [OF False r2] in_subtree_def)
  qed
  moreover have "cg_parent (moved r r2 d) = Some (cg_id (moved r r2 q))" "cg_tenant (moved r r2 q) = cg_tenant (moved r r2 d)"
    "cg_kind (moved r r2 q) = cg_kind (moved r r2 d)"
    using assms(1) moved_frame [of r2 r q] moved_frame [of r2 r d] r2 assms(2,4) moved_path(2) [OF assms(2) r2]
    by (auto simp: child_of_def)
  ultimately show ?thesis using l by (auto simp: child_of_def)
qed

definition category_move :: "db \<Rightarrow> category \<Rightarrow> category \<Rightarrow> bool" where
  "category_move s r r2 \<longleftrightarrow> tree_ok s \<and> r \<in> set (categories s) \<and> placed s (Some (cg_path r)) r2 \<and>
     cg_id r2 = cg_id r \<and> cg_tenant r2 = cg_tenant r \<and> cg_kind r2 = cg_kind r"

lemma category_moveD:
  assumes "category_move s r r2"
  shows "tree_ok s" "r \<in> set (categories s)" "placed s (Some (cg_path r)) r2"
    "cg_id r2 = cg_id r" "cg_tenant r2 = cg_tenant r" "cg_kind r2 = cg_kind r"
  using assms by (simp_all add: category_move_def)

lemma by_id: "category_move s r r2 \<Longrightarrow> d \<in> set (categories s) \<Longrightarrow> cg_id d = cg_id r \<Longrightarrow> d = r"
  by (rule inj_onD [OF tree_okD(2) [OF category_moveD(1)] _ _ category_moveD(2)])

lemma by_path: "category_move s r r2 \<Longrightarrow> d \<in> set (categories s) \<Longrightarrow> in_subtree r d \<Longrightarrow> cg_path d = cg_path r \<Longrightarrow> d = r"
  by (rule inj_onD [OF tree_okD(3) [OF category_moveD(1)] _ _ category_moveD(2)]) (simp_all add: tree_key_def in_subtree_def)

lemma by_new_path:
  assumes mv: "category_move s r r2" and d: "d \<in> set (categories s)" and "tree_key d = tree_key r2"
  shows "d = r"
proof -
  have "cg_id d = cg_id r2" by (rule placed_free [OF category_moveD(3) [OF mv] d assms(3)])
  then show ?thesis using by_id [OF mv d] category_moveD(4) [OF mv] by simp
qed

lemma move_frame:
  assumes "category_move s r r2" and "d \<in> set (categories s)"
  shows "cg_id (moved r r2 d) = cg_id d" "cg_tenant (moved r r2 d) = cg_tenant d" "cg_kind (moved r r2 d) = cg_kind d"
  by (rule moved_frame [OF category_moveD(4-6) [OF assms(1)] by_id [OF assms]]; assumption)+

lemmas move_path = moved_path [OF _ category_moveD(4-6)]

lemma root_row:
  assumes mv: "category_move s r r2"
  shows "rooted (moved r r2 ` set (categories s)) r2"
proof -
  from category_moveD(3) [OF mv] consider "cg_parent r2 = None" "cg_path r2 \<noteq> []" "dot \<notin> set (cg_path r2)"
    | q where "q \<in> set (categories s)" "child_of q r2" "\<not> under (cg_path q) (cg_path r)"
    by (auto simp: placed_def)
  then show ?thesis
  proof cases
    case 1
    then show ?thesis by (simp add: rooted_def)
  next
    case 2
    then have "moved r r2 q = q" using by_id [OF mv 2(1)] by (auto simp: moved_def rebased_def)
    with 2 show ?thesis unfolding rooted_def by (metis image_eqI)
  qed
qed

lemma all_rooted:
  assumes mv: "category_move s r r2" and d: "d \<in> set (categories s)"
  shows "rooted (moved r r2 ` set (categories s)) (moved r r2 d)"
proof (cases "cg_id d = cg_id r")
  case True
  then show ?thesis using root_row [OF mv] by (simp add: moved_def)
next
  case False
  then have top: "\<not> (in_subtree r d \<and> cg_path d = cg_path r)" using by_path [OF mv d] by blast
  from tree_okD(4) [OF category_moveD(1) [OF mv] d] consider "cg_parent d = None" "cg_path d \<noteq> []" "dot \<notin> set (cg_path d)"
    | q where "q \<in> set (categories s)" "child_of q d"
    by (auto simp: rooted_def)
  then show ?thesis
  proof cases
    case 1
    then have "\<not> in_subtree r d" using top by (auto simp: in_subtree_def under_top)
    with 1 show ?thesis by (simp add: rooted_def move_path [OF False mv mv mv])
  next
    case 2
    have "child_of (moved r r2 q) (moved r r2 d)"
      by (rule moved_child [OF 2(2) False top by_id [OF mv 2(1)] category_moveD(4-6) [OF mv]])
    with 2(1) show ?thesis by (auto simp: rooted_def)
  qed
qed

text \<open>No two rows land on the same path.\<close>

lemma moved_clash:
  assumes mv: "category_move s r r2" and a: "a \<in> set (categories s)" and b: "b \<in> set (categories s)"
    and "cg_id a \<noteq> cg_id r" "in_subtree r a" and "cg_id b \<noteq> cg_id r" "\<not> in_subtree r b"
    and key: "tree_key (moved r r2 a) = tree_key (moved r r2 b)"
  shows False
proof -
  have same: "cg_tenant b = cg_tenant r" "cg_kind b = cg_kind r"
    and path: "cg_path b = cg_path r2 @ drop (length (cg_path r)) (cg_path a)"
    using key assms(5,7) move_frame [OF mv a] move_frame [OF mv b] move_path(1) [OF assms(4) mv mv mv] move_path(1) [OF assms(6) mv mv mv]
    by (auto simp: tree_key_def in_subtree_def)
  have "under (cg_path a) (cg_path r)" using assms(5) by (simp add: in_subtree_def)
  then have "under (cg_path b) (cg_path r2)"
    unfolding path by (rule under_cases) (simp_all add: under_def)
  then obtain q where q: "q \<in> set (categories s)" "cg_tenant q = cg_tenant b" "cg_kind q = cg_kind b" "cg_path q = cg_path r2"
    using ancestor_exists [OF category_moveD(1) [OF mv] b] by blast
  then have "tree_key q = tree_key r2" using same category_moveD [OF mv] by (simp add: tree_key_def)
  then have "q = r" by (rule by_new_path [OF mv q(1)])
  then have "in_subtree r b" using same q(4) \<open>under (cg_path b) (cg_path r2)\<close> by (simp add: in_subtree_def)
  with assms(7) show False ..
qed

lemma root_clash:
  assumes mv: "category_move s r r2" and b: "b \<in> set (categories s)" and "cg_id b \<noteq> cg_id r"
  shows "tree_key r2 \<noteq> tree_key (moved r r2 b)"
proof
  assume key: "tree_key r2 = tree_key (moved r r2 b)"
  show False
  proof (cases "in_subtree r b")
    case True
    then have "under (cg_path b) (cg_path r)" by (simp add: in_subtree_def)
    moreover have "cg_path r2 = cg_path r2 @ drop (length (cg_path r)) (cg_path b)"
      using key True move_path(1) [OF assms(3) mv mv mv] by (simp add: tree_key_def)
    ultimately have "cg_path b = cg_path r" by (auto elim: under_cases)
    with by_path [OF mv b True] assms(3) show False by simp
  next
    case False
    then have "tree_key b = tree_key r2"
      using key move_path(1) [OF assms(3) mv mv mv] move_frame [OF mv b] by (simp add: tree_key_def)
    with by_new_path [OF mv b] assms(3) show False by simp
  qed
qed

lemma moved_key_inj:
  assumes mv: "category_move s r r2" and a: "a \<in> set (categories s)" and b: "b \<in> set (categories s)"
    and key: "tree_key (moved r r2 a) = tree_key (moved r r2 b)"
  shows "a = b"
proof (cases "cg_id a = cg_id r \<or> cg_id b = cg_id r")
  case True
  have "moved r r2 r = r2" by (simp add: moved_def)
  then have "cg_id a = cg_id r" "cg_id b = cg_id r"
    using True root_clash [OF mv a] root_clash [OF mv b] key by_id [OF mv a] by_id [OF mv b] by metis+
  then show ?thesis using by_id [OF mv a] by_id [OF mv b] by simp
next
  case False
  then have na: "cg_id a \<noteq> cg_id r" and nb: "cg_id b \<noteq> cg_id r" by blast+
  have sub: "in_subtree r a \<longleftrightarrow> in_subtree r b"
    using moved_clash [OF mv a b na _ nb _ key] moved_clash [OF mv b a nb _ na _ key [symmetric]] by blast
  have "cg_path a = cg_path b"
  proof (cases "in_subtree r a")
    case True
    with sub have "under (cg_path a) (cg_path r)" "under (cg_path b) (cg_path r)" by (simp_all add: in_subtree_def)
    moreover have "drop (length (cg_path r)) (cg_path a) = drop (length (cg_path r)) (cg_path b)"
      using key True sub move_path(1) [OF na mv mv mv] move_path(1) [OF nb mv mv mv] by (simp add: tree_key_def)
    ultimately show ?thesis by (auto elim!: under_cases)
  next
    case False
    then show ?thesis
      using key sub move_path(1) [OF na mv mv mv] move_path(1) [OF nb mv mv mv] by (simp add: tree_key_def)
  qed
  then have "tree_key a = tree_key b"
    using key move_frame [OF mv a] move_frame [OF mv b] by (simp add: tree_key_def)
  then show ?thesis by (rule inj_onD [OF tree_okD(3) [OF category_moveD(1) [OF mv]] _ a b])
qed

lemma move_tree:
  assumes mv: "category_move s r r2" and s': "categories s' = map (moved r r2) (categories s)"
  shows "tree_ok s'"
proof -
  have ids: "map cg_id (categories s') = map cg_id (categories s)"
    using move_frame(1) [OF mv] by (simp add: s')
  have "inj_on tree_key (set (categories s'))"
    unfolding s' by (auto intro!: inj_onI dest: moved_key_inj [OF mv])
  moreover have "rooted (set (categories s')) q" if "q \<in> set (categories s')" for q
    using that all_rooted [OF mv] unfolding s' by auto
  ultimately show ?thesis
    using tree_okD(1) [OF category_moveD(1) [OF mv]] ids unfolding tree_ok_def by metis
qed

lemma update_category_tree:
  assumes "tree_ok s" and "update_category pg c i u s = Inr (r2, s')"
  shows "tree_ok s'"
proof -
  obtain r where "r \<in> set (categories s)" "cg_id r2 = cg_id r" "cg_tenant r2 = cg_tenant r" "cg_kind r2 = cg_kind r"
    "placed s (Some (cg_path r)) r2" and s': "categories s' = map (moved r r2) (categories s)"
    using update_category_shape [OF assms(2,1)] by metis
  then have "category_move s r r2" using assms(1) by (simp add: category_move_def)
  then show ?thesis using s' by (rule move_tree)
qed

section \<open>The operations\<close>

text \<open>A live category's parent is live.\<close>

definition live_parents :: "db \<Rightarrow> bool" where
  "live_parents s \<longleftrightarrow> (\<forall>d \<in> set (categories s). \<forall>q \<in> set (categories s).
     cg_parent d = Some (cg_id q) \<and> cg_archived_at d = None \<longrightarrow> cg_archived_at q = None)"

lemma live_parentsD: "live_parents s \<Longrightarrow> d \<in> set (categories s) \<Longrightarrow> q \<in> set (categories s) \<Longrightarrow> cg_parent d = Some (cg_id q) \<Longrightarrow>
    cg_archived_at d = None \<Longrightarrow> cg_archived_at q = None"
  unfolding live_parents_def by blast

definition forest :: "db \<Rightarrow> bool" where
  "forest s \<longleftrightarrow> tree_ok s \<and> live_parents s"

lemma same_categories: "categories s' = categories s \<Longrightarrow> forest s' = forest s"
  by (simp only: forest_def tree_ok_def live_parents_def)

text \<open>A link to a parent is a link one label up.\<close>

lemma parent_child:
  assumes "tree_ok s" and "d \<in> set (categories s)" and "q \<in> set (categories s)" and "cg_parent d = Some (cg_id q)"
  shows "child_of q d"
proof -
  from tree_okD(4) [OF assms(1,2)] assms(4) obtain p where p: "p \<in> set (categories s)" "child_of p d"
    by (auto simp: rooted_def)
  then have "cg_id p = cg_id q" using assms(4) by (simp add: child_of_def)
  then have "p = q" by (rule inj_onD [OF tree_okD(2) [OF assms(1)] _ p(1) assms(3)])
  with p show ?thesis by simp
qed

lemma check_parent_live:
  assumes "check_parent c (Some p) kind s = Inr (x, s')"
  shows "s' = s \<and> (\<exists>q. get_category_row (tenant_of c) p s = Some q \<and> cg_archived_at q = None)"
  using assms by (auto simp: check_parent_def tx_inr get_category_def split: if_splits)

lemma check_parent_frame: "check_parent c parent kind s = Inr (x, s') \<Longrightarrow> s' = s"
  by (auto simp: check_parent_def tx_inr get_category_def split: option.splits if_splits)

lemma live_row:
  assumes "tree_ok s" and "get_category_row t p s = Some q" and "q' \<in> set (categories s)" and "cg_id q' = p"
  shows "q' = q"
proof -
  have q: "q \<in> set (categories s)" "cg_id q = p"
    using assms(2) row_get_Some [of cg_tenant cg_id t p "categories s" q] by (auto simp: get_category_row_def)
  show ?thesis by (rule inj_onD [OF tree_okD(2) [OF assms(1)] _ assms(3) q(1)]) (simp add: q(2) assms(4))
qed

lemma create_category_tx_forest:
  assumes "forest s" and "create_category_tx pg c i name kind parent label s = Inr (r, s')"
  shows "forest s'"
proof -
  from assms(2) obtain sa s1 where a: "check_parent c parent kind s = Inr ((), sa)"
    and b: "create_category pg c i parent kind name label sa = Inr (r, s1)" and s': "categories s' = categories s1"
    by (auto simp: create_category_tx_def tx_inr lock_categories_def)
  have chk: "check_parent c parent kind s = Inr ((), s)" and m: "create_category pg c i parent kind name label s = Inr (r, s1)"
    using a b check_parent_frame [OF a] by simp_all
  note t = create_category_shape [OF m]
  have ok: "tree_ok s" "live_parents s" using assms(1) by (simp_all add: forest_def)
  have pr: "cg_parent r = parent"
    using m by (auto simp: create_category_def tx_inr Let_def new_category_def)
  have up: "cg_archived_at q = None" if "q \<in> set (categories s)" "cg_parent r = Some (cg_id q)" for q
  proof -
    have "check_parent c (Some (cg_id q)) kind s = Inr ((), s)" using chk pr that(2) by simp
    from check_parent_live [OF this] obtain q' where "get_category_row (tenant_of c) (cg_id q) s = Some q'" "cg_archived_at q' = None"
      by blast
    with live_row [OF ok(1) _ that(1)] show ?thesis by blast
  qed
  have down: "cg_parent d \<noteq> Some (cg_id r)" if "d \<in> set (categories s)" for d
    using tree_okD(4) [OF ok(1) that] t by (auto simp: rooted_def child_of_def) (metis image_eqI)
  have self: "cg_parent r \<noteq> Some (cg_id r)"
    using t by (auto simp: placed_def child_of_def) (metis image_eqI)
  have cs: "categories s' = categories s @ [r]" using t s' by simp
  have "live_parents s'"
    unfolding live_parents_def cs
  proof (intro ballI impI, elim conjE)
    fix d q
    assume "d \<in> set (categories s @ [r])" "q \<in> set (categories s @ [r])"
      and l: "cg_parent d = Some (cg_id q)" "cg_archived_at d = None"
    then consider "d = r" "q = r" | "d = r" "q \<in> set (categories s)" | "d \<in> set (categories s)" "q = r"
      | "d \<in> set (categories s)" "q \<in> set (categories s)"
      by auto
    then show "cg_archived_at q = None"
      by cases (use self up down l live_parentsD [OF ok(2), of d q] in blast)+
  qed
  then show ?thesis
    using create_category_tree [OF ok(1) m] s' by (simp add: forest_def tree_ok_def)
qed

lemma update_category_shape2:
  assumes "update_category pg c i u s = Inr (r2, s')" and "tree_ok s"
  shows "\<exists>r. category_move s r r2 \<and> categories s' = map (moved r r2) (categories s) \<and> cg_archived_at r2 = cg_archived_at r \<and>
     cg_parent r2 = (if uc_set_parent u then uc_parent u else cg_parent r)"
proof -
  obtain r where r: "get_category_row (tenant_of c) i s = Some r" "r \<in> set (categories s)" "cg_id r2 = cg_id r"
    "cg_tenant r2 = cg_tenant r" "cg_kind r2 = cg_kind r" "placed s (Some (cg_path r)) r2"
    "categories s' = map (moved r r2) (categories s)"
    by (rule update_category_shape [OF assms])
  have "cg_archived_at r2 = cg_archived_at r \<and> cg_parent r2 = (if uc_set_parent u then uc_parent u else cg_parent r)"
    using assms(1) r(1) by (auto simp: update_category_def tx_inr Let_def edited_category_def)
  with r assms(2) show ?thesis by (auto simp: category_move_def)
qed

lemma moved_links:
  assumes mv: "category_move s r r2" and d: "d \<in> set (categories s)" and "cg_id d \<noteq> cg_id r"
  shows "cg_parent (moved r r2 d) = cg_parent d" "cg_archived_at (moved r r2 d) = cg_archived_at d"
  using assms(3) by (simp_all add: moved_def rebased_def)

lemma move_archived:
  assumes mv: "category_move s r r2" and "cg_archived_at r2 = cg_archived_at r" and d: "d \<in> set (categories s)"
  shows "cg_archived_at (moved r r2 d) = cg_archived_at d"
  using moved_links(2) [OF mv d] by_id [OF mv d] assms(2) by (cases "cg_id d = cg_id r") (simp_all add: moved_def)

lemma move_live_parents:
  assumes mv: "category_move s r r2" and s': "categories s' = map (moved r r2) (categories s)"
    and a: "cg_archived_at r2 = cg_archived_at r" and "live_parents s"
    and new: "\<And>q. q \<in> set (categories s) \<Longrightarrow> cg_parent r2 = Some (cg_id q) \<Longrightarrow> cg_archived_at r = None \<Longrightarrow> cg_archived_at q = None"
  shows "live_parents s'"
  unfolding live_parents_def s'
proof (intro ballI impI, elim conjE)
  fix x y
  assume "x \<in> set (map (moved r r2) (categories s))" and "y \<in> set (map (moved r r2) (categories s))"
    and link: "cg_parent x = Some (cg_id y)" and live: "cg_archived_at x = None"
  then obtain d q where d: "d \<in> set (categories s)" "x = moved r r2 d" and q: "q \<in> set (categories s)" "y = moved r r2 q"
    by auto
  have id: "cg_id y = cg_id q" and ay: "cg_archived_at y = cg_archived_at q" and ax: "cg_archived_at d = None"
    using move_frame(1) [OF mv q(1)] move_archived [OF mv a q(1)] move_archived [OF mv a d(1)] q(2) d(2) live by simp_all
  show "cg_archived_at y = None"
  proof (cases "cg_id d = cg_id r")
    case True
    then have "d = r" "x = r2" using by_id [OF mv d(1)] d(2) by (simp_all add: moved_def)
    then show ?thesis using new [OF q(1)] link id ax ay by simp
  next
    case False
    have "cg_parent x = cg_parent d" unfolding d(2) by (rule moved_links(1) [OF mv d(1) False])
    with link id have "cg_parent d = Some (cg_id q)" by simp
    with ay show ?thesis using live_parentsD [OF assms(4) d(1) q(1) _ ax] by simp
  qed
qed

lemma update_category_tx_forest:
  assumes "forest s" and "update_category_tx pg c i u s = Inr (r2, s')"
  shows "forest s'"
proof -
  have ok: "tree_ok s" "live_parents s" using assms(1) by (simp_all add: forest_def)
  from assms(2) obtain b :: category and sa s1 where
    a: "(if cx_parent u \<noteq> None then check_parent c (cx_parent u) (cg_kind b) else retT ()) s = Inr ((), sa)"
    and b: "update_category pg c i (category_params u) sa = Inr (r2, s1)" and s': "categories s' = categories s1"
    by (auto simp: update_category_tx_def thenT_Inr bindT_Inr lock_categories_def get_category_def)
  have sa: "sa = s" using a check_parent_frame by (cases "cx_parent u") auto
  have chk: "cx_parent u \<noteq> None \<longrightarrow> check_parent c (cx_parent u) (cg_kind b) s = Inr ((), s)"
    and m: "update_category pg c i (category_params u) s = Inr (r2, s1)"
    using a b by (cases "cx_parent u"; simp add: sa)+
  from update_category_shape2 [OF m ok(1)] obtain r where mv: "category_move s r r2"
    and cs: "categories s1 = map (moved r r2) (categories s)" and a: "cg_archived_at r2 = cg_archived_at r"
    and p: "cg_parent r2 = (if uc_set_parent (category_params u) then uc_parent (category_params u) else cg_parent r)"
    by blast
  have "live_parents s1"
  proof (rule move_live_parents [OF mv cs a ok(2)])
    fix q assume q: "q \<in> set (categories s)" "cg_parent r2 = Some (cg_id q)" "cg_archived_at r = None"
    show "cg_archived_at q = None"
    proof (cases "cx_parent u")
      case None
      then have "cg_parent r = Some (cg_id q)" using p q(2) by (auto simp: category_params_def split: if_splits)
      then show ?thesis by (rule live_parentsD [OF ok(2) category_moveD(2) [OF mv] q(1) _ q(3)])
    next
      case (Some i')
      then have "cg_parent r2 = Some i'" using p by (simp add: category_params_def)
      then have "i' = cg_id q" using q(2) by (metis option.inject)
      then have "check_parent c (Some (cg_id q)) (cg_kind b) s = Inr ((), s)" using chk Some by simp
      from check_parent_live [OF this] show ?thesis using live_row [OF ok(1) _ q(1)] by blast
    qed
  qed
  then have "forest s1" using update_category_tree [OF ok(1) m] by (simp add: forest_def)
  then show ?thesis using same_categories [OF s'] by simp
qed

section \<open>Paths and parents\<close>

text \<open>The parent links as a relation: from a category to its parent.\<close>

definition parent_link :: "db \<Rightarrow> (category \<times> category) set" where
  "parent_link s = {(d, q). d \<in> set (categories s) \<and> q \<in> set (categories s) \<and> cg_parent d = Some (cg_id q)}"

lemma link_child: "tree_ok s \<Longrightarrow> (d, q) \<in> parent_link s \<Longrightarrow> child_of q d"
  by (simp add: parent_link_def parent_child)

lemma links_under:
  assumes "tree_ok s" and "(d, q) \<in> (parent_link s)\<^sup>*"
  shows "under (cg_path d) (cg_path q) \<and> cg_tenant d = cg_tenant q \<and> cg_kind d = cg_kind q"
  using assms(2)
proof (induction rule: rtrancl_induct)
  case (step p q)
  have "child_of q p" by (rule link_child [OF assms(1) step.hyps(2)])
  then have "under (cg_path p) (cg_path q)" "cg_tenant q = cg_tenant p" "cg_kind q = cg_kind p" by (auto simp: child_of_def)
  then show ?case using step.IH under_trans by metis
qed simp

lemma under_links:
  assumes ok: "tree_ok s" and q: "q \<in> set (categories s)"
  shows "d \<in> set (categories s) \<Longrightarrow> cg_tenant d = cg_tenant q \<Longrightarrow> cg_kind d = cg_kind q \<Longrightarrow>
    under (cg_path d) (cg_path q) \<Longrightarrow> (d, q) \<in> (parent_link s)\<^sup>*"
proof (induction "length (cg_path d)" arbitrary: d rule: less_induct)
  case less
  show ?case
  proof (cases "cg_path d = cg_path q")
    case True
    then have "tree_key d = tree_key q" using less.prems by (simp add: tree_key_def)
    then have "d = q" by (rule inj_onD [OF tree_okD(3) [OF ok] _ less.prems(1) q])
    then show ?thesis by simp
  next
    case False
    have "rooted (set (categories s)) d" by (rule tree_okD(4) [OF ok less.prems(1)])
    moreover have "dot \<in> set (cg_path d)" using False less.prems(4) under_top by blast
    ultimately obtain p :: category where p: "p \<in> set (categories s)" "child_of p d"
      by (auto simp: rooted_def)
    then have "under (cg_path p) (cg_path q)" "cg_tenant p = cg_tenant q" "cg_kind p = cg_kind q"
      using child_under [OF p(2)] False less.prems by (simp_all add: child_of_def)
    then have "(p, q) \<in> (parent_link s)\<^sup>*" by (intro less.hyps [OF child_path_longer [OF p(2)]] p(1))
    moreover have "(d, p) \<in> parent_link s" using p less.prems(1) by (simp add: parent_link_def child_of_def)
    ultimately show ?thesis by (rule converse_rtrancl_into_rtrancl [rotated])
  qed
qed

lemma under_iff_links:
  assumes "tree_ok s" and "d \<in> set (categories s)" and "q \<in> set (categories s)"
  shows "cg_tenant d = cg_tenant q \<and> cg_kind d = cg_kind q \<and> under (cg_path d) (cg_path q) \<longleftrightarrow> (d, q) \<in> (parent_link s)\<^sup>*"
  using under_links [OF assms(1,3,2)] links_under [OF assms(1)] by blast

lemma links_acyclic: "tree_ok s \<Longrightarrow> acyclic (parent_link s)"
  by (rule acyclicI_order [where f = "\<lambda>r. length (cg_path r)"]) (auto dest: link_child child_path_longer)

section \<open>The delete\<close>

lemma archive_category_forest:
  assumes "forest s" and r: "get_category_row (tenant_of c) i s = Some r" and none: "descendant_count c r s \<le> 0"
    and m: "archive_category c i s = Inr (x, s')"
  shows "forest s'"
proof -
  have ok: "tree_ok s" "live_parents s" using assms(1) by (simp_all add: forest_def)
  have rr: "r \<in> set (categories s)" "cg_tenant r = tenant_of c" "cg_id r = i"
    using row_get_Some [of cg_tenant cg_id "tenant_of c" i "categories s" r] r by (auto simp: get_category_row_def)
  define f where "f = (\<lambda>d. if cg_tenant d = tenant_of c \<and> cg_id d = i
     then d\<lparr>cg_archived_at := Some (or_else (cg_archived_at d) (c_now c)), cg_updated_at := c_now c\<rparr> else d :: category)"
  have cs: "categories s' = map f (categories s)"
    using m by (simp add: archive_category_def upd_category_def row_upd_def f_def)
  have keep: "cg_id (f d) = cg_id d" "tree_key (f d) = tree_key d" "cg_parent (f d) = cg_parent d" "cg_path (f d) = cg_path d"
    "cg_tenant (f d) = cg_tenant d" "cg_kind (f d) = cg_kind d" for d
    by (simp_all add: f_def tree_key_def)
  have root: "rooted (set (categories s')) (f d)" if "d \<in> set (categories s)" for d
    using tree_okD(4) [OF ok(1) that] by (auto simp: rooted_def child_of_def keep cs)
  then have "\<forall>d \<in> set (categories s'). rooted (set (categories s')) d"
    by (simp only: cs set_map ball_simps simp_thms) blast
  moreover have "inj_on tree_key (set (categories s'))"
    using tree_okD(3) [OF ok(1)] by (auto simp: cs keep intro!: inj_onI dest: inj_onD)
  moreover have "map cg_id (categories s') = map cg_id (categories s)" by (simp add: cs keep)
  then have "distinct (map cg_id (categories s'))" using tree_okD(1) [OF ok(1)] by metis
  ultimately have "tree_ok s'" unfolding tree_ok_def by blast
  moreover have "live_parents s'"
    unfolding live_parents_def cs
  proof (intro ballI impI, elim conjE)
    fix x y assume "x \<in> set (map f (categories s))" "y \<in> set (map f (categories s))"
      and l: "cg_parent x = Some (cg_id y)" "cg_archived_at x = None"
    then obtain d q where d: "d \<in> set (categories s)" "x = f d" and q: "q \<in> set (categories s)" "y = f q" by auto
    have link: "cg_parent d = Some (cg_id q)" and live: "cg_archived_at d = None" and neq: "f d = d"
      using l keep(1) [of q] keep(3) [of d] d(2) q(2) by (auto simp: f_def split: if_splits)
    have "q \<noteq> r"
    proof
      assume "q = r"
      have "child_of r d" using parent_child [OF ok(1) d(1) q(1) link] \<open>q = r\<close> by simp
      then have "d \<in> set (filter (\<lambda>d. cg_id d \<noteq> cg_id r \<and> cg_archived_at d = None) (below c r s))"
        using d(1) live rr child_path_longer [of r d] inj_onD [OF tree_okD(2) [OF ok(1)] _ d(1) rr(1)]
        by (auto simp: below_def own_categories_def rows_of_def child_of_def)
      then show False using none unfolding descendant_count_def by (metis length_pos_if_in_set of_nat_0_less_iff not_le)
    qed
    then have "f q = q" using q(1) rr inj_onD [OF tree_okD(2) [OF ok(1)] _ q(1) rr(1)] by (auto simp: f_def)
    then show "cg_archived_at y = None" using live_parentsD [OF ok(2) d(1) q(1) link live] q(2) by simp
  qed
  ultimately show ?thesis by (simp add: forest_def)
qed

lemma archive_category_tx_forest:
  assumes "forest s" and "archive_category_tx c i s = Inr (x, s')"
  shows "forest s'"
proof -
  from assms(2) obtain r sa where r: "get_category_row (tenant_of c) i s = Some r" and n: "descendant_count c r s \<le> 0"
    and a: "archive_category c i s = Inr ((), sa)" and s': "categories s' = categories sa"
    by (auto simp: archive_category_tx_def tx_inr lock_categories_def get_category_def category_counts_def clear_category_products_def
        Let_def split: if_splits)
  have "forest sa" by (rule archive_category_forest [OF assms(1) r n a])
  then show ?thesis using same_categories [OF s'] by simp
qed


text \<open>The three writes of the category routes.\<close>

lemma create_category_op_forest: "forest s \<Longrightarrow> forest (snd (create_category_op pg c i name kind parent label s))"
  using in_tenant_tx_within [OF inv.tx_relation_axioms, of forest "create_category_tx pg c i (trim_space name) kind parent label" s c]
    create_category_tx_forest
  by (auto simp: create_category_op_def Let_def within_def holds_on_def split: option.splits)

lemma update_category_op_forest: "forest s \<Longrightarrow> forest (snd (update_category_op pg c i u s))"
  using in_tenant_tx_within [OF inv.tx_relation_axioms, of forest "update_category_tx pg c i (u\<lparr>cx_name := map_option trim_space (cx_name u)\<rparr>)" s c]
    update_category_tx_forest
  by (auto simp: update_category_op_def Let_def within_def holds_on_def split: option.splits)

lemma archive_category_op_forest: "forest s \<Longrightarrow> forest (snd (archive_category_op c i s))"
  using in_tenant_tx_within [OF inv.tx_relation_axioms, of forest "archive_category_tx c i" s c] archive_category_tx_forest
  by (auto simp: archive_category_op_def within_def holds_on_def)

text \<open>C10. The categories of every shop stay forests (BR-031 to BR-034): from a state in which the ids are distinct, no
  two categories of a shop and kind share a path, every category is a root with a one-label path or names a parent of its
  own shop and kind whose path is one label shorter, and no live category has a deleted parent, each of the three writes
  (create, rename/relabel/move with its subtree, delete) leaves such a state, whether it succeeds or fails.\<close>

theorem categories_stay_forests:
  assumes "forest s"
  shows "forest (snd (create_category_op pg c i name kind parent label s)) \<and> forest (snd (update_category_op pg c i u s)) \<and>
    forest (snd (archive_category_op c i s))"
  using assms create_category_op_forest update_category_op_forest archive_category_op_forest by blast

text \<open>Two trees: Tops with T-Shirts below it, and Shoes.\<close>

definition ascii_pg :: pg_text where
  "ascii_pg = \<lparr>pt_fold = map ascii_lower, pt_key = map ascii_lower, pt_ilike = (\<lambda>a b. True)\<rparr>"

definition shop_ctx :: ctx where
  "shop_ctx = \<lparr>c_tenant = Some 1, c_actor = Some 5, c_ip = None, c_role = Some ''owner'', c_now = 100, c_clock = 100\<rparr>"

definition sample_category :: "uuid \<Rightarrow> uuid option \<Rightarrow> string \<Rightarrow> string \<Rightarrow> category" where
  "sample_category i p name path = \<lparr>cg_id = i, cg_tenant = 1, cg_parent = p, cg_kind = ''category'', cg_name = name, cg_path = path,
     cg_archived_at = None, cg_created_at = 0, cg_updated_at = 0, cg_label = None\<rparr>"

definition sample_tree :: db where
  "sample_tree = empty_db\<lparr>categories := [sample_category 10 None ''Tops'' ''tops'', sample_category 11 (Some 10) ''T-Shirts'' ''tops.t_shirts'',
     sample_category 12 None ''Shoes'' ''shoes'']\<rparr>"

lemma sample_forest: "forest sample_tree"
  by (simp add: forest_def tree_ok_def live_parents_def rooted_def child_of_def sample_tree_def sample_category_def tree_key_def dot_def empty_db_def)

text \<open>Shoes adopts Tops: both rows of the subtree move. A move of Tops below T-Shirts is refused.\<close>

theorem categories_stay_forests_witness:
  "forest (snd (update_category_op ascii_pg shop_ctx 10 \<lparr>cx_name = None, cx_parent = Some 12, cx_clear_parent = False, cx_label = None, cx_clear_label = False\<rparr> sample_tree)) \<and>
   map cg_path (categories (snd (update_category_op ascii_pg shop_ctx 10 \<lparr>cx_name = None, cx_parent = Some 12, cx_clear_parent = False, cx_label = None, cx_clear_label = False\<rparr> sample_tree)))
     = [''shoes.tops'', ''shoes.tops.t_shirts'', ''shoes'']"
proof (rule conjI)
  show "forest (snd (update_category_op ascii_pg shop_ctx 10 \<lparr>cx_name = None, cx_parent = Some 12, cx_clear_parent = False, cx_label = None, cx_clear_label = False\<rparr> sample_tree))"
    using categories_stay_forests [OF sample_forest] by blast
qed code_simp

lemma move_below_itself_refused:
  "fst (update_category_op ascii_pg shop_ctx 10 \<lparr>cx_name = None, cx_parent = Some 11, cx_clear_parent = False, cx_label = None, cx_clear_label = False\<rparr> sample_tree)
     = Inl (field_error ''parent_id'' ''a category cannot move beneath itself or one of its descendants'')"
  by code_simp

text \<open>C17. The path comparisons answer what following the parents would (BR-032, BR-036): in a forest the parent links
  have no cycle, and the categories the statements find under a category by its path (for the delete that live children
  refuse, for the product count, for a listing) are exactly those from which it is reached by parent links.\<close>

theorem paths_are_ancestry:
  assumes "forest s" and "r \<in> set (categories s)" and "cg_tenant r = tenant_of c"
  shows "acyclic (parent_link s) \<and> set (below c r s) = {d. (d, r) \<in> (parent_link s)\<^sup>*}"
proof -
  have ok: "tree_ok s" using assms(1) by (simp add: forest_def)
  have "d \<in> set (categories s)" if "(d, r) \<in> (parent_link s)\<^sup>*" for d
    using that by (cases rule: converse_rtranclE) (auto simp: assms(2) parent_link_def)
  then have "d \<in> set (below c r s) \<longleftrightarrow> (d, r) \<in> (parent_link s)\<^sup>*" for d
    using under_iff_links [OF ok _ assms(2), of d] assms(3)
    by (auto simp: below_def own_categories_def rows_of_def)
  then show ?thesis using links_acyclic [OF ok] by auto
qed

theorem paths_are_ancestry_witness:
  "set (below shop_ctx (sample_category 10 None ''Tops'' ''tops'') sample_tree)
     = {d. (d, sample_category 10 None ''Tops'' ''tops'') \<in> (parent_link sample_tree)\<^sup>*}"
  using paths_are_ancestry [OF sample_forest, of "sample_category 10 None ''Tops'' ''tops''" shop_ctx]
  by (simp add: sample_tree_def shop_ctx_def tenant_of_def sample_category_def)

end
