(* ===== verification/Matrix.thy ===== *)
theory Matrix
  imports Products
begin

text \<open>
  The variant matrix (internal/catalog/matrix.go; BR-039, BR-040, BR-041). \<open>lower\<close> is \<open>strings.ToLower\<close>. Each row
  comes with the id \<open>uuid.NewV7\<close> draws for it. Go ranges over the map of live variants in an order of its own
  choosing: \<open>pick\<close> is the order the archiving loop took.\<close>

record matrix_row =
  mx_options :: "string list"
  mx_fields :: variant_fields

record row_result =
  rr_options :: "string list"
  rr_status :: string
  rr_variant :: "uuid option"
  rr_code :: string
  rr_detail :: string

record matrix_result =
  mr_product_version :: int
  mr_created :: nat
  mr_updated :: nat
  mr_restored :: nat
  mr_unchanged :: nat
  mr_archived :: nat
  mr_failed :: nat
  mr_archived_ids :: "uuid list"
  mr_results :: "row_result list"

definition S_created :: string where "S_created = ''created''"
definition S_updated :: string where "S_updated = ''updated''"
definition S_restored :: string where "S_restored = ''restored''"
definition S_unchanged :: string where "S_unchanged = ''unchanged''"
definition S_error :: string where "S_error = ''error''"

lemma S_row_neq [simp]:
  "S_created \<noteq> S_updated" "S_created \<noteq> S_restored" "S_created \<noteq> S_unchanged" "S_created \<noteq> S_error"
  "S_updated \<noteq> S_created" "S_updated \<noteq> S_restored" "S_updated \<noteq> S_unchanged" "S_updated \<noteq> S_error"
  "S_restored \<noteq> S_created" "S_restored \<noteq> S_updated" "S_restored \<noteq> S_unchanged" "S_restored \<noteq> S_error"
  "S_unchanged \<noteq> S_created" "S_unchanged \<noteq> S_updated" "S_unchanged \<noteq> S_restored" "S_unchanged \<noteq> S_error"
  "S_error \<noteq> S_created" "S_error \<noteq> S_updated" "S_error \<noteq> S_restored" "S_error \<noteq> S_unchanged"
  by (simp_all add: S_created_def S_updated_def S_restored_def S_unchanged_def S_error_def)

section \<open>The grid\<close>

definition grid_key :: "string list \<Rightarrow> string" where
  "grid_key vs = join [CHR 0x1F] vs"

definition is_colour :: "(string \<Rightarrow> string) \<Rightarrow> string \<Rightarrow> bool" where
  "is_colour lower n = (lower (trim_space n) \<in> {''colour'', ''color'', ''warna''})"

text \<open>\<open>seen\<close> holds the lower-cased names before position \<open>i\<close>, \<open>keys\<close> the combinations before row \<open>i\<close>.\<close>

fun check_names :: "(string \<Rightarrow> string) \<Rightarrow> nat \<Rightarrow> string list \<Rightarrow> string list \<Rightarrow> err option" where
  "check_names lower i seen [] = None"
| "check_names lower i seen (n # ns) = (let n' = trim_space n in
     if n' = [] then Some (field_error ''option_names'' ''option names cannot be blank'')
     else if lower n' \<in> set seen then Some (field_error ''option_names'' ''option names must be distinct'')
     else if 0 < i \<and> is_colour lower n' then Some (field_error ''option_names'' ''Colour must be the first option (BR-040)'')
     else check_names lower (Suc i) (lower n' # seen) ns)"

definition go_list :: "string list \<Rightarrow> string" where
  "go_list vs = ''['' @ join '' '' vs @ '']''"

fun check_rows :: "nat \<Rightarrow> nat \<Rightarrow> string list \<Rightarrow> string list list \<Rightarrow> err option" where
  "check_rows k i keys [] = None"
| "check_rows k i keys (vs # rows) =
    (if length vs \<noteq> k
     then Some (field_error ''rows'' (''row '' @ itoa (int i) @ '' has '' @ itoa (int (length vs)) @ '' option values for '' @ itoa (int k) @ '' option names''))
     else if grid_key vs \<in> set keys
     then Some (field_error ''rows'' (''row '' @ itoa (int i) @ '' repeats option values '' @ go_list vs))
     else check_rows k (Suc i) (grid_key vs # keys) rows)"

definition check_grid :: "(string \<Rightarrow> string) \<Rightarrow> string list \<Rightarrow> matrix_row list \<Rightarrow> err option" where
  "check_grid lower names rows =
    (case check_names lower 0 [] names of
      Some e \<Rightarrow> Some e
    | None \<Rightarrow> check_rows (length names) 0 [] (map mx_options rows))"

text \<open>\<open>changes\<close>: whether the fields would alter the variant.\<close>

definition sent_change :: "'a option \<Rightarrow> bool \<Rightarrow> 'a option \<Rightarrow> bool" where
  "sent_change sent clear old \<longleftrightarrow> clear \<and> old \<noteq> None \<or> sent \<noteq> None \<and> sent \<noteq> old"

definition changes :: "variant \<Rightarrow> variant_fields \<Rightarrow> bool" where
  "changes v f \<longleftrightarrow> sent_change (vf_sku f) (vf_clear_sku f) (va_sku v) \<or>
     sent_change (vf_barcode f) (vf_clear_barcode f) (va_barcode v) \<or>
     sent_change (vf_regular_price f) False (Some (va_regular_price v)) \<or>
     sent_change (vf_sale_price f) (vf_clear_sale_price f) (va_sale_price v) \<or>
     sent_change (vf_sale_starts_at f) (vf_clear_sale_starts f) (va_sale_starts_at v) \<or>
     sent_change (vf_sale_ends_at f) (vf_clear_sale f) (va_sale_ends_at v) \<or>
     sent_change (vf_weight_grams f) False (Some (va_weight_grams v))"

text \<open>
  The two maps from a combination to a variant: a later live variant overwrites an earlier one, of the archived
  ones the oldest stays.\<close>

definition live_at :: "variant list \<Rightarrow> string \<Rightarrow> variant option" where
  "live_at vs k = find (\<lambda>v. va_archived_at v = None \<and> grid_key (va_option_values v) = k) (rev vs)"

definition archived_at :: "variant list \<Rightarrow> string \<Rightarrow> variant option" where
  "archived_at vs k = find (\<lambda>v. va_archived_at v \<noteq> None \<and> grid_key (va_option_values v) = k) vs"

section \<open>One row\<close>

definition row_done :: "string list \<Rightarrow> string \<Rightarrow> uuid \<Rightarrow> row_result" where
  "row_done vs st i = \<lparr>rr_options = vs, rr_status = st, rr_variant = Some i, rr_code = [], rr_detail = []\<rparr>"

definition row_failed :: "string list \<Rightarrow> err \<Rightarrow> row_result" where
  "row_failed vs e = (let a = from_err (variant_write_error e) in
     \<lparr>rr_options = vs, rr_status = S_error, rr_variant = None, rr_code = e_code a, rr_detail = e_detail a\<rparr>)"

definition save_fields :: "ctx \<Rightarrow> variant \<Rightarrow> variant_fields \<Rightarrow> unit stmt" where
  "save_fields c v f = thenT (check_sku c (vf_sku f) (va_id v))
     (thenT (update_variant c (update_params (va_id v) (va_version v) f)) (retT ()))"

definition apply_row :: "ctx \<Rightarrow> uuid \<Rightarrow> uuid \<Rightarrow> matrix_row \<Rightarrow> variant option \<Rightarrow> variant option \<Rightarrow> row_result stmt" where
  "apply_row c pid fresh row live arch =
    (let vs = mx_options row; f = mx_fields row in
     case live of
       Some v \<Rightarrow>
         if \<not> changes v f then retT (row_done vs S_unchanged (va_id v))
         else thenT (save_fields c v f) (retT (row_done vs S_updated (va_id v)))
     | None \<Rightarrow> (case arch of
         Some a \<Rightarrow> thenT (restore_variant c (va_id a))
           (thenT (save_fields c (a\<lparr>va_version := va_version a + 1\<rparr>) f) (retT (row_done vs S_restored (va_id a))))
       | None \<Rightarrow> thenT (check_sku c (vf_sku f) nil_uuid)
           (bindT (create_variant c (create_params fresh pid vs f)) (\<lambda>i. retT (row_done vs S_created i)))))"

definition matrix_row_tx :: "ctx \<Rightarrow> uuid \<Rightarrow> uuid \<Rightarrow> matrix_row \<Rightarrow> variant option \<Rightarrow> variant option \<Rightarrow> row_result stmt" where
  "matrix_row_tx c pid fresh row live arch =
    bindT (tryT (apply_row c pid fresh row live arch)) (\<lambda>r.
      case r of Inl e \<Rightarrow> retT (row_failed (mx_options row) e) | Inr x \<Rightarrow> retT x)"

section \<open>The save\<close>

definition counted :: "string \<Rightarrow> row_result list \<Rightarrow> nat" where
  "counted st rs = length (filter (\<lambda>r. rr_status r = st) rs)"

text \<open>The variants the archiving loop takes: what the map of live variants holds under a combination not sent.\<close>

definition missing :: "variant list \<Rightarrow> matrix_row list \<Rightarrow> variant list" where
  "missing vs rows = filter (\<lambda>v. va_archived_at v = None \<and> live_at vs (grid_key (va_option_values v)) = Some v \<and>
     grid_key (va_option_values v) \<notin> set (map (grid_key \<circ> mx_options) rows)) vs"

definition matrix_entry :: "product \<Rightarrow> string list \<Rightarrow> matrix_result \<Rightarrow> audit_entry" where
  "matrix_entry p names out = \<lparr>ae_action = ''product.variant_matrix'', ae_subject_type = ''product'', ae_subject_id = DId (pr_id p),
     ae_before = Some (DObj [(''option_names'', DList (map DStr (pr_option_names p))), (''version'', DInt (pr_version p))]),
     ae_after = Some (DObj [(''option_names'', DList (map DStr names)), (''version'', DInt (mr_product_version out)),
       (''created'', DInt (int (mr_created out))), (''updated'', DInt (int (mr_updated out))),
       (''restored'', DInt (int (mr_restored out))), (''archived'', DInt (int (mr_archived out))), (''failed'', DInt (int (mr_failed out)))])\<rparr>"

definition save_matrix_tx ::
  "(variant list \<Rightarrow> variant list) \<Rightarrow> ctx \<Rightarrow> uuid \<Rightarrow> int \<Rightarrow> string list \<Rightarrow> (uuid \<times> matrix_row) list \<Rightarrow> bool \<Rightarrow> matrix_result stmt" where
  "save_matrix_tx pick c pid version names rows archive_missing =
    bindT (mapErrT (no_such ''product'') (lock_product c pid)) (\<lambda>p.
    if pr_archived_at p \<noteq> None then failT (field_error ''product_id'' ''the product is archived'')
    else if pr_version p \<noteq> version then failT (version_conflict (pr_version p) version)
    else
    bindT (all_variants c pid) (\<lambda>views.
    let existing = map vv_row views in
    if pr_option_names p \<noteq> names \<and> \<not> archive_missing \<and> list_ex (\<lambda>v. va_archived_at v = None) existing
    then failT (field_error ''archive_missing'' ''changing option_names needs archive_missing: true'')
    else
    bindT (bump_product c pid names) (\<lambda>version'.
    bindT (eachT (\<lambda>(fresh, row). matrix_row_tx c pid fresh row
        (live_at existing (grid_key (mx_options row))) (archived_at existing (grid_key (mx_options row)))) rows) (\<lambda>results.
    bindT (if archive_missing then eachT (\<lambda>v. archive_variant c (va_id v)) (pick (missing existing (map snd rows))) else retT []) (\<lambda>gone.
    let out = \<lparr>mr_product_version = version', mr_created = counted S_created results, mr_updated = counted S_updated results,
        mr_restored = counted S_restored results, mr_unchanged = counted S_unchanged results, mr_archived = length gone,
        mr_failed = counted S_error results, mr_archived_ids = gone, mr_results = results\<rparr> in
    thenT (audit c (matrix_entry p names out)) (retT out))))))"

definition save_matrix ::
  "(string \<Rightarrow> string) \<Rightarrow> (variant list \<Rightarrow> variant list) \<Rightarrow> ctx \<Rightarrow> uuid \<Rightarrow> int \<Rightarrow> string list \<Rightarrow> (uuid \<times> matrix_row) list \<Rightarrow> bool
     \<Rightarrow> db \<Rightarrow> (err + matrix_result) \<times> db" where
  "save_matrix lower pick c pid version names rows archive_missing s =
    (case check_grid lower names (map snd rows) of
      Some e \<Rightarrow> (Inl e, s)
    | None \<Rightarrow> in_tenant_tx c (save_matrix_tx pick c pid version names rows archive_missing) s)"

end
