(* ===== verification/Bulk.thy ===== *)
theory Bulk
  imports Matrix
begin

text \<open>
  The bulk upsert (internal/catalog/bulk.go; BR-043). Each item comes with the two ids \<open>uuid.NewV7\<close> draws for a
  product and its variant. A row that fails rolls back to its own savepoint.\<close>

definition max_bulk :: nat where
  "max_bulk = 500"

record bulk_item =
  bi_sku :: "string option"
  bi_title :: "string option"
  bi_status :: "string option"
  bi_fields :: variant_fields

record bulk_row_result =
  bw_index :: nat
  bw_sku :: "string option"
  bw_status :: string
  bw_variant :: "uuid option"
  bw_code :: string
  bw_detail :: string

record bulk_result =
  bs_created :: nat
  bs_updated :: nat
  bs_failed :: nat
  bs_results :: "bulk_row_result list"

text \<open>\<open>bulkStatus\<close>: the status of a row goes to its product; active runs the publish check.\<close>

definition bulk_status :: "ctx \<Rightarrow> uuid \<Rightarrow> string option \<Rightarrow> unit stmt" where
  "bulk_status c pid status =
    (case status of None \<Rightarrow> retT ()
     | Some st \<Rightarrow>
        if st \<noteq> S_draft \<and> st \<noteq> S_active then failT (field_error ''status'' ''status is draft or active'')
        else thenT (set_product_status c pid st) (if st = S_active then publish_check c pid else retT ()))"

definition existing_sku :: "ctx \<Rightarrow> string option \<Rightarrow> variant option stmt" where
  "existing_sku c sku =
    (case sku of None \<Rightarrow> retT None
     | Some k \<Rightarrow> bindT (tryT (variant_by_sku c k)) (\<lambda>r. case r of
         Inr v \<Rightarrow> retT (Some (vv_row v))
       | Inl e \<Rightarrow> if err_is e NoRows then retT None else failT e))"

definition holder_title :: "ctx \<Rightarrow> string option \<Rightarrow> string stmt" where
  "holder_title c sku = readT (\<lambda>s. case sku of None \<Rightarrow> [] | Some k \<Rightarrow> (case sku_holder_row c k s of None \<Rightarrow> [] | Some (_, t) \<Rightarrow> t))"

text \<open>\<open>createProduct\<close> half of \<open>bulkApply\<close>: a title is needed, the product starts as a draft without options.\<close>

definition bulk_create :: "pg_text \<Rightarrow> ctx \<Rightarrow> uuid \<Rightarrow> uuid \<Rightarrow> bulk_item \<Rightarrow> (string \<times> uuid) stmt" where
  "bulk_create pg c pid vid item =
    (case bi_title item of
      None \<Rightarrow> failT (field_error ''title'' ''title is required to create a product'')
    | Some title \<Rightarrow>
        if blank title then failT (field_error ''title'' ''title is required to create a product'')
        else bindT (free_slug pg c title) (\<lambda>slug.
          bindT (create_product c \<lparr>cp_id = pid, cp_title = trim_space title, cp_slug = slug, cp_description = None, cp_brand = None,
            cp_attributes = ''{}''\<rparr>) (\<lambda>p.
          bindT (mapErrT variant_write_error (create_variant c (create_params vid (pr_id p) [] ((bi_fields item)\<lparr>vf_sku := bi_sku item\<rparr>)))) (\<lambda>i.
          thenT (bulk_status c (pr_id p) (bi_status item)) (retT (S_created, i))))))"

definition bulk_apply :: "pg_text \<Rightarrow> ctx \<Rightarrow> bool \<Rightarrow> uuid \<Rightarrow> uuid \<Rightarrow> bulk_item \<Rightarrow> (string \<times> uuid) stmt" where
  "bulk_apply pg c refuse pid vid item =
    (if (case bi_sku item of None \<Rightarrow> False | Some k \<Rightarrow> blank k) then failT (field_error ''sku'' ''sku cannot be blank'')
     else bindT (existing_sku c (bi_sku item)) (\<lambda>found. case found of
        Some v \<Rightarrow>
          if refuse then bindT (holder_title c (bi_sku item)) (\<lambda>t. failT (duplicate_sku (deref (bi_sku item)) t))
          else if va_archived_at v \<noteq> None then failT (field_error ''sku'' ''this SKU belongs to an archived variant'')
          else thenT (mapErrT variant_write_error (update_variant c (update_params (va_id v) (va_version v) (bi_fields item))))
            (thenT (bulk_status c (va_product v) (bi_status item)) (retT (S_updated, va_id v)))
      | None \<Rightarrow> bulk_create pg c pid vid item))"

definition bulk_error :: "nat \<Rightarrow> string option \<Rightarrow> err \<Rightarrow> bulk_row_result" where
  "bulk_error i sku e = (let a = from_err e in \<lparr>bw_index = i, bw_sku = sku, bw_status = S_error, bw_variant = None, bw_code = e_code a, bw_detail = e_detail a\<rparr>)"

definition bulk_row :: "pg_text \<Rightarrow> ctx \<Rightarrow> bool \<Rightarrow> nat \<Rightarrow> uuid \<times> uuid \<times> bulk_item \<Rightarrow> bulk_row_result stmt" where
  "bulk_row pg c refuse i x = (case x of (pid, vid, item) \<Rightarrow>
    bindT (tryT (bulk_apply pg c refuse pid vid item)) (\<lambda>r. case r of
      Inl e \<Rightarrow> retT (bulk_error i (bi_sku item) e)
    | Inr (st, v) \<Rightarrow> retT \<lparr>bw_index = i, bw_sku = bi_sku item, bw_status = st, bw_variant = Some v, bw_code = [], bw_detail = []\<rparr>))"

definition bulk_counted :: "string \<Rightarrow> bulk_row_result list \<Rightarrow> nat" where
  "bulk_counted st rs = length (filter (\<lambda>r. bw_status r = st) rs)"

definition bulk_entry :: "bulk_result \<Rightarrow> audit_entry" where
  "bulk_entry out = \<lparr>ae_action = ''product.bulk'', ae_subject_type = ''products'', ae_subject_id = DStr ''bulk'', ae_before = None,
     ae_after = Some (DObj [(''created'', DInt (int (bs_created out))), (''updated'', DInt (int (bs_updated out))), (''failed'', DInt (int (bs_failed out)))])\<rparr>"

definition bulk_tx :: "pg_text \<Rightarrow> ctx \<Rightarrow> string \<Rightarrow> (uuid \<times> uuid \<times> bulk_item) list \<Rightarrow> bulk_result stmt" where
  "bulk_tx pg c on_conflict items =
    bindT (eachT (\<lambda>(i, x). bulk_row pg c (on_conflict = ''error'') i x) (enumerate 0 items)) (\<lambda>results.
    let out = \<lparr>bs_created = bulk_counted S_created results, bs_updated = bulk_counted S_updated results,
        bs_failed = bulk_counted S_error results, bs_results = results\<rparr> in
    thenT (audit c (bulk_entry out)) (retT out))"

definition bulk :: "pg_text \<Rightarrow> ctx \<Rightarrow> string \<Rightarrow> (uuid \<times> uuid \<times> bulk_item) list \<Rightarrow> db \<Rightarrow> (err + bulk_result) \<times> db" where
  "bulk pg c on_conflict items = in_tenant_tx c (bulk_tx pg c on_conflict items)"

end
