(* ===== verification/Uuids.thy ===== *)
theory Uuids
  imports GoStrings
begin

text \<open>
  UUIDs as text, which the object keys carry: \<open>uuid.UUID.String\<close> and \<open>uuid.Parse\<close> on 36 bytes.\<close>

definition hex_digit :: "nat \<Rightarrow> char" where
  "hex_digit d = (if d < 10 then char_of (48 + d) else char_of (87 + d))"

definition hex_val :: "char \<Rightarrow> nat option" where
  "hex_val ch = (let n = (of_char ch :: nat) in
     if 48 \<le> n \<and> n \<le> 57 then Some (n - 48) else if 97 \<le> n \<and> n \<le> 102 then Some (n - 87)
     else if 65 \<le> n \<and> n \<le> 70 then Some (n - 55) else None)"

fun hex_text :: "nat \<Rightarrow> nat \<Rightarrow> string" where
  "hex_text 0 n = []"
| "hex_text (Suc k) n = hex_text k (n div 16) @ [hex_digit (n mod 16)]"

fun hex_number :: "nat \<Rightarrow> string \<Rightarrow> nat option" where
  "hex_number acc [] = Some acc"
| "hex_number acc (ch # s) = (case hex_val ch of None \<Rightarrow> None | Some d \<Rightarrow> hex_number (16 * acc + d) s)"

definition uuid_string :: "uuid \<Rightarrow> string" where
  "uuid_string u = (let h = hex_text 32 u in
     take 8 h @ ''-'' @ take 4 (drop 8 h) @ ''-'' @ take 4 (drop 12 h) @ ''-'' @ take 4 (drop 16 h) @ ''-'' @ drop 20 h)"

definition parse_uuid :: "string \<Rightarrow> uuid option" where
  "parse_uuid s =
    (if length s = 36 \<and> s ! 8 = CHR ''-'' \<and> s ! 13 = CHR ''-'' \<and> s ! 18 = CHR ''-'' \<and> s ! 23 = CHR ''-''
     then hex_number 0 (take 8 s @ take 4 (drop 9 s) @ take 4 (drop 14 s) @ take 4 (drop 19 s) @ drop 24 s) else None)"

lemma hex_val_digit: "d < 16 \<Longrightarrow> hex_val (hex_digit d) = Some d"
  by (auto simp: hex_val_def hex_digit_def Let_def)

lemma hex_text_length [simp]: "length (hex_text k n) = k"
  by (induction k arbitrary: n) auto

lemma hex_number_append: "hex_number acc (s @ [ch]) =
    (case hex_number acc s of None \<Rightarrow> None | Some m \<Rightarrow> map_option (\<lambda>d. 16 * m + d) (hex_val ch))"
  by (induction s arbitrary: acc) (auto split: option.splits)

lemma hex_number_text: "hex_number 0 (hex_text k n) = Some (n mod 16 ^ k)"
proof (induction k arbitrary: n)
  case (Suc k)
  have "16 * (n div 16 mod 16 ^ k) + n mod 16 = n mod (16 * 16 ^ k)"
    by (simp add: mod_mult2_eq)
  then show ?case
    by (simp add: hex_number_append Suc.IH hex_val_digit)
qed simp

text \<open>A UUID survives being printed and read.\<close>

lemma parse_uuid_string: "u < 2 ^ 128 \<Longrightarrow> parse_uuid (uuid_string u) = Some u"
proof -
  assume u: "u < 2 ^ 128"
  define h where "h = hex_text 32 u"
  have len: "length h = 32" by (simp add: h_def)
  have "take 8 h @ take 4 (drop 8 h) @ take 4 (drop 12 h) @ take 4 (drop 16 h) @ drop 20 h = h"
    using append_take_drop_id [of 8 h] append_take_drop_id [of 4 "drop 8 h"] append_take_drop_id [of 4 "drop 12 h"]
      append_take_drop_id [of 4 "drop 16 h"] by simp
  moreover have "hex_number 0 h = Some u" unfolding h_def hex_number_text using u by simp
  ultimately show ?thesis
    unfolding parse_uuid_def uuid_string_def Let_def h_def [symmetric]
    by (simp add: len nth_append)
qed

end
