(* ===== verification/MediaOps.thy ===== *)
theory MediaOps
  imports Products Jobs Uuids
begin

text \<open>
  Product images (internal/catalog/media.go; BR-050 to BR-053) and the object store as the catalog uses it: what it
  answers to a HEAD, a signature and a public address. An upload never passes through the API.\<close>

record object_store =
  os_head :: "string \<Rightarrow> err + string \<times> int"
  os_sign :: "string \<Rightarrow> int \<Rightarrow> err + string"
  os_files :: files

definition not_found_object :: err where
  "not_found_object = Sentinel ''object not found''"

definition max_image_bytes :: int where
  "max_image_bytes = 20 * 2 ^ 20"

definition max_import_bytes :: int where
  "max_import_bytes = 50 * 2 ^ 20"

definition presign_ttl :: int where
  "presign_ttl = minutes 10"

definition image_ext :: "string \<Rightarrow> string option" where
  "image_ext mime = map_of [(''image/jpeg'', ''jpg''), (''image/png'', ''png''), (''image/webp'', ''webp'')] mime"

definition import_types :: "string list" where
  "import_types = [''text/csv'', ''application/csv'', ''text/plain'', ''application/vnd.ms-excel'']"

record presigned =
  pn_url :: string
  pn_key :: string
  pn_expires_in :: int

definition presign :: "object_store \<Rightarrow> string \<Rightarrow> err + presigned" where
  "presign st key = (case os_sign st key presign_ttl of
     Inl e \<Rightarrow> Inl e | Inr u \<Rightarrow> Inr \<lparr>pn_url = u, pn_key = key, pn_expires_in = presign_ttl div seconds 1\<rparr>)"

section \<open>Checks\<close>

definition live_product :: "ctx \<Rightarrow> uuid \<Rightarrow> unit stmt" where
  "live_product c pid =
    bindT (mapErrT (\<lambda>e. if err_is e NoRows then field_error ''product_id'' ''no such live product'' else e) (get_product c pid)) (\<lambda>p.
    if pr_archived_at p \<noteq> None then failT (field_error ''product_id'' ''no such live product'') else retT ())"

definition variant_of :: "ctx \<Rightarrow> uuid \<Rightarrow> uuid option \<Rightarrow> unit stmt" where
  "variant_of c pid v =
    (case v of None \<Rightarrow> retT ()
     | Some i \<Rightarrow> bindT (live_variant_of_product c i pid) (\<lambda>ok.
         if ok then retT () else failT (field_error ''variant_id'' ''the variant is not a live variant of this product'')))"

definition media_folder :: "ctx \<Rightarrow> uuid \<Rightarrow> string" where
  "media_folder c pid = uuid_string (tenant_of c) @ ''/products/'' @ uuid_string pid @ ''/''"

section \<open>The operations\<close>

definition presign_image :: "object_store \<Rightarrow> ctx \<Rightarrow> uuid \<Rightarrow> string \<Rightarrow> int \<Rightarrow> string \<Rightarrow> db \<Rightarrow> (err + presigned) \<times> db" where
  "presign_image st c pid mime bytes sha s =
    (case image_ext mime of
      None \<Rightarrow> (Inl (field_error ''mime_type'' ''images are image/jpeg, image/png or image/webp''), s)
    | Some ext \<Rightarrow>
        if bytes > max_image_bytes then (Inl (field_error ''bytes'' ''an image is at most 20 MB''), s)
        else (case in_tenant_tx c (live_product c pid) s of
          (Inl e, s') \<Rightarrow> (Inl e, s')
        | (Inr _, s') \<Rightarrow> (presign st (media_folder c pid @ sha @ ''.'' @ ext), s')))"

text \<open>\<open>fresh\<close> is the id drawn for the import job.\<close>

definition presign_import :: "object_store \<Rightarrow> ctx \<Rightarrow> uuid \<Rightarrow> string \<Rightarrow> int \<Rightarrow> err + presigned" where
  "presign_import st c fresh mime bytes =
    (if mime \<notin> set import_types then Inl (field_error ''mime_type'' ''an import is a CSV file'')
     else if bytes > max_import_bytes then Inl (field_error ''bytes'' ''an import is at most 50 MB'')
     else presign st (''jobs/'' @ uuid_string (tenant_of c) @ ''/'' @ uuid_string fresh @ ''/upload.csv''))"

definition media_entry :: "string \<Rightarrow> uuid \<Rightarrow> dyn option \<Rightarrow> dyn option \<Rightarrow> audit_entry" where
  "media_entry action i b a = \<lparr>ae_action = action, ae_subject_type = ''media'', ae_subject_id = DId i, ae_before = b, ae_after = a\<rparr>"

definition opt_id :: "uuid option \<Rightarrow> dyn" where
  "opt_id v = (case v of None \<Rightarrow> DNull | Some i \<Rightarrow> DId i)"

text \<open>The transaction of \<open>ConfirmMedia\<close>: an image confirmed before is answered as it is, without a job.\<close>

definition confirm_media_tx :: "ctx \<Rightarrow> uuid \<Rightarrow> uuid \<Rightarrow> uuid \<Rightarrow> string \<Rightarrow> uuid option \<Rightarrow> string \<Rightarrow> int \<Rightarrow> (product_medium \<times> job option) stmt" where
  "confirm_media_tx c fresh job_id pid key v mime n =
    thenT (live_product c pid)
    (thenT (variant_of c pid v)
    (bindT (tryT (create_media c \<lparr>cm_id = fresh, cm_product = pid, cm_variant = v, cm_key = key, cm_mime = mime, cm_bytes = n\<rparr>)) (\<lambda>r.
     case r of
       Inl e \<Rightarrow> if err_is e NoRows then bindT (get_media_by_key c pid key) (\<lambda>m. retT (m, None)) else failT e
     | Inr m \<Rightarrow>
         bindT (create_job c job_id ''image_derivatives'' (DObj [(''media_id'', DStr (uuid_string (md_id m)))]) (actor_of c)) (\<lambda>j.
         thenT (audit c (media_entry ''media.create'' (md_id m) None
            (Some (DObj [(''product_id'', DId pid), (''variant_id'', opt_id v), (''r2_key'', DStr key)]))))
          (retT (m, Some j))))))"

definition confirm_media :: "object_store \<Rightarrow> ctx \<Rightarrow> uuid \<Rightarrow> uuid \<Rightarrow> uuid \<Rightarrow> string \<Rightarrow> uuid option \<Rightarrow> db
    \<Rightarrow> (err + medium_view \<times> job option) \<times> db" where
  "confirm_media st c fresh job_id pid key v s =
    (if \<not> prefix (media_folder c pid) key then (Inl (field_error ''r2_key'' ''the key is not an upload for this product''), s)
     else (case os_head st key of
       Inl e \<Rightarrow> (Inl (if err_is e not_found_object then field_error ''r2_key'' ''nothing was uploaded under this key'' else e), s)
     | Inr (mime, n) \<Rightarrow>
         if image_ext mime = None then (Inl (field_error ''r2_key'' (''the uploaded object is '' @ mime @ '', not an image'')), s)
         else if n > max_image_bytes then (Inl (field_error ''r2_key'' ''the uploaded image is over 20 MB''), s)
         else (case in_tenant_tx c (confirm_media_tx c fresh job_id pid key v mime n) s of
           (Inl e, s') \<Rightarrow> (Inl e, s')
         | (Inr (m, j), s') \<Rightarrow> (Inr (medium_view_of (os_files st) m, j), s'))))"

definition attach_media_tx :: "ctx \<Rightarrow> uuid \<Rightarrow> uuid option \<Rightarrow> product_medium stmt" where
  "attach_media_tx c i v =
    bindT (mapErrT (no_such ''image'') (get_media c i)) (\<lambda>before.
    thenT (variant_of c (md_product before) v)
    (bindT (set_media_variant c i v) (\<lambda>m.
     thenT (audit c (media_entry ''media.update'' i (Some (DObj [(''variant_id'', opt_id (md_variant before))]))
        (Some (DObj [(''variant_id'', opt_id v)])))) (retT m))))"

definition attach_media :: "object_store \<Rightarrow> ctx \<Rightarrow> uuid \<Rightarrow> uuid option \<Rightarrow> db \<Rightarrow> (err + medium_view) \<times> db" where
  "attach_media st c i v s = (case in_tenant_tx c (attach_media_tx c i v) s of
     (Inl e, s') \<Rightarrow> (Inl e, s') | (Inr m, s') \<Rightarrow> (Inr (medium_view_of (os_files st) m), s'))"

definition delete_media_tx :: "ctx \<Rightarrow> uuid \<Rightarrow> (product_medium \<times> bool) stmt" where
  "delete_media_tx c i =
    bindT (mapErrT (no_such ''image'') (delete_media c i)) (\<lambda>gone.
    bindT (media_key_in_use c (md_key gone)) (\<lambda>used.
    thenT (audit c (media_entry ''media.delete'' i (Some (DObj [(''product_id'', DId (md_product gone)), (''r2_key'', DStr (md_key gone))])) None))
     (retT (gone, used))))"

text \<open>The objects deleted after the commit: none while another row uses the key.\<close>

definition delete_media_op :: "object_store \<Rightarrow> ctx \<Rightarrow> uuid \<Rightarrow> db \<Rightarrow> (err + string list) \<times> db" where
  "delete_media_op st c i s = (case in_tenant_tx c (delete_media_tx c i) s of
     (Inl e, s') \<Rightarrow> (Inl e, s')
   | (Inr (gone, used), s') \<Rightarrow>
       (Inr (if used then [] else md_key gone # map snd (fl_keys (os_files st) (md_derivatives gone))), s'))"

fun set_positions :: "ctx \<Rightarrow> int \<Rightarrow> uuid list \<Rightarrow> unit stmt" where
  "set_positions c k [] = retT ()"
| "set_positions c k (i # is) = thenT (set_media_position c i (wrap32 k)) (set_positions c (k + 1) is)"

definition order_media_tx :: "object_store \<Rightarrow> ctx \<Rightarrow> uuid \<Rightarrow> uuid list \<Rightarrow> medium_view list stmt" where
  "order_media_tx st c pid ids =
    thenT (mapErrT (no_such ''product'') (get_product c pid))
    (bindT (list_product_media c pid) (\<lambda>current.
     let have = map md_id current in
     if sort have \<noteq> sort ids then failT (field_error ''media_ids'' ''media_ids must list every image of the product exactly once'')
     else thenT (set_positions c 0 ids)
       (bindT (product_media (os_files st) c pid) (\<lambda>out.
        thenT (audit c \<lparr>ae_action = ''product.media_order'', ae_subject_type = ''product'', ae_subject_id = DId pid,
           ae_before = Some (DObj [(''media_ids'', DList (map DId have))]), ae_after = Some (DObj [(''media_ids'', DList (map DId ids))])\<rparr>)
         (retT out)))))"

definition order_media :: "object_store \<Rightarrow> ctx \<Rightarrow> uuid \<Rightarrow> uuid list \<Rightarrow> db \<Rightarrow> (err + medium_view list) \<times> db" where
  "order_media st c pid ids = in_tenant_tx c (order_media_tx st c pid ids)"

end
