(* ===== verification/Csv.thy ===== *)
theory Csv
  imports Runes
begin

text \<open>
  Import files (internal/catalog/csv.go; BR-044, BR-064): the delimiter, the rows with their line numbers, amounts
  and weights. The first half is what \<open>encoding/csv\<close> does with lazy quotes and records of any length.\<close>

section \<open>Records\<close>

definition nl :: char where "nl = CHR 0x0A"
definition cr :: char where "cr = CHR 0x0D"
definition quote_mark :: char where "quote_mark = CHR 0x22"

text \<open>Line ends are normalised, and a carriage return at the very end is dropped.\<close>

fun crlf :: "string \<Rightarrow> string" where
  "crlf [] = []"
| "crlf [ch] = (if ch = cr then [] else [ch])"
| "crlf (ch # d # s) = (if ch = cr \<and> d = nl then nl # crlf s else ch # crlf (d # s))"

datatype ending = Next_Field | End_Record

fun plain_cell :: "char \<Rightarrow> string \<Rightarrow> string \<times> ending \<times> string" where
  "plain_cell comma [] = ([], End_Record, [])"
| "plain_cell comma (ch # s) =
    (if ch = comma then ([], Next_Field, s) else if ch = nl then ([], End_Record, s)
     else (case plain_cell comma s of (f, e, r) \<Rightarrow> (ch # f, e, r)))"

text \<open>After the opening quote: a doubled quote is one quote, a quote before the delimiter or the end of the line closes
  the cell, any other quote is kept.\<close>

fun quoted_cell :: "char \<Rightarrow> string \<Rightarrow> string \<times> ending \<times> string" where
  "quoted_cell comma [] = ([], End_Record, [])"
| "quoted_cell comma [ch] = (if ch = quote_mark then ([], End_Record, []) else ([ch], End_Record, []))"
| "quoted_cell comma (ch # d # s) =
    (if ch \<noteq> quote_mark then (case quoted_cell comma (d # s) of (f, e, r) \<Rightarrow> (ch # f, e, r))
     else if d = quote_mark then (case quoted_cell comma s of (f, e, r) \<Rightarrow> (quote_mark # f, e, r))
     else if d = comma then ([], Next_Field, s)
     else if d = nl then ([], End_Record, s)
     else (case quoted_cell comma (d # s) of (f, e, r) \<Rightarrow> (quote_mark # f, e, r)))"

definition cell :: "char \<Rightarrow> string \<Rightarrow> string \<times> ending \<times> string" where
  "cell comma s = (case s of ch # s' \<Rightarrow> if ch = quote_mark then quoted_cell comma s' else plain_cell comma s | [] \<Rightarrow> plain_cell comma s)"

lemma plain_cell_rest: "plain_cell comma s = (f, e, r) \<Longrightarrow> length r \<le> length s \<and> (s \<noteq> [] \<longrightarrow> length r < length s) \<and> (e = Next_Field \<longrightarrow> length r < length s)"
  by (induction comma s arbitrary: f e r rule: plain_cell.induct) (auto split: if_splits prod.splits)

lemma quoted_cell_rest: "quoted_cell comma s = (f, e, r) \<Longrightarrow> length r \<le> length s"
  by (induction comma s arbitrary: f e r rule: quoted_cell.induct) (fastforce split: if_splits prod.splits)+

lemma cell_rest: "cell comma s = (f, e, r) \<Longrightarrow> length r \<le> length s \<and> (s \<noteq> [] \<longrightarrow> length r < length s) \<and> (e = Next_Field \<longrightarrow> length r < length s)"
  using plain_cell_rest [of comma s f e r] quoted_cell_rest [of comma "tl s" f e r]
  by (cases s) (auto simp: cell_def simp del: plain_cell.simps split: if_splits)

function csv_record :: "char \<Rightarrow> string \<Rightarrow> string list \<times> string" where
  "csv_record comma s =
    (case cell comma s of (f, e, r) \<Rightarrow>
      (case e of End_Record \<Rightarrow> ([f], r) | Next_Field \<Rightarrow> (case csv_record comma r of (fs, r') \<Rightarrow> (f # fs, r'))))"
  by pat_completeness auto
termination
  by (relation "measure (\<lambda>(_, s). length s)") (auto dest: cell_rest [OF sym])

declare csv_record.simps [simp del]

lemma csv_record_rest: "csv_record comma s = (fs, r) \<Longrightarrow> length r \<le> length s \<and> (s \<noteq> [] \<longrightarrow> length r < length s)"
proof (induction comma s arbitrary: fs r rule: csv_record.induct)
  case (1 comma s)
  obtain f e r1 where c: "cell comma s = (f, e, r1)" by (cases "cell comma s")
  show ?case
  proof (cases e)
    case End_Record
    then show ?thesis using 1(2) c cell_rest [OF c] by (subst (asm) csv_record.simps) simp
  next
    case Next_Field
    obtain fs' r' where n: "csv_record comma r1 = (fs', r')" by (cases "csv_record comma r1")
    have "r' = r" using 1(2) c Next_Field n by (subst (asm) csv_record.simps) simp
    then show ?thesis using 1(1) [OF c [symmetric] refl Next_Field n] cell_rest [OF c] Next_Field by auto
  qed
qed

text \<open>All records with the line each starts on; empty lines are passed over.\<close>

definition line_ends :: "string \<Rightarrow> int" where
  "line_ends s = int (length (filter (\<lambda>ch. ch = nl) s))"

function csv_records :: "char \<Rightarrow> int \<Rightarrow> string \<Rightarrow> (int \<times> string list) list" where
  "csv_records comma line s =
    (case s of [] \<Rightarrow> []
     | ch # s' \<Rightarrow> if ch = nl then csv_records comma (line + 1) s'
         else (case csv_record comma s of (fs, r) \<Rightarrow>
           (line, fs) # csv_records comma (line + line_ends (take (length s - length r) s)) r))"
  by pat_completeness auto
termination
  by (relation "measure (\<lambda>(_, _, s). length s)") (auto dest!: csv_record_rest [OF sym])

declare csv_records.simps [simp del]

section \<open>The file\<close>

record import_row =
  ir_line :: int
  ir_raw :: "string list"
  ir_values :: "(string \<times> string) list"

definition bom :: string where
  "bom = map char_of [239::nat, 187, 191]"

definition delimiter :: "string \<Rightarrow> char" where
  "delimiter s = (let l = takeWhile (\<lambda>ch. ch \<noteq> nl) (take 4096 s) in
     if length (filter (\<lambda>ch. ch = CHR '';'') l) > length (filter (\<lambda>ch. ch = CHR '','') l) then CHR '';'' else CHR '','')"

text \<open>A later column mapped to the same target overwrites an earlier one; a value missing reads as empty.\<close>

definition row_values :: "string list \<Rightarrow> string list \<Rightarrow> (string \<times> string) list" where
  "row_values targets fs = rev (map (\<lambda>(t, v). (t, trim_space v)) (filter (\<lambda>(t, v). t \<noteq> []) (zip targets fs)))"

definition col :: "import_row \<Rightarrow> string \<Rightarrow> string" where
  "col r k = deref (map_of (ir_values r) k)"

definition column_targets :: "(string \<times> string) list \<Rightarrow> string list \<Rightarrow> string list" where
  "column_targets mapping header = map (\<lambda>h. deref (map_of mapping h)) header"

definition read_csv :: "string \<Rightarrow> (string \<times> string) list \<Rightarrow> err + string list \<times> import_row list" where
  "read_csv data mapping =
    (let body = (if prefix bom data then drop 3 data else data) in
     case csv_records (delimiter body) 1 (crlf body) of
       [] \<Rightarrow> Inl (Opaque ''the file is empty'')
     | (_, h) # rest \<Rightarrow>
         let header = map trim_space h; targets = column_targets mapping header in
         Inr (header, map (\<lambda>(n, fs). \<lparr>ir_line = n, ir_raw = fs, ir_values = row_values targets fs\<rparr>)
           (filter (\<lambda>(_, fs). \<not> list_all blank fs) rest)))"

section \<open>Amounts and weights\<close>

text \<open>\<open>strings.NewReplacer\<close> with every pattern replaced by nothing.\<close>

fun strip_any :: "string list \<Rightarrow> nat \<Rightarrow> string \<Rightarrow> string" where
  "strip_any ps k [] = []"
| "strip_any ps (Suc k) (ch # s) = strip_any ps k s"
| "strip_any ps 0 (ch # s) = (case find (\<lambda>p. prefix p (ch # s)) ps of
     None \<Rightarrow> ch # strip_any ps 0 s | Some p \<Rightarrow> strip_any ps (length p - 1) s)"

text \<open>\<open>strconv.ParseInt(s, 10, w)\<close>: a sign and digits, in range.\<close>

definition parse_int :: "nat \<Rightarrow> string \<Rightarrow> int option" where
  "parse_int w s =
    (let (sg, d) = (case s of [] \<Rightarrow> (1, []) | ch # r \<Rightarrow> if ch = CHR ''-'' then (- 1, r) else if ch = CHR ''+'' then (1, r) else (1, s));
         n = sg * int (decimal d) in
     if d = [] \<or> \<not> list_all is_digit d then None
     else if n < - (2 ^ (w - 1)) \<or> 2 ^ (w - 1) \<le> n then None else Some n)"

definition parse_rupiah :: "string \<Rightarrow> int option" where
  "parse_rupiah s = (case parse_int 64 (strip_any [''Rp'', ''rp'', ''IDR'', ''.'', '','', '' ''] 0 s) of
     None \<Rightarrow> None | Some n \<Rightarrow> if n < 0 then None else Some (wrap64 (n * 100)))"

definition parse_grams :: "string \<Rightarrow> int option" where
  "parse_grams s = (case parse_int 32 (strip_any [''.'', '','', '' '', ''g''] 0 s) of
     None \<Rightarrow> None | Some n \<Rightarrow> if n < 0 then None else Some n)"

end
