(* ===== verification/Import.thy ===== *)
theory Import
  imports Bulk MediaOps Csv
begin

text \<open>
  The CSV import (internal/catalog/import.go; BR-044): checking and queueing, then the worker's handler, which applies
  the rows in batches that commit with the job's checkpoint, so that a redelivered job goes on where the last
  committed batch ended. The file's text and the error report it stores are values; each row comes with the two ids
  drawn for it.\<close>

record import_lib =
  il_lower :: "string \<Rightarrow> string"
  il_quote :: "string \<Rightarrow> string"
  il_pg :: pg_text

section \<open>Starting\<close>

record import_params =
  im_key :: string
  im_mapping :: "(string \<times> string) list"
  im_on_conflict :: string

definition import_targets :: "string list" where
  "import_targets = [''title'', ''sku'', ''regular_price'', ''sale_price'', ''weight_grams'', ''barcode'']"

definition option_prefix :: string where
  "option_prefix = ''option:''"

text \<open>The mapping's entries in the order Go ranges over them; \<open>seen\<close> holds the lower-cased targets before.\<close>

fun check_entries :: "import_lib \<Rightarrow> string list \<Rightarrow> (string \<times> string) list \<Rightarrow> err option \<times> string list" where
  "check_entries L seen [] = (None, seen)"
| "check_entries L seen ((header, target) # es) =
    (let (name, is_option) = cut_prefix option_prefix target in
     if is_option \<and> blank name then (Some (field_error ''column_mapping'' (''column '' @ header @ '': an option needs a name, option:<Name>'')), seen)
     else if \<not> is_option \<and> target \<notin> set import_targets
     then (Some (field_error ''column_mapping'' (''column '' @ header @ '': '' @ target @ '' is not an import field'')), seen)
     else if il_lower L target \<in> set seen then (Some (field_error ''column_mapping'' (target @ '' is mapped twice'')), seen)
     else check_entries L (il_lower L target # seen) es)"

definition check_mapping :: "import_lib \<Rightarrow> (string \<times> string) list \<Rightarrow> err option" where
  "check_mapping L mapping = (case check_entries L [] mapping of
     (Some e, _) \<Rightarrow> Some e
   | (None, seen) \<Rightarrow> if ''title'' \<notin> set seen \<and> ''sku'' \<notin> set seen
       then Some (field_error ''column_mapping'' ''map a column to title or sku'') else None)"

definition key_char :: "char \<Rightarrow> bool" where
  "key_char ch \<longleftrightarrow> is_digit ch \<or> ch = CHR ''-'' \<or> 97 \<le> (of_char ch :: nat) \<and> (of_char ch :: nat) \<le> 102"

text \<open>\<open>importKey\<close>: \<open>jobs/<36>/<36>/upload.csv\<close>.\<close>

definition import_key :: "string \<Rightarrow> (string \<times> string) option" where
  "import_key k = (let a = take 36 (drop 5 k); b = take 36 (drop 42 k) in
     if k = ''jobs/'' @ a @ ''/'' @ b @ ''/upload.csv'' \<and> length a = 36 \<and> length b = 36 \<and> list_all key_char a \<and> list_all key_char b
     then Some (a, b) else None)"

definition params_dyn :: "import_params \<Rightarrow> dyn" where
  "params_dyn p = DObj [(''r2_key'', DStr (im_key p)), (''column_mapping'', DObj (map (\<lambda>(h, t). (h, DStr t)) (im_mapping p))),
     (''on_conflict'', DStr (im_on_conflict p))]"

definition start_import_tx :: "ctx \<Rightarrow> uuid \<Rightarrow> import_params \<Rightarrow> job stmt" where
  "start_import_tx c job_id p =
    bindT (mapErrT (\<lambda>e. if (case violation e of None \<Rightarrow> False | Some (k, _) \<Rightarrow> k = ''23505'')
             then field_error ''r2_key'' ''this upload has already been imported'' else e)
           (create_job c job_id ''product_import'' (params_dyn p) (actor_of c))) (\<lambda>j.
    thenT (audit c \<lparr>ae_action = ''product.import'', ae_subject_type = ''job'', ae_subject_id = DId job_id, ae_before = None,
       ae_after = Some (DObj [(''r2_key'', DStr (im_key p)), (''on_conflict'', DStr (im_on_conflict p))])\<rparr>) (retT j))"

text \<open>\<open>enqueue\<close> is what Redis answers to the message.\<close>

definition start_import :: "import_lib \<Rightarrow> object_store \<Rightarrow> err option \<Rightarrow> ctx \<Rightarrow> import_params \<Rightarrow> db \<Rightarrow> (err + uuid) \<times> db" where
  "start_import L st enqueue c p s =
    (let bad = (\<lambda>f d. (Inl (field_error f d), s)) in
     case import_key (im_key p) of
       None \<Rightarrow> bad ''r2_key'' ''not an import upload of this shop; presign with purpose product_import''
     | Some (shop, jid) \<Rightarrow>
        if shop \<noteq> uuid_string (tenant_of c) then bad ''r2_key'' ''not an import upload of this shop; presign with purpose product_import''
        else (case parse_uuid jid of
          None \<Rightarrow> bad ''r2_key'' ''malformed import key''
        | Some job_id \<Rightarrow> (case check_mapping L (im_mapping p) of
            Some e \<Rightarrow> (Inl e, s)
          | None \<Rightarrow>
              if im_on_conflict p \<noteq> ''update'' \<and> im_on_conflict p \<noteq> ''error'' then bad ''on_conflict'' ''on_conflict is update or error''
              else (case os_head st (im_key p) of
                Inl e \<Rightarrow> if err_is e not_found_object then bad ''r2_key'' ''nothing was uploaded under this key'' else (Inl e, s)
              | Inr _ \<Rightarrow> (case in_tenant_tx c (start_import_tx c job_id p) s of
                  (Inl e, s') \<Rightarrow> (Inl e, s')
                | (Inr _, s') \<Rightarrow> (case enqueue of None \<Rightarrow> Inr job_id | Some e \<Rightarrow> Inl e, s'))))))"

section \<open>Batches\<close>

definition import_batch_size :: nat where
  "import_batch_size = 500"

text \<open>\<open>groupKey\<close>: the title, or without one the line alone.\<close>

definition group_key :: "import_lib \<Rightarrow> import_row \<Rightarrow> string" where
  "group_key L r = (let t = il_lower L (trim_space (col r ''title'')) in
     if t \<noteq> [] then ''t:'' @ t else ''l:'' @ itoa (ir_line r))"

text \<open>The keys in order of first appearance.\<close>

fun firsts :: "'a list \<Rightarrow> 'a list \<Rightarrow> 'a list" where
  "firsts seen [] = []"
| "firsts seen (k # ks) = (if k \<in> set seen then firsts seen ks else k # firsts (k # seen) ks)"

definition group_of :: "('r \<Rightarrow> string) \<Rightarrow> 'r list \<Rightarrow> string \<Rightarrow> 'r list" where
  "group_of key rows k = filter (\<lambda>r. key r = k) rows"

definition grouped :: "('r \<Rightarrow> string) \<Rightarrow> 'r list \<Rightarrow> 'r list" where
  "grouped key rows = concat (map (group_of key rows) (firsts [] (map key rows)))"

text \<open>The spans: a group joins the last span when the two together are no more than a batch. \<open>out\<close> is reversed.\<close>

fun cut_spans :: "(nat \<times> nat) list \<Rightarrow> nat \<Rightarrow> nat list \<Rightarrow> (nat \<times> nat) list" where
  "cut_spans out start [] = rev out"
| "cut_spans out start (n # ns) =
    (case out of
      (a, b) # rest \<Rightarrow> if b = start \<and> start + n - a \<le> import_batch_size then cut_spans ((a, start + n) # rest) (start + n) ns
                     else cut_spans ((start, start + n) # out) (start + n) ns
    | [] \<Rightarrow> cut_spans [(start, start + n)] (start + n) ns)"

definition import_batches :: "('r \<Rightarrow> string) \<Rightarrow> 'r list \<Rightarrow> 'r list \<times> (nat \<times> nat) list" where
  "import_batches key rows = (grouped key rows,
     cut_spans [] 0 (map (\<lambda>k. length (group_of key rows k)) (firsts [] (map key rows))))"

definition option_names :: "import_lib \<Rightarrow> (string \<times> string) list \<Rightarrow> string list" where
  "option_names L mapping =
    (let names = sort (map (\<lambda>t. trim_space (fst (cut_prefix option_prefix t))) (filter (\<lambda>t. snd (cut_prefix option_prefix t)) (map snd mapping))) in
     filter (is_colour (il_lower L)) names @ filter (\<lambda>n. \<not> is_colour (il_lower L) n) names)"

section \<open>One row\<close>

definition price_field :: "import_lib \<Rightarrow> string \<Rightarrow> string \<Rightarrow> err + int option" where
  "price_field L f v = (if v = [] then Inr None else (case parse_rupiah v of
     None \<Rightarrow> Inl (field_error f (il_quote L v @ '' is not an amount in rupiah'')) | Some n \<Rightarrow> Inr (Some n)))"

definition weight_field :: "import_lib \<Rightarrow> string \<Rightarrow> err + int option" where
  "weight_field L v = (if v = [] then Inr None else (case parse_grams v of
     None \<Rightarrow> Inl (field_error ''weight_grams'' (il_quote L v @ '' is not a weight in grams'')) | Some n \<Rightarrow> Inr (Some n)))"

definition no_fields :: variant_fields where
  "no_fields = \<lparr>vf_sku = None, vf_barcode = None, vf_clear_sku = False, vf_clear_barcode = False, vf_regular_price = None,
     vf_sale_price = None, vf_clear_sale_price = False, vf_sale_starts_at = None, vf_sale_ends_at = None, vf_clear_sale_starts = False,
     vf_clear_sale = False, vf_weight_grams = None\<rparr>"

definition row_fields :: "import_lib \<Rightarrow> import_row \<Rightarrow> err + variant_fields" where
  "row_fields L r =
    (case price_field L ''regular_price'' (col r ''regular_price'') of Inl e \<Rightarrow> Inl e | Inr a \<Rightarrow>
     (case price_field L ''sale_price'' (col r ''sale_price'') of Inl e \<Rightarrow> Inl e | Inr b \<Rightarrow>
     (case weight_field L (col r ''weight_grams'') of Inl e \<Rightarrow> Inl e | Inr w \<Rightarrow>
      Inr (no_fields\<lparr>vf_regular_price := a, vf_sale_price := b, vf_weight_grams := w,
        vf_barcode := (if col r ''barcode'' = [] then None else Some (col r ''barcode''))\<rparr>))))"

definition import_reason :: "err \<Rightarrow> string" where
  "import_reason e = (case as_app e of Some a \<Rightarrow> e_detail a | None \<Rightarrow> ''Something went wrong on our side with this row.'')"

definition update_existing :: "ctx \<Rightarrow> bool \<Rightarrow> string \<Rightarrow> variant_fields \<Rightarrow> variant \<Rightarrow> string stmt" where
  "update_existing c refuse sku f v =
    (if refuse then bindT (holder_title c (Some sku)) (\<lambda>t. failT (duplicate_sku sku t))
     else if va_archived_at v \<noteq> None then failT (field_error ''sku'' ''this SKU belongs to an archived variant'')
     else thenT (mapErrT variant_write_error (update_variant c (update_params (va_id v) (va_version v) f))) (retT S_updated))"

fun row_options :: "import_row \<Rightarrow> string list \<Rightarrow> err + string list" where
  "row_options r [] = Inr []"
| "row_options r (n # ns) = (let v = col r (option_prefix @ n) in
     if blank v then Inl (field_error (option_prefix @ n) (''option '' @ n @ '' is empty''))
     else (case row_options r ns of Inl e \<Rightarrow> Inl e | Inr vs \<Rightarrow> Inr (v # vs)))"

definition import_product :: "import_lib \<Rightarrow> ctx \<Rightarrow> uuid \<Rightarrow> string \<Rightarrow> string list \<Rightarrow> uuid stmt" where
  "import_product L c pid title names =
    bindT (free_slug (il_pg L) c title) (\<lambda>slug.
    bindT (create_product c \<lparr>cp_id = pid, cp_title = title, cp_slug = slug, cp_description = None, cp_brand = None, cp_attributes = ''{}''\<rparr>) (\<lambda>p.
    thenT (if names \<noteq> [] then thenT (bump_product c (pr_id p) names) (retT ()) else retT ()) (retT (pr_id p))))"

definition import_variant :: "ctx \<Rightarrow> uuid \<Rightarrow> uuid \<Rightarrow> string list \<Rightarrow> variant_fields \<Rightarrow> string stmt" where
  "import_variant c vid pid options f =
    thenT (mapErrT variant_write_error (create_variant c (create_params vid pid options f))) (retT S_created)"

text \<open>
  \<open>importRow\<close>. The map from a title to its product is Go state: what a failed row wrote to it stays, although
  the row's own product is rolled back with its savepoint.\<close>

type_synonym titles = "(string \<times> uuid) list"

definition import_row_op :: "import_lib \<Rightarrow> ctx \<Rightarrow> bool \<Rightarrow> string list \<Rightarrow> uuid \<Rightarrow> uuid \<Rightarrow> import_row \<Rightarrow> titles \<Rightarrow> db
    \<Rightarrow> (err + string \<times> db) \<times> titles" where
  "import_row_op L c refuse names pid vid r seen s =
    (case row_fields L r of
      Inl e \<Rightarrow> (Inl e, seen)
    | Inr f0 \<Rightarrow>
      (let sku = col r ''sku'';
           f = (if sku \<noteq> [] then f0\<lparr>vf_sku := Some sku\<rparr> else f0);
           title = trim_space (col r ''title'') in
       case existing_sku c (if sku \<noteq> [] then Some sku else None) s of
         Inl e \<Rightarrow> (Inl e, seen)
       | Inr (Some v, _) \<Rightarrow> (update_existing c refuse sku f v s, seen)
       | Inr (None, _) \<Rightarrow>
           if title = [] then (Inl (field_error ''title'' ''title is required for a SKU that is not in the catalog yet''), seen)
           else (case row_options r names of
             Inl e \<Rightarrow> (Inl e, seen)
           | Inr options \<Rightarrow> (case map_of seen (group_key L r) of
               Some p \<Rightarrow> (import_variant c vid p options f s, seen)
             | None \<Rightarrow> (case import_product L c pid title names s of
                 Inl e \<Rightarrow> (Inl e, seen)
               | Inr (p, s1) \<Rightarrow> (import_variant c vid p options f s1, (group_key L r, p) # seen))))))"

section \<open>The batches applied\<close>

record import_state =
  is_created :: int
  is_updated :: int
  is_errors :: "(int \<times> string) list"

definition state_dyn :: "import_state \<Rightarrow> dyn" where
  "state_dyn st = DObj ([(''created'', DInt (is_created st)), (''updated'', DInt (is_updated st))] @
     (if is_errors st = [] then [] else [(''errors'', DList (map (\<lambda>(l, why). DObj [(''line'', DInt l), (''reason'', DStr why)]) (is_errors st)))]))"

definition dyn_int :: "(string \<times> dyn) list \<Rightarrow> string \<Rightarrow> int" where
  "dyn_int o' k = (case map_of o' k of Some (DInt n) \<Rightarrow> n | _ \<Rightarrow> 0)"

definition dyn_text :: "(string \<times> dyn) list \<Rightarrow> string \<Rightarrow> string" where
  "dyn_text o' k = (case map_of o' k of Some (DStr x) \<Rightarrow> x | _ \<Rightarrow> [])"

definition dyn_error :: "dyn \<Rightarrow> int \<times> string" where
  "dyn_error d = (case d of DObj o' \<Rightarrow> (dyn_int o' ''line'', dyn_text o' ''reason'') | _ \<Rightarrow> (0, []))"

definition no_state :: import_state where
  "no_state = \<lparr>is_created = 0, is_updated = 0, is_errors = []\<rparr>"

definition dyn_state :: "dyn option \<Rightarrow> import_state" where
  "dyn_state d = (case d of Some (DObj o') \<Rightarrow> \<lparr>is_created = dyn_int o' ''created'', is_updated = dyn_int o' ''updated'',
       is_errors = (case map_of o' ''errors'' of Some (DList es) \<Rightarrow> map dyn_error es | _ \<Rightarrow> [])\<rparr>
   | _ \<Rightarrow> no_state)"

definition tally :: "import_row \<Rightarrow> err + string \<Rightarrow> import_state \<Rightarrow> import_state" where
  "tally r res st = (case res of
     Inl e \<Rightarrow> st\<lparr>is_errors := is_errors st @ [(ir_line r, import_reason e)]\<rparr>
   | Inr what \<Rightarrow> if what = S_created then st\<lparr>is_created := is_created st + 1\<rparr> else st\<lparr>is_updated := is_updated st + 1\<rparr>)"

fun import_rows :: "import_lib \<Rightarrow> ctx \<Rightarrow> bool \<Rightarrow> string list \<Rightarrow> (uuid \<times> uuid \<times> import_row) list \<Rightarrow> titles \<Rightarrow> import_state \<Rightarrow> db
    \<Rightarrow> import_state \<times> db" where
  "import_rows L c refuse names [] seen st s = (st, s)"
| "import_rows L c refuse names ((pid, vid, r) # rows) seen st s =
    (case import_row_op L c refuse names pid vid r seen s of
      (Inl e, seen') \<Rightarrow> import_rows L c refuse names rows seen' (tally r (Inl e) st) s
    | (Inr (what, s'), seen') \<Rightarrow> import_rows L c refuse names rows seen' (tally r (Inr what) st) s')"

definition import_batch_tx :: "import_lib \<Rightarrow> ctx \<Rightarrow> uuid \<Rightarrow> bool \<Rightarrow> string list \<Rightarrow> (uuid \<times> uuid \<times> import_row) list \<Rightarrow> nat \<Rightarrow> import_state
    \<Rightarrow> import_state stmt" where
  "import_batch_tx L c job_id refuse names rows n st s =
    (case import_rows L c refuse names rows [] st s of
      (st', s') \<Rightarrow> thenT (checkpoint_job c job_id (wrap32 (int n)) (wrap32 (int (length (is_errors st')))) (Some (state_dyn st'))) (retT st') s')"

fun import_loop :: "import_lib \<Rightarrow> ctx \<Rightarrow> uuid \<Rightarrow> bool \<Rightarrow> string list \<Rightarrow> (uuid \<times> uuid \<times> import_row) list \<Rightarrow> int \<Rightarrow> (nat \<times> nat) list
    \<Rightarrow> import_state \<Rightarrow> db \<Rightarrow> (err + import_state) \<times> db" where
  "import_loop L c job_id refuse names rows already [] st s = (Inr st, s)"
| "import_loop L c job_id refuse names rows already ((a, b) # spans) st s =
    (if already \<ge> int b then import_loop L c job_id refuse names rows already spans st s
     else (case in_tenant_tx c (import_batch_tx L c job_id refuse names (take (b - a) (drop a rows)) b st) s of
       (Inl e, s') \<Rightarrow> (Inl e, s')
     | (Inr st', s') \<Rightarrow> import_loop L c job_id refuse names rows already spans st' s'))"

section \<open>The handler\<close>

text \<open>\<open>file\<close> is what the object store answers for the upload, \<open>ids\<close> the ids drawn for the row of a line,
  \<open>io_put\<close> what it answers to the error report, a key and the records of the CSV it is given.\<close>

record import_io =
  io_file :: "err + string"
  io_ids :: "int \<Rightarrow> uuid \<times> uuid"
  io_put :: "string \<Rightarrow> string list list \<Rightarrow> err option"

definition error_report :: "string list \<Rightarrow> import_row list \<Rightarrow> (int \<times> string) list \<Rightarrow> string list list" where
  "error_report header rows errs =
    ([''line'', ''error''] @ header) # map (\<lambda>(l, why). [itoa l, why] @
       (case find (\<lambda>r. ir_line r = l) (rev rows) of None \<Rightarrow> [] | Some r \<Rightarrow> ir_raw r)) errs"

definition report_key :: "string \<Rightarrow> string" where
  "report_key key = (if suffix ''upload.csv'' key then take (length key - 10) key else key) @ ''errors.csv''"

definition import_result :: "import_params \<Rightarrow> import_state \<Rightarrow> dyn" where
  "import_result p st = DObj ([(''created'', DInt (is_created st)), (''updated'', DInt (is_updated st))] @
     (if is_errors st = [] then [] else [(''error_report_key'', DStr (report_key (im_key p)))]))"

definition dyn_params :: "dyn \<Rightarrow> import_params option" where
  "dyn_params d = (case d of
     DObj o' \<Rightarrow> Some \<lparr>im_key = dyn_text o' ''r2_key'', im_mapping = (case map_of o' ''column_mapping'' of
         Some (DObj m) \<Rightarrow> map (\<lambda>(h, t). (h, case t of DStr x \<Rightarrow> x | _ \<Rightarrow> [])) m | _ \<Rightarrow> []), im_on_conflict = dyn_text o' ''on_conflict''\<rparr>
   | _ \<Rightarrow> None)"

definition import_handler :: "import_lib \<Rightarrow> import_io \<Rightarrow> handler" where
  "import_handler L io c job s =
    (case dyn_params (jb_params job) of
      None \<Rightarrow> (Inl (Opaque ''json: cannot unmarshal''), s)
    | Some p \<Rightarrow> (case io_file io of
        Inl e \<Rightarrow> (Inl e, s)
      | Inr data \<Rightarrow> (case read_csv data (im_mapping p) of
          Inl e \<Rightarrow> (Inl (validation_failed (''The file could not be read: '' @ error_text e)), s)
        | Inr (header, rows) \<Rightarrow>
           (case in_tenant_tx c (job_progress c (jb_id job) (jb_processed job) (Some (wrap32 (int (length rows)))) (jb_failed job)) s of
             (Inl e, s1) \<Rightarrow> (Inl e, s1)
           | (Inr _, s1) \<Rightarrow>
             (case import_batches (group_key L) rows of (srt, spans) \<Rightarrow>
              (case import_loop L c (jb_id job) (im_on_conflict p = ''error'') (option_names L (im_mapping p))
                      (map (\<lambda>r. case io_ids io (ir_line r) of (pid, vid) \<Rightarrow> (pid, vid, r)) srt)
                      (jb_processed job) spans (dyn_state (jb_result job)) s1 of
                (Inl e, s2) \<Rightarrow> (Inl e, s2)
              | (Inr st, s2) \<Rightarrow>
                 if is_errors st = [] then (Inr (Some (Marshals (import_result p st))), s2)
                 else (case io_put io (report_key (im_key p)) (error_report header srt (is_errors st)) of Some e \<Rightarrow> (Inl e, s2) | None \<Rightarrow> (Inr (Some (Marshals (import_result p st))), s2))))))))"

end
