(* ===== verification/Catalog.thy ===== *)
theory Catalog
  imports ProductLists CategoryTree Import
begin

text \<open>
  What every write of the catalog keeps: the catalog of each shop is well formed (prices, sale windows, SKUs, option
  combinations, slugs, references) and a shop's writes leave every other shop's rows alone. Each statement is proved
  once to make such a step; the operations inherit it from the transaction combinators.\<close>

section \<open>Well-formed catalogs\<close>

definition variant_ok :: "variant \<Rightarrow> bool" where
  "variant_ok v \<longleftrightarrow> price_ok v \<and> sale_ok v \<and> window_ok v \<and> weight_ok v"

text \<open>Two variants clash when they share a SKU in a shop, or are live with the same options of one product.\<close>

definition clash :: "variant \<Rightarrow> variant \<Rightarrow> bool" where
  "clash v w \<longleftrightarrow> va_tenant v = va_tenant w \<and> va_sku v \<noteq> None \<and> va_sku w = va_sku v \<or>
     va_product v = va_product w \<and> va_option_values v = va_option_values w \<and> va_archived_at v = None \<and> va_archived_at w = None"

text \<open>No two rows of a set that clash have different keys: what a unique index guards.\<close>

definition apart :: "('r \<Rightarrow> 'r \<Rightarrow> bool) \<Rightarrow> ('r \<Rightarrow> 'k) \<Rightarrow> 'r set \<Rightarrow> bool" where
  "apart C key R \<longleftrightarrow> (\<forall>v \<in> R. \<forall>w \<in> R. C v w \<longrightarrow> key v = key w)"

lemma apartI: "(\<And>v w. v \<in> R \<Longrightarrow> w \<in> R \<Longrightarrow> C v w \<Longrightarrow> key v = key w) \<Longrightarrow> apart C key R"
  unfolding apart_def by blast

lemma apartD: "apart C key R \<Longrightarrow> v \<in> R \<Longrightarrow> w \<in> R \<Longrightarrow> C v w \<Longrightarrow> key v = key w"
  unfolding apart_def by blast

lemma apart_insert:
  assumes "apart C key R" and new: "\<And>w. w \<in> R \<Longrightarrow> C v w \<Longrightarrow> key w = key v" and sym: "\<And>v w. C v w \<Longrightarrow> C w v"
  shows "apart C key (insert v R)"
proof (rule apartI)
  fix a b assume "a \<in> insert v R" "b \<in> insert v R" and c: "C a b"
  then consider "a = v" "b = v" | "a = v" "b \<in> R" | "a \<in> R" "b = v" | "a \<in> R" "b \<in> R" by blast
  then show "key a = key b"
  proof cases
    case 1 then show ?thesis by (simp only:)
  next
    case 2 then show ?thesis using new [of b] c by (simp only:)
  next
    case 3 then show ?thesis using new [of a] sym [OF c] by (simp only:)
  next
    case 4 then show ?thesis using apartD [OF assms(1)] c by blast
  qed
qed

lemma apart_image:
  assumes "apart C key R" and same: "\<And>v. v \<in> R \<Longrightarrow> key (g v) = key v"
    and less: "\<And>v w. v \<in> R \<Longrightarrow> w \<in> R \<Longrightarrow> C (g v) (g w) \<Longrightarrow> C v w"
  shows "apart C key (g ` R)"
proof (rule apartI, elim imageE)
  fix a b v w assume c: "C a b" and eq: "a = g v" "b = g w" and m: "v \<in> R" "w \<in> R"
  have "key v = key w" by (rule apartD [OF assms(1) m]) (rule less [OF m c [unfolded eq]])
  then show "key a = key b" unfolding eq same [OF m(1)] same [OF m(2)] .
qed

lemma apart_upd:
  assumes "apart C key (set rows)" and sym: "\<And>v w. C v w \<Longrightarrow> C w v"
    and new: "\<And>v. v \<in> set rows \<Longrightarrow> ten v = t \<Longrightarrow> key v = k \<Longrightarrow> key (f v) = k"
    and free: "\<And>v w. v \<in> set rows \<Longrightarrow> ten v = t \<Longrightarrow> key v = k \<Longrightarrow> w \<in> set rows \<Longrightarrow> C (f v) w \<Longrightarrow> key w = k"
  shows "apart C key (set (row_upd ten key t k f rows))"
proof (rule apartI)
  fix a b assume "a \<in> set (row_upd ten key t k f rows)" "b \<in> set (row_upd ten key t k f rows)" and c: "C a b"
  then obtain v w where v: "v \<in> set rows" "a = (if ten v = t \<and> key v = k then f v else v)"
    and w: "w \<in> set rows" "b = (if ten w = t \<and> key w = k then f w else w)"
    unfolding row_upd_def set_map by (elim imageE) blast
  consider "ten v = t" "key v = k" "ten w = t" "key w = k" | "ten v = t" "key v = k" "b = w" | "a = v" "ten w = t" "key w = k"
    | "a = v" "b = w"
    using v(2) w(2) by (auto split: if_splits)
  then show "key a = key b"
  proof cases
    case 1
    then show ?thesis unfolding v(2) w(2) using new [OF v(1)] new [OF w(1)] by (simp only: if_True simp_thms)
  next
    case 2
    then have "a = f v" using v(2) by (simp only: if_True simp_thms)
    with 2 show ?thesis using new [OF v(1) 2(1,2)] free [OF v(1) 2(1,2) w(1)] c by (simp only:)
  next
    case 3
    then have "b = f w" using w(2) by (simp only: if_True simp_thms)
    with 3 show ?thesis using new [OF w(1) 3(2,3)] free [OF w(1) 3(2,3) v(1)] sym [OF c] by (simp only:)
  next
    case 4
    then show ?thesis using apartD [OF assms(1) v(1) w(1)] c by (simp only:)
  qed
qed

lemma upd_keys:
  assumes "\<And>v. v \<in> set rows \<Longrightarrow> ten v = t \<Longrightarrow> key v = k \<Longrightarrow> key (f v) = k"
  shows "map key (row_upd ten key t k f rows) = map key rows"
  unfolding row_upd_def map_map by (rule map_cong) (simp_all add: assms)

definition variants_ok :: "variant list \<Rightarrow> bool" where
  "variants_ok vs \<longleftrightarrow> distinct (map va_id vs) \<and> list_all variant_ok vs \<and> apart clash va_id (set vs)"

definition same_slug :: "product \<Rightarrow> product \<Rightarrow> bool" where
  "same_slug p q \<longleftrightarrow> pr_tenant p = pr_tenant q \<and> pr_slug p = pr_slug q"

definition status_ok :: "product \<Rightarrow> bool" where
  "status_ok p \<longleftrightarrow> pr_status p \<in> {S_draft, S_active, S_archived}"

definition products_ok :: "product list \<Rightarrow> bool" where
  "products_ok ps \<longleftrightarrow> distinct (map pr_id ps) \<and> list_all status_ok ps \<and> apart same_slug pr_id (set ps)"

definition refs_ok :: "db \<Rightarrow> bool" where
  "refs_ok s \<longleftrightarrow> (\<lambda>v. (va_tenant v, va_product v)) ` set (variants s) \<subseteq> (\<lambda>p. (pr_tenant p, pr_id p)) ` set (products s) \<and>
     (\<forall>p \<in> set (products s). brand_ref_ok p s)"

definition catalog_ok :: "db \<Rightarrow> bool" where
  "catalog_ok s \<longleftrightarrow> variants_ok (variants s) \<and> products_ok (products s) \<and> refs_ok s"

lemma clash_sym: "clash v w \<Longrightarrow> clash w v"
  by (auto simp: clash_def)

lemma same_slug_sym: "same_slug p q \<Longrightarrow> same_slug q p"
  by (simp add: same_slug_def)

lemma variant_checks_Inr: "variant_checks v s = Inr (x, s') \<longleftrightarrow> variant_ok v \<and> s' = s"
  by (auto simp: variant_checks_def tx_inr variant_ok_def)

lemma sku_freeD: "sku_free v s \<Longrightarrow> w \<in> set (variants s) \<Longrightarrow> va_tenant w = va_tenant v \<Longrightarrow> va_sku v \<noteq> None \<Longrightarrow> va_sku w = va_sku v \<Longrightarrow>
    va_id w = va_id v"
  unfolding sku_free_def list_all_iff by (drule (1) bspec, erule mp, intro conjI)

lemma options_freeD: "options_free v s \<Longrightarrow> va_archived_at v = None \<Longrightarrow> w \<in> set (variants s) \<Longrightarrow> va_product w = va_product v \<Longrightarrow>
    va_option_values w = va_option_values v \<Longrightarrow> va_archived_at w = None \<Longrightarrow> va_id w = va_id v"
  unfolding options_free_def list_all_iff by (erule disjE, erule notE, assumption, drule (1) bspec, erule mp, intro conjI)

lemma free_clash:
  assumes "sku_free v s" and "options_free v s" and "w \<in> set (variants s)" and "clash v w"
  shows "va_id w = va_id v"
  using assms(4) unfolding clash_def
proof (elim disjE conjE)
  assume "va_tenant v = va_tenant w" "va_sku v \<noteq> None" "va_sku w = va_sku v"
  then show ?thesis using sku_freeD [OF assms(1,3)] by (simp only: not_False_eq_True)
next
  assume "va_product v = va_product w" "va_option_values v = va_option_values w" "va_archived_at v = None" "va_archived_at w = None"
  then show ?thesis using options_freeD [OF assms(2) _ assms(3)] by (simp only:)
qed

lemma variant_unique_free:
  assumes "variant_unique v s = Inr (x, s')" and "w \<in> set (variants s)" and "clash v w"
  shows "va_id w = va_id v"
proof -
  have "sku_free v s" "options_free v s" using assms(1) by (auto simp: variant_unique_def tx_inr)
  then show ?thesis using assms(2,3) by (rule free_clash)
qed

lemma variant_unique_frame: "variant_unique v s = Inr (x, s') \<Longrightarrow> s' = s"
  by (auto simp: variant_unique_def tx_inr)

lemma product_slug_free_D:
  assumes "product_slug_free p s" and "q \<in> set (products s)" and "same_slug p q"
  shows "pr_id q = pr_id p"
  using bspec [OF assms(1) [unfolded product_slug_free_def list_all_iff] assms(2)] assms(3) by (simp add: same_slug_def)

lemma variants_ok_add:
  assumes "variants_ok vs" and "variant_ok v" and "va_id v \<notin> va_id ` set vs" and "\<And>w. w \<in> set vs \<Longrightarrow> clash v w \<Longrightarrow> va_id w = va_id v"
  shows "variants_ok (vs @ [v])"
  using assms(1-3) apart_insert [of clash va_id "set vs" v, OF _ assms(4) clash_sym] by (simp add: variants_ok_def)

lemma variants_ok_upd:
  assumes ok: "variants_ok vs"
    and new: "\<And>v. v \<in> set vs \<Longrightarrow> va_tenant v = t \<Longrightarrow> va_id v = i \<Longrightarrow> va_id (f v) = i \<and> variant_ok (f v)"
    and free: "\<And>v w. v \<in> set vs \<Longrightarrow> va_tenant v = t \<Longrightarrow> va_id v = i \<Longrightarrow> w \<in> set vs \<Longrightarrow> clash (f v) w \<Longrightarrow> va_id w = i"
  shows "variants_ok (row_upd va_tenant va_id t i f vs)"
  unfolding variants_ok_def
proof (intro conjI)
  show "distinct (map va_id (row_upd va_tenant va_id t i f vs))"
    using ok upd_keys [of vs va_tenant t va_id i f] new by (simp add: variants_ok_def)
  show "list_all variant_ok (row_upd va_tenant va_id t i f vs)"
    using ok new by (auto simp: variants_ok_def list_all_iff row_upd_def)
  show "apart clash va_id (set (row_upd va_tenant va_id t i f vs))"
    by (rule apart_upd [OF _ clash_sym _ free]) (use ok new in \<open>auto simp: variants_ok_def\<close>)
qed

lemma products_ok_add:
  assumes "products_ok ps" and "pr_id p \<notin> pr_id ` set ps" and "status_ok p" and "\<And>q. q \<in> set ps \<Longrightarrow> same_slug p q \<Longrightarrow> pr_id q = pr_id p"
  shows "products_ok (ps @ [p])"
  using assms(1-3) apart_insert [of same_slug pr_id "set ps" p, OF _ assms(4) same_slug_sym] by (simp add: products_ok_def)

lemma products_ok_upd:
  assumes ok: "products_ok ps"
    and new: "\<And>p. p \<in> set ps \<Longrightarrow> pr_tenant p = t \<Longrightarrow> pr_id p = i \<Longrightarrow> pr_id (f p) = i \<and> status_ok (f p)"
    and free: "\<And>p q. p \<in> set ps \<Longrightarrow> pr_tenant p = t \<Longrightarrow> pr_id p = i \<Longrightarrow> q \<in> set ps \<Longrightarrow> same_slug (f p) q \<Longrightarrow> pr_id q = i"
  shows "products_ok (row_upd pr_tenant pr_id t i f ps)"
  unfolding products_ok_def
proof (intro conjI)
  show "distinct (map pr_id (row_upd pr_tenant pr_id t i f ps))"
    using ok upd_keys [of ps pr_tenant t pr_id i f] new by (simp add: products_ok_def)
  show "list_all status_ok (row_upd pr_tenant pr_id t i f ps)"
    using ok new by (auto simp: products_ok_def list_all_iff row_upd_def)
  show "apart same_slug pr_id (set (row_upd pr_tenant pr_id t i f ps))"
    by (rule apart_upd [OF _ same_slug_sym _ free]) (use ok new in \<open>auto simp: products_ok_def\<close>)
qed

text \<open>Edits that touch neither a slug nor a status.\<close>

lemma products_ok_touch:
  assumes ok: "products_ok ps" and g: "\<And>p. pr_id (g p) = pr_id p \<and> pr_tenant (g p) = pr_tenant p \<and> pr_slug (g p) = pr_slug p \<and> pr_status (g p) = pr_status p"
  shows "products_ok (map g ps)"
  unfolding products_ok_def
proof (intro conjI)
  have "map pr_id (map g ps) = map pr_id ps" using g by simp
  then show "distinct (map pr_id (map g ps))" using ok unfolding products_ok_def by (simp only:)
  show "list_all status_ok (map g ps)" using ok g by (simp add: products_ok_def list_all_iff status_ok_def)
  show "apart same_slug pr_id (set (map g ps))"
    unfolding set_map by (rule apart_image) (use ok g in \<open>auto simp: products_ok_def same_slug_def\<close>)
qed

section \<open>Steps\<close>

definition variant_ref :: "variant \<Rightarrow> uuid \<times> uuid" where
  "variant_ref v = (va_tenant v, va_product v)"

definition product_key :: "product \<Rightarrow> uuid \<times> uuid" where
  "product_key p = (pr_tenant p, pr_id p)"

definition brand_key :: "brand \<Rightarrow> uuid \<times> uuid" where
  "brand_key b = (br_tenant b, br_id b)"

lemma refs_ok_iff: "refs_ok s \<longleftrightarrow> variant_ref ` set (variants s) \<subseteq> product_key ` set (products s) \<and> (\<forall>p \<in> set (products s). brand_ref_ok p s)"
  by (simp add: refs_ok_def variant_ref_def product_key_def)

lemma brand_ref_iff: "brand_ref_ok p s \<longleftrightarrow> (case pr_brand p of None \<Rightarrow> True | Some b \<Rightarrow> (pr_tenant p, b) \<in> brand_key ` set (brands s))"
  unfolding brand_ref_ok_def by (cases "pr_brand p") (auto simp: list_ex_iff brand_key_def image_iff, metis)

lemma brand_ref_mono: "brand_ref_ok p s \<Longrightarrow> brand_key ` set (brands s) \<subseteq> brand_key ` set (brands s') \<Longrightarrow> brand_ref_ok p s'"
  by (auto simp: brand_ref_iff split: option.splits)

text \<open>The parts of the state \<open>catalog_ok\<close> reads.\<close>

lemma catalog_ok_same:
  assumes "catalog_ok s" and "variants s' = variants s" and "products s' = products s"
    and "brand_key ` set (brands s) \<subseteq> brand_key ` set (brands s')"
  shows "catalog_ok s'"
  using assms brand_ref_mono [OF _ assms(4)] unfolding catalog_ok_def refs_ok_iff by (simp only:) blast

lemma catalog_ok_variants:
  assumes "catalog_ok s" and "variants_ok (variants s')" and "products s' = products s" and "brands s' = brands s"
    and "variant_ref ` set (variants s') \<subseteq> product_key ` set (products s)"
  shows "catalog_ok s'"
proof -
  have "brand_ref_ok p s'" if "p \<in> set (products s)" for p
    using assms(1,4) that brand_ref_mono [of p s s'] unfolding catalog_ok_def refs_ok_iff by (simp only: subset_refl)
  then show ?thesis using assms unfolding catalog_ok_def refs_ok_iff by (simp only:) blast
qed

lemma catalog_ok_products:
  assumes "catalog_ok s" and "products_ok (products s')" and "variants s' = variants s" and "brands s' = brands s"
    and "product_key ` set (products s) \<subseteq> product_key ` set (products s')" and "\<And>p. p \<in> set (products s') \<Longrightarrow> brand_ref_ok p s"
  shows "catalog_ok s'"
proof -
  have "brand_ref_ok p s'" if "p \<in> set (products s')" for p
    by (rule brand_ref_mono [OF assms(6) [OF that]]) (simp only: assms(4) subset_refl)
  then show ?thesis using assms unfolding catalog_ok_def refs_ok_iff by (simp only:) blast
qed

definition catalog_step :: "uuid \<Rightarrow> db \<Rightarrow> db \<Rightarrow> bool" where
  "catalog_step t s s' \<longleftrightarrow> isolated t s s' \<and> (catalog_ok s \<longrightarrow> catalog_ok s')"

interpretation cat: tx_relation "catalog_step t" for t
  by unfold_locales (use iso.R_refl iso.R_trans in \<open>unfold catalog_step_def, blast+\<close>)

named_theorems catalog_steps \<open>statements that make catalog steps\<close>

lemma step_same: "(\<And>s x s'. m s = Inr (x, s') \<Longrightarrow> s' = s) \<Longrightarrow> within (catalog_step t) m"
  by (rule cat.failed_or_same)

text \<open>A write of tables the invariant does not read, or reads only through what stays.\<close>

lemma step_frame:
  assumes "within (isolated t) m"
    and "\<And>s x s'. m s = Inr (x, s') \<Longrightarrow> variants s' = variants s \<and> products s' = products s \<and>
      brand_key ` set (brands s) \<subseteq> brand_key ` set (brands s')"
  shows "within (catalog_step t) m"
proof (rule withinI)
  fix s x s' assume m: "m s = Inr (x, s')"
  from assms(2) [OF m] catalog_ok_same [of s s'] withinD [OF assms(1) m] show "catalog_step t s s'"
    unfolding catalog_step_def by blast
qed

lemma step_ok:
  assumes "within (isolated t) m" and "\<And>s x s'. m s = Inr (x, s') \<Longrightarrow> catalog_ok s \<Longrightarrow> catalog_ok s'"
  shows "within (catalog_step t) m"
  using assms unfolding within_def catalog_step_def by blast

section \<open>Variants\<close>

lemma upd_variant_isolated: "(\<And>v. va_tenant (f v) = va_tenant v \<and> va_id (f v) = va_id v) \<Longrightarrow> within (isolated t) (writeT (upd_variant t i f))"
  by (auto simp: within_def isolated_def same_def foreign_def upd_variant_def others_upd keeps_key_def)

lemma upd_variant_rows: "variants (upd_variant t i f s) = row_upd va_tenant va_id t i f (variants s)"
  by (simp add: upd_variant_def)

lemma upd_variant_ok:
  assumes ok: "catalog_ok s" and keep: "\<And>v. va_tenant (f v) = va_tenant v \<and> va_id (f v) = va_id v \<and> va_product (f v) = va_product v"
    and new: "\<And>v. v \<in> set (variants s) \<Longrightarrow> va_tenant v = t \<Longrightarrow> va_id v = i \<Longrightarrow> variant_ok (f v)"
    and free: "\<And>v w. v \<in> set (variants s) \<Longrightarrow> va_tenant v = t \<Longrightarrow> va_id v = i \<Longrightarrow> w \<in> set (variants s) \<Longrightarrow> clash (f v) w \<Longrightarrow> va_id w = i"
  shows "catalog_ok (upd_variant t i f s)"
proof (rule catalog_ok_variants [OF ok])
  show "variants_ok (variants (upd_variant t i f s))"
    unfolding upd_variant_rows
  proof (rule variants_ok_upd [OF _ _ free])
    show "variants_ok (variants s)" using ok unfolding catalog_ok_def by blast
    fix v assume v: "v \<in> set (variants s)" "va_tenant v = t" "va_id v = i"
    show "va_id (f v) = i \<and> variant_ok (f v)" using keep [of v] new [OF v] v(3) by (simp only: simp_thms)
  qed
  have "variant_ref ` set (variants (upd_variant t i f s)) = variant_ref ` set (variants s)"
    unfolding upd_variant_rows row_upd_def set_map image_image
    by (rule image_cong) (simp_all add: variant_ref_def keep)
  then show "variant_ref ` set (variants (upd_variant t i f s)) \<subseteq> product_key ` set (products s)"
    using ok by (simp add: catalog_ok_def refs_ok_iff)
qed (simp_all add: upd_variant_def)

lemma create_variant_step [catalog_steps]: "tenant_of c = t \<Longrightarrow> within (catalog_step t) (create_variant c p)"
proof (rule step_ok)
  assume t: "tenant_of c = t"
  show "within (isolated t) (create_variant c p)"
    using t by (auto simp: within_def isolated_def same_def foreign_def create_variant_def Let_def tx_inr variant_checks_Inr others_append
        new_variant_def others_own dest!: variant_unique_frame)
  fix s x s' assume m: "create_variant c p s = Inr (x, s')" and ok: "catalog_ok s"
  obtain sa where chk: "variant_ok (new_variant c p)" and new: "va_id (new_variant c p) \<notin> va_id ` set (variants s)"
    and u: "variant_unique (new_variant c p) s = Inr ((), sa)" and pr: "get_product_row (tenant_of c) (va_product (new_variant c p)) sa \<noteq> None"
    and s': "s' = sa\<lparr>variants := variants sa @ [new_variant c p]\<rparr>"
    using m by (auto simp: create_variant_def Let_def tx_inr variant_checks_Inr)
  have sa: "sa = s" by (rule variant_unique_frame [OF u])
  have vs: "variants s' = variants s @ [new_variant c p]" "products s' = products s" "brands s' = brands s" by (simp_all add: s' sa)
  show "catalog_ok s'"
  proof (rule catalog_ok_variants [OF ok _ vs(2,3)])
    show "variants_ok (variants s')"
      unfolding vs(1)
    proof (rule variants_ok_add [OF _ chk new])
      show "variants_ok (variants s)" using ok unfolding catalog_ok_def by blast
    qed (rule variant_unique_free [OF u])
    obtain r where "get_product_row (tenant_of c) (va_product (new_variant c p)) s = Some r" using pr sa by blast
    then have "variant_ref (new_variant c p) \<in> product_key ` set (products s)"
      using row_get_Some [of pr_tenant pr_id "tenant_of c" "va_product (new_variant c p)" "products s" r]
      by (auto simp: get_product_row_def variant_ref_def product_key_def image_iff new_variant_def intro!: bexI [of _ r])
    then show "variant_ref ` set (variants s') \<subseteq> product_key ` set (products s)"
      using ok unfolding vs(1) catalog_ok_def refs_ok_iff by simp
  qed
qed

lemma updated_variant_keeps: "va_tenant (updated_variant c p v) = va_tenant v \<and> va_id (updated_variant c p v) = va_id v \<and>
    va_product (updated_variant c p v) = va_product v"
  by (simp add: updated_variant_def edited_variant_def)

lemma variant_by_id:
  assumes "catalog_ok s" and "get_variant_row t i s = Some v" and "w \<in> set (variants s)" and "va_id w = i"
  shows "w = v"
proof -
  have v: "v \<in> set (variants s)" "va_id v = i"
    using row_get_Some [of va_tenant va_id t i "variants s" v] assms(2) by (auto simp: get_variant_row_def)
  have "inj_on va_id (set (variants s))"
    using assms(1) unfolding catalog_ok_def variants_ok_def distinct_map by blast
  then show ?thesis by (rule inj_onD) (use assms(3,4) v in \<open>simp_all only:\<close>)
qed

lemma update_variant_step [catalog_steps]: "tenant_of c = t \<Longrightarrow> within (catalog_step t) (update_variant c p)"
proof (rule step_ok)
  assume t: "tenant_of c = t"
  have iso: "within (isolated t) (writeT (upd_variant t (uv_id p) (updated_variant c p)))"
    by (rule upd_variant_isolated) (simp only: updated_variant_keeps)
  show "within (isolated t) (update_variant c p)"
    unfolding update_variant_def t
    by (intro iso.rules iso isolation step_same) (auto simp: variant_checks_def variant_unique_def intro!: iso.rules isolation)
  fix s x s' assume m: "update_variant c p s = Inr (x, s')" and ok: "catalog_ok s"
  obtain v where v: "get_variant_row t (uv_id p) s = Some v" and chk: "variant_ok (updated_variant c p v)"
    and u: "variant_unique (updated_variant c p v) s = Inr ((), s)" and s': "s' = upd_variant t (uv_id p) (updated_variant c p) s"
    using m t by (auto simp: update_variant_def tx_inr variant_checks_Inr split: option.splits if_splits dest: variant_unique_frame)
  show "catalog_ok s'"
    unfolding s'
  proof (rule upd_variant_ok [OF ok updated_variant_keeps])
    fix q assume q: "q \<in> set (variants s)" "va_id q = uv_id p"
    have "q = v" by (rule variant_by_id [OF ok v q])
    then show "variant_ok (updated_variant c p q)" using chk by simp
    fix w assume "w \<in> set (variants s)" "clash (updated_variant c p q) w"
    with variant_unique_free [OF u] \<open>q = v\<close> have "va_id w = va_id (updated_variant c p v)" by blast
    then show "va_id w = uv_id p" using updated_variant_keeps [of c p v] q(2) \<open>q = v\<close> by simp
  qed
qed

lemma archive_variant_step [catalog_steps]: "tenant_of c = t \<Longrightarrow> within (catalog_step t) (archive_variant c i)"
proof (rule step_ok)
  assume t: "tenant_of c = t"
  have keep: "va_tenant (archived_variant c v) = va_tenant v \<and> va_id (archived_variant c v) = va_id v \<and> va_product (archived_variant c v) = va_product v" for v
    by (simp add: archived_variant_def)
  have iso: "within (isolated t) (writeT (upd_variant t i (archived_variant c)))"
    by (rule upd_variant_isolated) (simp only: keep)
  show "within (isolated t) (archive_variant c i)"
    unfolding archive_variant_def t by (intro iso.rules iso isolation)
  fix s x s' assume m: "archive_variant c i s = Inr (x, s')" and ok: "catalog_ok s"
  have s': "s' = upd_variant t i (archived_variant c) s" using m t by (auto simp: archive_variant_def tx_inr)
  have old: "variants_ok (variants s)" using ok unfolding catalog_ok_def by blast
  show "catalog_ok s'"
    unfolding s'
  proof (rule upd_variant_ok [OF ok keep])
    fix q assume q: "q \<in> set (variants s)" "va_id q = i"
    then have "variant_ok q" using old unfolding variants_ok_def list_all_iff by blast
    then show "variant_ok (archived_variant c q)"
      by (simp add: variant_ok_def archived_variant_def price_ok_def sale_ok_def window_ok_def weight_ok_def split: option.splits)
    fix w assume w: "w \<in> set (variants s)" and "clash (archived_variant c q) w"
    then have "clash q w" by (auto simp: clash_def archived_variant_def)
    then have "va_id q = va_id w" using old q(1) w unfolding variants_ok_def by (blast dest: apartD)
    then show "va_id w = i" using q(2) by simp
  qed
qed

lemma restore_variant_step [catalog_steps]: "tenant_of c = t \<Longrightarrow> within (catalog_step t) (restore_variant c i)"
proof (rule step_ok)
  assume t: "tenant_of c = t"
  have keep: "va_tenant (restored_variant c v) = va_tenant v \<and> va_id (restored_variant c v) = va_id v \<and> va_product (restored_variant c v) = va_product v" for v
    by (simp add: restored_variant_def)
  have iso: "within (isolated t) (writeT (upd_variant t i (restored_variant c)))"
    by (rule upd_variant_isolated) (simp only: keep)
  show "within (isolated t) (restore_variant c i)"
    unfolding restore_variant_def t by (intro iso.rules iso isolation)
  fix s x s' assume m: "restore_variant c i s = Inr (x, s')" and ok: "catalog_ok s"
  have s': "s' = upd_variant t i (restored_variant c) s"
    and free: "\<And>v. get_variant_row t i s = Some v \<Longrightarrow> options_free (restored_variant c v) s"
    using m t by (auto simp: restore_variant_def tx_inr)
  have old: "variants_ok (variants s)" using ok unfolding catalog_ok_def by blast
  show "catalog_ok s'"
    unfolding s'
  proof (rule upd_variant_ok [OF ok keep])
    fix q assume q: "q \<in> set (variants s)" "va_tenant q = t" "va_id q = i"
    then have "variant_ok q" using old unfolding variants_ok_def list_all_iff by blast
    then show "variant_ok (restored_variant c q)"
      by (simp add: variant_ok_def restored_variant_def price_ok_def sale_ok_def window_ok_def weight_ok_def split: option.splits)
    have "get_variant_row t i s \<noteq> None"
      using q by (auto simp: get_variant_row_def row_get_def find_None_iff)
    then obtain v where v: "get_variant_row t i s = Some v" by blast
    have "q = v" by (rule variant_by_id [OF ok v q(1,3)])
    fix w assume w: "w \<in> set (variants s)" and c: "clash (restored_variant c q) w"
    have "va_id w = va_id q"
    proof (cases "va_tenant q = va_tenant w \<and> va_sku q \<noteq> None \<and> va_sku w = va_sku q")
      case True
      then have "clash q w" by (simp add: clash_def)
      have "apart clash va_id (set (variants s))" using old unfolding variants_ok_def by blast
      from apartD [OF this q(1) w \<open>clash q w\<close>] show ?thesis by (rule sym)
    next
      case False
      then have "va_product w = va_product q" "va_option_values w = va_option_values q" "va_archived_at w = None"
        using c by (auto simp: clash_def restored_variant_def)
      then show ?thesis
        using options_freeD [OF free [OF v] _ w] \<open>q = v\<close> by (simp add: restored_variant_def)
    qed
    then show "va_id w = i" using q(3) by simp
  qed
qed

lemma variant_reads_step [catalog_steps]:
  "within (catalog_step t) (get_variant c i)" "within (catalog_step t) (all_variants c i)" "within (catalog_step t) (list_variants c i b)"
  "within (catalog_step t) (variant_by_sku c k)" "within (catalog_step t) (sku_holder c k)"
  "within (catalog_step t) (check_sku c k' i)" "within (catalog_step t) (holder_title c k')"
  by (rule step_same; auto simp: get_variant_def all_variants_def list_variants_def variant_by_sku_def sku_holder_def check_sku_def
      holder_title_def tx_inr split: option.splits if_splits)+

section \<open>Products, brands, categories, images\<close>

lemma product_by_id:
  assumes "catalog_ok s" and "get_product_row t i s = Some p" and "q \<in> set (products s)" and "pr_id q = i"
  shows "q = p"
proof -
  have p: "p \<in> set (products s)" "pr_id p = i"
    using row_get_Some [of pr_tenant pr_id t i "products s" p] assms(2) by (auto simp: get_product_row_def)
  have "inj_on pr_id (set (products s))"
    using assms(1) unfolding catalog_ok_def products_ok_def distinct_map by blast
  then show ?thesis by (rule inj_onD) (use assms(3,4) p in \<open>simp_all only:\<close>)
qed

lemma upd_product_rows: "products (upd_product t i f s) = row_upd pr_tenant pr_id t i f (products s)"
  by (simp add: upd_product_def)

lemma upd_product_isolated: "(\<And>p. pr_tenant (f p) = pr_tenant p \<and> pr_id (f p) = pr_id p) \<Longrightarrow> within (isolated t) (writeT (upd_product t i f))"
  by (auto simp: within_def isolated_def same_def foreign_def upd_product_def others_upd keeps_key_def)

lemma upd_product_ok:
  assumes ok: "catalog_ok s" and keep: "\<And>p. pr_tenant (f p) = pr_tenant p \<and> pr_id (f p) = pr_id p"
    and new: "\<And>p. p \<in> set (products s) \<Longrightarrow> pr_tenant p = t \<Longrightarrow> pr_id p = i \<Longrightarrow> status_ok (f p) \<and> brand_ref_ok (f p) s"
    and free: "\<And>p q. p \<in> set (products s) \<Longrightarrow> pr_tenant p = t \<Longrightarrow> pr_id p = i \<Longrightarrow> q \<in> set (products s) \<Longrightarrow> same_slug (f p) q \<Longrightarrow> pr_id q = i"
  shows "catalog_ok (upd_product t i f s)"
proof (rule catalog_ok_products [OF ok])
  show "products_ok (products (upd_product t i f s))"
    unfolding upd_product_rows
  proof (rule products_ok_upd [OF _ _ free])
    show "products_ok (products s)" using ok unfolding catalog_ok_def by blast
    fix p assume p: "p \<in> set (products s)" "pr_tenant p = t" "pr_id p = i"
    show "pr_id (f p) = i \<and> status_ok (f p)" using keep [of p] new [OF p] p(3) by (simp only: simp_thms)
  qed
  have "product_key ` set (products (upd_product t i f s)) = product_key ` set (products s)"
    unfolding upd_product_rows row_upd_def set_map image_image
    by (rule image_cong) (simp_all add: product_key_def keep)
  then show "product_key ` set (products s) \<subseteq> product_key ` set (products (upd_product t i f s))" by blast
  have old: "brand_ref_ok p s" if "p \<in> set (products s)" for p
    using ok that unfolding catalog_ok_def refs_ok_def by blast
  fix p assume "p \<in> set (products (upd_product t i f s))"
  then show "brand_ref_ok p s"
    unfolding upd_product_rows by (auto dest!: row_upd_set intro: old new [THEN conjunct2])
qed (simp_all add: upd_product_def)

text \<open>Edits of a product that leave its slug, status and brand, or clear the brand.\<close>

lemma touch_products_ok:
  assumes ok: "catalog_ok s"
    and g: "\<And>p. pr_id (g p) = pr_id p \<and> pr_tenant (g p) = pr_tenant p \<and> pr_slug (g p) = pr_slug p \<and> pr_status (g p) = pr_status p \<and>
      (pr_brand (g p) = pr_brand p \<or> pr_brand (g p) = None)"
    and s': "products s' = map g (products s)" "variants s' = variants s" "brands s' = brands s"
  shows "catalog_ok s'"
proof (rule catalog_ok_products [OF ok _ s'(2,3)])
  show "products_ok (products s')"
    unfolding s'(1) by (rule products_ok_touch) (use ok g in \<open>simp_all add: catalog_ok_def\<close>)
  show "product_key ` set (products s) \<subseteq> product_key ` set (products s')"
    unfolding s'(1) using g by (simp add: product_key_def image_image)
  fix p assume "p \<in> set (products s')"
  then obtain q where q: "q \<in> set (products s)" "p = g q" unfolding s'(1) by auto
  have "brand_ref_ok q s" using ok q(1) unfolding catalog_ok_def refs_ok_def by blast
  then show "brand_ref_ok p s"
    using g [of q] unfolding q(2) brand_ref_iff by (auto split: option.splits)
qed

lemma create_product_step [catalog_steps]: "tenant_of c = t \<Longrightarrow> within (catalog_step t) (create_product c p)"
proof (rule step_ok)
  assume t: "tenant_of c = t"
  show "within (isolated t) (create_product c p)"
    using t by (auto simp: within_def isolated_def same_def foreign_def create_product_def Let_def tx_inr others_append new_product_def others_own)
  fix s x s' assume m: "create_product c p s = Inr (x, s')" and ok: "catalog_ok s"
  have new: "pr_id (new_product c p) \<notin> pr_id ` set (products s)" "product_slug_free (new_product c p) s" "brand_ref_ok (new_product c p) s"
    and s': "s' = s\<lparr>products := products s @ [new_product c p]\<rparr>"
    using m by (auto simp: create_product_def Let_def tx_inr)
  have ps: "products s' = products s @ [new_product c p]" "variants s' = variants s" "brands s' = brands s" by (simp_all add: s')
  show "catalog_ok s'"
  proof (rule catalog_ok_products [OF ok _ ps(2,3)])
    show "products_ok (products s')"
      unfolding ps(1)
    proof (rule products_ok_add [OF _ new(1)])
      show "products_ok (products s)" using ok unfolding catalog_ok_def by blast
      show "status_ok (new_product c p)" by (simp add: status_ok_def new_product_def)
    qed (rule product_slug_free_D [OF new(2)])
    show "product_key ` set (products s) \<subseteq> product_key ` set (products s')" unfolding ps(1) by auto
    fix q assume "q \<in> set (products s')"
    then show "brand_ref_ok q s" using ok new(3) unfolding ps(1) catalog_ok_def refs_ok_def by auto
  qed
qed

lemma updated_product_keeps: "pr_tenant (updated_product c p r) = pr_tenant r \<and> pr_id (updated_product c p r) = pr_id r"
  by (simp add: updated_product_def)

lemma update_product_step [catalog_steps]: "tenant_of c = t \<Longrightarrow> within (catalog_step t) (update_product c i version p)"
proof (rule step_ok)
  assume t: "tenant_of c = t"
  have iso: "within (isolated t) (writeT (upd_product t i (updated_product c p)))"
    by (rule upd_product_isolated) (simp only: updated_product_keeps)
  show "within (isolated t) (update_product c i version p)"
    unfolding update_product_def t Let_def by (intro iso.rules iso isolation)
  fix s x s' assume m: "update_product c i version p s = Inr (x, s')" and ok: "catalog_ok s"
  obtain r where r: "get_product_row t i s = Some r" and st: "status_ok (updated_product c p r)"
    and free: "product_slug_free (updated_product c p r) s" and b: "brand_ref_ok (updated_product c p r) s"
    and s': "s' = upd_product t i (updated_product c p) s"
    using m t by (auto simp: update_product_def Let_def tx_inr status_ok_def split: option.splits if_splits)
  show "catalog_ok s'"
    unfolding s'
  proof (rule upd_product_ok [OF ok updated_product_keeps])
    fix q assume q: "q \<in> set (products s)" "pr_id q = i"
    have "q = r" by (rule product_by_id [OF ok r q])
    then show "status_ok (updated_product c p q) \<and> brand_ref_ok (updated_product c p q) s" using st b by simp
    fix w assume "w \<in> set (products s)" "same_slug (updated_product c p q) w"
    with product_slug_free_D [OF free] \<open>q = r\<close> have "pr_id w = pr_id (updated_product c p r)" by blast
    then show "pr_id w = i" using updated_product_keeps [of c p r] q(2) \<open>q = r\<close> by simp
  qed
qed

text \<open>Updates of one product that keep its slug and brand.\<close>

lemma upd_product_edit:
  assumes ok: "catalog_ok s"
    and keep: "\<And>p. pr_tenant (f p) = pr_tenant p \<and> pr_id (f p) = pr_id p \<and> pr_slug (f p) = pr_slug p \<and> pr_brand (f p) = pr_brand p"
    and st: "\<And>p. p \<in> set (products s) \<Longrightarrow> pr_tenant p = t \<Longrightarrow> pr_id p = i \<Longrightarrow> status_ok p \<Longrightarrow> status_ok (f p)"
  shows "catalog_ok (upd_product t i f s)"
proof (rule upd_product_ok [OF ok])
  show "pr_tenant (f p) = pr_tenant p \<and> pr_id (f p) = pr_id p" for p using keep by blast
  have old: "products_ok (products s)" using ok unfolding catalog_ok_def by blast
  fix p assume p: "p \<in> set (products s)" "pr_tenant p = t" "pr_id p = i"
  have "brand_ref_ok p s" using ok p(1) unfolding catalog_ok_def refs_ok_def by blast
  moreover have "status_ok p" using old p(1) unfolding products_ok_def list_all_iff by blast
  ultimately show "status_ok (f p) \<and> brand_ref_ok (f p) s" using st [OF p] keep [of p] unfolding brand_ref_iff by (cases "pr_brand p") simp_all
  fix q assume q: "q \<in> set (products s)" "same_slug (f p) q"
  then have c: "same_slug p q" using keep [of p] by (simp add: same_slug_def)
  have "apart same_slug pr_id (set (products s))" using old unfolding products_ok_def by blast
  from apartD [OF this p(1) q(1) c] show "pr_id q = i" using p(3) by simp
qed

lemma archive_product_step [catalog_steps]: "tenant_of c = t \<Longrightarrow> within (catalog_step t) (archive_product c i)"
proof (rule step_ok)
  assume t: "tenant_of c = t"
  show "within (isolated t) (archive_product c i)"
    unfolding archive_product_def t by (intro iso.rules upd_product_isolated isolation) (simp add: archived_product_def)
  fix s x s' assume m: "archive_product c i s = Inr (x, s')" and ok: "catalog_ok s"
  have s': "s' = upd_product t i (archived_product c) s" using m t by (auto simp: archive_product_def tx_inr)
  show "catalog_ok s'"
    unfolding s' by (rule upd_product_edit [OF ok]) (simp_all add: archived_product_def status_ok_def)
qed

lemma bump_product_step [catalog_steps]: "tenant_of c = t \<Longrightarrow> within (catalog_step t) (bump_product c i names)"
proof (rule step_ok)
  assume t: "tenant_of c = t"
  show "within (isolated t) (bump_product c i names)"
    unfolding bump_product_def t by (intro iso.rules upd_product_isolated isolation) (simp add: bumped_product_def)
  fix s x s' assume m: "bump_product c i names s = Inr (x, s')" and ok: "catalog_ok s"
  have s': "s' = upd_product t i (bumped_product c names) s" using m t by (auto simp: bump_product_def tx_inr)
  show "catalog_ok s'"
    unfolding s' by (rule upd_product_edit [OF ok]) (simp_all add: bumped_product_def status_ok_def)
qed

lemma set_product_status_step [catalog_steps]: "tenant_of c = t \<Longrightarrow> within (catalog_step t) (set_product_status c i st)"
proof (rule step_ok)
  assume t: "tenant_of c = t"
  show "within (isolated t) (set_product_status c i st)"
    unfolding set_product_status_def t by (intro iso.rules upd_product_isolated isolation) simp
  fix s x s' assume m: "set_product_status c i st s = Inr (x, s')" and ok: "catalog_ok s"
  define f where "f = (\<lambda>r :: product. if pr_archived_at r = None
        then r\<lparr>pr_status := st, pr_version := pr_version r + 1, pr_updated_at := c_now c\<rparr> else r)"
  have s': "s' = upd_product t i f s"
    and g: "st \<in> {S_draft, S_active, S_archived} \<or> (case get_product_row t i s of None \<Rightarrow> True | Some r \<Rightarrow> pr_archived_at r \<noteq> None)"
    using m t unfolding f_def by (auto simp: set_product_status_def tx_inr)
  show "catalog_ok s'"
    unfolding s'
  proof (rule upd_product_edit [OF ok])
    fix p assume p: "p \<in> set (products s)" "pr_tenant p = t" "pr_id p = i" "status_ok p"
    have "get_product_row t i s \<noteq> None" using p by (auto simp: get_product_row_def row_get_def find_None_iff)
    then obtain r where r: "get_product_row t i s = Some r" by blast
    have "p = r" by (rule product_by_id [OF ok r p(1,3)])
    then show "status_ok (f p)" using g r p(4) by (auto simp: f_def status_ok_def)
  qed (simp add: f_def)
qed

lemma clear_product_brand_step [catalog_steps]: "tenant_of c = t \<Longrightarrow> within (catalog_step t) (clear_product_brand c b)"
proof (rule step_ok)
  assume t: "tenant_of c = t"
  define g where "g = (\<lambda>p :: product. if pr_tenant p = t \<and> pr_brand p = Some b
        then p\<lparr>pr_brand := None, pr_version := pr_version p + 1, pr_updated_at := c_now c\<rparr> else p)"
  have "others pr_tenant t (map g ps) = others pr_tenant t ps" for ps
    by (induction ps) (auto simp: others_def g_def)
  then show "within (isolated t) (clear_product_brand c b)"
    using t by (auto simp: within_def isolated_def same_def foreign_def clear_product_brand_def g_def)
  fix s x s' assume m: "clear_product_brand c b s = Inr (x, s')" and ok: "catalog_ok s"
  have s': "s' = s\<lparr>products := map g (products s)\<rparr>" using m t by (auto simp: clear_product_brand_def g_def)
  show "catalog_ok s'"
    by (rule touch_products_ok [OF ok, of g]) (simp_all add: s', simp add: g_def)
qed

lemma clear_category_products_step [catalog_steps]: "tenant_of c = t \<Longrightarrow> within (catalog_step t) (clear_category_products c i)"
proof (rule step_ok)
  assume t: "tenant_of c = t"
  define g where "g = (\<lambda>s (p :: product). if pr_tenant p = t \<and> in_category c i s (pr_id p)
        then p\<lparr>pr_version := pr_version p + 1, pr_updated_at := c_now c\<rparr> else p)"
  have "others pr_tenant t (map (g s) ps) = others pr_tenant t ps" for s ps
    by (induction ps) (auto simp: others_def g_def)
  then show "within (isolated t) (clear_category_products c i)"
    using t by (auto simp: within_def isolated_def same_def foreign_def clear_category_products_def g_def others_del Let_def)
  fix s x s' assume m: "clear_category_products c i s = Inr (x, s')" and ok: "catalog_ok s"
  have s': "products s' = map (g s) (products s)" "variants s' = variants s" "brands s' = brands s"
    using m t by (auto simp: clear_category_products_def g_def Let_def)
  show "catalog_ok s'"
    by (rule touch_products_ok [OF ok _ s']) (simp add: g_def)
qed

lemma product_links_step [catalog_steps]:
  assumes "tenant_of c = t"
  shows "within (catalog_step t) (clear_product_categories c i)" "within (catalog_step t) (add_product_categories c i ks)"
proof -
  have "others pc_tenant t (map (\<lambda>k. \<lparr>pc_tenant = t, pc_product = i, pc_category = k\<rparr>) ks) = []"
    by (simp add: others_def)
  then have "within (isolated t) (clear_product_categories c i)" "within (isolated t) (add_product_categories c i ks)"
    using assms by (auto simp: clear_product_categories_def add_product_categories_def within_def isolated_def same_def foreign_def tx_inr
        others_del others_append)
  then show "within (catalog_step t) (clear_product_categories c i)" "within (catalog_step t) (add_product_categories c i ks)"
    by (auto simp: clear_product_categories_def add_product_categories_def tx_inr elim!: step_frame)
qed

lemma create_brand_step [catalog_steps]: "tenant_of c = t \<Longrightarrow> within (catalog_step t) (create_brand pg c i n slug)"
  by (rule step_frame) (auto simp: within_def isolated_def same_def foreign_def create_brand_def Let_def tx_inr others_append others_own)

lemma upd_brand_isolated: "(\<And>b. br_tenant (f b) = br_tenant b \<and> br_id (f b) = br_id b) \<Longrightarrow> within (isolated t) (writeT (upd_brand t i f))"
  by (auto simp: within_def isolated_def same_def foreign_def upd_brand_def others_upd keeps_key_def)

lemma upd_brand_keys: "(\<And>b. br_tenant (f b) = br_tenant b \<and> br_id (f b) = br_id b) \<Longrightarrow>
    brand_key ` set (brands (upd_brand t i f s)) = brand_key ` set (brands s)"
proof -
  assume f: "\<And>b. br_tenant (f b) = br_tenant b \<and> br_id (f b) = br_id b"
  have "map brand_key (row_upd br_tenant br_id t i f (brands s)) = map brand_key (brands s)"
    by (rule row_upd_map) (simp add: brand_key_def f)
  then have "set (map brand_key (row_upd br_tenant br_id t i f (brands s))) = set (map brand_key (brands s))" by simp
  then show ?thesis unfolding upd_brand_def by simp
qed

lemma brand_updates_step [catalog_steps]:
  assumes t: "tenant_of c = t"
  shows "within (catalog_step t) (update_brand pg c i n slug)" "within (catalog_step t) (archive_brand c i)"
proof -
  have r: "br_tenant (renamed_brand pg c n slug b) = br_tenant b \<and> br_id (renamed_brand pg c n slug b) = br_id b"
    and a: "br_tenant (archived_brand c b) = br_tenant b \<and> br_id (archived_brand c b) = br_id b" for b
    by (simp_all add: renamed_brand_def archived_brand_def)
  show "within (catalog_step t) (update_brand pg c i n slug)"
  proof (rule step_frame)
    show "within (isolated t) (update_brand pg c i n slug)"
      unfolding update_brand_def t by (intro iso.rules upd_brand_isolated isolation) (rule r)
  qed (auto simp: update_brand_def tx_inr upd_brand_keys [OF r], simp_all add: upd_brand_def)
  show "within (catalog_step t) (archive_brand c i)"
  proof (rule step_frame)
    show "within (isolated t) (archive_brand c i)"
      unfolding archive_brand_def t by (intro iso.rules upd_brand_isolated isolation) (rule a)
  qed (auto simp: archive_brand_def tx_inr upd_brand_keys [OF a], simp_all add: upd_brand_def)
qed

lemma catalog_reads_step [catalog_steps]:
  "within (catalog_step t) (get_product c i)" "within (catalog_step t) (lock_product c i)"
  "within (catalog_step t) (product_slug_taken c k o')" "within (catalog_step t) (live_category_count c ks)"
  "within (catalog_step t) (product_categories_of pg c i)" "within (catalog_step t) (live_variant_count c i)"
  "within (catalog_step t) (publish_facts c i)" "within (catalog_step t) (get_brand c i)" "within (catalog_step t) (get_category c i)"
  "within (catalog_step t) (category_counts c i)" "within (catalog_step t) (lock_categories c)"
  "within (catalog_step t) (get_media c i)" "within (catalog_step t) (get_media_by_key c i k)"
  "within (catalog_step t) (list_product_media c i)" "within (catalog_step t) (live_variant_of_product c i j)"
  "within (catalog_step t) (media_key_in_use c k)" "within (catalog_step t) (guardT p e)" "within (catalog_step t) (oneT g)"
  by (rule step_same; auto simp: get_product_def lock_product_def product_slug_taken_def live_category_count_def product_categories_of_def
      live_variant_count_def publish_facts_def get_brand_def get_category_def category_counts_def lock_categories_def get_media_def
      get_media_by_key_def list_product_media_def live_variant_of_product_def media_key_in_use_def)+

lemma audit_step [catalog_steps]: "tenant_of c = t \<Longrightarrow> within (catalog_step t) (audit c e)"
  by (rule step_frame [OF audit_isolated]) auto

lemma create_job_step [catalog_steps]: "tenant_of c = t \<Longrightarrow> within (catalog_step t) (create_job c i k p b)"
  by (rule step_frame) (auto simp: create_job_def tx_inr within_def isolated_def same_def foreign_def others_append others_own new_job_def)

lemma job_writes_step [catalog_steps]:
  assumes t: "tenant_of c = t"
  shows "within (catalog_step t) (checkpoint_job c i n k r)" and "within (catalog_step t) (job_progress c i n n' k)"
  by (rule step_frame; use t in \<open>auto simp: checkpoint_job_def job_progress_def tx_inr within_def isolated_def same_def foreign_def
      upd_job_def others_upd keeps_key_def\<close>)+

lemma category_writes_isolated:
  assumes "tenant_of c = t"
  shows "within (isolated t) (create_category pg c i p k n l)" "within (isolated t) (archive_category c i)"
  using assms by (auto simp: create_category_def archive_category_def tx_inr within_def isolated_def same_def foreign_def Let_def others_append
      new_category_def others_own category_checks_def upd_category_def others_upd keeps_key_def)

lemma update_category_isolated:
  assumes "tenant_of c = t"
  shows "within (isolated t) (update_category pg c i u)"
proof (rule withinI)
  fix s x s' assume "update_category pg c i u s = Inr (x, s')"
  then obtain r p where r: "get_category_row t i s = Some r"
    and s': "s' = move_subtree (cg_path r) ((edited_category c u r)\<lparr>cg_path := p\<rparr>) (upd_category t i (\<lambda>_. (edited_category c u r)\<lparr>cg_path := p\<rparr>) s)"
    using assms by (auto simp: update_category_def tx_inr Let_def category_checks_def)
  define r2 where "r2 = (edited_category c u r)\<lparr>cg_path := p\<rparr>"
  have t: "cg_tenant r2 = t"
    using r row_get_Some [of cg_tenant cg_id t i "categories s" r] by (simp add: get_category_row_def r2_def edited_category_def)
  have "others cg_tenant t (map (rebased o' r2) cs) = others cg_tenant t cs" for o' cs
    using t by (induction cs) (auto simp: others_def rebased_def)
  moreover have "others cg_tenant t (row_upd cg_tenant cg_id t i (\<lambda>_. r2) cs) = others cg_tenant t cs" for cs
    using t by (induction cs) (auto simp: others_def row_upd_def)
  ultimately show "isolated t s s'"
    unfolding s' r2_def [symmetric] by (simp add: isolated_def same_def foreign_def move_subtree_def upd_category_def)
qed

lemma category_writes_step [catalog_steps]:
  assumes t: "tenant_of c = t"
  shows "within (catalog_step t) (create_category pg c i p k n l)" "within (catalog_step t) (archive_category c i)"
    "within (catalog_step t) (update_category pg c i u)"
  by (rule step_frame [OF category_writes_isolated(1) [OF t]], auto simp: create_category_def tx_inr Let_def category_checks_def)
    (rule step_frame [OF category_writes_isolated(2) [OF t]], auto simp: archive_category_def tx_inr upd_category_def,
     rule step_frame [OF update_category_isolated [OF t]],
     auto simp: update_category_def tx_inr Let_def category_checks_def upd_category_def move_subtree_def)

lemma media_writes_step [catalog_steps]:
  assumes t: "tenant_of c = t"
  shows "within (catalog_step t) (create_media c p)" "within (catalog_step t) (delete_media c i)"
    "within (catalog_step t) (set_media_position c i k)" "within (catalog_step t) (set_media_variant c i v)"
  by (rule step_frame; use t in \<open>auto simp: create_media_def delete_media_def set_media_position_def set_media_variant_def tx_inr within_def
      isolated_def same_def foreign_def upd_medium_def others_upd keeps_key_def others_append others_own new_medium_def others_del split: if_splits\<close>)+

section \<open>Operations\<close>

lemma free_slug_step [catalog_steps]: "within (catalog_step t) (free_slug pg c n)"
  by (rule step_same) (auto simp: free_slug_def split: option.splits)

lemma publish_check_step [catalog_steps]: "within (catalog_step t) (publish_check c i)"
  unfolding publish_check_def Let_def by (intro cat.rules catalog_steps)

lemma product_parts_step [catalog_steps]:
  assumes "tenant_of c = t"
  shows "within (catalog_step t) (check_refs c b ks)" "within (catalog_step t) (set_categories c i ks)" "within (catalog_step t) (product_media fl c i)"
  unfolding check_refs_def set_categories_def product_media_def using assms by (intro cat.rules catalog_steps; assumption)+

lemma variant_ops_step [catalog_steps]:
  assumes t: "tenant_of c = t"
  shows "within (catalog_step t) (create_variant_tx c i j os f)" "within (catalog_step t) (update_variant_tx c i n f)"
    "within (catalog_step t) (archive_variant_tx c i)"
  unfolding create_variant_tx_def update_variant_tx_def archive_variant_tx_def Let_def
  by (intro cat.rules catalog_steps t)+

lemma product_ops_step [catalog_steps]:
  assumes t: "tenant_of c = t"
  shows "within (catalog_step t) (create_product_tx pg c i n inp)" "within (catalog_step t) (update_product_tx c i k p)"
    "within (catalog_step t) (archive_product_tx c i)" "within (catalog_step t) (get_product_tx pg fl c i)"
  unfolding create_product_tx_def update_product_tx_def archive_product_tx_def get_product_tx_def Let_def
  by (intro cat.rules catalog_steps t)+

lemma brand_ops_step [catalog_steps]:
  assumes t: "tenant_of c = t"
  shows "within (catalog_step t) (create_brand_tx pg c i n slug)" "within (catalog_step t) (rename_brand_tx pg c i n' slug)"
    "within (catalog_step t) (archive_brand_tx c i)"
  unfolding create_brand_tx_def rename_brand_tx_def archive_brand_tx_def
  by (intro cat.rules catalog_steps t)+

lemma check_parent_step [catalog_steps]: "within (catalog_step t) (check_parent c p k)"
  unfolding check_parent_def by (intro cat.rules catalog_steps)

lemma category_ops_step [catalog_steps]:
  assumes t: "tenant_of c = t"
  shows "within (catalog_step t) (create_category_tx pg c i n k p l)" "within (catalog_step t) (update_category_tx pg c i u)"
    "within (catalog_step t) (archive_category_tx c i)"
  unfolding create_category_tx_def update_category_tx_def archive_category_tx_def
  by (intro cat.rules catalog_steps t)+

lemma media_parts_step [catalog_steps]: "within (catalog_step t) (live_product c i)" "within (catalog_step t) (variant_of c i v)"
  unfolding live_product_def variant_of_def by (intro cat.rules catalog_steps)+

lemma set_positions_step [catalog_steps]: "tenant_of c = t \<Longrightarrow> within (catalog_step t) (set_positions c k is)"
  by (induction c k "is" rule: set_positions.induct) (auto intro!: cat.rules catalog_steps)

lemma media_ops_step [catalog_steps]:
  assumes t: "tenant_of c = t"
  shows "within (catalog_step t) (confirm_media_tx c i j p k v m n)" "within (catalog_step t) (attach_media_tx c i v)"
    "within (catalog_step t) (delete_media_tx c i)" "within (catalog_step t) (order_media_tx st c p ids)"
  unfolding confirm_media_tx_def attach_media_tx_def delete_media_tx_def order_media_tx_def Let_def
  by (intro cat.rules catalog_steps t)+

lemma matrix_row_step [catalog_steps]: "tenant_of c = t \<Longrightarrow> within (catalog_step t) (matrix_row_tx c pid i row live arch)"
  unfolding matrix_row_tx_def apply_row_def save_fields_def Let_def by (intro cat.rules catalog_steps)

lemma save_matrix_step [catalog_steps]: "tenant_of c = t \<Longrightarrow> within (catalog_step t) (save_matrix_tx pick c pid n names rows am)"
  unfolding save_matrix_tx_def Let_def by (intro cat.rules catalog_steps)

lemma bulk_parts_step [catalog_steps]:
  assumes t: "tenant_of c = t"
  shows "within (catalog_step t) (bulk_status c i st)" "within (catalog_step t) (existing_sku c k)"
  unfolding bulk_status_def existing_sku_def by (intro cat.rules catalog_steps t)+

lemma bulk_create_step [catalog_steps]: "tenant_of c = t \<Longrightarrow> within (catalog_step t) (bulk_create pg c i j item)"
  unfolding bulk_create_def by (intro cat.rules catalog_steps)

lemma bulk_row_step [catalog_steps]: "tenant_of c = t \<Longrightarrow> within (catalog_step t) (bulk_row pg c b k x)"
  unfolding bulk_row_def bulk_apply_def by (intro cat.rules catalog_steps)

lemma bulk_step [catalog_steps]: "tenant_of c = t \<Longrightarrow> within (catalog_step t) (bulk_tx pg c oc items)"
  unfolding bulk_tx_def Let_def by (intro cat.rules catalog_steps)

subsection \<open>The import\<close>

lemma import_parts_step [catalog_steps]:
  assumes t: "tenant_of c = t"
  shows "within (catalog_step t) (update_existing c b k f v)" "within (catalog_step t) (import_product L c i title names)"
    "within (catalog_step t) (import_variant c i j os f)" "within (catalog_step t) (start_import_tx c i ps)"
  unfolding update_existing_def import_product_def import_variant_def start_import_tx_def by (intro cat.rules catalog_steps t)+

lemma import_row_step:
  assumes t: "tenant_of c = t" and r: "import_row_op L c b names i j r seen s = (Inr (what, s'), seen')"
  shows "catalog_step t s s'"
proof -
  note up = withinD [OF import_parts_step(1) [OF t]] and pr = withinD [OF import_parts_step(2) [OF t]] and va = withinD [OF import_parts_step(3) [OF t]]
  from r show ?thesis
    by (auto simp: import_row_op_def Let_def split: sum.splits option.splits prod.splits if_splits
        intro: up va cat.R_trans [OF pr va])
qed

lemma import_rows_step:
  "tenant_of c = t \<Longrightarrow> import_rows L c b names rows seen st s = (st', s') \<Longrightarrow> catalog_step t s s'"
proof (induction L c b names rows seen st s rule: import_rows.induct)
  case (1 L c b names seen st s)
  then show ?case by (simp add: cat.R_refl)
next
  case (2 L c b names i j r rows seen st s)
  obtain res seen' where r: "import_row_op L c b names i j r seen s = (res, seen')" by (cases "import_row_op L c b names i j r seen s")
  show ?case
  proof (cases res)
    case (Inl e)
    then show ?thesis using 2(1) [OF r [symmetric] Inl 2(3)] 2(4) r by simp
  next
    case (Inr p)
    obtain what s1 where p: "p = (what, s1)" by (cases p)
    have "catalog_step t s1 s'" using 2(2) [OF r [symmetric] Inr p [symmetric] 2(3)] 2(4) r Inr p by simp
    moreover have "catalog_step t s s1" using import_row_step [OF 2(3)] r Inr p by blast
    ultimately show ?thesis by (rule cat.R_trans [rotated])
  qed
qed

lemma import_batch_step [catalog_steps]: "tenant_of c = t \<Longrightarrow> within (catalog_step t) (import_batch_tx L c i b names rows n st)"
proof (rule withinI)
  fix s x s' assume t: "tenant_of c = t" and m: "import_batch_tx L c i b names rows n st s = Inr (x, s')"
  obtain st1 s1 where r: "import_rows L c b names rows [] st s = (st1, s1)" by (cases "import_rows L c b names rows [] st s")
  then obtain s2 where "checkpoint_job c i (wrap32 (int n)) (wrap32 (int (length (is_errors st1)))) (Some (state_dyn st1)) s1 = Inr ((), s2)" "s' = s2"
    using m by (auto simp: import_batch_tx_def tx_inr)
  with withinD [OF job_writes_step(1) [OF t]] import_rows_step [OF t r] show "catalog_step t s s'"
    by (blast intro: cat.R_trans)
qed

text \<open>What an operation around a transaction leaves.\<close>

lemma tx_step: "within (catalog_step t) m \<Longrightarrow> catalog_step t s (snd (in_tenant_tx c m s))"
  by (rule in_tenant_tx_within [OF cat.tx_relation_axioms])

lemma tx_step_eq: "within (catalog_step t) m \<Longrightarrow> in_tenant_tx c m s = (x, s') \<Longrightarrow> catalog_step t s s'"
  using tx_step [of t m s c] by simp

lemma import_loop_step:
  "tenant_of c = t \<Longrightarrow> catalog_step t s (snd (import_loop L c i b names rows already spans st s))"
proof (induction spans arbitrary: st s)
  case Nil
  then show ?case by (simp add: cat.R_refl)
next
  case (Cons sp spans)
  obtain a z where sp: "sp = (a, z)" by (cases sp)
  let ?m = "import_batch_tx L c i b names (take (z - a) (drop a rows)) z st"
  show ?case
  proof (cases "int z \<le> already")
    case True
    then show ?thesis using Cons sp by simp
  next
    case False
    obtain x s1 where m: "in_tenant_tx c ?m s = (x, s1)" by (cases "in_tenant_tx c ?m s")
    have one: "catalog_step t s s1" by (rule tx_step_eq [OF import_batch_step [OF Cons.prems] m])
    show ?thesis
      using False sp m one Cons.IH [OF Cons.prems, where s = s1] by (cases x) (auto intro: cat.R_trans)
  qed
qed

lemma import_handler_step:
  assumes t: "tenant_of c = t"
  shows "catalog_step t s (snd (import_handler L io c job s))"
proof -
  have "catalog_step t s s2" if "in_tenant_tx c (job_progress c a b d e) s = (x, s1)" "import_loop L c i f names rows al spans st s1 = (y, s2)"
    for a b d e x s1 i f names rows al spans st y s2
    using tx_step_eq [OF job_writes_step(2) [OF t] that(1)] import_loop_step [OF t, of s1 L i f names rows al spans st] that(2)
    by (auto intro: cat.R_trans)
  then show ?thesis
    using tx_step_eq [OF job_writes_step(2) [OF t]] cat.R_refl [of t s]
    by (auto simp: import_handler_def Let_def split: option.splits sum.splits prod.splits)
qed

section \<open>Every write of the catalog\<close>

text \<open>The requests of the admin's catalog routes and of the import worker, with the values drawn for them.\<close>

datatype catalog_request =
    Create_Product uuid product_input | Update_Product uuid int product_patch | Archive_Product uuid
  | Create_Variant uuid uuid "string list" variant_fields | Update_Variant uuid int variant_fields | Archive_Variant uuid
  | Save_Matrix "variant list \<Rightarrow> variant list" uuid int "string list" "(uuid \<times> matrix_row) list" bool
  | Bulk string "(uuid \<times> uuid \<times> bulk_item) list"
  | Create_Brand uuid string "string option" | Rename_Brand uuid "string option" "string option" | Archive_Brand uuid
  | Create_Category uuid string string "uuid option" "string option" | Update_Category uuid category_update | Archive_Category uuid
  | Confirm_Media uuid uuid uuid string "uuid option" | Attach_Media uuid "uuid option" | Delete_Media uuid | Order_Media uuid "uuid list"
  | Start_Import "err option" import_params | Run_Import import_io job

record catalog_lib =
  cl_pg :: pg_text
  cl_lower :: "string \<Rightarrow> string"
  cl_quote :: "string \<Rightarrow> string"
  cl_store :: object_store

definition cl_import :: "catalog_lib \<Rightarrow> import_lib" where
  "cl_import K = \<lparr>il_lower = cl_lower K, il_quote = cl_quote K, il_pg = cl_pg K\<rparr>"

fun catalog_write :: "catalog_lib \<Rightarrow> ctx \<Rightarrow> catalog_request \<Rightarrow> db \<Rightarrow> db" where
  "catalog_write K c (Create_Product i inp) s = snd (create_product_op (cl_pg K) (os_files (cl_store K)) c i inp s)"
| "catalog_write K c (Update_Product i n p) s = snd (update_product_op (cl_pg K) (os_files (cl_store K)) c i n p s)"
| "catalog_write K c (Archive_Product i) s = snd (archive_product_op c i s)"
| "catalog_write K c (Create_Variant i p vs f) s = snd (create_variant_op c i p vs f s)"
| "catalog_write K c (Update_Variant i n f) s = snd (update_variant_op c i n f s)"
| "catalog_write K c (Archive_Variant i) s = snd (archive_variant_op c i s)"
| "catalog_write K c (Save_Matrix pick i n names rows am) s = snd (save_matrix (cl_lower K) pick c i n names rows am s)"
| "catalog_write K c (Bulk oc items) s = snd (bulk (cl_pg K) c oc items s)"
| "catalog_write K c (Create_Brand i n slug) s = snd (create_brand_op (cl_pg K) c i n slug s)"
| "catalog_write K c (Rename_Brand i n slug) s = snd (rename_brand_op (cl_pg K) c i n slug s)"
| "catalog_write K c (Archive_Brand i) s = snd (archive_brand_op c i s)"
| "catalog_write K c (Create_Category i n k p l) s = snd (create_category_op (cl_pg K) c i n k p l s)"
| "catalog_write K c (Update_Category i u) s = snd (update_category_op (cl_pg K) c i u s)"
| "catalog_write K c (Archive_Category i) s = snd (archive_category_op c i s)"
| "catalog_write K c (Confirm_Media i j p k v) s = snd (confirm_media (cl_store K) c i j p k v s)"
| "catalog_write K c (Attach_Media i v) s = snd (attach_media (cl_store K) c i v s)"
| "catalog_write K c (Delete_Media i) s = snd (delete_media_op (cl_store K) c i s)"
| "catalog_write K c (Order_Media p ids) s = snd (order_media (cl_store K) c p ids s)"
| "catalog_write K c (Start_Import q p) s = snd (start_import (cl_import K) (cl_store K) q c p s)"
| "catalog_write K c (Run_Import io job) s = snd (import_handler (cl_import K) io c job s)"

lemma op_step:
  assumes "within (catalog_step t) m" and "\<And>x s'. in_tenant_tx c m s = (x, s') \<Longrightarrow> r = s'"
  shows "catalog_step t s r"
  using assms(2) [OF surjective_pairing] tx_step [OF assms(1)] by simp

lemma get_product_op_same: "snd (get_product_op pg fl c i s) = s"
proof -
  have "s' = s" if "get_product_tx pg fl c i s = Inr (x, s')" for x s'
    using that by (auto simp: get_product_tx_def tx_inr get_product_def get_brand_def product_categories_of_def live_variant_count_def
        product_media_def list_product_media_def split: option.splits)
  then show ?thesis
    by (auto simp: get_product_op_def in_tenant_tx_def run_tx_def split: option.splits sum.splits)
qed

lemma catalog_write_step: "tenant_of c = t \<Longrightarrow> catalog_step t s (catalog_write K c req s)"
proof (induction K c req s rule: catalog_write.induct)
  case (1 K c i inp s)
  then show ?case
    using tx_step [OF product_ops_step(1) [OF 1], of s c "cl_pg K" i "trim_space (pi_title inp)" inp]
    by (auto simp: create_product_op_def Let_def get_product_op_same cat.R_refl split: prod.splits sum.splits)
next
  case (2 K c i n p s)
  then show ?case
    using tx_step [OF product_ops_step(2) [OF 2], of s c i n "p\<lparr>pp_title := map_option trim_space (pp_title p)\<rparr>"]
    by (auto simp: update_product_op_def Let_def get_product_op_same cat.R_refl split: prod.splits sum.splits option.splits)
next
  case (20 K c io job s)
  then show ?case by (simp add: import_handler_step)
qed (auto simp: archive_product_op_def create_variant_op_def update_variant_op_def archive_variant_op_def save_matrix_def bulk_def
    create_brand_op_def rename_brand_op_def archive_brand_op_def create_category_op_def update_category_op_def archive_category_op_def
    confirm_media_def attach_media_def delete_media_op_def order_media_def start_import_def Let_def cat.R_refl
    intro!: tx_step catalog_steps split: option.splits sum.splits prod.splits dest!: tx_step_eq [rotated])

fun catalog_run :: "catalog_lib \<Rightarrow> (ctx \<times> catalog_request) list \<Rightarrow> db \<Rightarrow> db" where
  "catalog_run K [] s = s"
| "catalog_run K ((c, req) # rs) s = catalog_run K rs (catalog_write K c req s)"

text \<open>C6. Catalogs stay well formed: whatever requests of whatever shops are served, in any order and whether they
  succeed or fail, every variant has a price and weight that are not negative, a sale price below the regular one and a
  sale window that ends after it starts; no two variants of a shop share a SKU and no two live variants of a product
  their options; no two products of a shop share a slug, every status is one of the three, and every variant and brand
  reference names a row of the same shop (BR-004, BR-037, BR-039, BR-040, BR-046). The requests are those of products,
  variants, the variant matrix, the bulk edit, brands, categories, images and the CSV import with its worker.\<close>

theorem catalog_well_formed:
  assumes "catalog_ok s"
  shows "catalog_ok (catalog_run K rs s)"
  using assms
proof (induction K rs s rule: catalog_run.induct)
  case (2 K c req rs s)
  then show ?case using catalog_write_step [OF refl, of c s K req] by (simp add: catalog_step_def)
qed simp

definition no_objects :: object_store where
  "no_objects = \<lparr>os_head = (\<lambda>_. Inl not_found_object), os_sign = (\<lambda>k _. Inr k), os_files = \<lparr>fl_url = (\<lambda>k. k), fl_keys = (\<lambda>_. [])\<rparr>\<rparr>"

definition sample_catalog_lib :: catalog_lib where
  "sample_catalog_lib = \<lparr>cl_pg = ascii_pg, cl_lower = map ascii_lower, cl_quote = (\<lambda>x. x), cl_store = no_objects\<rparr>"

definition sample_product :: product where
  "sample_product = \<lparr>pr_id = 20, pr_tenant = 1, pr_title = ''Kopi Gayo'', pr_slug = ''kopi-gayo'', pr_description = None, pr_brand = None,
     pr_status = S_active, pr_attributes = ''{}'', pr_option_names = [], pr_version = 1, pr_archived_at = None, pr_created_at = 0, pr_updated_at = 0\<rparr>"

definition sample_variant :: variant where
  "sample_variant = \<lparr>va_id = 30, va_tenant = 1, va_product = 20, va_sku = Some ''KG-1'', va_barcode = None, va_option_values = [],
     va_regular_price = 9500000, va_sale_price = Some 9000000, va_sale_starts_at = Some 50, va_sale_ends_at = Some 500, va_currency = ''IDR'',
     va_weight_grams = 250, va_archived_at = None, va_version = 1, va_created_at = 0, va_updated_at = 0\<rparr>"

definition sample_catalog :: db where
  "sample_catalog = empty_db\<lparr>products := [sample_product], variants := [sample_variant]\<rparr>"

lemma sample_catalog_ok: "catalog_ok sample_catalog"
  by (simp add: catalog_ok_def variants_ok_def products_ok_def refs_ok_def apart_def sample_catalog_def empty_db_def sample_variant_def
      sample_product_def variant_ok_def price_ok_def sale_ok_def window_ok_def weight_ok_def status_ok_def brand_ref_ok_def)

theorem catalog_well_formed_witness:
  "catalog_ok (catalog_run sample_catalog_lib [(shop_ctx, Archive_Variant 30), (shop_ctx, Archive_Product 20)] sample_catalog) \<and>
   map va_archived_at (variants (catalog_run sample_catalog_lib [(shop_ctx, Archive_Variant 30), (shop_ctx, Archive_Product 20)] sample_catalog)) = [Some 100]"
proof (rule conjI)
  show "catalog_ok (catalog_run sample_catalog_lib [(shop_ctx, Archive_Variant 30), (shop_ctx, Archive_Product 20)] sample_catalog)"
    by (rule catalog_well_formed [OF sample_catalog_ok])
qed (simp add: archive_variant_op_def archive_product_op_def archive_variant_tx_def archive_product_tx_def archive_variant_def archive_product_def
    in_tenant_tx_def shop_ctx_def tx_eval sample_catalog_def tenant_of_def get_variant_row_def get_product_row_def row_get_def sample_variant_def
    upd_variant_def upd_product_def row_upd_def archived_variant_def or_else_def audit_def sample_product_def)


end
