(* ===== verification/Trims.thy ===== *)
theory Trims
  imports GoStrings
begin

text \<open>\<open>strings.TrimSpace\<close> on texts that begin and end with a visible ASCII character: nothing is trimmed.\<close>

definition visible_ascii :: "char \<Rightarrow> bool" where
  "visible_ascii ch \<longleftrightarrow> 32 < (of_char ch :: nat) \<and> (of_char ch :: nat) < 128"

lemma space_heads: "list_all (\<lambda>p. p \<noteq> [] \<and> \<not> visible_ascii (hd p)) (space_runes @ map rev space_runes)"
  by (simp add: space_runes_def visible_ascii_def)

lemma strip_one_visible: "visible_ascii ch \<Longrightarrow> set rs \<subseteq> set (space_runes @ map rev space_runes) \<Longrightarrow> strip_one rs (ch # s) = None"
  using space_heads unfolding list_all_iff strip_one_def find_None_iff option.map_disc_iff prefix_def neq_Nil_conv
  by (metis append_Cons list.inject list.sel(1) subsetD)

lemma trim_space_visible: "s \<noteq> [] \<Longrightarrow> visible_ascii (hd s) \<Longrightarrow> visible_ascii (last s) \<Longrightarrow> trim_space s = s"
  using strip_one_visible [of "hd s" space_runes "tl s"] strip_one_visible [of "last s" "map rev space_runes" "rev (butlast s)"]
  by (simp add: trim_space_def strip_all_fixed) (cases s rule: rev_cases; simp add: strip_all_fixed)

end
