(* ===== verification/ImportRuns.thy ===== *)
theory ImportRuns
  imports Import Trims "HOL-Library.Multiset"
begin

text \<open>
  The import's batches and its restarts (BR-044, BR-060): no product is split over two batches, and a job that is
  killed between two batches and delivered again ends as if it had not been.\<close>

section \<open>Groups\<close>

lemma firsts_set: "set (firsts seen ks) = set ks - set seen"
  by (induction seen ks rule: firsts.induct) auto

lemma firsts_distinct: "distinct (firsts seen ks)"
  by (induction seen ks rule: firsts.induct) (auto simp: firsts_set)

lemma filter_mset_split: "mset rows = mset (group_of key rows k) + mset (filter (\<lambda>r. key r \<noteq> k) rows)"
  by (simp add: group_of_def)

lemma groups_mset: "distinct ks \<Longrightarrow> key ` set rows \<subseteq> set ks \<Longrightarrow> mset (concat (map (group_of key rows) ks)) = mset rows"
proof (induction ks arbitrary: rows)
  case Nil
  then show ?case by simp
next
  case (Cons k ks)
  let ?rest = "filter (\<lambda>r. key r \<noteq> k) rows"
  have same: "group_of key ?rest j = group_of key rows j" if "j \<in> set ks" for j
    using that Cons.prems(1) by (auto simp: group_of_def intro!: filter_cong)
  have "mset (concat (map (group_of key ?rest) ks)) = mset ?rest"
    by (rule Cons.IH) (use Cons.prems in auto)
  moreover have "map (group_of key ?rest) ks = map (group_of key rows) ks"
    by (rule map_cong [OF refl same])
  ultimately have "mset (concat (map (group_of key rows) ks)) = mset ?rest" by (simp only:)
  then have "mset (concat (map (group_of key rows) (k # ks))) = mset (group_of key rows k) + mset ?rest"
    by (simp only: list.map concat.simps mset_append)
  then show ?case unfolding filter_mset_split [where rows = rows and key = key and k = k, symmetric] .
qed

lemma grouped_mset: "mset (grouped key rows) = mset rows"
  unfolding grouped_def by (rule groups_mset) (simp_all add: firsts_distinct firsts_set)

text \<open>The spans of consecutive runs of sizes.\<close>

fun spans_of :: "nat \<Rightarrow> nat list list \<Rightarrow> (nat \<times> nat) list" where
  "spans_of start [] = []"
| "spans_of start (g # gs) = (start, start + sum_list g) # spans_of (start + sum_list g) gs"

definition batch_ok :: "nat list \<Rightarrow> bool" where
  "batch_ok g \<longleftrightarrow> g \<noteq> [] \<and> (sum_list g \<le> import_batch_size \<or> length g = 1)"

lemma cut_spans_shape:
  assumes "start = a + sum_list g" and "batch_ok g"
  shows "\<exists>gs. cut_spans ((a, start) # rest) start ns = rev rest @ spans_of a gs \<and> concat gs = g @ ns \<and> list_all batch_ok gs"
  using assms
proof (induction ns arbitrary: a g start rest)
  case Nil
  show ?case by (rule exI [of _ "[g]"]) (use Nil in simp)
next
  case (Cons n ns)
  show ?case
  proof (cases "start + n - a \<le> import_batch_size")
    case True
    have "batch_ok (g @ [n])" using True Cons.prems by (simp add: batch_ok_def)
    from Cons.IH [OF _ this, of "start + n" a rest] show ?thesis
      using True Cons.prems by (simp add: add.assoc)
  next
    case False
    have "batch_ok [n]" by (simp add: batch_ok_def)
    from Cons.IH [OF _ this, of "start + n" start "(a, start) # rest"] obtain gs where
      "cut_spans ((start, start + n) # (a, start) # rest) (start + n) ns = rev ((a, start) # rest) @ spans_of start gs"
      "concat gs = [n] @ ns" "list_all batch_ok gs"
      by auto
    then show ?thesis
      using False Cons.prems by (intro exI [of _ "g # gs"]) simp
  qed
qed

lemma import_spans_shape: "\<exists>gs. cut_spans [] 0 ns = spans_of 0 gs \<and> concat gs = ns \<and> list_all batch_ok gs"
proof (cases ns)
  case Nil
  then show ?thesis by (intro exI [of _ "[]"]) simp
next
  case (Cons n ms)
  have "batch_ok [n]" by (simp add: batch_ok_def)
  from cut_spans_shape [OF _ this, of n 0 "[]" ms] show ?thesis using Cons by simp
qed

lemma concat_of_map: "concat gs = map f ks \<Longrightarrow> \<exists>kss. gs = map (map f) kss \<and> concat kss = ks"
proof (induction gs arbitrary: ks)
  case Nil
  then show ?case by (intro exI [of _ "[]"]) simp
next
  case (Cons g gs)
  have g: "g = map f (take (length g) ks)"
    using Cons.prems by (metis append_eq_conv_conj concat.simps(2) take_map)
  have "concat gs = map f (drop (length g) ks)"
    using Cons.prems by (metis append_eq_conv_conj concat.simps(2) drop_map)
  from Cons.IH [OF this] obtain kss where "gs = map (map f) kss" "concat kss = drop (length g) ks" by blast
  then show ?case using g by (intro exI [of _ "take (length g) ks # kss"]) simp
qed

definition slice :: "'r list \<Rightarrow> nat \<times> nat \<Rightarrow> 'r list" where
  "slice rows sp = take (snd sp - fst sp) (drop (fst sp) rows)"

lemma spans_slices:
  "map (slice (pre @ concat (map grp (concat kss)))) (spans_of (length pre) (map (map (length \<circ> grp)) kss)) = map (\<lambda>g. concat (map grp g)) kss"
proof (induction kss arbitrary: pre)
  case (Cons g kss)
  have len: "sum_list (map (length \<circ> grp) g) = length (concat (map grp g))"
    by (simp add: length_concat)
  have "map (slice (pre @ concat (map grp (concat (g # kss))))) (spans_of (length pre + length (concat (map grp g))) (map (map (length \<circ> grp)) kss))
      = map (\<lambda>g. concat (map grp g)) kss"
    using Cons [of "pre @ concat (map grp g)"] by (simp only: append_assoc concat.simps map_append concat_append length_append)
  then show ?case
    unfolding list.map spans_of.simps len by (simp add: slice_def)
qed simp

lemma batches_are_groups:
  assumes "import_batches key rows = (srt, spans)"
  shows "\<exists>kss. map (slice srt) spans = map (\<lambda>g. concat (map (group_of key rows) g)) kss \<and> concat kss = firsts [] (map key rows) \<and>
     spans = spans_of 0 (map (map (length \<circ> group_of key rows)) kss) \<and> list_all (\<lambda>g. batch_ok (map (length \<circ> group_of key rows) g)) kss"
proof -
  let ?ks = "firsts [] (map key rows)" and ?len = "length \<circ> group_of key rows"
  obtain gs where gs: "spans = spans_of 0 gs" "concat gs = map ?len ?ks" "list_all batch_ok gs"
    using assms import_spans_shape [of "map ?len ?ks"] by (auto simp: import_batches_def comp_def)
  from concat_of_map [OF gs(2)] obtain kss where kss: "gs = map (map ?len) kss" "concat kss = ?ks" by blast
  have "srt = [] @ concat (map (group_of key rows) (concat kss))"
    using assms kss(2) by (simp add: import_batches_def grouped_def)
  then have "map (slice srt) spans = map (\<lambda>g. concat (map (group_of key rows) g)) kss"
    using spans_slices [of "[]" "group_of key rows" kss] gs(1) kss(1) by simp
  with gs kss show ?thesis by (auto simp: list_all_iff)
qed

text \<open>The batches never split a product (BR-044): the rows are reordered but none is lost, added or changed; the
  batches, one after another, are made of whole groups (all the rows of a title), the groups in the order in which
  their titles first appear, each in exactly one batch; and a batch has at most 500 rows unless it is one group.\<close>

theorem import_batches_whole:
  "\<exists>batches. map (slice (fst (import_batches key rows))) (snd (import_batches key rows)) = map (\<lambda>b. concat (map (group_of key rows) b)) batches \<and>
     concat batches = firsts [] (map key rows) \<and> distinct (concat batches) \<and> mset (fst (import_batches key rows)) = mset rows \<and>
     list_all (\<lambda>b. b \<noteq> [] \<and> (length (concat (map (group_of key rows) b)) \<le> import_batch_size \<or> length b = 1)) batches"
proof -
  obtain srt spans where ib: "import_batches key rows = (srt, spans)" by (cases "import_batches key rows")
  from batches_are_groups [OF ib] obtain kss where k: "map (slice srt) spans = map (\<lambda>g. concat (map (group_of key rows) g)) kss"
    "concat kss = firsts [] (map key rows)" "list_all (\<lambda>g. batch_ok (map (length \<circ> group_of key rows) g)) kss" by blast
  have "list_all (\<lambda>b. b \<noteq> [] \<and> (length (concat (map (group_of key rows) b)) \<le> import_batch_size \<or> length b = 1)) kss"
    using k(3) by (simp add: batch_ok_def list_all_iff length_concat comp_def)
  moreover have "mset srt = mset rows" using ib grouped_mset [of key rows] by (simp add: import_batches_def)
  moreover have "distinct (concat kss)" unfolding k(2) by (rule firsts_distinct)
  ultimately show ?thesis unfolding ib fst_conv snd_conv by (intro exI [of _ kss] conjI k(1,2))
qed

section \<open>Restarts\<close>

text \<open>What a job's row stores of the tally is the tally.\<close>

lemma dyn_state_dyn: "dyn_state (Some (state_dyn st)) = st"
  by (cases st) (simp add: dyn_state_def state_dyn_def dyn_int_def dyn_error_def dyn_text_def case_prod_beta comp_def)

text \<open>The rows' own work leaves the jobs alone.\<close>

abbreviation keeps_jobs :: "(err, db, 'a) tx \<Rightarrow> bool" where
  "keeps_jobs m \<equiv> within (same jobs) m"

lemma keeps_jobsI: "(\<And>s x s'. m s = Inr (x, s') \<Longrightarrow> jobs s' = jobs s) \<Longrightarrow> keeps_jobs m"
  by (auto simp: within_def same_def)

lemma guard_keeps_jobs: "keeps_jobs (guardT p e)" "keeps_jobs (oneT g)" "keeps_jobs (free_slug pg c n)" "keeps_jobs (holder_title c k)"
  by (rule keeps_jobsI; auto simp: free_slug_def holder_title_def split: option.splits)+

lemma write_keeps_jobs: "(\<And>s. jobs (g s) = jobs s) \<Longrightarrow> keeps_jobs (writeT g)"
  by (rule keeps_jobsI) auto

lemma checks_keep_jobs: "keeps_jobs (variant_checks v)" "keeps_jobs (variant_unique v)"
  unfolding variant_checks_def variant_unique_def by (intro frame.rules guard_keeps_jobs)+

lemma row_writes_keep_jobs:
  "keeps_jobs (update_variant c p)" "keeps_jobs (create_variant c q)" "keeps_jobs (create_product c r)" "keeps_jobs (bump_product c i names)"
  unfolding update_variant_def create_variant_def create_product_def bump_product_def Let_def upd_variant_def upd_product_def
  by (intro frame.rules guard_keeps_jobs checks_keep_jobs write_keeps_jobs; simp)+

lemma row_parts_keep_jobs:
  "keeps_jobs (update_existing c b k f v)" "keeps_jobs (import_product L c i title names)" "keeps_jobs (import_variant c i j os f)"
  unfolding update_existing_def import_product_def import_variant_def
  by (intro frame.rules guard_keeps_jobs row_writes_keep_jobs)+

lemma import_row_jobs: "import_row_op L c b names i j r seen s = (Inr (what, s'), seen') \<Longrightarrow> jobs s' = jobs s"
  by (auto simp: import_row_op_def Let_def split: sum.splits option.splits prod.splits if_splits
      dest!: withinD [OF row_parts_keep_jobs(1)] withinD [OF row_parts_keep_jobs(2)] withinD [OF row_parts_keep_jobs(3)] simp: same_def)

lemma import_rows_jobs: "import_rows L c b names rows seen st s = (st', s') \<Longrightarrow> jobs s' = jobs s"
proof (induction L c b names rows seen st s rule: import_rows.induct)
  case (2 L c b names i j r rows seen st s)
  obtain res seen' where r: "import_row_op L c b names i j r seen s = (res, seen')" by (cases "import_row_op L c b names i j r seen s")
  show ?case
  proof (cases res)
    case (Inl e)
    then show ?thesis using 2(1) [OF r [symmetric] Inl] 2(3) r by simp
  next
    case (Inr p)
    obtain what s1 where p: "p = (what, s1)" by (cases p)
    then have "jobs s1 = jobs s" using import_row_jobs r Inr by blast
    then show ?thesis using 2(2) [OF r [symmetric] Inr p [symmetric]] 2(3) r Inr p by simp
  qed
qed simp

text \<open>A batch always commits, and leaves on the job's row how far it got.\<close>

definition checkpointed :: "nat \<Rightarrow> import_state \<Rightarrow> job \<Rightarrow> job" where
  "checkpointed n st j = j\<lparr>jb_processed := wrap32 (int n), jb_failed := wrap32 (int (length (is_errors st))), jb_result := Some (state_dyn st)\<rparr>"

lemma import_batch_commits:
  assumes "c_tenant c = Some t"
  shows "\<exists>st' s'. in_tenant_tx c (import_batch_tx L c i b names rows n st) s = (Inr st', s') \<and> jobs s' = row_upd jb_tenant jb_id t i (checkpointed n st') (jobs s)"
proof -
  obtain st1 s1 where r: "import_rows L c b names rows [] st s = (st1, s1)" by (cases "import_rows L c b names rows [] st s")
  then have "import_batch_tx L c i b names rows n st s = Inr (st1, upd_job t i (checkpointed n st1) s1)"
    using assms by (simp add: import_batch_tx_def checkpoint_job_def checkpointed_def [abs_def] tx_eval tenant_of_def)
  then show ?thesis
    using assms import_rows_jobs [OF r] by (simp add: in_tenant_tx_def run_tx_def upd_job_def)
qed

text \<open>The loop over the batches: one part after another, parts already done, parts not done.\<close>

lemma import_loop_append:
  "import_loop L c i b names rows al (xs @ ys) st s =
    (case import_loop L c i b names rows al xs st s of (Inl e, s') \<Rightarrow> (Inl e, s') | (Inr st', s') \<Rightarrow> import_loop L c i b names rows al ys st' s')"
  by (induction L c i b names rows al xs st s rule: import_loop.induct) (auto split: prod.splits sum.splits)

lemma import_loop_skips: "list_all (\<lambda>sp. int (snd sp) \<le> al) xs \<Longrightarrow> import_loop L c i b names rows al xs st s = (Inr st, s)"
  by (induction xs) auto

lemma import_loop_already:
  "list_all (\<lambda>sp. al < int (snd sp)) xs \<Longrightarrow> list_all (\<lambda>sp. al' < int (snd sp)) xs \<Longrightarrow>
    import_loop L c i b names rows al xs st s = import_loop L c i b names rows al' xs st s"
  by (induction xs arbitrary: st s) (auto split: prod.splits sum.splits)

lemma row_upd_twice:
  assumes "\<And>r. ten (f r) = ten r \<and> key (f r) = key r"
  shows "row_upd ten key t k g (row_upd ten key t k f rows) = row_upd ten key t k (g \<circ> f) rows"
  unfolding row_upd_def map_map by (rule map_cong) (simp_all add: assms)

lemma import_loop_runs:
  assumes "c_tenant c = Some t" and "list_all (\<lambda>sp. al < int (snd sp)) xs" and "xs \<noteq> []"
  shows "\<exists>st' s'. import_loop L c i b names rows al xs st s = (Inr st', s') \<and> jobs s' = row_upd jb_tenant jb_id t i (checkpointed (snd (last xs)) st') (jobs s)"
  using assms(2,3)
proof (induction xs arbitrary: st s)
  case (Cons sp xs)
  obtain a z where sp: "sp = (a, z)" by (cases sp)
  obtain st1 s1 where one: "in_tenant_tx c (import_batch_tx L c i b names (take (z - a) (drop a rows)) z st) s = (Inr st1, s1)"
    and j1: "jobs s1 = row_upd jb_tenant jb_id t i (checkpointed z st1) (jobs s)"
    using import_batch_commits [OF assms(1)] by metis
  show ?case
  proof (cases "xs = []")
    case True
    then show ?thesis using one j1 sp Cons.prems by simp
  next
    case False
    from Cons.IH [OF _ False, of st1 s1] Cons.prems(1) obtain st' s' where
      r: "import_loop L c i b names rows al xs st1 s1 = (Inr st', s')"
      "jobs s' = row_upd jb_tenant jb_id t i (checkpointed (snd (last xs)) st') (jobs s1)"
      by auto
    have "jobs s' = row_upd jb_tenant jb_id t i (checkpointed (snd (last xs)) st' \<circ> checkpointed z st1) (jobs s)"
      unfolding r(2) j1 by (rule row_upd_twice) (simp add: checkpointed_def)
    moreover have "checkpointed (snd (last xs)) st' \<circ> checkpointed z st1 = checkpointed (snd (last xs)) st'"
      by (auto simp: checkpointed_def)
    ultimately show ?thesis using r(1) one sp Cons.prems(1) False by simp
  qed
qed simp

text \<open>The ends of the batches grow and stay within the file.\<close>

lemma spans_of_ends:
  "list_all (\<lambda>g. 0 < sum_list g) gs \<Longrightarrow> sorted_wrt (\<lambda>x y. snd x < snd y) (spans_of start gs) \<and>
    list_all (\<lambda>sp. start < snd sp \<and> snd sp \<le> start + sum_list (concat gs)) (spans_of start gs)"
proof (induction gs arbitrary: start)
  case (Cons g gs)
  from Cons.IH [of "start + sum_list g"] Cons.prems show ?case by (auto simp: list_all_iff)
qed simp

lemma batch_ends:
  assumes "import_batches key rows = (srt, spans)"
  shows "sorted_wrt (\<lambda>x y. snd x < snd y) spans" and "list_all (\<lambda>sp. 0 < snd sp \<and> snd sp \<le> length rows) spans"
proof -
  from batches_are_groups [OF assms] obtain kss where k: "concat kss = firsts [] (map key rows)"
    "spans = spans_of 0 (map (map (length \<circ> group_of key rows)) kss)" "list_all (\<lambda>g. batch_ok (map (length \<circ> group_of key rows) g)) kss" by blast
  have pos: "0 < length (group_of key rows x)" if "x \<in> set (firsts [] (map key rows))" for x
    using that by (auto simp: firsts_set group_of_def filter_empty_conv)
  have "0 < sum_list (map (length \<circ> group_of key rows) g)" if "g \<in> set kss" for g
  proof -
    have "g \<noteq> []" using k(3) that by (auto simp: list_all_iff batch_ok_def)
    then obtain x xs where g: "g = x # xs" by (cases g) auto
    then have "x \<in> set (firsts [] (map key rows))" using that k(1) [symmetric] by (auto intro!: bexI [of _ g])
    then show ?thesis using pos g by simp
  qed
  then have "list_all (\<lambda>g. 0 < sum_list g) (map (map (length \<circ> group_of key rows)) kss)" by (simp add: list_all_iff)
  from spans_of_ends [OF this, of 0] have e: "sorted_wrt (\<lambda>x y. snd x < snd y) spans"
    "list_all (\<lambda>sp. 0 < snd sp \<and> snd sp \<le> sum_list (concat (map (map (length \<circ> group_of key rows)) kss))) spans"
    unfolding k(2) by simp_all
  have "concat (map (map (length \<circ> group_of key rows)) kss) = map (length \<circ> group_of key rows) (firsts [] (map key rows))"
    unfolding k(1) [symmetric] by (simp add: map_concat)
  then have "sum_list (concat (map (map (length \<circ> group_of key rows)) kss)) = length (grouped key rows)"
    by (simp add: grouped_def length_concat comp_def)
  also have "\<dots> = length rows" using grouped_mset [of key rows] by (metis size_mset)
  finally show "sorted_wrt (\<lambda>x y. snd x < snd y) spans" "list_all (\<lambda>sp. 0 < snd sp \<and> snd sp \<le> length rows) spans" using e by simp_all
qed

section \<open>The handler delivered again\<close>

text \<open>The parts of a run: the rows with their ids, the spans, the loop and the note of the row count.\<close>

definition run_rows :: "import_lib \<Rightarrow> import_io \<Rightarrow> import_row list \<Rightarrow> (uuid \<times> uuid \<times> import_row) list" where
  "run_rows L io rows = map (\<lambda>r. case io_ids io (ir_line r) of (pid, vid) \<Rightarrow> (pid, vid, r)) (fst (import_batches (group_key L) rows))"

definition run_loop :: "import_lib \<Rightarrow> import_io \<Rightarrow> ctx \<Rightarrow> job \<Rightarrow> import_params \<Rightarrow> import_row list \<Rightarrow> (nat \<times> nat) list \<Rightarrow> db \<Rightarrow> (err + import_state) \<times> db" where
  "run_loop L io c job p rows spans s = import_loop L c (jb_id job) (im_on_conflict p = ''error'') (option_names L (im_mapping p))
     (run_rows L io rows) (jb_processed job) spans (dyn_state (jb_result job)) s"

definition noted :: "job \<Rightarrow> import_row list \<Rightarrow> job \<Rightarrow> job" where
  "noted job rows j = (if jb_state j = S_running then j\<lparr>jb_processed := jb_processed job, jb_total := Some (wrap32 (int (length rows))), jb_failed := jb_failed job\<rparr> else j)"

definition note_rows :: "ctx \<Rightarrow> job \<Rightarrow> import_row list \<Rightarrow> db \<Rightarrow> db" where
  "note_rows c job rows = upd_job (tenant_of c) (jb_id job) (noted job rows)"

definition report :: "import_io \<Rightarrow> import_params \<Rightarrow> string list \<Rightarrow> import_row list \<Rightarrow> (err + import_state) \<times> db \<Rightarrow> (err + job_result option) \<times> db" where
  "report io p header srt r = (case r of (Inl e, s2) \<Rightarrow> (Inl e, s2)
     | (Inr st, s2) \<Rightarrow> if is_errors st = [] then (Inr (Some (Marshals (import_result p st))), s2)
         else (case io_put io (report_key (im_key p)) (error_report header srt (is_errors st)) of
           Some e \<Rightarrow> (Inl e, s2) | None \<Rightarrow> (Inr (Some (Marshals (import_result p st))), s2)))"

lemma import_handler_parts:
  assumes "c_tenant c = Some t" and "dyn_params (jb_params job) = Some p" and "io_file io = Inr data" and "read_csv data (im_mapping p) = Inr (header, rows)"
  shows "import_handler L io c job s = report io p header (fst (import_batches (group_key L) rows))
    (run_loop L io c job p rows (snd (import_batches (group_key L) rows)) (note_rows c job rows s))"
  using assms by (simp add: import_handler_def in_tenant_tx_def job_progress_def tx_eval note_rows_def noted_def [abs_def] run_loop_def run_rows_def
      report_def case_prod_beta split: prod.splits sum.splits)

text \<open>The database when the worker is killed after \<open>n\<close> batches.\<close>

definition killed_after :: "import_lib \<Rightarrow> import_io \<Rightarrow> ctx \<Rightarrow> job \<Rightarrow> import_params \<Rightarrow> import_row list \<Rightarrow> nat \<Rightarrow> db \<Rightarrow> db" where
  "killed_after L io c job p rows n s =
    snd (run_loop L io c job p rows (take n (snd (import_batches (group_key L) rows))) (note_rows c job rows s))"

text \<open>A job as it was queued, running for the first time, its row the only one with its id.\<close>

definition first_delivery :: "ctx \<Rightarrow> job \<Rightarrow> db \<Rightarrow> bool" where
  "first_delivery c job s \<longleftrightarrow> get_job_row (tenant_of c) (jb_id job) s = Some job \<and> jb_state job = S_running \<and> jb_processed job = 0 \<and>
     jb_failed job = 0 \<and> jb_result job = None \<and> list_all (\<lambda>j. jb_id j = jb_id job \<longrightarrow> j = job) (jobs s)"

lemma row_upd_fixed:
  assumes "\<And>r. r \<in> set rows \<Longrightarrow> ten r = t \<Longrightarrow> key r = k \<Longrightarrow> f r = r"
  shows "row_upd ten key t k f rows = rows"
  unfolding row_upd_def by (rule map_idI) (simp add: assms)

lemma noted_fixed: "jb_state j = S_running \<Longrightarrow> jb_total j = Some (wrap32 (int (length rows))) \<Longrightarrow> noted j rows j = j"
  by (simp add: noted_def)

lemma note_rows_again:
  assumes "\<And>j. j \<in> set (jobs s) \<Longrightarrow> jb_tenant j = tenant_of c \<Longrightarrow> jb_id j = jb_id job \<Longrightarrow> j = job"
    and "jb_state job = S_running" and "jb_total job = Some (wrap32 (int (length rows)))"
  shows "note_rows c job rows s = s"
proof -
  have "row_upd jb_tenant jb_id (tenant_of c) (jb_id job) (noted job rows) (jobs s) = jobs s"
  proof (rule row_upd_fixed)
    fix r assume "r \<in> set (jobs s)" "jb_tenant r = tenant_of c" "jb_id r = jb_id job"
    then have "r = job" by (rule assms(1))
    then show "noted job rows r = r" using noted_fixed [OF assms(2,3)] by simp
  qed
  then show ?thesis by (simp add: note_rows_def upd_job_def)
qed

lemma only_row_upd:
  assumes only: "\<And>j. j \<in> set js \<Longrightarrow> jb_tenant j = t \<Longrightarrow> jb_id j = i \<Longrightarrow> j = job" and f: "jb_tenant (f job) = t" "jb_id (f job) = i"
    and m: "j \<in> set (row_upd jb_tenant jb_id t i f js)" "jb_tenant j = t" "jb_id j = i"
  shows "j = f job"
proof -
  obtain q where q: "q \<in> set js" "j = (if jb_tenant q = t \<and> jb_id q = i then f q else q)" using m(1) by (auto simp: row_upd_def)
  show ?thesis
  proof (cases "jb_tenant q = t \<and> jb_id q = i")
    case True
    then show ?thesis using only [OF q(1)] q(2) by simp
  next
    case False
    then have "j = q" using q(2) by (simp only: if_False)
    then show ?thesis using False m(2,3) by simp
  qed
qed

text \<open>The job's row after the first \<open>n\<close> batches, and what the database then holds.\<close>

lemma killed_row:
  assumes t: "c_tenant c = Some t" and first: "first_delivery c job s"
    and ib: "import_batches (group_key L) rows = (srt, spans)"
  shows "\<exists>st job1. run_loop L io c job p rows (take n spans) (note_rows c job rows s) = (Inr st, killed_after L io c job p rows n s) \<and>
    get_job_row t (jb_id job) (killed_after L io c job p rows n s) = Some job1 \<and>
    (\<forall>j. j \<in> set (jobs (killed_after L io c job p rows n s)) \<and> jb_tenant j = t \<and> jb_id j = jb_id job \<longrightarrow> j = job1) \<and>
    job1 = (if take n spans = [] then noted job rows job else checkpointed (snd (last (take n spans))) st (noted job rows job)) \<and>
    (take n spans = [] \<longrightarrow> st = no_state)"
proof -
  let ?s0 = "note_rows c job rows s" and ?i = "jb_id job"
  have c: "tenant_of c = t" using t by (simp add: tenant_of_def)
  have row: "row_get jb_tenant jb_id t ?i (jobs s) = Some job" and run: "jb_state job = S_running" "jb_processed job = 0" "jb_failed job = 0" "jb_result job = None"
    using first c by (auto simp: first_delivery_def get_job_row_def)
  have ten: "jb_tenant job = t" using row_get_Some [OF row] by blast
  have only: "\<And>j. j \<in> set (jobs s) \<Longrightarrow> jb_tenant j = t \<Longrightarrow> jb_id j = ?i \<Longrightarrow> j = job"
    using first by (auto simp: first_delivery_def list_all_iff)
  have kn: "keeps_key jb_tenant jb_id (noted job rows)" by (simp add: keeps_key_def noted_def)
  have j0: "jobs ?s0 = row_upd jb_tenant jb_id t ?i (noted job rows) (jobs s)" by (simp add: note_rows_def upd_job_def c)
  have nt: "jb_tenant (noted job rows job) = t" "jb_id (noted job rows job) = ?i" using ten by (simp_all add: noted_def)
  have row0: "row_get jb_tenant jb_id t ?i (jobs ?s0) = Some (noted job rows job)"
    unfolding j0 rows.get_same [OF kn] row by simp
  have only0: "\<And>j. j \<in> set (jobs ?s0) \<Longrightarrow> jb_tenant j = t \<Longrightarrow> jb_id j = ?i \<Longrightarrow> j = noted job rows job"
    unfolding j0 by (rule only_row_upd [where f = "noted job rows" and job = job, OF only nt])
  show ?thesis
  proof (cases "take n spans = []")
    case True
    have r: "run_loop L io c job p rows (take n spans) ?s0 = (Inr no_state, ?s0)"
      unfolding True by (simp add: run_loop_def run(4) dyn_state_def)
    then have "killed_after L io c job p rows n s = ?s0" by (simp add: killed_after_def ib)
    note r this
    then show ?thesis using True row0 only0 by (auto simp: get_job_row_def)
  next
    case False
    have "list_all (\<lambda>sp. jb_processed job < int (snd sp)) (take n spans)"
      using batch_ends(2) [OF ib] by (auto simp: list_all_iff run(2) dest: in_set_takeD)
    from import_loop_runs [OF t this False, where st = "dyn_state (jb_result job)" and s = ?s0 and i = ?i and L = L and b = "im_on_conflict p = ''error''"
        and names = "option_names L (im_mapping p)" and rows = "run_rows L io rows"]
    obtain st' s' where r: "run_loop L io c job p rows (take n spans) ?s0 = (Inr st', s')"
      and j1: "jobs s' = row_upd jb_tenant jb_id t ?i (checkpointed (snd (last (take n spans))) st') (jobs ?s0)"
      unfolding run_loop_def by blast
    have k: "killed_after L io c job p rows n s = s'" by (simp add: killed_after_def ib r)
    have kc: "keeps_key jb_tenant jb_id (checkpointed (snd (last (take n spans))) st')" by (simp add: keeps_key_def checkpointed_def)
    have "row_get jb_tenant jb_id t ?i (jobs s') = Some (checkpointed (snd (last (take n spans))) st' (noted job rows job))"
      unfolding j1 rows.get_same [OF kc] row0 by simp
    moreover have "j = checkpointed (snd (last (take n spans))) st' (noted job rows job)"
      if "j \<in> set (jobs s')" "jb_tenant j = t" "jb_id j = ?i" for j
      by (rule only_row_upd [where f = "checkpointed (snd (last (take n spans))) st'" and job = "noted job rows job", OF only0])
        (use that nt in \<open>simp_all add: checkpointed_def j1\<close>)
    ultimately show ?thesis using False r k by (auto simp: get_job_row_def)
  qed
qed

text \<open>C14. A killed import resumes (BR-044, BR-060): let the worker die after any number of committed batches of a job's
  first delivery. The job's row then tells the next delivery where to go on and with which tally, and that delivery
  answers the same result and leaves the same database as the first would have, had it not been interrupted (with the
  same clock, the same drawn ids and the same file): no row is applied twice and none is skipped.\<close>

theorem import_resumes:
  assumes "c_tenant c = Some t" and "first_delivery c job s" and "dyn_params (jb_params job) = Some p"
    and "io_file io = Inr data" and "read_csv data (im_mapping p) = Inr (header, rows)" and "length rows < 2 ^ 31"
  shows "\<exists>job1. get_job_row t (jb_id job) (killed_after L io c job p rows n s) = Some job1 \<and>
    import_handler L io c job1 (killed_after L io c job p rows n s) = import_handler L io c job s"
proof -
  obtain srt spans where ib: "import_batches (group_key L) rows = (srt, spans)" by (cases "import_batches (group_key L) rows")
  let ?k = "killed_after L io c job p rows n s" and ?xs = "take n spans" and ?ys = "drop n spans"
  obtain st job1 where run: "run_loop L io c job p rows ?xs (note_rows c job rows s) = (Inr st, ?k)"
    and row: "get_job_row t (jb_id job) ?k = Some job1"
    and only: "\<forall>j. j \<in> set (jobs ?k) \<and> jb_tenant j = t \<and> jb_id j = jb_id job \<longrightarrow> j = job1"
    and job1: "job1 = (if ?xs = [] then noted job rows job else checkpointed (snd (last ?xs)) st (noted job rows job))"
    and none: "?xs = [] \<longrightarrow> st = no_state"
    using killed_row [OF assms(1,2) ib] by blast
  have c: "tenant_of c = t" using assms(1) by (simp add: tenant_of_def)
  have jr: "jb_state job = S_running" "jb_processed job = 0" "jb_failed job = 0" "jb_result job = None"
    using assms(2) by (auto simp: first_delivery_def)
  have same: "jb_id job1 = jb_id job" "jb_params job1 = jb_params job" "jb_state job1 = S_running" "jb_total job1 = Some (wrap32 (int (length rows)))"
    using jr by (simp_all add: job1 noted_def checkpointed_def)
  have again: "note_rows c job1 rows ?k = ?k"
    by (rule note_rows_again) (use only same c in auto)
  have ends: "\<And>sp. sp \<in> set spans \<Longrightarrow> 0 < snd sp \<and> snd sp \<le> length rows" and up: "sorted_wrt (\<lambda>x y. snd x < snd y) (?xs @ ?ys)"
    using batch_ends [OF ib] by (auto simp: list_all_iff)
  have st: "dyn_state (jb_result job1) = st"
    using none jr(4) by (auto simp: job1 noted_def checkpointed_def dyn_state_dyn jr(1); simp add: dyn_state_def)
  have done_: "list_all (\<lambda>sp. int (snd sp) \<le> jb_processed job1) ?xs \<and> list_all (\<lambda>sp. jb_processed job1 < int (snd sp)) ?ys"
  proof (cases "?xs = []")
    case True
    then have "jb_processed job1 = 0" using jr by (simp add: job1 noted_def)
    then show ?thesis using True ends by (auto simp: list_all_iff dest: in_set_dropD)
  next
    case False
    have last: "last ?xs \<in> set spans" using False by (meson in_set_takeD last_in_set)
    have "int (snd (last ?xs)) < 2 ^ 31" using ends [OF last] assms(6) by simp
    then have "jb_processed job1 = int (snd (last ?xs))"
      using False by (simp add: job1 checkpointed_def wrap32_id is_i32_def)
    moreover have "snd sp \<le> snd (last ?xs)" if "sp \<in> set ?xs" for sp
      using that up False by (cases ?xs rule: rev_cases) (auto simp: sorted_wrt_append)
    moreover have "snd (last ?xs) < snd sp" if "sp \<in> set ?ys" for sp
      using that up last_in_set [OF False] unfolding sorted_wrt_append by blast
    ultimately show ?thesis by (auto simp: list_all_iff)
  qed
  have "run_loop L io c job1 p rows spans ?k = import_loop L c (jb_id job) (im_on_conflict p = ''error'') (option_names L (im_mapping p))
      (run_rows L io rows) (jb_processed job1) (?xs @ ?ys) st ?k"
    by (simp add: run_loop_def same st)
  also have "\<dots> = import_loop L c (jb_id job) (im_on_conflict p = ''error'') (option_names L (im_mapping p))
      (run_rows L io rows) (jb_processed job1) ?ys st ?k"
    unfolding import_loop_append import_loop_skips [OF done_ [THEN conjunct1]] by simp
  also have "\<dots> = import_loop L c (jb_id job) (im_on_conflict p = ''error'') (option_names L (im_mapping p))
      (run_rows L io rows) (jb_processed job) ?ys st ?k"
    by (rule import_loop_already [OF done_ [THEN conjunct2]]) (use ends jr(2) in \<open>auto simp: list_all_iff dest: in_set_dropD\<close>)
  also have "\<dots> = run_loop L io c job p rows (?xs @ ?ys) (note_rows c job rows s)"
    using run unfolding run_loop_def import_loop_append by simp
  finally have "run_loop L io c job1 p rows spans (note_rows c job1 rows ?k) = run_loop L io c job p rows spans (note_rows c job rows s)"
    unfolding again by simp
  moreover have "dyn_params (jb_params job1) = Some p" using assms(3) same by simp
  ultimately have "import_handler L io c job1 ?k = import_handler L io c job s"
    using import_handler_parts [OF assms(1) _ assms(4,5)] assms(3) ib by simp
  with row show ?thesis by blast
qed

text \<open>A file of two rows of one product.\<close>

definition sample_file :: string where
  "sample_file = ''title,sku'' @ [nl] @ ''Kopi,K1'' @ [nl] @ ''Kopi,K2'' @ [nl]"

definition sample_params :: import_params where
  "sample_params = \<lparr>im_key = ''k'', im_mapping = [(''title'', ''title''), (''sku'', ''sku'')], im_on_conflict = ''update''\<rparr>"

definition sample_io :: import_io where
  "sample_io = \<lparr>io_file = Inr sample_file, io_ids = (\<lambda>l. (100 + nat l, 200 + nat l)), io_put = (\<lambda>_ _. None)\<rparr>"

definition sample_import_lib :: import_lib where
  "sample_import_lib = \<lparr>il_lower = map ascii_lower, il_quote = (\<lambda>x. x), il_pg = \<lparr>pt_fold = map ascii_lower, pt_key = (\<lambda>x. x), pt_ilike = (\<lambda>_ _. True)\<rparr>\<rparr>"

definition import_ctx :: ctx where
  "import_ctx = \<lparr>c_tenant = Some 1, c_actor = None, c_ip = None, c_role = None, c_now = 100, c_clock = 100\<rparr>"

definition sample_job :: job where
  "sample_job = \<lparr>jb_id = 40, jb_tenant = 1, jb_kind = ''product_import'', jb_state = S_running, jb_processed = 0, jb_total = None, jb_failed = 0,
     jb_params = params_dyn sample_params, jb_result = None, jb_error = None, jb_created_by = None, jb_created_at = 0, jb_finished_at = None\<rparr>"

definition sample_rows :: "import_row list" where
  "sample_rows = [\<lparr>ir_line = 2, ir_raw = [''Kopi'', ''K1''], ir_values = [(''sku'', ''K1''), (''title'', ''Kopi'')]\<rparr>,
     \<lparr>ir_line = 3, ir_raw = [''Kopi'', ''K2''], ir_values = [(''sku'', ''K2''), (''title'', ''Kopi'')]\<rparr>]"

lemma sample_delimiter: "delimiter sample_file = CHR '',''"
  by (simp add: delimiter_def sample_file_def nl_def)

lemma sample_crlf: "crlf sample_file = sample_file"
  by (simp add: sample_file_def nl_def cr_def)

lemma sample_lines:
  "csv_record (CHR '','') (''title,sku'' @ nl # r) = ([''title'', ''sku''], r)"
  "csv_record (CHR '','') (''Kopi,K1'' @ nl # r) = ([''Kopi'', ''K1''], r)"
  "csv_record (CHR '','') (''Kopi,K2'' @ nl # r) = ([''Kopi'', ''K2''], r)"
  by (simp_all add: csv_record.simps cell_def quote_mark_def nl_def)

lemma sample_records: "csv_records (CHR '','') 1 (crlf sample_file) = [(1, [''title'', ''sku'']), (2, [''Kopi'', ''K1'']), (3, [''Kopi'', ''K2''])]"
  unfolding sample_crlf using sample_lines by (simp add: csv_records.simps sample_file_def nl_def line_ends_def)

lemma sample_trims: "map trim_space [''title'', ''sku'', ''Kopi'', ''K1'', ''K2''] = [''title'', ''sku'', ''Kopi'', ''K1'', ''K2'']"
  by (simp add: trim_space_visible visible_ascii_def)

lemma sample_read: "read_csv sample_file (im_mapping sample_params) = Inr ([''title'', ''sku''], sample_rows)"
proof -
  have "\<not> prefix bom sample_file" by code_simp
  then show ?thesis
    using sample_trims
    by (simp add: read_csv_def Let_def sample_delimiter sample_records column_targets_def sample_params_def deref_def row_values_def
        sample_rows_def blank_def)
qed

lemma sample_dyn: "dyn_params (jb_params sample_job) = Some sample_params"
  by (simp add: dyn_params_def sample_job_def params_dyn_def sample_params_def dyn_text_def)

lemma sample_first: "first_delivery import_ctx sample_job (empty_db\<lparr>jobs := [sample_job]\<rparr>)"
  by (simp add: first_delivery_def get_job_row_def row_get_def sample_job_def import_ctx_def tenant_of_def)

theorem import_resumes_witness:
  "\<exists>job1. get_job_row 1 (jb_id sample_job) (killed_after sample_import_lib sample_io import_ctx sample_job sample_params sample_rows 1 (empty_db\<lparr>jobs := [sample_job]\<rparr>)) = Some job1 \<and>
    import_handler sample_import_lib sample_io import_ctx job1 (killed_after sample_import_lib sample_io import_ctx sample_job sample_params sample_rows 1 (empty_db\<lparr>jobs := [sample_job]\<rparr>))
      = import_handler sample_import_lib sample_io import_ctx sample_job (empty_db\<lparr>jobs := [sample_job]\<rparr>)"
  by (rule import_resumes [OF _ sample_first sample_dyn _ sample_read]) (simp_all add: import_ctx_def sample_io_def sample_rows_def)

end
