(* ===== verification/ListPages.thy ===== *)
theory ListPages
  imports ProductLists
begin

text \<open>
  The keyset pages of the catalog lists: following each page's cursor shows every row that matches once, in
  the order of the list. A page is a function from the cursor to its rows and the next cursor.\<close>

section \<open>Keysets\<close>

definition ahead :: "bool \<Rightarrow> ('r \<Rightarrow> 'k::linorder) \<Rightarrow> 'r \<Rightarrow> 'r \<Rightarrow> bool" where
  "ahead desc key x y \<longleftrightarrow> (if desc then key y < key x else key x < key y)"

definition rest_of :: "bool \<Rightarrow> ('r \<Rightarrow> 'k::linorder) \<Rightarrow> 'k option \<Rightarrow> 'r list \<Rightarrow> 'r list" where
  "rest_of desc key after rows = in_order desc key (filter (past desc key after) rows)"

lemma in_order_filter: "in_order desc key (filter P rows) = filter P (in_order desc key rows)"
  by (simp add: in_order_def filter_sort flip: rev_filter)

lemma in_order_strict: "distinct (map key rows) \<Longrightarrow> sorted_wrt (ahead desc key) (in_order desc key rows)"
proof -
  assume d: "distinct (map key rows)"
  have "distinct (map key (sort_key key rows))"
    using d by (metis distinct_map distinct_sort set_sort)
  then have "sorted_wrt (<) (map key (sort_key key rows))"
    using sorted_sort_key [of key rows] by (simp add: strict_sorted_iff)
  then show ?thesis
    by (simp add: in_order_def ahead_def [abs_def] sorted_wrt_map sorted_wrt_rev)
qed

lemma past_further: "past desc key after x \<Longrightarrow> ahead desc key x y \<Longrightarrow> past desc key after y"
  by (auto simp: past_def ahead_def split: option.splits if_splits)

lemma past_row: "past desc key (Some (key x)) y = ahead desc key x y"
  by (simp add: past_def ahead_def)

lemma not_ahead: "ahead desc key x y \<Longrightarrow> \<not> ahead desc key y x" "\<not> ahead desc key x x"
  by (auto simp: ahead_def split: if_splits)

lemma filter_ahead: "sorted_wrt (ahead desc key) (xs @ r # ys) \<Longrightarrow> filter (ahead desc key r) (xs @ r # ys) = ys"
  by (auto simp: sorted_wrt_append filter_empty_conv filter_id_conv not_ahead dest: not_ahead(1))

lemma rest_after_row:
  assumes "distinct (map key rows)" and "rest_of desc key after rows = xs @ r # ys"
  shows "rest_of desc key (Some (key r)) rows = ys"
proof -
  let ?all = "in_order desc key rows"
  have f: "filter (past desc key after) ?all = xs @ r # ys" using assms(2) by (simp add: rest_of_def in_order_filter)
  have srt: "sorted_wrt (ahead desc key) (xs @ r # ys)"
    unfolding f [symmetric] by (rule sorted_wrt_filter [OF in_order_strict [OF assms(1)]])
  have r: "past desc key after r" proof -
    have "r \<in> set (filter (past desc key after) ?all)" unfolding f by simp
    then show ?thesis by simp
  qed
  have "filter (ahead desc key r) ?all = filter (ahead desc key r) (filter (past desc key after) ?all)"
    unfolding filter_filter by (rule filter_cong [OF refl]) (use past_further [OF r] in blast)
  then show ?thesis
    using filter_ahead [OF srt] by (simp add: rest_of_def in_order_filter past_row [abs_def] f)
qed

section \<open>Walks\<close>

text \<open>Reading pages until one has no cursor; \<open>None\<close> when the fuel is used up first.\<close>

fun walk :: "nat \<Rightarrow> ('c option \<Rightarrow> 'r list \<times> 'c option) \<Rightarrow> 'c option \<Rightarrow> 'r list option" where
  "walk 0 page after = None"
| "walk (Suc n) page after = (case page after of
     (rows, None) \<Rightarrow> Some rows
   | (rows, Some k) \<Rightarrow> map_option ((@) rows) (walk n page (Some k)))"

definition pages :: "('c option \<Rightarrow> 'r list \<times> 'c option) \<Rightarrow> ('c option \<Rightarrow> 'r list) \<Rightarrow> bool" where
  "pages page rest \<longleftrightarrow> (\<forall>after. case page after of
     (rows, None) \<Rightarrow> rest after = rows
   | (rows, Some k) \<Rightarrow> rest after = rows @ rest (Some k) \<and> rows \<noteq> [])"

lemma walk_whole: "pages page rest \<Longrightarrow> length (rest after) < fuel \<Longrightarrow> walk fuel page after = Some (rest after)"
proof (induction fuel arbitrary: after)
  case (Suc n)
  obtain rows k where p: "page after = (rows, k)" by (cases "page after")
  have law: "case k of None \<Rightarrow> rest after = rows | Some k \<Rightarrow> rest after = rows @ rest (Some k) \<and> rows \<noteq> []"
    using Suc.prems(1) p unfolding pages_def by (metis (mono_tags, lifting) case_prod_conv)
  show ?case
  proof (cases k)
    case None
    then show ?thesis using p law by simp
  next
    case (Some j)
    then have "rest after = rows @ rest (Some j)" "rows \<noteq> []" using law by simp_all
    moreover from this have "length (rest (Some j)) < n" using Suc.prems(2) by (cases rows) simp_all
    ultimately show ?thesis using p Some Suc.IH [OF Suc.prems(1), of "Some j"] by simp
  qed
qed simp

text \<open>One page of a keyset list.\<close>

lemma cut_fetch:
  assumes "distinct (map key rows)" and "1 \<le> limit"
  shows "case cut_page limit (fetch desc key after 0 limit rows) of
     (xs, None) \<Rightarrow> rest_of desc key after rows = xs
   | (xs, Some r) \<Rightarrow> rest_of desc key after rows = xs @ rest_of desc key (Some (key r)) rows \<and> xs \<noteq> []"
proof -
  let ?R = "rest_of desc key after rows" and ?n = "nat limit"
  have f: "fetch desc key after 0 limit rows = take (Suc ?n) ?R"
    using assms(2) by (simp add: fetch_def rest_of_def nat_add_distrib)
  show ?thesis
  proof (cases "length ?R \<le> ?n")
    case True
    then show ?thesis using assms(2) by (simp add: f cut_page_def le_nat_iff min_def)
  next
    case False
    then have r: "?R = take (?n - 1) ?R @ ?R ! (?n - 1) # drop ?n ?R" and n: "0 < ?n"
      using id_take_nth_drop [of "?n - 1" ?R] assms(2) by simp_all
    have "take ?n ?R \<noteq> []" using False n by (cases ?R) simp_all
    moreover have "?R = take ?n ?R @ rest_of desc key (Some (key (?R ! (?n - 1)))) rows"
      unfolding rest_after_row [OF assms(1) r] by simp
    ultimately show ?thesis using False n by (simp add: f cut_page_def nat_le_iff)
  qed
qed

section \<open>The admin's list\<close>

text \<open>The list's order, and its page as \<open>ListProducts\<close> answers it.\<close>

definition list_rest :: "pg_text \<Rightarrow> product_filter \<Rightarrow> product list \<Rightarrow> list_cursor option \<Rightarrow> product list" where
  "list_rest pg f rows after =
    (if pf_sort f = ''title''
     then rest_of False (\<lambda>p. (pt_key pg (pr_title p), pr_id p))
       (case after of None \<Rightarrow> None | Some k \<Rightarrow> map_option (\<lambda>t. (pt_key pg t, lc_id k)) (lc_title k)) rows
     else rest_of True (\<lambda>p. (if pf_sort f = ''-updated_at'' then pr_updated_at p else pr_created_at p, pr_id p))
       (case after of None \<Rightarrow> None | Some k \<Rightarrow> map_option (\<lambda>t. (t, lc_id k)) (lc_at k)) rows)"

definition listed :: "pg_text \<Rightarrow> ctx \<Rightarrow> product_filter \<Rightarrow> db \<Rightarrow> product list" where
  "listed pg c f s = list_rest pg f (filter (list_match pg c f s) (own_products c s)) None"

definition list_answer :: "pg_text \<Rightarrow> files \<Rightarrow> ctx \<Rightarrow> product_filter \<Rightarrow> db \<Rightarrow> list_cursor option \<Rightarrow> product_row list \<times> list_cursor option" where
  "list_answer pg fl c f s after = (case fst (list_products pg fl c (f\<lparr>pf_after := after\<rparr>) s) of
     Inl e \<Rightarrow> ([], None) | Inr out \<Rightarrow> (pl_rows out, pl_next out))"

lemma distinct_keys: "distinct (map i rows) \<Longrightarrow> distinct (map (\<lambda>p. (g p, i p)) rows)"
  by (induction rows) auto

lemma list_page_law:
  assumes "distinct (map pr_id rows)" and "pf_page f = 0" and "1 \<le> pf_limit f"
  shows "pages (\<lambda>after. map_prod id (map_option (list_cursor_of (pf_sort f))) (cut_page (pf_limit f) (list_page pg (f\<lparr>pf_after := after\<rparr>) rows)))
    (list_rest pg f rows)"
proof (cases "pf_sort f = ''title''")
  case True
  let ?key = "\<lambda>p :: product. (pt_key pg (pr_title p), pr_id p)"
  show ?thesis
    unfolding pages_def
  proof
    fix after :: "list_cursor option"
    let ?k = "case after of None \<Rightarrow> None | Some k \<Rightarrow> map_option (\<lambda>t. (pt_key pg t, lc_id k)) (lc_title k)"
    show "case map_prod id (map_option (list_cursor_of (pf_sort f))) (cut_page (pf_limit f) (list_page pg (f\<lparr>pf_after := after\<rparr>) rows)) of
       (xs, None) \<Rightarrow> list_rest pg f rows after = xs | (xs, Some k) \<Rightarrow> list_rest pg f rows after = xs @ list_rest pg f rows (Some k) \<and> xs \<noteq> []"
      using cut_fetch [of ?key rows "pf_limit f" False ?k, OF distinct_keys [OF assms(1)] assms(3)] True assms(2)
      by (auto simp: list_page_def list_rest_def list_cursor_of_def map_prod_def split: prod.splits option.splits)
  qed
next
  case False
  let ?key = "\<lambda>p :: product. (if pf_sort f = ''-updated_at'' then pr_updated_at p else pr_created_at p, pr_id p)"
  show ?thesis
    unfolding pages_def
  proof
    fix after :: "list_cursor option"
    let ?k = "case after of None \<Rightarrow> None | Some k \<Rightarrow> map_option (\<lambda>t. (t, lc_id k)) (lc_at k)"
    show "case map_prod id (map_option (list_cursor_of (pf_sort f))) (cut_page (pf_limit f) (list_page pg (f\<lparr>pf_after := after\<rparr>) rows)) of
       (xs, None) \<Rightarrow> list_rest pg f rows after = xs | (xs, Some k) \<Rightarrow> list_rest pg f rows after = xs @ list_rest pg f rows (Some k) \<and> xs \<noteq> []"
      using cut_fetch [of ?key rows "pf_limit f" True ?k, OF distinct_keys [OF assms(1)] assms(3)] False assms(2)
      by (auto simp: list_page_def list_rest_def list_cursor_of_def map_prod_def split: prod.splits option.splits if_splits)
  qed
qed

lemma pages_map: "pages page rest \<Longrightarrow> pages (\<lambda>a. map_prod (map g) id (page a)) (\<lambda>a. map g (rest a))"
  unfolding pages_def by (auto simp: map_prod_def split: prod.splits option.splits)

lemma cut_page_map: "1 \<le> limit \<Longrightarrow> cut_page limit (map g rows) = map_prod (map g) (map_option g) (cut_page limit rows)"
  by (auto simp: cut_page_def take_map nth_map)

lemma list_answer_page:
  assumes "c_tenant c = Some t" and "pf_page f = 0" and "1 \<le> pf_limit f"
  shows "list_answer pg fl c f s after = map_prod (map (list_row fl c s)) id (map_prod id (map_option (list_cursor_of (pf_sort f)))
    (cut_page (pf_limit f) (list_page pg (f\<lparr>pf_after := after\<rparr>) (filter (list_match pg c f s) (own_products c s)))))"
proof -
  have m: "list_match pg c (f\<lparr>pf_after := after\<rparr>) s = list_match pg c f s"
    by (rule ext) (simp add: list_match_def cong: option.case_cong)
  show ?thesis
    using assms
    by (simp add: list_answer_def list_products_def list_products_tx_def in_tenant_tx_def run_tx_def tx_eval bad_offset_def Let_def m
        cut_page_map map_prod_def split: prod.splits)
qed

lemma rest_of_same: "set (rest_of desc key None rows) = set rows" "distinct rows \<Longrightarrow> distinct (rest_of desc key None rows)"
  "length (rest_of desc key None rows) = length rows"
  by (simp_all add: rest_of_def in_order_def past_def)

lemma listed_rows:
  "set (listed pg c f s) = {p \<in> set (own_products c s). list_match pg c f s p}"
  "length (listed pg c f s) = length (filter (list_match pg c f s) (own_products c s))"
  by (simp_all add: listed_def list_rest_def rest_of_same)

text \<open>C15. The catalog list in pages is the catalog list (P1-030, P1-231): starting without a cursor and following every
  page's cursor, with the sort and the page size of the filter, reads exactly the rows of the products that match,
  each once, in the order of the list, and comes to an end after at most as many requests as there are matches and
  one more. The total of every page is the number of matches.\<close>

theorem list_pages_whole:
  assumes "c_tenant c = Some t" and "distinct (map pr_id (own_products c s))" and "pf_page f = 0" and "1 \<le> pf_limit f"
    and "length (listed pg c f s) < fuel"
  shows "walk fuel (list_answer pg fl c f s) None = Some (map (list_row fl c s) (listed pg c f s)) \<and>
    set (listed pg c f s) = {p \<in> set (own_products c s). list_match pg c f s p} \<and> distinct (listed pg c f s) \<and>
    (\<exists>out. list_products pg fl c f s = (Inr out, s) \<and> pl_total out = int (length (listed pg c f s)))"
proof -
  let ?hits = "filter (list_match pg c f s) (own_products c s)"
  have ids: "distinct (map pr_id ?hits)" by (rule distinct_map_filter [OF assms(2)])
  have "pages (list_answer pg fl c f s) (\<lambda>a. map (list_row fl c s) (list_rest pg f ?hits a))"
    unfolding list_answer_page [OF assms(1,3,4), abs_def] by (rule pages_map [OF list_page_law [OF ids assms(3,4)]])
  from walk_whole [OF this, of None fuel] have
    "walk fuel (list_answer pg fl c f s) None = Some (map (list_row fl c s) (listed pg c f s))"
    using assms(5) by (simp add: listed_def)
  moreover have "distinct (listed pg c f s)"
    unfolding listed_def list_rest_def using ids by (auto intro: rest_of_same(2) simp: distinct_map)
  ultimately show ?thesis
    using assms(1,3) listed_rows [of pg c f s]
    by (auto simp: list_products_def list_products_tx_def in_tenant_tx_def run_tx_def tx_eval bad_offset_def Let_def split: prod.splits)
qed

text \<open>Two drafts of one shop, one to a page.\<close>

definition listed_product :: "uuid \<Rightarrow> string \<Rightarrow> product" where
  "listed_product i title = \<lparr>pr_id = i, pr_tenant = 1, pr_title = title, pr_slug = title, pr_description = None, pr_brand = None,
     pr_status = S_draft, pr_attributes = ''{}'', pr_option_names = [], pr_version = 1, pr_archived_at = None,
     pr_created_at = 0, pr_updated_at = 0\<rparr>"

definition two_drafts :: db where
  "two_drafts = empty_db\<lparr>products := [listed_product 1 ''teh'', listed_product 2 ''kopi'']\<rparr>"

definition list_ctx :: ctx where
  "list_ctx = \<lparr>c_tenant = Some 1, c_actor = None, c_ip = None, c_role = None, c_now = 100, c_clock = 100\<rparr>"

definition by_title :: product_filter where
  "by_title = \<lparr>pf_status = None, pf_brand = None, pf_category = None, pf_q = None, pf_sort = ''title'', pf_after = None, pf_page = 0, pf_limit = 1\<rparr>"

definition list_pg :: pg_text where
  "list_pg = \<lparr>pt_fold = (\<lambda>x. x), pt_key = (\<lambda>x. x), pt_ilike = (\<lambda>_ _. True)\<rparr>"

definition list_files :: files where
  "list_files = \<lparr>fl_url = (\<lambda>k. k), fl_keys = (\<lambda>_. [])\<rparr>"

lemma two_drafts_hits: "filter (list_match list_pg list_ctx by_title two_drafts) (own_products list_ctx two_drafts) = [listed_product 1 ''teh'', listed_product 2 ''kopi'']"
  by (simp add: own_products_def two_drafts_def rows_of_def listed_product_def list_ctx_def tenant_of_def list_match_def by_title_def like_pattern_def)

lemma two_drafts_listed: "length (listed list_pg list_ctx by_title two_drafts) < 3"
  by (simp add: listed_rows two_drafts_hits)

theorem list_pages_whole_witness:
  "walk 3 (list_answer list_pg list_files list_ctx by_title two_drafts) None = Some (map (list_row list_files list_ctx two_drafts) (listed list_pg list_ctx by_title two_drafts))"
  using list_pages_whole [OF _ _ _ _ two_drafts_listed, of 1 list_files]
  by (simp add: own_products_def two_drafts_def rows_of_def listed_product_def list_ctx_def tenant_of_def by_title_def)

end
