(* ===== verification/MatrixGrid.thy ===== *)
theory MatrixGrid
  imports Matrix Trims
begin

text \<open>
  What a full save of the variant matrix leaves behind (BR-040, BR-041): the live variants of the product are the
  combinations of the grid.\<close>

section \<open>Cells\<close>

definition cell_of :: "variant \<Rightarrow> string" where
  "cell_of v = grid_key (va_option_values v)"

text \<open>The live cells of a product, with the variant that fills each, and what never changes of a variant's row.\<close>

definition live_cells :: "uuid \<Rightarrow> uuid \<Rightarrow> db \<Rightarrow> (uuid \<times> string) set" where
  "live_cells t pid s = (\<lambda>v. (va_id v, cell_of v)) ` {v \<in> set (variants s). va_tenant v = t \<and> va_product v = pid \<and> va_archived_at v = None}"

definition face :: "variant \<Rightarrow> uuid \<times> uuid \<times> uuid \<times> string" where
  "face v = (va_id v, va_tenant v, va_product v, cell_of v)"

definition variant_ids :: "db \<Rightarrow> uuid list" where
  "variant_ids s = map va_id (variants s)"

text \<open>
  A step that adds live cells under the keys \<open>K\<close> only and takes none away; \<open>N\<close> are rows known to be there.\<close>

definition grid_step :: "uuid \<Rightarrow> uuid \<Rightarrow> (uuid \<times> uuid \<times> uuid \<times> string) set \<Rightarrow> string set \<Rightarrow> db \<Rightarrow> db \<Rightarrow> bool" where
  "grid_step t pid N K s s' \<longleftrightarrow> (distinct (variant_ids s) \<and> N \<subseteq> face ` set (variants s) \<longrightarrow>
     distinct (variant_ids s') \<and> N \<subseteq> face ` set (variants s') \<and>
     live_cells t pid s \<subseteq> live_cells t pid s' \<and> live_cells t pid s' \<subseteq> live_cells t pid s \<union> UNIV \<times> K)"

interpretation grid: tx_relation "grid_step t pid N K" for t pid N K
  by unfold_locales (unfold grid_step_def, blast+)

lemma live_cells_iff: "(i, k) \<in> live_cells t pid s \<longleftrightarrow>
    (\<exists>v \<in> set (variants s). va_id v = i \<and> cell_of v = k \<and> va_tenant v = t \<and> va_product v = pid \<and> va_archived_at v = None)"
  by (auto simp: live_cells_def)

lemma live_variants_cells: "tenant_of c = t \<Longrightarrow> (\<lambda>v. (va_id v, cell_of v)) ` set (live_variants c pid s) = live_cells t pid s"
  by (auto simp: live_variants_def rows_of_def live_cells_def)

text \<open>Rows rewritten one by one, keeping what the cells show.\<close>

lemma same_rows_step:
  assumes "variants s' = map g (variants s)"
    and "\<And>v. face (g v) = face v \<and> (va_archived_at (g v) = None \<longleftrightarrow> va_archived_at v = None)"
  shows "grid_step t pid N K s s'"
proof -
  have g: "va_id (g v) = va_id v" "va_tenant (g v) = va_tenant v" "va_product (g v) = va_product v" "cell_of (g v) = cell_of v" for v
    using assms(2) [of v] by (simp_all add: face_def)
  have "variant_ids s' = variant_ids s" by (simp add: variant_ids_def assms(1) g)
  moreover have "face ` set (variants s') = face ` set (variants s)" using assms(2) by (simp add: assms(1) image_image)
  moreover have "live_cells t pid s' = live_cells t pid s"
    by (intro equalityI subrelI) (simp_all add: live_cells_iff assms(1) g assms(2))
  ultimately show ?thesis by (simp add: grid_step_def)
qed

lemma same_state_step: "(\<And>s x s'. m s = Inr (x, s') \<Longrightarrow> s' = s) \<Longrightarrow> within (grid_step t pid N K) m"
  by (metis grid.R_refl withinI)

lemma upd_variant_map: "variants (upd_variant t i f s) = map (\<lambda>v. if va_tenant v = t \<and> va_id v = i then f v else v) (variants s)"
  by (simp add: upd_variant_def row_upd_def)

lemma update_variant_grid: "within (grid_step t pid N K) (update_variant c p)"
proof (rule withinI)
  fix s x s' assume "update_variant c p s = Inr (x, s')"
  then obtain v where u: "variant_unique (updated_variant c p v) s = Inr ((), s)" and s': "s' = upd_variant (tenant_of c) (uv_id p) (updated_variant c p) s"
    by (auto simp: update_variant_def tx_inr variant_checks_def variant_unique_def)
  show "grid_step t pid N K s s'"
    by (rule same_rows_step [OF s' [THEN arg_cong [of _ _ variants], unfolded upd_variant_map]])
      (simp add: face_def cell_of_def updated_variant_def edited_variant_def)
qed

lemma check_sku_grid: "within (grid_step t pid N K) (check_sku c sku i)"
  by (rule same_state_step) (auto simp: check_sku_def split: option.splits if_splits)

text \<open>Restoring a row of the product fills its cell.\<close>

lemma restore_variant_grid:
  assumes "tenant_of c = t" and "(i, t, pid, k) \<in> N" and "k \<in> K"
  shows "within (grid_step t pid N K) (restore_variant c i)"
proof (rule withinI)
  fix s x s' assume "restore_variant c i s = Inr (x, s')"
  then have vs: "variants s' = map (\<lambda>v. if va_tenant v = t \<and> va_id v = i then restored_variant c v else v) (variants s)" (is "_ = map ?g _")
    using assms(1) by (auto simp: restore_variant_def tx_inr upd_variant_map)
  have g: "face (?g v) = face v" "va_id (?g v) = va_id v" for v by (simp_all add: face_def cell_of_def restored_variant_def)
  show "grid_step t pid N K s s'"
    unfolding grid_step_def
  proof (intro impI conjI; elim conjE)
    assume d: "distinct (variant_ids s)" and n: "N \<subseteq> face ` set (variants s)"
    show "distinct (variant_ids s')" using d by (simp add: variant_ids_def vs g(2) comp_def cong: map_cong)
    show "N \<subseteq> face ` set (variants s')" using n by (simp only: vs set_map image_image g(1))
    show "live_cells t pid s \<subseteq> live_cells t pid s'"
    proof (rule subrelI)
      fix j q assume "(j, q) \<in> live_cells t pid s"
      then obtain v where v: "v \<in> set (variants s)" "va_id v = j" "cell_of v = q" "va_tenant v = t" "va_product v = pid" "va_archived_at v = None"
        by (auto simp: live_cells_iff)
      then have "?g v \<in> set (variants s')" unfolding vs by auto
      then show "(j, q) \<in> live_cells t pid s'"
        unfolding live_cells_iff by (rule rev_bexI) (use v in \<open>simp add: restored_variant_def cell_of_def\<close>)
    qed
    have "(i, t, pid, k) \<in> face ` set (variants s)" by (rule subsetD [OF n assms(2)])
    then obtain w where w: "w \<in> set (variants s)" "face w = (i, t, pid, k)" by (elim imageE) simp
    have cell: "cell_of v = k" if "v \<in> set (variants s)" "va_id v = i" for v
    proof -
      have "inj_on va_id (set (variants s))" using d by (simp add: variant_ids_def distinct_map)
      then have "v = w" by (rule inj_onD) (use that w in \<open>simp_all add: face_def\<close>)
      then show ?thesis using w(2) by (simp add: face_def)
    qed
    show "live_cells t pid s' \<subseteq> live_cells t pid s \<union> UNIV \<times> K"
    proof (intro subrelI)
      fix j q assume "(j, q) \<in> live_cells t pid s'"
      then obtain v where v: "v \<in> set (variants s)" "va_id (?g v) = j" "cell_of (?g v) = q" "va_tenant (?g v) = t" "va_product (?g v) = pid"
        "va_archived_at (?g v) = None"
        by (simp only: live_cells_iff vs set_map bex_simps) blast
      show "(j, q) \<in> live_cells t pid s \<union> UNIV \<times> K"
      proof (cases "va_tenant v = t \<and> va_id v = i")
        case True
        then show ?thesis using cell v assms(3) by (simp add: restored_variant_def cell_of_def)
      next
        case False
        then have "?g v = v" by (simp only: if_False)
        then show ?thesis using v by (simp only: Un_iff live_cells_iff) blast
      qed
    qed
  qed
qed

lemma create_variant_grid:
  assumes "tenant_of c = t" and "cell_of (new_variant c p) \<in> K"
  shows "within (grid_step t pid N K) (create_variant c p)"
proof (rule withinI)
  fix s x s' assume "create_variant c p s = Inr (x, s')"
  then have s': "variants s' = variants s @ [new_variant c p]" "va_id (new_variant c p) \<notin> va_id ` set (variants s)"
    by (auto simp: create_variant_def Let_def tx_inr variant_checks_def variant_unique_def)
  have "live_cells t pid s' \<subseteq> insert (va_id (new_variant c p), cell_of (new_variant c p)) (live_cells t pid s)" "live_cells t pid s \<subseteq> live_cells t pid s'"
    by (intro subrelI; simp only: live_cells_iff s'(1) set_append bex_Un list.set insert_iff prod.inject bex_simps; blast)+
  then show "grid_step t pid N K s s'"
    using assms(2) s' unfolding grid_step_def by (auto simp: variant_ids_def)
qed

section \<open>Rows\<close>

lemma save_fields_grid: "within (grid_step t pid N K) (save_fields c v f)"
  unfolding save_fields_def by (intro grid.rules check_sku_grid update_variant_grid)

definition known :: "uuid \<Rightarrow> uuid \<Rightarrow> (uuid \<times> uuid \<times> uuid \<times> string) set \<Rightarrow> string \<Rightarrow> variant option \<Rightarrow> bool" where
  "known t pid N k arch \<longleftrightarrow> (case arch of None \<Rightarrow> True | Some a \<Rightarrow> (va_id a, t, pid, k) \<in> N)"

lemma new_cell: "cell_of (new_variant c (create_params i pid vs f)) = grid_key vs"
  by (simp add: cell_of_def new_variant_def create_params_def)

lemma apply_row_grid:
  assumes "tenant_of c = t" and "grid_key (mx_options row) \<in> K" and "known t pid N (grid_key (mx_options row)) arch"
  shows "within (grid_step t pid N K) (apply_row c pid fresh row live arch)"
proof (cases live)
  case (Some v)
  show ?thesis
    unfolding apply_row_def Let_def Some option.case by (intro grid.branch grid.seq grid.ret save_fields_grid)
next
  case None
  show ?thesis
  proof (cases arch)
    case (Some a)
    have "within (grid_step t pid N K) (restore_variant c (va_id a))"
      by (rule restore_variant_grid [OF assms(1) _ assms(2)]) (use assms(3) Some in \<open>simp add: known_def\<close>)
    then show ?thesis
      unfolding apply_row_def Let_def None Some option.case by (intro grid.seq grid.ret save_fields_grid)
  next
    case None': None
    have "within (grid_step t pid N K) (create_variant c (create_params fresh pid (mx_options row) (mx_fields row)))"
      by (rule create_variant_grid [OF assms(1)]) (simp only: new_cell assms(2))
    then show ?thesis
      unfolding apply_row_def Let_def None None' option.case by (intro grid.seq grid.bind grid.ret check_sku_grid)
  qed
qed

text \<open>A row that did not fail has a live variant in its cell.\<close>

lemma restored_cell:
  assumes "tenant_of c = t" and "(i, t, pid, k) \<in> face ` set (variants s)" and "restore_variant c i s = Inr (x, s')"
  shows "(i, k) \<in> live_cells t pid s'"
proof -
  from assms(2) obtain w where w: "w \<in> set (variants s)" "face w = (i, t, pid, k)" by (elim imageE) simp
  then have "restored_variant c w \<in> set (variants s')"
    using assms(1,3) by (force simp: restore_variant_def tx_inr upd_variant_map face_def)
  then show ?thesis
    unfolding live_cells_iff by (rule rev_bexI) (use w(2) in \<open>simp add: restored_variant_def face_def cell_of_def\<close>)
qed

lemma created_cell:
  assumes "tenant_of c = t" and "create_variant c (create_params i pid vs f) s = Inr (x, s')"
  shows "(i, grid_key vs) \<in> live_cells t pid s'"
proof -
  have "new_variant c (create_params i pid vs f) \<in> set (variants s')"
    using assms(2) by (auto simp: create_variant_def Let_def tx_inr variant_checks_def variant_unique_def)
  then show ?thesis
    unfolding live_cells_iff by (rule rev_bexI) (use assms(1) in \<open>simp add: cell_of_def new_variant_def create_params_def\<close>)
qed

lemma live_cells_kept:
  assumes "within (grid_step t pid N K) m" and "m s = Inr (x, s')" and "distinct (variant_ids s)" and "N \<subseteq> face ` set (variants s)"
  shows "live_cells t pid s \<subseteq> live_cells t pid s'" "live_cells t pid s' \<subseteq> live_cells t pid s \<union> UNIV \<times> K"
    "distinct (variant_ids s')" "N \<subseteq> face ` set (variants s')"
  using withinD [OF assms(1,2)] assms(3,4) unfolding grid_step_def by blast+

text \<open>One row of the grid, given what the save read before its first row.\<close>

definition placed :: "uuid \<Rightarrow> uuid \<Rightarrow> (uuid \<times> uuid \<times> uuid \<times> string) set \<Rightarrow> (uuid \<times> string) set \<Rightarrow> (string \<Rightarrow> variant option) \<Rightarrow> (string \<Rightarrow> variant option) \<Rightarrow> bool" where
  "placed t pid N L live arch \<longleftrightarrow> (\<forall>k v. live k = Some v \<longrightarrow> (va_id v, k) \<in> L) \<and> (\<forall>k. known t pid N k (arch k))"

lemma apply_row_cell:
  assumes t: "tenant_of c = t" and m: "apply_row c pid fresh row live arch s = Inr (r, s')" and k: "k = grid_key (mx_options row)"
    and live: "\<And>v. live = Some v \<Longrightarrow> (va_id v, k) \<in> live_cells t pid s" and arch: "known t pid N k arch"
    and d: "distinct (variant_ids s)" "N \<subseteq> face ` set (variants s)"
  shows "\<exists>i. (i, k) \<in> live_cells t pid s'"
proof (cases live)
  case (Some v)
  have "within (grid_step t pid N {k}) (apply_row c pid fresh row live arch)"
    by (rule apply_row_grid [OF t]) (simp_all add: k [symmetric] arch)
  from live_cells_kept(1) [OF this m d] live [OF Some] show ?thesis by blast
next
  case None
  show ?thesis
  proof (cases arch)
    case (Some a)
    then obtain s1 x where r: "restore_variant c (va_id a) s = Inr ((), s1)"
      and sf: "save_fields c (a\<lparr>va_version := va_version a + 1\<rparr>) (mx_fields row) s1 = Inr (x, s')"
      using m None by (auto simp: apply_row_def Let_def tx_inr)
    have n: "(va_id a, t, pid, k) \<in> N" using arch Some by (simp add: known_def)
    then have "within (grid_step t pid N {k}) (restore_variant c (va_id a))" by (rule restore_variant_grid [OF t]) simp
    from live_cells_kept [OF this r d] have d1: "distinct (variant_ids s1)" "N \<subseteq> face ` set (variants s1)" by blast+
    have "(va_id a, k) \<in> live_cells t pid s1" by (rule restored_cell [OF t subsetD [OF d(2) n] r])
    with live_cells_kept(1) [OF save_fields_grid sf d1] show ?thesis by blast
  next
    case None': None
    then obtain s1 i where "create_variant c (create_params fresh pid (mx_options row) (mx_fields row)) s1 = Inr (i, s')"
      using m None by (auto simp: apply_row_def Let_def tx_inr)
    from created_cell [OF t this] show ?thesis unfolding k by blast
  qed
qed

abbreviation grid_rows where
  "grid_rows c pid live arch rows \<equiv> eachT (\<lambda>(fresh, row). matrix_row_tx c pid fresh row (live (grid_key (mx_options row))) (arch (grid_key (mx_options row)))) rows"

lemma matrix_row_grid:
  assumes "tenant_of c = t" and "grid_key (mx_options row) \<in> K" and "known t pid N (grid_key (mx_options row)) arch"
  shows "within (grid_step t pid N K) (matrix_row_tx c pid fresh row live arch)"
  unfolding matrix_row_tx_def by (intro grid.bind grid.savepoint grid.sum grid.ret apply_row_grid [OF assms])

lemma matrix_row_done:
  assumes "matrix_row_tx c pid fresh row live arch s = Inr (r, s')" and "rr_status r \<noteq> S_error"
  shows "apply_row c pid fresh row live arch s = Inr (r, s')"
  using assms by (cases "apply_row c pid fresh row live arch s") (auto simp: matrix_row_tx_def bindT_def tryT_def retT_def row_failed_def Let_def)

lemma grid_rows_cells:
  assumes t: "tenant_of c = t" and p: "placed t pid N L live arch"
  shows "grid_rows c pid live arch rows s = Inr (rs, s') \<Longrightarrow> counted S_error rs = 0 \<Longrightarrow> L \<subseteq> live_cells t pid s \<Longrightarrow>
     distinct (variant_ids s) \<Longrightarrow> N \<subseteq> face ` set (variants s) \<Longrightarrow> (grid_key \<circ> mx_options \<circ> snd) ` set rows \<subseteq> K \<Longrightarrow>
     live_cells t pid s \<subseteq> live_cells t pid s' \<and> live_cells t pid s' \<subseteq> live_cells t pid s \<union> UNIV \<times> K \<and> distinct (variant_ids s') \<and>
     (grid_key \<circ> mx_options \<circ> snd) ` set rows \<subseteq> snd ` live_cells t pid s'"
proof (induction rows arbitrary: s rs)
  case Nil
  then show ?case by simp
next
  case (Cons x rows)
  obtain fresh row where x: "x = (fresh, row)" by (cases x)
  let ?k = "grid_key (mx_options row)"
  obtain r s1 rs' where m: "matrix_row_tx c pid fresh row (live ?k) (arch ?k) s = Inr (r, s1)" and rest: "grid_rows c pid live arch rows s1 = Inr (rs', s')"
    and rs: "rs = r # rs'" using Cons.prems(1) by (auto simp: x tx_inr)
  have ok: "rr_status r \<noteq> S_error" "counted S_error rs' = 0" using Cons.prems(2) by (auto simp: rs counted_def split: if_splits)
  have kn: "known t pid N ?k (arch ?k)" using p by (simp add: placed_def)
  have "?k \<in> K" using Cons.prems(6) by (simp add: x)
  from live_cells_kept [OF matrix_row_grid [OF t this kn] m Cons.prems(4,5)] have
    s1: "live_cells t pid s \<subseteq> live_cells t pid s1" "live_cells t pid s1 \<subseteq> live_cells t pid s \<union> UNIV \<times> K" "distinct (variant_ids s1)" "N \<subseteq> face ` set (variants s1)"
    by blast+
  have "(va_id v, ?k) \<in> live_cells t pid s" if "live ?k = Some v" for v
    using p that Cons.prems(3) unfolding placed_def by blast
  then have cell: "?k \<in> snd ` live_cells t pid s1"
    using apply_row_cell [OF t matrix_row_done [OF m ok(1)] refl _ kn Cons.prems(4,5)] by force
  have "L \<subseteq> live_cells t pid s1" "(grid_key \<circ> mx_options \<circ> snd) ` set rows \<subseteq> K" using Cons.prems(3,6) s1(1) by auto
  from Cons.IH [OF rest ok(2) this(1) s1(3,4) this(2)] s1(1,2) cell show ?case by (auto simp: x)
qed

section \<open>The save\<close>

lemma archive_missing_cells:
  assumes t: "tenant_of c = t"
  shows "eachT (\<lambda>v. archive_variant c (va_id v)) vs s = Inr (ids, s') \<Longrightarrow> ids = map va_id vs \<and> live_cells t pid s' = {x \<in> live_cells t pid s. fst x \<notin> va_id ` set vs}"
proof (induction vs arbitrary: s ids)
  case (Cons v vs)
  obtain i s1 gone where a: "archive_variant c (va_id v) s = Inr (i, s1)" and rest: "eachT (\<lambda>v. archive_variant c (va_id v)) vs s1 = Inr (gone, s')"
    and ids: "ids = i # gone" using Cons.prems by (auto simp: tx_inr)
  have s1: "s1 = upd_variant t (va_id v) (archived_variant c) s" and i: "i = va_id v"
    using a t by (auto simp: archive_variant_def tx_inr get_variant_row_def dest!: row_get_Some split: option.splits)
  have "live_cells t pid s1 = {x \<in> live_cells t pid s. fst x \<noteq> va_id v}"
  proof (intro set_eqI)
    fix x :: "uuid \<times> string" obtain j q where x: "x = (j, q)" by (cases x)
    show "x \<in> live_cells t pid s1 \<longleftrightarrow> x \<in> {x \<in> live_cells t pid s. fst x \<noteq> va_id v}"
      unfolding x s1 mem_Collect_eq live_cells_iff upd_variant_map set_map bex_simps fst_conv
      by (auto simp: archived_variant_def cell_of_def)
  qed
  with Cons.IH [OF rest] show ?case by (auto simp: ids i)
qed simp

lemma bump_product_cells: "bump_product c pid names s = Inr (v, s') \<Longrightarrow> variants s' = variants s"
  by (auto simp: bump_product_def tx_inr upd_product_def)

lemma live_cells_variants: "variants s' = variants s \<Longrightarrow> live_cells t pid s' = live_cells t pid s"
  by (simp add: live_cells_def)

lemma find_found: "find P xs = Some x \<Longrightarrow> x \<in> set xs \<and> P x"
  by (induction xs) (auto split: if_splits)

lemma live_at_found: "live_at vs k = Some v \<Longrightarrow> v \<in> set vs \<and> va_archived_at v = None \<and> cell_of v = k"
  unfolding live_at_def cell_of_def by (drule find_found) simp

lemma archived_at_found: "archived_at vs k = Some v \<Longrightarrow> v \<in> set vs \<and> cell_of v = k"
  unfolding archived_at_def cell_of_def by (drule find_found) simp

text \<open>What the save read of the product's variants, looked up by cell.\<close>

definition read_variants :: "ctx \<Rightarrow> uuid \<Rightarrow> db \<Rightarrow> variant list" where
  "read_variants c pid s = map vv_row (map (view_of c) (sort_key va_id (filter (\<lambda>v. va_product v = pid) (own_variants c s))))"

lemma read_variants_alt: "map (vv_row \<circ> view_of c) (sort_key va_id (filter (\<lambda>v. va_product v = pid) (own_variants c s))) = read_variants c pid s"
  by (simp add: read_variants_def)

lemma read_variants_set: "tenant_of c = t \<Longrightarrow> set (read_variants c pid s) = {v \<in> set (variants s). va_tenant v = t \<and> va_product v = pid}"
  by (auto simp: read_variants_def view_of_def own_variants_def rows_of_def)

lemma read_placed:
  assumes "tenant_of c = t"
  shows "placed t pid (face ` set (variants s)) (live_cells t pid s) (live_at (read_variants c pid s)) (archived_at (read_variants c pid s))"
  unfolding placed_def
proof (intro conjI allI impI)
  fix k v assume "live_at (read_variants c pid s) k = Some v"
  then have "v \<in> set (read_variants c pid s)" "va_archived_at v = None" "cell_of v = k"
    using live_at_found by blast+
  then show "(va_id v, k) \<in> live_cells t pid s" unfolding read_variants_set [OF assms] live_cells_def by auto
next
  fix k show "known t pid (face ` set (variants s)) k (archived_at (read_variants c pid s) k)"
  proof (cases "archived_at (read_variants c pid s) k")
    case (Some v)
    then have "v \<in> set (read_variants c pid s)" "cell_of v = k"
      using archived_at_found by blast+
    then have "face v = (va_id v, t, pid, k)" "v \<in> set (variants s)" unfolding read_variants_set [OF assms] by (simp_all add: face_def)
    then show ?thesis using Some by (auto simp: known_def image_iff intro!: bexI [of _ v])
  qed (simp add: known_def)
qed

text \<open>No two live variants of a product stand in one cell.\<close>

definition cells_apart :: "ctx \<Rightarrow> uuid \<Rightarrow> db \<Rightarrow> bool" where
  "cells_apart c pid s \<longleftrightarrow> distinct (map cell_of (live_variants c pid s))"

lemma missing_cells:
  assumes t: "tenant_of c = t" and "cells_apart c pid s" and "(i, q) \<in> live_cells t pid s"
  shows "i \<in> va_id ` set (missing (read_variants c pid s) rows) \<or> q \<in> (grid_key \<circ> mx_options) ` set rows"
proof -
  obtain v where v: "v \<in> set (live_variants c pid s)" "va_id v = i" "cell_of v = q"
    using assms(3) unfolding live_variants_cells [OF t, symmetric] by auto
  then have r: "v \<in> set (read_variants c pid s)" "va_archived_at v = None"
    unfolding read_variants_set [OF t] by (auto simp: live_variants_def rows_of_def t)
  have "live_at (read_variants c pid s) q \<noteq> None"
    using r v(3) by (auto simp: live_at_def find_None_iff cell_of_def)
  then obtain w where w: "live_at (read_variants c pid s) q = Some w" by blast
  then have "w \<in> set (read_variants c pid s)" "va_archived_at w = None" "cell_of w = q"
    using live_at_found by blast+
  then have "w \<in> set (live_variants c pid s)" unfolding read_variants_set [OF t] by (auto simp: live_variants_def rows_of_def t)
  then have "w = v"
    using assms(2) v(1,3) \<open>cell_of w = q\<close> unfolding cells_apart_def distinct_map by (auto dest: inj_onD)
  then show ?thesis
    using r v w by (cases "q \<in> (grid_key \<circ> mx_options) ` set rows") (auto simp: missing_def cell_of_def)
qed

lemma save_matrix_parts:
  assumes "c_tenant c = Some t" and "save_matrix lower pick c pid version names rows True s = (Inr out, s')"
  shows "\<exists>s1 s2 s3 results. variants s1 = variants s \<and>
    grid_rows c pid (live_at (read_variants c pid s)) (archived_at (read_variants c pid s)) rows s1 = Inr (results, s2) \<and>
    eachT (\<lambda>v. archive_variant c (va_id v)) (pick (missing (read_variants c pid s) (map snd rows))) s2 = Inr (mr_archived_ids out, s3) \<and>
    variants s' = variants s3 \<and> mr_failed out = counted S_error results \<and> mr_results out = results"
proof -
  have "save_matrix_tx pick c pid version names rows True s = Inr (out, s')"
    using assms by (auto simp: save_matrix_def in_tenant_tx_def run_tx_Inr split: option.splits)
  then show ?thesis
    unfolding save_matrix_tx_def
    by (auto simp: tx_inr all_variants_def audit_def Let_def add_audit_def read_variants_alt lock_product_def oneT_def
        dest!: bump_product_cells split: if_splits option.splits)
qed

lemma cell_unique: "distinct (variant_ids s) \<Longrightarrow> (i, q) \<in> live_cells t pid s \<Longrightarrow> (i, q') \<in> live_cells t pid s \<Longrightarrow> q = q'"
  unfolding live_cells_def variant_ids_def distinct_map by (auto dest: inj_onD)

text \<open>C11. A full save of the variant matrix leaves the grid (BR-040, BR-041): a save with archive_missing none of whose
  rows failed commits a product whose live variants stand in exactly the cells that were sent, whatever of the old
  variants was kept, restored from the archive, newly made or archived; the archived ones are those the answer names,
  and every row is counted. The product's live variants must stand in distinct cells before, which the unique index
  guarantees as long as no value holds the separator.\<close>

theorem matrix_leaves_grid:
  assumes "c_tenant c = Some t" and "save_matrix lower pick c pid version names rows True s = (Inr out, s')" and "mr_failed out = 0"
    and "distinct (map va_id (variants s))" and "cells_apart c pid s" and "set (pick (missing (read_variants c pid s) (map snd rows))) = set (missing (read_variants c pid s) (map snd rows))"
  shows "cell_of ` set (live_variants c pid s') = (grid_key \<circ> mx_options \<circ> snd) ` set rows \<and>
    set (mr_archived_ids out) = va_id ` set (missing (read_variants c pid s) (map snd rows)) \<and> length (mr_results out) = length rows"
proof -
  let ?K = "(grid_key \<circ> mx_options \<circ> snd) ` set rows" and ?N = "face ` set (variants s)" and ?gone = "missing (read_variants c pid s) (map snd rows)"
  have t: "tenant_of c = t" using assms(1) by (simp add: tenant_of_def)
  obtain s1 s2 s3 results where s1: "variants s1 = variants s"
    and rows: "grid_rows c pid (live_at (read_variants c pid s)) (archived_at (read_variants c pid s)) rows s1 = Inr (results, s2)"
    and arch: "eachT (\<lambda>v. archive_variant c (va_id v)) (pick ?gone) s2 = Inr (mr_archived_ids out, s3)"
    and s3: "variants s' = variants s3" and res0: "mr_failed out = counted S_error results" "mr_results out = results"
    using save_matrix_parts [OF assms(1,2)] by (elim exE conjE) (rule that)
  have res: "counted S_error results = 0" "mr_results out = results" using res0 assms(3) by simp_all
  have cells1: "live_cells t pid s1 = live_cells t pid s" by (rule live_cells_variants [OF s1])
  have "live_cells t pid s1 \<subseteq> live_cells t pid s2 \<and> live_cells t pid s2 \<subseteq> live_cells t pid s1 \<union> UNIV \<times> ?K \<and> distinct (variant_ids s2) \<and>
     ?K \<subseteq> snd ` live_cells t pid s2"
    by (rule grid_rows_cells [OF t read_placed [OF t] rows res(1)]) (use assms(4) in \<open>simp_all add: s1 cells1 variant_ids_def\<close>)
  then have up: "live_cells t pid s \<subseteq> live_cells t pid s2" and down: "live_cells t pid s2 \<subseteq> live_cells t pid s \<union> UNIV \<times> ?K"
    and ids: "distinct (variant_ids s2)" and sent: "?K \<subseteq> snd ` live_cells t pid s2"
    unfolding cells1 by blast+
  have fin: "live_cells t pid s3 = {x \<in> live_cells t pid s2. fst x \<notin> va_id ` set ?gone}" and gone: "mr_archived_ids out = map va_id (pick ?gone)"
    using archive_missing_cells [OF t arch] assms(6) by auto
  have "q \<in> ?K" if x: "(i, q) \<in> live_cells t pid s3" for i q
  proof (rule ccontr)
    assume q: "q \<notin> ?K"
    have "(i, q) \<in> live_cells t pid s2" "i \<notin> va_id ` set ?gone" using x unfolding fin by simp_all
    then have "(i, q) \<in> live_cells t pid s" using down q by blast
    from missing_cells [OF t assms(5) this, of "map snd rows"] q \<open>i \<notin> va_id ` set ?gone\<close> show False by (simp add: image_image comp_def)
  qed
  moreover have "\<exists>i. (i, q) \<in> live_cells t pid s3" if q: "q \<in> ?K" for q
  proof -
    from q sent obtain i where i: "(i, q) \<in> live_cells t pid s2" by force
    have "i \<notin> va_id ` set ?gone"
    proof
      assume "i \<in> va_id ` set ?gone"
      then obtain w where w: "w \<in> set ?gone" "va_id w = i" by blast
      then have c: "(i, cell_of w) \<in> live_cells t pid s2" "cell_of w \<notin> ?K"
        using up unfolding missing_def live_cells_def by (auto simp: read_variants_set [OF t] cell_of_def)
      have "q = cell_of w" by (rule cell_unique [OF ids i c(1)])
      then show False using c(2) q by (simp only:)
    qed
    with i show ?thesis unfolding fin by auto
  qed
  ultimately have "snd ` live_cells t pid s3 = ?K" by force
  moreover have "cell_of ` set (live_variants c pid s') = snd ` live_cells t pid s3"
    unfolding live_cells_variants [OF s3, symmetric] live_variants_cells [OF t, symmetric] by (simp add: image_image)
  ultimately show ?thesis using assms(6) gone res(2) eachT_same_length [OF rows] by simp
qed

text \<open>
  The separator is not kept out of a value that is not typed: two rows of different values then count as the same
  combination, and the save is refused as if one were repeated.\<close>

lemma grid_key_collides:
  "grid_key [''a'' @ [CHR 0x1F] @ ''b'', ''c''] = grid_key [''a'', ''b'' @ [CHR 0x1F] @ ''c'']"
  by (simp add: grid_key_def join_def)

text \<open>A product in two sizes, one of them archived; the grid asks for the archived one.\<close>

definition sized :: "uuid \<Rightarrow> string \<Rightarrow> instant option \<Rightarrow> variant" where
  "sized i label gone = \<lparr>va_id = i, va_tenant = 1, va_product = 20, va_sku = None, va_barcode = None, va_option_values = [label],
     va_regular_price = 100, va_sale_price = None, va_sale_starts_at = None, va_sale_ends_at = None, va_currency = ''IDR'',
     va_weight_grams = 10, va_archived_at = gone, va_version = 1, va_created_at = 0, va_updated_at = 0\<rparr>"

definition sized_product :: product where
  "sized_product = \<lparr>pr_id = 20, pr_tenant = 1, pr_title = ''Kaos'', pr_slug = ''kaos'', pr_description = None, pr_brand = None,
     pr_status = S_draft, pr_attributes = ''{}'', pr_option_names = [''Size''], pr_version = 3, pr_archived_at = None,
     pr_created_at = 0, pr_updated_at = 0\<rparr>"

definition sized_db :: db where
  "sized_db = empty_db\<lparr>products := [sized_product], variants := [sized 30 ''M'' None, sized 31 ''L'' (Some 5)]\<rparr>"

definition sized_ctx :: ctx where
  "sized_ctx = \<lparr>c_tenant = Some 1, c_actor = None, c_ip = None, c_role = None, c_now = 100, c_clock = 100\<rparr>"

definition sized_rows :: "(uuid \<times> matrix_row) list" where
  "sized_rows = [(40, \<lparr>mx_options = [''L''], mx_fields = \<lparr>vf_sku = None, vf_barcode = None, vf_clear_sku = False, vf_clear_barcode = False,
     vf_regular_price = Some 90, vf_sale_price = None, vf_clear_sale_price = False, vf_sale_starts_at = None, vf_sale_ends_at = None,
     vf_clear_sale_starts = False, vf_clear_sale = False, vf_weight_grams = None\<rparr>\<rparr>)]"

lemma sized_save: "check_grid (map ascii_lower) [''Size''] (map snd sized_rows) = None"
  by (simp add: check_grid_def sized_rows_def is_colour_def Let_def trim_space_visible visible_ascii_def)

abbreviation sized_result where
  "sized_result \<equiv> save_matrix_tx (\<lambda>vs. vs) sized_ctx 20 3 [''Size''] sized_rows True sized_db"

lemma sized_out: "case sized_result of Inl e \<Rightarrow> False | Inr (out, s') \<Rightarrow> mr_failed out = 0 \<and> mr_archived_ids out = [30]"
  by code_simp

lemma sized_cells: "distinct (map va_id (variants sized_db)) \<and> cells_apart sized_ctx 20 sized_db"
  by code_simp

theorem matrix_leaves_grid_witness:
  "case save_matrix (map ascii_lower) (\<lambda>vs. vs) sized_ctx 20 3 [''Size''] sized_rows True sized_db of
     (Inl e, s') \<Rightarrow> False
   | (Inr out, s') \<Rightarrow> mr_archived_ids out = [30] \<and> cell_of ` set (live_variants sized_ctx 20 s') = {''L''}"
proof -
  obtain out s' where tx: "sized_result = Inr (out, s')" and ok: "mr_failed out = 0" "mr_archived_ids out = [30]"
    using sized_out by (cases sized_result) auto
  then have m: "save_matrix (map ascii_lower) (\<lambda>vs. vs) sized_ctx 20 3 [''Size''] sized_rows True sized_db = (Inr out, s')"
    by (simp add: save_matrix_def sized_save in_tenant_tx_def run_tx_def sized_ctx_def)
  have "c_tenant sized_ctx = Some 1" by (simp add: sized_ctx_def)
  from matrix_leaves_grid [OF this m ok(1)] sized_cells have "cell_of ` set (live_variants sized_ctx 20 s') = {''L''}"
    by (simp add: sized_rows_def grid_key_def join_def)
  then show ?thesis unfolding m using ok(2) by simp
qed

end
