(* ===== verification/FreeNames.thy ===== *)
theory FreeNames
  imports Products CategoryQueries
begin

text \<open>
  The searches for a free name end: \<open>freeSlug\<close> and the loop of the trigger that names a category's path try one number
  after another, and among one more candidates than there are rows one is free.\<close>

lemma one_is_free:
  assumes "finite T" and "card T < k" and "inj_on g {n..<n + k}"
  shows "\<exists>i \<in> {n..<n + k}. g i \<notin> T"
proof (rule ccontr)
  assume "\<not> ?thesis"
  then have "g ` {n..<n + k} \<subseteq> T" by blast
  then have "card (g ` {n..<n + k}) \<le> card T" by (rule card_mono [OF assms(1)])
  then show False using assms(2) by (simp add: card_image [OF assms(3)])
qed

lemma itoa_inj: "itoa (int m) = itoa (int n) \<Longrightarrow> m = n"
  by (simp add: itoa_def itoa_nat_inj)

section \<open>Slugs\<close>

lemma slug_try_inj: "inj_on (slug_try base) {1..<1 + k}"
proof (rule inj_onI)
  fix m n assume mn: "m \<in> {1..<1 + k}" "n \<in> {1..<1 + k}" "slug_try base m = slug_try base n"
  consider "1 < m" "1 < n" | "1 < m" "n = 1" | "m = 1" "1 < n" | "m = 1" "n = 1" using mn(1,2) by (cases "m = 1"; cases "n = 1"; simp)
  then show "m = n" using mn(3) itoa_inj by cases (auto simp: slug_try_def)
qed

lemma first_free_found: "\<exists>i \<in> {n..<n + fuel}. \<not> taken (slug_try base i) \<Longrightarrow>
    \<exists>i. n \<le> i \<and> first_free fuel n base taken = Some (slug_try base i) \<and> \<not> taken (slug_try base i) \<and> list_all (\<lambda>m. taken (slug_try base m)) [n..<i]"
proof (induction fuel arbitrary: n)
  case (Suc fuel)
  show ?case
  proof (cases "taken (slug_try base n)")
    case True
    then have "\<exists>i \<in> {Suc n..<Suc n + fuel}. \<not> taken (slug_try base i)" using Suc.prems by (metis add_Suc_shift atLeastLessThan_iff le_antisym not_less_eq_eq)
    from Suc.IH [OF this] obtain i where "Suc n \<le> i" "first_free fuel (Suc n) base taken = Some (slug_try base i)"
      "\<not> taken (slug_try base i)" "list_all (\<lambda>m. taken (slug_try base m)) [Suc n..<i]" by blast
    then show ?thesis using True by (intro exI [of _ i]) (simp add: upt_conv_Cons)
  qed (auto intro: exI [of _ n])
qed simp

lemma slugs_taken: "{x. slug_taken_by c s x} \<subseteq> pr_slug ` set (products s)"
  by (auto simp: slug_taken_by_def list_ex_iff)

text \<open>C8. A slug is always found (BR-037): the search for a title's slug, which has no bound of its own in the code, ends
  for every shop and every title, at the first of base, base-2, base-3 and so on that no product of the shop has,
  archived ones included, and it changes nothing.\<close>

theorem free_slug_found:
  "\<exists>n. 1 \<le> n \<and> free_slug pg c title s = Inr (slug_try (slug_base pg title) n, s) \<and> \<not> slug_taken_by c s (slug_try (slug_base pg title) n) \<and>
    list_all (\<lambda>m. slug_taken_by c s (slug_try (slug_base pg title) m)) [1..<n]"
proof -
  let ?T = "{x. slug_taken_by c s x}"
  have fin: "finite ?T" using slugs_taken finite_subset by blast
  have "card ?T \<le> card (pr_slug ` set (products s))" by (rule card_mono [OF _ slugs_taken]) simp
  also have "\<dots> \<le> length (products s)" by (rule order_trans [OF card_image_le card_length]) simp
  finally have "card ?T < Suc (length (products s))" by simp
  from one_is_free [OF fin this slug_try_inj, of "slug_base pg title"]
  have "\<exists>i \<in> {1..<1 + Suc (length (products s))}. \<not> slug_taken_by c s (slug_try (slug_base pg title) i)" by simp
  from first_free_found [where taken = "slug_taken_by c s", OF this] show ?thesis
    by (auto simp: free_slug_def)
qed

section \<open>Category paths\<close>

lemma nth_label_inj: "inj_on (\<lambda>n. child_path parent (nth_label base n)) {0..<0 + k}"
  using itoa_inj by (intro inj_onI) (auto simp: child_path_def nth_label_def split: option.splits if_splits)

lemma next_path_ends: "\<exists>i \<in> {n..<n + fuel}. \<not> taken (child_path parent (nth_label base i)) \<Longrightarrow>
    \<exists>p. next_path fuel n parent base None taken = Inr p \<and> \<not> taken p"
proof (induction fuel arbitrary: n)
  case (Suc fuel)
  show ?case
  proof (cases "taken (child_path parent (nth_label base n))")
    case True
    then have "\<exists>i \<in> {Suc n..<Suc n + fuel}. \<not> taken (child_path parent (nth_label base i))"
      using Suc.prems by (metis add_Suc_shift atLeastLessThan_iff le_antisym not_less_eq_eq)
    from Suc.IH [OF this] show ?thesis using True by simp
  qed simp
qed simp

lemma category_path_found: "\<exists>p. next_path (Suc (length (categories s))) 0 parent base None (path_taken r s) = Inr p \<and> \<not> path_taken r s p"
proof (rule next_path_ends)
  let ?T = "{x. path_taken r s x}"
  have sub: "?T \<subseteq> cg_path ` set (categories s)" by (auto simp: path_taken_def list_ex_iff)
  have fin: "finite ?T" using sub finite_subset by blast
  have "card ?T \<le> card (cg_path ` set (categories s))" by (rule card_mono [OF _ sub]) simp
  also have "\<dots> \<le> length (categories s)" by (rule order_trans [OF card_image_le card_length]) simp
  finally have "card ?T < Suc (length (categories s))" by simp
  from one_is_free [OF fin this nth_label_inj, of parent base]
  show "\<exists>i \<in> {0..<0 + Suc (length (categories s))}. \<not> path_taken r s (child_path parent (nth_label base i))" by simp
qed

end
