(* ===== verification/CatalogCorners.thy ===== *)
theory CatalogCorners
  imports Import Trims
begin

text \<open>Corners of the catalog services where the code does something other than its comments and its callers expect.\<close>

section \<open>An import's product that was rolled back\<close>

text \<open>The id of a product a failed row had created stays in the map of titles, but the product is gone with the savepoint.\<close>

lemma failed_row_leaves_id:
  assumes "import_row_op L c refuse names pid vid r seen s = (Inl e, seen')" and "seen' \<noteq> seen"
  shows "seen' = (group_key L r, pid) # seen \<and> pid \<notin> pr_id ` set (products s)"
proof -
  have "import_product L c pid title names s = Inr (p, s1) \<Longrightarrow> p = pid \<and> pid \<notin> pr_id ` set (products s)" for title p s1
    by (auto simp: import_product_def create_product_def new_product_def tx_inr Let_def free_slug_def split: option.splits if_splits)
  then show ?thesis
    using assms by (auto simp: import_row_op_def Let_def split: sum.splits option.splits prod.splits if_splits)
qed

lemma orphan_variant: "get_product_row (tenant_of c) pid s = None \<Longrightarrow> \<exists>e. import_variant c vid pid options f s = Inl e"
proof (rule ccontr)
  assume gone: "get_product_row (tenant_of c) pid s = None" and "\<not> ?thesis"
  then obtain x s' where "import_variant c vid pid options f s = Inr (x, s')" by (cases "import_variant c vid pid options f s") auto
  with gone show False
    by (auto simp: import_variant_def create_variant_def create_params_def new_variant_def tx_inr Let_def variant_checks_def variant_unique_def)
qed

text \<open>So every later row of that title fails too, until another batch starts with an empty map.\<close>

lemma later_rows_fail:
  assumes "map_of seen (group_key L r) = Some pid" and "get_product_row (tenant_of c) pid s = None" and "col r ''sku'' = []"
  shows "\<exists>e. import_row_op L c refuse names pid' vid r seen s = (Inl e, seen)"
  using assms orphan_variant [OF assms(2)]
  by (auto simp: import_row_op_def existing_sku_def retT_def Let_def split: sum.splits)

section \<open>Amounts\<close>

text \<open>An amount that fits 64 bits in rupiah need not fit in sen: this one becomes 84 sen.\<close>

lemma amount_wraps: "parse_rupiah ''184467440737095517'' = Some 84"
proof -
  have strip: "strip_any [''Rp'', ''rp'', ''IDR'', ''.'', '','', '' ''] 0 ''184467440737095517'' = ''184467440737095517''" by simp
  show ?thesis unfolding parse_rupiah_def strip by (simp add: parse_int_def decimal_def is_digit_def digit_val_def wrap64_def Let_def)
qed

section \<open>Option columns\<close>

text \<open>
  A mapping to an option name with a space is accepted; the names are trimmed, the values are not looked up under
  the trimmed name, and every row that would create a variant is refused.\<close>

definition spaced :: "(string \<times> string) list" where
  "spaced = [(''Nama'', ''title''), (''Warna'', ''option: Colour'')]"

lemma spaced_trim: "trim_space '' Colour'' = ''Colour''"
proof -
  have "strip_one space_runes '' Colour'' = Some ''Colour''" by (simp add: strip_one_def space_runes_def char_of_def bit_0)
  moreover have "strip_all space_runes ''Colour'' = ''Colour''" "strip_all (map rev space_runes) (rev ''Colour'') = rev ''Colour''"
    by (simp_all add: strip_all_fixed strip_one_visible visible_ascii_def)
  ultimately show ?thesis unfolding trim_space_def by (subst strip_all.simps) simp
qed

lemma spaced_accepted: "check_mapping \<lparr>il_lower = (\<lambda>x. x), il_quote = (\<lambda>x. x), il_pg = pg\<rparr> spaced = None"
  by (simp add: check_mapping_def spaced_def import_targets_def cut_prefix_def option_prefix_def blank_def Let_def spaced_trim)

lemma spaced_rows_fail:
  "option_names \<lparr>il_lower = (\<lambda>x. x), il_quote = (\<lambda>x. x), il_pg = pg\<rparr> spaced = [''Colour''] \<and>
   row_options \<lparr>ir_line = 2, ir_raw = [''Kaos'', ''Red''], ir_values = row_values (map snd spaced) [''Kaos'', ''Red'']\<rparr> [''Colour'']
     = Inl (field_error ''option:Colour'' ''option Colour is empty'')"
proof
  show "option_names \<lparr>il_lower = (\<lambda>x. x), il_quote = (\<lambda>x. x), il_pg = pg\<rparr> spaced = [''Colour'']"
    by (simp add: option_names_def spaced_def cut_prefix_def option_prefix_def spaced_trim Let_def)
qed (simp add: spaced_def col_def row_values_def option_prefix_def deref_def Let_def)

section \<open>The status of an archived product\<close>

text \<open>Archiving a product leaves its variants live; a bulk row for one of them is answered as updated, its status dropped.\<close>

lemma archived_status_dropped:
  assumes "get_product_row (tenant_of c) pid s = Some p" and "pr_archived_at p \<noteq> None" and "bulk_status c pid (Some S_draft) s = Inr ((), s')"
  shows "get_product_row (tenant_of c) pid s' = Some p"
proof -
  define f where "f = (\<lambda>r :: product. if pr_archived_at r = None then r\<lparr>pr_status := S_draft, pr_version := pr_version r + 1, pr_updated_at := c_now c\<rparr> else r)"
  have "s' = upd_product (tenant_of c) pid f s"
    using assms(3) by (auto simp: bulk_status_def set_product_status_def tx_inr f_def)
  moreover have "keeps_key pr_tenant pr_id f" by (simp add: keeps_key_def f_def)
  moreover have "f p = p" unfolding f_def using assms(2) by (simp only: if_False)
  ultimately show ?thesis
    using assms(1) by (simp add: get_product_row_def upd_product_def rows.get_same)
qed

end
