(* ===== verification/CustomerQueries.thy ===== *)
theory CustomerQueries
  imports AuthQueries Purge
begin

text \<open>
  The statements of customer accounts (internal/db/sqlcgen/customer_auth.sql.go) with the constraints of migrations
  000018, 000021 and 000024. Every one runs in the tenant of the shop's API key (BR-092). \<open>lc\<close> is the database's
  lower case, which the CHECK on the email column compares with.\<close>

section \<open>Customers\<close>

record create_customer_params =
  cc_id :: uuid
  cc_email :: string
  cc_password_hash :: "string option"
  cc_name :: string
  cc_phone :: "string option"

definition new_customer :: "ctx \<Rightarrow> create_customer_params \<Rightarrow> customer" where
  "new_customer c p = \<lparr>cu_id = cc_id p, cu_tenant = tenant_of c, cu_email = cc_email p, cu_password_hash = cc_password_hash p,
     cu_name = cc_name p, cu_phone = cc_phone p, cu_email_verified_at = None, cu_created_at = c_now c, cu_updated_at = c_now c,
     cu_purged_at = None\<rparr>"

definition customer_by_email_row :: "ctx \<Rightarrow> string \<Rightarrow> db \<Rightarrow> customer option" where
  "customer_by_email_row c email s = row_get cu_tenant cu_email (tenant_of c) email (customers s)"

definition create_customer :: "(string \<Rightarrow> string) \<Rightarrow> ctx \<Rightarrow> create_customer_params \<Rightarrow> customer stmt" where
  "create_customer lc c p =
    (let r = new_customer c p in
     thenT (guardT (\<lambda>_. cu_email r = lc (cu_email r)) (check_violation ''customers_email_check''))
     (thenT (guardT (\<lambda>s. cu_id r \<notin> cu_id ` set (customers s)) (unique_violation ''customers_pkey''))
     (thenT (guardT (\<lambda>s. customer_by_email_row c (cu_email r) s = None) (unique_violation ''customers_tenant_id_email_key''))
     (thenT (writeT (\<lambda>s. s\<lparr>customers := customers s @ [r]\<rparr>)) (retT r)))))"

definition customer_by_email :: "ctx \<Rightarrow> string \<Rightarrow> customer stmt" where
  "customer_by_email c email = oneT (customer_by_email_row c email)"

definition customer_by_id :: "ctx \<Rightarrow> uuid \<Rightarrow> customer stmt" where
  "customer_by_id c i = oneT (get_customer_row (tenant_of c) i)"

definition lock_customer :: "ctx \<Rightarrow> uuid \<Rightarrow> customer stmt" where
  "lock_customer c i = oneT (get_customer_row (tenant_of c) i)"

text \<open>The password is set only over the hash the caller read: the number of rows is the answer.\<close>

definition set_customer_password :: "ctx \<Rightarrow> uuid \<Rightarrow> string option \<Rightarrow> string option \<Rightarrow> int stmt" where
  "set_customer_password c i new old s =
    (case get_customer_row (tenant_of c) i s of
      None \<Rightarrow> Inr (0, s)
    | Some r \<Rightarrow> if cu_password_hash r = old
        then Inr (1, upd_customer (tenant_of c) i (\<lambda>r. r\<lparr>cu_password_hash := new, cu_updated_at := c_now c\<rparr>) s)
        else Inr (0, s))"

definition profiled :: "ctx \<Rightarrow> string option \<Rightarrow> bool \<Rightarrow> string option \<Rightarrow> customer \<Rightarrow> customer" where
  "profiled c name set_phone phone r = r\<lparr>cu_name := (case name of None \<Rightarrow> cu_name r | Some n \<Rightarrow> n),
     cu_phone := (if set_phone then phone else cu_phone r), cu_updated_at := c_now c\<rparr>"

definition update_customer_profile :: "ctx \<Rightarrow> uuid \<Rightarrow> string option \<Rightarrow> bool \<Rightarrow> string option \<Rightarrow> customer stmt" where
  "update_customer_profile c i name set_phone phone =
    bindT (oneT (get_customer_row (tenant_of c) i)) (\<lambda>r.
    thenT (writeT (upd_customer (tenant_of c) i (profiled c name set_phone phone))) (retT (profiled c name set_phone phone r)))"

section \<open>Identities\<close>

definition identity_row :: "ctx \<Rightarrow> string \<Rightarrow> string \<Rightarrow> db \<Rightarrow> customer_identity option" where
  "identity_row c provider subject s =
     find (\<lambda>i. cd_tenant i = tenant_of c \<and> cd_provider i = provider \<and> cd_subject i = subject) (identities s)"

definition customer_by_identity :: "ctx \<Rightarrow> string \<Rightarrow> string \<Rightarrow> customer stmt" where
  "customer_by_identity c provider subject = oneT (\<lambda>s. case identity_row c provider subject s of
     None \<Rightarrow> None | Some i \<Rightarrow> get_customer_row (tenant_of c) (cd_customer i) s)"

definition create_identity :: "ctx \<Rightarrow> uuid \<Rightarrow> string \<Rightarrow> string \<Rightarrow> string option \<Rightarrow> unit stmt" where
  "create_identity c cu provider subject email =
    thenT (guardT (\<lambda>_. provider = ''google'') (check_violation ''customer_identities_provider_check''))
    (thenT (guardT (\<lambda>s. identity_row c provider subject s = None) (unique_violation ''customer_identities_pkey''))
    (thenT (guardT (\<lambda>s. list_all (\<lambda>i. \<not> (cd_customer i = cu \<and> cd_provider i = provider)) (identities s))
             (unique_violation ''customer_identities_customer_id_provider_key''))
    (thenT (guardT (\<lambda>s. get_customer_row (tenant_of c) cu s \<noteq> None) (fk_violation ''customer_identities_same_tenant_as_customer''))
     (writeT (\<lambda>s. s\<lparr>identities := identities s @ [\<lparr>cd_tenant = tenant_of c, cd_customer = cu, cd_provider = provider,
        cd_subject = subject, cd_email = email, cd_created_at = c_now c\<rparr>]\<rparr>)))))"

section \<open>Sessions\<close>

definition session_days :: int where
  "session_days = hours (30 * 24)"

definition upd_sessions :: "uuid \<Rightarrow> (customer_session \<Rightarrow> bool) \<Rightarrow> (customer_session \<Rightarrow> customer_session) \<Rightarrow> db \<Rightarrow> db" where
  "upd_sessions t p f s = s\<lparr>sessions := map (\<lambda>r. if cs_tenant r = t \<and> p r then f r else r) (sessions s)\<rparr>"

definition create_customer_session :: "ctx \<Rightarrow> uuid \<Rightarrow> uuid \<Rightarrow> string \<Rightarrow> unit stmt" where
  "create_customer_session c i cu hash =
    thenT (guardT (\<lambda>s. i \<notin> cs_id ` set (sessions s)) (unique_violation ''customer_sessions_pkey''))
    (thenT (guardT (\<lambda>s. hash \<notin> cs_refresh_hash ` set (sessions s)) (unique_violation ''customer_sessions_refresh_token_hash_key''))
    (thenT (guardT (\<lambda>s. get_customer_row (tenant_of c) cu s \<noteq> None) (fk_violation ''customer_sessions_same_tenant_as_customer''))
     (writeT (\<lambda>s. s\<lparr>sessions := sessions s @ [\<lparr>cs_id = i, cs_tenant = tenant_of c, cs_customer = cu, cs_refresh_hash = hash,
        cs_previous_hash = None, cs_expires_at = c_now c + session_days, cs_revoked_at = None, cs_created_at = c_now c\<rparr>]\<rparr>))))"

text \<open>The session a token is current for, or was before its last rotation.\<close>

definition session_by_token :: "uuid \<Rightarrow> string \<Rightarrow> db \<Rightarrow> customer_session option" where
  "session_by_token t hash s = find (\<lambda>r. cs_tenant r = t \<and> (cs_refresh_hash r = hash \<or> cs_previous_hash r = Some hash)) (sessions s)"

definition lock_customer_session :: "ctx \<Rightarrow> string \<Rightarrow> customer_session stmt" where
  "lock_customer_session c hash = oneT (session_by_token (tenant_of c) hash)"

definition ended :: "ctx \<Rightarrow> customer_session \<Rightarrow> customer_session" where
  "ended c r = r\<lparr>cs_revoked_at := (case cs_revoked_at r of None \<Rightarrow> Some (c_now c) | Some x \<Rightarrow> Some x)\<rparr>"

definition revoke_customer_session :: "ctx \<Rightarrow> uuid \<Rightarrow> unit stmt" where
  "revoke_customer_session c i = writeT (upd_sessions (tenant_of c) (\<lambda>r. cs_id r = i) (ended c))"

definition revoke_customer_session_by_token :: "ctx \<Rightarrow> uuid \<Rightarrow> string \<Rightarrow> unit stmt" where
  "revoke_customer_session_by_token c cu hash =
    writeT (upd_sessions (tenant_of c) (\<lambda>r. cs_customer r = cu \<and> cs_refresh_hash r = hash) (ended c))"

definition revoke_customer_sessions :: "ctx \<Rightarrow> uuid \<Rightarrow> unit stmt" where
  "revoke_customer_sessions c cu = writeT (upd_sessions (tenant_of c) (\<lambda>r. cs_customer r = cu) (ended c))"

definition rotated :: "ctx \<Rightarrow> string \<Rightarrow> customer_session \<Rightarrow> customer_session" where
  "rotated c hash r = r\<lparr>cs_previous_hash := Some (cs_refresh_hash r), cs_refresh_hash := hash, cs_expires_at := c_now c + session_days\<rparr>"

definition rotate_customer_session :: "ctx \<Rightarrow> uuid \<Rightarrow> string \<Rightarrow> unit stmt" where
  "rotate_customer_session c i hash =
    thenT (guardT (\<lambda>s. list_all (\<lambda>r. cs_refresh_hash r = hash \<longrightarrow> cs_tenant r = tenant_of c \<and> cs_id r = i) (sessions s))
             (unique_violation ''customer_sessions_refresh_token_hash_key''))
    (thenT (guardT (\<lambda>s. list_all (\<lambda>r. list_all (\<lambda>q. cs_tenant r = tenant_of c \<and> cs_id r = i \<and>
        cs_previous_hash q = Some (cs_refresh_hash r) \<longrightarrow> cs_tenant q = tenant_of c \<and> cs_id q = i) (sessions s)) (sessions s))
             (unique_violation ''customer_sessions_previous_token_hash_key''))
     (writeT (upd_sessions (tenant_of c) (\<lambda>r. cs_id r = i) (rotated c hash))))"

section \<open>Isolation\<close>

lemma upd_sessions_others: "(\<And>r. cs_tenant (f r) = cs_tenant r) \<Longrightarrow> others cs_tenant t (map (\<lambda>r. if cs_tenant r = t \<and> p r then f r else r) rs) = others cs_tenant t rs"
  by (induction rs) (auto simp: others_def)

lemma upd_sessions_isolated: "(\<And>r. cs_tenant (f r) = cs_tenant r) \<Longrightarrow> within (isolated t) (writeT (upd_sessions t p f))"
  by (auto simp: within_def isolated_def same_def foreign_def upd_sessions_def upd_sessions_others)

lemma upd_customer_isolated: "keeps_key cu_tenant cu_id f \<Longrightarrow> within (isolated t) (writeT (upd_customer t i f))"
  by (auto simp: within_def isolated_def same_def foreign_def upd_customer_def others_upd)

lemma customer_inserts_isolated [isolation]:
  assumes "tenant_of c = t"
  shows "within (isolated t) (create_customer lc c p)" "within (isolated t) (create_identity c cu provider subject em)"
    "within (isolated t) (create_customer_session c i cu hash)" "within (isolated t) (set_customer_password c i new old)"
  using assms by (auto simp: within_def isolated_def same_def foreign_def create_customer_def new_customer_def create_identity_def
      create_customer_session_def set_customer_password_def upd_customer_def keeps_key_def Let_def tx_inr others_append others_own others_upd
      split: option.splits if_splits)

lemma customer_reads_isolated [isolation]:
  "within (isolated t) (customer_by_email c email)" "within (isolated t) (customer_by_id c i)" "within (isolated t) (lock_customer c i)"
  "within (isolated t) (customer_by_identity c provider subject)" "within (isolated t) (lock_customer_session c hash)"
  unfolding customer_by_email_def customer_by_id_def lock_customer_def customer_by_identity_def lock_customer_session_def
  by (rule oneT_isolated)+

lemma customer_updates_isolated [isolation]:
  assumes "tenant_of c = t"
  shows "within (isolated t) (update_customer_profile c i name set_phone phone)" "within (isolated t) (revoke_customer_session c i)"
    "within (isolated t) (revoke_customer_session_by_token c cu hash)" "within (isolated t) (revoke_customer_sessions c cu)"
    "within (isolated t) (rotate_customer_session c i hash)"
  unfolding update_customer_profile_def revoke_customer_session_def revoke_customer_session_by_token_def revoke_customer_sessions_def
    rotate_customer_session_def assms
  by (auto intro!: iso.seq iso.bind iso.ret oneT_isolated guardT_isolated upd_customer_isolated upd_sessions_isolated
      simp: keeps_key_def profiled_def ended_def rotated_def)

end
