(* ===== verification/Customers.thy ===== *)
theory Customers
  imports CustomerQueries Sessions
begin

text \<open>
  A shop's customer accounts (internal/customers; BR-092 to BR-094, BR-127): register, sign in, rotate the refresh
  token, sign out, the profile, password resets and Google sign-in. Everything runs in the tenant of the shop's API
  key. \<open>customer_lib\<close> is what is outside: the sign-in environment of the staff (hashes, signatures, lower case),
  \<open>mail.ParseAddress\<close>, \<open>net/url\<close> and the template of the reset email. The random bytes of a refresh
  token and the ids of new rows are the arguments \<open>draw\<close>, a new password's salt is \<open>salt\<close>.\<close>

record url_parts =
  ul_user :: bool
  ul_scheme :: string
  ul_host :: string

record customer_lib =
  kl_env :: auth_env
  kl_address :: "string \<Rightarrow> bool"
  kl_url :: "string \<Rightarrow> url_parts option"
  kl_with_token :: "string \<Rightarrow> string \<Rightarrow> string"
  kl_reset_text :: "string \<Rightarrow> string \<Rightarrow> string \<Rightarrow> string \<times> string \<times> string"

record draw =
  dr_customer :: uuid
  dr_session :: uuid
  dr_random :: string

record customer_tokens =
  kt_access :: string
  kt_expires_in :: int
  kt_refresh :: string
  kt_customer :: customer

definition refresh_prefix :: string where
  "refresh_prefix = ''rt_''"

definition normal_email :: "customer_lib \<Rightarrow> string \<Rightarrow> string" where
  "normal_email L e = ev_lower (kl_env L) (trim_space e)"

definition failed_sign_in :: err where
  "failed_sign_in = unauthenticated ''The email or password is wrong, or the session has ended. Sign in again.''"

definition customer_token :: "draw \<Rightarrow> string" where
  "customer_token d = refresh_prefix @ dr_random d"

definition customer_hash :: "customer_lib \<Rightarrow> string \<Rightarrow> string" where
  "customer_hash L raw = ev_hash (kl_env L) raw"

definition tokens_for :: "customer_lib \<Rightarrow> ctx \<Rightarrow> customer \<Rightarrow> string \<Rightarrow> err + customer_tokens" where
  "tokens_for L c cu raw =
    (case signer_issue_customer (kl_env L) (cu_id cu) (tenant_of c) (c_clock c) of
      Inl e \<Rightarrow> Inl e
    | Inr access \<Rightarrow> Inr \<lparr>kt_access = access, kt_expires_in = access_token_ttl div seconds 1, kt_refresh = raw, kt_customer = cu\<rparr>)"

definition sign_in :: "customer_lib \<Rightarrow> draw \<Rightarrow> ctx \<Rightarrow> customer \<Rightarrow> customer_tokens stmt" where
  "sign_in L d c cu =
    thenT (create_customer_session c (dr_session d) (cu_id cu) (customer_hash L (customer_token d)))
     (liftT (tokens_for L c cu (customer_token d)))"

section \<open>Register and sign in\<close>

definition register_check :: "customer_lib \<Rightarrow> string \<Rightarrow> string \<Rightarrow> string \<Rightarrow> err option" where
  "register_check L email password name =
    (if \<not> kl_address L email \<or> CHR ''<'' \<in> set email \<or> CHR ''>'' \<in> set email \<or> CHR '' '' \<in> set email
     then Some (field_error ''email'' ''email is not an email address'')
     else if length password < 8 then Some (field_error ''password'' ''password is at least 8 characters'')
     else if name = [] then Some (field_error ''name'' ''name is required'')
     else None)"

definition register_tx :: "customer_lib \<Rightarrow> draw \<Rightarrow> ctx \<Rightarrow> string \<Rightarrow> string \<Rightarrow> string \<Rightarrow> string option \<Rightarrow> customer_tokens stmt" where
  "register_tx L d c email hash name phone =
    bindT (mapErrT (\<lambda>e. case violation e of
        Some (k, con) \<Rightarrow> if k = ''23505'' then field_error ''email'' ''An account with this email already exists. Sign in, or reset the password.'' else e
      | None \<Rightarrow> e)
      (create_customer (ev_fold (kl_env L)) c \<lparr>cc_id = dr_customer d, cc_email = email, cc_password_hash = Some hash, cc_name = name, cc_phone = phone\<rparr>))
     (sign_in L d c)"

definition register_customer ::
  "customer_lib \<Rightarrow> draw \<Rightarrow> string \<Rightarrow> ctx \<Rightarrow> string \<Rightarrow> string \<Rightarrow> string \<Rightarrow> string option \<Rightarrow> db \<Rightarrow> (err + customer_tokens) \<times> db" where
  "register_customer L d salt c address password name phone s =
    (let email = normal_email L address; name' = trim_space name in
     case register_check L email password name' of
       Some e \<Rightarrow> (Inl e, s)
     | None \<Rightarrow> in_tenant_tx c (register_tx L d c email (hash_password (ev_argon (kl_env L)) salt password) name' phone) s)"

text \<open>No account, an account without a password and a wrong password are one answer (BR-021).\<close>

definition login_customer_tx :: "customer_lib \<Rightarrow> draw \<Rightarrow> ctx \<Rightarrow> string \<Rightarrow> string \<Rightarrow> customer_tokens stmt" where
  "login_customer_tx L d c email password =
    bindT (mapErrT (\<lambda>e. if err_is e NoRows then failed_sign_in else e) (customer_by_email c email)) (\<lambda>cu.
    case cu_password_hash cu of
      None \<Rightarrow> failT failed_sign_in
    | Some hash \<Rightarrow> (case verify_password (ev_argon (kl_env L)) hash password of
        Inl _ \<Rightarrow> failT failed_sign_in
      | Inr _ \<Rightarrow> sign_in L d c cu))"

definition login_customer :: "customer_lib \<Rightarrow> draw \<Rightarrow> ctx \<Rightarrow> string \<Rightarrow> string \<Rightarrow> db \<Rightarrow> (err + customer_tokens) \<times> db" where
  "login_customer L d c address password = in_tenant_tx c (login_customer_tx L d c (normal_email L address) password)"

section \<open>Rotation\<close>

text \<open>\<open>None\<close> is the reuse branch: the revocation commits and the request is refused after it.\<close>

definition refresh_customer_tx :: "customer_lib \<Rightarrow> draw \<Rightarrow> ctx \<Rightarrow> string \<Rightarrow> customer_tokens option stmt" where
  "refresh_customer_tx L d c presented =
    bindT (mapErrT (\<lambda>e. if err_is e NoRows then failed_sign_in else e) (lock_customer_session c (customer_hash L presented))) (\<lambda>sess.
    if cs_revoked_at sess \<noteq> None \<or> cs_expires_at sess \<le> c_clock c then failT failed_sign_in
    else if cs_refresh_hash sess \<noteq> customer_hash L presented
    then thenT (revoke_customer_session c (cs_id sess)) (retT None)
    else thenT (rotate_customer_session c (cs_id sess) (customer_hash L (customer_token d)))
      (bindT (customer_by_id c (cs_customer sess)) (\<lambda>cu.
       bindT (liftT (tokens_for L c cu (customer_token d))) (\<lambda>out. retT (Some out)))))"

definition refresh_customer :: "customer_lib \<Rightarrow> draw \<Rightarrow> ctx \<Rightarrow> string \<Rightarrow> db \<Rightarrow> (err + customer_tokens) \<times> db" where
  "refresh_customer L d c presented s =
    (case in_tenant_tx c (refresh_customer_tx L d c presented) s of
      (Inl e, s') \<Rightarrow> (Inl e, s')
    | (Inr None, s') \<Rightarrow> (Inl failed_sign_in, s')
    | (Inr (Some out), s') \<Rightarrow> (Inr out, s'))"

definition logout_customer :: "customer_lib \<Rightarrow> ctx \<Rightarrow> uuid \<Rightarrow> string \<Rightarrow> db \<Rightarrow> (err + unit) \<times> db" where
  "logout_customer L c cu raw = in_tenant_tx c (revoke_customer_session_by_token c cu (customer_hash L raw))"

section \<open>The profile\<close>

definition me :: "ctx \<Rightarrow> uuid \<Rightarrow> db \<Rightarrow> (err + customer) \<times> db" where
  "me c i = in_tenant_tx c (mapErrT (\<lambda>e. if err_is e NoRows then not_found ''No such customer.'' else e) (customer_by_id c i))"

definition update_me :: "ctx \<Rightarrow> uuid \<Rightarrow> string option \<Rightarrow> bool \<Rightarrow> string option \<Rightarrow> db \<Rightarrow> (err + customer) \<times> db" where
  "update_me c i name set_phone phone s =
    (let name' = map_option trim_space name in
     if name' = Some [] then (Inl (field_error ''name'' ''name cannot be empty''), s)
     else in_tenant_tx c (mapErrT (\<lambda>e. if err_is e NoRows then not_found ''No such customer.'' else e)
       (update_customer_profile c i name' set_phone phone)) s)"

section \<open>Password resets\<close>

record reset_envelope =
  re_tenant :: uuid
  re_customer :: uuid
  re_url :: string

text \<open>The origin of the page must be the API key's. The answer is the same whether or not there is such an account.\<close>

definition request_reset ::
  "customer_lib \<Rightarrow> (reset_envelope \<Rightarrow> err option) \<Rightarrow> ctx \<Rightarrow> string \<Rightarrow> string \<Rightarrow> string \<Rightarrow> db \<times> reset_envelope list \<Rightarrow> (err + unit) \<times> db \<times> reset_envelope list" where
  "request_reset L mail c address reset_url origin w =
    (case w of (s, sent) \<Rightarrow>
     if (case kl_url L reset_url of None \<Rightarrow> True | Some u \<Rightarrow> ul_user u \<or> ul_scheme u @ ''://'' @ ul_host u \<noteq> origin)
     then (Inl (field_error ''reset_url'' (''reset_url is a page on '' @ origin @ '', the website this API key is for'')), w)
     else (case in_tenant_tx c (customer_by_email c (normal_email L address)) s of
       (Inl e, s') \<Rightarrow> (if err_is e NoRows then Inr () else Inl e, s', sent)
     | (Inr cu, s') \<Rightarrow>
         let env = \<lparr>re_tenant = tenant_of c, re_customer = cu_id cu, re_url = reset_url\<rparr> in
         (case mail env of Some e \<Rightarrow> (Inl e, s', sent) | None \<Rightarrow> (Inr (), s', sent @ [env]))))"

definition invalid_reset :: err where
  "invalid_reset = field_error ''token'' ''This reset link has expired or was already used. Ask for a new one.''"

definition confirm_reset_tx :: "customer_lib \<Rightarrow> ctx \<Rightarrow> string \<Rightarrow> uuid \<Rightarrow> string \<Rightarrow> unit stmt" where
  "confirm_reset_tx L c token i hash =
    bindT (mapErrT (\<lambda>e. if err_is e NoRows then invalid_reset else e) (lock_customer c i)) (\<lambda>cu.
    if \<not> reset_verify (ev_lib (kl_env L)) customer_label token (cu_password_hash cu) then failT invalid_reset
    else bindT (set_customer_password c (cu_id cu) (Some hash) (cu_password_hash cu)) (\<lambda>n.
      if n = 0 then failT invalid_reset else revoke_customer_sessions c (cu_id cu)))"

definition confirm_reset :: "customer_lib \<Rightarrow> string \<Rightarrow> ctx \<Rightarrow> string \<Rightarrow> string \<Rightarrow> db \<Rightarrow> (err + unit) \<times> db" where
  "confirm_reset L salt c token password s =
    (if length password < 8 then (Inl (field_error ''password'' ''password is at least 8 characters''), s)
     else (case reset_parse (ev_lib (kl_env L)) token (c_clock c) of
       None \<Rightarrow> (Inl invalid_reset, s)
     | Some (i, t, _) \<Rightarrow>
         if t \<noteq> tenant_of c then (Inl invalid_reset, s)
         else in_tenant_tx c (confirm_reset_tx L c token i (hash_password (ev_argon (kl_env L)) salt password)) s))"

text \<open>The worker's half: the token is made against the password hash of that moment, and never travels in the queue.\<close>

record reset_message =
  rm_from :: string
  rm_to :: string
  rm_reply_to :: "string option"
  rm_text :: "string \<times> string \<times> string"

definition reset_mail_tx :: "ctx \<Rightarrow> uuid \<Rightarrow> (customer \<times> string option \<times> tenant) stmt" where
  "reset_mail_tx c i =
    bindT (customer_by_id c i) (\<lambda>cu.
    bindT (settings_row c) (\<lambda>st.
    bindT (get_tenant (tenant_of c)) (\<lambda>shop.
     retT (cu, (case st of None \<Rightarrow> None | Some x \<Rightarrow> st_contact_email x), shop))))"

definition reset_mail :: "customer_lib \<Rightarrow> ctx \<Rightarrow> reset_envelope \<Rightarrow> db \<Rightarrow> (err + reset_message option) \<times> db" where
  "reset_mail L c env s =
    (let tc = with_tenant (re_tenant env) c in
     case in_tenant_tx tc (reset_mail_tx tc (re_customer env)) s of
       (Inl e, s') \<Rightarrow> (if err_is e NoRows then Inr None else Inl e, s')
     | (Inr (cu, reply, shop), s') \<Rightarrow>
         (if kl_url L (re_url env) = None then Inr None
          else let link = kl_with_token L (re_url env)
                 (reset_mint (ev_lib (kl_env L)) customer_label (cu_id cu) (re_tenant env) (cu_password_hash cu) (c_clock c)) in
            Inr (Some \<lparr>rm_from = tn_name shop, rm_to = cu_email cu, rm_reply_to = reply,
              rm_text = kl_reset_text L (tn_name shop) (cu_name cu) link\<rparr>), s'))"

section \<open>Google sign-in\<close>

definition name_from :: "string \<Rightarrow> string" where
  "name_from email = takeWhile (\<lambda>ch. ch \<noteq> CHR ''@'') email"

definition link_or_create :: "customer_lib \<Rightarrow> draw \<Rightarrow> ctx \<Rightarrow> google_identity \<Rightarrow> (customer \<times> bool) stmt" where
  "link_or_create L d c g =
    (let email = normal_email L (gi_email g) in
     bindT (tryT (customer_by_email c email)) (\<lambda>r.
     bindT (case r of
         Inr cu \<Rightarrow> retT (cu, False)
       | Inl e \<Rightarrow> if err_is e NoRows
           then bindT (create_customer (ev_fold (kl_env L)) c \<lparr>cc_id = dr_customer d, cc_email = email, cc_password_hash = None,
                  cc_name = (if gi_name g = [] then name_from email else gi_name g), cc_phone = None\<rparr>) (\<lambda>cu. retT (cu, True))
           else failT e) (\<lambda>(cu, created).
     thenT (mapErrT (\<lambda>e. if violation e = Some (''23505'', ''customer_identities_customer_id_provider_key'')
          then unauthenticated (''This email'' @ [CHR 0x27] @ ''s account signs in with another Google account.'') else e)
        (create_identity c (cu_id cu) ''google'' (gi_subject g) (Some email)))
      (retT (cu, created)))))"

definition google_pass :: "customer_lib \<Rightarrow> draw \<Rightarrow> ctx \<Rightarrow> google_identity \<Rightarrow> (customer_tokens \<times> bool) stmt" where
  "google_pass L d c g =
    bindT (tryT (customer_by_identity c ''google'' (gi_subject g))) (\<lambda>r.
    bindT (case r of Inr cu \<Rightarrow> retT (cu, False) | Inl e \<Rightarrow> if err_is e NoRows then link_or_create L d c g else failT e) (\<lambda>(cu, created).
    bindT (sign_in L d c cu) (\<lambda>out. retT (out, created))))"

text \<open>One pass for every draw: the second only when the first lost the race for the login's row.\<close>

fun google_passes :: "customer_lib \<Rightarrow> draw list \<Rightarrow> ctx \<Rightarrow> google_identity \<Rightarrow> db \<Rightarrow> (err + customer_tokens \<times> bool) \<times> db" where
  "google_passes L [] c g s = (Inl (Opaque ''unreachable''), s)"
| "google_passes L (d # ds) c g s =
    (case in_tenant_tx c (google_pass L d c g) s of
      (Inr r, s') \<Rightarrow> (Inr r, s')
    | (Inl e, s') \<Rightarrow> if violation e = Some (''23505'', ''customer_identities_pkey'') \<and> ds \<noteq> []
        then google_passes L ds c g s' else (Inl e, s'))"

text \<open>\<open>verify\<close> is the verifier with its cache of keys, \<open>None\<close> when the deployment has none.\<close>

definition google_customer ::
  "customer_lib \<Rightarrow> (string \<Rightarrow> string \<Rightarrow> err + google_identity) option \<Rightarrow> draw \<Rightarrow> draw \<Rightarrow> ctx \<Rightarrow> string \<Rightarrow> db \<Rightarrow> (err + customer_tokens \<times> bool) \<times> db" where
  "google_customer L verify d1 d2 c token s =
    (case in_tenant_tx c (settings_row c) s of
      (Inl e, s') \<Rightarrow> (Inl e, s')
    | (Inr st, s') \<Rightarrow>
        (case (case st of None \<Rightarrow> None | Some x \<Rightarrow> st_google_client_id x) of
           None \<Rightarrow> (Inl (field_error ''id_token'' ''This shop has not set up Google sign-in.''), s')
         | Some client \<Rightarrow> (case verify of
             None \<Rightarrow> (Inl (internal (Opaque ''no google verifier'')), s')
           | Some v \<Rightarrow> (case v token client of
               Inl _ \<Rightarrow> (Inl (unauthenticated ''Google could not confirm this sign-in. Try again.''), s')
             | Inr g \<Rightarrow> google_passes L [d1, d2] c g s'))))"

end
