(* ===== verification/Uniques.thy ===== *)
theory Uniques
  imports Main
begin

text \<open>
  Unique keys of a table, as lists of rows: what an insert and an update that a unique index let through keep.\<close>

text \<open>At most one row, so that no other row gets its key.\<close>

lemma distinct_upd_one: "distinct (map key xs) \<Longrightarrow> distinct (map g xs) \<Longrightarrow> (\<And>r. r \<in> set xs \<Longrightarrow> g r = h \<Longrightarrow> p r) \<Longrightarrow>
    (\<And>r. r \<in> set xs \<Longrightarrow> p r \<Longrightarrow> key r = k) \<Longrightarrow> (\<And>r. p r \<Longrightarrow> g (f r) = h) \<Longrightarrow>
    distinct (map g (map (\<lambda>r. if p r then f r else r) xs))"
proof (induction xs)
  case Nil
  then show ?case by simp
next
  case (Cons x xs)
  have ih: "distinct (map g (map (\<lambda>r. if p r then f r else r) xs))"
    by (rule Cons.IH) (use Cons.prems in auto)
  have same: "map (\<lambda>r. if p r then f r else r) xs = xs" if "p x"
  proof -
    have "\<not> p r" if r: "r \<in> set xs" for r
      using Cons.prems(1,4) \<open>p x\<close> r by fastforce
    then show ?thesis by (simp add: map_idI)
  qed
  show ?case
  proof (cases "p x")
    case True
    then have "g r \<noteq> h" if r: "r \<in> set xs" for r
      using Cons.prems(1,3,4) r by fastforce
    then show ?thesis using True ih Cons.prems(5) by (auto simp: same)
  next
    case False
    then have "g x \<noteq> h" using Cons.prems(3) [of x] by auto
    then show ?thesis using False ih Cons.prems(2,5) by (auto split: if_splits)
  qed
qed

text \<open>A partial unique index: of the rows it covers, those with one key are one row.\<close>

definition agree :: "('r \<Rightarrow> 'i) \<Rightarrow> ('r \<Rightarrow> 'k) \<Rightarrow> ('r \<Rightarrow> bool) \<Rightarrow> 'r list \<Rightarrow> bool" where
  "agree i k P xs \<longleftrightarrow> (\<forall>p \<in> set xs. \<forall>q \<in> set xs. P p \<longrightarrow> P q \<longrightarrow> k p = k q \<longrightarrow> i p = i q)"

lemma agreeD: "agree i k P xs \<Longrightarrow> p \<in> set xs \<Longrightarrow> q \<in> set xs \<Longrightarrow> P p \<Longrightarrow> P q \<Longrightarrow> k p = k q \<Longrightarrow> i p = i q"
  unfolding agree_def by (drule (1) bspec, drule (1) bspec, (drule (1) mp)+)

lemma agreeI:
  assumes "\<And>p q. p \<in> set xs \<Longrightarrow> q \<in> set xs \<Longrightarrow> P p \<Longrightarrow> P q \<Longrightarrow> k p = k q \<Longrightarrow> i p = i q"
  shows "agree i k P xs"
  unfolding agree_def by (intro ballI impI assms)

lemma agree_snoc:
  assumes "agree i k P xs" and "\<And>q. q \<in> set xs \<Longrightarrow> P r \<Longrightarrow> P q \<Longrightarrow> k q = k r \<Longrightarrow> i q = i r"
  shows "agree i k P (xs @ [r])"
proof (rule agreeI)
  fix p q
  assume pq: "p \<in> set (xs @ [r])" "q \<in> set (xs @ [r])" "P p" "P q" "k p = k q"
  consider "p \<in> set xs" "q \<in> set xs" | "p = r" "q = r" | "p = r" "q \<in> set xs" | "p \<in> set xs" "q = r"
    using pq(1,2) by auto
  then show "i p = i q"
  proof cases
    case 1
    then show ?thesis by (rule agreeD [OF assms(1) _ _ pq(3,4,5)])
  next
    case 3
    have "i q = i r" by (rule assms(2) [OF 3(2) pq(3) [unfolded 3(1)] pq(4) pq(5) [unfolded 3(1), symmetric]])
    then show ?thesis using 3(1) by simp
  next
    case 4
    have "i p = i r" by (rule assms(2) [OF 4(1) pq(4) [unfolded 4(2)] pq(3) pq(5) [unfolded 4(2)]])
    then show ?thesis using 4(2) by simp
  qed simp
qed

lemma agree_upd:
  assumes "agree i k P xs" and "\<And>x. i (f x) = i x" and "\<And>x. x \<in> set xs \<Longrightarrow> sel x \<Longrightarrow> i x = j"
    and "\<And>x q. x \<in> set xs \<Longrightarrow> sel x \<Longrightarrow> q \<in> set xs \<Longrightarrow> P (f x) \<Longrightarrow> P q \<Longrightarrow> k q = k (f x) \<Longrightarrow> i q = j"
  shows "agree i k P (map (\<lambda>x. if sel x then f x else x) xs)"
proof (rule agreeI)
  fix p q
  assume "p \<in> set (map (\<lambda>x. if sel x then f x else x) xs)" "q \<in> set (map (\<lambda>x. if sel x then f x else x) xs)"
  then obtain a b where a: "a \<in> set xs" "p = (if sel a then f a else a)" and b: "b \<in> set xs" "q = (if sel b then f b else b)"
    by auto
  assume pq: "P p" "P q" "k p = k q"
  show "i p = i q"
  proof (cases "sel a")
    case sa: True
    then have p: "p = f a" and ip: "i p = j" using a assms(2,3) by simp_all
    show ?thesis
    proof (cases "sel b")
      case True
      then have "i q = j" using b assms(2,3) by simp
      then show ?thesis using ip by simp
    next
      case False
      then have q: "q = b" using b(2) by simp
      have "i b = j" by (rule assms(4) [OF a(1) sa b(1) pq(1) [unfolded p] pq(2) [unfolded q] pq(3) [unfolded p q, symmetric]])
      then show ?thesis using ip q by simp
    qed
  next
    case False
    then have p: "p = a" using a(2) by simp
    show ?thesis
    proof (cases "sel b")
      case sb: True
      then have q: "q = f b" and iq: "i q = j" using b assms(2,3) by simp_all
      have "i a = j" by (rule assms(4) [OF b(1) sb a(1) pq(2) [unfolded q] pq(1) [unfolded p] pq(3) [unfolded p q]])
      then show ?thesis using iq p by simp
    next
      case False
      then have q: "q = b" using b(2) by simp
      show ?thesis unfolding p q by (rule agreeD [OF assms(1) a(1) b(1) pq(1) [unfolded p] pq(2) [unfolded q] pq(3) [unfolded p q]])
    qed
  qed
qed

lemma agree_less:
  assumes "agree i k P xs" and "\<And>x. x \<in> set xs \<Longrightarrow> sel x \<Longrightarrow> i (f x) = i x \<and> (P (f x) \<longrightarrow> P x \<and> k (f x) = k x)"
  shows "agree i k P (map (\<lambda>x. if sel x then f x else x) xs)"
proof (rule agreeI)
  fix p q
  assume "p \<in> set (map (\<lambda>x. if sel x then f x else x) xs)" "q \<in> set (map (\<lambda>x. if sel x then f x else x) xs)"
  then obtain a b where a: "a \<in> set xs" "p = (if sel a then f a else a)" and b: "b \<in> set xs" "q = (if sel b then f b else b)"
    by auto
  assume pq: "P p" "P q" "k p = k q"
  have A: "P a" "k p = k a" "i p = i a" using a pq(1) assms(2) [OF a(1)] by (auto split: if_splits)
  have B: "P b" "k q = k b" "i q = i b" using b pq(2) assms(2) [OF b(1)] by (auto split: if_splits)
  have "i a = i b" by (rule agreeD [OF assms(1) a(1) b(1) A(1) B(1) pq(3) [unfolded A(2) B(2)]])
  then show "i p = i q" using A(3) B(3) by simp
qed

end
