(* ===== verification/Accounts.thy ===== *)
theory Accounts
  imports Customers Uniques
begin

text \<open>
  What holds of customer accounts in every state the storefront, the purge and the nightly sweep reach:
  \<open>account_step\<close> is one transaction of one of them, with any caller, clock, token and random bytes.\<close>

section \<open>The tables of accounts\<close>

definition owned :: "db \<Rightarrow> uuid \<Rightarrow> uuid \<Rightarrow> bool" where
  "owned s t i \<longleftrightarrow> (t, i) \<in> (\<lambda>u. (cu_tenant u, cu_id u)) ` set (customers s)"

definition keyed :: "db \<Rightarrow> bool" where
  "keyed s \<longleftrightarrow> distinct (map cu_id (customers s)) \<and> distinct (map (\<lambda>u. (cu_tenant u, cu_email u)) (customers s))"

definition logins_ok :: "db \<Rightarrow> bool" where
  "logins_ok s \<longleftrightarrow> distinct (map (\<lambda>i. (cd_tenant i, cd_provider i, cd_subject i)) (identities s)) \<and>
     distinct (map (\<lambda>i. (cd_customer i, cd_provider i)) (identities s)) \<and>
     (\<forall>i \<in> set (identities s). owned s (cd_tenant i) (cd_customer i))"

definition sessions_ok :: "db \<Rightarrow> bool" where
  "sessions_ok s \<longleftrightarrow> distinct (map cs_id (sessions s)) \<and> distinct (map cs_refresh_hash (sessions s)) \<and>
     (\<forall>q \<in> set (sessions s). owned s (cs_tenant q) (cs_customer q))"

definition tables_ok :: "db \<Rightarrow> bool" where
  "tables_ok s \<longleftrightarrow> keyed s \<and> logins_ok s \<and> sessions_ok s"

text \<open>BR-127: a customer who was not purged has a password or a login to sign in with.\<close>

definition reachable :: "db \<Rightarrow> customer \<Rightarrow> bool" where
  "reachable s u \<longleftrightarrow> cu_purged_at u \<noteq> None \<or> cu_password_hash u \<noteq> None \<or>
     (cu_tenant u, cu_id u) \<in> (\<lambda>i. (cd_tenant i, cd_customer i)) ` set (identities s)"

definition signable :: "db \<Rightarrow> bool" where
  "signable s \<longleftrightarrow> (\<forall>u \<in> set (customers s). reachable s u)"

definition ended_session :: "uuid \<Rightarrow> db \<Rightarrow> bool" where
  "ended_session i s \<longleftrightarrow> (\<forall>q \<in> set (sessions s). cs_id q = i \<longrightarrow> cs_revoked_at q \<noteq> None)"

definition account_view :: "db \<Rightarrow> customer list \<times> customer_identity list \<times> customer_session list" where
  "account_view s = (customers s, identities s, sessions s)"

section \<open>Every statement keeps the keys\<close>

named_theorems tables_kept \<open>statements that keep the keys of the account tables\<close>

lemma view_tables [tables_kept]: "within (same account_view) m \<Longrightarrow> within (holds_on tables_ok) m"
  by (auto simp: within_def same_def holds_on_def account_view_def tables_ok_def keyed_def logins_ok_def sessions_ok_def owned_def)

lemma get_customer_owned: "get_customer_row t i s \<noteq> None \<longleftrightarrow> owned s t i"
  by (auto simp: get_customer_row_def row_get_def owned_def find_None_iff image_iff)

lemma customer_by_email_row_None: "customer_by_email_row c e s = None \<longleftrightarrow>
    (tenant_of c, e) \<notin> (\<lambda>u. (cu_tenant u, cu_email u)) ` set (customers s)"
  by (auto simp: customer_by_email_row_def row_get_def find_None_iff image_iff)

lemma create_customer_Inr: "create_customer lc c p s = Inr (r, s') \<longleftrightarrow> r = new_customer c p \<and> s' = s\<lparr>customers := customers s @ [r]\<rparr> \<and>
    cu_email r = lc (cu_email r) \<and> cu_id r \<notin> cu_id ` set (customers s) \<and>
    (tenant_of c, cu_email r) \<notin> (\<lambda>u. (cu_tenant u, cu_email u)) ` set (customers s)"
  by (auto simp: create_customer_def Let_def tx_inr customer_by_email_row_None)

lemma create_customer_tables [tables_kept]: "within (holds_on tables_ok) (create_customer lc c p)"
  by (rule withinI) (auto simp: create_customer_Inr holds_on_def tables_ok_def keyed_def logins_ok_def sessions_ok_def owned_def new_customer_def)

lemma identity_row_None: "identity_row c p b s = None \<longleftrightarrow>
    (tenant_of c, p, b) \<notin> (\<lambda>i. (cd_tenant i, cd_provider i, cd_subject i)) ` set (identities s)"
  by (auto simp: identity_row_def find_None_iff image_iff)

lemma create_identity_Inr: "create_identity c cu provider subject em s = Inr (x, s') \<longleftrightarrow>
    s' = s\<lparr>identities := identities s @ [\<lparr>cd_tenant = tenant_of c, cd_customer = cu, cd_provider = provider,
        cd_subject = subject, cd_email = em, cd_created_at = c_now c\<rparr>]\<rparr> \<and> provider = ''google'' \<and>
    (tenant_of c, provider, subject) \<notin> (\<lambda>i. (cd_tenant i, cd_provider i, cd_subject i)) ` set (identities s) \<and>
    (cu, provider) \<notin> (\<lambda>i. (cd_customer i, cd_provider i)) ` set (identities s) \<and> owned s (tenant_of c) cu"
  by (auto simp: create_identity_def tx_inr identity_row_None get_customer_owned [symmetric] list_all_iff)

lemma create_identity_tables [tables_kept]: "within (holds_on tables_ok) (create_identity c cu provider subject em)"
  by (rule withinI) (auto simp: create_identity_Inr holds_on_def tables_ok_def keyed_def logins_ok_def sessions_ok_def owned_def)

lemma create_session_Inr: "create_customer_session c i cu hash s = Inr (x, s') \<longleftrightarrow>
    s' = s\<lparr>sessions := sessions s @ [\<lparr>cs_id = i, cs_tenant = tenant_of c, cs_customer = cu, cs_refresh_hash = hash,
        cs_previous_hash = None, cs_expires_at = c_now c + session_days, cs_revoked_at = None, cs_created_at = c_now c\<rparr>]\<rparr> \<and>
    i \<notin> cs_id ` set (sessions s) \<and> hash \<notin> cs_refresh_hash ` set (sessions s) \<and> owned s (tenant_of c) cu"
  by (auto simp: create_customer_session_def tx_inr get_customer_owned [symmetric])

lemma create_session_tables [tables_kept]: "within (holds_on tables_ok) (create_customer_session c i cu hash)"
  by (rule withinI) (auto simp: create_session_Inr holds_on_def tables_ok_def keyed_def logins_ok_def sessions_ok_def owned_def)

text \<open>Updates of a customer's row that leave its keys.\<close>

lemma upd_customer_tables:
  assumes "\<And>u. cu_tenant (f u) = cu_tenant u \<and> cu_id (f u) = cu_id u \<and> cu_email (f u) = cu_email u" and "tables_ok s"
  shows "tables_ok (upd_customer t i f s)"
proof -
  have m: "map g (row_upd cu_tenant cu_id t i f cs) = map g cs" if "\<And>u. g (f u) = g u" for g :: "customer \<Rightarrow> 'z" and cs
    by (rule row_upd_map) (rule that)
  have "(\<lambda>u. (cu_tenant u, cu_id u)) ` set (row_upd cu_tenant cu_id t i f (customers s)) = (\<lambda>u. (cu_tenant u, cu_id u)) ` set (customers s)"
    using m [of "\<lambda>u. (cu_tenant u, cu_id u)" "customers s"] assms(1) by (metis (no_types, lifting) image_set)
  then show ?thesis
    using assms by (simp add: tables_ok_def keyed_def logins_ok_def sessions_ok_def owned_def upd_customer_def m)
qed

lemma set_password_tables [tables_kept]: "within (holds_on tables_ok) (set_customer_password c i new old)"
  by (rule withinI) (auto simp: set_customer_password_def holds_on_def split: option.splits if_splits intro!: upd_customer_tables)

lemma profile_tables [tables_kept]: "within (holds_on tables_ok) (update_customer_profile c i name set_phone phone)"
  by (rule withinI) (auto simp: update_customer_profile_def tx_inr holds_on_def profiled_def intro!: upd_customer_tables)

text \<open>Updates of sessions.\<close>

lemma upd_sessions_map: "(\<And>r. g (f r) = g r) \<Longrightarrow> map g (sessions (upd_sessions t p f s)) = map g (sessions s)"
  by (auto simp: upd_sessions_def)

lemma upd_sessions_view [simp]: "customers (upd_sessions t p f s) = customers s" "identities (upd_sessions t p f s) = identities s"
  by (simp_all add: upd_sessions_def)

lemma end_sessions_tables: "tables_ok s \<Longrightarrow> tables_ok (upd_sessions t p (ended c) s)"
  by (auto simp: tables_ok_def keyed_def logins_ok_def sessions_ok_def owned_def upd_sessions_map ended_def)
    (auto simp: upd_sessions_def ended_def)

lemma revoke_tables [tables_kept]: "within (holds_on tables_ok) (revoke_customer_session c i)"
    "within (holds_on tables_ok) (revoke_customer_session_by_token c cu hash)" "within (holds_on tables_ok) (revoke_customer_sessions c cu)"
  unfolding revoke_customer_session_def revoke_customer_session_by_token_def revoke_customer_sessions_def
  by (auto simp: within_def holds_on_def intro: end_sessions_tables)

lemma rotate_Inr: "rotate_customer_session c i hash s = Inr (x, s') \<Longrightarrow>
    s' = upd_sessions (tenant_of c) (\<lambda>r. cs_id r = i) (rotated c hash) s \<and>
    (\<forall>r \<in> set (sessions s). cs_refresh_hash r = hash \<longrightarrow> cs_tenant r = tenant_of c \<and> cs_id r = i)"
  by (auto simp: rotate_customer_session_def tx_inr list_all_iff)

lemma rotate_tables [tables_kept]: "within (holds_on tables_ok) (rotate_customer_session c i hash)"
proof (rule withinI)
  fix s x s'
  assume "rotate_customer_session c i hash s = Inr (x, s')"
  then have s': "s' = upd_sessions (tenant_of c) (\<lambda>r. cs_id r = i) (rotated c hash) s"
    and free: "\<And>r. r \<in> set (sessions s) \<Longrightarrow> cs_refresh_hash r = hash \<Longrightarrow> cs_tenant r = tenant_of c \<and> cs_id r = i"
    by (auto dest: rotate_Inr)
  have "tables_ok s'" if ok: "tables_ok s"
  proof -
    have d: "distinct (map cs_id (sessions s))" "distinct (map cs_refresh_hash (sessions s))"
      using ok by (simp_all add: tables_ok_def sessions_ok_def)
    have "distinct (map cs_refresh_hash (map (\<lambda>r. if cs_tenant r = tenant_of c \<and> cs_id r = i then rotated c hash r else r) (sessions s)))"
      by (rule distinct_upd_one [OF d, where k = i and h = hash]) (auto dest: free simp: rotated_def)
    then have "distinct (map cs_refresh_hash (sessions s'))"
      by (simp add: s' upd_sessions_def)
    moreover have "map cs_id (sessions s') = map cs_id (sessions s)"
      unfolding s' by (rule upd_sessions_map) (simp add: rotated_def)
    moreover have "\<forall>q \<in> set (sessions s'). owned s' (cs_tenant q) (cs_customer q)"
    proof -
      have "owned s' t u = owned s t u" for t u by (simp add: owned_def s')
      then show ?thesis using ok by (fastforce simp: tables_ok_def sessions_ok_def s' upd_sessions_def rotated_def)
    qed
    ultimately show ?thesis
      using ok d by (simp add: tables_ok_def sessions_ok_def keyed_def logins_ok_def owned_def s')
  qed
  then show "holds_on tables_ok s s'" by (simp add: holds_on_def)
qed

lemma liftT_tables [tables_kept]: "within (holds_on tables_ok) (liftT r)" "within (holds_on tables_ok) (oneT g)"
  by (auto simp: within_def holds_on_def oneT_def split: option.splits)

lemma reads_tables [tables_kept]:
  "within (holds_on tables_ok) (customer_by_email c email)" "within (holds_on tables_ok) (customer_by_id c i)"
  "within (holds_on tables_ok) (lock_customer c i)" "within (holds_on tables_ok) (customer_by_identity c provider subject)"
  "within (holds_on tables_ok) (lock_customer_session c hash)"
  unfolding customer_by_email_def customer_by_id_def lock_customer_def customer_by_identity_def lock_customer_session_def
  by (rule liftT_tables)+

section \<open>Every transaction keeps the keys\<close>

lemmas tables_rules [tables_kept] = inv.rules

lemma sign_in_tables [tables_kept]: "within (holds_on tables_ok) (sign_in L d c cu)"
  unfolding sign_in_def by (intro tables_kept)

lemma account_txs_tables [tables_kept]:
  "within (holds_on tables_ok) (register_tx L d c email hash name phone)" "within (holds_on tables_ok) (login_customer_tx L d c email password)"
  "within (holds_on tables_ok) (refresh_customer_tx L d c presented)" "within (holds_on tables_ok) (confirm_reset_tx L c token i hash)"
  unfolding register_tx_def login_customer_tx_def refresh_customer_tx_def confirm_reset_tx_def by (intro tables_kept)+

lemma google_pass_tables [tables_kept]: "within (holds_on tables_ok) (google_pass L d c g)"
  unfolding google_pass_def link_or_create_def Let_def by (intro tables_kept)+

lemma purge_tables [tables_kept]: "within (holds_on tables_ok) (purge od c cid)"
proof (rule withinI)
  fix s ids s'
  assume "purge od c cid s = Inr (ids, s')"
  then obtain r where r: "get_customer_row (tenant_of c) cid s = Some r" and fits: "purge_fits od c cid r s"
    and s': "s' = purged od c cid (cu_email r) ids s"
    by (auto simp: purge_Inr)
  show "holds_on tables_ok s s'"
    unfolding holds_on_def
  proof
    assume ok: "tables_ok s"
    have ids: "map cu_id (customers s') = map cu_id (customers s)" "map (\<lambda>u. (cu_tenant u, cu_id u)) (customers s') = map (\<lambda>u. (cu_tenant u, cu_id u)) (customers s)"
      unfolding s' purged_def by (simp_all add: row_upd_map anonymous_def)
    have own: "owned s' = owned s"
      unfolding owned_def fun_eq_iff by (metis ids(2) image_set)
    have mem: "q = r" if "q \<in> set (customers s)" "cu_tenant q = tenant_of c" "cu_id q = cid" for q
      using that ok row_get_Some [OF r [unfolded get_customer_row_def]] by (auto simp: tables_ok_def keyed_def distinct_map dest: inj_onD)
    let ?e = "cu_email (anonymous od c r)" and ?p = "\<lambda>u. cu_tenant u = tenant_of c \<and> cu_id u = cid"
    have d: "distinct (map (\<lambda>u. (cu_tenant u, cu_email u)) (map (\<lambda>u. if ?p u then anonymous od c r else u) (customers s)))"
      by (rule distinct_upd_one [where key = cu_id and k = cid and h = "(tenant_of c, ?e)"])
        (use ok fits row_get_Some [OF r [unfolded get_customer_row_def]] in \<open>auto simp: tables_ok_def keyed_def purge_fits_def anonymous_def\<close>)
    have "customers s' = map (\<lambda>u. if ?p u then anonymous od c r else u) (customers s)"
      by (auto simp: s' purged_def row_upd_def dest: mem)
    then have "distinct (map (\<lambda>u. (cu_tenant u, cu_email u)) (customers s'))" using d by (simp only:)
    then have "keyed s'" using ok by (simp add: keyed_def ids(1) tables_ok_def)
    moreover have "logins_ok s'" "sessions_ok s'"
      using ok unfolding logins_ok_def sessions_ok_def tables_ok_def own
      by (auto simp: s' purged_def row_del_def distinct_map_filter)
    ultimately show "tables_ok s'" by (simp add: tables_ok_def)
  qed
qed

lemma sweep_tables [tables_kept]: "within (holds_on tables_ok) (delete_ended_sessions c)"
  by (rule withinI) (auto simp: delete_ended_sessions_def Let_def holds_on_def tables_ok_def keyed_def logins_ok_def sessions_ok_def owned_def
      row_del_def distinct_map_filter)

section \<open>Steps\<close>

text \<open>\<open>new i\<close> is whether a session may take the id \<open>i\<close>: with \<open>\<lambda>_. True\<close> every draw is allowed, with
  \<open>\<lambda>j. j \<noteq> i\<close> the id \<open>i\<close> is never drawn again.\<close>

inductive account_step :: "(uuid \<Rightarrow> bool) \<Rightarrow> customer_lib \<Rightarrow> order_docs \<Rightarrow> db \<Rightarrow> db \<Rightarrow> bool" for new L od where
  registered: "register_customer L d salt c address password name phone s = (res, s') \<Longrightarrow> new (dr_session d) \<Longrightarrow> account_step new L od s s'"
| logged_in: "login_customer L d c address password s = (res, s') \<Longrightarrow> new (dr_session d) \<Longrightarrow> account_step new L od s s'"
| google: "in_tenant_tx c (google_pass L d c g) s = (res, s') \<Longrightarrow> new (dr_session d) \<Longrightarrow> account_step new L od s s'"
| refreshed: "refresh_customer L d c presented s = (res, s') \<Longrightarrow> account_step new L od s s'"
| logged_out: "logout_customer L c cu raw s = (res, s') \<Longrightarrow> account_step new L od s s'"
| profile: "update_me c i name set_phone phone s = (res, s') \<Longrightarrow> account_step new L od s s'"
| reset: "confirm_reset L salt c token password s = (res, s') \<Longrightarrow> account_step new L od s s'"
| purged: "in_tenant_tx c (purge od c cid) s = (res, s') \<Longrightarrow> account_step new L od s s'"
| swept: "in_tenant_tx c (delete_ended_sessions c) s = (res, s') \<Longrightarrow> account_step new L od s s'"
| elsewhere: "account_view s' = account_view s \<Longrightarrow> account_step new L od s s'"

definition account_run :: "(uuid \<Rightarrow> bool) \<Rightarrow> customer_lib \<Rightarrow> order_docs \<Rightarrow> db \<Rightarrow> db \<Rightarrow> bool" where
  "account_run new L od = (account_step new L od)\<^sup>*\<^sup>*"

text \<open>What each transaction keeps, every step keeps; of the sign-ins, those whose draw is new.\<close>

lemma tx_keeps: "in_tenant_tx c m s = (r, s1) \<Longrightarrow> within (holds_on I) m \<Longrightarrow> I s \<Longrightarrow> I s1"
  by (auto simp: in_tenant_tx_def run_tx_def within_def holds_on_def split: sum.splits option.splits if_splits)

lemma step_keeps:
  assumes "account_step new L od s s'" and "\<And>s s'. account_view s' = account_view s \<Longrightarrow> I s \<Longrightarrow> I s'"
    and "\<And>d c e h n p. new (dr_session d) \<Longrightarrow> within (holds_on I) (register_tx L d c e h n p)"
    and "\<And>d c e p. new (dr_session d) \<Longrightarrow> within (holds_on I) (login_customer_tx L d c e p)"
    and "\<And>d c g. new (dr_session d) \<Longrightarrow> within (holds_on I) (google_pass L d c g)"
    and "\<And>d c p. within (holds_on I) (refresh_customer_tx L d c p)" and "\<And>c cu h. within (holds_on I) (revoke_customer_session_by_token c cu h)"
    and "\<And>c i n b p. within (holds_on I) (update_customer_profile c i n b p)" and "\<And>c t i h. within (holds_on I) (confirm_reset_tx L c t i h)"
    and "\<And>c i. within (holds_on I) (purge od c i)" and "\<And>c. within (holds_on I) (delete_ended_sessions c)" and "I s"
  shows "I s'"
proof -
  note tx = tx_keeps [where I = I and s = s]
  from assms(1) show ?thesis
  proof (cases rule: account_step.cases)
    case registered
    then show ?thesis using tx [OF _ assms(3)] assms(12) by (auto simp: register_customer_def Let_def split: option.splits)
  next
    case logged_in
    then show ?thesis using tx [OF _ assms(4)] assms(12) by (auto simp: login_customer_def)
  next
    case google
    then show ?thesis using tx [OF _ assms(5)] assms(12) by auto
  next
    case refreshed
    then show ?thesis using tx [OF _ assms(6)] assms(12) by (auto simp: refresh_customer_def split: prod.splits sum.splits option.splits)
  next
    case logged_out
    then show ?thesis using tx [OF _ assms(7)] assms(12) by (auto simp: logout_customer_def)
  next
    case profile
    then show ?thesis using tx [OF _ inv.map_err [OF assms(8)]] assms(12) by (auto simp: update_me_def Let_def split: if_splits)
  next
    case reset
    then show ?thesis using tx [OF _ assms(9)] assms(12) by (auto simp: confirm_reset_def split: if_splits option.splits prod.splits)
  next
    case purged
    then show ?thesis using tx [OF _ assms(10)] assms(12) by auto
  next
    case swept
    then show ?thesis using tx [OF _ assms(11)] assms(12) by auto
  next
    case elsewhere
    then show ?thesis using assms(2,12) by auto
  qed
qed

section \<open>Customers can sign in\<close>

definition people_view :: "db \<Rightarrow> customer list \<times> customer_identity list" where
  "people_view s = (customers s, identities s)"

named_theorems signing \<open>statements that leave every customer a way to sign in\<close>

lemma view_signs [signing]: "within (same people_view) m \<Longrightarrow> within (holds_on signable) m"
  by (auto simp: within_def same_def holds_on_def people_view_def signable_def reachable_def)

lemma quiet_signs [signing]: "within (holds_on signable) (create_customer_session c i cu hash)" "within (holds_on signable) (oneT g)"
  "within (holds_on signable) (delete_ended_sessions c)" "within (holds_on signable) (rotate_customer_session c i hash)"
  "within (holds_on signable) (revoke_customer_session c i)" "within (holds_on signable) (revoke_customer_session_by_token c cu hash)"
  "within (holds_on signable) (revoke_customer_sessions c cu)"
  by (auto simp: within_def holds_on_def signable_def reachable_def create_session_Inr oneT_def delete_ended_sessions_def Let_def
      revoke_customer_session_def revoke_customer_session_by_token_def revoke_customer_sessions_def upd_sessions_def
      dest!: rotate_Inr split: option.splits)

lemma reads_signs [signing]:
  "within (holds_on signable) (customer_by_email c email)" "within (holds_on signable) (customer_by_id c i)"
  "within (holds_on signable) (lock_customer c i)" "within (holds_on signable) (customer_by_identity c provider subject)"
  "within (holds_on signable) (lock_customer_session c hash)"
  unfolding customer_by_email_def customer_by_id_def lock_customer_def customer_by_identity_def lock_customer_session_def
  by (rule quiet_signs)+

lemma create_signs [signing]: "cc_password_hash p \<noteq> None \<Longrightarrow> within (holds_on signable) (create_customer lc c p)"
  by (rule withinI) (auto simp: create_customer_Inr holds_on_def signable_def reachable_def new_customer_def)

definition as_reachable :: "customer \<Rightarrow> customer \<Rightarrow> bool" where
  "as_reachable u u' \<longleftrightarrow> cu_tenant u' = cu_tenant u \<and> cu_id u' = cu_id u \<and> cu_purged_at u' = cu_purged_at u \<and>
     (cu_password_hash u \<noteq> None \<longrightarrow> cu_password_hash u' \<noteq> None)"

lemma reachable_more: "reachable s u \<Longrightarrow> as_reachable u u' \<Longrightarrow> set (identities s) \<subseteq> set (identities s') \<Longrightarrow> reachable s' u'"
  unfolding reachable_def as_reachable_def by (elim disjE conjE) (auto simp: image_iff)

lemma signable_upd: "(\<And>u. as_reachable u (f u)) \<Longrightarrow> signable s \<Longrightarrow> signable (upd_customer t i f s)"
  unfolding signable_def
proof
  fix u'
  assume f: "\<And>u. as_reachable u (f u)" and s: "\<forall>u \<in> set (customers s). reachable s u" and "u' \<in> set (customers (upd_customer t i f s))"
  then obtain u where u: "u \<in> set (customers s)" "as_reachable u u'"
    by (auto simp: upd_customer_def row_upd_def as_reachable_def split: if_splits)
  show "reachable (upd_customer t i f s) u'"
    by (rule reachable_more [OF bspec [OF s u(1)] u(2)]) (simp add: upd_customer_def)
qed

lemma password_signs [signing]: "within (holds_on signable) (set_customer_password c i (Some h) old)"
  by (rule withinI) (auto simp: set_customer_password_def holds_on_def as_reachable_def intro!: signable_upd split: option.splits if_splits)

lemma profile_signs [signing]: "within (holds_on signable) (update_customer_profile c i name set_phone phone)"
  by (rule withinI) (auto simp: update_customer_profile_def tx_inr holds_on_def as_reachable_def profiled_def intro!: signable_upd)

lemmas signing_rules [signing] = inv.rules

lemma account_txs_sign [signing]:
  "within (holds_on signable) (sign_in L d c cu)"
  "within (holds_on signable) (register_tx L d c email hash name phone)" "within (holds_on signable) (login_customer_tx L d c email password)"
  "within (holds_on signable) (refresh_customer_tx L d c presented)" "within (holds_on signable) (confirm_reset_tx L c token i hash)"
  unfolding register_tx_def login_customer_tx_def refresh_customer_tx_def confirm_reset_tx_def sign_in_def
  by (intro signing; simp)+

text \<open>A customer made without a password is linked to the login in the same transaction.\<close>

lemma identity_signs [signing]: "within (holds_on signable) (create_identity c cu provider subject em)"
  by (rule withinI) (fastforce simp: create_identity_Inr holds_on_def signable_def as_reachable_def intro: reachable_more)

lemma made_signs: "signable s \<Longrightarrow> create_customer lc c p s = Inr (r, s1) \<Longrightarrow> create_identity c (cu_id r) provider subject em s1 = Inr (x, s2) \<Longrightarrow> signable s2"
  by (auto simp: signable_def create_customer_Inr create_identity_Inr new_customer_def reachable_def)

lemma link_signs [signing]: "within (holds_on signable) (link_or_create L d c g)"
proof (rule withinI)
  fix s x s'
  assume r: "link_or_create L d c g s = Inr (x, s')"
  let ?email = "normal_email L (gi_email g)"
  show "holds_on signable s s'"
  proof (cases "customer_by_email_row c ?email s")
    case None
    then show ?thesis
      using r by (auto simp: link_or_create_def Let_def tx_inr tryT_def customer_by_email_def oneT_def holds_on_def dest: made_signs)
  next
    case (Some cu)
    then have "\<exists>y. create_identity c (cu_id cu) ''google'' (gi_subject g) (Some ?email) s = Inr (y, s')"
      using r by (auto simp: link_or_create_def Let_def tx_inr tryT_def customer_by_email_def oneT_def)
    then show ?thesis using identity_signs by (auto simp: within_def)
  qed
qed

lemma google_signs [signing]: "within (holds_on signable) (google_pass L d c g)"
  unfolding google_pass_def by (intro signing)

lemma purge_signs [signing]: "within (holds_on signable) (purge od c cid)"
proof (rule withinI)
  fix s ids s'
  assume "purge od c cid s = Inr (ids, s')"
  then obtain email where s': "s' = purged od c cid email ids s"
    by (auto simp: purge_Inr)
  show "holds_on signable s s'"
    unfolding holds_on_def signable_def
  proof (intro impI ballI)
    fix u'
    assume ok: "\<forall>u \<in> set (customers s). reachable s u" and "u' \<in> set (customers s')"
    then obtain u where u: "u \<in> set (customers s)" and u': "u' = (if cu_tenant u = tenant_of c \<and> cu_id u = cid then anonymous od c u else u)"
      by (auto simp: s' purged_def row_upd_def)
    show "reachable s' u'"
    proof (cases "cu_tenant u = tenant_of c \<and> cu_id u = cid")
      case True
      then show ?thesis by (simp add: u' reachable_def anonymous_def split: option.splits)
    next
      case False
      then have "i \<in> set (identities s')" if "i \<in> set (identities s)" "(cd_tenant i, cd_customer i) = (cu_tenant u, cu_id u)" for i
        using that by (auto simp: s' purged_def row_del_def)
      then show ?thesis using False bspec [OF ok u] unfolding u' reachable_def by (auto simp: image_iff)
    qed
  qed
qed

section \<open>An ended session stays ended\<close>

named_theorems ending \<open>statements that never bring a session back\<close>

lemma view_ends [ending]: "within (same sessions) m \<Longrightarrow> within (holds_on (ended_session i)) m"
  by (auto simp: within_def same_def holds_on_def ended_session_def)

lemma create_session_ends [ending]: "j \<noteq> i \<Longrightarrow> within (holds_on (ended_session i)) (create_customer_session c j cu hash)"
  by (auto simp: within_def create_session_Inr holds_on_def ended_session_def)

lemma upd_session_ends: "(\<And>r. cs_id (f r) = cs_id r \<and> (cs_revoked_at r \<noteq> None \<longrightarrow> cs_revoked_at (f r) \<noteq> None)) \<Longrightarrow>
    ended_session i s \<Longrightarrow> ended_session i (upd_sessions t p f s)"
  by (auto simp: ended_session_def upd_sessions_def)

lemma sessions_end [ending]: "within (holds_on (ended_session i)) (rotate_customer_session c j hash)"
  "within (holds_on (ended_session i)) (revoke_customer_session c j)" "within (holds_on (ended_session i)) (revoke_customer_session_by_token c cu hash)"
  "within (holds_on (ended_session i)) (revoke_customer_sessions c cu)"
  by (auto simp: within_def holds_on_def revoke_customer_session_def revoke_customer_session_by_token_def revoke_customer_sessions_def
      dest!: rotate_Inr intro!: upd_session_ends simp: rotated_def ended_def split: option.splits)

lemma quiet_ends [ending]: "within (holds_on (ended_session i)) (oneT g)" "within (holds_on (ended_session i)) (create_customer lc c p)"
  "within (holds_on (ended_session i)) (set_customer_password c j new old)" "within (holds_on (ended_session i)) (update_customer_profile c j name sp phone)"
  "within (holds_on (ended_session i)) (create_identity c cu provider subject em)"
  by (auto simp: within_def holds_on_def ended_session_def oneT_def create_customer_Inr set_customer_password_def update_customer_profile_def
      create_identity_Inr upd_customer_def tx_inr split: option.splits if_splits)

lemma reads_end [ending]:
  "within (holds_on (ended_session i)) (customer_by_email c email)" "within (holds_on (ended_session i)) (customer_by_id c j)"
  "within (holds_on (ended_session i)) (lock_customer c j)" "within (holds_on (ended_session i)) (customer_by_identity c provider subject)"
  "within (holds_on (ended_session i)) (lock_customer_session c hash)"
  unfolding customer_by_email_def customer_by_id_def lock_customer_def customer_by_identity_def lock_customer_session_def
  by (rule quiet_ends)+

lemma deletes_end [ending]: "within (holds_on (ended_session i)) (purge od c cid)" "within (holds_on (ended_session i)) (delete_ended_sessions c)"
  by (auto simp: within_def purge_Inr purged_def holds_on_def ended_session_def row_del_def delete_ended_sessions_def Let_def)

lemmas ending_rules [ending] = inv.rules

lemma sign_in_ends [ending]: "dr_session d \<noteq> i \<Longrightarrow> within (holds_on (ended_session i)) (sign_in L d c cu)"
  unfolding sign_in_def by (intro ending)

lemma account_txs_end [ending]:
  "dr_session d \<noteq> i \<Longrightarrow> within (holds_on (ended_session i)) (register_tx L d c email hash name phone)"
  "dr_session d \<noteq> i \<Longrightarrow> within (holds_on (ended_session i)) (login_customer_tx L d c email password)"
  "dr_session d \<noteq> i \<Longrightarrow> within (holds_on (ended_session i)) (google_pass L d c g)"
  "within (holds_on (ended_session i)) (refresh_customer_tx L d c presented)" "within (holds_on (ended_session i)) (confirm_reset_tx L c token j hash)"
  unfolding register_tx_def login_customer_tx_def refresh_customer_tx_def confirm_reset_tx_def google_pass_def link_or_create_def Let_def
  by (intro ending; assumption)+

section \<open>Runs\<close>

definition accounts_ok :: "db \<Rightarrow> bool" where
  "accounts_ok s \<longleftrightarrow> tables_ok s \<and> signable s"

lemma step_tables: "account_step new L od s s' \<Longrightarrow> tables_ok s \<Longrightarrow> tables_ok s'"
  by (erule step_keeps [where I = tables_ok]) (auto simp: account_view_def tables_ok_def keyed_def logins_ok_def sessions_ok_def owned_def intro!: tables_kept)

lemma step_signs: "account_step new L od s s' \<Longrightarrow> signable s \<Longrightarrow> signable s'"
  by (erule step_keeps [where I = signable]) (auto simp: account_view_def signable_def reachable_def intro!: signing)

lemma step_ends: "account_step (\<lambda>j. j \<noteq> i) L od s s' \<Longrightarrow> ended_session i s \<Longrightarrow> ended_session i s'"
  by (erule step_keeps [where I = "ended_session i"]) (auto simp: account_view_def ended_session_def intro!: ending)

lemma run_tables: "account_run new L od s s' \<Longrightarrow> tables_ok s \<Longrightarrow> tables_ok s'"
  unfolding account_run_def by (induction rule: rtranclp_induct) (auto intro: step_tables)

lemma run_signs: "account_run new L od s s' \<Longrightarrow> signable s \<Longrightarrow> signable s'"
  unfolding account_run_def by (induction rule: rtranclp_induct) (auto intro: step_signs)

lemma run_ends: "account_run (\<lambda>j. j \<noteq> i) L od s s' \<Longrightarrow> ended_session i s \<Longrightarrow> ended_session i s'"
  unfolding account_run_def by (induction rule: rtranclp_induct) (auto intro: step_ends)

text \<open>A Google sign-in is one or two steps, whichever pass finds the login.\<close>

lemma google_passes_run: "google_passes L ds c g s = (res, s') \<Longrightarrow> list_all (\<lambda>d. new (dr_session d)) ds \<Longrightarrow> account_run new L od s s'"
proof (induction L ds c g s rule: google_passes.induct)
  case (1 L c g s)
  then show ?case by (simp add: account_run_def)
next
  case (2 L d ds c g s)
  obtain r s1 where p: "in_tenant_tx c (google_pass L d c g) s = (r, s1)" by fastforce
  have st: "account_step new L od s s1"
    by (rule account_step.google [OF p]) (use 2(3) in simp)
  show ?case
  proof (cases "\<exists>e. r = Inl e \<and> violation e = Some (''23505'', ''customer_identities_pkey'') \<and> ds \<noteq> []")
    case True
    then have "account_run new L od s1 s'"
      using 2 p by (auto split: sum.splits if_splits)
    then show ?thesis using st by (auto simp: account_run_def)
  next
    case False
    then have "s' = s1" using 2(2) p by (auto split: sum.splits if_splits)
    then show ?thesis using st by (auto simp: account_run_def)
  qed
qed

section \<open>Refreshing\<close>

definition live_session :: "ctx \<Rightarrow> customer_session \<Rightarrow> bool" where
  "live_session c q \<longleftrightarrow> cs_revoked_at q = None \<and> c_clock c < cs_expires_at q"

lemma lock_session_eval: "lock_customer_session c h s = (case session_by_token (tenant_of c) h s of None \<Rightarrow> Inl NoRows | Some q \<Rightarrow> Inr (q, s))"
  by (simp add: lock_customer_session_def oneT_def)

lemma no_rows [simp]: "err_is NoRows NoRows"
  by simp

text \<open>A token that is not the live session's current one is refused.\<close>

lemma refresh_dead:
  assumes "c_tenant c \<noteq> None" and "\<And>q. session_by_token (tenant_of c) (customer_hash L presented) s = Some q \<Longrightarrow> \<not> live_session c q"
  shows "refresh_customer L d c presented s = (Inl failed_sign_in, s)"
  using assms by (cases "session_by_token (tenant_of c) (customer_hash L presented) s")
    (auto simp: refresh_customer_def refresh_customer_tx_def in_tenant_tx_def run_tx_def bindT_def mapErrT_def failT_def lock_session_eval live_session_def
      split: option.splits)

lemma refresh_reused:
  assumes "c_tenant c \<noteq> None" and "session_by_token (tenant_of c) (customer_hash L presented) s = Some q" and "live_session c q"
    and "cs_refresh_hash q \<noteq> customer_hash L presented"
  shows "refresh_customer L d c presented s =
    (Inl failed_sign_in, upd_sessions (tenant_of c) (\<lambda>r. cs_id r = cs_id q) (ended c) s)"
  using assms by (auto simp: refresh_customer_def refresh_customer_tx_def in_tenant_tx_def run_tx_def bindT_def thenT_def mapErrT_def retT_def lock_session_eval
      live_session_def revoke_customer_session_def writeT_def split: option.splits)

lemma refresh_Inr:
  assumes "refresh_customer L d c presented s = (Inr out, s')"
  shows "\<exists>q cu. session_by_token (tenant_of c) (customer_hash L presented) s = Some q \<and> live_session c q \<and>
    cs_refresh_hash q = customer_hash L presented \<and> c_tenant c \<noteq> None \<and>
    s' = upd_sessions (tenant_of c) (\<lambda>r. cs_id r = cs_id q) (rotated c (customer_hash L (customer_token d))) s \<and>
    get_customer_row (tenant_of c) (cs_customer q) s' = Some cu \<and> tokens_for L c cu (customer_token d) = Inr out"
proof -
  from assms have "in_tenant_tx c (refresh_customer_tx L d c presented) s = (Inr (Some out), s')"
    by (auto simp: refresh_customer_def split: sum.splits option.splits prod.splits)
  then have c: "c_tenant c \<noteq> None" and tx: "refresh_customer_tx L d c presented s = Inr (Some out, s')"
    by (auto simp: in_tenant_tx_Inr)
  from tx obtain q where q: "session_by_token (tenant_of c) (customer_hash L presented) s = Some q" "live_session c q"
      "cs_refresh_hash q = customer_hash L presented"
    and rot: "thenT (rotate_customer_session c (cs_id q) (customer_hash L (customer_token d)))
      (bindT (customer_by_id c (cs_customer q)) (\<lambda>cu. bindT (liftT (tokens_for L c cu (customer_token d))) (\<lambda>out. retT (Some out)))) s = Inr (Some out, s')"
    by (auto simp: refresh_customer_tx_def bindT_Inr thenT_Inr [of "revoke_customer_session _ _"] lock_session_eval live_session_def
        split: option.splits if_splits)
  then show ?thesis
    using c by (auto simp: thenT_Inr bindT_Inr customer_by_id_def oneT_def dest!: rotate_Inr split: option.splits)
qed

lemma session_by_token_Some: "session_by_token t h s = Some q \<Longrightarrow> q \<in> set (sessions s) \<and> cs_tenant q = t \<and> (cs_refresh_hash q = h \<or> cs_previous_hash q = Some h)"
  by (auto simp: session_by_token_def find_Some_iff)


section \<open>The theorems\<close>

text \<open>C28. Whatever registers, signs in, refreshes, resets, updates or purges, and however these interleave, the account tables of
  every shop stay sound (BR-092, BR-127): emails are unique within a shop, a Google login belongs to one customer of the shop and a
  customer has at most one, session ids and refresh tokens are unique, logins and sessions belong to customers of their shop, and a
  customer who was not purged always has a password or a login.\<close>

theorem accounts_stay_right:
  assumes "account_run new L od s s'" and "accounts_ok s"
  shows "accounts_ok s'"
  using run_tables [OF assms(1)] run_signs [OF assms(1)] assms(2) by (simp add: accounts_ok_def)

text \<open>A refresh gives out a token exactly once (BR-093): it needs the token the live session of the shop is current for, changes
  nothing but that session, which gets the new token's hash, remembers the old one's and lives 30 days from now; the answer carries
  the new token and the session's customer, and the token it was given refreshes nothing any more, for any caller at any time.\<close>

theorem customer_refresh_rotates:
  assumes "refresh_customer L d c presented s = (Inr out, s')" and "tables_ok s" and "customer_hash L (customer_token d) \<noteq> customer_hash L presented"
  shows "\<exists>q cu. q \<in> set (sessions s) \<and> cs_tenant q = tenant_of c \<and> cs_refresh_hash q = customer_hash L presented \<and> live_session c q \<and>
    s' = upd_sessions (tenant_of c) (\<lambda>r. cs_id r = cs_id q)
      (\<lambda>r. r\<lparr>cs_previous_hash := Some (cs_refresh_hash r), cs_refresh_hash := customer_hash L (customer_token d), cs_expires_at := c_now c + session_days\<rparr>) s \<and>
    get_customer_row (tenant_of c) (cs_customer q) s = Some cu \<and> kt_customer out = cu \<and> kt_refresh out = customer_token d \<and> kt_expires_in out = 900 \<and>
    (\<forall>d2 c2. isl (fst (refresh_customer L d2 c2 presented s')))"
proof -
  from refresh_Inr [OF assms(1)] obtain q cu where q: "session_by_token (tenant_of c) (customer_hash L presented) s = Some q" "live_session c q"
      "cs_refresh_hash q = customer_hash L presented"
    and s': "s' = upd_sessions (tenant_of c) (\<lambda>r. cs_id r = cs_id q) (rotated c (customer_hash L (customer_token d))) s"
    and cu: "get_customer_row (tenant_of c) (cs_customer q) s' = Some cu" "tokens_for L c cu (customer_token d) = Inr out"
    by blast
  have qs: "q \<in> set (sessions s)" "cs_tenant q = tenant_of c"
    using session_by_token_Some [OF q(1)] by blast+
  have inj: "inj_on cs_refresh_hash (set (sessions s))"
    using assms(2) by (simp add: tables_ok_def sessions_ok_def distinct_map)
  have only: "r = q" if "r \<in> set (sessions s)" "cs_refresh_hash r = customer_hash L presented" for r
    by (rule inj_onD [OF inj]) (use that qs(1) q(3) in simp_all)
  have gone: "cs_refresh_hash r \<noteq> customer_hash L presented" if r: "r \<in> set (sessions s')" for r
    using r only assms(3) qs(2) by (auto simp: s' upd_sessions_def rotated_def split: if_splits)
  have "isl (fst (refresh_customer L d2 c2 presented s'))" for d2 c2
  proof (cases "refresh_customer L d2 c2 presented s'")
    case (Pair res s2)
    then show ?thesis
      using refresh_Inr [of L d2 c2 presented s'] gone by (cases res) (auto dest: session_by_token_Some)
  qed
  moreover have "get_customer_row (tenant_of c) (cs_customer q) s = Some cu"
    using cu(1) by (simp add: s' get_customer_row_def)
  moreover have "kt_customer out = cu" "kt_refresh out = customer_token d" "kt_expires_in out = 900"
    using cu(2) by (auto simp: tokens_for_def access_token_ttl_def seconds_def minutes_def split: sum.splits)
  ultimately show ?thesis
    using qs q(2,3) s' unfolding rotated_def by blast
qed

text \<open>C27. Presenting the token a session was rotated away from ends the session (BR-093): the request is refused, the only change is that
  the session is revoked, and in every state reached from there, as long as no new session draws the same id, it is still
  revoked and whichever token leads to it, the current one included, is refused and changes nothing.\<close>

theorem stolen_customer_token:
  assumes "session_by_token (tenant_of c) (customer_hash L presented) s = Some q" and "cs_refresh_hash q \<noteq> customer_hash L presented"
    and "live_session c q" and "c_tenant c \<noteq> None" and "tables_ok s"
    and "refresh_customer L d c presented s = (res, s')" and "account_run (\<lambda>j. j \<noteq> cs_id q) L od s' s2"
  shows "res = Inl failed_sign_in \<and> s' = upd_sessions (tenant_of c) (\<lambda>r. cs_id r = cs_id q) (ended c) s \<and>
    (\<forall>r \<in> set (sessions s2). cs_id r = cs_id q \<longrightarrow> cs_revoked_at r \<noteq> None) \<and>
    (\<forall>d3 c3 token r. c_tenant c3 \<noteq> None \<longrightarrow> session_by_token (tenant_of c3) (customer_hash L token) s2 = Some r \<longrightarrow> cs_id r = cs_id q \<longrightarrow>
       refresh_customer L d3 c3 token s2 = (Inl failed_sign_in, s2))"
proof -
  have r: "res = Inl failed_sign_in" "s' = upd_sessions (tenant_of c) (\<lambda>r. cs_id r = cs_id q) (ended c) s"
    using refresh_reused [OF assms(4,1,3,2)] assms(6) by auto
  have qs: "q \<in> set (sessions s)" "cs_tenant q = tenant_of c"
    using session_by_token_Some [OF assms(1)] by blast+
  have "inj_on cs_id (set (sessions s))"
    using assms(5) by (simp add: tables_ok_def sessions_ok_def distinct_map)
  then have "r = q" if "r \<in> set (sessions s)" "cs_id r = cs_id q" for r
    using that qs(1) by (auto dest: inj_onD)
  then have "ended_session (cs_id q) s'"
    using qs(2) unfolding r(2) by (auto simp: ended_session_def upd_sessions_def ended_def split: option.splits)
  then have dead: "ended_session (cs_id q) s2" by (rule run_ends [OF assms(7)])
  have "refresh_customer L d3 c3 token s2 = (Inl failed_sign_in, s2)"
    if "c_tenant c3 \<noteq> None" "session_by_token (tenant_of c3) (customer_hash L token) s2 = Some r" "cs_id r = cs_id q" for d3 c3 token r
    using that dead by (intro refresh_dead) (auto simp: ended_session_def live_session_def dest!: session_by_token_Some)
  then show ?thesis using r dead by (auto simp: ended_session_def)
qed

lemma confirm_reset_Inr:
  assumes "confirm_reset L salt c token password s = (Inr x, s')"
  shows "\<exists>i e r. reset_parse (ev_lib (kl_env L)) token (c_clock c) = Some (i, tenant_of c, e) \<and> get_customer_row (tenant_of c) i s = Some r \<and>
    reset_verify (ev_lib (kl_env L)) customer_label token (cu_password_hash r) \<and> 8 \<le> length password \<and>
    s' = upd_sessions (tenant_of c) (\<lambda>q. cs_customer q = i) (ended c)
      (upd_customer (tenant_of c) i (\<lambda>r. r\<lparr>cu_password_hash := Some (hash_password (ev_argon (kl_env L)) salt password), cu_updated_at := c_now c\<rparr>) s)"
proof -
  from assms obtain i t e where p: "reset_parse (ev_lib (kl_env L)) token (c_clock c) = Some (i, t, e)" "t = tenant_of c" "8 \<le> length password"
    and tx: "confirm_reset_tx L c token i (hash_password (ev_argon (kl_env L)) salt password) s = Inr (x, s')"
    by (auto simp: confirm_reset_def in_tenant_tx_Inr split: if_splits option.splits)
  from tx obtain r where r: "get_customer_row (tenant_of c) i s = Some r" "reset_verify (ev_lib (kl_env L)) customer_label token (cu_password_hash r)"
    by (auto simp: confirm_reset_tx_def bindT_Inr lock_customer_def oneT_def split: option.splits if_splits)
  have id: "cu_id r = i" using r(1) by (auto simp: get_customer_row_def dest: row_get_Some)
  show ?thesis
    using p tx r id by (auto simp: confirm_reset_tx_def bindT_Inr lock_customer_def oneT_def set_customer_password_def revoke_customer_sessions_def
        split: option.splits if_splits)
qed

text \<open>A customer's password reset works once, in its own shop, and signs the customer out everywhere (BR-094): it needs a link minted for a
  customer of this shop against the password hash the account has now; afterwards the account has the new password's hash, every
  session of the customer is revoked and none of anybody else's is touched; and wherever the account's hash is not the old one, the
  link is refused with nothing written.\<close>

theorem customer_reset_once:
  assumes "confirm_reset L salt c token password s = (Inr x, s')" and "inj (tl_mac (ev_lib (kl_env L)))"
  shows "\<exists>i e r r'. reset_parse (ev_lib (kl_env L)) token (c_clock c) = Some (i, tenant_of c, e) \<and> unix (c_clock c) < e \<and>
    get_customer_row (tenant_of c) i s = Some r \<and> reset_verify (ev_lib (kl_env L)) customer_label token (cu_password_hash r) \<and>
    get_customer_row (tenant_of c) i s' = Some r' \<and> cu_password_hash r' = Some (hash_password (ev_argon (kl_env L)) salt password) \<and>
    sessions s' = map (\<lambda>q. if cs_tenant q = tenant_of c \<and> cs_customer q = i then ended c q else q) (sessions s) \<and>
    (\<forall>s2 r2 salt2 c2 password2. get_customer_row (tenant_of c) i s2 = Some r2 \<longrightarrow> deref (cu_password_hash r2) \<noteq> deref (cu_password_hash r) \<longrightarrow>
       isl (fst (confirm_reset L salt2 c2 token password2 s2)) \<and> snd (confirm_reset L salt2 c2 token password2 s2) = s2)"
proof -
  from confirm_reset_Inr [OF assms(1)] obtain i e r where
    p: "reset_parse (ev_lib (kl_env L)) token (c_clock c) = Some (i, tenant_of c, e)" and r: "get_customer_row (tenant_of c) i s = Some r"
    and v: "reset_verify (ev_lib (kl_env L)) customer_label token (cu_password_hash r)"
    and s': "s' = upd_sessions (tenant_of c) (\<lambda>q. cs_customer q = i) (ended c)
      (upd_customer (tenant_of c) i (\<lambda>r. r\<lparr>cu_password_hash := Some (hash_password (ev_argon (kl_env L)) salt password), cu_updated_at := c_now c\<rparr>) s)"
    by blast
  let ?f = "\<lambda>r :: customer. r\<lparr>cu_password_hash := Some (hash_password (ev_argon (kl_env L)) salt password), cu_updated_at := c_now c\<rparr>"
  have "get_customer_row (tenant_of c) i s' = Some (?f r)"
    using r by (simp add: s' get_customer_row_def upd_customer_def row_get_upd_same keeps_key_def)
  moreover have "sessions s' = map (\<lambda>q. if cs_tenant q = tenant_of c \<and> cs_customer q = i then ended c q else q) (sessions s)"
    by (simp add: s' upd_sessions_def upd_customer_def)
  moreover have "unix (c_clock c) < e"
    using p by (auto simp: reset_parse_def split: prod.splits option.splits if_splits)
  moreover have "isl (fst (confirm_reset L salt2 c2 token password2 s2)) \<and> snd (confirm_reset L salt2 c2 token password2 s2) = s2"
    if "get_customer_row (tenant_of c) i s2 = Some r2" "deref (cu_password_hash r2) \<noteq> deref (cu_password_hash r)" for s2 r2 salt2 c2 password2
  proof (cases "confirm_reset L salt2 c2 token password2 s2")
    case (Pair res s3)
    show ?thesis
    proof (cases res)
      case (Inl e2)
      then show ?thesis using Pair by (auto simp: confirm_reset_def in_tenant_tx_Inl split: if_splits option.splits)
    next
      case (Inr y)
      from confirm_reset_Inr [OF Pair [unfolded Inr]] obtain j e2 r3 where
        "reset_parse (ev_lib (kl_env L)) token (c_clock c2) = Some (j, tenant_of c2, e2)" "get_customer_row (tenant_of c2) j s2 = Some r3"
        "reset_verify (ev_lib (kl_env L)) customer_label token (cu_password_hash r3)"
        by blast
      then show ?thesis using reset_parse_det [OF p] that reset_verify_hash [OF assms(2) v] by force
    qed
  qed
  ultimately show ?thesis
    using p r v by (intro exI conjI) (assumption | rule refl | simp)+
qed

end
