(* ===== verification/AccountSamples.thy ===== *)
theory AccountSamples
  imports Accounts
begin

text \<open>
  A shop with one customer, on whom the theorems of Accounts are tried, and two gaps the model shows.\<close>

definition shop_lib :: customer_lib where
  "shop_lib = \<lparr>kl_env = sample_env, kl_address = (\<lambda>e. CHR ''@'' \<in> set e), kl_url = (\<lambda>_. None), kl_with_token = (\<lambda>_ t. t), kl_reset_text = (\<lambda>a b l. (a, b, l))\<rparr>"

definition shopper_ctx :: ctx where
  "shopper_ctx = \<lparr>c_tenant = Some 1, c_actor = None, c_ip = None, c_role = None, c_now = 10, c_clock = 10\<rparr>"

definition drawn :: "nat \<Rightarrow> string \<Rightarrow> draw" where
  "drawn i x = \<lparr>dr_customer = 50, dr_session = i, dr_random = x\<rparr>"

definition joined :: "(err + customer_tokens) \<times> db" where
  "joined = register_customer shop_lib (drawn 60 ''one'') ''salt'' shopper_ctx ''Ani@toko.id'' ''password1'' '' Ani '' None staff_db"

definition joined_db :: db where
  "joined_db = staff_db\<lparr>customers := [\<lparr>cu_id = 3, cu_tenant = 1, cu_email = ''ani@toko.id'', cu_password_hash = None, cu_name = ''Ani'',
      cu_phone = None, cu_email_verified_at = None, cu_created_at = 10, cu_updated_at = 10, cu_purged_at = None\<rparr>],
    identities := [\<lparr>cd_tenant = 1, cd_customer = 3, cd_provider = ''google'', cd_subject = ''g1'', cd_email = None, cd_created_at = 10\<rparr>],
    sessions := [\<lparr>cs_id = 60, cs_tenant = 1, cs_customer = 3, cs_refresh_hash = ''eno_tr'', cs_previous_hash = None,
      cs_expires_at = 10 + session_days, cs_revoked_at = None, cs_created_at = 10\<rparr>]\<rparr>"

definition again :: "string \<Rightarrow> string \<Rightarrow> db \<Rightarrow> (err + customer_tokens) \<times> db" where
  "again new presented s = refresh_customer shop_lib (drawn 61 new) shopper_ctx presented s"

lemma joined_runs: "\<not> isl (fst joined)"
  by code_simp

lemma again_runs: "\<not> isl (fst (again ''two'' ''rt_one'' joined_db))"
  by code_simp

lemma live_not_left: "\<not> isl (fst p) \<Longrightarrow> \<exists>x s. p = (Inr x, s)"
  by (metis prod.collapse sum.collapse(2))

lemma joined_db_ok: "accounts_ok joined_db" "accounts_ok staff_db"
  by (simp_all add: accounts_ok_def tables_ok_def keyed_def logins_ok_def sessions_ok_def signable_def reachable_def owned_def
      joined_db_def staff_db_def empty_db_def)

theorem accounts_stay_right_witness: "\<not> isl (fst joined) \<and> accounts_ok (snd joined)"
proof -
  have "account_step (\<lambda>_. True) shop_lib sample_docs staff_db (snd joined)"
    by (rule account_step.registered [where res = "fst joined"]) (simp_all add: joined_def)
  then have "account_run (\<lambda>_. True) shop_lib sample_docs staff_db (snd joined)"
    by (simp add: account_run_def)
  from accounts_stay_right [OF this joined_db_ok(2)] show ?thesis using joined_runs by simp
qed

lemma hashes: "customer_hash shop_lib x = rev x" "customer_token (drawn i x) = ''rt_'' @ x" "tenant_of shopper_ctx = 1"
  by (simp_all add: customer_hash_def shop_lib_def sample_env_def customer_token_def refresh_prefix_def drawn_def shopper_ctx_def tenant_of_def)

theorem customer_refresh_rotates_witness: "\<exists>out s'. again ''two'' ''rt_one'' joined_db = (Inr out, s') \<and> kt_refresh out = ''rt_two'' \<and>
    map cs_refresh_hash (sessions s') = [''owt_tr''] \<and> isl (fst (again ''three'' ''rt_one'' s'))"
proof -
  obtain out s' where r: "again ''two'' ''rt_one'' joined_db = (Inr out, s')" using live_not_left [OF again_runs] by blast
  have ok: "tables_ok joined_db" using joined_db_ok by (simp add: accounts_ok_def)
  have ne: "customer_hash shop_lib (customer_token (drawn 61 ''two'')) \<noteq> customer_hash shop_lib ''rt_one''" by (simp add: hashes)
  from customer_refresh_rotates [OF r [unfolded again_def] ok ne] obtain q where q: "q \<in> set (sessions joined_db)" and
      s': "sessions s' = map (\<lambda>r. if cs_tenant r = tenant_of shopper_ctx \<and> cs_id r = cs_id q then r\<lparr>cs_previous_hash := Some (cs_refresh_hash r),
        cs_refresh_hash := customer_hash shop_lib (customer_token (drawn 61 ''two'')), cs_expires_at := c_now shopper_ctx + session_days\<rparr> else r) (sessions joined_db)"
    and k: "kt_refresh out = customer_token (drawn 61 ''two'')" and no: "isl (fst (refresh_customer shop_lib (drawn 61 ''three'') shopper_ctx ''rt_one'' s'))"
    by (auto simp: upd_sessions_def)
  have "map cs_refresh_hash (sessions s') = [''owt_tr'']"
    using q by (simp add: s' joined_db_def hashes)
  then show ?thesis using r k no by (simp add: again_def hashes)
qed

text \<open>The session of \<open>joined_db\<close> after one rotation, and after two.\<close>

definition one_later :: db where
  "one_later = joined_db\<lparr>sessions := [\<lparr>cs_id = 60, cs_tenant = 1, cs_customer = 3, cs_refresh_hash = ''owt_tr'', cs_previous_hash = Some ''eno_tr'',
      cs_expires_at = 10 + session_days, cs_revoked_at = None, cs_created_at = 10\<rparr>]\<rparr>"

theorem stolen_customer_token_witness: "case again ''three'' ''rt_one'' one_later of (res, s') \<Rightarrow> res = Inl failed_sign_in \<and>
    map cs_revoked_at (sessions s') = [Some 10] \<and> again ''four'' ''rt_two'' s' = (Inl failed_sign_in, s')"
proof -
  let ?q = "\<lparr>cs_id = 60, cs_tenant = 1, cs_customer = 3, cs_refresh_hash = ''owt_tr'', cs_previous_hash = Some ''eno_tr'',
      cs_expires_at = 10 + session_days, cs_revoked_at = None, cs_created_at = 10\<rparr>"
  obtain res s' where r: "again ''three'' ''rt_one'' one_later = (res, s')" by fastforce
  have q: "session_by_token (tenant_of shopper_ctx) (customer_hash shop_lib ''rt_one'') one_later = Some ?q"
    by (simp add: session_by_token_def hashes one_later_def)
  have ne: "cs_refresh_hash ?q \<noteq> customer_hash shop_lib ''rt_one''" by (simp add: hashes)
  have live: "live_session shopper_ctx ?q"
    by (simp add: live_session_def shopper_ctx_def session_days_def hours_def minutes_def seconds_def)
  have c: "c_tenant shopper_ctx \<noteq> None" by (simp add: shopper_ctx_def)
  have ok: "tables_ok one_later"
    by (simp add: tables_ok_def keyed_def logins_ok_def sessions_ok_def owned_def one_later_def joined_db_def)
  have run: "account_run (\<lambda>j. j \<noteq> cs_id ?q) shop_lib sample_docs s' s'" by (simp add: account_run_def)
  note st = stolen_customer_token [OF q ne live c ok r [unfolded again_def] run]
  have s': "s' = upd_sessions 1 (\<lambda>r. cs_id r = 60) (ended shopper_ctx) one_later" and res: "res = Inl failed_sign_in"
    using st by (simp_all add: hashes)
  have "session_by_token (tenant_of shopper_ctx) (customer_hash shop_lib ''rt_two'') s' = Some (ended shopper_ctx ?q)"
    by (simp add: session_by_token_def hashes s' one_later_def upd_sessions_def ended_def)
  then have "refresh_customer shop_lib (drawn 61 ''four'') shopper_ctx ''rt_two'' s' = (Inl failed_sign_in, s')"
    using st c by (auto simp: ended_def)
  then show ?thesis
    unfolding r by (simp add: res again_def) (simp add: s' upd_sessions_def one_later_def ended_def shopper_ctx_def)
qed

definition customer_link :: string where
  "customer_link = reset_mint sample_lib customer_label 3 1 None 0"

definition customer_reset :: "db \<Rightarrow> (err + unit) \<times> db" where
  "customer_reset s = confirm_reset shop_lib ''salt'' shopper_ctx customer_link ''newsecret'' s"

lemma link_parses: "reset_parse (ev_lib (kl_env shop_lib)) customer_link (c_clock shopper_ctx) = Some (3, 1, 1800)"
  by (simp add: shop_lib_def sample_env_def customer_link_def reset_parse_def reset_mint_def Let_def split_minted [simplified] sample_lib_def shopper_ctx_def
      unix_def reset_ttl_def)

lemma link_verifies: "reset_verify (ev_lib (kl_env shop_lib)) customer_label customer_link None"
  by (simp add: shop_lib_def sample_env_def customer_link_def reset_verify_minted Let_def)

lemma customer_reset_eval:
  assumes "get_customer_row 1 3 s = Some r" and "cu_password_hash r = None"
  shows "customer_reset s = (Inr (), upd_sessions 1 (\<lambda>q. cs_customer q = 3) (ended shopper_ctx)
    (upd_customer 1 3 (\<lambda>r. r\<lparr>cu_password_hash := Some (hash_password sample_argon ''salt'' ''newsecret''), cu_updated_at := 10\<rparr>) s))"
proof -
  have c: "tenant_of shopper_ctx = 1" "c_tenant shopper_ctx = Some 1" "c_now shopper_ctx = 10" by (simp_all add: shopper_ctx_def tenant_of_def)
  have a: "ev_argon (kl_env shop_lib) = sample_argon" by (simp add: shop_lib_def sample_env_def)
  have "cu_id r = 3" using assms(1) by (auto simp: get_customer_row_def dest: row_get_Some)
  then have "confirm_reset_tx shop_lib shopper_ctx customer_link 3 h s = Inr ((), upd_sessions 1 (\<lambda>q. cs_customer q = 3) (ended shopper_ctx)
    (upd_customer 1 3 (\<lambda>r. r\<lparr>cu_password_hash := Some h, cu_updated_at := 10\<rparr>) s))" for h
    using assms link_verifies c
    by (simp add: confirm_reset_tx_def bindT_def mapErrT_def lock_customer_def oneT_def set_customer_password_def revoke_customer_sessions_def writeT_def)
  then show ?thesis
    unfolding customer_reset_def confirm_reset_def link_parses by (simp add: c a in_tenant_tx_def run_tx_def)
qed

lemma joined_row: "\<exists>r. get_customer_row 1 3 joined_db = Some r \<and> cu_password_hash r = None"
  by (simp add: get_customer_row_def row_get_def joined_db_def)

theorem customer_reset_once_witness: "case customer_reset joined_db of (res, s') \<Rightarrow> \<not> isl res \<and>
    map cs_revoked_at (sessions s') = [Some 10]"
proof -
  obtain x s' where r: "customer_reset joined_db = (Inr x, s')" using joined_row customer_reset_eval by blast
  have inj: "inj (tl_mac (ev_lib (kl_env shop_lib)))" by (simp add: shop_lib_def sample_env_def sample_mac)
  from customer_reset_once [OF r [unfolded customer_reset_def] inj] obtain i e where
    "reset_parse (ev_lib (kl_env shop_lib)) customer_link (c_clock shopper_ctx) = Some (i, tenant_of shopper_ctx, e)"
    "sessions s' = map (\<lambda>q. if cs_tenant q = tenant_of shopper_ctx \<and> cs_customer q = i then ended shopper_ctx q else q) (sessions joined_db)"
    by blast
  then show ?thesis using link_parses unfolding r by (simp add: hashes joined_db_def ended_def shopper_ctx_def)
qed

section \<open>Two gaps\<close>

text \<open>
  BR-093 says presenting an already-rotated token revokes the session. A session remembers only the last token it was rotated
  away from: the one before that is refused, and the session stays live.\<close>

lemma older_token_unnoticed:
  "case again ''two'' ''rt_one'' joined_db of (_, s1) \<Rightarrow> case again ''three'' ''rt_two'' s1 of (_, s2) \<Rightarrow>
   case again ''four'' ''rt_one'' s2 of (res, s3) \<Rightarrow> res = Inl failed_sign_in \<and> s3 = s2 \<and> \<not> isl (fst (again ''five'' ''rt_three'' s3))"
  by code_simp

text \<open>
  BR-097 says a purge erases a customer's data and frees the address. Nothing of resets, sign-in or the profile looks at
  \<open>purged_at\<close>: a link sent to a customer who had no password still verifies after the purge and gives the erased account a
  password, and an access token from before it writes a name and a phone back.\<close>

lemma purge_undone:
  "case in_tenant_tx shopper_ctx (purge sample_docs shopper_ctx 3) joined_db of (r1, s1) \<Rightarrow>
   case customer_reset s1 of (r2, s2) \<Rightarrow>
   case update_me shopper_ctx 3 (Some ''Ani'') True (Some ''0812'') s2 of (r3, s3) \<Rightarrow> \<not> isl r1 \<and> \<not> isl r2 \<and> \<not> isl r3 \<and>
     map (\<lambda>u. (cu_name u, cu_phone u, cu_password_hash u = None, cu_purged_at u)) (customers s3) = [(''Ani'', Some ''0812'', False, Some 10)]"
proof -
  have c: "tenant_of shopper_ctx = 1" "c_tenant shopper_ctx = Some 1" "c_now shopper_ctx = 10" by (simp_all add: shopper_ctx_def tenant_of_def)
  obtain ani where ani: "get_customer_row 1 3 joined_db = Some ani" "customers joined_db = [ani]" "cu_tenant ani = 1" "cu_id ani = 3"
    "cu_purged_at ani = None"
    by (simp add: get_customer_row_def row_get_def joined_db_def)
  have "purge_fits sample_docs shopper_ctx 3 ani joined_db"
    using ani by (simp add: purge_fits_def) (simp add: joined_db_def staff_db_def empty_db_def)
  then obtain ids s1 where s1: "purge sample_docs shopper_ctx 3 joined_db = Inr (ids, s1)" "customers s1 = [anonymous sample_docs shopper_ctx ani]"
    using ani c by (auto simp: purge_Inr purged_def row_upd_def)
  let ?p = "anonymous sample_docs shopper_ctx ani"
  have p: "cu_password_hash ?p = None" "cu_tenant ?p = 1" "cu_id ?p = 3" "cu_purged_at ?p = Some 10"
    using ani c by (simp_all add: anonymous_def)
  then have row: "get_customer_row 1 3 s1 = Some ?p"
    using s1 by (simp add: get_customer_row_def row_get_def)
  note reset = customer_reset_eval [OF row p(1)]
  have trimmed: "trim_space ''Ani'' = ''Ani''" by code_simp
  show ?thesis
    using s1 p by (simp add: in_tenant_tx_def run_tx_def c reset update_me_def trimmed mapErrT_def update_customer_profile_def bindT_def oneT_def
        get_customer_row_def row_get_def upd_customer_def row_upd_def thenT_def writeT_def retT_def profiled_def)
qed

end
