(* ===== verification/BlogQueries.thy ===== *)
theory BlogQueries
  imports ProductLists MediaOps AuthQueries Purge Runes
begin

text \<open>
  The statements of the blog (internal/db/sqlcgen/blog.sql.go) with the constraints of migration 000028, in the tenant
  of the transaction. The storefront reads posts through the view \<open>storefront_blog_posts\<close> only: published, not archived,
  and not dated later than the transaction's \<open>now()\<close> (BR-131).\<close>

section \<open>Categories\<close>

definition own_bcats :: "ctx \<Rightarrow> db \<Rightarrow> blog_category list" where
  "own_bcats c s = rows_of bc_tenant (tenant_of c) (blog_categories s)"

definition get_bcat_row :: "uuid \<Rightarrow> uuid \<Rightarrow> db \<Rightarrow> blog_category option" where
  "get_bcat_row t i s = row_get bc_tenant bc_id t i (blog_categories s)"

definition get_blog_category :: "ctx \<Rightarrow> uuid \<Rightarrow> blog_category stmt" where
  "get_blog_category c i = oneT (get_bcat_row (tenant_of c) i)"

definition bcat_slug_free :: "blog_category \<Rightarrow> db \<Rightarrow> bool" where
  "bcat_slug_free r s \<longleftrightarrow> list_all (\<lambda>q. bc_tenant q = bc_tenant r \<and> bc_slug q = bc_slug r \<longrightarrow> bc_id q = bc_id r) (blog_categories s)"

definition create_blog_category :: "pg_text \<Rightarrow> ctx \<Rightarrow> uuid \<Rightarrow> string \<Rightarrow> string option \<Rightarrow> int \<Rightarrow> blog_category stmt" where
  "create_blog_category pg c i name slug pos =
    (let r = \<lparr>bc_id = i, bc_tenant = tenant_of c, bc_name = name, bc_slug = or_else slug (slugify pg name), bc_position = pos,
       bc_archived_at = None, bc_created_at = c_now c, bc_updated_at = c_now c\<rparr> in
     thenT (guardT (\<lambda>s. i \<notin> bc_id ` set (blog_categories s)) (unique_violation ''blog_categories_pkey''))
     (thenT (guardT (bcat_slug_free r) (unique_violation ''blog_categories_tenant_id_slug_key''))
     (thenT (writeT (\<lambda>s. s\<lparr>blog_categories := blog_categories s @ [r]\<rparr>)) (retT r))))"

definition upd_bcat :: "uuid \<Rightarrow> uuid \<Rightarrow> (blog_category \<Rightarrow> blog_category) \<Rightarrow> db \<Rightarrow> db" where
  "upd_bcat t i f s = s\<lparr>blog_categories := row_upd bc_tenant bc_id t i f (blog_categories s)\<rparr>"

record bcat_params =
  ub_name :: string
  ub_slug :: "string option"
  ub_rename :: bool
  ub_position :: int

definition changed_bcat :: "pg_text \<Rightarrow> ctx \<Rightarrow> bcat_params \<Rightarrow> blog_category \<Rightarrow> blog_category" where
  "changed_bcat pg c p r = r\<lparr>bc_name := ub_name p,
     bc_slug := (case ub_slug p of Some x \<Rightarrow> x | None \<Rightarrow> if ub_rename p then slugify pg (ub_name p) else bc_slug r),
     bc_position := ub_position p, bc_updated_at := c_now c\<rparr>"

definition update_blog_category :: "pg_text \<Rightarrow> ctx \<Rightarrow> uuid \<Rightarrow> bcat_params \<Rightarrow> blog_category stmt" where
  "update_blog_category pg c i p =
    bindT (oneT (get_bcat_row (tenant_of c) i)) (\<lambda>r.
    thenT (guardT (bcat_slug_free (changed_bcat pg c p r)) (unique_violation ''blog_categories_tenant_id_slug_key''))
    (thenT (writeT (upd_bcat (tenant_of c) i (changed_bcat pg c p))) (retT (changed_bcat pg c p r))))"

definition archived_bcat :: "ctx \<Rightarrow> blog_category \<Rightarrow> blog_category" where
  "archived_bcat c r = r\<lparr>bc_archived_at := Some (or_else (bc_archived_at r) (c_now c)), bc_updated_at := c_now c\<rparr>"

definition archive_blog_category :: "ctx \<Rightarrow> uuid \<Rightarrow> blog_category stmt" where
  "archive_blog_category c i =
    bindT (oneT (get_bcat_row (tenant_of c) i)) (\<lambda>r.
    thenT (writeT (upd_bcat (tenant_of c) i (archived_bcat c))) (retT (archived_bcat c r)))"

definition bcat_order :: "pg_text \<Rightarrow> blog_category \<Rightarrow> int \<times> string \<times> uuid" where
  "bcat_order pg r = (bc_position r, pt_key pg (bc_name r), bc_id r)"

definition list_blog_categories :: "pg_text \<Rightarrow> ctx \<Rightarrow> bool \<Rightarrow> blog_category list stmt" where
  "list_blog_categories pg c archived = readT (\<lambda>s. sort_key (bcat_order pg) (filter (\<lambda>r. (bc_archived_at r \<noteq> None) = archived) (own_bcats c s)))"

section \<open>Posts\<close>

definition own_bposts :: "ctx \<Rightarrow> db \<Rightarrow> blog_post list" where
  "own_bposts c s = rows_of bp_tenant (tenant_of c) (blog_posts s)"

definition get_bpost_row :: "uuid \<Rightarrow> uuid \<Rightarrow> db \<Rightarrow> blog_post option" where
  "get_bpost_row t i s = row_get bp_tenant bp_id t i (blog_posts s)"

definition get_blog_post :: "ctx \<Rightarrow> uuid \<Rightarrow> blog_post stmt" where
  "get_blog_post c i = oneT (get_bpost_row (tenant_of c) i)"

definition upd_bpost :: "uuid \<Rightarrow> uuid \<Rightarrow> (blog_post \<Rightarrow> blog_post) \<Rightarrow> db \<Rightarrow> db" where
  "upd_bpost t i f s = s\<lparr>blog_posts := row_upd bp_tenant bp_id t i f (blog_posts s)\<rparr>"

record post_params =
  bw_id :: uuid
  bw_category :: "uuid option"
  bw_author :: "uuid option"
  bw_title :: string
  bw_slug :: string
  bw_excerpt :: "string option"
  bw_body :: string
  bw_cover :: "string option"
  bw_tags :: "string list"
  bw_status :: string
  bw_featured :: bool
  bw_published :: "instant option"

definition S_published :: string where "S_published = ''published''"

definition bpost_slug_free :: "blog_post \<Rightarrow> db \<Rightarrow> bool" where
  "bpost_slug_free r s \<longleftrightarrow> list_all (\<lambda>q. bp_tenant q = bp_tenant r \<and> bp_slug q = bp_slug r \<longrightarrow> bp_id q = bp_id r) (blog_posts s)"

definition featured_free :: "blog_post \<Rightarrow> db \<Rightarrow> bool" where
  "featured_free r s \<longleftrightarrow> bp_featured r \<longrightarrow> list_all (\<lambda>q. bp_tenant q = bp_tenant r \<and> bp_featured q \<longrightarrow> bp_id q = bp_id r) (blog_posts s)"

definition bpost_checks :: "ctx \<Rightarrow> blog_post \<Rightarrow> unit stmt" where
  "bpost_checks c r =
    thenT (guardT (\<lambda>_. bp_status r = S_draft \<or> bp_published_at r \<noteq> None) (check_violation ''blog_posts_check''))
    (thenT (guardT (\<lambda>_. bp_status r \<in> {S_draft, S_published}) (check_violation ''blog_posts_status_check''))
    (thenT (guardT (bpost_slug_free r) (unique_violation ''blog_posts_tenant_id_slug_key''))
    (thenT (guardT (featured_free r) (unique_violation ''blog_posts_one_featured''))
    (thenT (guardT (\<lambda>s. case bp_category r of None \<Rightarrow> True | Some k \<Rightarrow> get_bcat_row (tenant_of c) k s \<noteq> None) (fk_violation ''blog_posts_same_tenant_as_category''))
     (guardT (\<lambda>s. case bp_author r of None \<Rightarrow> True | Some u \<Rightarrow> get_user_row (tenant_of c) u s \<noteq> None) (fk_violation ''blog_posts_same_tenant_as_author''))))))"

definition new_bpost :: "ctx \<Rightarrow> post_params \<Rightarrow> blog_post" where
  "new_bpost c p = \<lparr>bp_id = bw_id p, bp_tenant = tenant_of c, bp_category = bw_category p, bp_author = bw_author p, bp_title = bw_title p,
     bp_slug = bw_slug p, bp_excerpt = bw_excerpt p, bp_body = bw_body p, bp_cover_key = None, bp_tags = bw_tags p, bp_status = bw_status p,
     bp_featured = bw_featured p, bp_published_at = bw_published p, bp_archived_at = None, bp_created_at = c_now c, bp_updated_at = c_now c\<rparr>"

definition create_blog_post :: "ctx \<Rightarrow> post_params \<Rightarrow> blog_post stmt" where
  "create_blog_post c p =
    (let r = new_bpost c p in
     thenT (guardT (\<lambda>s. bp_id r \<notin> bp_id ` set (blog_posts s)) (unique_violation ''blog_posts_pkey''))
     (thenT (bpost_checks c r)
     (thenT (writeT (\<lambda>s. s\<lparr>blog_posts := blog_posts s @ [r]\<rparr>)) (retT r))))"

definition edited_bpost :: "ctx \<Rightarrow> post_params \<Rightarrow> blog_post \<Rightarrow> blog_post" where
  "edited_bpost c p r = r\<lparr>bp_category := bw_category p, bp_author := bw_author p, bp_title := bw_title p, bp_slug := bw_slug p,
     bp_excerpt := bw_excerpt p, bp_body := bw_body p, bp_cover_key := bw_cover p, bp_tags := bw_tags p, bp_status := bw_status p,
     bp_featured := bw_featured p, bp_published_at := bw_published p, bp_updated_at := c_now c\<rparr>"

definition update_blog_post :: "ctx \<Rightarrow> post_params \<Rightarrow> blog_post stmt" where
  "update_blog_post c p =
    bindT (oneT (get_bpost_row (tenant_of c) (bw_id p))) (\<lambda>r.
    thenT (bpost_checks c (edited_bpost c p r))
    (thenT (writeT (upd_bpost (tenant_of c) (bw_id p) (edited_bpost c p))) (retT (edited_bpost c p r))))"

definition archived_bpost :: "ctx \<Rightarrow> blog_post \<Rightarrow> blog_post" where
  "archived_bpost c r = r\<lparr>bp_archived_at := Some (or_else (bp_archived_at r) (c_now c)), bp_featured := False, bp_updated_at := c_now c\<rparr>"

definition archive_blog_post :: "ctx \<Rightarrow> uuid \<Rightarrow> blog_post stmt" where
  "archive_blog_post c i =
    bindT (oneT (get_bpost_row (tenant_of c) i)) (\<lambda>r.
    thenT (writeT (upd_bpost (tenant_of c) i (archived_bpost c))) (retT (archived_bpost c r)))"

definition unfeatured :: "ctx \<Rightarrow> blog_post \<Rightarrow> blog_post" where
  "unfeatured c r = r\<lparr>bp_featured := False, bp_updated_at := c_now c\<rparr>"

definition clear_blog_featured :: "ctx \<Rightarrow> uuid \<Rightarrow> unit stmt" where
  "clear_blog_featured c i = writeT (\<lambda>s. s\<lparr>blog_posts := row_map bp_tenant (\<lambda>r. bp_featured r \<and> bp_id r \<noteq> i) (tenant_of c) (unfeatured c) (blog_posts s)\<rparr>)"

definition blog_post_ref_names :: "ctx \<Rightarrow> uuid \<Rightarrow> (string option \<times> string option) stmt" where
  "blog_post_ref_names c i = oneT (\<lambda>s. case get_bpost_row (tenant_of c) i s of None \<Rightarrow> None
     | Some r \<Rightarrow> Some (case bp_category r of None \<Rightarrow> None | Some k \<Rightarrow> map_option bc_name (get_bcat_row (tenant_of c) k s),
         case bp_author r of None \<Rightarrow> None | Some u \<Rightarrow> map_option us_name (get_user_row (tenant_of c) u s)))"

record post_list_params =
  lp_archived :: bool
  lp_q :: "string option"
  lp_status :: "string option"
  lp_category :: "uuid option"
  lp_after :: "(instant \<times> uuid) option"
  lp_limit :: int

definition post_listed :: "pg_text \<Rightarrow> post_list_params \<Rightarrow> blog_post \<Rightarrow> bool" where
  "post_listed pg p r \<longleftrightarrow> (bp_archived_at r \<noteq> None) = lp_archived p \<and>
     (case lp_q p of None \<Rightarrow> True | Some q \<Rightarrow> pt_ilike pg (bp_title r) (''%'' @ q @ ''%'')) \<and>
     (case lp_status p of None \<Rightarrow> True | Some st \<Rightarrow> bp_status r = st) \<and>
     (case lp_category p of None \<Rightarrow> True | Some k \<Rightarrow> bp_category r = Some k)"

definition created_key :: "blog_post \<Rightarrow> instant \<times> uuid" where
  "created_key r = (bp_created_at r, bp_id r)"

definition list_blog_posts :: "pg_text \<Rightarrow> ctx \<Rightarrow> post_list_params \<Rightarrow> blog_post list stmt" where
  "list_blog_posts pg c p = readT (\<lambda>s. take (nat (lp_limit p)) (in_order True created_key
     (filter (\<lambda>r. post_listed pg p r \<and> past True created_key (lp_after p) r) (own_bposts c s))))"

section \<open>Linked products\<close>

definition delete_blog_post_products :: "ctx \<Rightarrow> uuid \<Rightarrow> unit stmt" where
  "delete_blog_post_products c pid = writeT (\<lambda>s. s\<lparr>blog_post_products := row_del bq_tenant (\<lambda>l. bq_post l = pid) (tenant_of c) (blog_post_products s)\<rparr>)"

definition add_blog_post_product :: "ctx \<Rightarrow> uuid \<Rightarrow> uuid \<Rightarrow> int \<Rightarrow> unit stmt" where
  "add_blog_post_product c pid i n =
    thenT (guardT (\<lambda>s. (pid, i) \<notin> (\<lambda>l. (bq_post l, bq_product l)) ` set (blog_post_products s)) (unique_violation ''blog_post_products_pkey''))
    (thenT (guardT (\<lambda>s. get_bpost_row (tenant_of c) pid s \<noteq> None) (fk_violation ''blog_post_products_same_tenant_as_post''))
    (thenT (guardT (\<lambda>s. get_product_row (tenant_of c) i s \<noteq> None) (fk_violation ''blog_post_products_same_tenant_as_product''))
     (writeT (\<lambda>s. s\<lparr>blog_post_products := blog_post_products s @ [\<lparr>bq_tenant = tenant_of c, bq_post = pid, bq_product = i, bq_position = n\<rparr>]\<rparr>))))"

definition count_products :: "ctx \<Rightarrow> uuid list \<Rightarrow> int stmt" where
  "count_products c ids = readT (\<lambda>s. int (length (filter (\<lambda>p. pr_id p \<in> set ids) (own_products c s))))"

definition post_links :: "ctx \<Rightarrow> uuid \<Rightarrow> db \<Rightarrow> blog_post_product list" where
  "post_links c pid s = sort_key (\<lambda>l. (bq_position l, bq_product l)) (filter (\<lambda>l. bq_post l = pid) (rows_of bq_tenant (tenant_of c) (blog_post_products s)))"

definition blog_post_product_ids :: "ctx \<Rightarrow> uuid \<Rightarrow> uuid list stmt" where
  "blog_post_product_ids c pid = readT (\<lambda>s. map bq_product (post_links c pid s))"

text \<open>A linked product with the key of its first image's small size, empty while there is none.\<close>

definition list_blog_post_products :: "files \<Rightarrow> ctx \<Rightarrow> uuid \<Rightarrow> (uuid \<times> string \<times> string) list stmt" where
  "list_blog_post_products fl c pid = readT (\<lambda>s. List.map_filter (\<lambda>l. map_option (\<lambda>p. (pr_id p, pr_title p, deref (cover_key fl c s (pr_id p))))
     (get_product_row (tenant_of c) (bq_product l) s)) (post_links c pid s))"

section \<open>What the storefront reads\<close>

definition live_post :: "ctx \<Rightarrow> blog_post \<Rightarrow> bool" where
  "live_post c r \<longleftrightarrow> bp_status r = S_published \<and> bp_archived_at r = None \<and> (case bp_published_at r of None \<Rightarrow> False | Some t \<Rightarrow> t \<le> c_now c)"

definition live_bcat :: "ctx \<Rightarrow> db \<Rightarrow> blog_post \<Rightarrow> blog_category option" where
  "live_bcat c s r = (case bp_category r of None \<Rightarrow> None | Some k \<Rightarrow>
     (case get_bcat_row (tenant_of c) k s of None \<Rightarrow> None | Some b \<Rightarrow> if bc_archived_at b = None then Some b else None))"

record shop_post_params =
  sq_slug :: "string option"
  sq_category :: "string option"
  sq_category_id :: "uuid option"
  sq_not_id :: "uuid option"
  sq_tag :: "string option"
  sq_featured :: "bool option"
  sq_after :: "(instant \<times> uuid) option"
  sq_off :: int
  sq_lim :: int

definition shop_post_match :: "ctx \<Rightarrow> shop_post_params \<Rightarrow> db \<Rightarrow> blog_post \<Rightarrow> bool" where
  "shop_post_match c p s r \<longleftrightarrow> live_post c r \<and>
     (case sq_slug p of None \<Rightarrow> True | Some x \<Rightarrow> bp_slug r = x) \<and>
     (case sq_category p of None \<Rightarrow> True | Some x \<Rightarrow> map_option bc_slug (live_bcat c s r) = Some x) \<and>
     (case sq_category_id p of None \<Rightarrow> True | Some k \<Rightarrow> bp_category r = Some k) \<and>
     (case sq_not_id p of None \<Rightarrow> True | Some i \<Rightarrow> bp_id r \<noteq> i) \<and>
     (case sq_tag p of None \<Rightarrow> True | Some x \<Rightarrow> x \<in> set (bp_tags r)) \<and>
     (case sq_featured p of None \<Rightarrow> True | Some b \<Rightarrow> bp_featured r = b)"

record shop_post_row =
  sr_post :: blog_post
  sr_author :: "(string \<times> string option) option"
  sr_category :: "(string \<times> string) option"

definition shop_post_row_of :: "ctx \<Rightarrow> db \<Rightarrow> blog_post \<Rightarrow> shop_post_row" where
  "shop_post_row_of c s r = \<lparr>sr_post = r,
     sr_author = (case bp_author r of None \<Rightarrow> None | Some u \<Rightarrow> map_option (\<lambda>x. (us_name x, us_bio x)) (get_user_row (tenant_of c) u s)),
     sr_category = map_option (\<lambda>b. (bc_slug b, bc_name b)) (live_bcat c s r)\<rparr>"

definition published_key :: "blog_post \<Rightarrow> instant \<times> uuid" where
  "published_key r = (or_else (bp_published_at r) 0, bp_id r)"

definition storefront_blog_posts :: "ctx \<Rightarrow> shop_post_params \<Rightarrow> shop_post_row list stmt" where
  "storefront_blog_posts c p =
    thenT (guardT (\<lambda>_. 0 \<le> sq_lim p) (PgError ''2201W'' [] ''LIMIT must not be negative''))
    (thenT (guardT (\<lambda>_. 0 \<le> sq_off p) offset_error)
     (readT (\<lambda>s. map (shop_post_row_of c s) (take (nat (sq_lim p)) (drop (nat (sq_off p)) (in_order True published_key
       (filter (\<lambda>r. shop_post_match c p s r \<and> past True published_key (sq_after p) r) (own_bposts c s))))))))"

definition count_storefront_blog_posts :: "ctx \<Rightarrow> shop_post_params \<Rightarrow> int stmt" where
  "count_storefront_blog_posts c p = readT (\<lambda>s. int (length (filter (shop_post_match c p s) (own_bposts c s))))"

definition storefront_blog_categories :: "pg_text \<Rightarrow> ctx \<Rightarrow> (string \<times> string) list stmt" where
  "storefront_blog_categories pg c = readT (\<lambda>s. map (\<lambda>b. (bc_slug b, bc_name b)) (sort_key (bcat_order pg) (filter (\<lambda>r. bc_archived_at r = None) (own_bcats c s))))"

end
