(* ===== verification/Regexps.thy ===== *)
theory Regexps
  imports Runes
begin

text \<open>
  The part of Go's \<open>regexp\<close> and \<open>strings\<close> packages the excerpts of the blog use. An expression matches runes; \<open>ends\<close>
  lists where a match from a position can end, the preferred one first (leftmost, then greedy), each with the spans of its groups.\<close>

section \<open>Matching\<close>

datatype rx = One "string \<Rightarrow> bool" | Cat rx rx | Or rx rx | Loop rx | Group nat rx | Here "string list \<Rightarrow> nat \<Rightarrow> bool"

text \<open>\<open>Loop r\<close> is \<open>r*\<close>; what does not move on ends the loop.\<close>

type_synonym spans = "(nat \<times> nat \<times> nat) list"

function ends :: "rx \<Rightarrow> string list \<Rightarrow> nat \<Rightarrow> (nat \<times> spans) list" where
  "ends (One p) xs i = (if i < length xs \<and> p (xs ! i) then [(Suc i, [])] else [])"
| "ends (Cat r q) xs i = concat (map (\<lambda>(j, g). map (\<lambda>(k, h). (k, g @ h)) (ends q xs j)) (ends r xs i))"
| "ends (Or r q) xs i = ends r xs i @ ends q xs i"
| "ends (Loop r) xs i = concat (map (\<lambda>(j, g). if i < j \<and> j \<le> length xs then map (\<lambda>(k, h). (k, g @ h)) (ends (Loop r) xs j) else [])
     (ends r xs i)) @ [(i, [])]"
| "ends (Group n r) xs i = map (\<lambda>(j, g). (j, g @ [(n, i, j)])) (ends r xs i)"
| "ends (Here p) xs i = (if p xs i then [(i, [])] else [])"
  by pat_completeness auto
termination
  by (relation "measures [\<lambda>(r, xs, i). size r, \<lambda>(r, xs, i). length xs - i]") auto

declare ends.simps(4) [simp del]

definition Plus :: "rx \<Rightarrow> rx" where
  "Plus r = Cat r (Loop r)"

definition Maybe :: "rx \<Rightarrow> rx" where
  "Maybe r = Or r (Here (\<lambda>_ _. True))"

text \<open>A match ends after at least so many runes.\<close>

primrec shortest :: "rx \<Rightarrow> nat" where
  "shortest (One p) = 1"
| "shortest (Cat r q) = shortest r + shortest q"
| "shortest (Or r q) = min (shortest r) (shortest q)"
| "shortest (Loop r) = 0"
| "shortest (Group n r) = shortest r"
| "shortest (Here p) = 0"

lemma ends_span: "(j, g) \<in> set (ends r xs i) \<Longrightarrow> i + shortest r \<le> j \<and> (i \<le> length xs \<longrightarrow> j \<le> length xs)"
proof (induction r xs i arbitrary: j g rule: ends.induct)
  case (1 p xs i)
  then show ?case by (simp split: if_splits)
next
  case (2 r q xs i)
  from 2(3) obtain k h l where k: "(k, h) \<in> set (ends r xs i)" and l: "(j, l) \<in> set (ends q xs k)" by auto
  have "i + shortest r \<le> k \<and> (i \<le> length xs \<longrightarrow> k \<le> length xs)" by (rule 2(1) [OF k])
  moreover have "k + shortest q \<le> j \<and> (k \<le> length xs \<longrightarrow> j \<le> length xs)" by (rule 2(2) [OF k refl l])
  ultimately show ?case by simp
next
  case (3 r q xs i)
  from 3(3) consider "(j, g) \<in> set (ends r xs i)" | "(j, g) \<in> set (ends q xs i)" by auto
  then show ?case
  proof cases
    case 1
    from 3(1) [OF 1] show ?thesis by (auto simp: min_def)
  next
    case 2
    from 3(2) [OF 2] show ?thesis by (auto simp: min_def)
  qed
next
  case (4 r xs i)
  show ?case
  proof (cases "(j, g) = (i, [])")
    case True
    then show ?thesis by simp
  next
    case False
    then obtain k h l where k: "(k, h) \<in> set (ends r xs i)" "i < k \<and> k \<le> length xs" and l: "(j, l) \<in> set (ends (Loop r) xs k)"
      using 4(3) by (auto simp: ends.simps(4) [of r xs i] split: if_splits)
    have "k + shortest (Loop r) \<le> j \<and> (k \<le> length xs \<longrightarrow> j \<le> length xs)" by (rule 4(2) [OF k(1) refl k(2) l])
    then show ?thesis using k(2) by simp
  qed
next
  case (5 n r xs i)
  from 5(2) obtain h where h: "(j, h) \<in> set (ends r xs i)" by auto
  from 5(1) [OF h] show ?case by simp
next
  case (6 p xs i)
  then show ?case by (simp split: if_splits)
qed

section \<open>Replacing\<close>

text \<open>\<open>ReplaceAllString\<close> with a template of texts and groups: the matches from left to right, none overlapping the
  one before. The expressions of the blog match no empty text.\<close>

datatype part = Txt string | Grp nat

fun part_text :: "string list \<Rightarrow> spans \<Rightarrow> part \<Rightarrow> string list" where
  "part_text xs g (Txt t) = [t]"
| "part_text xs g (Grp n) = (case map_of g n of None \<Rightarrow> [] | Some (a, b) \<Rightarrow> take (b - a) (drop a xs))"

function replace_from :: "rx \<Rightarrow> part list \<Rightarrow> string list \<Rightarrow> nat \<Rightarrow> string list" where
  "replace_from r tpl xs i =
    (if i < length xs then
       (case ends r xs i of
          [] \<Rightarrow> xs ! i # replace_from r tpl xs (Suc i)
        | (j, g) # _ \<Rightarrow> if i < j then concat (map (part_text xs g) tpl) @ replace_from r tpl xs j
                       else xs ! i # replace_from r tpl xs (Suc i))
     else [])"
  by pat_completeness auto
termination
  by (relation "measure (\<lambda>(r, tpl, xs, i). length xs - i)") auto

declare replace_from.simps [simp del]

definition replace_all :: "rx \<Rightarrow> part list \<Rightarrow> string \<Rightarrow> string" where
  "replace_all r tpl s = concat (replace_from r tpl (runes s) 0)"

lemma replace_from_unmatched: "(\<And>k. i \<le> k \<Longrightarrow> ends r xs k = []) \<Longrightarrow> replace_from r tpl xs i = drop i xs"
proof (induction r tpl xs i rule: replace_from.induct)
  case (1 r tpl xs i)
  show ?case
    using 1 by (subst replace_from.simps) (auto simp: Cons_nth_drop_Suc)
qed

text \<open>Nothing matches: nothing changes.\<close>

lemma replace_all_unmatched: "(\<And>k. ends r (runes s) k = []) \<Longrightarrow> replace_all r tpl s = s"
  by (simp add: replace_all_def replace_from_unmatched concat_runes)

section \<open>Replacer, ReplaceAll, Split, Trim\<close>

text \<open>\<open>strings.NewReplacer\<close>: at every byte the first pair that starts there, in the order of the arguments.\<close>

fun old_here :: "(string \<times> string) list \<Rightarrow> string \<Rightarrow> (string \<times> string) option" where
  "old_here [] s = None"
| "old_here ((old, new) # ps) s = (if old \<noteq> [] \<and> prefix old s then Some (old, new) else old_here ps s)"

lemma old_here_pos: "old_here ps s = Some (old, new) \<Longrightarrow> 0 < length old"
  by (induction ps s rule: old_here.induct) (auto split: if_splits)

function replacer :: "(string \<times> string) list \<Rightarrow> string \<Rightarrow> string" where
  "replacer ps s = (case s of [] \<Rightarrow> [] | ch # t \<Rightarrow>
     (case old_here ps s of None \<Rightarrow> ch # replacer ps t | Some (old, new) \<Rightarrow> new @ replacer ps (drop (length old) s)))"
  by pat_completeness auto
termination
  by (relation "measure (\<lambda>(ps, s). length s)") (auto dest: old_here_pos)

declare replacer.simps [simp del]

text \<open>\<open>strings.Split\<close> with a separator that is not empty.\<close>

function split_on :: "string \<Rightarrow> string \<Rightarrow> string \<Rightarrow> string list" where
  "split_on sep acc s = (case s of [] \<Rightarrow> [rev acc] | ch # t \<Rightarrow>
     if sep \<noteq> [] \<and> prefix sep s then rev acc # split_on sep [] (drop (length sep) s) else split_on sep (ch # acc) t)"
  by pat_completeness auto
termination
  by (relation "measure (\<lambda>(sep, acc, s). length s)") auto

declare split_on.simps [simp del]

definition split_text :: "string \<Rightarrow> string \<Rightarrow> string list" where
  "split_text sep s = split_on sep [] s"

definition trim_right_of :: "char set \<Rightarrow> string \<Rightarrow> string" where
  "trim_right_of cs s = rev (dropWhile (\<lambda>ch. ch \<in> cs) (rev s))"

definition trim_of :: "char set \<Rightarrow> string \<Rightarrow> string" where
  "trim_of cs s = dropWhile (\<lambda>ch. ch \<in> cs) (trim_right_of cs s)"

lemma trim_right_prefix: "prefix (trim_right_of cs s) s"
proof -
  have "suffix (dropWhile (\<lambda>ch. ch \<in> cs) (rev s)) (rev s)" by (rule suffix_dropWhile)
  then show ?thesis by (simp add: trim_right_of_def suffix_to_prefix)
qed

text \<open>\<open>strings.LastIndexByte\<close>.\<close>

definition last_index :: "char \<Rightarrow> string \<Rightarrow> nat option" where
  "last_index ch s = (if ch \<in> set s then Some (length s - 1 - length (takeWhile (\<lambda>x. x \<noteq> ch) (rev s))) else None)"

end
