(* ===== verification/Excerpts.thy ===== *)
theory Excerpts
  imports Regexps
begin

text \<open>The excerpt a post shows when it has none of its own (internal/blog/excerpt.go; BR-132).\<close>

definition excerpt_runes :: nat where
  "excerpt_runes = 160"

section \<open>The expressions\<close>

definition rune_is :: "string \<Rightarrow> rx" where
  "rune_is cs = One (\<lambda>r. list_ex (\<lambda>ch. r = [ch]) cs)"

definition rune_not :: "string \<Rightarrow> rx" where
  "rune_not cs = One (\<lambda>r. \<not> list_ex (\<lambda>ch. r = [ch]) cs)"

text \<open>\<open>\s\<close> is \<open>[\t\n\f\r ]\<close>.\<close>

definition white :: string where
  "white = [CHR 0x09, CHR 0x0A, CHR 0x0C, CHR 0x0D, CHR 0x20]"

definition digits :: string where
  "digits = ''0123456789''"

definition line_start :: rx where
  "line_start = Here (\<lambda>xs i. i = 0 \<or> i \<le> length xs \<and> xs ! (i - 1) = [CHR 0x0A])"

definition text_start :: rx where
  "text_start = Here (\<lambda>xs i. i = 0)"

definition text_end :: rx where
  "text_end = Here (\<lambda>xs i. i = length xs)"

definition in_brackets :: "rx \<Rightarrow> rx" where
  "in_brackets r = Cat (rune_is ''['') (Cat r (Cat (rune_is '']'') (Cat (rune_is ''('') (Cat (Loop (rune_not '')'')) (rune_is '')'')))))"

definition md_image :: rx where
  "md_image = Cat (rune_is ''!'') (in_brackets (Loop (rune_not '']'')))"

definition md_link :: rx where
  "md_link = in_brackets (Group 1 (Loop (rune_not '']'')))"

definition html_tag :: rx where
  "html_tag = Cat (rune_is ''<'') (Cat (Plus (rune_not ''>'')) (rune_is ''>''))"

definition line_marker :: rx where
  "line_marker = Cat line_start (Cat (Loop (rune_is white)) (Plus
     (Or (Cat (Plus (rune_is ''>'')) (Maybe (rune_is white)))
     (Or (Cat (rune_is ''-*+'') (Plus (rune_is white)))
         (Cat (Plus (rune_is digits)) (Cat (rune_is ''.)'') (Plus (rune_is white))))))))"

definition emph_open :: rx where
  "emph_open = Cat (Group 1 (Or text_start (rune_is white))) (Cat (Plus (rune_is ''*_'')) (Group 2 (rune_not white)))"

definition emph_close :: rx where
  "emph_close = Cat (Group 1 (rune_not white)) (Cat (Plus (rune_is ''*_'')) (Group 2 (Or (rune_is white) (Or text_end (rune_is ''.,!?;:)'')))))"

definition spaces :: rx where
  "spaces = Plus (rune_is white)"

text \<open>Every one of them matches at least one rune, so a replacement always moves on.\<close>

lemma expressions_match_text: "0 < shortest md_image" "0 < shortest md_link" "0 < shortest html_tag" "0 < shortest line_marker"
  "0 < shortest emph_open" "0 < shortest emph_close" "0 < shortest spaces"
  by (simp_all add: md_image_def md_link_def in_brackets_def html_tag_def line_marker_def emph_open_def emph_close_def spaces_def rune_is_def
      rune_not_def line_start_def text_start_def text_end_def Plus_def Maybe_def)

section \<open>Excerpt\<close>

definition plain :: "string \<Rightarrow> string" where
  "plain md = trim_space (replace_all spaces [Txt '' ''] (replace_all emph_close [Grp 1, Grp 2] (replace_all emph_open [Grp 1, Grp 2]
     (replacer [(''**'', []), (''__'', []), (''~~'', []), ([CHR 0x60], [])]
       (replace_all line_marker [] (replace_all html_tag [] (replace_all md_link [Grp 1] (replace_all md_image [] md))))))))"

definition ellipsis :: string where
  "ellipsis = map char_of [226::nat, 128, 166]"

definition cut_excerpt :: "string \<Rightarrow> string" where
  "cut_excerpt s =
    (if rune_count s \<le> excerpt_runes then s
     else let r = take_runes excerpt_runes s in
       (case last_index (CHR '' '') r of
          Some i \<Rightarrow> if 0 < i then trim_right_of (set '' ,;:'') (take i r) @ ellipsis else r @ ellipsis
        | None \<Rightarrow> r @ ellipsis))"

definition skipped :: "string \<Rightarrow> bool" where
  "skipped para \<longleftrightarrow> para = [] \<or> prefix ''#'' para \<or> prefix (replicate 3 (CHR 0x60)) para \<or> trim_of (set ''-*_ '') para = []"

fun first_paragraph :: "string list \<Rightarrow> string" where
  "first_paragraph [] = []"
| "first_paragraph (p # ps) =
    (let para = trim_space p in
     if skipped para then first_paragraph ps
     else let txt = plain para in if txt \<noteq> [] then cut_excerpt txt else first_paragraph ps)"

definition newline :: string where
  "newline = [CHR 0x0A]"

definition excerpt :: "string \<Rightarrow> string" where
  "excerpt body = first_paragraph (split_text (newline @ newline) (replacer [([CHR 0x0D, CHR 0x0A], newline)] body))"

definition resolve_excerpt :: "string option \<Rightarrow> string \<Rightarrow> string" where
  "resolve_excerpt e body = (case e of None \<Rightarrow> excerpt body | Some x \<Rightarrow> if blank x then excerpt body else x)"

end
