(* ===== verification/Blog.thy ===== *)
theory Blog
  imports BlogQueries Excerpts
begin

text \<open>
  Blog categories and posts (internal/blog; BR-130 to BR-135): the admin's writes, each one transaction with its audit row, its lists,
  and the storefront's reads. The database's text functions, the object store and the files' addresses are parameters as in the
  catalog; the ids drawn for new rows are arguments, and \<open>time.Now()\<close> is the context's clock.\<close>

section \<open>Slugs\<close>

definition derived_slug :: "pg_text \<Rightarrow> string \<Rightarrow> string \<Rightarrow> string option \<Rightarrow> err + string" where
  "derived_slug pg txt field slug =
    (case slug of
      Some x \<Rightarrow> if slug_pattern x then Inr x else Inl (field_error ''slug'' ''slug is lower-case letters and digits joined by single hyphens'')
    | None \<Rightarrow> let d = slugify pg txt in if d = [] then Inl (field_error field (field @ '' needs at least one letter or digit'')) else Inr d)"

definition slug_taken :: "string \<Rightarrow> bool \<Rightarrow> string \<Rightarrow> string \<Rightarrow> err \<Rightarrow> err" where
  "slug_taken con sent field what e =
    (if violation e = Some (''23505'', con)
     then if sent then field_error ''slug'' (''another '' @ what @ '' already uses this slug (deleted ones included)'')
          else field_error field (''another '' @ what @ '' already has this '' @ field @ '', or one that slugifies the same (deleted ones included); set a different slug'')
     else e)"

definition blog_public_url :: "files \<Rightarrow> string option \<Rightarrow> string option" where
  "blog_public_url fl key = (case key of None \<Rightarrow> None | Some k \<Rightarrow> if k = [] then None else Some (fl_url fl k))"

section \<open>Categories\<close>

definition bcat_audit :: "blog_category \<Rightarrow> dyn" where
  "bcat_audit b = DObj [(''name'', DStr (bc_name b)), (''slug'', DStr (bc_slug b)), (''position'', DInt (bc_position b))]"

definition bcat_entry :: "string \<Rightarrow> uuid \<Rightarrow> dyn option \<Rightarrow> dyn option \<Rightarrow> audit_entry" where
  "bcat_entry action i b a = \<lparr>ae_action = action, ae_subject_type = ''blog_category'', ae_subject_id = DId i, ae_before = b, ae_after = a\<rparr>"

definition bcat_slug_error :: "bool \<Rightarrow> err \<Rightarrow> err" where
  "bcat_slug_error sent = slug_taken ''blog_categories_tenant_id_slug_key'' sent ''name'' ''blog category''"

definition create_category_tx :: "pg_text \<Rightarrow> ctx \<Rightarrow> uuid \<Rightarrow> string \<Rightarrow> string option \<Rightarrow> int \<Rightarrow> blog_category stmt" where
  "create_category_tx pg c i name slug pos =
    (let n = trim_space name in
     if n = [] then failT (field_error ''name'' ''name is required'')
     else bindT (liftT (derived_slug pg n ''name'' slug)) (\<lambda>_.
      bindT (mapErrT (bcat_slug_error (slug \<noteq> None)) (create_blog_category pg c i n slug pos)) (\<lambda>b.
      thenT (audit c (bcat_entry ''blog_category.create'' (bc_id b) None (Some (bcat_audit b)))) (retT b))))"

definition create_category_op :: "pg_text \<Rightarrow> ctx \<Rightarrow> uuid \<Rightarrow> string \<Rightarrow> string option \<Rightarrow> int \<Rightarrow> db \<Rightarrow> (err + blog_category) \<times> db" where
  "create_category_op pg c i name slug pos = in_tenant_tx c (create_category_tx pg c i name slug pos)"

record category_patch =
  kp_name :: "string option"
  kp_slug :: "string option"
  kp_position :: "int option"

definition update_category_tx :: "pg_text \<Rightarrow> ctx \<Rightarrow> uuid \<Rightarrow> category_patch \<Rightarrow> blog_category stmt" where
  "update_category_tx pg c i p =
    bindT (mapErrT (no_such ''blog category'') (get_blog_category c i)) (\<lambda>before.
     let n = (case kp_name p of None \<Rightarrow> bc_name before | Some x \<Rightarrow> trim_space x) in
     if kp_name p \<noteq> None \<and> n = [] then failT (field_error ''name'' ''name is required'')
     else bindT (if kp_name p \<noteq> None \<or> kp_slug p \<noteq> None then liftT (derived_slug pg n ''name'' (kp_slug p)) else retT []) (\<lambda>_.
      bindT (mapErrT (bcat_slug_error (kp_slug p \<noteq> None)) (update_blog_category pg c i
        \<lparr>ub_name = n, ub_slug = kp_slug p, ub_rename = (kp_name p \<noteq> None), ub_position = or_else (kp_position p) (bc_position before)\<rparr>)) (\<lambda>b.
      thenT (audit c (bcat_entry ''blog_category.update'' i (Some (bcat_audit before)) (Some (bcat_audit b)))) (retT b))))"

definition update_category_op :: "pg_text \<Rightarrow> ctx \<Rightarrow> uuid \<Rightarrow> category_patch \<Rightarrow> db \<Rightarrow> (err + blog_category) \<times> db" where
  "update_category_op pg c i p = in_tenant_tx c (update_category_tx pg c i p)"

definition archive_category_tx :: "ctx \<Rightarrow> uuid \<Rightarrow> unit stmt" where
  "archive_category_tx c i =
    bindT (mapErrT (no_such ''blog category'') (archive_blog_category c i)) (\<lambda>b.
     audit c (bcat_entry ''blog_category.archive'' i None (Some (DObj [(''archived_at'', opt_time (bc_archived_at b))]))))"

definition archive_category_op :: "ctx \<Rightarrow> uuid \<Rightarrow> db \<Rightarrow> (err + unit) \<times> db" where
  "archive_category_op c i = in_tenant_tx c (archive_category_tx c i)"

definition list_categories_op :: "pg_text \<Rightarrow> ctx \<Rightarrow> bool \<Rightarrow> db \<Rightarrow> (err + blog_category list) \<times> db" where
  "list_categories_op pg c archived = in_tenant_tx c (list_blog_categories pg c archived)"

section \<open>Checks of a post\<close>

definition max_tags :: nat where "max_tags = 10"
definition max_tag_runes :: nat where "max_tag_runes = 40"
definition max_products :: nat where "max_products = 12"

record post_input =
  pi_title :: "string option"
  pi_slug :: "string option"
  pi_body :: "string option"
  pi_excerpt :: "string option"
  pi_clear_excerpt :: bool
  pi_category :: "uuid option"
  pi_clear_category :: bool
  pi_author :: "uuid option"
  pi_clear_author :: bool
  pi_tags :: "string list option"
  pi_status :: "string option"
  pi_published :: "instant option"
  pi_clear_published :: bool
  pi_featured :: "bool option"
  pi_cover :: "string option"
  pi_clear_cover :: bool
  pi_products :: "uuid list option"

definition clean_tags :: "string list \<Rightarrow> err + string list" where
  "clean_tags tags =
    (let ts = map trim_space tags in
     if list_ex (\<lambda>t. t = [] \<or> max_tag_runes < rune_count t) ts then Inl (field_error ''tags'' ''each tag is 1 to 40 characters'')
     else if max_tags < length (once [] ts) then Inl (field_error ''tags'' ''a post has at most 10 tags'')
     else Inr (once [] ts))"

definition check_products :: "ctx \<Rightarrow> uuid list \<Rightarrow> unit stmt" where
  "check_products c ids =
    (if max_products < length ids then failT (field_error ''product_ids'' ''a post links at most 12 products'')
     else if \<not> distinct ids then failT (field_error ''product_ids'' ''a product is listed twice'')
     else bindT (count_products c ids) (\<lambda>n.
       if n \<noteq> int (length ids) then failT (field_error ''product_ids'' ''not every id is a product of this shop'') else retT ()))"

definition keep :: "'a option \<Rightarrow> bool \<Rightarrow> 'a option \<Rightarrow> 'a option" where
  "keep new clear old = (case new of Some x \<Rightarrow> Some x | None \<Rightarrow> if clear then None else old)"

definition category_check :: "ctx \<Rightarrow> post_input \<Rightarrow> unit stmt" where
  "category_check c inp = (case pi_category inp of None \<Rightarrow> retT () | Some k \<Rightarrow>
     bindT (mapErrT (\<lambda>e. if err_is e NoRows then field_error ''category_id'' ''no such live blog category'' else e) (get_blog_category c k)) (\<lambda>b.
     if bc_archived_at b \<noteq> None then failT (field_error ''category_id'' ''no such live blog category'') else retT ()))"

definition author_check :: "ctx \<Rightarrow> post_input \<Rightarrow> unit stmt" where
  "author_check c inp = (case pi_author inp of None \<Rightarrow> retT () | Some u \<Rightarrow>
     bindT (mapErrT (\<lambda>e. if err_is e NoRows then field_error ''author_id'' ''the author is not a user of this shop'' else e) (get_user c u)) (\<lambda>_. retT ()))"

text \<open>The status and the date: a published post has one, set to now when it is published without (BR-131).\<close>

definition publishing :: "ctx \<Rightarrow> post_input \<Rightarrow> string \<Rightarrow> instant option \<Rightarrow> err + string \<times> instant option" where
  "publishing c inp status at =
    (let st = or_else (pi_status inp) status in
     if pi_status inp \<noteq> None \<and> st \<notin> {S_draft, S_published} then Inl (field_error ''status'' ''status is draft or published'')
     else if pi_published inp = None \<and> pi_clear_published inp \<and> st = S_published
     then Inl (field_error ''published_at'' ''a published post has a date; move it back to draft first'')
     else let d = keep (pi_published inp) (pi_clear_published inp) at in
       Inr (st, if st = S_published \<and> d = None then Some (c_clock c) else d))"

definition apply_post :: "ctx \<Rightarrow> post_params \<Rightarrow> post_input \<Rightarrow> post_params stmt" where
  "apply_post c p inp =
    (let title = (case pi_title inp of None \<Rightarrow> bw_title p | Some x \<Rightarrow> trim_space x) in
     if pi_title inp \<noteq> None \<and> title = [] then failT (field_error ''title'' ''title is required'')
     else thenT (category_check c inp) (thenT (author_check c inp)
      (bindT (case pi_tags inp of None \<Rightarrow> retT (bw_tags p) | Some ts \<Rightarrow> liftT (clean_tags ts)) (\<lambda>tags.
       bindT (liftT (publishing c inp (bw_status p) (bw_published p))) (\<lambda>(status, at).
       thenT (case pi_products inp of None \<Rightarrow> retT () | Some ids \<Rightarrow> check_products c ids)
        (retT (p\<lparr>bw_title := title, bw_body := or_else (pi_body inp) (bw_body p),
           bw_excerpt := (case pi_excerpt inp of Some x \<Rightarrow> if blank x then None else Some (trim_space x)
             | None \<Rightarrow> if pi_clear_excerpt inp then None else bw_excerpt p),
           bw_category := keep (pi_category inp) (pi_clear_category inp) (bw_category p),
           bw_author := keep (pi_author inp) (pi_clear_author inp) (bw_author p), bw_tags := tags, bw_status := status, bw_published := at,
           bw_featured := or_else (pi_featured inp) (bw_featured p)\<rparr>)))))))"

section \<open>Writing posts\<close>

definition post_audit :: "blog_post \<Rightarrow> uuid list option \<Rightarrow> dyn" where
  "post_audit b ids = DObj ([(''title'', DStr (bp_title b)), (''slug'', DStr (bp_slug b)), (''status'', DStr (bp_status b)),
     (''published_at'', opt_time (bp_published_at b)), (''is_featured'', DBool (bp_featured b)), (''category_id'', opt_id (bp_category b)),
     (''author_id'', opt_id (bp_author b)), (''cover_r2_key'', opt_str (bp_cover_key b)), (''tags'', DList (map DStr (bp_tags b)))] @
     (case ids of None \<Rightarrow> [] | Some xs \<Rightarrow> [(''product_ids'', DList (map DId xs))]))"

definition post_entry :: "string \<Rightarrow> uuid \<Rightarrow> dyn option \<Rightarrow> dyn option \<Rightarrow> audit_entry" where
  "post_entry action i b a = \<lparr>ae_action = action, ae_subject_type = ''blog_post'', ae_subject_id = DId i, ae_before = b, ae_after = a\<rparr>"

fun add_links :: "ctx \<Rightarrow> uuid \<Rightarrow> int \<Rightarrow> uuid list \<Rightarrow> unit stmt" where
  "add_links c pid n [] = retT ()"
| "add_links c pid n (i # ids) = thenT (add_blog_post_product c pid i (wrap32 n)) (add_links c pid (n + 1) ids)"

definition set_products :: "ctx \<Rightarrow> uuid \<Rightarrow> uuid list option \<Rightarrow> unit stmt" where
  "set_products c pid ids = (case ids of None \<Rightarrow> retT () | Some xs \<Rightarrow> thenT (delete_blog_post_products c pid) (add_links c pid 0 xs))"

definition post_slug_error :: "bool \<Rightarrow> err \<Rightarrow> err" where
  "post_slug_error sent = slug_taken ''blog_posts_tenant_id_slug_key'' sent ''title'' ''blog post''"

definition blank_post :: "ctx \<Rightarrow> uuid \<Rightarrow> post_params" where
  "blank_post c i = \<lparr>bw_id = i, bw_category = None, bw_author = actor_of c, bw_title = [], bw_slug = [], bw_excerpt = None, bw_body = [],
     bw_cover = None, bw_tags = [], bw_status = S_draft, bw_featured = False, bw_published = None\<rparr>"

definition create_post_tx :: "pg_text \<Rightarrow> ctx \<Rightarrow> uuid \<Rightarrow> post_input \<Rightarrow> unit stmt" where
  "create_post_tx pg c i inp =
    bindT (apply_post c (blank_post c i) inp) (\<lambda>p.
    bindT (liftT (derived_slug pg (bw_title p) ''title'' (pi_slug inp))) (\<lambda>slug.
    thenT (whenT (bw_featured p) (clear_blog_featured c i))
    (bindT (mapErrT (post_slug_error (pi_slug inp \<noteq> None)) (create_blog_post c (p\<lparr>bw_slug := slug\<rparr>))) (\<lambda>post.
     thenT (set_products c i (pi_products inp))
      (audit c (post_entry ''blog_post.create'' i None (Some (post_audit post (pi_products inp)))))))))"

definition post_params_of :: "blog_post \<Rightarrow> post_params" where
  "post_params_of b = \<lparr>bw_id = bp_id b, bw_category = bp_category b, bw_author = bp_author b, bw_title = bp_title b, bw_slug = bp_slug b,
     bw_excerpt = bp_excerpt b, bw_body = bp_body b, bw_cover = bp_cover_key b, bw_tags = bp_tags b, bw_status = bp_status b,
     bw_featured = bp_featured b, bw_published = bp_published_at b\<rparr>"

definition post_slug :: "pg_text \<Rightarrow> post_params \<Rightarrow> post_input \<Rightarrow> err + string" where
  "post_slug pg p inp = (case pi_slug inp of None \<Rightarrow> Inr (bw_slug p) | Some x \<Rightarrow> derived_slug pg (bw_title p) ''title'' (Some x))"

definition update_post_tx :: "pg_text \<Rightarrow> ctx \<Rightarrow> uuid \<Rightarrow> post_input \<Rightarrow> unit stmt" where
  "update_post_tx pg c i inp =
    bindT (mapErrT (no_such ''blog post'') (get_blog_post c i)) (\<lambda>before.
    if bp_archived_at before \<noteq> None then failT (field_error ''status'' ''an archived post cannot be edited'')
    else bindT (apply_post c (post_params_of before) inp) (\<lambda>p.
     bindT (liftT (post_slug pg p inp)) (\<lambda>slug.
     let q = p\<lparr>bw_slug := slug, bw_cover := keep (pi_cover inp) (pi_clear_cover inp) (bw_cover p)\<rparr> in
     thenT (whenT (bw_featured q \<and> \<not> bp_featured before) (clear_blog_featured c i))
     (bindT (mapErrT (post_slug_error True) (update_blog_post c q)) (\<lambda>post.
      thenT (set_products c i (pi_products inp))
       (audit c (post_entry ''blog_post.update'' i (Some (post_audit before None)) (Some (post_audit post (pi_products inp)))))))))) "

definition archive_post_tx :: "ctx \<Rightarrow> uuid \<Rightarrow> unit stmt" where
  "archive_post_tx c i =
    bindT (mapErrT (no_such ''blog post'') (archive_blog_post c i)) (\<lambda>b.
     audit c (post_entry ''blog_post.archive'' i None (Some (DObj [(''archived_at'', opt_time (bp_archived_at b))]))))"

definition archive_post_op :: "ctx \<Rightarrow> uuid \<Rightarrow> db \<Rightarrow> (err + unit) \<times> db" where
  "archive_post_op c i = in_tenant_tx c (archive_post_tx c i)"

record post_view =
  pv_post :: blog_post
  pv_category_name :: "string option"
  pv_author_name :: "string option"
  pv_cover_url :: "string option"
  pv_excerpt :: string
  pv_products :: "(uuid \<times> string \<times> string option) list"

definition get_post_tx :: "files \<Rightarrow> ctx \<Rightarrow> uuid \<Rightarrow> post_view stmt" where
  "get_post_tx fl c i =
    bindT (mapErrT (no_such ''blog post'') (get_blog_post c i)) (\<lambda>b.
    bindT (blog_post_ref_names c i) (\<lambda>(category, author).
    bindT (list_blog_post_products fl c i) (\<lambda>ps.
     retT \<lparr>pv_post = b, pv_category_name = category, pv_author_name = author, pv_cover_url = blog_public_url fl (bp_cover_key b),
       pv_excerpt = resolve_excerpt (bp_excerpt b) (bp_body b), pv_products = map (\<lambda>(j, t, k). (j, t, blog_public_url fl (Some k))) ps\<rparr>)))"

definition get_post_op :: "files \<Rightarrow> ctx \<Rightarrow> uuid \<Rightarrow> db \<Rightarrow> (err + post_view) \<times> db" where
  "get_post_op fl c i = in_tenant_tx c (get_post_tx fl c i)"

definition create_post_op :: "pg_text \<Rightarrow> files \<Rightarrow> ctx \<Rightarrow> uuid \<Rightarrow> post_input \<Rightarrow> db \<Rightarrow> (err + post_view) \<times> db" where
  "create_post_op pg fl c i inp s =
    (if pi_cover inp \<noteq> None then (Inl (field_error ''cover_r2_key'' (''set the cover once the post exists; its key carries the post'' @ [CHR 0x27] @ ''s id'')), s)
     else if pi_title inp = None then (Inl (field_error ''title'' ''title is required''), s)
     else (case in_tenant_tx c (create_post_tx pg c i inp) s of
       (Inl e, s') \<Rightarrow> (Inl e, s')
     | (Inr _, s') \<Rightarrow> get_post_op fl c i s'))"

section \<open>Covers\<close>

definition post_folder :: "ctx \<Rightarrow> uuid \<Rightarrow> string" where
  "post_folder c i = uuid_string (tenant_of c) @ ''/blogs/'' @ uuid_string i @ ''/''"

definition max_cover_bytes :: int where
  "max_cover_bytes = 20 * 2 ^ 20"

definition check_cover :: "object_store \<Rightarrow> ctx \<Rightarrow> uuid \<Rightarrow> string \<Rightarrow> err option" where
  "check_cover st c i key =
    (if \<not> prefix (post_folder c i) key then Some (field_error ''cover_r2_key'' ''the key is not a cover upload for this post'')
     else (case os_head st key of
       Inl e \<Rightarrow> Some (if err_is e not_found_object then field_error ''cover_r2_key'' ''nothing was uploaded under this key'' else e)
     | Inr (mime, n) \<Rightarrow>
         if image_ext mime = None then Some (field_error ''cover_r2_key'' (''the uploaded object is '' @ mime @ '', not an image''))
         else if n > max_cover_bytes then Some (field_error ''cover_r2_key'' ''the uploaded image is over 20 MB'')
         else None))"

definition update_post_op :: "pg_text \<Rightarrow> object_store \<Rightarrow> ctx \<Rightarrow> uuid \<Rightarrow> post_input \<Rightarrow> db \<Rightarrow> (err + post_view) \<times> db" where
  "update_post_op pg st c i inp s =
    (case (case pi_cover inp of None \<Rightarrow> None | Some key \<Rightarrow> check_cover st c i key) of
      Some e \<Rightarrow> (Inl e, s)
    | None \<Rightarrow> (case in_tenant_tx c (update_post_tx pg c i inp) s of
        (Inl e, s') \<Rightarrow> (Inl e, s')
      | (Inr _, s') \<Rightarrow> get_post_op (os_files st) c i s'))"

definition live_post_tx :: "ctx \<Rightarrow> uuid \<Rightarrow> unit stmt" where
  "live_post_tx c i =
    bindT (mapErrT (\<lambda>e. if err_is e NoRows then field_error ''post_id'' ''no such live blog post'' else e) (get_blog_post c i)) (\<lambda>b.
    if bp_archived_at b \<noteq> None then failT (field_error ''post_id'' ''no such live blog post'') else retT ())"

text \<open>The signed upload, and the address the image will be served from.\<close>

definition presign_post_image :: "object_store \<Rightarrow> ctx \<Rightarrow> uuid \<Rightarrow> string \<Rightarrow> int \<Rightarrow> string \<Rightarrow> db \<Rightarrow> (err + presigned \<times> string) \<times> db" where
  "presign_post_image st c i mime bytes sha s =
    (case image_ext mime of
      None \<Rightarrow> (Inl (field_error ''mime_type'' ''images are image/jpeg, image/png or image/webp''), s)
    | Some ext \<Rightarrow>
        if bytes > max_cover_bytes then (Inl (field_error ''bytes'' ''an image is at most 20 MB''), s)
        else (case in_tenant_tx c (live_post_tx c i) s of
          (Inl e, s') \<Rightarrow> (Inl e, s')
        | (Inr _, s') \<Rightarrow>
            let key = post_folder c i @ sha @ ''.'' @ ext in
            (case presign st key of Inl e \<Rightarrow> Inl e | Inr p \<Rightarrow> Inr (p, fl_url (os_files st) key), s')))"

section \<open>Lists\<close>

record post_filter =
  of_q :: "string option"
  of_status :: "string option"
  of_category :: "uuid option"
  of_archived :: bool
  of_after :: "(instant \<times> uuid) option"
  of_limit :: int

record post_list_row =
  ow_post :: blog_post
  ow_category_name :: "string option"
  ow_author_name :: "string option"
  ow_cover_url :: "string option"

definition post_list_row_of :: "files \<Rightarrow> ctx \<Rightarrow> db \<Rightarrow> blog_post \<Rightarrow> post_list_row" where
  "post_list_row_of fl c s b = \<lparr>ow_post = b,
     ow_category_name = (case bp_category b of None \<Rightarrow> None | Some k \<Rightarrow> map_option bc_name (get_bcat_row (tenant_of c) k s)),
     ow_author_name = (case bp_author b of None \<Rightarrow> None | Some u \<Rightarrow> map_option us_name (get_user_row (tenant_of c) u s)),
     ow_cover_url = blog_public_url fl (bp_cover_key b)\<rparr>"

definition list_posts_op :: "pg_text \<Rightarrow> files \<Rightarrow> ctx \<Rightarrow> post_filter \<Rightarrow> db \<Rightarrow> (err + post_list_row list \<times> (instant \<times> uuid) option) \<times> db" where
  "list_posts_op pg fl c f s =
    (case in_tenant_tx c (list_blog_posts pg c \<lparr>lp_archived = of_archived f, lp_q = like_pattern (of_q f), lp_status = of_status f,
        lp_category = of_category f, lp_after = of_after f, lp_limit = wrap32 (of_limit f + 1)\<rparr>) s of
      (Inl e, s') \<Rightarrow> (Inl e, s')
    | (Inr rows, s') \<Rightarrow> (Inr (map (post_list_row_of fl c s) (fst (cut_page (of_limit f) rows)),
        map_option created_key (snd (cut_page (of_limit f) rows))), s'))"

section \<open>The storefront\<close>

record shop_post =
  sb_id :: uuid
  sb_slug :: string
  sb_title :: string
  sb_excerpt :: string
  sb_body :: string
  sb_cover :: "string option"
  sb_category :: "(string \<times> string) option"
  sb_author :: "(string \<times> string option) option"
  sb_tags :: "string list"
  sb_featured :: bool
  sb_published :: instant

definition shop_post_of :: "files \<Rightarrow> shop_post_row \<Rightarrow> shop_post" where
  "shop_post_of fl r = (let b = sr_post r in
     \<lparr>sb_id = bp_id b, sb_slug = bp_slug b, sb_title = bp_title b, sb_excerpt = resolve_excerpt (bp_excerpt b) (bp_body b), sb_body = bp_body b,
      sb_cover = blog_public_url fl (bp_cover_key b), sb_category = sr_category r, sb_author = sr_author r, sb_tags = bp_tags b,
      sb_featured = bp_featured b, sb_published = or_else (bp_published_at b) 0\<rparr>)"

record shop_post_filter =
  sx_category :: "string option"
  sx_tag :: "string option"
  sx_featured :: "bool option"
  sx_after :: "(instant \<times> uuid) option"
  sx_page :: int
  sx_limit :: int

record shop_post_page =
  sy_posts :: "shop_post list"
  sy_next :: "(instant \<times> uuid) option"
  sy_total :: int

definition no_post_filter :: shop_post_params where
  "no_post_filter = \<lparr>sq_slug = None, sq_category = None, sq_category_id = None, sq_not_id = None, sq_tag = None, sq_featured = None,
     sq_after = None, sq_off = 0, sq_lim = 0\<rparr>"

text \<open>A page number becomes an offset of 32 bits.\<close>

definition shop_posts_params :: "shop_post_filter \<Rightarrow> shop_post_params" where
  "shop_posts_params f = no_post_filter\<lparr>sq_category := sx_category f, sq_tag := sx_tag f, sq_featured := sx_featured f,
     sq_lim := wrap32 (sx_limit f + 1), sq_off := (if sx_page f > 0 then wrap32 ((sx_page f - 1) * sx_limit f) else 0),
     sq_after := (if sx_page f > 0 then None else sx_after f)\<rparr>"

definition shop_posts_op :: "files \<Rightarrow> ctx \<Rightarrow> shop_post_filter \<Rightarrow> db \<Rightarrow> (err + shop_post_page) \<times> db" where
  "shop_posts_op fl c f = in_tenant_tx c
    (bindT (storefront_blog_posts c (shop_posts_params f)) (\<lambda>rows.
     bindT (count_storefront_blog_posts c (shop_posts_params f)) (\<lambda>n.
      retT \<lparr>sy_posts = map (shop_post_of fl) (fst (cut_page (sx_limit f) rows)),
        sy_next = map_option (\<lambda>r. published_key (sr_post r)) (snd (cut_page (sx_limit f) rows)), sy_total = n\<rparr>)))"

definition related_posts :: int where
  "related_posts = 3"

definition shop_post_op :: "files \<Rightarrow> ctx \<Rightarrow> string \<Rightarrow> db \<Rightarrow> (err + shop_post \<times> uuid list \<times> shop_post list) \<times> db" where
  "shop_post_op fl c slug = in_tenant_tx c
    (bindT (storefront_blog_posts c (no_post_filter\<lparr>sq_slug := Some slug, sq_lim := 1\<rparr>)) (\<lambda>rows.
     case rows of [] \<Rightarrow> failT (not_found ''No such blog post.'')
     | r # _ \<Rightarrow>
       bindT (blog_post_product_ids c (bp_id (sr_post r))) (\<lambda>ids.
       bindT (storefront_blog_posts c (no_post_filter\<lparr>sq_category_id := (if sr_category r = None then None else bp_category (sr_post r)),
         sq_not_id := Some (bp_id (sr_post r)), sq_lim := related_posts\<rparr>)) (\<lambda>rel.
        retT (shop_post_of fl r, ids, map (shop_post_of fl) rel)))))"

definition shop_blog_categories_op :: "pg_text \<Rightarrow> ctx \<Rightarrow> db \<Rightarrow> (err + (string \<times> string) list) \<times> db" where
  "shop_blog_categories_op pg c = in_tenant_tx c (storefront_blog_categories pg c)"

end
