(* ===== verification/BlogRuns.thy ===== *)
theory BlogRuns
  imports Blog Uniques
begin

text \<open>
  What holds of the blog of every shop whatever its staff do: \<open>blog_step\<close> is one transaction of the blog service, or anything
  else that leaves the blog's tables.\<close>

section \<open>The blog's invariant\<close>

definition tags_fit :: "string list \<Rightarrow> bool" where
  "tags_fit ts \<longleftrightarrow> distinct ts \<and> length ts \<le> 10 \<and> list_all (\<lambda>t. t \<noteq> [] \<and> rune_count t \<le> 40) ts"

definition post_fits :: "blog_post \<Rightarrow> bool" where
  "post_fits b \<longleftrightarrow> bp_title b \<noteq> [] \<and> bp_status b \<in> {S_draft, S_published} \<and> (bp_status b = S_published \<longrightarrow> bp_published_at b \<noteq> None) \<and>
     (bp_archived_at b \<noteq> None \<longrightarrow> \<not> bp_featured b) \<and> tags_fit (bp_tags b)"

definition bcats_ok :: "db \<Rightarrow> bool" where
  "bcats_ok s \<longleftrightarrow> distinct (map bc_id (blog_categories s)) \<and> agree bc_id (\<lambda>b. (bc_tenant b, bc_slug b)) (\<lambda>_. True) (blog_categories s) \<and>
     list_all (\<lambda>b. bc_name b \<noteq> []) (blog_categories s)"

definition posts_ok :: "db \<Rightarrow> bool" where
  "posts_ok s \<longleftrightarrow> distinct (map bp_id (blog_posts s)) \<and> agree bp_id (\<lambda>b. (bp_tenant b, bp_slug b)) (\<lambda>_. True) (blog_posts s) \<and>
     agree bp_id bp_tenant bp_featured (blog_posts s) \<and> list_all post_fits (blog_posts s)"

definition links_ok :: "db \<Rightarrow> bool" where
  "links_ok s \<longleftrightarrow> distinct (map (\<lambda>l. (bq_post l, bq_product l)) (blog_post_products s)) \<and>
     (\<lambda>l. (bq_tenant l, bq_post l)) ` set (blog_post_products s) \<subseteq> (\<lambda>b. (bp_tenant b, bp_id b)) ` set (blog_posts s)"

definition blog_ok :: "db \<Rightarrow> bool" where
  "blog_ok s \<longleftrightarrow> bcats_ok s \<and> posts_ok s \<and> links_ok s"

definition blog_view :: "db \<Rightarrow> blog_category list \<times> blog_post list \<times> blog_post_product list" where
  "blog_view s = (blog_categories s, blog_posts s, blog_post_products s)"

named_theorems blog_kept \<open>statements that keep the blog's invariant\<close>

lemma view_blog: "within (same blog_view) m \<Longrightarrow> within (holds_on blog_ok) m"
  by (auto simp: within_def same_def holds_on_def blog_view_def blog_ok_def bcats_ok_def posts_ok_def links_ok_def)

lemma one_blog [blog_kept]: "within (holds_on blog_ok) (oneT g)"
  by (auto simp: within_def holds_on_def)

lemma audit_blog [blog_kept]: "within (holds_on blog_ok) (audit c e)"
  by (rule view_blog) (auto simp: within_def same_def blog_view_def)

lemmas blog_rules [blog_kept] = inv.rules

section \<open>Categories\<close>

lemma create_bcat_Inr: "create_blog_category pg c i name slug pos s = Inr (r, s') \<longleftrightarrow>
    r = \<lparr>bc_id = i, bc_tenant = tenant_of c, bc_name = name, bc_slug = or_else slug (slugify pg name), bc_position = pos,
       bc_archived_at = None, bc_created_at = c_now c, bc_updated_at = c_now c\<rparr> \<and>
    s' = s\<lparr>blog_categories := blog_categories s @ [r]\<rparr> \<and> i \<notin> bc_id ` set (blog_categories s) \<and> bcat_slug_free r s"
  by (auto simp: create_blog_category_def Let_def tx_inr)

lemma create_bcat_kept: "name \<noteq> [] \<Longrightarrow> within (holds_on blog_ok) (create_blog_category pg c i name slug pos)"
proof (rule withinI)
  fix s r s'
  assume n: "name \<noteq> []" and "create_blog_category pg c i name slug pos s = Inr (r, s')"
  then have s': "s' = s\<lparr>blog_categories := blog_categories s @ [r]\<rparr>" and i: "bc_id r \<notin> bc_id ` set (blog_categories s)"
    and free: "bcat_slug_free r s" and name: "bc_name r \<noteq> []"
    by (auto simp: create_bcat_Inr)
  have "bcats_ok s'" if ok: "bcats_ok s"
  proof -
    have "agree bc_id (\<lambda>b. (bc_tenant b, bc_slug b)) (\<lambda>_. True) (blog_categories s @ [r])"
      by (rule agree_snoc) (use ok free in \<open>simp_all add: bcats_ok_def bcat_slug_free_def list_all_iff\<close>)
    then show ?thesis using ok i name by (simp add: bcats_ok_def s')
  qed
  then show "holds_on blog_ok s s'"
    by (simp add: holds_on_def blog_ok_def posts_ok_def links_ok_def s')
qed

lemma bcat_slug_freeD: "bcat_slug_free r s \<Longrightarrow> q \<in> set (blog_categories s) \<Longrightarrow> (bc_tenant q, bc_slug q) = (bc_tenant r, bc_slug r) \<Longrightarrow> bc_id q = bc_id r"
  by (simp add: bcat_slug_free_def list_all_iff)

lemma upd_bcat_kept:
  assumes "blog_ok s" and "\<And>r. bc_id (f r) = bc_id r \<and> bc_tenant (f r) = bc_tenant r \<and> (bc_name r \<noteq> [] \<longrightarrow> bc_name (f r) \<noteq> [])"
    and "\<And>r. r \<in> set (blog_categories s) \<Longrightarrow> bc_tenant r = t \<Longrightarrow> bc_id r = i \<Longrightarrow> bcat_slug_free (f r) s"
  shows "blog_ok (upd_bcat t i f s)"
proof -
  have ok: "bcats_ok s" using assms(1) by (simp add: blog_ok_def)
  have "agree bc_id (\<lambda>b. (bc_tenant b, bc_slug b)) (\<lambda>_. True) (row_upd bc_tenant bc_id t i f (blog_categories s))"
    unfolding row_upd_def
  proof (rule agree_upd [where j = i])
    fix x q
    assume x: "x \<in> set (blog_categories s)" "bc_tenant x = t \<and> bc_id x = i" and q: "q \<in> set (blog_categories s)"
      and k: "(bc_tenant q, bc_slug q) = (bc_tenant (f x), bc_slug (f x))"
    have "bc_id q = bc_id (f x)"
      by (rule bcat_slug_freeD [OF _ q k]) (use assms(3) x in simp)
    then show "bc_id q = i" using assms(2) x(2) by simp
  qed (use ok assms(2) in \<open>simp_all add: bcats_ok_def\<close>)
  moreover have "map bc_id (row_upd bc_tenant bc_id t i f (blog_categories s)) = map bc_id (blog_categories s)"
    by (rule row_upd_map) (use assms(2) in simp)
  ultimately have "bcats_ok (upd_bcat t i f s)"
    using ok assms(2) by (auto simp: bcats_ok_def upd_bcat_def list_all_iff dest!: row_upd_set)
  then show ?thesis using assms(1) by (simp add: blog_ok_def posts_ok_def links_ok_def upd_bcat_def)
qed

lemma update_bcat_kept: "ub_name p \<noteq> [] \<Longrightarrow> within (holds_on blog_ok) (update_blog_category pg c i p)"
proof (rule withinI)
  fix s r s'
  assume n: "ub_name p \<noteq> []" and "update_blog_category pg c i p s = Inr (r, s')"
  then obtain q where q: "get_bcat_row (tenant_of c) i s = Some q" and free: "bcat_slug_free (changed_bcat pg c p q) s"
    and s': "s' = upd_bcat (tenant_of c) i (changed_bcat pg c p) s"
    by (auto simp: update_blog_category_def tx_inr)
  have "bcat_slug_free (changed_bcat pg c p r) s" if ok: "blog_ok s" "r \<in> set (blog_categories s)" "bc_tenant r = tenant_of c" "bc_id r = i" for r
  proof -
    have "inj_on bc_id (set (blog_categories s))" using ok(1) by (simp add: blog_ok_def bcats_ok_def distinct_map)
    then have "r = q" by (rule inj_onD) (use ok row_get_Some [OF q [unfolded get_bcat_row_def]] in simp_all)
    then show ?thesis using free by simp
  qed
  then show "holds_on blog_ok s s'"
    unfolding holds_on_def s' using n by (intro impI upd_bcat_kept) (simp_all add: changed_bcat_def)
qed

lemma archive_bcat_kept [blog_kept]: "within (holds_on blog_ok) (archive_blog_category c i)"
proof (rule withinI)
  fix s r s'
  assume "archive_blog_category c i s = Inr (r, s')"
  then have s': "s' = upd_bcat (tenant_of c) i (archived_bcat c) s"
    by (auto simp: archive_blog_category_def tx_inr)
  have "bcat_slug_free (archived_bcat c r) s" if "blog_ok s" "r \<in> set (blog_categories s)" for r
    using that unfolding blog_ok_def bcats_ok_def bcat_slug_free_def by (auto simp: list_all_iff archived_bcat_def dest: agreeD)
  then show "holds_on blog_ok s s'"
    unfolding holds_on_def s' by (intro impI upd_bcat_kept) (simp_all add: archived_bcat_def)
qed

section \<open>Posts\<close>

lemma bpost_slug_freeD: "bpost_slug_free r s \<Longrightarrow> q \<in> set (blog_posts s) \<Longrightarrow> (bp_tenant q, bp_slug q) = (bp_tenant r, bp_slug r) \<Longrightarrow> bp_id q = bp_id r"
  by (simp add: bpost_slug_free_def list_all_iff)

lemma featured_freeD: "featured_free r s \<Longrightarrow> bp_featured r \<Longrightarrow> q \<in> set (blog_posts s) \<Longrightarrow> bp_featured q \<Longrightarrow> bp_tenant q = bp_tenant r \<Longrightarrow> bp_id q = bp_id r"
  by (simp add: featured_free_def list_all_iff)

lemma bpost_checks_Inr: "bpost_checks c r s = Inr (x, s') \<longleftrightarrow> s' = s \<and> (bp_status r = S_draft \<or> bp_published_at r \<noteq> None) \<and>
    bp_status r \<in> {S_draft, S_published} \<and> bpost_slug_free r s \<and> featured_free r s \<and>
    (case bp_category r of None \<Rightarrow> True | Some k \<Rightarrow> get_bcat_row (tenant_of c) k s \<noteq> None) \<and>
    (case bp_author r of None \<Rightarrow> True | Some u \<Rightarrow> get_user_row (tenant_of c) u s \<noteq> None)"
  by (auto simp: bpost_checks_def tx_inr)

lemma create_bpost_Inr: "create_blog_post c p s = Inr (r, s') \<longleftrightarrow> r = new_bpost c p \<and> s' = s\<lparr>blog_posts := blog_posts s @ [r]\<rparr> \<and>
    bp_id r \<notin> bp_id ` set (blog_posts s) \<and> (\<exists>x. bpost_checks c r s = Inr (x, s))"
  by (auto simp: create_blog_post_def Let_def tx_inr bpost_checks_Inr)

lemma create_bpost_kept: "post_fits (new_bpost c p) \<Longrightarrow> within (holds_on blog_ok) (create_blog_post c p)"
proof (rule withinI)
  fix s r s'
  assume fits: "post_fits (new_bpost c p)" and "create_blog_post c p s = Inr (r, s')"
  then have r: "r = new_bpost c p" and s': "s' = s\<lparr>blog_posts := blog_posts s @ [r]\<rparr>" and i: "bp_id r \<notin> bp_id ` set (blog_posts s)"
    and free: "bpost_slug_free r s" "featured_free r s"
    by (auto simp: create_bpost_Inr bpost_checks_Inr)
  have "posts_ok s'" if ok: "posts_ok s"
  proof -
    have "agree bp_id (\<lambda>b. (bp_tenant b, bp_slug b)) (\<lambda>_. True) (blog_posts s @ [r])"
      by (rule agree_snoc) (use ok bpost_slug_freeD [OF free(1)] in \<open>simp_all add: posts_ok_def\<close>)
    moreover have "agree bp_id bp_tenant bp_featured (blog_posts s @ [r])"
      by (rule agree_snoc) (use ok featured_freeD [OF free(2)] in \<open>simp_all add: posts_ok_def\<close>)
    ultimately show ?thesis using ok i fits r by (simp add: posts_ok_def s')
  qed
  then show "holds_on blog_ok s s'"
    by (auto simp: holds_on_def blog_ok_def bcats_ok_def links_ok_def s')
qed

lemma upd_bpost_keys: "(\<And>r. bp_id (f r) = bp_id r \<and> bp_tenant (f r) = bp_tenant r) \<Longrightarrow>
    (\<lambda>b. (bp_tenant b, bp_id b)) ` set (map (\<lambda>r. if sel r then f r else r) rs) = (\<lambda>b. (bp_tenant b, bp_id b)) ` set rs \<and>
    map bp_id (map (\<lambda>r. if sel r then f r else r) rs) = map bp_id rs"
  by (induction rs) auto

lemma upd_bpost_kept:
  assumes "blog_ok s" and "\<And>r. bp_id (f r) = bp_id r \<and> bp_tenant (f r) = bp_tenant r"
    and "\<And>r. r \<in> set (blog_posts s) \<Longrightarrow> bp_tenant r = t \<Longrightarrow> bp_id r = i \<Longrightarrow> post_fits (f r) \<and> bpost_slug_free (f r) s \<and> featured_free (f r) s"
  shows "blog_ok (upd_bpost t i f s)"
proof -
  let ?rows = "row_upd bp_tenant bp_id t i f (blog_posts s)"
  note keys = upd_bpost_keys [where f = f and sel = "\<lambda>r. bp_tenant r = t \<and> bp_id r = i" and rs = "blog_posts s", OF assms(2), folded row_upd_def]
  have ok: "posts_ok s" using assms(1) by (simp add: blog_ok_def)
  have "agree bp_id (\<lambda>b. (bp_tenant b, bp_slug b)) (\<lambda>_. True) ?rows"
    unfolding row_upd_def
  proof (rule agree_upd [where j = i])
    fix x q
    assume x: "x \<in> set (blog_posts s)" "bp_tenant x = t \<and> bp_id x = i" and q: "q \<in> set (blog_posts s)"
      and k: "(bp_tenant q, bp_slug q) = (bp_tenant (f x), bp_slug (f x))"
    have "bp_id q = bp_id (f x)" by (rule bpost_slug_freeD [OF _ q k]) (use assms(3) x in simp)
    then show "bp_id q = i" using assms(2) x(2) by simp
  qed (use ok assms(2) in \<open>simp_all add: posts_ok_def\<close>)
  moreover have "agree bp_id bp_tenant bp_featured ?rows"
    unfolding row_upd_def
  proof (rule agree_upd [where j = i])
    fix x q
    assume x: "x \<in> set (blog_posts s)" "bp_tenant x = t \<and> bp_id x = i" and q: "q \<in> set (blog_posts s)"
      and p: "bp_featured (f x)" "bp_featured q" and k: "bp_tenant q = bp_tenant (f x)"
    have "bp_id q = bp_id (f x)" by (rule featured_freeD [OF _ p(1) q p(2) k]) (use assms(3) x in simp)
    then show "bp_id q = i" using assms(2) x(2) by simp
  qed (use ok assms(2) in \<open>simp_all add: posts_ok_def\<close>)
  moreover have "list_all post_fits ?rows"
    using ok assms(3) by (auto simp: posts_ok_def list_all_iff dest!: row_upd_set)
  ultimately have "posts_ok (upd_bpost t i f s)"
    using ok keys by (simp add: posts_ok_def upd_bpost_def)
  then show ?thesis
    using assms(1) keys by (simp add: blog_ok_def bcats_ok_def links_ok_def upd_bpost_def)
qed

lemma clear_featured_kept [blog_kept]: "within (holds_on blog_ok) (clear_blog_featured c i)"
proof (rule withinI)
  fix s x s'
  assume "clear_blog_featured c i s = Inr (x, s')"
  then have s': "s' = s\<lparr>blog_posts := map (\<lambda>r. if bp_tenant r = tenant_of c \<and> bp_featured r \<and> bp_id r \<noteq> i then unfeatured c r else r) (blog_posts s)\<rparr>"
    by (simp add: clear_blog_featured_def row_map_def)
  define rows where "rows = map (\<lambda>r. if bp_tenant r = tenant_of c \<and> bp_featured r \<and> bp_id r \<noteq> i then unfeatured c r else r) (blog_posts s)"
  have u: "bp_id (unfeatured c r) = bp_id r \<and> bp_tenant (unfeatured c r) = bp_tenant r" for r
    by (simp add: unfeatured_def)
  note keys = upd_bpost_keys [where f = "unfeatured c" and sel = "\<lambda>r. bp_tenant r = tenant_of c \<and> bp_featured r \<and> bp_id r \<noteq> i"
      and rs = "blog_posts s", OF u, folded rows_def]
  have "posts_ok s'" if ok: "posts_ok s"
  proof -
    have "agree bp_id (\<lambda>b. (bp_tenant b, bp_slug b)) (\<lambda>_. True) rows" "agree bp_id bp_tenant bp_featured rows"
      using ok unfolding posts_ok_def rows_def by (auto intro!: agree_less simp: unfeatured_def)
    moreover have "list_all post_fits rows"
      using ok by (auto simp: rows_def posts_ok_def list_all_iff post_fits_def unfeatured_def)
    ultimately show ?thesis using ok keys by (simp add: posts_ok_def s' flip: rows_def)
  qed
  then show "holds_on blog_ok s s'"
    using keys by (simp add: holds_on_def blog_ok_def bcats_ok_def links_ok_def s' flip: rows_def)
qed

lemma posts_ok_free: "posts_ok s \<Longrightarrow> r \<in> set (blog_posts s) \<Longrightarrow> bp_slug r' = bp_slug r \<Longrightarrow> bp_tenant r' = bp_tenant r \<Longrightarrow> bp_id r' = bp_id r \<Longrightarrow> bpost_slug_free r' s"
  unfolding posts_ok_def bpost_slug_free_def list_all_iff by (auto dest: agreeD)

lemma archive_bpost_kept [blog_kept]: "within (holds_on blog_ok) (archive_blog_post c i)"
proof (rule withinI)
  fix s r s'
  assume "archive_blog_post c i s = Inr (r, s')"
  then have s': "s' = upd_bpost (tenant_of c) i (archived_bpost c) s"
    by (auto simp: archive_blog_post_def tx_inr)
  show "holds_on blog_ok s s'"
    unfolding holds_on_def s'
  proof (intro impI upd_bpost_kept)
    fix r
    assume ok: "blog_ok s" and r: "r \<in> set (blog_posts s)"
    have "bpost_slug_free (archived_bpost c r) s"
      by (rule posts_ok_free [OF _ r]) (use ok in \<open>simp_all add: blog_ok_def archived_bpost_def\<close>)
    then show "post_fits (archived_bpost c r) \<and> bpost_slug_free (archived_bpost c r) s \<and> featured_free (archived_bpost c r) s"
      using ok r by (auto simp: blog_ok_def posts_ok_def list_all_iff post_fits_def archived_bpost_def featured_free_def)
  qed (simp_all add: archived_bpost_def)
qed

section \<open>Links\<close>

lemma delete_links_kept [blog_kept]: "within (holds_on blog_ok) (delete_blog_post_products c pid)"
  by (rule withinI) (auto simp: delete_blog_post_products_def holds_on_def blog_ok_def bcats_ok_def posts_ok_def links_ok_def row_del_def
      distinct_map_filter)

lemma get_bpost_mem: "get_bpost_row t i s \<noteq> None \<longleftrightarrow> (t, i) \<in> (\<lambda>b. (bp_tenant b, bp_id b)) ` set (blog_posts s)"
  by (auto simp: get_bpost_row_def row_get_def find_None_iff image_iff)

lemma add_link_kept [blog_kept]: "within (holds_on blog_ok) (add_blog_post_product c pid i n)"
  by (rule withinI) (auto simp: add_blog_post_product_def tx_inr get_bpost_mem [simplified] holds_on_def blog_ok_def bcats_ok_def posts_ok_def links_ok_def
      simp del: split_paired_All)

lemma set_products_kept [blog_kept]: "within (holds_on blog_ok) (set_products c pid ids)"
proof -
  have "within (holds_on blog_ok) (add_links c pid n xs)" for n xs
    by (induction c pid n xs rule: add_links.induct) (auto intro!: blog_kept)
  then show ?thesis unfolding set_products_def by (auto intro!: blog_kept split: option.split)
qed

section \<open>What the checks of a post ensure\<close>

lemma once_fits: "distinct acc \<Longrightarrow> distinct (once acc ts) \<and> set (once acc ts) = set acc \<union> set ts"
  by (induction acc ts rule: once.induct) auto

lemma clean_tags_fit: "clean_tags ts = Inr ts' \<Longrightarrow> tags_fit ts'"
  using once_fits [of "[]" "map trim_space ts"]
  by (auto simp: clean_tags_def Let_def tags_fit_def max_tags_def max_tag_runes_def list_all_iff list_ex_iff not_less split: if_splits)

definition params_fit :: "post_params \<Rightarrow> bool" where
  "params_fit p \<longleftrightarrow> bw_status p \<in> {S_draft, S_published} \<and> (bw_status p = S_published \<longrightarrow> bw_published p \<noteq> None) \<and> tags_fit (bw_tags p)"

lemma publishing_fits: "publishing c inp status at = Inr (st, d) \<Longrightarrow> status \<in> {S_draft, S_published} \<Longrightarrow>
    st \<in> {S_draft, S_published} \<and> (st = S_published \<longrightarrow> d \<noteq> None)"
  by (auto simp: publishing_def Let_def or_else_def split: if_splits option.splits)

lemma checks_read:
  "category_check c inp s = Inr (x, s') \<Longrightarrow> s' = s" "author_check c inp s = Inr (x, s') \<Longrightarrow> s' = s" "check_products c ids s = Inr (x, s') \<Longrightarrow> s' = s"
  by (auto simp: category_check_def author_check_def check_products_def count_products_def get_blog_category_def get_user_def tx_inr bindT_Inr
      split: option.splits if_splits)

lemma apply_post_reads: "apply_post c p inp s = Inr (q, s') \<Longrightarrow> s' = s"
  by (auto simp: apply_post_def Let_def thenT_Inr bindT_Inr dest!: checks_read split: if_splits option.splits prod.splits)

lemma apply_post_fits:
  assumes "apply_post c p inp s = Inr (q, s')" and "params_fit p"
  shows "s' = s \<and> params_fit q \<and> bw_id q = bw_id p \<and> (pi_title inp \<noteq> None \<or> bw_title p \<noteq> [] \<longrightarrow> bw_title q \<noteq> []) \<and> bw_slug q = bw_slug p"
  using assms by (auto simp: apply_post_def Let_def thenT_Inr bindT_Inr params_fit_def dest!: checks_read clean_tags_fit publishing_fits
      split: if_splits option.splits prod.splits)

section \<open>Every operation\<close>

lemma category_txs_kept [blog_kept]: "within (holds_on blog_ok) (create_category_tx pg c i name slug pos)"
  "within (holds_on blog_ok) (update_category_tx pg c i p)" "within (holds_on blog_ok) (archive_category_tx c i)"
proof -
  show "within (holds_on blog_ok) (create_category_tx pg c i name slug pos)"
    unfolding create_category_tx_def Let_def by (auto intro!: blog_kept create_bcat_kept)
  show "within (holds_on blog_ok) (archive_category_tx c i)"
    unfolding archive_category_tx_def by (auto intro!: blog_kept)
  show "within (holds_on blog_ok) (update_category_tx pg c i p)"
  proof (rule withinI)
    fix s b s'
    assume r: "update_category_tx pg c i p s = Inr (b, s')"
    show "holds_on blog_ok s s'"
      unfolding holds_on_def
    proof
      assume ok: "blog_ok s"
      from r obtain before where g: "get_bcat_row (tenant_of c) i s = Some before"
        by (auto simp: update_category_tx_def bindT_Inr get_blog_category_def)
      then have "before \<in> set (blog_categories s)" by (auto simp: get_bcat_row_def dest: row_get_Some)
      then have n: "bc_name before \<noteq> []" using ok by (auto simp: blog_ok_def bcats_ok_def list_all_iff)
      let ?n = "case kp_name p of None \<Rightarrow> bc_name before | Some x \<Rightarrow> trim_space x"
      have ne: "?n \<noteq> []" using r g n by (auto simp: update_category_tx_def bindT_Inr get_blog_category_def Let_def split: option.splits)
      let ?q = "\<lparr>ub_name = ?n, ub_slug = kp_slug p, ub_rename = (kp_name p \<noteq> None), ub_position = or_else (kp_position p) (bc_position before)\<rparr>"
      from r g obtain s1 b1 e where u: "update_blog_category pg c i ?q s = Inr (b1, s1)" and s': "s' = add_audit c e s1"
        by (auto simp: update_category_tx_def bindT_Inr thenT_Inr get_blog_category_def Let_def split: if_splits)
      have "within (holds_on blog_ok) (update_blog_category pg c i ?q)" by (rule update_bcat_kept) (use ne in simp)
      from withinD [OF this u] have "blog_ok s1" using ok by (simp add: holds_on_def)
      then show "blog_ok s'" unfolding s' using withinD [OF audit_blog, of c e s1 "()" "add_audit c e s1"] by (simp add: holds_on_def)
    qed
  qed
qed

lemma finish_kept: "blog_ok s \<Longrightarrow> thenT (set_products c i ids) (audit c e) s = Inr (x, s') \<Longrightarrow> blog_ok s'"
proof -
  have "within (holds_on blog_ok) (thenT (set_products c i ids) (audit c e))" by (intro blog_kept)
  then show "blog_ok s \<Longrightarrow> thenT (set_products c i ids) (audit c e) s = Inr (x, s') \<Longrightarrow> blog_ok s'"
    by (auto dest: withinD simp: holds_on_def)
qed

lemma cleared_kept: "blog_ok s \<Longrightarrow> whenT b (clear_blog_featured c i) s = Inr (x, s') \<Longrightarrow> blog_ok s'"
  using withinD [OF inv.guarded [OF clear_featured_kept]] by (fastforce simp: holds_on_def)

lemma create_post_kept:
  assumes "create_post_tx pg c i inp s = Inr (x, s')" and "pi_title inp \<noteq> None" and "blog_ok s"
  shows "blog_ok s'"
proof -
  from assms(1) obtain p s0 slug s1 s2 y b where p0: "apply_post c (blank_post c i) inp s = Inr (p, s0)"
    and c0: "whenT (bw_featured p) (clear_blog_featured c i) s0 = Inr (y, s1)"
    and w: "create_blog_post c (p\<lparr>bw_slug := slug\<rparr>) s1 = Inr (b, s2)"
    and f: "thenT (set_products c i (pi_products inp)) (audit c (post_entry ''blog_post.create'' i None (Some (post_audit b (pi_products inp))))) s2 = Inr (x, s')"
    by (auto simp: create_post_tx_def bindT_Inr thenT_Inr [of "whenT _ _"])
  note p = p0 [unfolded apply_post_reads [OF p0]] and c = c0 [unfolded apply_post_reads [OF p0]]
  have "params_fit (blank_post c i)" by (simp add: params_fit_def blank_post_def tags_fit_def S_published_def S_defs)
  from apply_post_fits [OF p this] assms(2) have fit: "params_fit p" "bw_title p \<noteq> []" by auto
  have "post_fits (new_bpost c (p\<lparr>bw_slug := slug\<rparr>))"
    using fit by (simp add: post_fits_def new_bpost_def params_fit_def)
  from withinD [OF create_bpost_kept [OF this] w] have "blog_ok s2"
    using cleared_kept [OF assms(3) c] by (simp add: holds_on_def)
  then show ?thesis by (rule finish_kept [OF _ f])
qed

lemma clear_other_row: "get_bpost_row t i s = Some r \<Longrightarrow> whenT b (clear_blog_featured c i) s = Inr (x, s') \<Longrightarrow> get_bpost_row t i s' = Some r"
proof (cases b)
  case True
  assume g: "get_bpost_row t i s = Some r" and "whenT b (clear_blog_featured c i) s = Inr (x, s')"
  then have s': "s' = s\<lparr>blog_posts := row_map bp_tenant (\<lambda>r. bp_featured r \<and> bp_id r \<noteq> i) (tenant_of c) (unfeatured c) (blog_posts s)\<rparr>"
    using True by (simp add: whenT_def clear_blog_featured_def)
  have "row_get bp_tenant bp_id t i (row_map bp_tenant (\<lambda>r. bp_featured r \<and> bp_id r \<noteq> i) (tenant_of c) (unfeatured c) (blog_posts s)) =
      map_option (\<lambda>r. if bp_tenant r = tenant_of c \<and> bp_featured r \<and> bp_id r \<noteq> i then unfeatured c r else r) (row_get bp_tenant bp_id t i (blog_posts s))"
    by (rule row_get_map) (simp add: unfeatured_def)
  moreover have "bp_id r = i" using g by (auto simp: get_bpost_row_def dest: row_get_Some)
  ultimately show ?thesis using g by (simp add: get_bpost_row_def s')
qed (simp add: whenT_def)

lemma update_post_kept: "within (holds_on blog_ok) (update_post_tx pg c i inp)"
proof (rule withinI)
  fix s x s'
  assume r: "update_post_tx pg c i inp s = Inr (x, s')"
  show "holds_on blog_ok s s'"
    unfolding holds_on_def
  proof
    assume ok: "blog_ok s"
    from r obtain before p s0 slug s1 s2 y b e where g: "get_bpost_row (tenant_of c) i s = Some before" "bp_archived_at before = None"
      and p0: "apply_post c (post_params_of before) inp s = Inr (p, s0)"
      and c0: "whenT (bw_featured p \<and> \<not> bp_featured before) (clear_blog_featured c i) s0 = Inr (y, s1)"
      and w: "update_blog_post c (p\<lparr>bw_slug := slug, bw_cover := keep (pi_cover inp) (pi_clear_cover inp) (bw_cover p)\<rparr>) s1 = Inr (b, s2)"
      and f: "thenT (set_products c i (pi_products inp)) (audit c e) s2 = Inr (x, s')"
      by (auto simp: update_post_tx_def bindT_Inr thenT_Inr [of "whenT _ _"] get_blog_post_def Let_def split: if_splits option.splits)
    note p = p0 [unfolded apply_post_reads [OF p0]] and c = c0 [unfolded apply_post_reads [OF p0]]
    let ?q = "p\<lparr>bw_slug := slug, bw_cover := keep (pi_cover inp) (pi_clear_cover inp) (bw_cover p)\<rparr>"
    have b: "before \<in> set (blog_posts s)" "bp_id before = i" "bp_tenant before = tenant_of c"
      using g(1) by (auto simp: get_bpost_row_def dest: row_get_Some)
    then have fits: "post_fits before" using ok by (auto simp: blog_ok_def posts_ok_def list_all_iff)
    have "params_fit (post_params_of before)" "bw_title (post_params_of before) \<noteq> []" "bw_id (post_params_of before) = i"
      using fits b by (auto simp: params_fit_def post_params_of_def post_fits_def)
    then have fit: "params_fit p" "bw_title p \<noteq> []" "bw_id p = i"
      using apply_post_fits [OF p] by auto
    have ok1: "blog_ok s1" by (rule cleared_kept [OF ok c])
    have g1: "get_bpost_row (tenant_of c) i s1 = Some before" by (rule clear_other_row [OF g(1) c])
    from w g1 fit(3) have chk: "bpost_slug_free (edited_bpost c ?q before) s1" "featured_free (edited_bpost c ?q before) s1"
      and s2: "s2 = upd_bpost (tenant_of c) i (edited_bpost c ?q) s1"
      by (auto simp: update_blog_post_def tx_inr bpost_checks_Inr)
    have "blog_ok s2"
      unfolding s2
    proof (rule upd_bpost_kept [OF ok1])
      fix r
      assume mem: "r \<in> set (blog_posts s1)" "bp_tenant r = tenant_of c" "bp_id r = i"
      have "inj_on bp_id (set (blog_posts s1))" using ok1 by (simp add: blog_ok_def posts_ok_def distinct_map)
      then have "r = before"
        by (rule inj_onD) (use mem row_get_Some [OF g1 [unfolded get_bpost_row_def]] in simp_all)
      then show "post_fits (edited_bpost c ?q r) \<and> bpost_slug_free (edited_bpost c ?q r) s1 \<and> featured_free (edited_bpost c ?q r) s1"
        using fit g(2) chk by (simp add: post_fits_def edited_bpost_def params_fit_def)
    qed (simp add: edited_bpost_def)
    then show "blog_ok s'" by (rule finish_kept [OF _ f])
  qed
qed

lemma archive_post_kept [blog_kept]: "within (holds_on blog_ok) (archive_post_tx c i)"
  unfolding archive_post_tx_def by (intro blog_kept)

section \<open>Runs\<close>

inductive blog_step :: "pg_text \<Rightarrow> object_store \<Rightarrow> db \<Rightarrow> db \<Rightarrow> bool" for pg st where
  category_created: "create_category_op pg c i name slug pos s = (res, s') \<Longrightarrow> blog_step pg st s s'"
| category_updated: "update_category_op pg c i kp s = (res, s') \<Longrightarrow> blog_step pg st s s'"
| category_archived: "archive_category_op c i s = (ok, s') \<Longrightarrow> blog_step pg st s s'"
| post_created: "create_post_op pg (os_files st) c i inp s = (view, s') \<Longrightarrow> blog_step pg st s s'"
| post_updated: "update_post_op pg st c i inp s = (view, s') \<Longrightarrow> blog_step pg st s s'"
| post_archived: "archive_post_op c i s = (ok, s') \<Longrightarrow> blog_step pg st s s'"
| elsewhere: "blog_view s' = blog_view s \<Longrightarrow> blog_step pg st s s'"

lemma tx_kept: "in_tenant_tx c m s = (r, s') \<Longrightarrow> within (holds_on blog_ok) m \<Longrightarrow> blog_ok s \<Longrightarrow> blog_ok s'"
  by (auto simp: in_tenant_tx_def run_tx_def within_def holds_on_def split: sum.splits option.splits if_splits)

lemma get_post_reads: "get_post_op fl c i s = (r, s') \<Longrightarrow> s' = s"
  by (auto simp: get_post_op_def get_post_tx_def in_tenant_tx_def run_tx_def bindT_Inr get_blog_post_def blog_post_ref_names_def
      list_blog_post_products_def split: sum.splits option.splits)

lemma step_kept: "blog_step pg st s s' \<Longrightarrow> blog_ok s \<Longrightarrow> blog_ok s'"
proof (induction rule: blog_step.induct)
  case (category_created c i name slug pos s res s')
  then show ?case using tx_kept category_txs_kept(1) unfolding create_category_op_def by blast
next
  case (category_updated c i kp s res s')
  then show ?case using tx_kept category_txs_kept(2) unfolding update_category_op_def by blast
next
  case (category_archived c i s res s')
  then show ?case using tx_kept category_txs_kept(3) unfolding archive_category_op_def by blast
next
  case (post_created c i inp s view s')
  then show ?case
    by (auto simp: create_post_op_def in_tenant_tx_def run_tx_def dest: get_post_reads create_post_kept split: if_splits prod.splits sum.splits option.splits)
next
  case (post_updated c i inp s view s')
  then show ?case
    using update_post_kept [of pg c i inp]
    by (auto simp: update_post_op_def in_tenant_tx_def run_tx_def within_def holds_on_def dest!: get_post_reads
        split: if_splits prod.splits sum.splits option.splits)
next
  case (post_archived c i s res s')
  then show ?case using tx_kept archive_post_kept unfolding archive_post_op_def by blast
next
  case (elsewhere s' s)
  then show ?case by (simp add: blog_view_def blog_ok_def bcats_ok_def posts_ok_def links_ok_def)
qed

definition blog_run :: "pg_text \<Rightarrow> object_store \<Rightarrow> db \<Rightarrow> db \<Rightarrow> bool" where
  "blog_run pg st = (blog_step pg st)\<^sup>*\<^sup>*"

lemma run_kept: "blog_run pg st s s' \<Longrightarrow> blog_ok s \<Longrightarrow> blog_ok s'"
  unfolding blog_run_def by (induction rule: rtranclp_induct) (auto intro: step_kept)


end
