(* ===== verification/BlogReads.thy ===== *)
theory BlogReads
  imports BlogRuns ListPages
begin

text \<open>What the storefront sees of the blog (internal/blog/storefront.go): the live posts, in pages.\<close>

definition own_live :: "ctx \<Rightarrow> shop_post_filter \<Rightarrow> db \<Rightarrow> blog_post list" where
  "own_live c f s = filter (shop_post_match c (shop_posts_params f) s) (own_bposts c s)"

definition shop_listed :: "ctx \<Rightarrow> shop_post_filter \<Rightarrow> db \<Rightarrow> blog_post list" where
  "shop_listed c f s = rest_of True published_key None (own_live c f s)"

definition shown_post :: "files \<Rightarrow> ctx \<Rightarrow> db \<Rightarrow> blog_post \<Rightarrow> shop_post" where
  "shown_post fl c s b = shop_post_of fl (shop_post_row_of c s b)"

definition blog_answer :: "files \<Rightarrow> ctx \<Rightarrow> shop_post_filter \<Rightarrow> db \<Rightarrow> (instant \<times> uuid) option \<Rightarrow> shop_post list \<times> (instant \<times> uuid) option" where
  "blog_answer fl c f s after = (case fst (shop_posts_op fl c (f\<lparr>sx_after := after\<rparr>) s) of
     Inl e \<Rightarrow> ([], None) | Inr page \<Rightarrow> (sy_posts page, sy_next page))"

lemma match_params: "shop_post_match c (shop_posts_params (f\<lparr>sx_after := after\<rparr>)) s = shop_post_match c (shop_posts_params f) s"
  by (rule ext) (simp add: shop_post_match_def shop_posts_params_def no_post_filter_def cong: option.case_cong)

lemma shop_posts_page:
  assumes "c_tenant c = Some t" and "sx_page f = 0" and "1 \<le> sx_limit f" and "sx_limit f < 2 ^ 31 - 1"
  shows "shop_posts_op fl c (f\<lparr>sx_after := after\<rparr>) s = (let cut = cut_page (sx_limit f) (fetch True published_key after 0 (sx_limit f) (own_live c f s)) in
    (Inr \<lparr>sy_posts = map (shown_post fl c s) (fst cut), sy_next = map_option published_key (snd cut), sy_total = int (length (own_live c f s))\<rparr>, s))"
proof -
  have w: "wrap32 (sx_limit f + 1) = sx_limit f + 1" by (rule wrap32_id) (use assms(3,4) in \<open>simp add: is_i32_def\<close>)
  have p: "sq_lim (shop_posts_params (f\<lparr>sx_after := after\<rparr>)) = sx_limit f + 1" "sq_off (shop_posts_params (f\<lparr>sx_after := after\<rparr>)) = 0"
    "sq_after (shop_posts_params (f\<lparr>sx_after := after\<rparr>)) = after"
    using assms(2) by (simp_all add: shop_posts_params_def w no_post_filter_def)
  have fetch: "take (nat (sx_limit f + 1)) (in_order True published_key (filter (\<lambda>r. shop_post_match c (shop_posts_params f) s r \<and> past True published_key after r) (own_bposts c s)))
      = fetch True published_key after 0 (sx_limit f) (own_live c f s)"
    by (simp add: fetch_def own_live_def filter_filter conj_commute)
  have m: "map (shop_post_of fl) (fst (cut_page (sx_limit f) (map (shop_post_row_of c s) rows))) = map (shown_post fl c s) (fst (cut_page (sx_limit f) rows))"
    "map_option (\<lambda>r. published_key (sr_post r)) (snd (cut_page (sx_limit f) (map (shop_post_row_of c s) rows))) = map_option published_key (snd (cut_page (sx_limit f) rows))" for rows
    using assms(3) by (auto simp: cut_page_map map_prod_def shown_post_def shop_post_row_of_def option.map_comp comp_def split: prod.splits)
  show ?thesis
    using assms(1,3) by (simp add: shop_posts_op_def in_tenant_tx_def run_tx_def storefront_blog_posts_def count_storefront_blog_posts_def bindT_def thenT_def guardT_def
        readT_def retT_def p match_params fetch m Let_def) (simp add: own_live_def)
qed

lemma each_filter: "(case x of None \<Rightarrow> True | Some y \<Rightarrow> P y) \<longleftrightarrow> (\<forall>y. x = Some y \<longrightarrow> P y)"
  by (cases x) simp_all

lemma dated: "(case x of None \<Rightarrow> False | Some t \<Rightarrow> t \<le> n) \<longleftrightarrow> (\<exists>t. x = Some t \<and> t \<le> n)"
  by (cases x) simp_all

lemma own_live_set: "set (own_live c f s) = {b \<in> set (own_bposts c s). bp_status b = S_published \<and> bp_archived_at b = None \<and>
      (\<exists>at. bp_published_at b = Some at \<and> at \<le> c_now c) \<and>
      (\<forall>x. sx_category f = Some x \<longrightarrow> map_option bc_slug (live_bcat c s b) = Some x) \<and> (\<forall>x. sx_tag f = Some x \<longrightarrow> x \<in> set (bp_tags b)) \<and>
      (\<forall>x. sx_featured f = Some x \<longrightarrow> bp_featured b = x)}"
  by (simp add: own_live_def shop_post_match_def live_post_def shop_posts_params_def no_post_filter_def each_filter dated conj_assoc)

lemma keyset_pages:
  assumes "distinct (map key rows)" and "1 \<le> limit"
  shows "pages (\<lambda>after. map_prod id (map_option key) (cut_page limit (fetch desc key after 0 limit rows))) (\<lambda>after. rest_of desc key after rows)"
  unfolding pages_def
proof
  fix after
  show "case map_prod id (map_option key) (cut_page limit (fetch desc key after 0 limit rows)) of
     (xs, None) \<Rightarrow> rest_of desc key after rows = xs | (xs, Some k) \<Rightarrow> rest_of desc key after rows = xs @ rest_of desc key (Some k) rows \<and> xs \<noteq> []"
    using cut_fetch [OF assms, of desc after] by (auto simp: map_prod_def split: prod.splits option.splits)
qed

text \<open>C30. The blog of a shop's website in pages is the shop's live posts (BR-081, BR-131, P1-605): following the cursors from the first page
  reads exactly the posts of the shop that are published, not archived, not dated later than now and match the filters, each once,
  newest first, and ends; every page's total is their number.\<close>

theorem blog_pages_whole:
  assumes "c_tenant c = Some t" and "distinct (map bp_id (own_bposts c s))" and "sx_page f = 0" and "1 \<le> sx_limit f" and "sx_limit f < 2 ^ 31 - 1"
    and "length (shop_listed c f s) < fuel"
  shows "walk fuel (blog_answer fl c f s) None = Some (map (shown_post fl c s) (shop_listed c f s)) \<and>
    set (shop_listed c f s) = {b \<in> set (own_bposts c s). bp_status b = S_published \<and> bp_archived_at b = None \<and>
      (\<exists>at. bp_published_at b = Some at \<and> at \<le> c_now c) \<and>
      (\<forall>x. sx_category f = Some x \<longrightarrow> map_option bc_slug (live_bcat c s b) = Some x) \<and> (\<forall>x. sx_tag f = Some x \<longrightarrow> x \<in> set (bp_tags b)) \<and>
      (\<forall>x. sx_featured f = Some x \<longrightarrow> bp_featured b = x)} \<and>
    distinct (shop_listed c f s) \<and> sorted_wrt (\<lambda>a b. published_key b < published_key a) (shop_listed c f s) \<and>
    (\<exists>page. shop_posts_op fl c f s = (Inr page, s) \<and> sy_total page = int (length (shop_listed c f s)))"
proof -
  have ids: "distinct (map bp_id (own_live c f s))"
    unfolding own_live_def by (rule distinct_map_filter [OF assms(2)])
  have keys: "distinct (map published_key (own_live c f s))"
    unfolding published_key_def by (rule distinct_keys [OF ids])
  from pages_map [OF keyset_pages [OF keys assms(4), of True], of "shown_post fl c s"]
  have "pages (blog_answer fl c f s) (\<lambda>after. map (shown_post fl c s) (rest_of True published_key after (own_live c f s)))"
    by (rule back_subst [where P = "\<lambda>p. pages p _"])
      (auto simp: fun_eq_iff blog_answer_def shop_posts_page [OF assms(1,3,4,5)] Let_def map_prod_def split: prod.splits)
  from walk_whole [OF this, of None fuel] have w: "walk fuel (blog_answer fl c f s) None = Some (map (shown_post fl c s) (shop_listed c f s))"
    using assms(6) by (simp add: shop_listed_def)
  have st: "set (shop_listed c f s) = set (own_live c f s)" "length (shop_listed c f s) = length (own_live c f s)"
    by (simp_all add: shop_listed_def rest_of_same)
  have srt: "sorted_wrt (ahead True published_key) (shop_listed c f s)"
    unfolding shop_listed_def rest_of_def by (rule in_order_strict) (simp add: past_def keys)
  have "distinct (shop_listed c f s)"
    unfolding shop_listed_def by (rule rest_of_same(2)) (use ids in \<open>simp add: distinct_map\<close>)
  moreover have "shop_posts_op fl c f s = shop_posts_op fl c (f\<lparr>sx_after := sx_after f\<rparr>) s" by simp
  then have "\<exists>page. shop_posts_op fl c f s = (Inr page, s) \<and> sy_total page = int (length (shop_listed c f s))"
    unfolding shop_posts_page [OF assms(1,3,4,5)] by (simp add: Let_def st(2))
  moreover have "sorted_wrt (\<lambda>a b. published_key b < published_key a) (shop_listed c f s)"
    using srt by (simp add: ahead_def [abs_def])
  ultimately show ?thesis
    using w own_live_set [of c f s] by (simp only: st(1))
qed

text \<open>
  A page number is multiplied by the page size and cut to 32 bits: a page far past the end is the first page again, and one half
  as far a negative offset, which the database refuses.\<close>

definition far_page :: "int \<Rightarrow> shop_post_filter" where
  "far_page n = \<lparr>sx_category = None, sx_tag = None, sx_featured = None, sx_after = None, sx_page = n, sx_limit = 128\<rparr>"

lemma far_pages_wrap: "shop_posts_op fl c (far_page 33554433) s = shop_posts_op fl c (far_page 1) s"
  "c_tenant c \<noteq> None \<Longrightarrow> shop_posts_op fl c (far_page 16777217) s = (Inl offset_error, s)"
  by (auto simp: far_page_def shop_posts_op_def shop_posts_params_def no_post_filter_def wrap32_def in_tenant_tx_def run_tx_def bindT_def thenT_def
      storefront_blog_posts_def guardT_def split: option.splits)

section \<open>A blog of two posts\<close>

definition sample_post :: "uuid \<Rightarrow> string \<Rightarrow> instant \<Rightarrow> blog_post" where
  "sample_post i slug at = \<lparr>bp_id = i, bp_tenant = 1, bp_category = None, bp_author = None, bp_title = slug, bp_slug = slug, bp_excerpt = None,
     bp_body = [], bp_cover_key = None, bp_tags = [], bp_status = S_published, bp_featured = False, bp_published_at = Some at,
     bp_archived_at = None, bp_created_at = 0, bp_updated_at = 0\<rparr>"

definition two_posts :: db where
  "two_posts = empty_db\<lparr>blog_posts := [sample_post 1 ''teh'' 5, sample_post 2 ''kopi'' 7]\<rparr>"

definition one_a_page :: shop_post_filter where
  "one_a_page = \<lparr>sx_category = None, sx_tag = None, sx_featured = None, sx_after = None, sx_page = 0, sx_limit = 1\<rparr>"

lemma two_posts_rows: "own_bposts list_ctx two_posts = [sample_post 1 ''teh'' 5, sample_post 2 ''kopi'' 7]"
  by (simp add: own_bposts_def rows_of_def two_posts_def sample_post_def list_ctx_def tenant_of_def)

lemma two_posts_listed: "shop_listed list_ctx one_a_page two_posts = [sample_post 2 ''kopi'' 7, sample_post 1 ''teh'' 5]"
  unfolding shop_listed_def own_live_def two_posts_rows
  by (simp add: rest_of_def in_order_def past_def shop_post_match_def live_post_def shop_posts_params_def
      no_post_filter_def one_a_page_def sample_post_def list_ctx_def published_key_def or_else_def)

theorem blog_pages_whole_witness:
  "walk 3 (blog_answer list_files list_ctx one_a_page two_posts) None = Some (map (shown_post list_files list_ctx two_posts) [sample_post 2 ''kopi'' 7, sample_post 1 ''teh'' 5])"
proof -
  have "c_tenant list_ctx = Some 1" "distinct (map bp_id (own_bposts list_ctx two_posts))" "sx_page one_a_page = 0" "1 \<le> sx_limit one_a_page"
    "sx_limit one_a_page < 2 ^ 31 - 1" "length (shop_listed list_ctx one_a_page two_posts) < 3"
    unfolding two_posts_rows two_posts_listed by (simp_all add: list_ctx_def one_a_page_def sample_post_def)
  from blog_pages_whole [OF this, of list_files] show ?thesis unfolding two_posts_listed by simp
qed

definition made_bcat :: "(err + blog_category) \<times> db" where
  "made_bcat = create_category_op list_pg list_ctx 9 ''Resep'' (Some ''resep'') 0 two_posts"

definition sample_store :: object_store where
  "sample_store = \<lparr>os_head = (\<lambda>_. Inl not_found_object), os_sign = (\<lambda>k n. Inr k), os_files = list_files\<rparr>"


end
