(* ===== verification/ExcerptBound.thy ===== *)
theory ExcerptBound
  imports Excerpts
begin

text \<open>
  How long an excerpt is, in runes: a cut text is built of whole valid runes, and cutting it at ASCII characters keeps it so.\<close>

section \<open>Whole runes\<close>

text \<open>A valid rune of UTF-8: it is as wide as its first byte says, and a byte below 128 is a rune of its own.\<close>

definition whole :: "string \<Rightarrow> bool" where
  "whole r \<longleftrightarrow> r \<noteq> [] \<and> rune_width r = length r \<and> (length r = 1 \<longrightarrow> byte_at r 0 < (128 :: nat))"

definition two_bytes :: "string \<Rightarrow> bool" where
  "two_bytes s \<longleftrightarrow> 194 \<le> (byte_at s 0 :: nat) \<and> byte_at s 0 \<le> (223 :: nat) \<and> cont_byte s 1 128 191"

definition three_bytes :: "string \<Rightarrow> bool" where
  "three_bytes s \<longleftrightarrow> (let b = byte_at s 0 :: nat in
     (b = 224 \<and> cont_byte s 1 160 191 \<or> (225 \<le> b \<and> b \<le> 236 \<or> b = 238 \<or> b = 239) \<and> cont_byte s 1 128 191 \<or>
      b = 237 \<and> cont_byte s 1 128 159) \<and> cont_byte s 2 128 191)"

definition four_bytes :: "string \<Rightarrow> bool" where
  "four_bytes s \<longleftrightarrow> (let b = byte_at s 0 :: nat in
     (b = 240 \<and> cont_byte s 1 144 191 \<or> 241 \<le> b \<and> b \<le> 243 \<and> cont_byte s 1 128 191 \<or>
      b = 244 \<and> cont_byte s 1 128 143) \<and> cont_byte s 2 128 191 \<and> cont_byte s 3 128 191)"

lemma rune_width_eq: "rune_width s = (if byte_at s 0 < (128 :: nat) then 1 else if two_bytes s then 2 else if three_bytes s then 3 else if four_bytes s then 4 else 1)"
  by (simp only: rune_width_def two_bytes_def three_bytes_def four_bytes_def Let_def conj_assoc)

lemma two_bytesD: "two_bytes s \<Longrightarrow> 194 \<le> (byte_at s 0 :: nat) \<and> byte_at s 0 \<le> (223 :: nat) \<and> 1 < length s \<and> 128 \<le> (byte_at s 1 :: nat)"
  by (simp add: two_bytes_def cont_byte_def)

lemma three_bytesD: "three_bytes s \<Longrightarrow> 224 \<le> (byte_at s 0 :: nat) \<and> byte_at s 0 \<le> (239 :: nat) \<and> 2 < length s \<and>
    128 \<le> (byte_at s 1 :: nat) \<and> 128 \<le> (byte_at s 2 :: nat)"
  unfolding three_bytes_def cont_byte_def Let_def by linarith

lemma four_bytesD: "four_bytes s \<Longrightarrow> 240 \<le> (byte_at s 0 :: nat) \<and> 3 < length s \<and>
    128 \<le> (byte_at s 1 :: nat) \<and> 128 \<le> (byte_at s 2 :: nat) \<and> 128 \<le> (byte_at s 3 :: nat)"
  unfolding four_bytes_def cont_byte_def Let_def by linarith

lemma width_cases:
  obtains "rune_width s = 1" "\<not> two_bytes s \<or> byte_at s 0 < (128 :: nat)"
  | "rune_width s = 2" "two_bytes s" | "rune_width s = 3" "three_bytes s" | "rune_width s = 4" "four_bytes s"
  unfolding rune_width_eq by (metis (full_types))

lemma rune_width_le: "s \<noteq> [] \<Longrightarrow> rune_width s \<le> length s"
  by (rule width_cases [of s]) (auto dest: two_bytesD three_bytesD four_bytesD simp: Suc_le_eq)

lemma wide_first: "1 < rune_width s \<Longrightarrow> 194 \<le> (byte_at s 0 :: nat)"
  by (rule width_cases [of s]) (auto dest: two_bytesD three_bytesD four_bytesD)

lemma less_width: "k < n \<Longrightarrow> 0 < k \<Longrightarrow> n \<le> 4 \<Longrightarrow> k = 1 \<or> k = 2 \<and> 3 \<le> n \<or> k = 3 \<and> n = (4 :: nat)"
  by linarith

lemma wide_rest: "k < rune_width s \<Longrightarrow> 0 < k \<Longrightarrow> 128 \<le> (byte_at s k :: nat)"
proof (rule width_cases [of s])
  assume k: "k < rune_width s" "0 < k"
  show ?thesis if "rune_width s = 1" using k that by simp
  show ?thesis if "rune_width s = 2" "two_bytes s"
  proof -
    have "k = 1" using k that(1) by linarith
    then show ?thesis using two_bytesD [OF that(2)] by simp
  qed
  show ?thesis if "rune_width s = 3" "three_bytes s"
  proof -
    have "k = 1 \<or> k = 2" using k that(1) by linarith
    then show ?thesis using three_bytesD [OF that(2)] by auto
  qed
  show ?thesis if "rune_width s = 4" "four_bytes s"
  proof -
    have "k = 1 \<or> k = 2 \<or> k = 3" using k that(1) by linarith
    then show ?thesis using four_bytesD [OF that(2)] by auto
  qed
qed

lemma cont_same: "k < length t \<Longrightarrow> k < length s \<Longrightarrow> t ! k = s ! k \<Longrightarrow> cont_byte t k = cont_byte s k"
  by (simp add: cont_byte_def fun_eq_iff)

lemma bytes_local:
  "(\<And>k. k < 2 \<Longrightarrow> k < length t \<and> t ! k = s ! k) \<Longrightarrow> two_bytes s \<Longrightarrow> two_bytes t"
  "(\<And>k. k < 3 \<Longrightarrow> k < length t \<and> t ! k = s ! k) \<Longrightarrow> three_bytes s \<Longrightarrow> three_bytes t"
  "(\<And>k. k < 4 \<Longrightarrow> k < length t \<and> t ! k = s ! k) \<Longrightarrow> four_bytes s \<Longrightarrow> four_bytes t"
proof -
  show "two_bytes t" if a: "\<And>k. k < 2 \<Longrightarrow> k < length t \<and> t ! k = s ! k" "two_bytes s"
  proof -
    have "cont_byte t 1 = cont_byte s 1" by (rule cont_same) (use a two_bytesD [OF a(2)] in simp_all)
    then show ?thesis using a(1) [of 0] a(2) unfolding two_bytes_def by simp
  qed
  show "three_bytes t" if a: "\<And>k. k < 3 \<Longrightarrow> k < length t \<and> t ! k = s ! k" "three_bytes s"
  proof -
    have c: "cont_byte t 1 = cont_byte s 1" "cont_byte t 2 = cont_byte s 2"
      by (rule cont_same; use a three_bytesD [OF a(2)] in simp)+
    have b: "t ! 0 = s ! 0" using a(1) [of 0] by simp
    show ?thesis using a(2) unfolding three_bytes_def c b .
  qed
  show "four_bytes t" if a: "\<And>k. k < 4 \<Longrightarrow> k < length t \<and> t ! k = s ! k" "four_bytes s"
  proof -
    have c: "cont_byte t 1 = cont_byte s 1" "cont_byte t 2 = cont_byte s 2" "cont_byte t 3 = cont_byte s 3"
      by (rule cont_same; use a four_bytesD [OF a(2)] in simp)+
    have b: "t ! 0 = s ! 0" using a(1) [of 0] by simp
    show ?thesis using a(2) unfolding four_bytes_def c b .
  qed
qed

lemma rune_width_local:
  assumes "\<And>k. k < rune_width s \<Longrightarrow> k < length t \<and> t ! k = s ! k" and "1 < rune_width s \<or> byte_at s 0 < (128 :: nat)"
  shows "rune_width t = rune_width s"
proof -
  have b: "byte_at t 0 = (byte_at s 0 :: nat)" using assms(1) [of 0] rune_width_pos [of s] by simp
  show ?thesis
  proof (rule width_cases [of s])
    show ?thesis if "rune_width s = 1" using assms(2) that by (simp add: rune_width_eq [of t] b)
    show ?thesis if w: "rune_width s = 2" "two_bytes s"
      using bytes_local(1) [of t s] assms(1) w two_bytesD [OF w(2)] by (simp add: rune_width_eq [of t] b)
    show ?thesis if w: "rune_width s = 3" "three_bytes s"
    proof -
      have "three_bytes t" "\<not> two_bytes t" using bytes_local(2) [of t s] assms(1) w three_bytesD [OF w(2)] two_bytesD [of t] b by auto
      then show ?thesis using three_bytesD [OF w(2)] by (simp add: rune_width_eq [of t] b w(1))
    qed
    show ?thesis if w: "rune_width s = 4" "four_bytes s"
    proof -
      have "four_bytes t" "\<not> two_bytes t" "\<not> three_bytes t"
        using bytes_local(3) [of t s] assms(1) w four_bytesD [OF w(2)] two_bytesD [of t] three_bytesD [of t] b by auto
      then show ?thesis using four_bytesD [OF w(2)] by (simp add: rune_width_eq [of t] b w(1))
    qed
  qed
qed

lemma whole_first: "whole r \<Longrightarrow> rune_width (r @ s) = length r"
proof -
  assume r: "whole r"
  have "length r = 1 \<or> 1 < length r" using r by (cases r) (auto simp: whole_def)
  then have len: "rune_width r = length r" and "1 < rune_width r \<or> byte_at r 0 < (128 :: nat)"
    using r by (auto simp: whole_def)
  from rune_width_local [OF _ this(2), of "r @ s"] show ?thesis using len by (simp add: nth_append)
qed

lemma runes_whole: "list_all whole rs \<Longrightarrow> runes (concat rs) = rs"
proof (induction rs)
  case (Cons r rs)
  then have "whole r" by simp
  then show ?case using Cons whole_first [of r "concat rs"] by (subst runes.simps) (auto simp: whole_def)
qed simp

lemma replacement_whole: "whole replacement"
  by (simp add: whole_def replacement_def rune_width_def Let_def cont_byte_def)

lemma ellipsis_whole: "whole ellipsis"
  by (simp add: whole_def ellipsis_def rune_width_def Let_def cont_byte_def)

lemma rune_text_whole: "r \<in> set (runes s) \<Longrightarrow> whole (rune_text r)"
proof (induction s rule: runes.induct)
  case (1 s)
  show ?case
  proof (cases "s = []")
    case True
    then show ?thesis using 1(2) by simp
  next
    case False
    let ?r = "take (rune_width s) s"
    from 1(2) False consider "r = ?r" | "r \<in> set (runes (drop (rune_width s) s))" by (subst (asm) runes.simps) auto
    then show ?thesis
    proof cases
      case r: 1
      have len: "length ?r = rune_width s" using rune_width_le [OF False] by simp
      have "rune_width ?r = rune_width s" if "1 < rune_width s \<or> byte_at s 0 < (128 :: nat)"
        by (rule rune_width_local [OF _ that]) (use len in simp)
      then show ?thesis
        using len False replacement_whole rune_width_pos [of s] unfolding r rune_text_def by (auto simp: whole_def not_less)
    next
      case 2
      then show ?thesis using 1(1) False by blast
    qed
  qed
qed

section \<open>Cutting at ASCII characters\<close>

lemma whole_ascii: "whole r \<Longrightarrow> ch \<in> set r \<Longrightarrow> (of_char ch :: nat) < 128 \<Longrightarrow> r = [ch]"
proof -
  assume r: "whole r" and ch: "ch \<in> set r" "(of_char ch :: nat) < 128"
  then obtain k where k: "k < length r" "r ! k = ch" by (auto simp: in_set_conv_nth)
  have "k = 0" using wide_rest [of k r] k r ch by (auto simp: whole_def)
  moreover from this have "\<not> 1 < rune_width r" using wide_first [of r] k ch by auto
  ultimately show "r = [ch]" using r k by (cases r) (auto simp: whole_def)
qed

lemma cut_whole: "list_all whole rs \<Longrightarrow> concat rs = a @ ch # b \<Longrightarrow> (of_char ch :: nat) < 128 \<Longrightarrow> \<exists>k \<le> length rs. a = concat (take k rs)"
proof (induction rs arbitrary: a)
  case (Cons r rs)
  show ?case
  proof (cases "length a < length r")
    case True
    then have "r ! length a = ch" using Cons.prems(2) by (metis concat.simps(2) nth_append nth_append_length)
    then have "ch \<in> set r" using True by (metis nth_mem)
    then have "r = [ch]" using whole_ascii Cons.prems(1,3) by simp
    then have "a = []" using True by simp
    then show ?thesis by (intro exI [of _ 0]) simp
  next
    case False
    then obtain a' where a': "a = r @ a'" using Cons.prems(2)
      by (metis append_eq_append_conv_if concat.simps(2) not_less append_take_drop_id)
    then have "concat rs = a' @ ch # b" using Cons.prems(2) by simp
    then obtain k where "k \<le> length rs" "a' = concat (take k rs)" using Cons.IH Cons.prems(1,3) by auto
    then show ?thesis using a' by (intro exI [of _ "Suc k"]) simp
  qed
qed simp

lemma trim_whole:
  assumes "list_all whole rs" and "\<And>ch. ch \<in> cs \<Longrightarrow> (of_char ch :: nat) < 128"
  shows "\<exists>k \<le> length rs. trim_right_of cs (concat rs) = concat (take k rs)"
proof -
  obtain z where z: "concat rs = trim_right_of cs (concat rs) @ z" using trim_right_prefix by (auto simp: prefix_def)
  show ?thesis
  proof (cases z)
    case Nil
    then show ?thesis using z by (intro exI [of _ "length rs"]) simp
  next
    case (Cons ch b)
    have "rev (concat rs) = takeWhile (\<lambda>x. x \<in> cs) (rev (concat rs)) @ dropWhile (\<lambda>x. x \<in> cs) (rev (concat rs))" by simp
    then have "concat rs = trim_right_of cs (concat rs) @ rev (takeWhile (\<lambda>x. x \<in> cs) (rev (concat rs)))"
      unfolding trim_right_of_def by (metis rev_append rev_rev_ident)
    then have "z = rev (takeWhile (\<lambda>x. x \<in> cs) (rev (concat rs)))" using z by (metis same_append_eq)
    then have "ch \<in> cs" using Cons by (metis list.set_intros(1) set_rev set_takeWhileD)
    then show ?thesis using cut_whole [OF assms(1)] assms(2) z Cons by metis
  qed
qed

lemma last_index_split: "last_index ch s = Some i \<Longrightarrow> \<exists>b. s = take i s @ ch # b"
proof -
  assume i: "last_index ch s = Some i"
  then have mem: "ch \<in> set (rev s)" and i: "i = length s - 1 - length (takeWhile (\<lambda>x. x \<noteq> ch) (rev s))"
    by (auto simp: last_index_def split: if_splits)
  let ?k = "length (takeWhile (\<lambda>x. x \<noteq> ch) (rev s))"
  have "dropWhile (\<lambda>x. x \<noteq> ch) (rev s) \<noteq> []" using mem by (auto simp: dropWhile_eq_Nil_conv)
  moreover have "length s = ?k + length (dropWhile (\<lambda>x. x \<noteq> ch) (rev s))" by (metis length_append length_rev takeWhile_dropWhile_id)
  ultimately have k: "?k < length s" by simp
  then have "rev s ! ?k = ch" using nth_length_takeWhile [of "\<lambda>x. x \<noteq> ch" "rev s"] by simp
  then have "s ! i = ch" using k by (simp add: rev_nth i)
  moreover have "i < length s" using k by (simp add: i)
  ultimately show ?thesis using id_take_nth_drop [of i s] by auto
qed

section \<open>The bound\<close>

lemma cut_excerpt_bound: "rune_count (cut_excerpt s) \<le> 161"
proof (cases "rune_count s \<le> 160")
  case True
  then show ?thesis by (simp add: cut_excerpt_def excerpt_runes_def)
next
  case False
  define rs where "rs = map rune_text (take 160 (runes s))"
  have r: "take_runes excerpt_runes s = concat rs" by (simp add: take_runes_def rs_def excerpt_runes_def)
  have w: "list_all whole rs" using rune_text_whole [of _ s] by (auto simp: rs_def list_all_iff dest: in_set_takeD)
  have n: "length rs \<le> 160" by (simp add: rs_def)
  have fin: "rune_count (concat (take k rs) @ ellipsis) \<le> 161" for k
  proof -
    have "list_all whole (take k rs @ [ellipsis])" using w ellipsis_whole by (auto simp: list_all_iff dest: in_set_takeD)
    from runes_whole [OF this] have "rune_count (concat (take k rs) @ ellipsis) = length (take k rs @ [ellipsis])" by (simp add: rune_count_def)
    then show ?thesis using n by simp
  qed
  have whole_text: "rune_count (concat rs @ ellipsis) \<le> 161" using fin [of "length rs"] by simp
  show ?thesis
  proof (cases "last_index (CHR '' '') (concat rs)")
    case None
    then show ?thesis using False whole_text by (simp add: cut_excerpt_def r) (simp add: excerpt_runes_def)
  next
    case (Some i)
    obtain b where b: "concat rs = take i (concat rs) @ CHR '' '' # b" using last_index_split [OF Some] by blast
    obtain k where k: "take i (concat rs) = concat (take k rs)" using cut_whole [OF w b] by auto
    have "list_all whole (take k rs)" using w by (auto simp: list_all_iff dest: in_set_takeD)
    moreover have "(of_char ch :: nat) < 128" if "ch \<in> set '' ,;:''" for ch
      using that by auto
    ultimately obtain m where "trim_right_of (set '' ,;:'') (concat (take k rs)) = concat (take m (take k rs))"
      using trim_whole by blast
    then have "rune_count (trim_right_of (set '' ,;:'') (take i (concat rs)) @ ellipsis) \<le> 161"
      using fin [of "min m k"] by (simp add: k)
    then show ?thesis using False whole_text Some by (simp add: cut_excerpt_def r [unfolded excerpt_runes_def] Let_def excerpt_runes_def)
  qed
qed

lemma first_paragraph_bound: "rune_count (first_paragraph ps) \<le> 161"
  by (induction ps rule: first_paragraph.induct) (auto simp: Let_def rune_count_def [of "[]"] cut_excerpt_bound)


end
