(* ===== verification/Limits.thy ===== *)
theory Limits
  imports Uuids GoStrings Errors
begin

text \<open>
  Rate limits (BR-014): the sliding window in Redis (internal/queue/redis.go), the per-process windows used
  while Redis is down and the rules of both APIs (internal/ratelimit, internal/http/ratelimit.go,
  internal/storefront/limits.go). Redis is its sorted sets: members with scores, and when a key expires on
  Redis's own clock. The script runs atomically, so a call is one step on the shared sets.
\<close>

section \<open>The sliding window\<close>

text \<open>A sorted set in the order its members came; the script asks it only for its size and its least score.\<close>

type_synonym zset = "(string \<times> int) list"

record redis_entry =
  re_set :: zset
  re_expires :: int

type_synonym redis = "string \<Rightarrow> redis_entry option"

definition live_set :: "int \<Rightarrow> redis \<Rightarrow> string \<Rightarrow> zset" where
  "live_set rt r k = (case r k of None \<Rightarrow> [] | Some e \<Rightarrow> if re_expires e \<le> rt then [] else re_set e)"

definition zrem_upto :: "int \<Rightarrow> zset \<Rightarrow> zset" where
  "zrem_upto b z = filter (\<lambda>(_, sc). b < sc) z"

definition zadd :: "string \<Rightarrow> int \<Rightarrow> zset \<Rightarrow> zset" where
  "zadd m sc z = filter (\<lambda>(m', _). m' \<noteq> m) z @ [(m, sc)]"

definition oldest_score :: "int \<Rightarrow> zset \<Rightarrow> int" where
  "oldest_score now z = (case map snd z of [] \<Rightarrow> now | x # xs \<Rightarrow> fold min xs x)"

text \<open>The Lua script; \<open>rt\<close> is Redis's clock and \<open>now\<close> the caller's, both in milliseconds.\<close>

definition sliding_script :: "int \<Rightarrow> string \<Rightarrow> int \<Rightarrow> int \<Rightarrow> int \<Rightarrow> string \<Rightarrow> redis \<Rightarrow> (bool \<times> int \<times> int) \<times> redis" where
  "sliding_script rt k now window limit member r =
    (let z = zrem_upto (now - window) (live_set rt r k);
         allowed = int (length z) < limit;
         z' = (if allowed then zadd member now z else z);
         count = (if allowed then int (length z) + 1 else int (length z));
         r' = (if z' = [] then r(k := None) else r(k \<mapsto> \<lparr>re_set = z', re_expires = rt + window\<rparr>))
     in ((allowed, count, oldest_score now z'), r'))"

definition unix_milli :: "instant \<Rightarrow> int" where
  "unix_milli t = t div 1000000"

text \<open>What one call reads: the caller's clock, Redis's, the member's fresh id, and whether Redis answers.\<close>

record tick =
  tk_now :: instant
  tk_redis :: int
  tk_member :: string
  tk_up :: bool
  tk_local :: instant

definition sliding_window :: "tick \<Rightarrow> string \<Rightarrow> int \<Rightarrow> int \<Rightarrow> redis \<Rightarrow> (bool \<times> int \<times> int) option \<times> redis" where
  "sliding_window k key limit window r =
    (if \<not> tk_up k then (None, r)
     else (case sliding_script (tk_redis k) key (unix_milli (tk_now k)) (window div 1000000) limit (tk_member k) r of
       ((allowed, count, oldest), r') \<Rightarrow> (Some (allowed, count, oldest * 1000000 + window - tk_now k), r')))"

section \<open>The fallback\<close>

record local_window =
  lw_start :: instant
  lw_count :: int

type_synonym local_windows = "string \<Rightarrow> local_window option"

definition local_hit :: "string \<Rightarrow> int \<Rightarrow> int \<Rightarrow> instant \<Rightarrow> local_windows \<Rightarrow> (bool \<times> int \<times> int) \<times> local_windows" where
  "local_hit key limit window now h =
    (let w = (case h key of Some w \<Rightarrow> if window \<le> now - lw_start w then \<lparr>lw_start = now, lw_count = 0\<rparr> else w
              | None \<Rightarrow> \<lparr>lw_start = now, lw_count = 0\<rparr>);
         reset = lw_start w + window - now
     in if limit \<le> lw_count w then ((False, lw_count w, reset), h(key \<mapsto> w))
        else ((True, lw_count w + 1, reset), h(key \<mapsto> w\<lparr>lw_count := lw_count w + 1\<rparr>)))"

section \<open>Checking the rules of a request\<close>

record limit_rule =
  lr_key :: string
  lr_limit :: int
  lr_window :: int

record limit_result =
  ls_allowed :: bool
  ls_limit :: int
  ls_remaining :: int
  ls_reset :: int

record limiter =
  lm_redis :: redis
  lm_local :: local_windows

definition count_hit :: "tick \<Rightarrow> limit_rule \<Rightarrow> limiter \<Rightarrow> (bool \<times> int \<times> int) \<times> limiter" where
  "count_hit k r l = (case sliding_window k (lr_key r) (lr_limit r) (lr_window r) (lm_redis l) of
      (Some a, rd) \<Rightarrow> (a, l\<lparr>lm_redis := rd\<rparr>)
    | (None, rd) \<Rightarrow> (case local_hit (lr_key r) (lr_limit r) (lr_window r) (tk_local k) (lm_local l) of
        (a, lo) \<Rightarrow> (a, l\<lparr>lm_redis := rd, lm_local := lo\<rparr>)))"

definition max_int :: int where
  "max_int = 2 ^ 63 - 1"

definition tighter :: "limit_rule \<Rightarrow> bool \<times> int \<times> int \<Rightarrow> limit_result \<Rightarrow> limit_result" where
  "tighter r a res = (case a of (allowed, count, reset) \<Rightarrow>
     (let remaining = max (lr_limit r - count) 0;
          res' = (if \<not> allowed \<or> remaining < ls_remaining res
                  then res\<lparr>ls_limit := lr_limit r, ls_remaining := remaining, ls_reset := reset\<rparr> else res)
      in res'\<lparr>ls_allowed := ls_allowed res \<and> allowed\<rparr>))"

definition no_result :: limit_result where
  "no_result = \<lparr>ls_allowed = True, ls_limit = 0, ls_remaining = max_int, ls_reset = 0\<rparr>"

fun check_rules :: "(tick \<times> limit_rule) list \<Rightarrow> limit_result \<Rightarrow> limiter \<Rightarrow> limit_result \<times> limiter" where
  "check_rules [] res l = (res, l)"
| "check_rules ((k, r) # rs) res l = (case count_hit k r l of (a, l') \<Rightarrow> check_rules rs (tighter r a res) l')"

definition check_op :: "(tick \<times> limit_rule) list \<Rightarrow> limiter \<Rightarrow> limit_result \<times> limiter" where
  "check_op rs l = check_rules rs no_result l"

text \<open>The headers, in the order they are set. The seconds left are rounded up to at least one.\<close>

definition reset_seconds :: "int \<Rightarrow> int" where
  "reset_seconds d = max (- ((- d) div 1000000000)) 1"

definition limit_headers :: "limit_result \<Rightarrow> (string \<times> int) list" where
  "limit_headers r = (if ls_limit r = 0 then []
     else [(''RateLimit-Limit'', ls_limit r), (''RateLimit-Remaining'', ls_remaining r), (''RateLimit-Reset'', reset_seconds (ls_reset r))]
       @ (if ls_allowed r then [] else [(''Retry-After'', reset_seconds (ls_reset r))]))"

section \<open>The rules\<close>

definition login_per_email :: int where "login_per_email = 10"
definition login_per_ip :: int where "login_per_ip = 30"
definition login_window :: int where "login_window = minutes 15"
definition admin_rate_limit :: int where "admin_rate_limit = 100"
definition admin_rate_window :: int where "admin_rate_window = minutes 1"
definition browser_per_ip :: int where "browser_per_ip = 120"
definition browser_per_key :: int where "browser_per_key = 3000"
definition server_per_key :: int where "server_per_key = 600"
definition checkout_per_ip :: int where "checkout_per_ip = 10"

definition rule_of :: "string \<Rightarrow> int \<Rightarrow> int \<Rightarrow> limit_rule" where
  "rule_of k n w = \<lparr>lr_key = k, lr_limit = n, lr_window = w\<rparr>"

definition login_rules :: "string \<Rightarrow> string \<Rightarrow> string \<Rightarrow> limit_rule list" where
  "login_rules scope email ip = [rule_of (''rl:login:email:'' @ scope @ '':'' @ email) login_per_email login_window,
     rule_of (''rl:login:ip:'' @ ip) login_per_ip login_window]"

definition admin_rule :: "uuid \<Rightarrow> limit_rule" where
  "admin_rule u = rule_of (''rl:admin:user:'' @ uuid_string u) admin_rate_limit admin_rate_window"

text \<open>The API key a storefront request came in with (\<open>storefront.Key\<close>).\<close>

record shop_key =
  sk_id :: uuid
  sk_origin :: string
  sk_browser :: bool

definition storefront_rules :: "shop_key \<Rightarrow> string \<Rightarrow> string \<Rightarrow> string \<Rightarrow> limit_rule list" where
  "storefront_rules key ip meth path =
    (if sk_browser key
     then [rule_of (''rl:sf:ip:'' @ ip) browser_per_ip (minutes 1), rule_of (''rl:sf:key:'' @ uuid_string (sk_id key)) browser_per_key (minutes 1)]
     else [rule_of (''rl:sf:srv:'' @ uuid_string (sk_id key) @ '':'' @ ip) server_per_key (minutes 1)])
    @ (if meth = ''POST'' \<and> suffix ''/checkout'' path then [rule_of (''rl:sf:checkout:'' @ ip) checkout_per_ip (minutes 1)] else [])"

text \<open>\<open>lower\<close> is \<open>strings.ToLower\<close>; an empty email leaves the rule of the address alone.\<close>

definition sign_in_rules :: "(string \<Rightarrow> string) \<Rightarrow> uuid \<Rightarrow> string \<Rightarrow> string \<Rightarrow> limit_rule list" where
  "sign_in_rules lower shop email ip =
    (let rules = login_rules (''shop:'' @ uuid_string shop) (lower (trim_space email)) ip
     in if email = [] then tl rules else rules)"

definition check_login_rules :: "(string \<Rightarrow> string) \<Rightarrow> string \<Rightarrow> string \<Rightarrow> string \<Rightarrow> limit_rule list" where
  "check_login_rules lower scope email ip = login_rules scope (lower (trim_space email)) ip"

definition check_login_ip_rules :: "string \<Rightarrow> limit_rule list" where
  "check_login_ip_rules ip = tl (login_rules [] [] ip)"

text \<open>A limited request: the headers it answers with and whether it goes on (\<open>None\<close>) or is refused. \<open>ks\<close> is what the call for each rule reads.\<close>

definition limited :: "(nat \<Rightarrow> tick) \<Rightarrow> limit_rule list \<Rightarrow> limiter \<Rightarrow> ((string \<times> int) list \<times> err option) \<times> limiter" where
  "limited ks rules l = (case check_op (zip (map ks [0..<length rules]) rules) l of (res, l') \<Rightarrow>
     ((limit_headers res, if ls_allowed res then None else Some rate_limited), l'))"

definition admin_limited :: "(nat \<Rightarrow> tick) \<Rightarrow> uuid option \<Rightarrow> limiter \<Rightarrow> ((string \<times> int) list \<times> err option) \<times> limiter" where
  "admin_limited ks actor l = (case actor of None \<Rightarrow> (([], None), l) | Some u \<Rightarrow> limited ks [admin_rule u] l)"

end
