(* ===== verification/LimitRuns.thy ===== *)
theory LimitRuns
  imports Limits
begin

text \<open>
  What the limits promise: the sorted sets admit exactly what a log of every admitted hit would, so no trailing
  window ever holds more hits than its limit; the fallback at most doubles it; and no two callers share a counter.
\<close>

section \<open>The script and the log of everything admitted\<close>

text \<open>A call is what it read and the rule it counts against. Its time is the caller's clock in milliseconds.\<close>

type_synonym call = "tick \<times> limit_rule"

definition ca_time :: "call \<Rightarrow> int" where "ca_time c = unix_milli (tk_now (fst c))"
definition ca_key :: "call \<Rightarrow> string" where "ca_key c = lr_key (snd c)"
definition ca_limit :: "call \<Rightarrow> int" where "ca_limit c = lr_limit (snd c)"
definition ca_window :: "call \<Rightarrow> int" where "ca_window c = lr_window (snd c) div 1000000"
definition ca_member :: "call \<Rightarrow> string" where "ca_member c = tk_member (fst c)"

definition call_step :: "call \<Rightarrow> redis \<Rightarrow> bool \<times> redis" where
  "call_step c r = (case sliding_window (fst c) (ca_key c) (ca_limit c) (lr_window (snd c)) r of
     (Some (ok, _), r') \<Rightarrow> (ok, r') | (None, r') \<Rightarrow> (False, r'))"

fun admitted :: "call list \<Rightarrow> redis \<Rightarrow> call list" where
  "admitted [] r = []"
| "admitted (c # cs) r = (case call_step c r of (ok, r') \<Rightarrow> (if ok then [c] else []) @ admitted cs r')"

text \<open>The reference: a log of every admitted call, and how many of a key are younger than a window.\<close>

definition recent :: "call list \<Rightarrow> string \<Rightarrow> int \<Rightarrow> int \<Rightarrow> call list" where
  "recent lg k w t = filter (\<lambda>d. ca_key d = k \<and> t - w < ca_time d \<and> ca_time d \<le> t) lg"

fun log_admits :: "call list \<Rightarrow> call list \<Rightarrow> call list" where
  "log_admits [] lg = []"
| "log_admits (c # cs) lg =
    (if int (length (recent lg (ca_key c) (ca_window c) (ca_time c))) < ca_limit c
     then c # log_admits cs (lg @ [c]) else log_admits cs lg)"

text \<open>The shared clock, fresh members, and one window and limit per key.\<close>

definition same_rules :: "(string \<Rightarrow> int) \<Rightarrow> (string \<Rightarrow> int) \<Rightarrow> call list \<Rightarrow> bool" where
  "same_rules win lim cs \<longleftrightarrow> (\<forall>c \<in> set cs. ca_window c = win (ca_key c) \<and> ca_limit c = lim (ca_key c)
     \<and> 0 < ca_window c \<and> tk_up (fst c) \<and> tk_redis (fst c) = ca_time c)"

definition in_order :: "call list \<Rightarrow> bool" where
  "in_order cs \<longleftrightarrow> sorted (map ca_time cs)"

definition key_set :: "redis \<Rightarrow> string \<Rightarrow> zset" where
  "key_set r k = (case r k of None \<Rightarrow> [] | Some e \<Rightarrow> re_set e)"

definition key_times :: "call list \<Rightarrow> string \<Rightarrow> int list" where
  "key_times lg k = map ca_time (filter (\<lambda>d. ca_key d = k) lg)"

text \<open>The sorted sets hold what the log does, as far as the windows still reach.\<close>

definition in_step :: "(string \<Rightarrow> int) \<Rightarrow> int \<Rightarrow> call list \<Rightarrow> redis \<Rightarrow> bool" where
  "in_step win n lg r \<longleftrightarrow>
    (\<forall>k. filter (\<lambda>x. n - win k < x) (map snd (key_set r k)) = filter (\<lambda>x. n - win k < x) (key_times lg k)) \<and>
    (\<forall>k e m x. r k = Some e \<longrightarrow> (m, x) \<in> set (re_set e) \<longrightarrow> x \<le> re_expires e - win k) \<and>
    (\<forall>k m x. (m, x) \<in> set (key_set r k) \<longrightarrow> m \<in> ca_member ` set lg) \<and>
    (\<forall>d \<in> set lg. ca_time d \<le> n)"

lemma in_stepD:
  assumes "in_step win n lg r"
  shows in_step_times: "filter (\<lambda>x. n - win k < x) (map snd (key_set r k)) = filter (\<lambda>x. n - win k < x) (key_times lg k)"
    and in_step_expires: "r k = Some e \<Longrightarrow> (m, x) \<in> set (re_set e) \<Longrightarrow> x \<le> re_expires e - win k"
    and in_step_members: "(m, x) \<in> set (key_set r k) \<Longrightarrow> m \<in> ca_member ` set lg"
    and in_step_past: "d \<in> set lg \<Longrightarrow> ca_time d \<le> n"
  using assms unfolding in_step_def by blast+

lemma filter_later:
  assumes "filter (\<lambda>x. a < x) xs = filter (\<lambda>x. a < x) ys" "a \<le> (b::int)"
  shows "filter (\<lambda>x. b < x) xs = filter (\<lambda>x. b < x) ys"
proof -
  have "filter (\<lambda>x. b < x) zs = filter (\<lambda>x. b < x) (filter (\<lambda>x. a < x) zs)" for zs
    using assms(2) by (induction zs) auto
  then show ?thesis using assms(1) by metis
qed

lemma map_snd_zrem: "map snd (zrem_upto b z) = filter (\<lambda>x. b < x) (map snd z)"
  by (induction z) (auto simp: zrem_upto_def)

text \<open>A key that has expired held only hits no window reaches.\<close>

lemma live_times:
  assumes "in_step win n lg r" "n \<le> t"
  shows "map snd (zrem_upto (t - win k) (live_set t r k)) = filter (\<lambda>x. t - win k < x) (key_times lg k)"
proof -
  have "zrem_upto (t - win k) (live_set t r k) = zrem_upto (t - win k) (key_set r k)"
  proof (cases "r k")
    case (Some e)
    show ?thesis
    proof (cases "re_expires e \<le> t")
      case True
      have "x \<le> t - win k" if "(m, x) \<in> set (re_set e)" for m x
        using in_step_expires [OF assms(1) Some that] True by simp
      then have "zrem_upto (t - win k) (re_set e) = []" by (fastforce simp: zrem_upto_def filter_empty_conv)
      then show ?thesis using Some True by (simp add: live_set_def key_set_def zrem_upto_def)
    qed (simp add: live_set_def key_set_def Some)
  qed (simp add: live_set_def key_set_def)
  then show ?thesis
    using filter_later [OF in_step_times [OF assms(1)], where b = "t - win k"] assms(2) by (simp add: map_snd_zrem)
qed

lemma recent_times:
  assumes "\<And>d. d \<in> set lg \<Longrightarrow> ca_time d \<le> t"
  shows "map ca_time (recent lg k w t) = filter (\<lambda>x. t - w < x) (key_times lg k)"
  using assms by (induction lg) (auto simp: recent_def key_times_def)

lemma call_step_eval:
  assumes "tk_up (fst c)" "tk_redis (fst c) = ca_time c"
  shows "call_step c r = (let z = zrem_upto (ca_time c - ca_window c) (live_set (ca_time c) r (ca_key c));
      ok = int (length z) < ca_limit c; z' = (if ok then zadd (ca_member c) (ca_time c) z else z)
    in (ok, if z' = [] then r(ca_key c := None) else r(ca_key c \<mapsto> \<lparr>re_set = z', re_expires = ca_time c + ca_window c\<rparr>)))"
  using assms by (auto simp: call_step_def sliding_window_def sliding_script_def ca_time_def ca_window_def ca_limit_def
      ca_member_def Let_def zadd_def split: prod.splits if_splits)

text \<open>One call: it is let through as the log would, and the sets stay in step with the log.\<close>

lemma zadd_fresh: "m \<notin> fst ` set z \<Longrightarrow> zadd m x z = z @ [(m, x)]"
  by (induction z) (auto simp: zadd_def)

lemma key_times_snoc: "key_times (lg @ [c]) k = key_times lg k @ (if ca_key c = k then [ca_time c] else [])"
  by (simp add: key_times_def)

lemma call_in_step:
  assumes i: "in_step win n lg r" and n: "n \<le> ca_time c" and w: "ca_window c = win (ca_key c)" "0 < ca_window c"
    and up: "tk_up (fst c)" "tk_redis (fst c) = ca_time c" and m: "ca_member c \<notin> ca_member ` set lg"
  obtains r' where "call_step c r = (int (length (recent lg (ca_key c) (ca_window c) (ca_time c))) < ca_limit c, r')"
    "in_step win (ca_time c)
       (if int (length (recent lg (ca_key c) (ca_window c) (ca_time c))) < ca_limit c then lg @ [c] else lg) r'"
proof -
  define t where "t = ca_time c"
  define k where "k = ca_key c"
  define z where "z = zrem_upto (t - win k) (live_set t r k)"
  define ok where "ok \<longleftrightarrow> int (length (recent lg k (win k) t)) < ca_limit c"
  define z' where "z' = (if ok then z @ [(ca_member c, t)] else z)"
  define r' where "r' = (if z' = [] then r(k := None) else r(k \<mapsto> \<lparr>re_set = z', re_expires = t + win k\<rparr>))"
  have nt: "n \<le> t" and wk: "0 < win k" using n w by (simp_all add: t_def k_def)
  have zt: "map snd z = filter (\<lambda>x. t - win k < x) (key_times lg k)"
    unfolding z_def by (rule live_times [OF i nt])
  have past: "ca_time d \<le> t" if "d \<in> set lg" for d using in_step_past [OF i that] nt by simp
  have len: "length z = length (recent lg k (win k) t)"
    using arg_cong [OF zt, of length] arg_cong [OF recent_times [of lg t k "win k", OF past], of length] by simp
  have sub: "set z \<subseteq> set (key_set r k)"
    by (auto simp: z_def zrem_upto_def live_set_def key_set_def split: option.splits if_splits)
  have zm: "ca_member c \<notin> fst ` set z"
    using m sub in_step_members [OF i] by fastforce
  have step: "call_step c r = (ok, r')"
    using call_step_eval [OF up, of r] w
    by (auto simp: Let_def ok_def len [symmetric] z'_def r'_def z_def [symmetric] t_def [symmetric] k_def [symmetric] zadd_fresh [OF zm])
  have ks: "key_set r' k' = (if k' = k then z' else key_set r k')" for k'
    by (simp add: r'_def key_set_def)
  have zt': "map snd z' = filter (\<lambda>x. t - win k < x) (key_times (if ok then lg @ [c] else lg) k)"
    using zt wk by (simp add: z'_def key_times_snoc t_def k_def)
  have pasts: "\<forall>d \<in> set (if ok then lg @ [c] else lg). ca_time d \<le> t" using past by (auto simp: t_def)
  have "in_step win t (if ok then lg @ [c] else lg) r'"
    unfolding in_step_def
  proof (intro conjI allI impI ballI)
    fix k'
    show "filter (\<lambda>x. t - win k' < x) (map snd (key_set r' k')) =
        filter (\<lambda>x. t - win k' < x) (key_times (if ok then lg @ [c] else lg) k')"
    proof (cases "k' = k")
      case True
      then show ?thesis using zt' by (simp add: ks)
    next
      case False
      then have "key_times (if ok then lg @ [c] else lg) k' = key_times lg k'" by (simp add: key_times_snoc k_def)
      then show ?thesis
        using filter_later [OF in_step_times [OF i, of k'], of "t - win k'"] nt False by (simp add: ks)
    qed
  next
    fix k' e m' x
    assume e: "r' k' = Some e" and x: "(m', x) \<in> set (re_set e)"
    show "x \<le> re_expires e - win k'"
    proof (cases "k' = k")
      case True
      then have "e = \<lparr>re_set = z', re_expires = t + win k\<rparr>" using e by (simp add: r'_def split: if_splits)
      moreover have "x \<in> set (map snd z')" using x calculation by force
      then have "x \<in> set (key_times (if ok then lg @ [c] else lg) k)" by (simp only: zt' set_filter mem_Collect_eq)
      then have "x \<le> t" using pasts by (auto simp: key_times_def)
      ultimately show ?thesis using True by simp
    next
      case False
      then have "r k' = Some e" using e by (simp add: r'_def split: if_splits)
      then show ?thesis using in_step_expires [OF i _ x] by simp
    qed
  next
    fix k' m' x
    assume "(m', x) \<in> set (key_set r' k')"
    then show "m' \<in> ca_member ` set (if ok then lg @ [c] else lg)"
      using sub in_step_members [OF i] by (fastforce simp: ks z'_def split: if_splits)
  next
    fix d
    assume "d \<in> set (if ok then lg @ [c] else lg)"
    then show "ca_time d \<le> t" using pasts by blast
  qed
  then show ?thesis
    using that [of r'] step w by (simp add: ok_def t_def k_def)
qed

lemma same_rules_Cons: "same_rules win lim (c # cs) \<longleftrightarrow> (ca_window c = win (ca_key c) \<and> ca_limit c = lim (ca_key c)
     \<and> 0 < ca_window c \<and> tk_up (fst c) \<and> tk_redis (fst c) = ca_time c) \<and> same_rules win lim cs"
  by (simp add: same_rules_def)

lemma in_order_Cons: "in_order (c # cs) \<longleftrightarrow> (\<forall>d \<in> set cs. ca_time c \<le> ca_time d) \<and> in_order cs"
  by (simp add: in_order_def)

lemma in_step_empty: "in_step win n [] (\<lambda>_. None)"
  by (simp add: in_step_def key_set_def key_times_def)

lemma admitted_log:
  assumes "in_step win n lg r" "in_order cs" "\<forall>c \<in> set cs. n \<le> ca_time c" "same_rules win lim cs"
    "distinct (map ca_member cs)" "set (map ca_member cs) \<inter> ca_member ` set lg = {}"
  shows "admitted cs r = log_admits cs lg"
  using assms
proof (induction cs arbitrary: n lg r)
  case (Cons c cs)
  let ?ok = "int (length (recent lg (ca_key c) (ca_window c) (ca_time c))) < ca_limit c"
  have c: "n \<le> ca_time c" "ca_window c = win (ca_key c)" "0 < ca_window c" "tk_up (fst c)" "tk_redis (fst c) = ca_time c"
      "ca_member c \<notin> ca_member ` set lg"
    using Cons.prems by (auto simp: same_rules_Cons)
  obtain r' where s: "call_step c r = (?ok, r')" and i: "in_step win (ca_time c) (if ?ok then lg @ [c] else lg) r'"
    using call_in_step [OF Cons.prems(1) c] by blast
  have "admitted cs r' = log_admits cs (if ?ok then lg @ [c] else lg)"
    by (rule Cons.IH [OF i]) (use Cons.prems in \<open>auto simp: in_order_Cons same_rules_Cons\<close>)
  then show ?case using s by simp
qed simp

text \<open>The log never holds more than the limit in a window.\<close>

definition within_limits :: "(string \<Rightarrow> int) \<Rightarrow> (string \<Rightarrow> int) \<Rightarrow> call list \<Rightarrow> bool" where
  "within_limits win lim lg \<longleftrightarrow> (\<forall>k t. int (length (recent lg k (win k) t)) \<le> lim k)"

lemma recent_snoc: "recent (lg @ [c]) k w t = recent lg k w t @ (if ca_key c = k \<and> t - w < ca_time c \<and> ca_time c \<le> t then [c] else [])"
  by (simp add: recent_def)

lemma recent_fewer:
  assumes "t \<le> t'" "\<forall>d \<in> set lg. ca_time d \<le> t"
  shows "length (recent lg k w t') \<le> length (recent lg k w t)"
  using assms by (induction lg) (auto simp: recent_def)

lemma within_limits_snoc:
  assumes "within_limits win lim lg" "\<forall>d \<in> set lg. ca_time d \<le> ca_time c"
    "int (length (recent lg (ca_key c) (win (ca_key c)) (ca_time c))) < lim (ca_key c)"
  shows "within_limits win lim (lg @ [c])"
  unfolding within_limits_def
proof (intro allI)
  fix k t
  have old: "int (length (recent lg k (win k) t)) \<le> lim k" using assms(1) by (simp add: within_limits_def)
  show "int (length (recent (lg @ [c]) k (win k) t)) \<le> lim k"
  proof (cases "ca_key c = k \<and> t - win k < ca_time c \<and> ca_time c \<le> t")
    case True
    then show ?thesis
      using recent_fewer [of "ca_time c" t lg k "win k"] assms(2,3) by (auto simp: recent_snoc)
  next
    case False
    then have "recent (lg @ [c]) k (win k) t = recent lg k (win k) t" by (simp only: recent_snoc if_False append_Nil2)
    then show ?thesis using old by simp
  qed
qed

lemma log_within_limits:
  assumes "within_limits win lim lg" "\<forall>d \<in> set lg. \<forall>c \<in> set cs. ca_time d \<le> ca_time c" "in_order cs" "same_rules win lim cs"
  shows "within_limits win lim (lg @ log_admits cs lg)"
  using assms
proof (induction cs arbitrary: lg)
  case (Cons c cs)
  have c: "ca_window c = win (ca_key c)" "ca_limit c = lim (ca_key c)" using Cons.prems by (auto simp: same_rules_Cons)
  show ?case
  proof (cases "int (length (recent lg (ca_key c) (ca_window c) (ca_time c))) < ca_limit c")
    case True
    then have "within_limits win lim (lg @ [c])" using within_limits_snoc Cons.prems c by simp
    from Cons.IH [OF this] show ?thesis using True Cons.prems by (auto simp: in_order_Cons same_rules_Cons)
  next
    case False
    then show ?thesis using Cons.IH [of lg] Cons.prems by (auto simp: in_order_Cons same_rules_Cons)
  qed
qed simp


section \<open>The fallback while Redis is down\<close>

fun local_admitted :: "string \<Rightarrow> int \<Rightarrow> int \<Rightarrow> instant list \<Rightarrow> local_windows \<Rightarrow> instant list" where
  "local_admitted key limit window [] h = []"
| "local_admitted key limit window (now # ts) h = (case local_hit key limit window now h of
     ((ok, _), h') \<Rightarrow> (if ok then [now] else []) @ local_admitted key limit window ts h')"

definition spanned :: "int \<Rightarrow> instant \<Rightarrow> instant list \<Rightarrow> instant list" where
  "spanned window t xs = filter (\<lambda>x. t - window < x \<and> x \<le> t) xs"

text \<open>Of what was admitted so far, the current window has counted what came since its start, and what came before
  fills no span of a window's length with more than the limit.\<close>

definition counted :: "int \<Rightarrow> int \<Rightarrow> instant list \<Rightarrow> local_window \<Rightarrow> bool" where
  "counted limit window xs w \<longleftrightarrow> int (length (filter (\<lambda>x. lw_start w \<le> x) xs)) \<le> lw_count w \<and> lw_count w \<le> limit \<and>
     (\<forall>x \<in> set xs. x < lw_start w + window) \<and>
     (\<forall>t \<ge> lw_start w. int (length (filter (\<lambda>x. t - window < x \<and> x < lw_start w) xs)) \<le> limit)"

lemma filter_part: "(\<And>x. P x \<Longrightarrow> Q x \<or> R x) \<Longrightarrow> length (filter P xs) \<le> length (filter Q xs) + length (filter R xs)"
  by (induction xs) (auto simp: le_SucI)

lemma filter_fewer: "(\<And>x. x \<in> set xs \<Longrightarrow> P x \<Longrightarrow> Q x) \<Longrightarrow> length (filter P xs) \<le> length (filter Q xs)"
  by (induction xs) (auto simp: le_SucI)

lemma counted_spans:
  assumes "counted limit window xs w" "lw_start w \<le> t"
  shows "int (length (spanned window t xs)) \<le> 2 * limit"
proof -
  have "length (spanned window t xs) \<le> length (filter (\<lambda>x. t - window < x \<and> x < lw_start w) xs)
      + length (filter (\<lambda>x. lw_start w \<le> x) xs)"
    unfolding spanned_def by (rule filter_part) auto
  then show ?thesis using assms unfolding counted_def by fastforce
qed

text \<open>A hit opens a window when there is none or it is over, and counts in the one there is.\<close>

definition window_for :: "int \<Rightarrow> instant \<Rightarrow> local_window option \<Rightarrow> local_window" where
  "window_for window now x = (case x of Some w \<Rightarrow> if window \<le> now - lw_start w then \<lparr>lw_start = now, lw_count = 0\<rparr> else w
     | None \<Rightarrow> \<lparr>lw_start = now, lw_count = 0\<rparr>)"

lemma local_hit_eval: "local_hit key limit window now h = (let w = window_for window now (h key) in
    if limit \<le> lw_count w then ((False, lw_count w, lw_start w + window - now), h(key \<mapsto> w))
    else ((True, lw_count w + 1, lw_start w + window - now), h(key \<mapsto> w\<lparr>lw_count := lw_count w + 1\<rparr>)))"
  by (simp add: local_hit_def window_for_def Let_def split: option.splits)

text \<open>Nothing admitted yet, or what the key's window says.\<close>

definition counted_for :: "int \<Rightarrow> int \<Rightarrow> instant list \<Rightarrow> instant \<Rightarrow> local_window option \<Rightarrow> bool" where
  "counted_for limit window xs now x \<longleftrightarrow> (case x of None \<Rightarrow> xs = []
     | Some w \<Rightarrow> counted limit window xs w \<and> lw_start w \<le> now)"

lemma counted_opened:
  assumes c: "counted_for limit window xs n x" and "n \<le> now" and "0 \<le> limit" "0 < window"
  shows "counted limit window xs (window_for window now x)" "lw_start (window_for window now x) \<le> now"
    "now < lw_start (window_for window now x) + window"
proof -
  have "counted limit window xs (window_for window now x) \<and> lw_start (window_for window now x) \<le> now
      \<and> now < lw_start (window_for window now x) + window"
  proof (cases x)
    case None
    then show ?thesis using assms by (simp add: counted_for_def window_for_def counted_def)
  next
    case (Some w)
    have w: "counted limit window xs w" "lw_start w \<le> n" using c Some by (simp_all add: counted_for_def)
    show ?thesis
    proof (cases "window \<le> now - lw_start w")
      case True
      have old: "y < now" if "y \<in> set xs" for y using w(1) that True by (fastforce simp: counted_def)
      have "int (length (filter (\<lambda>y. t - window < y \<and> y < now) xs)) \<le> limit" if "now \<le> t" for t
      proof -
        have "length (filter (\<lambda>y. t - window < y \<and> y < now) xs) \<le> length (filter (\<lambda>y. lw_start w \<le> y) xs)"
          by (rule filter_fewer) (use True that in auto)
        then show ?thesis using w(1) unfolding counted_def by linarith
      qed
      moreover have "filter (\<lambda>y. now \<le> y) xs = []" using old by (fastforce simp: filter_empty_conv)
      ultimately show ?thesis using assms(3,4) old Some True
        by (fastforce simp: window_for_def counted_def)
    qed (use w assms Some in \<open>simp add: window_for_def\<close>)
  qed
  then show "counted limit window xs (window_for window now x)" "lw_start (window_for window now x) \<le> now"
    "now < lw_start (window_for window now x) + window" by blast+
qed

lemma counted_snoc:
  assumes "counted limit window xs w" "lw_start w \<le> now" "now < lw_start w + window" "lw_count w < limit"
  shows "counted limit window (xs @ [now]) (w\<lparr>lw_count := lw_count w + 1\<rparr>)"
  using assms unfolding counted_def by auto

lemma local_spans:
  assumes "counted_for limit window xs n (h key)" "\<forall>t \<in> set ts. n \<le> t" "\<forall>x \<in> set xs. x \<le> n" "sorted ts" "0 \<le> limit" "0 < window"
    "\<forall>t. int (length (spanned window t xs)) \<le> 2 * limit"
  shows "int (length (spanned window t (xs @ local_admitted key limit window ts h))) \<le> 2 * limit"
  using assms
proof (induction ts arbitrary: xs n h)
  case (Cons now ts)
  define w where "w = window_for window now (h key)"
  have now: "n \<le> now" using Cons.prems(2) by simp
  note w' = counted_opened [OF Cons.prems(1) now Cons.prems(5,6), folded w_def]
  have past: "\<forall>x \<in> set xs. x \<le> now" using Cons.prems(3) now by auto
  show ?case
  proof (cases "limit \<le> lw_count w")
    case True
    have "int (length (spanned window t (xs @ local_admitted key limit window ts (h(key \<mapsto> w))))) \<le> 2 * limit"
      by (rule Cons.IH [of xs now])
        (use Cons.prems w' past in \<open>simp_all add: counted_for_def\<close>)
    then show ?thesis using True by (simp add: local_hit_eval w_def [symmetric] Let_def)
  next
    case False
    define w2 where "w2 = w\<lparr>lw_count := lw_count w + 1\<rparr>"
    have w2: "counted limit window (xs @ [now]) w2" "lw_start w2 \<le> now"
      using counted_snoc [OF w'] False w' by (simp_all add: w2_def)
    have sp: "int (length (spanned window t (xs @ [now]))) \<le> 2 * limit" for t
    proof (cases "now \<le> t")
      case True
      then show ?thesis using counted_spans [OF w2(1)] w2(2) by simp
    next
      case False
      then show ?thesis using Cons.prems(7) by (simp add: spanned_def)
    qed
    have "int (length (spanned window t ((xs @ [now]) @ local_admitted key limit window ts (h(key \<mapsto> w2))))) \<le> 2 * limit"
      by (rule Cons.IH [of "xs @ [now]" now])
        (use Cons.prems w2 past sp in \<open>simp_all add: counted_for_def\<close>)
    then show ?thesis using False by (simp add: local_hit_eval w_def [symmetric] w2_def [symmetric] Let_def)
  qed
qed simp

text \<open>While Redis is down a process lets through, of any key, at most twice its limit in any span as long as its
  window: the fallback's windows are fixed, and a span reaches into two of them at most.\<close>

theorem fallback_at_most_doubles:
  assumes "sorted ts" "0 \<le> limit" "0 < window"
  shows "int (length (spanned window t (local_admitted key limit window ts (\<lambda>_. None)))) \<le> 2 * limit"
proof -
  have n: "\<exists>n. \<forall>t \<in> set ts. n \<le> t" using finite_list bdd_below_finite [of "set ts"] by (auto simp: bdd_below_def)
  then obtain n where "\<forall>t \<in> set ts. n \<le> t" by blast
  from local_spans [of limit window "[]" n "\<lambda>_. None" key ts t] this assms show ?thesis
    by (simp add: counted_for_def spanned_def)
qed

end
