(* ===== verification/LimitKeys.thy ===== *)
theory LimitKeys
  imports LimitRuns
begin

text \<open>
  Whose hits a limit counts: the keys of the rules name their callers, and a request's answer is the tightest of its rules.
\<close>

section \<open>Callers and counters\<close>

datatype counted_by = By_email string string | By_address string | By_staff uuid | By_browser string
  | By_key uuid | By_server uuid string | By_checkout string

fun counter :: "counted_by \<Rightarrow> string" where
  "counter (By_email scope email) = ''rl:login:email:'' @ scope @ '':'' @ email"
| "counter (By_address ip) = ''rl:login:ip:'' @ ip"
| "counter (By_staff u) = ''rl:admin:user:'' @ uuid_string u"
| "counter (By_browser ip) = ''rl:sf:ip:'' @ ip"
| "counter (By_key k) = ''rl:sf:key:'' @ uuid_string k"
| "counter (By_server k ip) = ''rl:sf:srv:'' @ uuid_string k @ '':'' @ ip"
| "counter (By_checkout ip) = ''rl:sf:checkout:'' @ ip"

text \<open>The scopes the handlers use, and identifiers of 128 bits.\<close>

definition is_uuid :: "uuid \<Rightarrow> bool" where
  "is_uuid u \<longleftrightarrow> u < 2 ^ 128"

definition login_scope :: "string \<Rightarrow> bool" where
  "login_scope s \<longleftrightarrow> s = ''staff'' \<or> s = ''signup'' \<or> (\<exists>u. is_uuid u \<and> s = ''shop:'' @ uuid_string u)"

fun named :: "counted_by \<Rightarrow> bool" where
  "named (By_email scope _) \<longleftrightarrow> login_scope scope"
| "named (By_staff u) \<longleftrightarrow> is_uuid u"
| "named (By_key k) \<longleftrightarrow> is_uuid k"
| "named (By_server k _) \<longleftrightarrow> is_uuid k"
| "named _ \<longleftrightarrow> True"

lemma uuid_string_length: "length (uuid_string u) = 36"
  by (simp add: uuid_string_def Let_def)

lemma uuid_string_inj: "is_uuid u \<Longrightarrow> is_uuid v \<Longrightarrow> uuid_string u = uuid_string v \<longleftrightarrow> u = v"
  by (metis is_uuid_def option.inject parse_uuid_string)

lemma uuid_then: "is_uuid u \<Longrightarrow> is_uuid v \<Longrightarrow> uuid_string u @ x = uuid_string v @ y \<longleftrightarrow> u = v \<and> x = y"
  by (simp add: append_eq_append_conv uuid_string_length uuid_string_inj)

lemma scope_then: "login_scope s \<Longrightarrow> login_scope s' \<Longrightarrow> s @ '':'' @ x = s' @ '':'' @ y \<longleftrightarrow> s = s' \<and> x = y"
  by (auto simp: login_scope_def uuid_then uuid_string_inj)

lemma counter_inj: "named a \<Longrightarrow> named b \<Longrightarrow> counter a = counter b \<Longrightarrow> a = b"
  using scope_then by (cases a; cases b) (auto simp: uuid_then uuid_string_inj)

definition request_counters :: "shop_key \<Rightarrow> string \<Rightarrow> string \<Rightarrow> string \<Rightarrow> counted_by list" where
  "request_counters key ip meth path = (if sk_browser key then [By_browser ip, By_key (sk_id key)] else [By_server (sk_id key) ip])
     @ (if meth = ''POST'' \<and> suffix ''/checkout'' path then [By_checkout ip] else [])"

lemma request_keys:
  "map lr_key (login_rules scope email ip) = map counter [By_email scope email, By_address ip]"
  "lr_key (admin_rule u) = counter (By_staff u)"
  "map lr_key (storefront_rules key ip meth path) = map counter (request_counters key ip meth path)"
  "map lr_key (sign_in_rules lower shop email ip) = map counter
     ((if email = [] then [] else [By_email (''shop:'' @ uuid_string shop) (lower (trim_space email))]) @ [By_address ip])"
  by (auto simp: login_rules_def rule_of_def admin_rule_def storefront_rules_def sign_in_rules_def request_counters_def Let_def)

text \<open>No two callers share a counter: the key of every rule of a sign-in, of the admin API and of the storefront
  names the kind of limit and the shop, email, address, user or API key it counts, and two of them are the same key only
  when they count the same caller; so one shop's sign-ins never use up another's, nor the staff's.\<close>

theorem counters_apart:
  assumes "named a" "named b"
  shows "(counter a = counter b \<longleftrightarrow> a = b) \<and>
    map lr_key (login_rules scope email ip) = map counter [By_email scope email, By_address ip] \<and>
    lr_key (admin_rule u) = counter (By_staff u) \<and>
    map lr_key (storefront_rules key ip meth path) = map counter (request_counters key ip meth path) \<and>
    map lr_key (sign_in_rules lower shop email ip) = map counter
       ((if email = [] then [] else [By_email (''shop:'' @ uuid_string shop) (lower (trim_space email))]) @ [By_address ip])"
  using assms counter_inj request_keys by blast

lemma named_shop: "is_uuid u \<Longrightarrow> named (By_email (''shop:'' @ uuid_string u) e)"
  by (auto simp: login_scope_def)

theorem counters_apart_witness:
  "counter (By_email (''shop:'' @ uuid_string 7) ''a@b'') \<noteq> counter (By_email (''shop:'' @ uuid_string 8) ''a@b'')"
proof -
  have n: "named (By_email (''shop:'' @ uuid_string 7) ''a@b'')" "named (By_email (''shop:'' @ uuid_string 8) ''a@b'')"
    by (rule named_shop, simp add: is_uuid_def)+
  have "uuid_string 7 \<noteq> uuid_string 8" using uuid_string_inj [of 7 8] by (simp add: is_uuid_def)
  with counters_apart [OF n] show ?thesis by simp
qed

section \<open>The answer of a request\<close>

text \<open>One hit on each rule in turn.\<close>

fun hits :: "(tick \<times> limit_rule) list \<Rightarrow> limiter \<Rightarrow> (limit_rule \<times> bool \<times> int \<times> int) list" where
  "hits [] l = []"
| "hits ((k, r) # rs) l = (case count_hit k r l of (a, l') \<Rightarrow> (r, a) # hits rs l')"

definition left_of :: "limit_rule \<times> bool \<times> int \<times> int \<Rightarrow> int" where
  "left_of x = (case x of (r, _, n, _) \<Rightarrow> max (lr_limit r - n) 0)"

definition let_through :: "limit_rule \<times> bool \<times> int \<times> int \<Rightarrow> bool" where
  "let_through x \<longleftrightarrow> fst (snd x)"

lemma check_rules_hits: "fst (check_rules rs res l) = fold (\<lambda>(r, a) s. tighter r a s) (hits rs l) res"
  by (induction rs res l rule: check_rules.induct) (auto split: prod.splits)

lemma fold_tighter_allowed: "ls_allowed (fold (\<lambda>(r, a) s. tighter r a s) hs res) \<longleftrightarrow> ls_allowed res \<and> (\<forall>x \<in> set hs. let_through x)"
  by (induction hs arbitrary: res) (auto simp: tighter_def let_through_def Let_def)

text \<open>A refused hit found its window full.\<close>

lemma sliding_script_full: "sliding_script rt k now w n m r = ((False, x, o'), r') \<Longrightarrow> n \<le> x"
  by (simp add: sliding_script_def Let_def split: if_splits)

lemma sliding_window_full: "sliding_window k key n w r = (Some (False, x, t), r') \<Longrightarrow> n \<le> x"
  by (auto simp: sliding_window_def split: if_splits prod.splits dest: sliding_script_full)

lemma local_hit_full: "local_hit key n w now h = ((False, x, t), h') \<Longrightarrow> n \<le> x"
  by (simp add: local_hit_eval Let_def split: if_splits)

lemma count_hit_full: "count_hit k r l = ((False, n, t), l') \<Longrightarrow> lr_limit r \<le> n"
  by (auto simp: count_hit_def split: prod.splits option.splits dest: sliding_window_full local_hit_full)

lemma hits_full: "x \<in> set (hits rs l) \<Longrightarrow> let_through x \<or> left_of x = 0"
proof (induction rs l rule: hits.induct)
  case (2 k r rs l)
  obtain ok n t l' where h: "count_hit k r l = ((ok, n, t), l')" by (cases "count_hit k r l") auto
  show ?case
  proof (cases "x = (r, ok, n, t)")
    case True
    then show ?thesis using count_hit_full [of k r l n t l'] h by (cases ok) (auto simp: let_through_def left_of_def)
  next
    case False
    then have "x \<in> set (hits rs l')" using 2(2) h by simp
    then show ?thesis using 2(1) h by simp
  qed
qed simp

lemma fold_tighter_remaining:
  "list_all (\<lambda>x. let_through x \<or> left_of x = 0) hs \<Longrightarrow> 0 \<le> ls_remaining res \<Longrightarrow>
   ls_remaining (fold (\<lambda>(r, a) s. tighter r a s) hs res) = fold (\<lambda>x m. min (left_of x) m) hs (ls_remaining res)"
proof (induction hs arbitrary: res)
  case (Cons x hs)
  obtain r ok n t where x: "x = (r, ok, n, t)" by (cases x) auto
  have "ls_remaining (tighter r (ok, n, t) res) = min (left_of x) (ls_remaining res)" "0 \<le> min (left_of x) (ls_remaining res)"
    using Cons.prems by (auto simp: x tighter_def Let_def let_through_def left_of_def min_def)
  then show ?case using Cons by (simp add: x)
qed simp

text \<open>A request is let through when every rule lets it, told the fewest hits any of them has left, and told when to
  come back only when it is refused.\<close>

theorem check_reports_tightest:
  "ls_allowed (fst (check_op rs l)) \<longleftrightarrow> list_all let_through (hits rs l)"
  "ls_remaining (fst (check_op rs l)) = fold (\<lambda>x m. min (left_of x) m) (hits rs l) max_int"
  "ls_limit (fst (check_op rs l)) \<noteq> 0 \<Longrightarrow>
     ''Retry-After'' \<in> fst ` set (limit_headers (fst (check_op rs l))) \<longleftrightarrow> \<not> list_all let_through (hits rs l)"
proof -
  have a: "ls_allowed (fst (check_op rs l)) \<longleftrightarrow> list_all let_through (hits rs l)"
    by (simp add: check_op_def check_rules_hits fold_tighter_allowed no_result_def list_all_iff)
  show "ls_allowed (fst (check_op rs l)) \<longleftrightarrow> list_all let_through (hits rs l)" by (rule a)
  show "ls_remaining (fst (check_op rs l)) = fold (\<lambda>x m. min (left_of x) m) (hits rs l) max_int"
    using fold_tighter_remaining [of "hits rs l" no_result] hits_full
    by (simp add: check_op_def check_rules_hits no_result_def max_int_def list_all_iff)
  show "''Retry-After'' \<in> fst ` set (limit_headers (fst (check_op rs l))) \<longleftrightarrow> \<not> list_all let_through (hits rs l)"
    if "ls_limit (fst (check_op rs l)) \<noteq> 0"
    using that a by (simp add: limit_headers_def)
qed

section \<open>Two runs\<close>

definition sample_call :: "int \<Rightarrow> string \<Rightarrow> call" where
  "sample_call t m = (\<lparr>tk_now = t * 1000000, tk_redis = t, tk_member = m, tk_up = True, tk_local = 0\<rparr>,
     rule_of ''rl:login:ip:1'' 2 (seconds 1))"

definition sample_calls :: "call list" where
  "sample_calls = [sample_call 0 ''a'', sample_call 10 ''b'', sample_call 20 ''c'', sample_call 1005 ''d'']"


theorem fallback_at_most_doubles_witness:
  "spanned 100 104 (local_admitted ''k'' 2 100 [0, 95, 97, 101, 102, 103] (\<lambda>_. None)) = [95, 101, 102] \<and>
   length (spanned 100 104 (local_admitted ''k'' 2 100 [0, 95, 97, 101, 102, 103] (\<lambda>_. None))) \<le> 4"
proof -
  have "int (length (spanned 100 104 (local_admitted ''k'' 2 100 [0, 95, 97, 101, 102, 103] (\<lambda>_. None)))) \<le> 2 * 2"
    by (rule fallback_at_most_doubles) simp_all
  moreover have "spanned 100 104 (local_admitted ''k'' 2 100 [0, 95, 97, 101, 102, 103] (\<lambda>_. None)) = [95, 101, 102]"
    by (simp add: local_hit_def spanned_def Let_def)
  ultimately show ?thesis by simp
qed

end
