(* ===== verification/ApiKeys.thy ===== *)
theory ApiKeys
  imports Team Uniques
begin

text \<open>
  The storefront's API keys (internal/team/api_keys.go, internal/db/sqlcgen/api_keys.sql.go; BR-028, BR-083) and the
  two lookups that come before any tenant is known (internal/db/auth_lookup.go, pool.go; BR-003). A key is never
  stored: \<open>h\<close> is its SHA-256. \<open>net/url.Parse\<close> is a parameter; what is asked of its answer is the code's.
\<close>

section \<open>Statements\<close>

text \<open>The CHECK of the column: \<open>^https?://[^/?#]+$\<close>.\<close>

definition origin_check :: "string \<Rightarrow> bool" where
  "origin_check x \<longleftrightarrow> (case cut_prefix ''http://'' x of (r, True) \<Rightarrow> r \<noteq> [] \<and> list_all (\<lambda>ch. ch \<notin> set ''/?#'') r
     | (_, False) \<Rightarrow> (case cut_prefix ''https://'' x of (r, True) \<Rightarrow> r \<noteq> [] \<and> list_all (\<lambda>ch. ch \<notin> set ''/?#'') r | (_, False) \<Rightarrow> False))"

record new_key_params =
  nk_id :: uuid
  nk_name :: string
  nk_hash :: string
  nk_last4 :: "string option"
  nk_origin :: string
  nk_created_by :: "uuid option"

definition new_api_key :: "ctx \<Rightarrow> new_key_params \<Rightarrow> api_key" where
  "new_api_key c p = \<lparr>ak_id = nk_id p, ak_tenant = tenant_of c, ak_name = nk_name p, ak_key_hash = nk_hash p,
     ak_allowed_origin = nk_origin p, ak_last_used_at = None, ak_revoked_at = None, ak_created_by = nk_created_by p,
     ak_created_at = c_now c, ak_key_last4 = nk_last4 p\<rparr>"

definition create_api_key :: "ctx \<Rightarrow> new_key_params \<Rightarrow> unit stmt" where
  "create_api_key c p =
    thenT (guardT (\<lambda>_. origin_check (nk_origin p)) (check_violation ''api_keys_allowed_origin_check''))
    (thenT (guardT (\<lambda>s. nk_id p \<notin> ak_id ` set (api_keys s)) (unique_violation ''api_keys_pkey''))
    (thenT (guardT (\<lambda>s. nk_hash p \<notin> ak_key_hash ` set (api_keys s)) (unique_violation ''api_keys_key_hash_key''))
    (thenT (guardT (\<lambda>s. tenant_of c \<in> tn_id ` set (tenants s)) (fk_violation ''api_keys_tenant_id_fkey''))
    (thenT (guardT (\<lambda>s. case nk_created_by p of None \<Rightarrow> True | Some u \<Rightarrow> u \<in> us_id ` set (users s)) (fk_violation ''api_keys_created_by_fkey''))
     (writeT (\<lambda>s. s\<lparr>api_keys := api_keys s @ [new_api_key c p]\<rparr>))))))"

record key_row =
  kr_id :: uuid
  kr_name :: string
  kr_last4 :: "string option"
  kr_origin :: string
  kr_last_used_at :: "instant option"
  kr_revoked_at :: "instant option"
  kr_created_at :: instant
  kr_created_by :: "uuid option"
  kr_created_by_name :: "string option"

definition key_row_of :: "uuid \<Rightarrow> db \<Rightarrow> api_key \<Rightarrow> key_row" where
  "key_row_of t s k = \<lparr>kr_id = ak_id k, kr_name = ak_name k, kr_last4 = ak_key_last4 k, kr_origin = ak_allowed_origin k,
     kr_last_used_at = ak_last_used_at k, kr_revoked_at = ak_revoked_at k, kr_created_at = ak_created_at k, kr_created_by = ak_created_by k,
     kr_created_by_name = (case ak_created_by k of None \<Rightarrow> None | Some u \<Rightarrow> map_option us_name (get_user_row t u s))\<rparr>"

definition list_api_keys :: "ctx \<Rightarrow> uuid option \<Rightarrow> key_row list stmt" where
  "list_api_keys c i = readT (\<lambda>s. map (key_row_of (tenant_of c) s) (List.rev (sort_key (\<lambda>k. (ak_created_at k, ak_id k))
     (filter (\<lambda>k. ak_revoked_at k = None \<and> (i = None \<or> i = Some (ak_id k))) (rows_of ak_tenant (tenant_of c) (api_keys s))))))"

text \<open>A live key of the tenant by its id; \<open>:execrows\<close> counts the rows met.\<close>

definition live_key :: "uuid \<Rightarrow> uuid \<Rightarrow> api_key \<Rightarrow> bool" where
  "live_key t i k \<longleftrightarrow> ak_tenant k = t \<and> ak_id k = i \<and> ak_revoked_at k = None"

definition change_live_key :: "ctx \<Rightarrow> uuid \<Rightarrow> (api_key \<Rightarrow> api_key) \<Rightarrow> int stmt" where
  "change_live_key c i f s = Inr (int (length (filter (live_key (tenant_of c) i) (api_keys s))),
     s\<lparr>api_keys := map (\<lambda>k. if live_key (tenant_of c) i k then f k else k) (api_keys s)\<rparr>)"

definition revoke_api_key :: "ctx \<Rightarrow> uuid \<Rightarrow> int stmt" where
  "revoke_api_key c i = change_live_key c i (\<lambda>k. k\<lparr>ak_revoked_at := Some (c_now c)\<rparr>)"

definition renamed_key :: "string option \<Rightarrow> string option \<Rightarrow> api_key \<Rightarrow> api_key" where
  "renamed_key name origin k = k\<lparr>ak_name := coalesce name (ak_name k), ak_allowed_origin := coalesce origin (ak_allowed_origin k)\<rparr>"

definition update_api_key :: "ctx \<Rightarrow> uuid \<Rightarrow> string option \<Rightarrow> string option \<Rightarrow> int stmt" where
  "update_api_key c i name origin =
    thenT (guardT (\<lambda>s. list_all (\<lambda>k. live_key (tenant_of c) i k \<longrightarrow> origin_check (ak_allowed_origin (renamed_key name origin k))) (api_keys s))
      (check_violation ''api_keys_allowed_origin_check''))
    (change_live_key c i (renamed_key name origin))"

section \<open>Before a tenant is known\<close>

record resolved_key =
  rk_id :: uuid
  rk_tenant :: uuid
  rk_origin :: string
  rk_revoked_at :: "instant option"

definition resolved_of :: "api_key \<Rightarrow> resolved_key" where
  "resolved_of k = \<lparr>rk_id = ak_id k, rk_tenant = ak_tenant k, rk_origin = ak_allowed_origin k, rk_revoked_at = ak_revoked_at k\<rparr>"

definition resolve_api_key :: "string \<Rightarrow> db \<Rightarrow> err + resolved_key" where
  "resolve_api_key hash s = (case find (\<lambda>k. ak_key_hash k = hash) (api_keys s) of
      None \<Rightarrow> Inl LookupNotFound | Some k \<Rightarrow> Inr (resolved_of k))"

definition active_tenant_by_slug :: "string \<Rightarrow> db \<Rightarrow> err + uuid" where
  "active_tenant_by_slug slug s = (case find (\<lambda>r. tn_slug r = slug \<and> tn_status r = S_active) (tenants s) of
      None \<Rightarrow> Inl LookupNotFound | Some r \<Rightarrow> Inr (tn_id r))"

definition key_touched :: "ctx \<Rightarrow> uuid \<Rightarrow> db \<Rightarrow> db" where
  "key_touched c i s = s\<lparr>api_keys := row_upd ak_tenant ak_id (tenant_of c) i (\<lambda>k. k\<lparr>ak_last_used_at := Some (c_now c)\<rparr>) (api_keys s)\<rparr>"

definition touch_api_key :: "ctx \<Rightarrow> resolved_key \<Rightarrow> db \<Rightarrow> (err + unit) \<times> db" where
  "touch_api_key c k = (let c' = with_tenant (rk_tenant k) c in in_tenant_tx c' (writeT (key_touched c' (rk_id k))))"

section \<open>The service\<close>

definition api_key_prefix :: string where
  "api_key_prefix = ''sf_live_''"

text \<open>What \<open>url.Parse\<close> answers of a text, as far as \<open>ValidOrigin\<close> asks.\<close>

record parsed_url =
  pu_scheme :: string
  pu_user :: bool
  pu_host :: string

text \<open>\<open>URL.Hostname\<close> and \<open>URL.Port\<close>: the host without its port and brackets, and the digits after the last colon.\<close>

definition optional_port :: "string \<Rightarrow> bool" where
  "optional_port x \<longleftrightarrow> (case x of [] \<Rightarrow> True | ch # ds \<Rightarrow> ch = CHR '':'' \<and> list_all is_digit ds)"

definition split_port :: "string \<Rightarrow> string \<times> string" where
  "split_port x = (let port = List.rev (takeWhile (\<lambda>ch. ch \<noteq> CHR '':'') (List.rev x));
       host = take (length x - length port - 1) x
     in if CHR '':'' \<in> set x \<and> optional_port (CHR '':'' # port) then (host, port) else (x, []))"

definition unbracketed :: "string \<Rightarrow> string" where
  "unbracketed x = (if x \<noteq> [] \<and> hd x = CHR ''['' \<and> last x = CHR '']'' then butlast (tl x) else x)"

definition url_hostname :: "parsed_url \<Rightarrow> string" where
  "url_hostname u = unbracketed (fst (split_port (pu_host u)))"

definition url_port :: "parsed_url \<Rightarrow> string" where
  "url_port u = snd (split_port (pu_host u))"

definition host_char :: "char \<Rightarrow> bool" where
  "host_char ch \<longleftrightarrow> CHR ''a'' \<le> ch \<and> ch \<le> CHR ''z'' \<or> is_digit ch \<or> ch = CHR ''.'' \<or> ch = CHR ''-'' \<or> ch = CHR '':''"

fun digits_value :: "nat \<Rightarrow> string \<Rightarrow> nat" where
  "digits_value n [] = n"
| "digits_value n (ch # ds) = digits_value (10 * n + (of_char ch - 48)) ds"

text \<open>A port prints back as itself: digits with no leading zero, from 1 to 65535, and not the scheme's own.\<close>

definition valid_port :: "string \<Rightarrow> string \<Rightarrow> bool" where
  "valid_port scheme p \<longleftrightarrow> list_all is_digit p \<and> hd p \<noteq> CHR ''0'' \<and> 1 \<le> digits_value 0 p \<and> digits_value 0 p \<le> 65535 \<and>
     \<not> (scheme = ''https'' \<and> digits_value 0 p = 443) \<and> \<not> (scheme = ''http'' \<and> digits_value 0 p = 80)"

definition valid_origin :: "(string \<Rightarrow> parsed_url option) \<Rightarrow> string \<Rightarrow> bool" where
  "valid_origin parse x = (case parse x of None \<Rightarrow> False | Some u \<Rightarrow>
     (pu_scheme u = ''http'' \<or> pu_scheme u = ''https'') \<and> \<not> pu_user u \<and> url_hostname u \<noteq> [] \<and>
     x = pu_scheme u @ ''://'' @ pu_host u \<and> \<not> suffix '':'' (pu_host u) \<and> list_all host_char (url_hostname u) \<and>
     (url_port u = [] \<or> valid_port (pu_scheme u) (url_port u)))"

definition origin_error :: err where
  "origin_error = field_error ''allowed_origin''
     ''allowed_origin is one exact scheme://host[:port] in lower case, such as https://tokoabc.com: no path, wildcard, trailing slash or default port''"

definition no_such_key :: err where
  "no_such_key = not_found ''No such API key.''"

definition api_keys_op :: "ctx \<Rightarrow> db \<Rightarrow> (err + key_row list) \<times> db" where
  "api_keys_op c = in_tenant_tx c (list_api_keys c None)"

definition get_api_key :: "ctx \<Rightarrow> uuid \<Rightarrow> key_row stmt" where
  "get_api_key c i = bindT (list_api_keys c (Some i)) (\<lambda>rows. case rows of [] \<Rightarrow> failT no_such_key | r # _ \<Rightarrow> retT r)"

definition key_doc :: "string \<Rightarrow> string \<Rightarrow> dyn" where
  "key_doc name origin = DObj [(''name'', DStr name), (''allowed_origin'', DStr origin)]"

definition create_key_tx :: "(string \<Rightarrow> string) \<Rightarrow> ctx \<Rightarrow> uuid \<Rightarrow> string \<Rightarrow> string \<Rightarrow> string \<Rightarrow> key_row stmt" where
  "create_key_tx h c i key name origin =
    thenT (create_api_key c \<lparr>nk_id = i, nk_name = name, nk_hash = h key, nk_last4 = Some (drop (length key - 4) key),
      nk_origin = origin, nk_created_by = c_actor c\<rparr>)
    (bindT (get_api_key c i) (\<lambda>k.
    thenT (audit c \<lparr>ae_action = ''api_key.create'', ae_subject_type = ''api_key'', ae_subject_id = DId i, ae_before = None,
      ae_after = Some (key_doc name origin)\<rparr>)
    (retT k)))"

text \<open>\<open>random\<close> is the text \<open>NewRefreshToken\<close> draws, or its error; \<open>i\<close> the id of \<open>uuid.NewV7\<close>.\<close>

definition create_key_op :: "(string \<Rightarrow> string) \<Rightarrow> (string \<Rightarrow> parsed_url option) \<Rightarrow> ctx \<Rightarrow> uuid \<Rightarrow> err + string \<Rightarrow> string \<Rightarrow> string \<Rightarrow>
    db \<Rightarrow> (err + key_row \<times> string) \<times> db" where
  "create_key_op h parse c i random name origin s =
    (let name' = trim_space name in
     if name' = [] then (Inl (field_error ''name'' ''name is required''), s)
     else if \<not> valid_origin parse origin then (Inl origin_error, s)
     else (case random of Inl e \<Rightarrow> (Inl e, s)
       | Inr r \<Rightarrow> (let key = api_key_prefix @ r in
           (case in_tenant_tx c (create_key_tx h c i key name' origin) s of
             (Inl e, s') \<Rightarrow> (Inl e, s') | (Inr k, s') \<Rightarrow> (Inr (k, key), s')))))"

definition update_key_tx :: "ctx \<Rightarrow> uuid \<Rightarrow> string option \<Rightarrow> string option \<Rightarrow> key_row stmt" where
  "update_key_tx c i name origin =
    bindT (get_api_key c i) (\<lambda>before.
    thenT (update_api_key c i name origin)
    (bindT (get_api_key c i) (\<lambda>after.
    thenT (audit c \<lparr>ae_action = ''api_key.update'', ae_subject_type = ''api_key'', ae_subject_id = DId i,
      ae_before = Some (key_doc (kr_name before) (kr_origin before)), ae_after = Some (key_doc (kr_name after) (kr_origin after))\<rparr>)
    (retT after))))"

definition update_key_op :: "(string \<Rightarrow> parsed_url option) \<Rightarrow> ctx \<Rightarrow> uuid \<Rightarrow> string option \<Rightarrow> string option \<Rightarrow> db \<Rightarrow> (err + key_row) \<times> db" where
  "update_key_op parse c i name origin s =
    (let name' = map_option trim_space name in
     if name' = Some [] then (Inl (field_error ''name'' ''name cannot be empty''), s)
     else if (case origin of None \<Rightarrow> False | Some x \<Rightarrow> \<not> valid_origin parse x) then (Inl origin_error, s)
     else in_tenant_tx c (update_key_tx c i name' origin) s)"

definition revoke_key_tx :: "ctx \<Rightarrow> uuid \<Rightarrow> unit stmt" where
  "revoke_key_tx c i =
    bindT (revoke_api_key c i) (\<lambda>n.
    if n = 0 then failT no_such_key
    else audit c \<lparr>ae_action = ''api_key.revoke'', ae_subject_type = ''api_key'', ae_subject_id = DId i, ae_before = None,
      ae_after = Some (DObj [(''revoked'', DBool True)])\<rparr>)"

definition revoke_key_op :: "ctx \<Rightarrow> uuid \<Rightarrow> db \<Rightarrow> (err + unit) \<times> db" where
  "revoke_key_op c i = in_tenant_tx c (revoke_key_tx c i)"

end
