(* ===== verification/Keys.thy ===== *)
theory Keys
  imports ApiKeys Limits
begin

text \<open>
  The storefront's gate (internal/storefront/keys.go; BR-003, BR-083, BR-085, BR-141): the API key of a request, behind
  a per-process cache, decides whose shop the request is for and whether the page that sent it may. A shop the hosted
  website names by its slug goes through the same cache, under a key no hash has.
\<close>

definition key_cache_ttl :: int where
  "key_cache_ttl = seconds 60"

record cached_key =
  kc_key :: resolved_key
  kc_at :: instant

type_synonym key_cache = "string \<Rightarrow> cached_key option"

definition fresh :: "instant \<Rightarrow> cached_key option \<Rightarrow> resolved_key option" where
  "fresh now x = (case x of None \<Rightarrow> None | Some e \<Rightarrow> if now - kc_at e < key_cache_ttl then Some (kc_key e) else None)"

definition keep_key :: "string \<Rightarrow> resolved_key \<Rightarrow> instant \<Rightarrow> key_cache \<Rightarrow> key_cache" where
  "keep_key entry k now ch = ch(entry \<mapsto> \<lparr>kc_key = k, kc_at = now\<rparr>)"

text \<open>\<open>resolve\<close>: \<open>t1\<close> is the clock at the look in the cache, \<open>t2\<close> when the answer is kept. A key that cannot be
  touched is used all the same.\<close>

definition resolve_op :: "ctx \<Rightarrow> instant \<Rightarrow> instant \<Rightarrow> string \<Rightarrow> db \<times> key_cache \<Rightarrow> (err + resolved_key) \<times> db \<times> key_cache" where
  "resolve_op c t1 t2 hash w = (case w of (s, ch) \<Rightarrow>
     (case fresh t1 (ch hash) of Some k \<Rightarrow> (Inr k, s, ch)
      | None \<Rightarrow> (case resolve_api_key hash s of Inl e \<Rightarrow> (Inl e, s, ch)
         | Inr k \<Rightarrow> (Inr k, if rk_revoked_at k = None then snd (touch_api_key c k s) else s, keep_key hash k t2 ch))))"

definition shop_entry :: "string \<Rightarrow> string" where
  "shop_entry slug = ''slug:'' @ slug"

definition shop_only :: "uuid \<Rightarrow> resolved_key" where
  "shop_only t = \<lparr>rk_id = nil_uuid, rk_tenant = t, rk_origin = [], rk_revoked_at = None\<rparr>"

definition shop_op :: "instant \<Rightarrow> instant \<Rightarrow> string \<Rightarrow> db \<times> key_cache \<Rightarrow> (err + uuid) \<times> db \<times> key_cache" where
  "shop_op t1 t2 slug w = (case w of (s, ch) \<Rightarrow>
     (case fresh t1 (ch (shop_entry slug)) of Some k \<Rightarrow> (Inr (rk_tenant k), s, ch)
      | None \<Rightarrow> (case active_tenant_by_slug slug s of Inl e \<Rightarrow> (Inl e, s, ch)
         | Inr t \<Rightarrow> (Inr t, s, keep_key (shop_entry slug) (shop_only t) t2 ch))))"

text \<open>What the gate asks of a request: its method, and the headers \<open>Origin\<close>, \<open>X-Api-Key\<close> and \<open>X-Shop\<close>.\<close>

record request =
  rq_method :: string
  rq_origin :: string
  rq_key :: string
  rq_shop :: string

text \<open>A preflight, a refusal, or a request let through with its tenant and key and the origin it may be read from.\<close>

datatype gate = Preflight string | Refused err | Admitted uuid shop_key "string option"

definition platform_gate :: "instant \<Rightarrow> instant \<Rightarrow> request \<Rightarrow> db \<times> key_cache \<Rightarrow> gate \<times> db \<times> key_cache" where
  "platform_gate t1 t2 r w =
    (if rq_origin r \<noteq> [] \<or> rq_method r \<noteq> ''GET'' then (Refused invalid_api_key, w)
     else (case shop_op t1 t2 (rq_shop r) w of
        (Inl e, w') \<Rightarrow> (Refused (if e = LookupNotFound then not_found ''No such shop.'' else e), w')
      | (Inr t, w') \<Rightarrow> (Admitted t \<lparr>sk_id = t, sk_origin = [], sk_browser = False\<rparr> None, w')))"

definition key_answer :: "request \<Rightarrow> err + resolved_key \<Rightarrow> gate" where
  "key_answer r a = (case a of
      Inl e \<Rightarrow> Refused (if e = LookupNotFound then invalid_api_key else e)
    | Inr k \<Rightarrow> if rk_revoked_at k \<noteq> None then Refused invalid_api_key
        else if rq_origin r \<noteq> [] \<and> rq_origin r \<noteq> rk_origin k then Refused origin_not_allowed
        else Admitted (rk_tenant k) \<lparr>sk_id = rk_id k, sk_origin = rk_origin k, sk_browser = rq_origin r \<noteq> []\<rparr>
          (if rq_origin r = [] then None else Some (rq_origin r)))"

text \<open>\<open>h\<close> is \<open>auth.HashRefreshToken\<close>; an empty \<open>platform\<close> accepts none.\<close>

definition gate_op :: "(string \<Rightarrow> string) \<Rightarrow> string \<Rightarrow> ctx \<Rightarrow> instant \<Rightarrow> instant \<Rightarrow> request \<Rightarrow> db \<times> key_cache \<Rightarrow> gate \<times> db \<times> key_cache" where
  "gate_op h platform c t1 t2 r w =
    (if rq_method r = ''OPTIONS'' then (Preflight (rq_origin r), w)
     else if rq_key r = [] then (Refused invalid_api_key, w)
     else if platform \<noteq> [] \<and> rq_key r = platform then platform_gate t1 t2 r w
     else (case resolve_op c t1 t2 (h (rq_key r)) w of (a, w') \<Rightarrow> (key_answer r a, w')))"

section \<open>The table of keys\<close>

text \<open>What every transaction keeps: a key stays with its shop and hash, once revoked stays revoked at that
  moment, and no two keys share an id or a hash.\<close>

definition keys_unique :: "db \<Rightarrow> bool" where
  "keys_unique s \<longleftrightarrow> distinct (map ak_id (api_keys s)) \<and> distinct (map ak_key_hash (api_keys s))"

definition key_kept :: "api_key \<Rightarrow> api_key \<Rightarrow> bool" where
  "key_kept k k' \<longleftrightarrow> ak_id k' = ak_id k \<and> ak_tenant k' = ak_tenant k \<and> ak_key_hash k' = ak_key_hash k
     \<and> (ak_revoked_at k \<noteq> None \<longrightarrow> ak_revoked_at k' = ak_revoked_at k)"

definition keys_kept :: "db \<Rightarrow> db \<Rightarrow> bool" where
  "keys_kept s s' \<longleftrightarrow> (keys_unique s \<longrightarrow> keys_unique s') \<and> (\<forall>k \<in> set (api_keys s). \<exists>k' \<in> set (api_keys s'). key_kept k k')"

lemma key_kept_refl [simp]: "key_kept k k"
  by (simp add: key_kept_def)

lemma key_kept_trans: "key_kept a b \<Longrightarrow> key_kept b d \<Longrightarrow> key_kept a d"
  by (auto simp: key_kept_def)

lemma same_keys: "api_keys s' = api_keys s \<Longrightarrow> keys_kept s s'"
  unfolding keys_kept_def keys_unique_def using key_kept_refl by (metis (no_types))

interpretation kept: tx_relation keys_kept
proof unfold_locales
  show "keys_kept s s" for s by (rule same_keys) simp
  show "keys_kept s u" if "keys_kept s t" "keys_kept t u" for s t u
    using that key_kept_trans unfolding keys_kept_def by meson
qed

named_theorems key_steps \<open>statements that keep the table of keys\<close>

lemma audit_keys [key_steps]: "within keys_kept (audit c e)"
  by (rule withinI) (simp add: same_keys)

lemma guard_keys [key_steps]: "within keys_kept (guardT p e)"
  by (rule withinI) (simp add: kept.R_refl)

lemma mapped_keys:
  assumes "\<And>k. key_kept k (f k)" "api_keys s' = map f (api_keys s)"
  shows "keys_kept s s'"
proof -
  have "ak_id \<circ> f = ak_id" "ak_key_hash \<circ> f = ak_key_hash" using assms(1) by (auto simp: key_kept_def)
  then have "keys_unique s \<longrightarrow> keys_unique s'" by (simp add: keys_unique_def assms(2))
  moreover have "\<exists>k' \<in> set (api_keys s'). key_kept k k'" if "k \<in> set (api_keys s)" for k
    using that assms by (intro bexI [of _ "f k"]) simp_all
  ultimately show ?thesis by (simp add: keys_kept_def)
qed

lemma change_live_keys [key_steps]:
  assumes "\<And>k. ak_revoked_at k = None \<Longrightarrow> key_kept k (f k)"
  shows "within keys_kept (change_live_key c i f)"
proof (rule withinI)
  fix s x s'
  assume "change_live_key c i f s = Inr (x, s')"
  then have "api_keys s' = map (\<lambda>k. if live_key (tenant_of c) i k then f k else k) (api_keys s)"
    by (auto simp: change_live_key_def)
  then show "keys_kept s s'"
    by (rule mapped_keys [rotated]) (use assms in \<open>simp add: live_key_def\<close>)
qed

lemma create_keys [key_steps]: "within keys_kept (create_api_key c p)"
proof (rule withinI)
  fix s x s'
  assume "create_api_key c p s = Inr (x, s')"
  then have s': "api_keys s' = api_keys s @ [new_api_key c p]"
    and new: "nk_id p \<notin> ak_id ` set (api_keys s)" "nk_hash p \<notin> ak_key_hash ` set (api_keys s)"
    by (auto simp: create_api_key_def thenT_Inr)
  have "keys_unique s'" if "keys_unique s"
    using that new by (simp add: keys_unique_def s' new_api_key_def)
  moreover have "\<exists>k' \<in> set (api_keys s'). key_kept k k'" if "k \<in> set (api_keys s)" for k
    using that s' by (intro bexI [of _ k]) simp_all
  ultimately show "keys_kept s s'" by (simp add: keys_kept_def)
qed

lemma list_keys [key_steps]: "within keys_kept (list_api_keys c i)"
  unfolding list_api_keys_def by (rule kept.read)

lemma get_keys [key_steps]: "within keys_kept (get_api_key c i)"
  unfolding get_api_key_def by (intro kept.rules key_steps) (auto split: list.split intro: kept.ret kept.fail)

lemma create_tx_keys [key_steps]: "within keys_kept (create_key_tx h c i key name origin)"
  unfolding create_key_tx_def by (intro kept.rules key_steps)

lemma update_tx_keys [key_steps]: "within keys_kept (update_key_tx c i name origin)"
  unfolding update_key_tx_def update_api_key_def by (intro kept.rules key_steps) (simp add: renamed_key_def key_kept_def)

lemma revoke_tx_keys [key_steps]: "within keys_kept (revoke_key_tx c i)"
  unfolding revoke_key_tx_def revoke_api_key_def by (intro kept.rules key_steps) (simp add: key_kept_def)

lemma touch_keys: "keys_kept s (snd (touch_api_key c k s))"
proof -
  have "within keys_kept (writeT (key_touched c' i))" for c' i
  proof (rule withinI)
    fix s x s'
    assume "writeT (key_touched c' i) s = Inr (x, s')"
    then have "api_keys s' = map (\<lambda>k. if ak_tenant k = tenant_of c' \<and> ak_id k = i then k\<lparr>ak_last_used_at := Some (c_now c')\<rparr> else k) (api_keys s)"
      by (simp add: key_touched_def row_upd_def)
    then show "keys_kept s s'" by (rule mapped_keys [rotated]) (simp add: key_kept_def)
  qed
  then show ?thesis
    unfolding touch_api_key_def Let_def by (rule in_tenant_tx_within [OF kept.tx_relation_axioms])
qed

text \<open>A transaction of the service, the gate's note that a key was used, or anything that leaves the keys alone.\<close>

inductive key_step :: "(string \<Rightarrow> string) \<Rightarrow> (string \<Rightarrow> parsed_url option) \<Rightarrow> db \<Rightarrow> db \<Rightarrow> bool" for h parse where
  Key_create: "key_step h parse s (snd (create_key_op h parse c i random name origin s))"
| Key_update: "key_step h parse s (snd (update_key_op parse c i n origin' s))"
| Key_revoke: "key_step h parse s (snd (revoke_key_op c i s))"
| Key_touch: "key_step h parse s (snd (touch_api_key c k s))"
| Key_other: "api_keys s' = api_keys s \<Longrightarrow> key_step h parse s s'"

lemma create_op_keys: "keys_kept s (snd (create_key_op h parse c i random name origin s))"
proof -
  have "keys_kept s (snd (in_tenant_tx c (create_key_tx h c i key nm origin) s))" for key nm
    by (rule in_tenant_tx_within [OF kept.tx_relation_axioms create_tx_keys])
  then show ?thesis
    by (auto simp: create_key_op_def Let_def kept.R_refl split: sum.splits prod.splits) (metis snd_conv)+
qed

lemma key_step_kept: "key_step h parse s s' \<Longrightarrow> keys_kept s s'"
proof (induction rule: key_step.induct)
  case (Key_update s c i n origin')
  have "keys_kept s (snd (in_tenant_tx c (update_key_tx c i nm origin') s))" for nm
    by (rule in_tenant_tx_within [OF kept.tx_relation_axioms update_tx_keys])
  then show ?case by (simp add: update_key_op_def Let_def kept.R_refl)
next
  case (Key_revoke s c i)
  show ?case unfolding revoke_key_op_def by (rule in_tenant_tx_within [OF kept.tx_relation_axioms revoke_tx_keys])
qed (simp_all add: create_op_keys touch_keys same_keys)

end
