(* ===== verification/KeyRuns.thy ===== *)
theory KeyRuns
  imports Keys
begin

text \<open>
  What the gate promises while keys are made, edited and revoked and many requests are under way: \<open>gate_step\<close> is one
  transaction of the keys' service, a request's read of the database or its note in the cache, or time passing. Between
  the read and the note at most \<open>lat\<close> passes.
\<close>

record gate_world =
  kw_db :: db
  kw_cache :: key_cache
  kw_now :: instant
  kw_reads :: "(string \<times> resolved_key \<times> instant) list"

inductive gate_step :: "(string \<Rightarrow> string) \<Rightarrow> (string \<Rightarrow> parsed_url option) \<Rightarrow> int \<Rightarrow> gate_world \<Rightarrow> gate_world \<Rightarrow> bool" for h parse lat where
  Gate_tick: "kw_now w \<le> n \<Longrightarrow> gate_step h parse lat w (w\<lparr>kw_now := n\<rparr>)"
| Gate_db: "key_step h parse (kw_db w) s \<Longrightarrow> gate_step h parse lat w (w\<lparr>kw_db := s\<rparr>)"
| Gate_read: "resolve_api_key (h raw) (kw_db w) = Inr k \<Longrightarrow>
    gate_step h parse lat w (w\<lparr>kw_reads := (h raw, k, kw_now w) # kw_reads w\<rparr>)"
| Gate_shop: "active_tenant_by_slug slug (kw_db w) = Inr t \<Longrightarrow>
    gate_step h parse lat w (w\<lparr>kw_reads := (shop_entry slug, shop_only t, kw_now w) # kw_reads w\<rparr>)"
| Gate_note: "(entry, k, t) \<in> set (kw_reads w) \<Longrightarrow> kw_now w \<le> t + lat \<Longrightarrow>
    gate_step h parse lat w (w\<lparr>kw_cache := keep_key entry k (kw_now w) (kw_cache w)\<rparr>)"

definition gate_start :: "gate_world \<Rightarrow> bool" where
  "gate_start w \<longleftrightarrow> keys_unique (kw_db w) \<and> kw_cache w = (\<lambda>_. None) \<and> kw_reads w = []"

definition gate_reach :: "(string \<Rightarrow> string) \<Rightarrow> (string \<Rightarrow> parsed_url option) \<Rightarrow> int \<Rightarrow> gate_world \<Rightarrow> bool" where
  "gate_reach h parse lat w \<longleftrightarrow> (\<exists>w0. gate_start w0 \<and> (gate_step h parse lat)\<^sup>*\<^sup>* w0 w)"

text \<open>\<open>h\<close> writes base64, which has no colon.\<close>

definition plain_hash :: "(string \<Rightarrow> string) \<Rightarrow> bool" where
  "plain_hash h \<longleftrightarrow> (\<forall>x. CHR '':'' \<notin> set (h x))"

lemma no_shop_entry: "plain_hash h \<Longrightarrow> h x \<noteq> shop_entry slug"
  unfolding plain_hash_def shop_entry_def by (metis in_set_conv_decomp append_Cons append_Nil)

section \<open>The key of a hash\<close>

definition key_named :: "db \<Rightarrow> string \<Rightarrow> resolved_key \<Rightarrow> bool" where
  "key_named s hash k \<longleftrightarrow> (\<exists>row \<in> set (api_keys s). ak_key_hash row = hash \<and> ak_id row = rk_id k \<and> ak_tenant row = rk_tenant k)"

lemma resolve_Inr: "resolve_api_key hash s = Inr k \<Longrightarrow>
    \<exists>row \<in> set (api_keys s). ak_key_hash row = hash \<and> k = resolved_of row"
  by (auto simp: resolve_api_key_def find_Some_iff split: option.splits)

lemma resolve_named: "resolve_api_key hash s = Inr k \<Longrightarrow> key_named s hash k"
  by (drule resolve_Inr) (auto simp: key_named_def resolved_of_def)

lemma hash_row: "keys_unique s \<Longrightarrow> row \<in> set (api_keys s) \<Longrightarrow> row' \<in> set (api_keys s) \<Longrightarrow>
    ak_key_hash row' = ak_key_hash row \<Longrightarrow> row' = row"
  unfolding keys_unique_def distinct_map by (blast dest: inj_onD)

lemma key_named_kept: "keys_kept s s' \<Longrightarrow> key_named s hash k \<Longrightarrow> key_named s' hash k"
  unfolding key_named_def keys_kept_def key_kept_def by metis

lemma resolve_row:
  assumes "keys_unique s" "row \<in> set (api_keys s)" "ak_key_hash row = hash"
  shows "resolve_api_key hash s = Inr (resolved_of row)"
proof -
  have "find (\<lambda>k. ak_key_hash k = hash) xs = Some row"
    if "row \<in> set xs" "distinct (map ak_key_hash xs)" for xs
    using that assms(3) by (induction xs) (auto simp: image_iff)
  then show ?thesis using assms(1,2) by (simp add: keys_unique_def resolve_api_key_def)
qed

lemma revoked_kept:
  assumes "keys_kept s s'" "keys_unique s" "resolve_api_key hash s = Inr k" "rk_revoked_at k \<noteq> None"
  shows "\<exists>k'. resolve_api_key hash s' = Inr k' \<and> rk_revoked_at k' \<noteq> None"
proof -
  obtain row where row: "row \<in> set (api_keys s)" "ak_key_hash row = hash" "k = resolved_of row"
    using resolve_Inr [OF assms(3)] by blast
  obtain row' where row': "row' \<in> set (api_keys s')" "key_kept row row'" using assms(1) row(1) by (auto simp: keys_kept_def)
  have "keys_unique s'" using assms(1,2) by (simp add: keys_kept_def)
  then have "resolve_api_key hash s' = Inr (resolved_of row')"
    by (rule resolve_row) (use row' row(2) in \<open>simp_all add: key_kept_def\<close>)
  then show ?thesis using row' row(3) assms(4) by (auto simp: resolved_of_def key_kept_def)
qed

text \<open>Every reachable world: what is cached or being read names a key of the table, and nothing is from the future.\<close>

definition gate_sound :: "(string \<Rightarrow> string) \<Rightarrow> gate_world \<Rightarrow> bool" where
  "gate_sound h w \<longleftrightarrow> keys_unique (kw_db w) \<and>
     (\<forall>raw e. kw_cache w (h raw) = Some e \<longrightarrow> key_named (kw_db w) (h raw) (kc_key e) \<and> kc_at e \<le> kw_now w) \<and>
     (\<forall>raw k t. (h raw, k, t) \<in> set (kw_reads w) \<longrightarrow> key_named (kw_db w) (h raw) k \<and> t \<le> kw_now w)"

lemma gate_soundD:
  assumes "gate_sound h w"
  shows gate_unique: "keys_unique (kw_db w)"
    and gate_cached: "kw_cache w (h raw) = Some e \<Longrightarrow> key_named (kw_db w) (h raw) (kc_key e) \<and> kc_at e \<le> kw_now w"
    and gate_reading: "(h raw, k, t) \<in> set (kw_reads w) \<Longrightarrow> key_named (kw_db w) (h raw) k \<and> t \<le> kw_now w"
  using assms unfolding gate_sound_def by blast+

lemma gate_step_sound:
  assumes "plain_hash h" "gate_step h parse lat w w'" "gate_sound h w"
  shows "gate_sound h w'"
  using assms(2,3)
proof (induction rule: gate_step.induct)
  case (Gate_tick w n)
  then show ?case unfolding gate_sound_def by fastforce
next
  case (Gate_db w s)
  have "keys_kept (kw_db w) s" by (rule key_step_kept [OF Gate_db.hyps])
  then show ?case
    using Gate_db.prems key_named_kept unfolding gate_sound_def by (auto simp: keys_kept_def)
next
  case (Gate_read raw w k)
  then show ?case
    using resolve_named [OF Gate_read.hyps] unfolding gate_sound_def by auto
next
  case (Gate_shop slug w t)
  then show ?case using no_shop_entry [OF assms(1)] unfolding gate_sound_def by auto
next
  case (Gate_note entry k t w)
  then show ?case unfolding gate_sound_def keep_key_def by auto
qed

lemma gate_reach_sound: "plain_hash h \<Longrightarrow> gate_reach h parse lat w \<Longrightarrow> gate_sound h w"
proof -
  assume "plain_hash h" "gate_reach h parse lat w"
  then obtain w0 where w0: "gate_start w0" and steps: "(gate_step h parse lat)\<^sup>*\<^sup>* w0 w" by (auto simp: gate_reach_def)
  from steps show ?thesis
  proof (induction rule: rtranclp_induct)
    case base
    then show ?case using w0 by (simp add: gate_start_def gate_sound_def)
  next
    case (step y z)
    then show ?case using gate_step_sound [OF \<open>plain_hash h\<close>] by blast
  qed
qed

lemma resolve_op_named:
  assumes "gate_sound h w" "fst (resolve_op c t1 t2 (h raw) (kw_db w, kw_cache w)) = Inr k"
  shows "key_named (kw_db w) (h raw) k"
  using assms resolve_named gate_cached [OF assms(1)]
  by (fastforce simp: resolve_op_def fresh_def split: option.splits sum.splits if_splits)

text \<open>C33. Whatever keys are made, edited and revoked while requests come and go, a request the gate lets through with
  an API key gets the shop of the one key that has its hash, and never another: no staleness of the cache moves a key
  between shops. A browser's request is let through, and may be read, from the origin of that key only.\<close>

theorem key_names_its_shop:
  assumes "plain_hash h" "gate_reach h parse lat w" "rq_key r \<noteq> platform"
    and "fst (gate_op h platform c t1 t2 r (kw_db w, kw_cache w)) = Admitted t key allow"
  shows "(\<exists>!row. row \<in> set (api_keys (kw_db w)) \<and> ak_key_hash row = h (rq_key r)) \<and>
    (\<exists>row \<in> set (api_keys (kw_db w)). ak_key_hash row = h (rq_key r) \<and> ak_tenant row = t \<and> ak_id row = sk_id key) \<and>
    allow = (if rq_origin r = [] then None else Some (sk_origin key)) \<and> rq_origin r \<in> {[], sk_origin key}"
proof -
  have sound: "gate_sound h w" by (rule gate_reach_sound [OF assms(1,2)])
  obtain k where k: "fst (resolve_op c t1 t2 (h (rq_key r)) (kw_db w, kw_cache w)) = Inr k"
      "t = rk_tenant k" "sk_id key = rk_id k" "sk_origin key = rk_origin k"
      "allow = (if rq_origin r = [] then None else Some (rq_origin r))" "rq_origin r = [] \<or> rq_origin r = rk_origin k"
    using assms(3,4) by (auto simp: gate_op_def key_answer_def split: if_splits sum.splits prod.splits)
  obtain row where row: "row \<in> set (api_keys (kw_db w))" "ak_key_hash row = h (rq_key r)" "ak_id row = rk_id k" "ak_tenant row = rk_tenant k"
    using resolve_op_named [OF sound k(1)] by (auto simp: key_named_def)
  have "row' = row" if "row' \<in> set (api_keys (kw_db w))" "ak_key_hash row' = h (rq_key r)" for row'
    using hash_row [OF gate_unique [OF sound] row(1) that(1)] that(2) row(2) by simp
  then have "\<exists>!row. row \<in> set (api_keys (kw_db w)) \<and> ak_key_hash row = h (rq_key r)" using row(1,2) by blast
  moreover have "\<exists>row \<in> set (api_keys (kw_db w)). ak_key_hash row = h (rq_key r) \<and> ak_tenant row = t \<and> ak_id row = sk_id key"
    using row k(2,3) by (intro bexI [of _ row]) simp_all
  ultimately show ?thesis using k(4,5,6) by auto
qed

section \<open>Revocation\<close>

text \<open>From the moment \<open>n\<close> the key of \<open>raw\<close> was seen revoked: what the process still believes is older.\<close>

definition revoked_since :: "(string \<Rightarrow> string) \<Rightarrow> string \<Rightarrow> int \<Rightarrow> instant \<Rightarrow> gate_world \<Rightarrow> bool" where
  "revoked_since h raw lat n w \<longleftrightarrow> keys_unique (kw_db w) \<and> n \<le> kw_now w \<and>
     (\<exists>k. resolve_api_key (h raw) (kw_db w) = Inr k \<and> rk_revoked_at k \<noteq> None) \<and>
     (\<forall>e. kw_cache w (h raw) = Some e \<longrightarrow> rk_revoked_at (kc_key e) \<noteq> None \<or> kc_at e \<le> n + lat) \<and>
     (\<forall>k t. (h raw, k, t) \<in> set (kw_reads w) \<longrightarrow> rk_revoked_at k \<noteq> None \<or> t \<le> n)"

lemma revoked_since_step:
  assumes "plain_hash h" "gate_step h parse lat w w'" "revoked_since h raw lat n w"
  shows "revoked_since h raw lat n w'"
  using assms(2,3)
proof (induction rule: gate_step.induct)
  case (Gate_tick w n')
  then show ?case by (simp add: revoked_since_def)
next
  case (Gate_db w s)
  have k: "keys_kept (kw_db w) s" by (rule key_step_kept [OF Gate_db.hyps])
  have "\<exists>k'. resolve_api_key (h raw) s = Inr k' \<and> rk_revoked_at k' \<noteq> None"
    using Gate_db.prems revoked_kept [OF k] unfolding revoked_since_def by blast
  then show ?case using Gate_db.prems k by (simp add: revoked_since_def keys_kept_def)
next
  case (Gate_read raw' w k)
  have "rk_revoked_at k \<noteq> None" if "h raw' = h raw"
    using Gate_read.hyps Gate_read.prems that by (auto simp: revoked_since_def)
  then show ?case using Gate_read.prems by (auto simp: revoked_since_def)
next
  case (Gate_shop slug w t)
  then show ?case using no_shop_entry [OF assms(1)] by (simp add: revoked_since_def)
next
  case (Gate_note entry k t w)
  have "rk_revoked_at k \<noteq> None \<or> kw_now w \<le> n + lat" if "entry = h raw"
  proof -
    have "rk_revoked_at k \<noteq> None \<or> t \<le> n" using Gate_note.hyps(1) Gate_note.prems that unfolding revoked_since_def by blast
    then show ?thesis using Gate_note.hyps(2) by auto
  qed
  then show ?case using Gate_note.prems by (simp add: revoked_since_def keep_key_def)
qed

lemma revoked_since_resolves:
  assumes "revoked_since h raw lat n w" "n + lat + key_cache_ttl \<le> t1"
  shows "\<exists>k. fst (resolve_op c t1 t2 (h raw) (kw_db w, kw_cache w)) = Inr k \<and> rk_revoked_at k \<noteq> None"
proof (cases "fresh t1 (kw_cache w (h raw))")
  case None
  then show ?thesis using assms(1) by (auto simp: revoked_since_def resolve_op_def)
next
  case (Some k)
  then obtain e where e: "kw_cache w (h raw) = Some e" "t1 - kc_at e < key_cache_ttl" "k = kc_key e"
    by (auto simp: fresh_def split: option.splits if_splits)
  then have "rk_revoked_at k \<noteq> None" using assms unfolding revoked_since_def by fastforce
  then show ?thesis using Some by (simp add: resolve_op_def)
qed

text \<open>C34. A revoked API key stops working within the cache's 60 seconds, and the time a read of the database takes: once
  its row is revoked, every request with it from then on is refused as a key that does not exist, whatever else the
  shop's staff do and whatever requests were under way.\<close>

theorem revoked_key_dies:
  assumes "plain_hash h" "gate_reach h parse lat w" "0 \<le> lat"
    and "resolve_api_key (h (rq_key r)) (kw_db w) = Inr k" "rk_revoked_at k \<noteq> None"
    and "(gate_step h parse lat)\<^sup>*\<^sup>* w w'" "kw_now w + lat + key_cache_ttl \<le> t1"
    and "rq_key r \<noteq> platform" "rq_method r \<noteq> ''OPTIONS''"
  shows "fst (gate_op h platform c t1 t2 r (kw_db w', kw_cache w')) = Refused invalid_api_key"
proof -
  have sound: "gate_sound h w" by (rule gate_reach_sound [OF assms(1,2)])
  have "kc_at e \<le> kw_now w + lat" if "kw_cache w (h (rq_key r)) = Some e" for e
    using gate_cached [OF sound that] assms(3) by simp
  then have "revoked_since h (rq_key r) lat (kw_now w) w"
    using gate_unique [OF sound] gate_reading [OF sound] assms(4,5) unfolding revoked_since_def by auto
  from assms(6) this have "revoked_since h (rq_key r) lat (kw_now w) w'"
    by (induction rule: rtranclp_induct) (use revoked_since_step [OF assms(1)] in blast)+
  from revoked_since_resolves [OF this assms(7), of c t2] show ?thesis
    using assms(8,9) by (auto simp: gate_op_def key_answer_def split: prod.splits)
qed

section \<open>A shop with one key\<close>

definition sample_key :: "instant option \<Rightarrow> api_key" where
  "sample_key gone = \<lparr>ak_id = 11, ak_tenant = 1, ak_name = ''web'', ak_key_hash = ''yek'', ak_allowed_origin = ''https://toko.id'',
     ak_last_used_at = None, ak_revoked_at = gone, ak_created_by = None, ak_created_at = 0, ak_key_last4 = None\<rparr>"

definition key_world :: "instant option \<Rightarrow> gate_world" where
  "key_world gone = \<lparr>kw_db = empty_db\<lparr>api_keys := [sample_key gone]\<rparr>, kw_cache = (\<lambda>_. None), kw_now = 0, kw_reads = []\<rparr>"

definition sample_hash :: "string \<Rightarrow> string" where
  "sample_hash x = filter (\<lambda>ch. ch \<noteq> CHR '':'') (List.rev x)"

definition key_ctx :: ctx where
  "key_ctx = \<lparr>c_tenant = None, c_actor = None, c_ip = None, c_role = None, c_now = 0, c_clock = 0\<rparr>"

definition from_page :: request where
  "from_page = \<lparr>rq_method = ''GET'', rq_origin = ''https://toko.id'', rq_key = ''key'', rq_shop = []\<rparr>"

lemma sample_plain: "plain_hash sample_hash"
  by (simp add: plain_hash_def sample_hash_def)

lemma sample_reach: "gate_reach sample_hash parse lat (key_world gone)"
  unfolding gate_reach_def by (rule exI [of _ "key_world gone"]) (simp add: gate_start_def keys_unique_def key_world_def)

lemma sample_resolves: "resolve_api_key ''yek'' (kw_db (key_world gone)) = Inr (resolved_of (sample_key gone))"
  by (simp add: resolve_api_key_def key_world_def sample_key_def)

lemma sample_admitted: "fst (gate_op sample_hash [] key_ctx 0 0 from_page (kw_db (key_world None), kw_cache (key_world None))) =
    Admitted 1 \<lparr>sk_id = 11, sk_origin = ''https://toko.id'', sk_browser = True\<rparr> (Some ''https://toko.id'')"
  using sample_resolves [of None]
  by (simp add: gate_op_def resolve_op_def key_answer_def from_page_def fresh_def key_world_def sample_hash_def resolved_of_def sample_key_def)

theorem key_names_its_shop_witness:
  "\<exists>!row. row \<in> set (api_keys (kw_db (key_world None))) \<and> ak_key_hash row = ''yek''"
proof -
  have "(\<exists>!row. row \<in> set (api_keys (kw_db (key_world None))) \<and> ak_key_hash row = sample_hash (rq_key from_page))"
    using key_names_its_shop [OF sample_plain sample_reach [of "\<lambda>_. None" 0 None] _ sample_admitted] by (simp add: from_page_def)
  then show ?thesis by (simp add: sample_hash_def from_page_def)
qed

theorem revoked_key_dies_witness:
  "fst (gate_op sample_hash [] key_ctx (key_cache_ttl + 5) 0 from_page (kw_db (key_world (Some 0)), kw_cache (key_world (Some 0)))) = Refused invalid_api_key"
proof -
  have r: "resolve_api_key (sample_hash (rq_key from_page)) (kw_db (key_world (Some 0))) = Inr (resolved_of (sample_key (Some 0)))"
    using sample_resolves [of "Some 0"] by (simp add: sample_hash_def from_page_def)
  show ?thesis
    by (rule revoked_key_dies [OF sample_plain sample_reach [of "\<lambda>_. None" 5] _ r])
      (simp_all add: resolved_of_def sample_key_def key_world_def from_page_def)
qed

end
