(* ===== verification/OrderLists.thy ===== *)
theory OrderLists
  imports ProductLists OrderState Team
begin

text \<open>
  Reading orders: the admin's list and detail (internal/orders/order_list.go, detail.go), the shopper's own orders
  (history.go) and the customers (customers.go), with their statements. \<open>doc d k\<close> is the text under \<open>k\<close> of a stored JSON
  document, \<open>d->>'k'\<close>.
\<close>

section \<open>The order list\<close>

record order_filter =
  og_status :: "string list"
  og_source :: "string option"
  og_customer :: "uuid option"
  og_refund_owed :: "bool option"
  og_from :: "instant option"
  og_to :: "instant option"
  og_q :: "string option"
  og_sort :: string
  og_after :: "(instant \<times> uuid) option"
  og_page :: int
  og_limit :: int

definition all_orders :: order_filter where
  "all_orders = \<lparr>og_status = [], og_source = None, og_customer = None, og_refund_owed = None, og_from = None, og_to = None,
     og_q = None, og_sort = [], og_after = None, og_page = 0, og_limit = 0\<rparr>"

text \<open>The predicate of the partial index: cancelled after it was paid, and not refunded.\<close>

definition refund_owed :: "order \<Rightarrow> bool" where
  "refund_owed o' \<longleftrightarrow> or_status o' = S_cancelled \<and> or_paid_at o' \<noteq> None \<and> or_refunded_at o' = None"

definition q_match :: "pg_text \<Rightarrow> (string \<Rightarrow> string \<Rightarrow> string option) \<Rightarrow> string option \<Rightarrow> order \<Rightarrow> bool" where
  "q_match pg doc q o' = (case like_pattern q of None \<Rightarrow> True | Some x \<Rightarrow>
     (let hit = (\<lambda>t. case t of None \<Rightarrow> False | Some y \<Rightarrow> pt_ilike pg y (''%'' @ x @ ''%'')) in
      hit (Some (or_number o')) \<or> hit (doc (or_customer o') ''name'') \<or> hit (doc (or_customer o') ''email'') \<or> hit (doc (or_customer o') ''phone'')))"

definition filter_sql :: "pg_text \<Rightarrow> (string \<Rightarrow> string \<Rightarrow> string option) \<Rightarrow> order_filter \<Rightarrow> order \<Rightarrow> bool" where
  "filter_sql pg doc f o' \<longleftrightarrow>
     (og_status f = [] \<or> or_status o' \<in> set (og_status f)) \<and>
     (case og_source f of None \<Rightarrow> True | Some x \<Rightarrow> or_source o' = x) \<and>
     (case og_customer f of None \<Rightarrow> True | Some x \<Rightarrow> or_customer_id o' = Some x) \<and>
     (case og_refund_owed f of None \<Rightarrow> True | Some b \<Rightarrow> refund_owed o' = b) \<and>
     (case og_from f of None \<Rightarrow> True | Some t \<Rightarrow> t \<le> or_placed_at o') \<and>
     (case og_to f of None \<Rightarrow> True | Some t \<Rightarrow> or_placed_at o' < t) \<and>
     q_match pg doc (og_q f) o'"

record order_row =
  ow_id :: uuid
  ow_number :: string
  ow_source :: string
  ow_status :: string
  ow_version :: int
  ow_customer :: string
  ow_item_count :: int
  ow_total :: int
  ow_placed_at :: instant
  ow_paid_at :: "instant option"
  ow_refunded_at :: "instant option"

record order_page =
  og_rows :: "order_row list"
  og_next :: "(instant \<times> uuid) option"
  og_total :: int

definition own_orders :: "ctx \<Rightarrow> db \<Rightarrow> order list" where
  "own_orders c s = rows_of or_tenant (tenant_of c) (orders s)"

definition order_row_of :: "ctx \<Rightarrow> db \<Rightarrow> order \<Rightarrow> order_row" where
  "order_row_of c s r = \<lparr>ow_id = or_id r, ow_number = or_number r, ow_source = or_source r, ow_status = or_status r,
     ow_version = or_version r, ow_customer = or_customer r, ow_item_count = item_count (tenant_of c) (or_id r) s,
     ow_total = or_total r, ow_placed_at = or_placed_at r, ow_paid_at = or_paid_at r, ow_refunded_at = or_refunded_at r\<rparr>"

definition placed_key :: "order \<Rightarrow> instant \<times> uuid" where
  "placed_key r = (or_placed_at r, or_id r)"

definition list_orders_tx :: "pg_text \<Rightarrow> (string \<Rightarrow> string \<Rightarrow> string option) \<Rightarrow> ctx \<Rightarrow> order_filter \<Rightarrow> (int \<times> order_row list) stmt" where
  "list_orders_tx pg doc c f =
    (let after = (if og_page f > 0 then None else og_after f);
         page = (\<lambda>s. fetch (og_sort f \<noteq> ''placed_at'') placed_key after (og_page f) (og_limit f) (filter (filter_sql pg doc f) (own_orders c s))) in
     bindT (readT (\<lambda>s. int (length (filter (filter_sql pg doc f) (own_orders c s))))) (\<lambda>count.
     thenT (guardT (\<lambda>_. \<not> bad_offset (og_page f) (og_limit f)) offset_error)
     (thenT (guardT (\<lambda>s. list_all (\<lambda>r. is_i32 (item_count (tenant_of c) (or_id r) s)) (page s)) out_of_range)
     (bindT (readT (\<lambda>s. map (order_row_of c s) (page s))) (\<lambda>rows. retT (count, rows))))))"

definition list_orders :: "pg_text \<Rightarrow> (string \<Rightarrow> string \<Rightarrow> string option) \<Rightarrow> ctx \<Rightarrow> order_filter \<Rightarrow> db \<Rightarrow> (err + order_page) \<times> db" where
  "list_orders pg doc c f s = (case in_tenant_tx c (list_orders_tx pg doc c f) s of
      (Inl e, s') \<Rightarrow> (Inl e, s')
    | (Inr (count, rows), s') \<Rightarrow> (case cut_page (og_limit f) rows of (out, fin) \<Rightarrow>
        (Inr \<lparr>og_rows = out, og_next = map_option (\<lambda>r. (ow_placed_at r, ow_id r)) fin, og_total = count\<rparr>, s')))"

section \<open>A shopper's orders\<close>

definition customer_orders_op :: "ctx \<Rightarrow> uuid \<Rightarrow> (instant \<times> uuid) option \<Rightarrow> int \<Rightarrow> db \<Rightarrow>
    (err + customer_order_row list \<times> (instant \<times> uuid) option) \<times> db" where
  "customer_orders_op c cid after limit s = (case in_tenant_tx c (customer_orders_query c cid after (wrap32 (limit + 1))) s of
      (Inl e, s') \<Rightarrow> (Inl e, s')
    | (Inr rows, s') \<Rightarrow> (case cut_page limit rows of (out, fin) \<Rightarrow>
        (Inr (out, map_option (\<lambda>r. (cr_placed_at r, cr_id r)) fin), s')))"

record order_view =
  vw_order :: order
  vw_lines :: "order_line list"
  vw_latest :: "payment option"

definition no_such_order :: err where
  "no_such_order = Opaque ''no such order''"

definition by_number_tx :: "ctx \<Rightarrow> string \<Rightarrow> order_view stmt" where
  "by_number_tx c n =
    bindT (mapErrT (\<lambda>e. if e = NoRows then no_such_order else e) (order_by_number c n)) (\<lambda>r.
    bindT (get_order_lines c (or_id r)) (\<lambda>ls.
    bindT (tryT (latest_payment c (or_id r))) (\<lambda>p. case p of
        Inr q \<Rightarrow> retT \<lparr>vw_order = r, vw_lines = ls, vw_latest = Some q\<rparr>
      | Inl e \<Rightarrow> if e = NoRows then retT \<lparr>vw_order = r, vw_lines = ls, vw_latest = None\<rparr> else failT e)))"

definition by_number :: "ctx \<Rightarrow> string \<Rightarrow> db \<Rightarrow> (err + order_view) \<times> db" where
  "by_number c n = in_tenant_tx c (by_number_tx c n)"

definition payment_status :: "order_view \<Rightarrow> string option" where
  "payment_status v = (if or_payment_method (vw_order v) \<noteq> S_midtrans then None
     else if or_paid_at (vw_order v) \<noteq> None then Some S_paid
     else (case vw_latest v of None \<Rightarrow> Some S_pending
       | Some p \<Rightarrow> Some (if pa_status p = S_paid \<or> pa_status p = S_failed then pa_status p else S_pending)))"

section \<open>The order's detail\<close>

record trail_row =
  tr_action :: string
  tr_actor :: "uuid option"
  tr_actor_name :: "string option"
  tr_before :: "dyn option"
  tr_after :: "dyn option"
  tr_created_at :: instant

definition user_name :: "ctx \<Rightarrow> db \<Rightarrow> uuid option \<Rightarrow> string option" where
  "user_name c s u = (case u of None \<Rightarrow> None | Some i \<Rightarrow> map_option us_name (get_user_row (tenant_of c) i s))"

text \<open>The log is in the order of its ids, so the newest come first: a stable sort of the reversed log.\<close>

definition order_audit_trail :: "ctx \<Rightarrow> uuid \<Rightarrow> trail_row list stmt" where
  "order_audit_trail c oid = readT (\<lambda>s. map (\<lambda>a. \<lparr>tr_action = au_action a, tr_actor = au_actor a, tr_actor_name = user_name c s (au_actor a),
       tr_before = au_before a, tr_after = au_after a, tr_created_at = au_created_at a\<rparr>)
     (sort_key (\<lambda>a. - au_created_at a) (List.rev (filter (\<lambda>a. au_subject_type a = ''order'' \<and> au_subject_id a = DId oid)
       (rows_of au_tenant (tenant_of c) (audit_log s))))))"

record history_entry =
  he_actor :: "uuid option"
  he_actor_name :: "string option"
  he_action :: string
  he_from :: "string option"
  he_to :: "string option"
  he_created_at :: instant

definition status_of :: "dyn option \<Rightarrow> string option" where
  "status_of d = (case d of Some (DObj kvs) \<Rightarrow> (case map_of (List.rev kvs) ''status'' of Some (DStr x) \<Rightarrow> Some x | _ \<Rightarrow> None) | _ \<Rightarrow> None)"

definition history_of :: "trail_row \<Rightarrow> history_entry" where
  "history_of r = \<lparr>he_actor = tr_actor r, he_actor_name = tr_actor_name r, he_action = tr_action r,
     he_from = status_of (tr_before r), he_to = status_of (tr_after r), he_created_at = tr_created_at r\<rparr>"

record order_detail =
  dt_order :: order
  dt_lines :: "order_line list"
  dt_payments :: "payment list"
  dt_history :: "history_entry list"

definition read_order :: "ctx \<Rightarrow> uuid \<Rightarrow> order stmt" where
  "read_order c oid = oneT (get_order (tenant_of c) oid)"

definition order_detail_tx :: "ctx \<Rightarrow> uuid \<Rightarrow> order_detail stmt" where
  "order_detail_tx c oid =
    bindT (mapErrT (no_such ''order'') (read_order c oid)) (\<lambda>r.
    bindT (get_order_lines c oid) (\<lambda>ls.
    bindT (order_payments c oid) (\<lambda>ps.
    bindT (order_audit_trail c oid) (\<lambda>rows.
    retT \<lparr>dt_order = r, dt_lines = ls, dt_payments = ps, dt_history = map history_of rows\<rparr>))))"

definition order_detail_op :: "ctx \<Rightarrow> uuid \<Rightarrow> db \<Rightarrow> (err + order_detail) \<times> db" where
  "order_detail_op c oid = in_tenant_tx c (order_detail_tx c oid)"

section \<open>Customers as staff see them\<close>

text \<open>Never a credential: the rows name their columns (BR-092).\<close>

record customer_row =
  cw_id :: uuid
  cw_name :: string
  cw_email :: string
  cw_phone :: "string option"
  cw_created_at :: instant
  cw_purged_at :: "instant option"
  cw_orders :: int

definition own_customers :: "ctx \<Rightarrow> db \<Rightarrow> customer list" where
  "own_customers c s = rows_of cu_tenant (tenant_of c) (customers s)"

definition customer_row_of :: "ctx \<Rightarrow> db \<Rightarrow> customer \<Rightarrow> customer_row" where
  "customer_row_of c s r = \<lparr>cw_id = cu_id r, cw_name = cu_name r, cw_email = cu_email r, cw_phone = cu_phone r,
     cw_created_at = cu_created_at r, cw_purged_at = cu_purged_at r,
     cw_orders = int (length (filter (\<lambda>x. or_customer_id x = Some (cu_id r)) (own_orders c s)))\<rparr>"

definition customer_match :: "pg_text \<Rightarrow> string option \<Rightarrow> customer \<Rightarrow> bool" where
  "customer_match pg pat r = (case pat of None \<Rightarrow> True | Some q \<Rightarrow> pt_ilike pg (cu_name r) (''%'' @ q @ ''%'') \<or>
     pt_ilike pg (cu_email r) (''%'' @ q @ ''%'') \<or> (case cu_phone r of None \<Rightarrow> False | Some x \<Rightarrow> pt_ilike pg x (''%'' @ q @ ''%'')))"

definition count_customers :: "pg_text \<Rightarrow> ctx \<Rightarrow> string option \<Rightarrow> int stmt" where
  "count_customers pg c pat = readT (\<lambda>s. int (length (filter (customer_match pg pat) (own_customers c s))))"

definition list_customers_query :: "pg_text \<Rightarrow> ctx \<Rightarrow> string option \<Rightarrow> uuid option \<Rightarrow> int \<Rightarrow> int \<Rightarrow> customer_row list stmt" where
  "list_customers_query pg c pat before off lim =
    thenT (guardT (\<lambda>_. 0 \<le> off) offset_error)
    (readT (\<lambda>s. map (customer_row_of c s) (take (nat lim) (drop (nat off) (in_order True cu_id
       (filter (\<lambda>r. customer_match pg pat r \<and> (case before of None \<Rightarrow> True | Some i \<Rightarrow> cu_id r < i)) (own_customers c s)))))))"

definition get_customer_query :: "ctx \<Rightarrow> uuid \<Rightarrow> customer_row stmt" where
  "get_customer_query c i = bindT (oneT (\<lambda>s. row_get cu_tenant cu_id (tenant_of c) i (customers s))) (\<lambda>r. readT (\<lambda>s. customer_row_of c s r))"

record customer_page =
  cp_rows :: "customer_row list"
  cp_next :: "uuid option"
  cp_count :: int

definition list_customers_tx :: "pg_text \<Rightarrow> ctx \<Rightarrow> string option \<Rightarrow> uuid option \<Rightarrow> int \<Rightarrow> int \<Rightarrow> (int \<times> customer_row list) stmt" where
  "list_customers_tx pg c pat before off lim =
    bindT (count_customers pg c pat) (\<lambda>n. bindT (list_customers_query pg c pat before off lim) (\<lambda>rows. retT (n, rows)))"

definition list_customers :: "pg_text \<Rightarrow> ctx \<Rightarrow> string option \<Rightarrow> uuid option \<Rightarrow> int \<Rightarrow> int \<Rightarrow> db \<Rightarrow> (err + customer_page) \<times> db" where
  "list_customers pg c q after page limit s =
    (case in_tenant_tx c (list_customers_tx pg c (like_pattern q) (if page > 0 then None else after)
        (if page > 0 then wrap32 ((page - 1) * limit) else 0) (wrap32 (limit + 1))) s of
      (Inl e, s') \<Rightarrow> (Inl e, s')
    | (Inr (n, rows), s') \<Rightarrow> (case cut_page limit rows of (out, fin) \<Rightarrow>
        (Inr \<lparr>cp_rows = out, cp_next = map_option cw_id fin, cp_count = n\<rparr>, s')))"

definition get_customer_op :: "pg_text \<Rightarrow> (string \<Rightarrow> string \<Rightarrow> string option) \<Rightarrow> ctx \<Rightarrow> uuid \<Rightarrow> db \<Rightarrow> (err + customer_row \<times> order_row list) \<times> db" where
  "get_customer_op pg doc c i s = (case in_tenant_tx c (mapErrT (no_such ''customer'') (get_customer_query c i)) s of
      (Inl e, s') \<Rightarrow> (Inl e, s')
    | (Inr r, s') \<Rightarrow> (case list_orders pg doc c (all_orders\<lparr>og_customer := Some i, og_limit := 50\<rparr>) s' of
        (Inl e, s'') \<Rightarrow> (Inl e, s'') | (Inr page, s'') \<Rightarrow> (Inr (r, og_rows page), s'')))"

end
