(* ===== verification/Dashboard.thy ===== *)
theory Dashboard
  imports OrderLists Uuids
begin

text \<open>
  The dashboard (internal/orders/dashboard.go, internal/db/sqlcgen/dashboard.sql.go; BR-066). A calendar day in WIB
  (UTC+7, which has no summer time) is its number from 1970-01-01. \<open>dash_lib\<close> has the database's text functions: the
  fields of a stored JSON document, \<open>lower\<close>, and the collation key of \<open>ORDER BY\<close>.
\<close>

record dash_lib =
  dl_doc :: "string \<Rightarrow> string \<Rightarrow> string option"
  dl_lower :: "string \<Rightarrow> string"
  dl_pg :: pg_text

section \<open>Statements\<close>

text \<open>A period as PostgreSQL gets it: instants to the microsecond.\<close>

record period =
  pd_from :: instant
  pd_to :: instant

definition pg_time :: "instant \<Rightarrow> instant" where
  "pg_time t = t div 1000 * 1000"

definition sold :: "order \<Rightarrow> bool" where
  "sold r \<longleftrightarrow> or_status r \<in> {S_paid, S_processing, S_shipped, S_completed}"

definition counted_orders :: "ctx \<Rightarrow> period \<Rightarrow> db \<Rightarrow> order list" where
  "counted_orders c p s = filter (\<lambda>r. sold r \<and> pg_time (pd_from p) \<le> or_placed_at r \<and> or_placed_at r < pg_time (pd_to p)) (own_orders c s)"

definition groups :: "('r \<Rightarrow> 'k) \<Rightarrow> 'r list \<Rightarrow> 'k list" where
  "groups k rows = remdups (map k rows)"

definition group_of :: "('r \<Rightarrow> 'k) \<Rightarrow> 'k \<Rightarrow> 'r list \<Rightarrow> 'r list" where
  "group_of k j rows = filter (\<lambda>r. k r = j) rows"

definition total_sales :: "order list \<Rightarrow> int" where
  "total_sales rows = sum_list (map or_total rows)"

definition total_items :: "ctx \<Rightarrow> db \<Rightarrow> order list \<Rightarrow> int" where
  "total_items c s rows = sum_list (map (\<lambda>r. item_count (tenant_of c) (or_id r) s) rows)"

text \<open>A sum is cast to \<open>bigint\<close>, which fails out of its range.\<close>

definition sums_fit :: "(db \<Rightarrow> int list) \<Rightarrow> unit stmt" where
  "sums_fit g = guardT (\<lambda>s. list_all is_i64 (g s)) out_of_range"

record figures_row =
  fw_sales :: int
  fw_orders :: int
  fw_items :: int

definition dashboard_figures :: "ctx \<Rightarrow> period \<Rightarrow> figures_row stmt" where
  "dashboard_figures c p =
    (let row = (\<lambda>s. \<lparr>fw_sales = total_sales (counted_orders c p s), fw_orders = int (length (counted_orders c p s)),
        fw_items = total_items c s (counted_orders c p s)\<rparr>) in
     thenT (sums_fit (\<lambda>s. [fw_sales (row s), fw_items (row s)])) (readT row))"

definition wib_day :: "instant \<Rightarrow> int" where
  "wib_day t = (t + hours 7) div hours 24"

definition placed_day :: "order \<Rightarrow> int" where
  "placed_day r = wib_day (or_placed_at r)"

record daily_row =
  dw_day :: int
  dw_sales :: int
  dw_orders :: int
  dw_items :: int

definition dashboard_daily :: "ctx \<Rightarrow> period \<Rightarrow> daily_row list stmt" where
  "dashboard_daily c p =
    (let rows = (\<lambda>s. map (\<lambda>d. let g = group_of placed_day d (counted_orders c p s) in
        \<lparr>dw_day = d, dw_sales = total_sales g, dw_orders = int (length g), dw_items = total_items c s g\<rparr>)
          (sort (groups placed_day (counted_orders c p s)))) in
     thenT (sums_fit (\<lambda>s. concat (map (\<lambda>r. [dw_sales r, dw_items r]) (rows s)))) (readT rows))"

record split =
  sp_key :: string
  sp_sales :: int
  sp_orders :: int

definition dashboard_split :: "(order \<Rightarrow> string) \<Rightarrow> ctx \<Rightarrow> period \<Rightarrow> split list stmt" where
  "dashboard_split key c p =
    (let rows = (\<lambda>s. map (\<lambda>k. let g = group_of key k (counted_orders c p s) in
        \<lparr>sp_key = k, sp_sales = total_sales g, sp_orders = int (length g)\<rparr>) (groups key (counted_orders c p s))) in
     thenT (sums_fit (\<lambda>s. map sp_sales (rows s))) (readT rows))"

definition dashboard_by_source :: "ctx \<Rightarrow> period \<Rightarrow> split list stmt" where
  "dashboard_by_source = dashboard_split or_source"

definition dashboard_by_method :: "ctx \<Rightarrow> period \<Rightarrow> split list stmt" where
  "dashboard_by_method = dashboard_split or_payment_method"

record needs_action =
  na_awaiting :: int
  na_transfers :: int
  na_ready :: int
  na_shipped :: int
  na_refund_owed :: int

definition count_orders :: "ctx \<Rightarrow> (order \<Rightarrow> bool) \<Rightarrow> db \<Rightarrow> int" where
  "count_orders c p s = int (length (filter p (own_orders c s)))"

definition dashboard_needs_action :: "ctx \<Rightarrow> needs_action stmt" where
  "dashboard_needs_action c = readT (\<lambda>s.
     \<lparr>na_awaiting = count_orders c (\<lambda>r. or_status r = S_pending \<and> or_payment_method r = S_midtrans) s,
      na_transfers = count_orders c (\<lambda>r. or_status r = S_pending \<and> or_payment_method r = S_bank_transfer) s,
      na_ready = count_orders c (\<lambda>r. or_status r = S_paid \<or> or_status r = S_processing) s,
      na_shipped = count_orders c (\<lambda>r. or_status r = S_shipped) s,
      na_refund_owed = count_orders c refund_owed s\<rparr>)"

text \<open>Who placed an order: the account, else the order's email, else its phone.\<close>

definition filled :: "string option \<Rightarrow> string option" where
  "filled x = (if x = Some [] then None else x)"

definition buyer :: "dash_lib \<Rightarrow> order \<Rightarrow> string option" where
  "buyer dl r = (case or_customer_id r of Some i \<Rightarrow> Some (uuid_string i)
     | None \<Rightarrow> (case map_option (dl_lower dl) (filled (dl_doc dl (or_customer r) ''email'')) of Some e \<Rightarrow> Some e
       | None \<Rightarrow> filled (dl_doc dl (or_customer r) ''phone'')))"

definition bought_before :: "dash_lib \<Rightarrow> ctx \<Rightarrow> period \<Rightarrow> db \<Rightarrow> order list" where
  "bought_before dl c p s = filter (\<lambda>r. sold r \<and> or_placed_at r < pg_time (pd_to p) \<and> buyer dl r \<noteq> None) (own_orders c s)"

definition dashboard_buyers :: "dash_lib \<Rightarrow> ctx \<Rightarrow> period \<Rightarrow> instant list stmt" where
  "dashboard_buyers dl c p = readT (\<lambda>s.
    (let rows = bought_before dl c p s;
         times = (\<lambda>k. map or_placed_at (group_of (buyer dl) k rows)) in
     map (\<lambda>k. foldr min (times k) (hd (times k)))
       (filter (\<lambda>k. list_ex (\<lambda>t. pg_time (pd_from p) \<le> t) (times k)) (groups (buyer dl) rows))))"

record top_product_row =
  tp_product :: uuid
  tp_title :: string
  tp_items :: int
  tp_sales :: int

text \<open>A sold line with its product.\<close>

definition sold_lines :: "ctx \<Rightarrow> period \<Rightarrow> db \<Rightarrow> (order_line \<times> product) list" where
  "sold_lines c p s = concat (map (\<lambda>l.
     if list_ex (\<lambda>r. or_id r = ol_order l) (counted_orders c p s)
     then concat (map (\<lambda>v. if va_id v = ol_variant l then map (\<lambda>q. (l, q)) (filter (\<lambda>q. pr_id q = va_product v) (own_products c s)) else [])
            (own_variants c s))
     else []) (rows_of ol_tenant (tenant_of c) (order_lines s)))"

definition line_sales :: "order_line \<Rightarrow> int" where
  "line_sales l = ol_qty l * ol_unit_price l - ol_discount l"

definition dashboard_top_products :: "dash_lib \<Rightarrow> ctx \<Rightarrow> period \<Rightarrow> top_product_row list stmt" where
  "dashboard_top_products dl c p =
    (let rows = (\<lambda>s. map (\<lambda>q. let g = group_of (\<lambda>x. pr_id (snd x)) (pr_id q) (sold_lines c p s) in
        \<lparr>tp_product = pr_id q, tp_title = pr_title q, tp_items = sum_list (map (ol_qty \<circ> fst) g), tp_sales = sum_list (map (line_sales \<circ> fst) g)\<rparr>)
          (filter (\<lambda>q. pr_id q \<in> set (groups (\<lambda>x. pr_id (snd x)) (sold_lines c p s))) (own_products c s))) in
     thenT (sums_fit (\<lambda>s. concat (map (\<lambda>r. [tp_items r, tp_sales r]) (rows s))))
     (readT (\<lambda>s. take 5 (sort_key (\<lambda>r. (- tp_sales r, pt_key (dl_pg dl) (tp_title r))) (rows s)))))"

record category_ref =
  cf_product :: uuid
  cf_id :: uuid
  cf_name :: string
  cf_path :: string

definition dashboard_product_categories :: "ctx \<Rightarrow> uuid list \<Rightarrow> category_ref list stmt" where
  "dashboard_product_categories c ids = readT (\<lambda>s. sort_key (\<lambda>r. (cf_product r, cf_path r)) (concat (map (\<lambda>pid.
     map (\<lambda>k. \<lparr>cf_product = pid, cf_id = cg_id k, cf_name = cg_name k, cf_path = cg_path k\<rparr>)
       (filter (\<lambda>k. cg_kind k = ''category'') (linked c s pid))) (remdups ids))))"

record top_customer_row =
  tc_customer :: "uuid option"
  tc_name :: string
  tc_sales :: int
  tc_orders :: int

definition null_scan :: err where
  "null_scan = Opaque ''cannot scan NULL into *string''"

text \<open>Each person's sales, named as on their latest order; a name that is NULL does not fit the row's string.\<close>

definition best_customers :: "dash_lib \<Rightarrow> ctx \<Rightarrow> period \<Rightarrow> db \<Rightarrow> (uuid option \<times> string option \<times> int \<times> int) list" where
  "best_customers dl c p s =
    (let rows = filter (\<lambda>r. buyer dl r \<noteq> None) (counted_orders c p s); who = (\<lambda>r. (buyer dl r, or_customer_id r)) in
     take 3 (sort_key (\<lambda>(_, n, sales, _). (- sales, case n of None \<Rightarrow> (1::nat, []) | Some x \<Rightarrow> (0, pt_key (dl_pg dl) x)))
       (map (\<lambda>k. let g = group_of who k rows in
          (snd k, dl_doc dl (or_customer (hd (sort_key (\<lambda>r. - or_placed_at r) g))) ''name'', total_sales g, int (length g)))
         (groups who rows))))"

definition dashboard_top_customers :: "dash_lib \<Rightarrow> ctx \<Rightarrow> period \<Rightarrow> top_customer_row list stmt" where
  "dashboard_top_customers dl c p =
    thenT (sums_fit (\<lambda>s. map total_sales (map (\<lambda>k. group_of (\<lambda>r. (buyer dl r, or_customer_id r)) k
        (filter (\<lambda>r. buyer dl r \<noteq> None) (counted_orders c p s)))
      (groups (\<lambda>r. (buyer dl r, or_customer_id r)) (filter (\<lambda>r. buyer dl r \<noteq> None) (counted_orders c p s))))))
    (bindT (readT (best_customers dl c p)) (eachT (\<lambda>(i, n, sales, k). case n of None \<Rightarrow> failT null_scan
       | Some x \<Rightarrow> retT \<lparr>tc_customer = i, tc_name = x, tc_sales = sales, tc_orders = k\<rparr>)))"

section \<open>The report\<close>

record figures =
  fg_sales :: int
  fg_orders :: int
  fg_average :: int
  fg_items :: int

text \<open>Go divides towards zero; sales are not negative.\<close>

definition go_div :: "int \<Rightarrow> int \<Rightarrow> int" where
  "go_div a b = sgn a * (\<bar>a\<bar> div b)"

definition figures_of :: "figures_row \<Rightarrow> figures" where
  "figures_of r = \<lparr>fg_sales = fw_sales r, fg_orders = fw_orders r,
     fg_average = (if fw_orders r > 0 then go_div (fw_sales r) (fw_orders r) else 0), fg_items = fw_items r\<rparr>"

definition figures_op :: "ctx \<Rightarrow> period \<Rightarrow> figures stmt" where
  "figures_op c p = bindT (dashboard_figures c p) (\<lambda>r. retT (figures_of r))"

definition every_day :: "instant \<Rightarrow> instant \<Rightarrow> daily_row list \<Rightarrow> daily_row list" where
  "every_day from' to' rows = (let got = map_of (map (\<lambda>r. (dw_day r, r)) rows) in
     map (\<lambda>d. case got d of None \<Rightarrow> \<lparr>dw_day = d, dw_sales = 0, dw_orders = 0, dw_items = 0\<rparr> | Some r \<Rightarrow> r\<lparr>dw_day := d\<rparr>)
       [wib_day from'..wib_day (to' - 1)])"

definition sources :: "string list" where "sources = [S_manual, S_storefront]"
definition payment_methods :: "string list" where "payment_methods = [S_bank_transfer, S_midtrans]"

definition splits :: "string list \<Rightarrow> split list \<Rightarrow> split list" where
  "splits keys rows = (let got = map_of (map (\<lambda>r. (sp_key r, r)) rows) in
     map (\<lambda>k. case got k of None \<Rightarrow> \<lparr>sp_key = k, sp_sales = 0, sp_orders = 0\<rparr> | Some r \<Rightarrow> r\<lparr>sp_key := k\<rparr>) keys)"

definition max_span :: int where
  "max_span = hours (366 * 24)"

record dashboard =
  db_from :: instant
  db_to :: instant
  db_needs :: needs_action
  db_current :: figures
  db_previous :: figures
  db_daily :: "daily_row list"
  db_by_source :: "split list"
  db_by_method :: "split list"
  db_new :: int
  db_returning :: int
  db_top_products :: "(top_product_row \<times> category_ref list) list"
  db_top_customers :: "top_customer_row list"

definition with_categories :: "category_ref list \<Rightarrow> top_product_row \<Rightarrow> top_product_row \<times> category_ref list" where
  "with_categories cats q = (q, filter (\<lambda>k. cf_product k = tp_product q) cats)"

definition dashboard_tx :: "dash_lib \<Rightarrow> ctx \<Rightarrow> instant \<Rightarrow> instant \<Rightarrow> dashboard stmt" where
  "dashboard_tx dl c from' to' =
    (let p = \<lparr>pd_from = from', pd_to = to'\<rparr>; before = \<lparr>pd_from = from' - (to' - from'), pd_to = from'\<rparr> in
     bindT (dashboard_needs_action c) (\<lambda>na.
     bindT (figures_op c p) (\<lambda>cur.
     bindT (figures_op c before) (\<lambda>prev.
     bindT (dashboard_daily c p) (\<lambda>days.
     bindT (dashboard_by_source c p) (\<lambda>bs.
     bindT (dashboard_by_method c p) (\<lambda>bm.
     bindT (dashboard_buyers dl c p) (\<lambda>firsts.
     bindT (dashboard_top_products dl c p) (\<lambda>top.
     bindT (dashboard_product_categories c (map tp_product top)) (\<lambda>cats.
     bindT (dashboard_top_customers dl c p) (\<lambda>tc.
     retT \<lparr>db_from = from', db_to = to', db_needs = na, db_current = cur, db_previous = prev, db_daily = every_day from' to' days,
       db_by_source = splits sources bs, db_by_method = splits payment_methods bm,
       db_new = int (length (filter (\<lambda>t. \<not> t < from') firsts)), db_returning = int (length (filter (\<lambda>t. t < from') firsts)),
       db_top_products = map (with_categories cats) top, db_top_customers = tc\<rparr>)))))))))))"

definition dashboard_op :: "dash_lib \<Rightarrow> ctx \<Rightarrow> instant \<Rightarrow> instant \<Rightarrow> db \<Rightarrow> (err + dashboard) \<times> db" where
  "dashboard_op dl c from' to' s =
    (if \<not> from' < to' then (Inl (field_error ''to'' ''to is after from''), s)
     else if to' - from' > max_span then (Inl (field_error ''to'' ''to is at most 366 days after from''), s)
     else in_tenant_tx c (dashboard_tx dl c from' to') s)"

end
