(* ===== verification/DashboardSums.thy ===== *)
theory DashboardSums
  imports Dashboard
begin

text \<open>
  The dashboard's parts add up: the days, the sources and the payment methods of a period each sum to its figures,
  the buyers are the new and the returning ones, and what needs action is what the order list's saved views hold.
\<close>

section \<open>Grouping\<close>

lemma group_sum:
  assumes "distinct ks" "\<And>x. x \<in> set xs \<Longrightarrow> k x \<in> set ks"
  shows "sum_list (map (\<lambda>j. sum_list (map f (group_of k j xs))) ks) = (sum_list (map f xs) :: int)"
  using assms(2)
proof (induction xs)
  case Nil
  then show ?case by (simp add: group_of_def)
next
  case (Cons x xs)
  have "sum_list (map (\<lambda>j. sum_list (map f (group_of k j (x # xs)))) js) =
      sum_list (map (\<lambda>j. sum_list (map f (group_of k j xs))) js) + (if k x \<in> set js then f x else 0)" if "distinct js" for js
    using that by (induction js) (auto simp: group_of_def)
  then show ?case using Cons assms(1) by simp
qed

lemma group_count:
  assumes "distinct ks" "\<And>x. x \<in> set xs \<Longrightarrow> k x \<in> set ks"
  shows "sum_list (map (\<lambda>j. int (length (group_of k j xs))) ks) = int (length xs)"
  using group_sum [OF assms, where f = "\<lambda>_. 1"] by (simp add: sum_list_triv)

lemma groups_distinct [simp]: "distinct (groups k xs)" and groups_set [simp]: "set (groups k xs) = k ` set xs"
  by (simp_all add: groups_def)

lemma group_empty: "j \<notin> k ` set xs \<Longrightarrow> group_of k j xs = []"
  by (auto simp: group_of_def filter_empty_conv)

text \<open>Looking up each key of a list of rows, one row to a key.\<close>

lemma lookup_rows: "map_of (map (\<lambda>d. (d, g d)) ks) j = (if j \<in> set ks then Some (g j) else None)"
  by (induction ks) auto

section \<open>Days\<close>

lemma thousands: "0 < m \<Longrightarrow> (t div 1000 * 1000 + 1000 * k) div (1000 * m) = (t + 1000 * k) div (1000 * m :: int)"
  by (simp add: zdiv_zmult2_eq add.commute)

lemma wib_day_pg: "wib_day (pg_time t) = wib_day t"
  using thousands [of 86400000000 t 25200000000]
  by (simp add: wib_day_def pg_time_def hours_def minutes_def seconds_def)

lemma wib_day_mono: "a \<le> b \<Longrightarrow> wib_day a \<le> wib_day b"
  by (simp add: wib_day_def hours_def minutes_def seconds_def zdiv_mono1)

lemma pg_time_le: "pg_time t \<le> t"
  unfolding pg_time_def by presburger

lemma counted_days:
  assumes "r \<in> set (counted_orders c p s)"
  shows "placed_day r \<in> set [wib_day (pd_from p)..wib_day (pd_to p - 1)]"
proof -
  have "pg_time (pd_from p) \<le> or_placed_at r" "or_placed_at r \<le> pd_to p - 1"
    using assms pg_time_le [of "pd_to p"] by (auto simp: counted_orders_def)
  then show ?thesis
    using wib_day_mono [of "pg_time (pd_from p)" "or_placed_at r"] wib_day_mono [of "or_placed_at r" "pd_to p - 1"]
    by (simp add: placed_day_def wib_day_pg)
qed

definition day_row :: "ctx \<Rightarrow> db \<Rightarrow> order list \<Rightarrow> int \<Rightarrow> daily_row" where
  "day_row c s rows d = \<lparr>dw_day = d, dw_sales = total_sales (group_of placed_day d rows),
     dw_orders = int (length (group_of placed_day d rows)), dw_items = total_items c s (group_of placed_day d rows)\<rparr>"

lemma every_day_rows:
  "every_day from' to' (map (day_row c s rows) (sort (groups placed_day rows))) = map (day_row c s rows) [wib_day from'..wib_day (to' - 1)]"
proof -
  have m: "map_of (map (\<lambda>r. (dw_day r, r)) (map (day_row c s rows) ks)) d = (if d \<in> set ks then Some (day_row c s rows d) else None)" for ks d
    using lookup_rows [of "day_row c s rows" ks d] by (simp add: comp_def day_row_def)
  have "(case map_of (map (\<lambda>r. (dw_day r, r)) (map (day_row c s rows) (sort (groups placed_day rows)))) d of
      None \<Rightarrow> \<lparr>dw_day = d, dw_sales = 0, dw_orders = 0, dw_items = 0\<rparr> | Some r \<Rightarrow> r\<lparr>dw_day := d\<rparr>) = day_row c s rows d" for d
    unfolding m by (simp add: day_row_def total_sales_def total_items_def group_empty)
  then show ?thesis unfolding every_day_def Let_def by simp
qed

definition split_row :: "(order \<Rightarrow> string) \<Rightarrow> order list \<Rightarrow> string \<Rightarrow> split" where
  "split_row key rows k = \<lparr>sp_key = k, sp_sales = total_sales (group_of key k rows), sp_orders = int (length (group_of key k rows))\<rparr>"

lemma splits_rows: "splits keys (map (split_row key rows) (groups key rows)) = map (split_row key rows) keys"
proof -
  have m: "map_of (map (\<lambda>r. (sp_key r, r)) (map (split_row key rows) ks)) k = (if k \<in> set ks then Some (split_row key rows k) else None)" for ks k
    using lookup_rows [of "split_row key rows" ks k] by (simp add: comp_def split_row_def)
  have "(case map_of (map (\<lambda>r. (sp_key r, r)) (map (split_row key rows) (groups key rows))) k of
      None \<Rightarrow> \<lparr>sp_key = k, sp_sales = 0, sp_orders = 0\<rparr> | Some r \<Rightarrow> r\<lparr>sp_key := k\<rparr>) = split_row key rows k" for k
    unfolding m by (simp add: split_row_def total_sales_def group_empty)
  then show ?thesis unfolding splits_def Let_def by simp
qed

section \<open>The report\<close>

lemma sums_fit_Inr [simp]: "sums_fit g s = Inr r \<longleftrightarrow> list_all is_i64 (g s) \<and> r = ((), s)"
  by (simp add: sums_fit_def)

lemma daily_Inr: "dashboard_daily c p s = Inr (rows, s') \<Longrightarrow>
    s' = s \<and> rows = map (day_row c s (counted_orders c p s)) (sort (groups placed_day (counted_orders c p s)))"
  by (auto simp: dashboard_daily_def Let_def thenT_Inr day_row_def)

lemma split_Inr: "dashboard_split key c p s = Inr (rows, s') \<Longrightarrow>
    s' = s \<and> rows = map (split_row key (counted_orders c p s)) (groups key (counted_orders c p s))"
  by (auto simp: dashboard_split_def Let_def thenT_Inr split_row_def)

lemma figures_Inr: "figures_op c p s = Inr (f, s') \<Longrightarrow> s' = s \<and> fg_sales f = total_sales (counted_orders c p s) \<and>
    fg_orders f = int (length (counted_orders c p s)) \<and> fg_items f = total_items c s (counted_orders c p s)"
  by (auto simp: figures_op_def dashboard_figures_def Let_def bindT_Inr thenT_Inr figures_of_def)

text \<open>Who bought in the period: the people of its counted orders.\<close>

definition period_buyers :: "dash_lib \<Rightarrow> ctx \<Rightarrow> period \<Rightarrow> db \<Rightarrow> string option set" where
  "period_buyers dl c p s = (buyer dl ` set (counted_orders c p s)) - {None}"

lemma buyers_Inr: "dashboard_buyers dl c p s = Inr (ts, s') \<Longrightarrow> s' = s \<and> length ts = card (period_buyers dl c p s)"
proof -
  assume r: "dashboard_buyers dl c p s = Inr (ts, s')"
  let ?rows = "bought_before dl c p s"
  let ?in = "\<lambda>k. list_ex (\<lambda>t. pg_time (pd_from p) \<le> t) (map or_placed_at (group_of (buyer dl) k ?rows))"
  have "length ts = length (filter ?in (groups (buyer dl) ?rows))"
    using r by (auto simp: dashboard_buyers_def Let_def)
  also have "\<dots> = card (set (filter ?in (groups (buyer dl) ?rows)))" by (rule distinct_card [symmetric]) simp
  also have "set (filter ?in (groups (buyer dl) ?rows)) = period_buyers dl c p s"
  proof (rule set_eqI)
    fix k
    have "k \<in> set (filter ?in (groups (buyer dl) ?rows)) \<longleftrightarrow>
        (\<exists>r \<in> set ?rows. buyer dl r = k \<and> pg_time (pd_from p) \<le> or_placed_at r)"
      by (auto simp: group_of_def list_ex_iff)
    also have "\<dots> \<longleftrightarrow> (\<exists>r \<in> set (counted_orders c p s). buyer dl r = k \<and> buyer dl r \<noteq> None)"
      unfolding bought_before_def counted_orders_def by auto
    also have "\<dots> \<longleftrightarrow> k \<in> period_buyers dl c p s" by (auto simp: period_buyers_def)
    finally show "k \<in> set (filter ?in (groups (buyer dl) ?rows)) \<longleftrightarrow> k \<in> period_buyers dl c p s" .
  qed
  finally show ?thesis using r by (auto simp: dashboard_buyers_def Let_def)
qed

lemma dashboard_parts:
  assumes "dashboard_op dl c a b s = (Inr d, s')"
  shows "\<exists>days bs bm firsts. figures_op c \<lparr>pd_from = a, pd_to = b\<rparr> s = Inr (db_current d, s) \<and>
    dashboard_needs_action c s = Inr (db_needs d, s) \<and>
    dashboard_daily c \<lparr>pd_from = a, pd_to = b\<rparr> s = Inr (days, s) \<and> db_daily d = every_day a b days \<and>
    dashboard_by_source c \<lparr>pd_from = a, pd_to = b\<rparr> s = Inr (bs, s) \<and> db_by_source d = splits sources bs \<and>
    dashboard_by_method c \<lparr>pd_from = a, pd_to = b\<rparr> s = Inr (bm, s) \<and> db_by_method d = splits payment_methods bm \<and>
    dashboard_buyers dl c \<lparr>pd_from = a, pd_to = b\<rparr> s = Inr (firsts, s) \<and>
    db_new d = int (length (filter (\<lambda>t. \<not> t < a) firsts)) \<and> db_returning d = int (length (filter (\<lambda>t. t < a) firsts)) \<and>
    a < b \<and> b - a \<le> max_span"
proof -
  have g: "a < b" "b - a \<le> max_span" and tx: "dashboard_tx dl c a b s = Inr (d, s')"
    using assms by (auto simp: dashboard_op_def in_tenant_tx_Inr split: if_splits)
  from tx obtain na s1 cur s2 prev s3 days s4 bs s5 bm s6 firsts s7 where
    na: "dashboard_needs_action c s = Inr (na, s1)" and cur: "figures_op c \<lparr>pd_from = a, pd_to = b\<rparr> s1 = Inr (cur, s2)" and
    prev: "figures_op c \<lparr>pd_from = a - (b - a), pd_to = a\<rparr> s2 = Inr (prev, s3)" and
    days: "dashboard_daily c \<lparr>pd_from = a, pd_to = b\<rparr> s3 = Inr (days, s4)" and
    bs: "dashboard_by_source c \<lparr>pd_from = a, pd_to = b\<rparr> s4 = Inr (bs, s5)" and
    bm: "dashboard_by_method c \<lparr>pd_from = a, pd_to = b\<rparr> s5 = Inr (bm, s6)" and
    fi: "dashboard_buyers dl c \<lparr>pd_from = a, pd_to = b\<rparr> s6 = Inr (firsts, s7)" and
    d: "db_needs d = na" "db_current d = cur" "db_daily d = every_day a b days" "db_by_source d = splits sources bs"
      "db_by_method d = splits payment_methods bm" "db_new d = int (length (filter (\<lambda>t. \<not> t < a) firsts))"
      "db_returning d = int (length (filter (\<lambda>t. t < a) firsts))"
    unfolding dashboard_tx_def Let_def bindT_Inr by (elim exE conjE) simp
  have e: "s1 = s" using na by (simp add: dashboard_needs_action_def)
  moreover have "s2 = s1" using figures_Inr [OF cur] by simp
  moreover have "s3 = s2" using figures_Inr [OF prev] by simp
  moreover have "s4 = s3" using daily_Inr [OF days] by simp
  moreover have "s5 = s4" using split_Inr [OF bs [unfolded dashboard_by_source_def]] by simp
  moreover have "s6 = s5" using split_Inr [OF bm [unfolded dashboard_by_method_def]] by simp
  moreover have "s7 = s6" using buyers_Inr [OF fi] by simp
  ultimately show ?thesis using na cur days bs bm fi d g by simp
qed

text \<open>C35. A dashboard adds up: for any period, the sales, orders and items of its days sum to its figures, so do the
  sales and orders by source and by payment method (the columns' CHECKs leave no other value), and its new and
  returning buyers together are the people who placed a counted order in it; every day of the period is listed once.\<close>

theorem dashboard_adds_up:
  assumes "dashboard_op dl c a b s = (Inr d, s')"
    and "\<forall>r \<in> set (own_orders c s). or_source r \<in> set sources \<and> or_payment_method r \<in> set payment_methods"
  shows "sum_list (map dw_sales (db_daily d)) = fg_sales (db_current d) \<and>
    sum_list (map dw_orders (db_daily d)) = fg_orders (db_current d) \<and>
    sum_list (map dw_items (db_daily d)) = fg_items (db_current d) \<and>
    sum_list (map sp_sales (db_by_source d)) = fg_sales (db_current d) \<and>
    sum_list (map sp_orders (db_by_source d)) = fg_orders (db_current d) \<and>
    sum_list (map sp_sales (db_by_method d)) = fg_sales (db_current d) \<and>
    sum_list (map sp_orders (db_by_method d)) = fg_orders (db_current d) \<and>
    db_new d + db_returning d = int (card (period_buyers dl c \<lparr>pd_from = a, pd_to = b\<rparr> s)) \<and>
    map dw_day (db_daily d) = [wib_day a..wib_day (b - 1)]"
proof -
  let ?p = "\<lparr>pd_from = a, pd_to = b\<rparr>"
  define rows where "rows = counted_orders c ?p s"
  obtain days bs bm firsts where
    cur: "figures_op c ?p s = Inr (db_current d, s)" and days: "dashboard_daily c ?p s = Inr (days, s)" "db_daily d = every_day a b days" and
    bs: "dashboard_by_source c ?p s = Inr (bs, s)" "db_by_source d = splits sources bs" and
    bm: "dashboard_by_method c ?p s = Inr (bm, s)" "db_by_method d = splits payment_methods bm" and
    fi: "dashboard_buyers dl c ?p s = Inr (firsts, s)" "db_new d = int (length (filter (\<lambda>t. \<not> t < a) firsts))"
      "db_returning d = int (length (filter (\<lambda>t. t < a) firsts))"
    using dashboard_parts [OF assms(1)] by blast
  have D: "db_daily d = map (day_row c s rows) [wib_day a..wib_day (b - 1)]"
    using daily_Inr [OF days(1)] days(2) every_day_rows by (simp add: rows_def)
  have S: "db_by_source d = map (split_row or_source rows) sources"
    using split_Inr [OF bs(1) [unfolded dashboard_by_source_def]] bs(2) splits_rows by (simp add: rows_def)
  have M: "db_by_method d = map (split_row or_payment_method rows) payment_methods"
    using split_Inr [OF bm(1) [unfolded dashboard_by_method_def]] bm(2) splits_rows by (simp add: rows_def)
  have in_days: "placed_day r \<in> set [wib_day a..wib_day (b - 1)]" if "r \<in> set rows" for r
    using counted_days [of r c ?p s] that by (simp add: rows_def)
  have own: "r \<in> set (own_orders c s)" if "r \<in> set rows" for r using that by (simp add: rows_def counted_orders_def)
  have src: "or_source r \<in> set sources" "or_payment_method r \<in> set payment_methods" if "r \<in> set rows" for r
    using own [OF that] assms(2) by auto
  have dist: "distinct sources" "distinct payment_methods" "distinct [wib_day a..wib_day (b - 1)]"
    by (simp_all add: sources_def payment_methods_def)
  note F = figures_Inr [OF cur, folded rows_def]
  have "length firsts = length (filter (\<lambda>t. \<not> t < a) firsts) + length (filter (\<lambda>t. t < a) firsts)"
    using sum_length_filter_compl [of "\<lambda>t. t < a" firsts] by simp
  then have B: "db_new d + db_returning d = int (card (period_buyers dl c ?p s))"
    using fi buyers_Inr [OF fi(1)] by simp
  have "sum_list (map dw_sales (db_daily d)) = fg_sales (db_current d)"
    using group_sum [OF dist(3) in_days, where f = or_total] F by (simp add: D day_row_def comp_def total_sales_def)
  moreover have "sum_list (map dw_orders (db_daily d)) = fg_orders (db_current d)"
    using group_count [OF dist(3) in_days] F by (simp add: D day_row_def comp_def)
  moreover have "sum_list (map dw_items (db_daily d)) = fg_items (db_current d)"
    using group_sum [OF dist(3) in_days, where f = "\<lambda>r. item_count (tenant_of c) (or_id r) s"] F
    by (simp add: D day_row_def comp_def total_items_def)
  moreover have "sum_list (map sp_sales (db_by_source d)) = fg_sales (db_current d)"
    using group_sum [OF dist(1) src(1), where f = or_total] F by (simp add: S split_row_def comp_def total_sales_def)
  moreover have "sum_list (map sp_orders (db_by_source d)) = fg_orders (db_current d)"
    using group_count [OF dist(1) src(1)] F by (simp add: S split_row_def comp_def)
  moreover have "sum_list (map sp_sales (db_by_method d)) = fg_sales (db_current d)"
    using group_sum [OF dist(2) src(2), where f = or_total] F by (simp add: M split_row_def comp_def total_sales_def)
  moreover have "sum_list (map sp_orders (db_by_method d)) = fg_orders (db_current d)"
    using group_count [OF dist(2) src(2)] F by (simp add: M split_row_def comp_def)
  moreover have "map dw_day (db_daily d) = [wib_day a..wib_day (b - 1)]" by (simp add: D day_row_def comp_def)
  ultimately show ?thesis using B by blast
qed

section \<open>The saved views\<close>

lemma list_total: "list_orders pg doc c f s = (Inr page, s') \<Longrightarrow> og_total page = count_orders c (filter_sql pg doc f) s"
  by (auto simp: list_orders_def list_orders_tx_def Let_def in_tenant_tx_Inr bindT_Inr thenT_Inr count_orders_def
      split: prod.splits sum.splits)

lemma count_orders_cong: "(\<And>r. r \<in> set (own_orders c s) \<Longrightarrow> P r \<longleftrightarrow> Q r) \<Longrightarrow> count_orders c P s = count_orders c Q s"
  unfolding count_orders_def by (metis filter_cong)

lemma count_orders_or: "(\<And>r. r \<in> set (own_orders c s) \<Longrightarrow> \<not> (P r \<and> Q r)) \<Longrightarrow>
    count_orders c (\<lambda>r. P r \<or> Q r) s = count_orders c P s + count_orders c Q s"
proof -
  assume a: "\<And>r. r \<in> set (own_orders c s) \<Longrightarrow> \<not> (P r \<and> Q r)"
  have "length (filter (\<lambda>r. P r \<or> Q r) xs) = length (filter P xs) + length (filter Q xs)"
    if "\<And>r. r \<in> set xs \<Longrightarrow> \<not> (P r \<and> Q r)" for xs
    using that by (induction xs) auto
  from this [OF a] show ?thesis by (simp add: count_orders_def)
qed

definition view_of :: "string list \<Rightarrow> bool option \<Rightarrow> int \<Rightarrow> order_filter" where
  "view_of sts owed n = all_orders\<lparr>og_status := sts, og_refund_owed := owed, og_limit := n\<rparr>"

lemma view_matches: "filter_sql pg doc (view_of sts owed n) r \<longleftrightarrow>
    (sts = [] \<or> or_status r \<in> set sts) \<and> (case owed of None \<Rightarrow> True | Some b \<Rightarrow> refund_owed r = b)"
  by (simp add: filter_sql_def view_of_def all_orders_def q_match_def like_pattern_def)

text \<open>C36. What the dashboard says needs action is what the order list's saved views hold: the totals of To confirm
  payment, To ship, Shipped and Cancelled, refund owed are its counts, the first split by the payment method.\<close>

theorem needs_action_is_lists:
  assumes "dashboard_op dl c a b s = (Inr d, s')"
    and "\<forall>r \<in> set (own_orders c s). or_payment_method r \<in> set payment_methods"
    and "list_orders pg doc c (view_of [S_pending] None n) s = (Inr confirm, s1)"
    and "list_orders pg doc c (view_of [S_paid, S_processing] None n) s = (Inr ship, s2)"
    and "list_orders pg doc c (view_of [S_shipped] None n) s = (Inr shipped, s3)"
    and "list_orders pg doc c (view_of [] (Some True) n) s = (Inr owed, s4)"
  shows "na_awaiting (db_needs d) + na_transfers (db_needs d) = og_total confirm \<and> na_ready (db_needs d) = og_total ship \<and>
    na_shipped (db_needs d) = og_total shipped \<and> na_refund_owed (db_needs d) = og_total owed"
proof -
  have na: "dashboard_needs_action c s = Inr (db_needs d, s)" using dashboard_parts [OF assms(1)] by blast
  have "og_total confirm = count_orders c (\<lambda>r. (or_status r = S_pending \<and> or_payment_method r = S_midtrans) \<or>
      (or_status r = S_pending \<and> or_payment_method r = S_bank_transfer)) s"
    unfolding list_total [OF assms(3)]
    by (rule count_orders_cong) (use assms(2) in \<open>auto simp: view_matches payment_methods_def\<close>)
  also have "\<dots> = na_awaiting (db_needs d) + na_transfers (db_needs d)"
    using na by (subst count_orders_or) (auto simp: dashboard_needs_action_def)
  finally have 1: "na_awaiting (db_needs d) + na_transfers (db_needs d) = og_total confirm" by simp
  have 2: "na_ready (db_needs d) = og_total ship" "na_shipped (db_needs d) = og_total shipped" "na_refund_owed (db_needs d) = og_total owed"
    using na by (auto simp: dashboard_needs_action_def list_total [OF assms(4)] list_total [OF assms(5)] list_total [OF assms(6)]
        view_matches intro!: count_orders_cong)
  show ?thesis using 1 2 by simp
qed

section \<open>A shop with one paid order\<close>

definition dash_order :: order where
  "dash_order = \<lparr>or_id = 5, or_tenant = 1, or_source = S_manual, or_customer_id = Some 9, or_number = ''A-1'', or_status = S_paid,
     or_customer = ''b'', or_shipping_address = [], or_note = None, or_subtotal = 700, or_shipping = 0, or_discount = 0,
     or_total = 700, or_currency = ''IDR'', or_payment_method = S_bank_transfer, or_shipping_courier = None,
     or_shipping_service = None, or_courier = None, or_tracking_number = None, or_placed_at = hours 30,
     or_paid_at = Some (hours 31), or_shipped_at = None, or_completed_at = None, or_cancelled_at = None, or_refunded_at = None,
     or_version = 1, or_created_at = 0, or_updated_at = 0, or_cart = None\<rparr>"

definition dash_db :: db where
  "dash_db = empty_db\<lparr>orders := [dash_order]\<rparr>"

definition dash_ctx :: ctx where
  "dash_ctx = \<lparr>c_tenant = Some 1, c_actor = None, c_ip = None, c_role = None, c_now = 0, c_clock = 0\<rparr>"

definition sample_dash :: dash_lib where
  "sample_dash = \<lparr>dl_doc = (\<lambda>d k. if k = ''name'' then Some ''Budi'' else None), dl_lower = (\<lambda>x. x),
     dl_pg = \<lparr>pt_fold = (\<lambda>x. x), pt_key = (\<lambda>x. x), pt_ilike = (\<lambda>x y. False)\<rparr>\<rparr>"

lemma dash_own: "own_orders dash_ctx dash_db = [dash_order]"
  by (simp add: own_orders_def dash_db_def dash_ctx_def tenant_of_def rows_of_def dash_order_def)

lemma dash_counted: "counted_orders dash_ctx \<lparr>pd_from = hours 24, pd_to = hours 72\<rparr> dash_db = [dash_order]"
  "counted_orders dash_ctx \<lparr>pd_from = hours 24 - (hours 72 - hours 24), pd_to = hours 24\<rparr> dash_db = []"
  by (simp_all add: counted_orders_def dash_own sold_def dash_order_def pg_time_def hours_def minutes_def seconds_def)

lemma dash_before: "bought_before sample_dash dash_ctx \<lparr>pd_from = hours 24, pd_to = hours 72\<rparr> dash_db = [dash_order]"
  by (simp add: bought_before_def dash_own sold_def dash_order_def pg_time_def hours_def minutes_def seconds_def buyer_def)

definition runs_on :: "db \<Rightarrow> 'a stmt \<Rightarrow> bool" where
  "runs_on s m \<longleftrightarrow> (\<exists>x. m s = Inr (x, s))"

lemma runs_bind: "runs_on s m \<Longrightarrow> (\<And>x. runs_on s (f x)) \<Longrightarrow> runs_on s (bindT m f)"
  by (auto simp: runs_on_def bindT_def)

lemma runs_then: "m s = Inr (x, s) \<Longrightarrow> runs_on s n \<Longrightarrow> runs_on s (thenT m n)"
  by (auto simp: runs_on_def bindT_def thenT_def)

lemma runs_read: "runs_on s (readT g)" "runs_on s (retT x)"
  by (simp_all add: runs_on_def readT_def retT_def)

lemma runs_sums: "list_all is_i64 (g s) \<Longrightarrow> sums_fit g s = Inr ((), s)"
  by simp

lemma dash_sold: "sold_lines dash_ctx p dash_db = []"
  by (simp add: sold_lines_def rows_of_def dash_db_def empty_db_def)

lemma dash_items: "item_count t i dash_db = 0"
  by (simp add: item_count_def dash_db_def empty_db_def)

lemma dash_small: "is_i64 0" "is_i64 700"
  by (simp_all add: is_i64_def)

lemma dash_statements:
  assumes "p = \<lparr>pd_from = hours 24, pd_to = hours 72\<rparr> \<or> p = \<lparr>pd_from = hours 24 - (hours 72 - hours 24), pd_to = hours 24\<rparr>"
  shows "runs_on dash_db (figures_op dash_ctx p)" "runs_on dash_db (dashboard_daily dash_ctx p)" "runs_on dash_db (dashboard_split key dash_ctx p)"
    "runs_on dash_db (dashboard_top_products sample_dash dash_ctx p)"
proof -
  have rows: "counted_orders dash_ctx p dash_db = [dash_order] \<or> counted_orders dash_ctx p dash_db = []"
    using assms dash_counted by auto
  have t: "or_total dash_order = 700" by (simp add: dash_order_def)
  show "runs_on dash_db (figures_op dash_ctx p)"
    unfolding figures_op_def dashboard_figures_def Let_def
    by (intro runs_bind runs_then [OF runs_sums] runs_read) (use rows t in \<open>auto simp: total_sales_def total_items_def dash_items dash_small\<close>)
  show "runs_on dash_db (dashboard_daily dash_ctx p)"
    unfolding dashboard_daily_def Let_def
    by (intro runs_then [OF runs_sums] runs_read)
      (use rows t in \<open>auto simp: total_sales_def total_items_def dash_items dash_small groups_def group_of_def\<close>)
  show "runs_on dash_db (dashboard_split key dash_ctx p)"
    unfolding dashboard_split_def Let_def
    by (intro runs_then [OF runs_sums] runs_read) (use rows t in \<open>auto simp: total_sales_def dash_small groups_def group_of_def\<close>)
  show "runs_on dash_db (dashboard_top_products sample_dash dash_ctx p)"
    unfolding dashboard_top_products_def Let_def
    by (intro runs_then [OF runs_sums] runs_read) (simp add: dash_sold groups_def)
qed

lemma dash_customers: "runs_on dash_db (dashboard_top_customers sample_dash dash_ctx \<lparr>pd_from = hours 24, pd_to = hours 72\<rparr>)"
proof -
  let ?p = "\<lparr>pd_from = hours 24, pd_to = hours 72\<rparr>"
  have b: "buyer sample_dash dash_order = Some (uuid_string 9)" by (simp add: buyer_def dash_order_def)
  have f: "or_customer_id dash_order = Some 9" "or_total dash_order = 700" "dl_doc sample_dash x ''name'' = Some ''Budi''" for x
    by (simp_all add: dash_order_def sample_dash_def)
  have "best_customers sample_dash dash_ctx ?p dash_db = [(Some 9, Some ''Budi'', 700, 1)]"
    by (simp add: best_customers_def dash_counted b f groups_def group_of_def total_sales_def)
  then have "runs_on dash_db (bindT (readT (best_customers sample_dash dash_ctx ?p)) (eachT (\<lambda>(i, n, sales, k). case n of None \<Rightarrow> failT null_scan
       | Some x \<Rightarrow> retT \<lparr>tc_customer = i, tc_name = x, tc_sales = sales, tc_orders = k\<rparr>)))"
    by (simp add: runs_on_def bindT_def readT_def retT_def)
  then show ?thesis
    unfolding dashboard_top_customers_def
    by (rule runs_then [OF runs_sums, rotated])
      (simp add: dash_counted b groups_def group_of_def total_sales_def dash_small, simp add: dash_order_def dash_small)
qed

lemma dash_runs: "\<exists>d. dashboard_op sample_dash dash_ctx (hours 24) (hours 72) dash_db = (Inr d, dash_db)"
proof -
  have "runs_on dash_db (dashboard_tx sample_dash dash_ctx (hours 24) (hours 72))"
    unfolding dashboard_tx_def Let_def dashboard_needs_action_def dashboard_buyers_def dashboard_product_categories_def
      dashboard_by_source_def dashboard_by_method_def
    by (intro runs_bind runs_read dash_statements dash_customers) simp_all
  then show ?thesis
    by (auto simp: runs_on_def dashboard_op_def in_tenant_tx_def run_tx_def max_span_def hours_def minutes_def seconds_def dash_ctx_def)
qed

lemma dash_columns: "\<forall>r \<in> set (own_orders dash_ctx dash_db). or_source r \<in> set sources \<and> or_payment_method r \<in> set payment_methods"
  by (simp add: dash_own) (simp add: dash_order_def sources_def payment_methods_def)

lemma dash_current: "dashboard_op sample_dash dash_ctx (hours 24) (hours 72) dash_db = (Inr d, s') \<Longrightarrow> fg_sales (db_current d) = 700"
proof -
  assume "dashboard_op sample_dash dash_ctx (hours 24) (hours 72) dash_db = (Inr d, s')"
  from dashboard_parts [OF this] have "figures_op dash_ctx \<lparr>pd_from = hours 24, pd_to = hours 72\<rparr> dash_db = Inr (db_current d, dash_db)" by blast
  from figures_Inr [OF this] show ?thesis by (simp add: dash_counted total_sales_def) (simp add: dash_order_def)
qed

theorem dashboard_adds_up_witness:
  "\<exists>d. dashboard_op sample_dash dash_ctx (hours 24) (hours 72) dash_db = (Inr d, dash_db) \<and> sum_list (map dw_sales (db_daily d)) = 700"
proof -
  obtain d where d: "dashboard_op sample_dash dash_ctx (hours 24) (hours 72) dash_db = (Inr d, dash_db)" using dash_runs by blast
  have "sum_list (map dw_sales (db_daily d)) = fg_sales (db_current d)" using dashboard_adds_up [OF d dash_columns] by blast
  then show ?thesis using d dash_current [OF d] by auto
qed

lemma dash_lists: "\<exists>page. list_orders (dl_pg sample_dash) (dl_doc sample_dash) dash_ctx (view_of sts owed 10) dash_db = (Inr page, dash_db)"
  by (auto simp: list_orders_def list_orders_tx_def Let_def in_tenant_tx_def run_tx_def bindT_def thenT_def readT_def retT_def guardT_def
      dash_items view_of_def all_orders_def bad_offset_def is_i32_def list_all_iff dash_ctx_def split: prod.splits)

theorem needs_action_is_lists_witness:
  "\<exists>d page. dashboard_op sample_dash dash_ctx (hours 24) (hours 72) dash_db = (Inr d, dash_db) \<and>
    list_orders (dl_pg sample_dash) (dl_doc sample_dash) dash_ctx (view_of [S_paid, S_processing] None 10) dash_db = (Inr page, dash_db) \<and>
    na_ready (db_needs d) = og_total page"
proof -
  obtain d where d: "dashboard_op sample_dash dash_ctx (hours 24) (hours 72) dash_db = (Inr d, dash_db)" using dash_runs by blast
  have m: "\<forall>r \<in> set (own_orders dash_ctx dash_db). or_payment_method r \<in> set payment_methods" using dash_columns by blast
  let ?list = "\<lambda>sts owed. list_orders (dl_pg sample_dash) (dl_doc sample_dash) dash_ctx (view_of sts owed 10) dash_db"
  obtain p1 p2 p3 p4 where p: "?list [S_pending] None = (Inr p1, dash_db)" "?list [S_paid, S_processing] None = (Inr p2, dash_db)"
      "?list [S_shipped] None = (Inr p3, dash_db)" "?list [] (Some True) = (Inr p4, dash_db)"
    using dash_lists by meson
  from needs_action_is_lists [OF d m p] show ?thesis using d p(2) by blast
qed

section \<open>A page far away\<close>

text \<open>The offset of a page of customers is an \<open>int32\<close>: page 10737420 at 200 a page asks for a negative one.\<close>

lemma far_customers_fail: "list_customers pg dash_ctx None None 10737420 200 s = (Inl offset_error, s)"
  by (simp add: list_customers_def list_customers_tx_def in_tenant_tx_def run_tx_def bindT_def thenT_def count_customers_def readT_def
      list_customers_query_def guardT_def wrap32_def dash_ctx_def)

end
