(* ===== verification/OrderExport.thy ===== *)
theory OrderExport
  imports OrderLists OrderState Jobs Csv Trims Uuids
begin

text \<open>
  The order export (internal/orders/export.go; BR-053, BR-064, BR-065): a job that carries the list's filters, and the
  worker's file of one CSV row per order line. \<open>rfc\<close> is the RFC 3339 text of an instant; a stored JSON document is
  read by \<open>doc\<close>, \<open>d->>'k'\<close>; \<open>put\<close> is what the object store answers to a key and the bytes under it.
\<close>

section \<open>The filters as a job's parameters\<close>

definition dyn_opt :: "string \<Rightarrow> dyn option \<Rightarrow> (string \<times> dyn) list" where
  "dyn_opt k x = (case x of None \<Rightarrow> [] | Some d \<Rightarrow> [(k, d)])"

text \<open>\<open>omitempty\<close>: what is not set is left out; the list's own fields are never stored.\<close>

definition filter_dyn :: "order_filter \<Rightarrow> dyn" where
  "filter_dyn f = DObj (dyn_opt ''status'' (if og_status f = [] then None else Some (DList (map DStr (og_status f))))
     @ dyn_opt ''source'' (map_option DStr (og_source f)) @ dyn_opt ''customer_id'' (map_option DId (og_customer f))
     @ dyn_opt ''refund_owed'' (map_option DBool (og_refund_owed f)) @ dyn_opt ''placed_from'' (map_option DTime (og_from f))
     @ dyn_opt ''placed_to'' (map_option DTime (og_to f)) @ dyn_opt ''q'' (map_option DStr (og_q f)))"

definition field_of :: "(dyn \<Rightarrow> 'a option) \<Rightarrow> (string \<times> dyn) list \<Rightarrow> string \<Rightarrow> 'a option" where
  "field_of get kvs k = (case map_of kvs k of None \<Rightarrow> None | Some d \<Rightarrow> get d)"

definition as_str :: "dyn \<Rightarrow> string option" where "as_str d = (case d of DStr x \<Rightarrow> Some x | _ \<Rightarrow> None)"
definition as_id :: "dyn \<Rightarrow> uuid option" where "as_id d = (case d of DId x \<Rightarrow> Some x | _ \<Rightarrow> None)"
definition as_bool :: "dyn \<Rightarrow> bool option" where "as_bool d = (case d of DBool x \<Rightarrow> Some x | _ \<Rightarrow> None)"
definition as_time :: "dyn \<Rightarrow> instant option" where "as_time d = (case d of DTime x \<Rightarrow> Some x | _ \<Rightarrow> None)"
definition as_strs :: "dyn \<Rightarrow> string list option" where
  "as_strs d = (case d of DList xs \<Rightarrow> Some (map (\<lambda>x. deref (as_str x)) xs) | _ \<Rightarrow> None)"

definition dyn_filter :: "dyn \<Rightarrow> order_filter option" where
  "dyn_filter d = (case d of
     DNull \<Rightarrow> Some all_orders
   | DObj kvs \<Rightarrow> Some (all_orders\<lparr>og_status := (case field_of as_strs kvs ''status'' of None \<Rightarrow> [] | Some xs \<Rightarrow> xs),
       og_source := field_of as_str kvs ''source'', og_customer := field_of as_id kvs ''customer_id'',
       og_refund_owed := field_of as_bool kvs ''refund_owed'', og_from := field_of as_time kvs ''placed_from'',
       og_to := field_of as_time kvs ''placed_to'', og_q := field_of as_str kvs ''q''\<rparr>)
   | _ \<Rightarrow> None)"

section \<open>Starting an export\<close>

definition start_export_tx :: "ctx \<Rightarrow> uuid \<Rightarrow> order_filter \<Rightarrow> job stmt" where
  "start_export_tx c i f =
    bindT (create_job c i ''order_export'' (filter_dyn f) (actor_of c)) (\<lambda>j.
    thenT (audit c \<lparr>ae_action = ''order.export'', ae_subject_type = ''job'', ae_subject_id = DId i, ae_before = None,
      ae_after = Some (filter_dyn f)\<rparr>)
    (retT j))"

text \<open>\<open>i\<close> is the id of \<open>uuid.NewV7\<close>; \<open>enqueue\<close> is Redis's answer, asked once the row is committed.\<close>

definition start_export :: "err option \<Rightarrow> ctx \<Rightarrow> uuid \<Rightarrow> order_filter \<Rightarrow> db \<Rightarrow> (err + uuid) \<times> db" where
  "start_export enqueue c i f s = (case in_tenant_tx c (start_export_tx c i f) s of
      (Inl e, s') \<Rightarrow> (Inl e, s')
    | (Inr j, s') \<Rightarrow> (case enqueue of Some e \<Rightarrow> (Inl e, s') | None \<Rightarrow> (Inr i, s')))"

section \<open>The file\<close>

definition export_header :: "string list" where
  "export_header = [''order_number'', ''source'', ''status'', ''placed_at'', ''paid_at'', ''shipped_at'', ''completed_at'',
     ''cancelled_at'', ''refunded_at'', ''payment_method'', ''customer_name'', ''customer_email'', ''customer_phone'',
     ''address_line1'', ''address_line2'', ''address_city'', ''address_province'', ''address_postal_code'', ''courier'',
     ''tracking_number'', ''order_subtotal'', ''order_shipping'', ''order_discount'', ''order_total'', ''line_sku'',
     ''line_title'', ''line_qty'', ''line_unit_price'', ''line_discount'', ''line_total'']"

definition export_pairs :: "pg_text \<Rightarrow> (string \<Rightarrow> string \<Rightarrow> string option) \<Rightarrow> ctx \<Rightarrow> order_filter \<Rightarrow> db \<Rightarrow> (order \<times> order_line) list" where
  "export_pairs pg doc c f s = sort_key (\<lambda>(r, l). (- or_placed_at r, or_id r, ol_id l))
     (concat (map (\<lambda>r. map (Pair r) (filter (\<lambda>l. ol_order l = or_id r) (rows_of ol_tenant (tenant_of c) (order_lines s))))
       (filter (filter_sql pg doc f) (own_orders c s))))"

definition csv_time :: "(instant \<Rightarrow> string) \<Rightarrow> instant option \<Rightarrow> string" where
  "csv_time rfc t = (case t of None \<Rightarrow> [] | Some x \<Rightarrow> rfc x)"

definition export_record :: "(instant \<Rightarrow> string) \<Rightarrow> (string \<Rightarrow> string \<Rightarrow> string option) \<Rightarrow> order \<times> order_line \<Rightarrow> string list" where
  "export_record rfc doc p = (case p of (r, l) \<Rightarrow>
     [or_number r, or_source r, or_status r, rfc (or_placed_at r), csv_time rfc (or_paid_at r),
      csv_time rfc (or_shipped_at r), csv_time rfc (or_completed_at r), csv_time rfc (or_cancelled_at r), csv_time rfc (or_refunded_at r),
      or_payment_method r, deref (doc (or_customer r) ''name''), deref (doc (or_customer r) ''email''), deref (doc (or_customer r) ''phone''),
      deref (doc (or_shipping_address r) ''line1''), deref (doc (or_shipping_address r) ''line2''), deref (doc (or_shipping_address r) ''city''),
      deref (doc (or_shipping_address r) ''province''), deref (doc (or_shipping_address r) ''postal_code''), deref (or_courier r),
      deref (or_tracking_number r), itoa (or_subtotal r), itoa (or_shipping r), itoa (or_discount r), itoa (or_total r),
      ol_sku l, ol_title l, itoa (ol_qty l), itoa (ol_unit_price l), itoa (ol_discount l),
      itoa (wrap64 (wrap64 (ol_unit_price l * ol_qty l) - ol_discount l))])"

text \<open>\<open>encoding/csv\<close>'s writer: a field with a delimiter, a quote or a line end in it, or that begins with a space, is
  quoted with its quotes doubled, and so is the text PostgreSQL reads as the end of data.\<close>

definition needs_quotes :: "string \<Rightarrow> bool" where
  "needs_quotes f \<longleftrightarrow> f = [CHR 0x5C, CHR ''.''] \<or> CHR '','' \<in> set f \<or> quote_mark \<in> set f \<or> cr \<in> set f \<or> nl \<in> set f \<or>
     strip_one space_runes f \<noteq> None"

definition quoted :: "string \<Rightarrow> string" where
  "quoted f = [quote_mark] @ concat (map (\<lambda>ch. if ch = quote_mark then [ch, ch] else [ch]) f) @ [quote_mark]"

definition csv_field :: "string \<Rightarrow> string" where
  "csv_field f = (if needs_quotes f then quoted f else f)"

fun csv_line :: "string list \<Rightarrow> string" where
  "csv_line [] = [nl]"
| "csv_line [f] = csv_field f @ [nl]"
| "csv_line (f # fs) = csv_field f @ CHR '','' # csv_line fs"

definition export_file :: "string list list \<Rightarrow> string" where
  "export_file recs = bom @ concat (map csv_line recs)"

definition export_key :: "ctx \<Rightarrow> uuid \<Rightarrow> string" where
  "export_key c jid = ''exports/'' @ uuid_string (tenant_of c) @ ''/'' @ uuid_string jid @ ''.csv''"

definition export_handler :: "pg_text \<Rightarrow> (string \<Rightarrow> string \<Rightarrow> string option) \<Rightarrow> (instant \<Rightarrow> string) \<Rightarrow> (string \<Rightarrow> string \<Rightarrow> err option) \<Rightarrow> handler" where
  "export_handler pg doc rfc put c job s =
    (case dyn_filter (jb_params job) of None \<Rightarrow> (Inl (Opaque ''json: cannot unmarshal''), s)
     | Some f \<Rightarrow> (case in_tenant_tx c (readT (\<lambda>s. map (export_record rfc doc) (export_pairs pg doc c f s))) s of
        (Inl e, s') \<Rightarrow> (Inl e, s')
      | (Inr recs, s') \<Rightarrow> (case put (export_key c (jb_id job)) (export_file (export_header # recs)) of
          Some e \<Rightarrow> (Inl e, s')
        | None \<Rightarrow> let n = int (length recs) in (case in_tenant_tx c (job_progress c (jb_id job) (wrap32 n) (Some (wrap32 n)) 0) s' of
            (Inl e, s'') \<Rightarrow> (Inl e, s'')
          | (Inr _, s'') \<Rightarrow> (Inr (Some (Marshals (DObj [(''result_key'', DStr (export_key c (jb_id job))), (''rows'', DInt n)]))), s'')))))"

section \<open>What the filters and the file carry\<close>

text \<open>A job carries the filters it was started with, less the list's sort and page.\<close>

lemma map_of_opt: "map_of (dyn_opt k x) j = (if j = k then x else None)"
  by (auto simp: dyn_opt_def split: option.splits)

lemma map_of_opts: "(map_of xs ++ map_of (dyn_opt k x)) j = (if j = k \<and> x \<noteq> None then x else map_of xs j)"
  by (auto simp: map_add_def map_of_opt split: option.splits)

lemma as_fields:
  "(case map_option DStr x of None \<Rightarrow> None | Some d \<Rightarrow> as_str d) = x" "(case map_option DId u of None \<Rightarrow> None | Some d \<Rightarrow> as_id d) = u"
  "(case map_option DBool b of None \<Rightarrow> None | Some d \<Rightarrow> as_bool d) = b" "(case map_option DTime t of None \<Rightarrow> None | Some d \<Rightarrow> as_time d) = t"
  "as_strs (DList (map DStr xs)) = Some xs"
proof -
  have "map (\<lambda>x. deref (as_str x)) (map DStr xs) = xs" by (induction xs) (simp_all add: as_str_def deref_def)
  then show "as_strs (DList (map DStr xs)) = Some xs" by (simp add: as_strs_def)
qed (simp_all add: as_str_def as_id_def as_bool_def as_time_def split: option.splits)

lemma filter_carried: "dyn_filter (filter_dyn f) = Some (f\<lparr>og_sort := [], og_after := None, og_page := 0, og_limit := 0\<rparr>)"
proof -
  obtain kvs where d: "filter_dyn f = DObj kvs" and
    m: "map_of kvs ''status'' = (if og_status f = [] then None else Some (DList (map DStr (og_status f))))"
      "map_of kvs ''source'' = map_option DStr (og_source f)" "map_of kvs ''customer_id'' = map_option DId (og_customer f)"
      "map_of kvs ''refund_owed'' = map_option DBool (og_refund_owed f)" "map_of kvs ''placed_from'' = map_option DTime (og_from f)"
      "map_of kvs ''placed_to'' = map_option DTime (og_to f)" "map_of kvs ''q'' = map_option DStr (og_q f)"
    by (rule that [OF filter_dyn_def]) (simp_all add: map_add_def map_of_opt option.case_eq_if)
  show ?thesis
    unfolding d dyn_filter_def by (cases f) (simp add: field_of_def m [simplified] as_fields [simplified] all_orders_def)
qed

lemma plain_cell_field:
  assumes "CHR '','' \<notin> set f" "nl \<notin> set f"
  shows "plain_cell (CHR '','') (f @ CHR '','' # s) = (f, Next_Field, s)" "plain_cell (CHR '','') (f @ nl # s) = (f, End_Record, s)"
  using assms by (induction f) (auto simp: nl_def)

definition doubled :: "string \<Rightarrow> string" where
  "doubled f = concat (map (\<lambda>ch. if ch = quote_mark then [ch, ch] else [ch]) f)"

lemma quoted_cell_field:
  "quoted_cell (CHR '','') (doubled f @ quote_mark # CHR '','' # s) = (f, Next_Field, s)"
  "quoted_cell (CHR '','') (doubled f @ quote_mark # nl # s) = (f, End_Record, s)"
proof -
  have "quoted_cell (CHR '','') (doubled f @ quote_mark # d # s) = (f, e, s)" if "(d, e) = (CHR '','', Next_Field) \<or> (d, e) = (nl, End_Record)" for d e
  proof (induction f)
    case Nil
    then show ?case using that by (auto simp: doubled_def quote_mark_def nl_def)
  next
    case (Cons ch f)
    obtain x y where rest: "doubled f @ quote_mark # d # s = x # y" by (cases "doubled f") auto
    show ?case
    proof (cases "ch = quote_mark")
      case True
      then show ?thesis using Cons by (simp add: doubled_def)
    next
      case False
      then show ?thesis using Cons rest by (simp add: doubled_def)
    qed
  qed
  then show "quoted_cell (CHR '','') (doubled f @ quote_mark # CHR '','' # s) = (f, Next_Field, s)"
    "quoted_cell (CHR '','') (doubled f @ quote_mark # nl # s) = (f, End_Record, s)" by simp_all
qed

lemma cell_field:
  "cell (CHR '','') (csv_field f @ CHR '','' # s) = (f, Next_Field, s)"
  "cell (CHR '','') (csv_field f @ nl # s) = (f, End_Record, s)"
proof -
  have "cell (CHR '','') (csv_field f @ CHR '','' # s) = (f, Next_Field, s) \<and> cell (CHR '','') (csv_field f @ nl # s) = (f, End_Record, s)"
  proof (cases "needs_quotes f")
    case True
    then show ?thesis
      using quoted_cell_field [of f s] by (simp add: csv_field_def cell_def quoted_def doubled_def)
  next
    case False
    then have f: "CHR '','' \<notin> set f" "nl \<notin> set f" "quote_mark \<notin> set f" by (auto simp: needs_quotes_def)
    have "cell (CHR '','') (f @ d # s) = plain_cell (CHR '','') (f @ d # s)" if "d \<noteq> quote_mark" for d
      using f(3) that by (cases f) (auto simp: cell_def)
    then show ?thesis using False plain_cell_field [OF f(1,2)] by (simp add: csv_field_def nl_def quote_mark_def)
  qed
  then show "cell (CHR '','') (csv_field f @ CHR '','' # s) = (f, Next_Field, s)"
    "cell (CHR '','') (csv_field f @ nl # s) = (f, End_Record, s)" by blast+
qed

lemma record_line: "fs \<noteq> [] \<Longrightarrow> csv_record (CHR '','') (csv_line fs @ s) = (fs, s)"
proof (induction fs rule: csv_line.induct)
  case (2 f)
  show ?case by (subst csv_record.simps) (simp add: cell_field)
next
  case (3 f g fs)
  have "csv_record (CHR '','') (csv_line (g # fs) @ s) = (g # fs, s)" by (rule 3) simp
  then show ?case by (subst csv_record.simps) (simp add: cell_field)
qed simp

lemma records_lines:
  assumes "list_all (\<lambda>fs. fs \<noteq> [] \<and> fs \<noteq> [[]]) recs"
  shows "map snd (csv_records (CHR '','') n (concat (map csv_line recs))) = recs"
  using assms
proof (induction recs arbitrary: n)
  case Nil
  show ?case by (subst csv_records.simps) simp
next
  case (Cons fs recs)
  let ?rest = "concat (map csv_line recs)"
  have first: "\<exists>ch t. csv_line fs @ ?rest = ch # t \<and> ch \<noteq> nl"
  proof -
    obtain f gs where fs: "fs = f # gs" using Cons.prems by (cases fs) auto
    show ?thesis
    proof (cases "csv_field f")
      case Nil
      then have "f = []" by (auto simp: csv_field_def quoted_def split: if_splits)
      then show ?thesis using fs Cons.prems Nil by (cases gs) (simp_all add: nl_def)
    next
      case (Cons ch t)
      moreover have "ch \<noteq> nl"
        using Cons by (auto simp: csv_field_def quoted_def needs_quotes_def quote_mark_def nl_def split: if_splits)
      ultimately show ?thesis using fs by (cases gs) simp_all
    qed
  qed
  then obtain ch t where t: "csv_line fs @ ?rest = ch # t" "ch \<noteq> nl" by blast
  have "csv_record (CHR '','') (ch # t) = (fs, ?rest)" using record_line [of fs ?rest] Cons.prems t(1) by simp
  then have "csv_records (CHR '','') n (ch # t) = (n, fs) # csv_records (CHR '','') (n + line_ends (take (length (ch # t) - length ?rest) (ch # t))) ?rest"
    using t(2) by (subst csv_records.simps) simp
  then show ?case using Cons.IH Cons.prems t(1) by simp
qed

lemma crlf_none: "cr \<notin> set s \<Longrightarrow> crlf s = s"
  by (induction s rule: crlf.induct) auto

lemma csv_line_cr: "list_all (\<lambda>f. cr \<notin> set f) fs \<Longrightarrow> cr \<notin> set (csv_line fs)"
  by (induction fs rule: csv_line.induct) (auto simp: csv_field_def quoted_def nl_def cr_def quote_mark_def)

text \<open>The first line names the columns: commas, and no semicolon.\<close>

definition column_char :: "char \<Rightarrow> bool" where
  "column_char ch \<longleftrightarrow> visible_ascii ch \<and> ch \<noteq> CHR '','' \<and> ch \<noteq> CHR '';'' \<and> ch \<noteq> quote_mark \<and> ch \<noteq> CHR 0x5C"

lemma header_columns: "list_all (\<lambda>f. f \<noteq> [] \<and> list_all column_char f) export_header"
  by (simp add: export_header_def column_char_def visible_ascii_def quote_mark_def)

lemma column_plain:
  assumes "f \<noteq> []" "list_all column_char f"
  shows "csv_field f = f" "trim_space f = f" "nl \<notin> set f" "cr \<notin> set f" "CHR '';'' \<notin> set f"
proof -
  have all: "column_char ch" if "ch \<in> set f" for ch using assms(2) that by (simp add: list_all_iff)
  show "trim_space f = f" using assms(1) all by (intro trim_space_visible) (auto simp: column_char_def)
  show n: "nl \<notin> set f" "cr \<notin> set f" "CHR '';'' \<notin> set f"
    using all [of nl] all [of cr] all [of "CHR '';''"] by (auto simp: column_char_def visible_ascii_def nl_def cr_def)
  have "strip_one space_runes f = None"
    using assms(1) all by (cases f) (auto simp: column_char_def intro!: strip_one_visible)
  then show "csv_field f = f"
    using n all [of "CHR '',''"] all [of quote_mark] all [of "CHR 0x5C"] by (auto simp: csv_field_def needs_quotes_def column_char_def)
qed

lemma header_line_plain:
  assumes "list_all (\<lambda>f. f \<noteq> [] \<and> list_all column_char f) fs" "fs \<noteq> []"
  shows "\<exists>l. csv_line fs = l @ [nl] \<and> nl \<notin> set l \<and> CHR '';'' \<notin> set l \<and> length l < sum_list (map (\<lambda>f. Suc (length f)) fs)"
  using assms
proof (induction fs rule: csv_line.induct)
  case (3 f g fs)
  then obtain l where l: "csv_line (g # fs) = l @ [nl]" "nl \<notin> set l" "CHR '';'' \<notin> set l"
    "length l < sum_list (map (\<lambda>f. Suc (length f)) (g # fs))" by auto
  show ?case
    by (rule exI [of _ "f @ CHR '','' # l"]) (use 3 l column_plain [of f] in \<open>auto simp: nl_def\<close>)
qed (auto simp: column_plain)

lemma delimiter_header: "delimiter (csv_line export_header @ s) = CHR '',''"
proof -
  obtain l where l: "csv_line export_header = l @ [nl]" "nl \<notin> set l" "CHR '';'' \<notin> set l"
    "length l < sum_list (map (\<lambda>f. Suc (length f)) export_header)"
    using header_line_plain [OF header_columns] by (auto simp: export_header_def)
  have "length l < 4096" by (rule less_trans [OF l(4)]) (simp add: export_header_def)
  then have "takeWhile (\<lambda>ch. ch \<noteq> nl) (take 4096 (csv_line export_header @ s)) = l"
    using l(2) by (simp add: l(1) take_Cons') (subst takeWhile_append2; auto)
  moreover have "filter (\<lambda>ch. ch = CHR '';'') l = []" using l(3) by (auto simp: filter_empty_conv)
  ultimately show ?thesis by (simp add: delimiter_def)
qed

text \<open>No record of the file is all blank: the amounts are digits.\<close>

lemma digits_visible: "list_all visible_ascii (itoa n) \<and> itoa n \<noteq> []"
proof -
  have "list_all visible_ascii (itoa_nat m) \<and> itoa_nat m \<noteq> []" for m
  proof (induction m rule: itoa_nat.induct)
    case (1 m)
    have "visible_ascii (digit d)" if "d < 10" for d
      using that by (simp add: visible_ascii_def digit_def)
    then show ?case using 1 by (subst (1 2) itoa_nat.simps) simp
  qed
  then show ?thesis by (simp add: itoa_def visible_ascii_def)
qed

lemma amount_not_blank: "\<not> blank (itoa n)"
proof -
  have "trim_space (itoa n) = itoa n" using digits_visible [of n] by (intro trim_space_visible) (auto simp: list_all_iff)
  then show ?thesis using digits_visible [of n] by (simp add: blank_def)
qed

lemma record_kept: "export_record rfc doc p \<noteq> []" "export_record rfc doc p \<noteq> [[]]" "\<not> list_all blank (export_record rfc doc p)"
  by (simp_all add: export_record_def amount_not_blank split: prod.splits)

text \<open>C37. The export reads back: with no carriage return in the values, reading the file a worker writes, the way the import
  reads one, gives the header and, in order, every record written, cell for cell.\<close>

theorem export_reads_back:
  assumes "list_all (\<lambda>p. list_all (\<lambda>f. cr \<notin> set f) (export_record rfc doc p)) ps"
  shows "\<exists>rows. read_csv (export_file (export_header # map (export_record rfc doc) ps)) mapping = Inr (export_header, rows) \<and>
    map ir_raw rows = map (export_record rfc doc) ps"
proof -
  let ?recs = "export_header # map (export_record rfc doc) ps"
  define body where "body = concat (map csv_line ?recs)"
  have written: "prefix bom (export_file ?recs)" "drop 3 (export_file ?recs) = body"
    by (simp_all add: export_file_def body_def bom_def)
  have heads: "list_all (\<lambda>f. cr \<notin> set f) export_header" "map trim_space export_header = export_header"
    using header_columns by (auto simp: list_all_iff column_plain intro!: map_idI)
  have "cr \<notin> set (csv_line fs)" if "fs \<in> set ?recs" for fs
    using that heads assms by (intro csv_line_cr) (auto simp: list_all_iff)
  then have "crlf body = body" by (intro crlf_none) (auto simp: body_def)
  moreover have "delimiter body = CHR '',''" unfolding body_def list.map concat.simps by (rule delimiter_header)
  moreover have "map snd (csv_records (CHR '','') 1 body) = ?recs"
    unfolding body_def by (rule records_lines) (auto simp: list_all_iff record_kept export_header_def)
  then obtain n rs where rs: "csv_records (CHR '','') 1 body = (n, export_header) # rs" "map snd rs = map (export_record rfc doc) ps"
    by (cases "csv_records (CHR '','') 1 body") auto
  moreover have "filter (\<lambda>(_, fs). \<not> list_all blank fs) rs = rs"
  proof (rule filter_True)
    show "\<forall>x \<in> set rs. case x of (_, fs) \<Rightarrow> \<not> list_all blank fs"
    proof
      fix x assume "x \<in> set rs"
      then have "snd x \<in> set (map (export_record rfc doc) ps)" by (simp flip: rs(2))
      then show "case x of (_, fs) \<Rightarrow> \<not> list_all blank fs" by (cases x) (auto simp: record_kept)
    qed
  qed
  ultimately show ?thesis
    using rs(2) by (simp add: read_csv_def written Let_def heads case_prod_beta comp_def)
qed

text \<open>An order of one line, for a customer whose name holds the delimiter and the quote.\<close>

definition sample_sold :: "order \<times> order_line" where
  "sample_sold = (sample_order, \<lparr>ol_id = 1, ol_tenant = 7, ol_order = 1, ol_variant = 2, ol_sku = ''KMJ-01'', ol_title = ''Kemeja; putih'',
     ol_qty = 2, ol_unit_price = 150, ol_discount = 0\<rparr>)"

definition sample_doc :: "string \<Rightarrow> string \<Rightarrow> string option" where
  "sample_doc d k = (if k = ''name'' then Some (''Adi, '' @ [quote_mark] @ ''Budi'' @ [quote_mark]) else None)"

definition sample_rfc :: "instant \<Rightarrow> string" where
  "sample_rfc t = ''2025-01-01T00:00:00Z''"

lemma itoa_no_cr: "cr \<notin> set (itoa n)"
  using digits_visible [of n] by (auto simp: list_all_iff visible_ascii_def cr_def)

lemma sold_no_cr: "list_all (\<lambda>f. cr \<notin> set f) (export_record sample_rfc sample_doc sample_sold)"
  by (simp add: export_record_def sample_sold_def sample_order_def itoa_no_cr csv_time_def sample_rfc_def sample_doc_def)
    (simp add: cr_def quote_mark_def deref_def S_manual_def S_pending_def S_bank_transfer_def)

theorem export_reads_back_witness:
  "\<exists>rows. read_csv (export_file (export_header # map (export_record sample_rfc sample_doc) [sample_sold])) [] = Inr (export_header, rows) \<and>
    map ir_raw rows = map (export_record sample_rfc sample_doc) [sample_sold]"
  by (rule export_reads_back) (simp add: sold_no_cr)

end
