(* ===== verification/Spec2Isabelle.thy ===== *)
theory Spec2Isabelle
  imports Shop Rotation Catalog ImportRuns ListPages MatrixGrid FreeNames CatalogCorners AccountSamples BlogReads ExcerptBound
    LimitKeys KeyRuns DashboardSums OrderExport
begin

text \<open>
  A model of the commerce API: the Go services under \<open>internal/\<close>, over the tables of
  \<open>db/migrations\<close>, read and written through the statements of \<open>internal/db/sqlcgen\<close>.

  \<^bold>\<open>Reading order.\<close> \<open>Prelude\<close> holds identifiers, instants, Go's integer wrap-around and decimal
  text; \<open>Txn\<close> the transactions: a statement is a function from a database to an error or a result
  with the new database, composed in sequence, committed or rolled back by \<open>run_tx\<close>, together with
  the locales \<open>tx_relation\<close> (a relation between databases every statement of a transaction keeps)
  and \<open>row_store\<close> (a table keyed by tenant and id). \<open>Errors\<close> is \<open>internal/platform/errors\<close>;
  \<open>Schema\<close> the rows, the request context and \<open>InTenantTx\<close>; \<open>OrderQueries\<close> and
  \<open>CheckoutQueries\<close> the statements with the constraints of the migrations.

  \<^bold>\<open>The order services\<close> (\<open>internal/orders\<close>, \<open>internal/carts\<close>): \<open>OrderState\<close> has the transitions,
  edits and refunds, \<open>OrderCreate\<close> the manual orders and shipping quotes, \<open>Carts\<close> the carts,
  \<open>Payments\<close> the Midtrans attempts and pay-again, \<open>Checkout\<close> the checkout and \<open>Notify\<close> the
  payment webhook. An operation's name is the Go method's with the suffix \<open>_op\<close>; it maps the
  world (the database and the queued emails) to a result and the next world. What the Go code
  does inside \<open>InTenantTx\<close> is the definition without the suffix.

  \<open>Jobs\<close> has the rows and outcomes of background jobs, \<open>Purge\<close> the erasing of a customer and the nightly
  sweep, and \<open>Shop\<close> puts the services of orders, carts and payments together: each committed transaction is a
  rule of one step relation, each operation a sequence of such steps between which others may come.

  \<^bold>\<open>People of a shop.\<close> \<open>Base64\<close>, \<open>Tokens\<close>, \<open>Roles\<close>, \<open>Passwords\<close> and \<open>Google\<close> are the pure parts of
  internal/auth (layouts of tokens and stored passwords, permissions, what is accepted of a Google
  token); \<open>AuthQueries\<close> the statements; \<open>Sessions\<close> signing in, refreshing and signing out, with the password
  resets; \<open>Rotation\<close> the refresh tokens when requests overlap, as a step relation in which the check and
  the store of one request are two transactions; \<open>Team\<close> the staff, signups and settings of internal/team.
  \<open>Uniques\<close> has the generic facts on unique keys of a table. \<open>CustomerQueries\<close>, \<open>Customers\<close> and \<open>Accounts\<close>
  are the customer accounts of internal/customers and what every run of them keeps, \<open>AccountSamples\<close> runs on
  a sample shop and two gaps.

  \<^bold>\<open>Catalog.\<close> \<open>CatalogQueries\<close>, \<open>VariantQueries\<close>, \<open>MediaQueries\<close> and \<open>CategoryQueries\<close> are the
  statements with their constraints and triggers in the order PostgreSQL tries them; \<open>Products\<close>, \<open>Variants\<close>,
  \<open>Matrix\<close>, \<open>Bulk\<close>, \<open>Brands\<close>, \<open>Categories\<close> and \<open>MediaOps\<close> (over the texts of \<open>Uuids\<close>) the operations of
  the files of internal/catalog with those names; \<open>Runes\<close>, \<open>Trims\<close> and \<open>Csv\<close> the texts of an import and \<open>Import\<close>
  its worker; \<open>ProductLists\<close> the lists of both APIs. The theorems are in \<open>Catalog\<close> (every write keeps the
  catalog well formed and the shops apart), \<open>CategoryTree\<close> (paths and parents agree; the forest),
  \<open>MatrixGrid\<close> (what a matrix save leaves), \<open>ImportRuns\<close> (batches and restarts), \<open>ListPages\<close> (keyset pages are
  the list), \<open>FreeNames\<close> (the searches for a free slug and path end) and \<open>CatalogCorners\<close> (divergences).

  \<^bold>\<open>Blog.\<close> \<open>BlogQueries\<close> are its statements, \<open>Regexps\<close> and \<open>Excerpts\<close> the excerpt a post without one shows,
  with its length bounded in \<open>ExcerptBound\<close>; \<open>Blog\<close> the operations of internal/blog, \<open>BlogRuns\<close> what every run
  keeps and \<open>BlogReads\<close> the storefront's pages.

  \<^bold>\<open>Reading orders.\<close> \<open>OrderLists\<close> are the order list, a shopper's orders, the order's detail and the
  customers as staff see them, \<open>Dashboard\<close> the dashboard with its statements, \<open>DashboardSums\<close> that its parts add
  up and agree with the lists; \<open>OrderExport\<close> the export job and its CSV file, which reads back.

  \<^bold>\<open>In front of the services.\<close> \<open>Limits\<close> are the rate limits (the script of internal/queue/redis.go, the
  fallback and the rules of internal/ratelimit, internal/http and internal/storefront), \<open>LimitRuns\<close> what a run of them
  lets through and \<open>LimitKeys\<close> that counters do not meet. \<open>ApiKeys\<close> and \<open>Keys\<close> are the API keys of a shop
  (internal/team/api_keys.go) and the storefront's gate with its cache (internal/storefront/keys.go), \<open>KeyRuns\<close> what
  every run of both answers.

  \<^bold>\<open>What the lemmas show.\<close> For each group: the statements' effect on the rows they touch and no others
  (\<open>within\<close> and \<open>writeT\<close> lemmas, relative to a relation a locale of \<open>Txn\<close> interprets), the invariant each
  operation keeps (by rule induction over the group's step relation), the operation's result on its
  success and refusal branches, and the corners where the code departs from its documents, each with a
  concrete run.

  \<^bold>\<open>Bounds and fuel.\<close> \<open>first_free\<close> and \<open>next_path\<close> try as many numbers as the table has rows, plus one, which
  \<open>FreeNames\<close> proves enough. A Google check draws keys at most twice, as the code does. Walks up the category
  tree are bounded by the number of rows, which the forest invariant makes enough. Integers that the code holds in 32 or
  64 bits are \<open>int\<close> with \<open>wrap32\<close> and \<open>wrap64\<close> where the code computes with them.

  \<^bold>\<open>Parameters.\<close> Code outside the repository is an argument of the operations that use it: the
  quoting service (\<open>rates\<close>), Midtrans and the box of sealed keys (\<open>gateway\<close>, \<open>notifier\<close>), the
  email queue (\<open>mailer\<close>), fresh ids. None has an assumption unless a theorem names it.

  \<^bold>\<open>Concurrency.\<close> Every write path locks the row it decides on before reading it, so transactions
  are modelled as atomic steps; the calls a service makes outside its transaction (queueing an
  email, asking Midtrans for a link after the commit) are separate parts of the operation.

  \<^bold>\<open>Not modelled.\<close> The generated bindings (internal/http/gen.go, internal/storefront/gen.go) and the handlers
  over them, which decode JSON and call the services; rendering and sending email, image
  conversion, the S3 client, configuration, logging and telemetry, the commands and their seed data, which
  are input and output.
\<close>

end
